(* ===== verification/Prelude.thy ===== *)
theory Prelude
  imports Complex_Main "HOL-Library.Product_Lexorder"
begin

text \<open>
  Shared vocabulary of the development: Python values the source uses (UUIDs, instants, text,
  floats), results with exceptions as values, and relational tables as lists of rows.

  A table is a list of rows in insertion order. A query is \<open>filter\<close>, \<open>sort_key\<close> and \<open>take\<close>
  on that list; an ORM assignment to a loaded row is \<open>rows_put\<close>, which replaces the row with
  the same primary key. The locale \<open>row_store\<close> states the laws of one table inside a larger
  state; every table of the schema is an interpretation of it.
\<close>

named_theorems view_simps \<open>how the per-run views of the ledger change under the row operations\<close>
named_theorems frame_simps \<open>tables an operation leaves alone\<close>

section \<open>Python values\<close>

text \<open>A UUID is its 128-bit integer; its order is the one \<open>ORDER BY id\<close> uses. Instants and
  durations are integers in microseconds, the resolution of Python's \<open>datetime\<close>; an instant is
  UTC, as every value read by the services has passed through \<open>_utc\<close>.\<close>

type_synonym uuid = nat
type_synonym instant = int
type_synonym duration = int

text \<open>Text that reaches the program from outside is a list of Unicode code points, so that
  \<open>length\<close> is Python's \<open>len\<close>. Byte strings are lists of numbers below 256.\<close>

type_synonym ustr = "nat list"
type_synonym bytes = "nat list"

definition ustr_of :: "string \<Rightarrow> ustr" where
  "ustr_of s = map of_char s"

text \<open>The code points \<open>str.strip\<close> and \<open>str.isspace\<close> treat as white space, and \<open>strip\<close>.\<close>

definition py_space :: "nat \<Rightarrow> bool" where
  "py_space c \<longleftrightarrow> (9 \<le> c \<and> c \<le> 13) \<or> (28 \<le> c \<and> c \<le> 32) \<or> c = 133 \<or> c = 160 \<or> c = 5760
     \<or> (8192 \<le> c \<and> c \<le> 8202) \<or> c = 8232 \<or> c = 8233 \<or> c = 8239 \<or> c = 8287 \<or> c = 12288"

definition ustr_strip :: "ustr \<Rightarrow> ustr" where
  "ustr_strip s = rev (dropWhile py_space (rev (dropWhile py_space s)))"

definition seconds :: "int \<Rightarrow> duration" where
  "seconds n = n * 1000000"

definition days :: "int \<Rightarrow> duration" where
  "days n = n * 86400 * 1000000"

text \<open>A datetime as Python has it: a wall-clock reading and, if it is aware, its UTC offset.\<close>

record pydatetime =
  wall :: int
  utcoffset :: "int option"

text \<open>The floats of the configuration: rationals and the three special values.\<close>

datatype pyfloat = Fin rat | PosInf | NegInf | NaN

fun isfinite :: "pyfloat \<Rightarrow> bool" where
  "isfinite (Fin _) = True"
| "isfinite _ = False"

fun pf_less :: "pyfloat \<Rightarrow> pyfloat \<Rightarrow> bool" where
  "pf_less NaN _ = False"
| "pf_less _ NaN = False"
| "pf_less (Fin a) (Fin b) = (a < b)"
| "pf_less NegInf NegInf = False"
| "pf_less NegInf _ = True"
| "pf_less _ PosInf = True"
| "pf_less _ _ = False"

fun pf_le :: "pyfloat \<Rightarrow> pyfloat \<Rightarrow> bool" where
  "pf_le NaN _ = False"
| "pf_le _ NaN = False"
| "pf_le (Fin a) (Fin b) = (a \<le> b)"
| "pf_le NegInf _ = True"
| "pf_le _ PosInf = True"
| "pf_le _ _ = False"

section \<open>Results\<close>

text \<open>\<open>Inl e\<close> is a raised exception, \<open>Inr x\<close> a normal return. \<open>and_then\<close> sequences two
  calls, \<open>fold_res\<close> is a Python \<open>for\<close> loop whose body may raise.\<close>

definition and_then :: "'e + 'a \<Rightarrow> ('a \<Rightarrow> 'e + 'b) \<Rightarrow> 'e + 'b" where
  "and_then m k = (case m of Inl e \<Rightarrow> Inl e | Inr x \<Rightarrow> k x)"

lemma and_then_simps [simp]:
  "and_then (Inl e) k = Inl e"
  "and_then (Inr x) k = k x"
  by (simp_all add: and_then_def)

lemma and_then_Inr: "and_then m k = Inr y \<longleftrightarrow> (\<exists>x. m = Inr x \<and> k x = Inr y)"
  by (cases m) auto

lemma and_then_Inl: "and_then m k = Inl e \<longleftrightarrow> m = Inl e \<or> (\<exists>x. m = Inr x \<and> k x = Inl e)"
  by (cases m) auto

fun fold_res :: "('a \<Rightarrow> 's \<Rightarrow> 'e + 's) \<Rightarrow> 'a list \<Rightarrow> 's \<Rightarrow> 'e + 's" where
  "fold_res f [] s = Inr s"
| "fold_res f (x # xs) s = and_then (f x s) (fold_res f xs)"

lemma fold_res_append:
  "fold_res f (xs @ ys) s = and_then (fold_res f xs s) (fold_res f ys)"
  by (induction xs arbitrary: s) (auto simp: and_then_def split: sum.splits)

text \<open>An invariant of the body is an invariant of the loop.\<close>

lemma fold_res_invariant:
  assumes "fold_res f xs s = Inr s'" and "P s"
    and "\<And>x s s'. x \<in> set xs \<Longrightarrow> P s \<Longrightarrow> f x s = Inr s' \<Longrightarrow> P s'"
  shows "P s'"
  using assms
proof (induction xs arbitrary: s)
  case (Cons x xs)
  then obtain t where "f x s = Inr t" "fold_res f xs t = Inr s'" by (auto simp: and_then_Inr)
  with Cons.prems(2,3) show ?case by (intro Cons.IH [of t]) auto
qed simp

section \<open>Tables\<close>

definition rows_put :: "('r \<Rightarrow> 'k) \<Rightarrow> 'r \<Rightarrow> 'r list \<Rightarrow> 'r list" where
  "rows_put key r rows = map (\<lambda>x. if key x = key r then r else x) rows"

definition first_row :: "'r list \<Rightarrow> 'r option" where
  "first_row rows = (case rows of [] \<Rightarrow> None | r # _ \<Rightarrow> Some r)"

definition order_by_limit :: "('r \<Rightarrow> 'k::linorder) \<Rightarrow> nat \<Rightarrow> 'r list \<Rightarrow> 'r list" where
  "order_by_limit key n rows = take n (sort_key key rows)"

text \<open>\<open>select(func.max(column))\<close> followed by \<open>(result or 0) + 1\<close>.\<close>

definition next_sequence :: "nat list \<Rightarrow> nat" where
  "next_sequence xs = foldr max xs 0 + 1"

lemma first_row_simps [simp]:
  "first_row [] = None"
  "first_row (r # rs) = Some r"
  by (simp_all add: first_row_def)

lemma first_row_None [simp]: "first_row rows = None \<longleftrightarrow> rows = []"
  by (cases rows) auto

lemma first_row_Some: "first_row rows = Some r \<Longrightarrow> r \<in> set rows"
  by (cases rows) auto

lemma first_row_filter_Some:
  "first_row (filter P rows) = Some r \<Longrightarrow> r \<in> set rows \<and> P r"
  using first_row_Some [of "filter P rows" r] by simp

lemma set_order_by_limit: "set (order_by_limit key n rows) \<subseteq> set rows"
  by (auto simp: order_by_limit_def dest: in_set_takeD)

lemma length_order_by_limit: "length (order_by_limit key n rows) = min (length rows) n"
  by (simp add: order_by_limit_def)

lemma distinct_order_by_limit: "distinct rows \<Longrightarrow> distinct (order_by_limit key n rows)"
  by (simp add: order_by_limit_def)

lemma order_by_limit_Nil [simp]: "order_by_limit key n [] = []"
  by (simp add: order_by_limit_def)

text \<open>A ledger's sequence column: the numbers 1, 2, ... in insertion order.\<close>

definition contiguous :: "nat list \<Rightarrow> bool" where
  "contiguous xs \<longleftrightarrow> xs = [1..<Suc (length xs)]"

lemma foldr_max_snoc: "foldr max (xs @ [y]) (0::nat) = max (foldr max xs 0) y"
  by (induction xs) auto

lemma foldr_max_contiguous: "foldr max [1..<Suc n] 0 = n"
proof (induction n)
  case (Suc n)
  have "[1..<Suc (Suc n)] = [1..<Suc n] @ [Suc n]" by simp
  with Suc show ?case by (simp only: foldr_max_snoc)
qed simp

lemma next_sequence_contiguous: "contiguous xs \<Longrightarrow> next_sequence xs = Suc (length xs)"
  unfolding contiguous_def next_sequence_def by (metis Suc_eq_plus1 foldr_max_contiguous)

lemma contiguous_Nil [simp]: "contiguous []"
  by (simp add: contiguous_def)

lemma contiguous_snoc: "contiguous xs \<Longrightarrow> contiguous (xs @ [Suc (length xs)])"
  by (simp add: contiguous_def)

lemma contiguous_distinct: "contiguous xs \<Longrightarrow> distinct xs"
  unfolding contiguous_def by (metis distinct_upt)

lemma contiguous_nth: "contiguous xs \<Longrightarrow> i < length xs \<Longrightarrow> xs ! i = Suc i"
  unfolding contiguous_def by (metis One_nat_def add.commute add_Suc_right add_diff_cancel_left'
      length_upt less_diff_conv nth_upt plus_1_eq_Suc)

lemma next_sequence_gt: "x \<in> set xs \<Longrightarrow> x < next_sequence xs"
  by (induction xs) (auto simp: next_sequence_def less_max_iff_disj)

lemma set_rows_put: "set (rows_put key r rows) \<subseteq> insert r (set rows)"
  by (auto simp: rows_put_def)

lemma length_rows_put [simp]: "length (rows_put key r rows) = length rows"
  by (simp add: rows_put_def)

lemma map_key_rows_put [simp]: "map key (rows_put key r rows) = map key rows"
  by (induction rows) (auto simp: rows_put_def)

lemma rows_put_id: "(\<And>x. x \<in> set rows \<Longrightarrow> key x \<noteq> key r) \<Longrightarrow> rows_put key r rows = rows"
  by (induction rows) (auto simp: rows_put_def)

text \<open>The view of a table through a column that the assignment does not change.\<close>

lemma filter_rows_put:
  assumes "\<And>x. x \<in> set rows \<Longrightarrow> key x = key r \<Longrightarrow> col x = col r"
  shows "filter (\<lambda>x. col x = i) (rows_put key r rows)
    = (if i = col r then rows_put key r (filter (\<lambda>x. col x = i) rows)
       else filter (\<lambda>x. col x = i) rows)"
  using assms by (induction rows) (auto simp: rows_put_def)

lemma distinct_map_filter_key:
  "distinct (map key rows) \<Longrightarrow> r \<in> set rows \<Longrightarrow> filter (\<lambda>x. key x = key r) rows = [r]"
proof (induction rows)
  case (Cons x rows)
  show ?case
  proof (cases "x = r")
    case True
    with Cons.prems(1) have "key r \<notin> key ` set rows" by simp
    then have "\<And>y. y \<in> set rows \<Longrightarrow> key y \<noteq> key r" by (metis imageI)
    with True show ?thesis by (simp add: filter_empty_conv)
  next
    case False
    with Cons show ?thesis by auto
  qed
qed simp

text \<open>One table of a larger state: the rows, the update of the column that holds them and the
  primary key.\<close>

locale row_store =
  fixes rows :: "'db \<Rightarrow> 'r list"
    and upd :: "('r list \<Rightarrow> 'r list) \<Rightarrow> 'db \<Rightarrow> 'db"
    and key :: "'r \<Rightarrow> 'k"
  assumes rows_upd: "rows (upd f db) = f (rows db)"
    and upd_upd: "upd f (upd g db) = upd (\<lambda>x. f (g x)) db"
    and upd_id: "upd (\<lambda>x. x) db = db"
begin

lemma keys_put: "map key (rows (upd (rows_put key r) db)) = map key (rows db)"
  by (simp add: rows_upd)

lemma put_member:
  "x \<in> set (rows (upd (rows_put key r) db)) \<Longrightarrow> x = r \<or> x \<in> set (rows db)"
  using set_rows_put [of key r "rows db"] by (auto simp: rows_upd)

lemma put_lookup:
  assumes "distinct (map key (rows db))" and "x \<in> set (rows db)" and "key x = key r"
  shows "filter (\<lambda>y. key y = key r) (rows (upd (rows_put key r) db)) = [r]"
proof -
  have "filter (\<lambda>y. key y = key r) (rows db) = [x]"
    using distinct_map_filter_key [OF assms(1,2)] assms(3) by simp
  then show ?thesis by (simp add: rows_upd filter_rows_put assms(3)) (simp add: rows_put_def assms(3))
qed

lemma put_other:
  "key y \<noteq> key r \<Longrightarrow> y \<in> set (rows db) \<longleftrightarrow> y \<in> set (rows (upd (rows_put key r) db)) "
  by (auto simp: rows_upd rows_put_def image_iff)

lemma insert_member: "set (rows (upd (\<lambda>xs. xs @ [r]) db)) = insert r (set (rows db))"
  by (auto simp: rows_upd)

lemma delete_member: "set (rows (upd (filter P) db)) = {r \<in> set (rows db). P r}"
  by (auto simp: rows_upd)

end

section \<open>Transition systems\<close>

text \<open>A machine given by its start states and its steps: what holds at the start and is kept by
  every step holds in every state it can reach.\<close>

inductive reach :: "('s \<Rightarrow> bool) \<Rightarrow> ('s \<Rightarrow> 's \<Rightarrow> bool) \<Rightarrow> 's \<Rightarrow> bool"
  for init :: "'s \<Rightarrow> bool" and step :: "'s \<Rightarrow> 's \<Rightarrow> bool" where
  start: "init s \<Longrightarrow> reach init step s"
| step: "reach init step s \<Longrightarrow> step s t \<Longrightarrow> reach init step t"

locale machine =
  fixes init :: "'s \<Rightarrow> bool"
    and step :: "'s \<Rightarrow> 's \<Rightarrow> bool"
    and inv :: "'s \<Rightarrow> bool"
  assumes init_inv: "init s \<Longrightarrow> inv s"
    and step_inv: "inv s \<Longrightarrow> step s t \<Longrightarrow> inv t"
begin

lemma reach_inv: "reach init step s \<Longrightarrow> inv s"
  by (induction rule: reach.induct) (auto intro: init_inv step_inv)

lemma steps_inv: "step\<^sup>*\<^sup>* s t \<Longrightarrow> inv s \<Longrightarrow> inv t"
  by (induction rule: rtranclp_induct) (auto intro: step_inv)

lemma steps_reach: "step\<^sup>*\<^sup>* s t \<Longrightarrow> reach init step s \<Longrightarrow> reach init step t"
  by (induction rule: rtranclp_induct) (auto intro: reach.step)

lemma steps_keep:
  assumes "step\<^sup>*\<^sup>* s t" and "inv s" and "P s"
    and "\<And>s t. inv s \<Longrightarrow> step s t \<Longrightarrow> P s \<Longrightarrow> P t"
  shows "P t"
proof -
  from assms(1) have "inv t \<and> P t"
    by (induction rule: rtranclp_induct) (use assms(2-4) step_inv in blast)+
  then show ?thesis by simp
qed

end

end
