(* ===== verification/Exec_Types.thy ===== *)
theory Exec_Types
  imports Prelude
begin

text \<open>
  The allowlisted states, codes and limits of the execution component
  (\<^verbatim>\<open>src/modall/execution/types.py\<close>), with the exceptions its services raise. Enumerations keep the
  source's member names; where two enumerations share a name, the qualified name
  (\<open>RunStatus.QUEUED\<close>, \<open>JobStatus.QUEUED\<close>) tells them apart, as in the source.
\<close>

section \<open>Enumerations\<close>

datatype RunStatus = QUEUED | PREPARING | SESSION_FENCED | DISPATCH_FENCED | SUCCEEDED | FAILED
  | CANCELLED | TIMED_OUT | INDETERMINATE

datatype JobStatus = QUEUED | LEASED | SUCCEEDED | FAILED | CANCELLED | TIMED_OUT | INDETERMINATE

datatype RunEventType = ADMITTED | ATTEMPT_STARTED | SESSION_FENCED | DISPATCH_FENCED | LEASE_LOST
  | CANCEL_REQUESTED | TERMINAL | CONTENT_EXPIRED | RESTORE_RECONCILED

datatype ExecutionFailureCode = INVALID_ARGUMENTS | ARGUMENT_LIMIT | SENSITIVE_ARGUMENTS
  | SCANNER_FAILED | CAPABILITY_UNAVAILABLE | INVALID_CONFIRMATION | CONFIRMATION_EXPIRED
  | CONFIRMATION_REPLAYED | INVALID_IDEMPOTENCY_KEY | IDEMPOTENCY_CONFLICT
  | IDEMPOTENCY_KEY_HISTORY_INCOMPLETE | CONFIRMATION_KEY_HISTORY_INCOMPLETE
  | DISPATCH_QUARANTINED | ACTIVE_RUN_LIMIT | NO_JOB_AVAILABLE | LEASE_LOST | INVALID_TRANSITION
  | PERSISTENCE_FAILURE

datatype RunFailureCode = WORKER_LOST_BEFORE_DISPATCH | WORKER_LOST_AFTER_DISPATCH
  | DEADLINE_EXCEEDED | CANCELLED_BEFORE_DISPATCH | RESTORE_RECONCILIATION
  | CONTENT_RETENTION_DEADLINE | PREPARATION_FAILED | SESSION_INITIALIZATION_FAILED
  | TOOL_CALL_FAILED | INVALID_TOOL_RESULT | UNSUPPORTED_TOOL_RESULT | SENSITIVE_TOOL_RESULT
  | UPSTREAM_OUTCOME_UNKNOWN

text \<open>The exceptions that leave a service call. \<open>IntegrityError\<close> is what a flush raises when the
  pending rows break a constraint of the schema.\<close>

datatype svc_error = ExecutionError ExecutionFailureCode | AuthorizationDenied | ValueError
  | PermissionError | IntegrityError | InvalidConnectionTransition | InvalidCapabilityTransition
  | SecretProviderError

fun terminal_status :: "RunStatus \<Rightarrow> bool" where
  "terminal_status RunStatus.SUCCEEDED = True"
| "terminal_status RunStatus.FAILED = True"
| "terminal_status RunStatus.CANCELLED = True"
| "terminal_status RunStatus.TIMED_OUT = True"
| "terminal_status RunStatus.INDETERMINATE = True"
| "terminal_status _ = False"

fun active_status :: "RunStatus \<Rightarrow> bool" where
  "active_status RunStatus.QUEUED = True"
| "active_status RunStatus.PREPARING = True"
| "active_status RunStatus.SESSION_FENCED = True"
| "active_status RunStatus.DISPATCH_FENCED = True"
| "active_status _ = False"

text \<open>\<open>JobStatus(status.value)\<close>: the job status with the same value; the three attempt statuses
  have none and the enumeration call raises \<open>ValueError\<close>.\<close>

fun JobStatus_of :: "RunStatus \<Rightarrow> JobStatus option" where
  "JobStatus_of RunStatus.QUEUED = Some JobStatus.QUEUED"
| "JobStatus_of RunStatus.SUCCEEDED = Some JobStatus.SUCCEEDED"
| "JobStatus_of RunStatus.FAILED = Some JobStatus.FAILED"
| "JobStatus_of RunStatus.CANCELLED = Some JobStatus.CANCELLED"
| "JobStatus_of RunStatus.TIMED_OUT = Some JobStatus.TIMED_OUT"
| "JobStatus_of RunStatus.INDETERMINATE = Some JobStatus.INDETERMINATE"
| "JobStatus_of _ = None"

lemma active_iff_not_terminal: "active_status s \<longleftrightarrow> \<not> terminal_status s"
  by (cases s) auto

lemma JobStatus_of_terminal: "terminal_status s \<Longrightarrow> \<exists>js. JobStatus_of s = Some js"
  by (cases s) auto

section \<open>Values handed between the services\<close>

record HmacKeyVersion =
  hk_version :: string
  hk_secret :: bytes

record JobLease =
  lease_job_id :: uuid
  lease_run_id :: uuid
  lease_workspace_id :: uuid
  lease_correlation_id :: uuid
  lease_worker_id :: string
  lease_lease_epoch :: nat
  lease_execution_epoch :: nat
  lease_expires_at :: instant

record ReconciledJob =
  rj_job_id :: uuid
  rj_run_id :: uuid
  rj_workspace_id :: uuid
  rj_correlation_id :: uuid
  rj_lease_epoch :: nat
  rj_status :: RunStatus

section \<open>Limits\<close>

definition MAX_ACTIVE_RUNS_PER_WORKSPACE :: int where
  "MAX_ACTIVE_RUNS_PER_WORKSPACE = 100"

record ExecutionLimits =
  max_argument_bytes :: int
  max_result_bytes :: int
  confirmation_ttl_seconds :: int
  max_run_seconds :: int
  argument_retention_days :: int
  result_retention_days :: int
  run_retention_days :: int
  max_idempotency_key_characters :: int
  max_historical_hmac_keys :: int
  schema_validation_timeout_seconds :: pyfloat
  schema_validation_memory_bytes :: int
  reconciliation_batch_size :: int
  max_active_runs_per_workspace :: int

definition default_limits :: ExecutionLimits where
  "default_limits = \<lparr>max_argument_bytes = 65536, max_result_bytes = 262144,
     confirmation_ttl_seconds = 120, max_run_seconds = 300, argument_retention_days = 14,
     result_retention_days = 14, run_retention_days = 90, max_idempotency_key_characters = 256,
     max_historical_hmac_keys = 8, schema_validation_timeout_seconds = Fin 2,
     schema_validation_memory_bytes = 256 * 1024 * 1024, reconciliation_batch_size = 100,
     max_active_runs_per_workspace = MAX_ACTIVE_RUNS_PER_WORKSPACE\<rparr>"

text \<open>The condition under which \<open>__post_init__\<close> raises, disjunct by disjunct.\<close>

definition invalid_limits :: "ExecutionLimits \<Rightarrow> bool" where
  "invalid_limits l \<longleftrightarrow>
     max_argument_bytes l \<le> 0
     \<or> max_result_bytes l \<le> 0
     \<or> \<not> (1 \<le> confirmation_ttl_seconds l \<and> confirmation_ttl_seconds l \<le> 300)
     \<or> max_run_seconds l \<le> 0
     \<or> \<not> (1 \<le> argument_retention_days l \<and> argument_retention_days l \<le> 14)
     \<or> \<not> (1 \<le> result_retention_days l \<and> result_retention_days l \<le> 14)
     \<or> run_retention_days l < argument_retention_days l
     \<or> run_retention_days l < result_retention_days l
     \<or> max_idempotency_key_characters l \<le> 0
     \<or> \<not> (1 \<le> max_historical_hmac_keys l \<and> max_historical_hmac_keys l \<le> 16)
     \<or> \<not> (pf_less (Fin 0) (schema_validation_timeout_seconds l)
           \<and> pf_le (schema_validation_timeout_seconds l) (Fin 5))
     \<or> \<not> isfinite (schema_validation_timeout_seconds l)
     \<or> \<not> (64 * 1024 * 1024 \<le> schema_validation_memory_bytes l
           \<and> schema_validation_memory_bytes l \<le> 256 * 1024 * 1024)
     \<or> \<not> (1 \<le> reconciliation_batch_size l \<and> reconciliation_batch_size l \<le> 1000)
     \<or> \<not> (1 \<le> max_active_runs_per_workspace l
           \<and> max_active_runs_per_workspace l \<le> MAX_ACTIVE_RUNS_PER_WORKSPACE)"

definition post_init_limits :: "ExecutionLimits \<Rightarrow> svc_error + ExecutionLimits" where
  "post_init_limits l = (if invalid_limits l then Inl ValueError else Inr l)"

lemma default_limits_valid: "post_init_limits default_limits = Inr default_limits"
  by (simp add: post_init_limits_def invalid_limits_def default_limits_def
      MAX_ACTIVE_RUNS_PER_WORKSPACE_def)

end
