(* ===== verification/Domain_Types.thy ===== *)
theory Domain_Types
  imports Exec_Types
begin

text \<open>
  The enumerations of identity (\<^verbatim>\<open>identity/types.py\<close>), registry (\<^verbatim>\<open>registry/types.py\<close>) and audit
  (\<^verbatim>\<open>audit/types.py\<close>), the role-to-permission table, and JSON values as Python's decoder builds
  them.
\<close>

section \<open>Identity\<close>

datatype Role = ADMIN | OPERATOR | VIEWER

datatype Permission = VIEW_RESOURCES | VIEW_AUDIT | SEARCH_REGISTRY
  | MANAGE_CONNECTION_CONFIGURATION | VERIFY_CONNECTION | MANAGE_CAPABILITY | INVOKE
  | DISABLE_CONNECTION | ENABLE_CONNECTION

definition all_permissions :: "Permission list" where
  "all_permissions = [VIEW_RESOURCES, VIEW_AUDIT, SEARCH_REGISTRY,
     MANAGE_CONNECTION_CONFIGURATION, VERIFY_CONNECTION, MANAGE_CAPABILITY, INVOKE,
     DISABLE_CONNECTION, ENABLE_CONNECTION]"

fun ROLE_PERMISSIONS :: "Role \<Rightarrow> Permission list" where
  "ROLE_PERMISSIONS ADMIN = all_permissions"
| "ROLE_PERMISSIONS OPERATOR = [VIEW_RESOURCES, VIEW_AUDIT, SEARCH_REGISTRY, VERIFY_CONNECTION,
     MANAGE_CAPABILITY, INVOKE, DISABLE_CONNECTION]"
| "ROLE_PERMISSIONS VIEWER = [VIEW_RESOURCES]"

record Principal =
  pr_issuer :: ustr
  pr_subject :: ustr
  pr_display_name :: "ustr option"

record WorkspaceContext =
  ctx_workspace_id :: uuid
  ctx_actor_user_id :: uuid
  ctx_role :: Role

definition allows :: "WorkspaceContext \<Rightarrow> Permission \<Rightarrow> bool" where
  "allows ctx p \<longleftrightarrow> p \<in> set (ROLE_PERMISSIONS (ctx_role ctx))"

section \<open>Audit\<close>

datatype AuditAction = WORKSPACE_CREATED | MEMBERSHIP_CHANGED | SECRET_BINDING_CREATED
  | CONNECTION_CREATED | CONNECTION_VERSION_APPENDED | CONNECTION_VERIFIED | CONNECTION_DISABLED
  | CONNECTION_ENABLED | CAPABILITY_VERSION_RECORDED | CAPABILITY_ENABLED | CAPABILITY_DISABLED
  | REGISTRY_ENTRY_IMPORTED | RUN_CREATED | RUN_CANCELLATION_REQUESTED | RUN_CANCELLED

datatype AuditOutcome = SUCCEEDED | DENIED | FAILED

datatype ResourceType = WORKSPACE | MEMBERSHIP | SECRET_BINDING | SERVER_CONNECTION | CAPABILITY
  | REGISTRY_ENTRY | RUN

section \<open>Registry\<close>

datatype RegistrySource = MANUAL | OFFICIAL

datatype ConnectionLifecycle = VERIFYING | ACTIVE | DEGRADED | DISABLED

datatype Transport = STREAMABLE_HTTP

datatype CapabilityStatus = PENDING_REVIEW | ENABLED | DISABLED | UNAVAILABLE

datatype DiscoveryFailureCode = AUTHENTICATION_FAILED | ENDPOINT_REJECTED | PROTOCOL_MISMATCH
  | RESPONSE_LIMIT | TIMEOUT | TRANSPORT_FAILED | INVALID_METADATA

datatype RefreshJobStatus = QUEUED | LEASED | SUCCEEDED | FAILED | OBSOLETE

definition QUALIFIED_PROTOCOL_REVISION :: ustr where
  "QUALIFIED_PROTOCOL_REVISION = ustr_of ''2025-06-18''"

section \<open>JSON\<close>

text \<open>A decoded JSON value. An object is its list of members in insertion order, as Python's
  \<open>dict\<close> iterates it. A float is its IEEE-754 binary64 bit pattern.\<close>

datatype json = JNull | JBool bool | JInt int | JFloat nat | JStr ustr | JList "json list"
  | JDict "(ustr \<times> json) list"

end
