(* ===== verification/Schema.thy ===== *)
theory Schema
  imports Domain_Types
begin

text \<open>
  The relational schema (\<^verbatim>\<open>persistence/models.py\<close>): one record per ORM class, the state \<open>db\<close> with
  one table per class, and the constraints the schema declares. A row keeps every column that an
  operation of the model reads or writes; surrogate keys and creation times that nothing reads
  (the \<open>id\<close> of events, attempts, nonces and audit rows, \<open>created_at\<close> of identity rows) are left
  out. Integer columns that only ever count up from zero are natural numbers.
\<close>

section \<open>Rows\<close>

record User =
  usr_id :: uuid
  usr_oidc_issuer :: ustr
  usr_oidc_subject :: ustr
  usr_display_name :: "ustr option"

record Workspace =
  ws_id :: uuid
  ws_name :: ustr

record WorkspaceMembership =
  mem_workspace_id :: uuid
  mem_user_id :: uuid
  mem_role :: Role

record SecretBinding =
  sb_id :: uuid
  sb_workspace_id :: uuid
  sb_provider :: ustr
  sb_external_reference :: ustr
  sb_version :: ustr
  sb_created_by_user_id :: uuid

record AuditEvent =
  aud_workspace_id :: uuid
  aud_actor_user_id :: uuid
  aud_action :: AuditAction
  aud_resource_type :: ResourceType
  aud_resource_id :: uuid
  aud_outcome :: AuditOutcome
  aud_correlation_id :: uuid

record ServerConnection =
  conn_id :: uuid
  conn_workspace_id :: uuid
  conn_name :: ustr
  conn_lifecycle :: ConnectionLifecycle
  conn_pending_version_id :: "uuid option"
  conn_verified_version_id :: "uuid option"
  conn_control_epoch :: nat
  conn_refresh_generation :: nat
  conn_allocated_control_epoch :: "nat option"
  conn_allocated_target_version_id :: "uuid option"
  conn_current_snapshot_id :: "uuid option"
  conn_last_refresh_error_code :: "DiscoveryFailureCode option"
  conn_last_refresh_at :: "instant option"
  conn_created_by_user_id :: uuid

record ServerConnectionVersion =
  scv_id :: uuid
  scv_workspace_id :: uuid
  scv_connection_id :: uuid
  scv_sequence :: nat
  scv_endpoint_url :: ustr
  scv_secret_binding_id :: "uuid option"
  scv_transport :: Transport
  scv_policy_version :: ustr
  scv_created_by_user_id :: uuid

record Capability =
  cap_id :: uuid
  cap_workspace_id :: uuid
  cap_connection_id :: uuid
  cap_tool_identity :: ustr
  cap_pending_version_id :: "uuid option"
  cap_enabled_version_id :: "uuid option"
  cap_status :: CapabilityStatus
  cap_status_epoch :: nat

record CapabilityVersion =
  capv_id :: uuid
  capv_workspace_id :: uuid
  capv_capability_id :: uuid
  capv_sequence :: nat
  capv_display_name :: ustr
  capv_description :: "ustr option"
  capv_input_schema :: json
  capv_output_schema :: "json option"
  capv_metadata_digest :: string
  capv_schema_supported :: bool

record McpToolBinding =
  bind_capability_version_id :: uuid
  bind_capability_id :: uuid
  bind_workspace_id :: uuid
  bind_connection_id :: uuid
  bind_connection_version_id :: uuid
  bind_tool_name :: ustr
  bind_protocol_revision :: ustr

record CapabilityStatusEvent =
  cse_workspace_id :: uuid
  cse_capability_id :: uuid
  cse_capability_version_id :: "uuid option"
  cse_status :: CapabilityStatus
  cse_status_epoch :: nat
  cse_actor_user_id :: uuid

record DiscoveryPayload =
  dp_id :: uuid
  dp_workspace_id :: uuid
  dp_canonical_digest :: string
  dp_normalized_payload :: json
  dp_byte_count :: nat

record DiscoverySnapshot =
  snap_id :: uuid
  snap_workspace_id :: uuid
  snap_connection_id :: uuid
  snap_connection_version_id :: uuid
  snap_payload_id :: uuid
  snap_generation :: nat
  snap_control_epoch :: nat
  snap_protocol_revision :: ustr

record DiscoverySnapshotCapability =
  dsc_workspace_id :: uuid
  dsc_connection_id :: uuid
  dsc_connection_version_id :: uuid
  dsc_snapshot_id :: uuid
  dsc_capability_version_id :: uuid

record DiscoveryRefreshJob =
  drj_id :: uuid
  drj_workspace_id :: uuid
  drj_actor_user_id :: uuid
  drj_connection_id :: uuid
  drj_connection_version_id :: uuid
  drj_generation :: nat
  drj_control_epoch :: nat
  drj_status :: RefreshJobStatus
  drj_lease_owner :: "ustr option"
  drj_lease_epoch :: nat
  drj_lease_expires_at :: "instant option"

record SystemExecutionState =
  ses_execution_epoch :: nat
  ses_dispatch_quarantined :: bool
  ses_updated_at :: instant

record Run =
  run_id :: uuid
  run_workspace_id :: uuid
  run_correlation_id :: uuid
  run_actor_user_id :: uuid
  run_capability_id :: uuid
  run_capability_version_id :: uuid
  run_connection_id :: uuid
  run_connection_version_id :: uuid
  run_connection_control_epoch :: nat
  run_capability_status_epoch :: nat
  run_protocol_revision :: ustr
  run_status :: RunStatus
  run_arguments :: "json option"
  run_argument_digest :: "string option"
  run_arguments_expires_at :: instant
  run_deadline :: instant
  run_cancellation_requested :: bool
  run_safe_error_code :: "RunFailureCode option"
  run_created_at :: instant
  run_updated_at :: instant
  run_terminal_at :: "instant option"

record RunResult =
  res_run_id :: uuid
  res_workspace_id :: uuid
  res_payload :: json
  res_canonical_digest :: string
  res_byte_count :: nat
  res_captured_at :: instant
  res_expires_at :: instant

record Job =
  job_id :: uuid
  job_workspace_id :: uuid
  job_run_id :: uuid
  job_actor_user_id :: uuid
  job_execution_epoch :: nat
  job_status :: JobStatus
  job_lease_owner :: "string option"
  job_lease_epoch :: nat
  job_lease_expires_at :: "instant option"
  job_available_at :: instant
  job_deadline :: instant
  job_created_at :: instant
  job_completed_at :: "instant option"

record RunAttempt =
  att_workspace_id :: uuid
  att_run_id :: uuid
  att_job_id :: uuid
  att_sequence :: nat
  att_lease_epoch :: nat
  att_status :: RunStatus
  att_started_at :: instant
  att_terminal_at :: "instant option"
  att_safe_error_code :: "RunFailureCode option"

record RunEvent =
  ev_workspace_id :: uuid
  ev_run_id :: uuid
  ev_sequence :: nat
  ev_event_type :: RunEventType
  ev_status :: RunStatus
  ev_safe_error_code :: "RunFailureCode option"
  ev_occurred_at :: instant

record ConfirmationNonce =
  nonce_workspace_id :: uuid
  nonce_actor_user_id :: uuid
  nonce_digest :: string
  nonce_run_id :: uuid
  nonce_key_version :: string
  nonce_expires_at :: instant
  nonce_consumed_at :: instant

record IdempotencyRecord =
  idem_id :: uuid
  idem_workspace_id :: uuid
  idem_actor_user_id :: uuid
  idem_method :: string
  idem_route :: string
  idem_confirmation_key_version :: string
  idem_key_version :: string
  idem_key_hmac :: string
  idem_request_hmac :: string
  idem_resource_type :: ResourceType
  idem_resource_id :: uuid
  idem_created_at :: instant
  idem_completed_at :: instant
  idem_expires_at :: instant

record ApiIdempotencyRecord =
  api_id :: uuid
  api_workspace_id :: uuid
  api_actor_user_id :: uuid
  api_method :: string
  api_route :: string
  api_key_version :: string
  api_key_hmac :: string
  api_request_hmac :: string
  api_response_body :: json
  api_created_at :: instant
  api_expires_at :: instant

section \<open>The database\<close>

record db =
  users :: "User list"
  workspaces :: "Workspace list"
  memberships :: "WorkspaceMembership list"
  secret_bindings :: "SecretBinding list"
  audit_events :: "AuditEvent list"
  connections :: "ServerConnection list"
  connection_versions :: "ServerConnectionVersion list"
  capabilities :: "Capability list"
  capability_versions :: "CapabilityVersion list"
  tool_bindings :: "McpToolBinding list"
  status_events :: "CapabilityStatusEvent list"
  discovery_payloads :: "DiscoveryPayload list"
  snapshots :: "DiscoverySnapshot list"
  snapshot_capabilities :: "DiscoverySnapshotCapability list"
  refresh_jobs :: "DiscoveryRefreshJob list"
  execution_state :: "SystemExecutionState option"
  runs :: "Run list"
  run_results :: "RunResult list"
  jobs :: "Job list"
  run_attempts :: "RunAttempt list"
  run_events :: "RunEvent list"
  confirmation_nonces :: "ConfirmationNonce list"
  idempotency_records :: "IdempotencyRecord list"
  api_idempotency_records :: "ApiIdempotencyRecord list"

definition empty_db :: db where
  "empty_db = \<lparr>users = [], workspaces = [], memberships = [], secret_bindings = [],
     audit_events = [], connections = [], connection_versions = [], capabilities = [],
     capability_versions = [], tool_bindings = [], status_events = [], discovery_payloads = [],
     snapshots = [], snapshot_capabilities = [], refresh_jobs = [], execution_state = None,
     runs = [], run_results = [], jobs = [], run_attempts = [], run_events = [],
     confirmation_nonces = [], idempotency_records = [], api_idempotency_records = []\<rparr>"

text \<open>The primary key of an attempt: the columns of its unique constraint.\<close>

definition att_key :: "RunAttempt \<Rightarrow> uuid \<times> nat" where
  "att_key a = (att_run_id a, att_sequence a)"

definition put_run :: "Run \<Rightarrow> db \<Rightarrow> db" where
  "put_run r d = d\<lparr>runs := rows_put run_id r (runs d)\<rparr>"

definition put_job :: "Job \<Rightarrow> db \<Rightarrow> db" where
  "put_job j d = d\<lparr>jobs := rows_put job_id j (jobs d)\<rparr>"

definition put_attempt :: "RunAttempt \<Rightarrow> db \<Rightarrow> db" where
  "put_attempt a d = d\<lparr>run_attempts := rows_put att_key a (run_attempts d)\<rparr>"

definition put_connection :: "ServerConnection \<Rightarrow> db \<Rightarrow> db" where
  "put_connection c d = d\<lparr>connections := rows_put conn_id c (connections d)\<rparr>"

definition put_capability :: "Capability \<Rightarrow> db \<Rightarrow> db" where
  "put_capability c d = d\<lparr>capabilities := rows_put cap_id c (capabilities d)\<rparr>"

definition put_refresh_job :: "DiscoveryRefreshJob \<Rightarrow> db \<Rightarrow> db" where
  "put_refresh_job j d = d\<lparr>refresh_jobs := rows_put drj_id j (refresh_jobs d)\<rparr>"

definition add_audit :: "AuditEvent \<Rightarrow> db \<Rightarrow> db" where
  "add_audit a d = d\<lparr>audit_events := audit_events d @ [a]\<rparr>"

text \<open>\<open>AuditEvent.succeeded\<close>.\<close>

definition audit_succeeded ::
  "uuid \<Rightarrow> uuid \<Rightarrow> AuditAction \<Rightarrow> ResourceType \<Rightarrow> uuid \<Rightarrow> uuid \<Rightarrow> AuditEvent" where
  "audit_succeeded w a act ty rid corr = \<lparr>aud_workspace_id = w, aud_actor_user_id = a,
     aud_action = act, aud_resource_type = ty, aud_resource_id = rid,
     aud_outcome = AuditOutcome.SUCCEEDED, aud_correlation_id = corr\<rparr>"

lemmas put_defs = put_run_def put_job_def put_attempt_def put_connection_def put_capability_def
  put_refresh_job_def add_audit_def

interpretation run_table: row_store runs runs_update run_id
  by unfold_locales simp_all

interpretation job_table: row_store jobs jobs_update job_id
  by unfold_locales simp_all

interpretation attempt_table: row_store run_attempts run_attempts_update att_key
  by unfold_locales simp_all

interpretation connection_table: row_store connections connections_update conn_id
  by unfold_locales simp_all

interpretation capability_table: row_store capabilities capabilities_update cap_id
  by unfold_locales simp_all

interpretation refresh_job_table: row_store refresh_jobs refresh_jobs_update drj_id
  by unfold_locales simp_all

end
