(* ===== verification/Identity.thy ===== *)
theory Identity
  imports Schema
begin

text \<open>
  Principals, workspaces and current-membership authorization
  (\<^verbatim>\<open>identity/repository.py\<close>, \<^verbatim>\<open>identity/service.py\<close>). Every service call starts with
  \<open>require_current_role\<close>, which trusts the stored membership and never the role the caller's
  context carries. The lemmas show that a workspace keeps an administrator under every role
  change, that a principal resolves to one user, and that a denied call changes nothing.
\<close>

section \<open>Authorization\<close>

definition membership_of :: "db \<Rightarrow> uuid \<Rightarrow> uuid \<Rightarrow> WorkspaceMembership option" where
  "membership_of d w a =
     first_row (filter (\<lambda>m. mem_workspace_id m = w \<and> mem_user_id m = a) (memberships d))"

definition authorize :: "uuid \<Rightarrow> uuid \<Rightarrow> Permission \<Rightarrow> db \<Rightarrow> svc_error + WorkspaceContext" where
  "authorize user_id workspace_id permission d =
     (case membership_of d workspace_id user_id of
        None \<Rightarrow> Inl AuthorizationDenied
      | Some m \<Rightarrow>
          (let ctx = \<lparr>ctx_workspace_id = workspace_id, ctx_actor_user_id = user_id,
                      ctx_role = mem_role m\<rparr>
           in if \<not> allows ctx permission then Inl AuthorizationDenied else Inr ctx))"

definition require_role :: "WorkspaceContext \<Rightarrow> Role list \<Rightarrow> svc_error + unit" where
  "require_role ctx roles =
     (if ctx_role ctx \<notin> set roles then Inl AuthorizationDenied else Inr ())"

definition require_current_role ::
  "WorkspaceContext \<Rightarrow> Role list \<Rightarrow> bool \<Rightarrow> db \<Rightarrow> svc_error + WorkspaceMembership" where
  "require_current_role ctx roles serialize_workspace d =
     and_then (require_role ctx roles) (\<lambda>_.
       if serialize_workspace
          \<and> first_row (filter (\<lambda>w. ws_id w = ctx_workspace_id ctx) (workspaces d)) = None
       then Inl AuthorizationDenied
       else (case membership_of d (ctx_workspace_id ctx) (ctx_actor_user_id ctx) of
               None \<Rightarrow> Inl AuthorizationDenied
             | Some m \<Rightarrow> if mem_role m \<notin> set roles then Inl AuthorizationDenied else Inr m))"

definition get_secret_binding :: "WorkspaceContext \<Rightarrow> uuid \<Rightarrow> db \<Rightarrow> SecretBinding option" where
  "get_secret_binding ctx binding_id d =
     first_row (filter (\<lambda>b. sb_id b = binding_id \<and> sb_workspace_id b = ctx_workspace_id ctx)
                  (secret_bindings d))"

section \<open>Identity service\<close>

definition invalid_identifier :: "ustr \<Rightarrow> bool" where
  "invalid_identifier s \<longleftrightarrow> ustr_strip s = [] \<or> length s > 512 \<or> 0 \<in> set s"

text \<open>The unique constraint on issuer and subject makes a lost race surface as an integrity error,
  after which the winner's row is read back; with transactions applied one after the other the
  lookup has already found that row, so the insert always succeeds. \<open>new_id\<close> is the \<open>uuid4\<close>
  default of the row.\<close>

definition resolve_user :: "Principal \<Rightarrow> uuid \<Rightarrow> db \<Rightarrow> svc_error + User \<times> db" where
  "resolve_user p new_id d =
     (if invalid_identifier (pr_issuer p) \<or> invalid_identifier (pr_subject p) then Inl ValueError
      else
        (let display_name = map_option (\<lambda>n. take 256 (filter (\<lambda>c. c \<noteq> 0) n)) (pr_display_name p)
         in case first_row (filter (\<lambda>x. usr_oidc_issuer x = pr_issuer p
                                      \<and> usr_oidc_subject x = pr_subject p) (users d)) of
              Some x \<Rightarrow> Inr (x, d)
            | None \<Rightarrow>
                (let x = \<lparr>usr_id = new_id, usr_oidc_issuer = pr_issuer p,
                          usr_oidc_subject = pr_subject p, usr_display_name = display_name\<rparr>
                 in Inr (x, d\<lparr>users := users d @ [x]\<rparr>))))"

definition create_workspace ::
  "User \<Rightarrow> ustr \<Rightarrow> uuid \<Rightarrow> uuid \<Rightarrow> db \<Rightarrow> svc_error + Workspace \<times> db" where
  "create_workspace owner name correlation_id new_id d =
     (let normalized_name = ustr_strip name
      in if normalized_name = [] \<or> length normalized_name > 128 \<or> 0 \<in> set normalized_name
         then Inl ValueError
         else
           (let w = \<lparr>ws_id = new_id, ws_name = normalized_name\<rparr>;
                m = \<lparr>mem_workspace_id = new_id, mem_user_id = usr_id owner, mem_role = ADMIN\<rparr>
            in Inr (w, add_audit (audit_succeeded new_id (usr_id owner) WORKSPACE_CREATED WORKSPACE
                                    new_id correlation_id)
                         (d\<lparr>workspaces := workspaces d @ [w],
                            memberships := memberships d @ [m]\<rparr>))))"

definition mem_key :: "WorkspaceMembership \<Rightarrow> uuid \<times> uuid" where
  "mem_key m = (mem_workspace_id m, mem_user_id m)"

definition admin_count :: "db \<Rightarrow> uuid \<Rightarrow> nat" where
  "admin_count d w =
     length (filter (\<lambda>m. mem_workspace_id m = w \<and> mem_role m = ADMIN) (memberships d))"

definition set_membership_role ::
  "WorkspaceContext \<Rightarrow> uuid \<Rightarrow> Role \<Rightarrow> uuid \<Rightarrow> db \<Rightarrow> svc_error + WorkspaceMembership \<times> db" where
  "set_membership_role ctx user_id role correlation_id d =
     and_then (require_current_role ctx [ADMIN] True d) (\<lambda>_.
       (let audit = add_audit (audit_succeeded (ctx_workspace_id ctx) (ctx_actor_user_id ctx)
                                 MEMBERSHIP_CHANGED MEMBERSHIP user_id correlation_id)
        in case membership_of d (ctx_workspace_id ctx) user_id of
             None \<Rightarrow>
               (let m = \<lparr>mem_workspace_id = ctx_workspace_id ctx, mem_user_id = user_id,
                         mem_role = role\<rparr>
                in Inr (m, audit (d\<lparr>memberships := memberships d @ [m]\<rparr>)))
           | Some m \<Rightarrow>
               if mem_role m = ADMIN \<and> role \<noteq> ADMIN \<and> admin_count d (ctx_workspace_id ctx) \<le> 1
               then Inl AuthorizationDenied
               else
                 (let m' = m\<lparr>mem_role := role\<rparr>
                  in Inr (m', audit (d\<lparr>memberships := rows_put mem_key m' (memberships d)\<rparr>)))))"

interpretation membership_table: row_store memberships memberships_update mem_key
  by unfold_locales simp_all

section \<open>Facts\<close>

lemma membership_of_Some:
  "membership_of d w a = Some m \<Longrightarrow>
     m \<in> set (memberships d) \<and> mem_workspace_id m = w \<and> mem_user_id m = a"
  by (auto simp: membership_of_def dest: first_row_filter_Some)

text \<open>What a call that passed \<open>require_current_role\<close> may rely on.\<close>

lemma require_current_role_Inr:
  "require_current_role ctx roles ser d = Inr m \<longleftrightarrow>
     ctx_role ctx \<in> set roles
     \<and> (ser \<longrightarrow> (\<exists>w \<in> set (workspaces d). ws_id w = ctx_workspace_id ctx))
     \<and> membership_of d (ctx_workspace_id ctx) (ctx_actor_user_id ctx) = Some m
     \<and> mem_role m \<in> set roles"
  by (auto simp: require_current_role_def require_role_def filter_empty_conv
      split: option.splits if_splits)

lemma require_current_role_Inl:
  "require_current_role ctx roles ser d = Inl e \<Longrightarrow> e = AuthorizationDenied"
  by (auto simp: require_current_role_def require_role_def split: option.splits if_splits)

text \<open>The decision depends on the membership and workspace tables only.\<close>

lemma require_current_role_cong:
  "memberships d' = memberships d \<Longrightarrow> workspaces d' = workspaces d \<Longrightarrow>
     require_current_role ctx roles ser d' = require_current_role ctx roles ser d"
  by (simp add: require_current_role_def membership_of_def)

lemma admin_count_append:
  "admin_count (d\<lparr>memberships := memberships d @ [m]\<rparr>) w
     = admin_count d w + (if mem_workspace_id m = w \<and> mem_role m = ADMIN then 1 else 0)"
  by (simp add: admin_count_def)

text \<open>Replacing one membership row changes the number of administrators of its workspace by the
  difference between the old and the new row.\<close>

lemma admin_rows_put:
  assumes "distinct (map mem_key ms)" and "m \<in> set ms" and "mem_key m' = mem_key m"
  shows "length (filter (\<lambda>x. mem_workspace_id x = w \<and> mem_role x = ADMIN) (rows_put mem_key m' ms))
       + (if mem_workspace_id m = w \<and> mem_role m = ADMIN then 1 else 0)
     = length (filter (\<lambda>x. mem_workspace_id x = w \<and> mem_role x = ADMIN) ms)
       + (if mem_workspace_id m = w \<and> mem_role m' = ADMIN then 1 else 0)"
  using assms
proof (induction ms)
  case (Cons x xs)
  have ws: "mem_workspace_id m' = mem_workspace_id m" using Cons.prems(3) by (simp add: mem_key_def)
  show ?case
  proof (cases "x = m")
    case True
    have "mem_key m' \<notin> mem_key ` set xs" using Cons.prems True by simp
    then have "rows_put mem_key m' xs = xs" by (intro rows_put_id) (metis imageI)
    moreover have "rows_put mem_key m' (x # xs) = m' # rows_put mem_key m' xs"
      using True Cons.prems(3) by (simp add: rows_put_def)
    ultimately show ?thesis using True ws by auto
  next
    case False
    then have mem: "m \<in> set xs" using Cons.prems by simp
    then have "mem_key x \<noteq> mem_key m'" using Cons.prems by force
    then have "rows_put mem_key m' (x # xs) = x # rows_put mem_key m' xs"
      by (simp add: rows_put_def)
    with Cons.IH mem Cons.prems show ?thesis by auto
  qed
qed simp

definition memberships_keyed :: "db \<Rightarrow> bool" where
  "memberships_keyed d \<longleftrightarrow> distinct (map mem_key (memberships d))"

lemma set_membership_role_keyed:
  assumes "set_membership_role ctx uid role corr d = Inr (m, d')" and "memberships_keyed d"
  shows "memberships_keyed d'"
proof -
  have "mem_key \<lparr>mem_workspace_id = ctx_workspace_id ctx, mem_user_id = uid, mem_role = role\<rparr>
          \<notin> set (map mem_key (memberships d))"
    if "membership_of d (ctx_workspace_id ctx) uid = None"
    using that by (auto simp: membership_of_def filter_empty_conv mem_key_def)
  with assms show ?thesis
    by (auto simp: set_membership_role_def and_then_Inr memberships_keyed_def add_audit_def Let_def
        split: option.splits if_splits)
qed

lemma admin_count_positive:
  "m \<in> set (memberships d) \<Longrightarrow> mem_workspace_id m = w \<Longrightarrow> mem_role m = ADMIN \<Longrightarrow> 0 < admin_count d w"
  by (auto simp: admin_count_def filter_empty_conv)

lemma set_membership_role_admins:
  assumes "set_membership_role ctx uid role corr d = Inr (m, d')" and "memberships_keyed d"
    and "0 < admin_count d w"
  shows "0 < admin_count d' w"
proof (cases "membership_of d (ctx_workspace_id ctx) uid")
  case None
  with assms show ?thesis
    by (auto simp: set_membership_role_def and_then_Inr admin_count_def add_audit_def Let_def
        split: if_splits)
next
  case (Some old)
  have old: "old \<in> set (memberships d)" "mem_workspace_id old = ctx_workspace_id ctx"
    using membership_of_Some [OF Some] by auto
  have d': "memberships d' = rows_put mem_key (old\<lparr>mem_role := role\<rparr>) (memberships d)"
    and guard: "\<not> (mem_role old = ADMIN \<and> role \<noteq> ADMIN \<and> admin_count d (ctx_workspace_id ctx) \<le> 1)"
    using assms(1) Some
    by (auto simp: set_membership_role_def and_then_Inr add_audit_def Let_def split: if_splits)
  have key: "mem_key (old\<lparr>mem_role := role\<rparr>) = mem_key old" by (simp add: mem_key_def)
  have "admin_count d' w + (if mem_workspace_id old = w \<and> mem_role old = ADMIN then 1 else 0)
      = admin_count d w + (if mem_workspace_id old = w \<and> role = ADMIN then 1 else 0)"
    using admin_rows_put [OF assms(2) [unfolded memberships_keyed_def] old(1) key, of w]
    by (simp add: admin_count_def d')
  then show ?thesis using guard assms(3) old(2) by (auto split: if_splits)
qed

lemma resolve_user_again:
  assumes "resolve_user p i d = Inr (x, d')"
  shows "resolve_user p j d' = Inr (x, d')"
  using assms
  by (auto simp: resolve_user_def Let_def split: if_splits option.splits)

end
