(* ===== verification/Exec_Core.thy ===== *)
theory Exec_Core
  imports Identity
begin

text \<open>
  The primitives of the execution ledger (\<^verbatim>\<open>execution/service.py\<close>): the execution state row,
  lookups of the rows of a run, the append-only event log, \<open>_terminalize_run\<close> and the two
  reconciliation passes, and the checks that a leased worker still acts under current authority.

  Row locks make each public operation of the service one atomic step, so an operation is a
  function from the database to an exception or to its result and the new database; an exception
  rolls the transaction back and leaves the database as it was. The clock is read through
  \<open>_durable_now\<close>; every reading is an argument. \<open>skip_locked\<close> queries take the predicate of the
  run rows that concurrent transactions hold.
\<close>

section \<open>Execution state\<close>

definition execution_state_row :: "instant \<Rightarrow> db \<Rightarrow> SystemExecutionState \<times> db" where
  "execution_state_row now d =
     (case execution_state d of
        Some st \<Rightarrow> (st, d)
      | None \<Rightarrow>
          (let st = \<lparr>ses_execution_epoch = 1, ses_dispatch_quarantined = False,
                     ses_updated_at = now\<rparr>
           in (st, d\<lparr>execution_state := Some st\<rparr>)))"

section \<open>Rows of a run\<close>

definition attempt_active :: "RunStatus \<Rightarrow> bool" where
  "attempt_active s \<longleftrightarrow> s = RunStatus.PREPARING \<or> s = RunStatus.SESSION_FENCED
     \<or> s = RunStatus.DISPATCH_FENCED"

definition active_attempt :: "uuid \<Rightarrow> db \<Rightarrow> RunAttempt option" where
  "active_attempt i d =
     first_row (rev (sort_key att_sequence
       (filter (\<lambda>a. att_run_id a = i \<and> attempt_active (att_status a)) (run_attempts d))))"

definition job_for_run :: "uuid \<Rightarrow> db \<Rightarrow> Job option" where
  "job_for_run i d = first_row (filter (\<lambda>j. job_run_id j = i) (jobs d))"

section \<open>Events\<close>

definition append_event ::
  "Run \<Rightarrow> RunEventType \<Rightarrow> RunStatus \<Rightarrow> instant \<Rightarrow> nat \<Rightarrow> RunFailureCode option \<Rightarrow> db \<Rightarrow> db" where
  "append_event run event_type status now sequence safe_error_code d =
     d\<lparr>run_events := run_events d @ [\<lparr>ev_workspace_id = run_workspace_id run,
         ev_run_id = run_id run, ev_sequence = sequence, ev_event_type = event_type,
         ev_status = status, ev_safe_error_code = safe_error_code, ev_occurred_at = now\<rparr>]\<rparr>"

definition append_next_event ::
  "Run \<Rightarrow> RunEventType \<Rightarrow> RunStatus \<Rightarrow> RunFailureCode option \<Rightarrow> instant \<Rightarrow> db \<Rightarrow> db" where
  "append_next_event run event_type status safe_error_code now d =
     append_event run event_type status now
       (next_sequence (map ev_sequence (filter (\<lambda>e. ev_run_id e = run_id run) (run_events d))))
       safe_error_code d"

section \<open>Terminalization\<close>

definition terminal_run :: "RunStatus \<Rightarrow> instant \<Rightarrow> RunFailureCode \<Rightarrow> Run \<Rightarrow> Run" where
  "terminal_run status now code run = run\<lparr>run_status := status, run_safe_error_code := Some code,
     run_updated_at := now, run_terminal_at := Some now\<rparr>"

definition terminal_job :: "JobStatus \<Rightarrow> instant \<Rightarrow> Job \<Rightarrow> Job" where
  "terminal_job js now job = job\<lparr>job_status := js, job_lease_owner := None,
     job_lease_expires_at := None, job_completed_at := Some now\<rparr>"

definition terminal_attempt ::
  "RunStatus \<Rightarrow> instant \<Rightarrow> RunFailureCode option \<Rightarrow> RunAttempt \<Rightarrow> RunAttempt" where
  "terminal_attempt status now code a = a\<lparr>att_status := status, att_safe_error_code := code,
     att_terminal_at := Some now\<rparr>"

definition close_attempt :: "Run \<Rightarrow> RunStatus \<Rightarrow> instant \<Rightarrow> RunFailureCode \<Rightarrow> db \<Rightarrow> db" where
  "close_attempt run status now code d =
     (case active_attempt (run_id run) d of
        None \<Rightarrow> d
      | Some a \<Rightarrow> put_attempt (terminal_attempt status now (Some code) a) d)"

definition terminalize_run ::
  "Run \<Rightarrow> RunStatus \<Rightarrow> instant \<Rightarrow> RunFailureCode \<Rightarrow> RunEventType \<Rightarrow> db \<Rightarrow> svc_error + Run \<times> db" where
  "terminalize_run run status now code event_type d =
     (let run' = terminal_run status now code run;
          d1 = put_run run' d;
          finish = (\<lambda>d2. append_next_event run' event_type status (Some code) now
                           (close_attempt run' status now code d2))
      in case job_for_run (run_id run) d1 of
           None \<Rightarrow> Inr (run', finish d1)
         | Some job \<Rightarrow>
             (case JobStatus_of status of
                None \<Rightarrow> Inl ValueError
              | Some js \<Rightarrow> Inr (run', finish (put_job (terminal_job js now job) d1))))"

definition reconciled_job :: "Run \<Rightarrow> Job \<Rightarrow> RunStatus \<Rightarrow> ReconciledJob" where
  "reconciled_job run job status = \<lparr>rj_job_id = job_id job, rj_run_id = run_id run,
     rj_workspace_id = run_workspace_id run, rj_correlation_id = run_correlation_id run,
     rj_lease_epoch = job_lease_epoch job, rj_status = status\<rparr>"

text \<open>What a deadline means for a run: an outcome that is unknown once the call was dispatched, a
  timeout before.\<close>

definition deadline_status :: "RunStatus \<Rightarrow> RunStatus" where
  "deadline_status s =
     (if s = RunStatus.DISPATCH_FENCED then RunStatus.INDETERMINATE else RunStatus.TIMED_OUT)"

section \<open>Reconciliation while polling\<close>

definition run_jobs :: "db \<Rightarrow> (Run \<times> Job) list" where
  "run_jobs d = concat (map (\<lambda>r. map (Pair r) (filter (\<lambda>j. job_workspace_id j = run_workspace_id r
     \<and> job_run_id j = run_id r) (jobs d))) (runs d))"

definition terminalize_each ::
  "(Run \<Rightarrow> RunStatus) \<Rightarrow> RunFailureCode \<Rightarrow> instant \<Rightarrow> (Run \<times> Job) list \<Rightarrow> db
     \<Rightarrow> svc_error + ReconciledJob list \<times> db" where
  "terminalize_each target code now rows d =
     fold_res (\<lambda>(run, job) (acc, d).
         and_then (terminalize_run run (target run) now code TERMINAL d)
           (\<lambda>(_, d'). Inr (acc @ [reconciled_job run job (target run)], d')))
       rows ([], d)"

definition expired_rows :: "ExecutionLimits \<Rightarrow> (uuid \<Rightarrow> bool) \<Rightarrow> instant \<Rightarrow> db \<Rightarrow> (Run \<times> Job) list" where
  "expired_rows limits locked now d =
     order_by_limit (\<lambda>(r, j). (job_deadline j, job_id j)) (nat (reconciliation_batch_size limits))
       (filter (\<lambda>(r, j). (job_status j = JobStatus.QUEUED \<or> job_status j = JobStatus.LEASED)
                  \<and> job_deadline j \<le> now \<and> \<not> locked (run_id r)) (run_jobs d))"

definition terminalize_expired_jobs ::
  "ExecutionLimits \<Rightarrow> (uuid \<Rightarrow> bool) \<Rightarrow> instant \<Rightarrow> db \<Rightarrow> svc_error + ReconciledJob list \<times> db" where
  "terminalize_expired_jobs limits locked now d =
     terminalize_each (\<lambda>r. deadline_status (run_status r)) DEADLINE_EXCEEDED now
       (expired_rows limits locked now d) d"

definition lease_expired :: "instant \<Rightarrow> Job \<Rightarrow> bool" where
  "lease_expired now j \<longleftrightarrow> (case job_lease_expires_at j of None \<Rightarrow> False | Some t \<Rightarrow> t \<le> now)"

definition abandoned_rows ::
  "ExecutionLimits \<Rightarrow> (uuid \<Rightarrow> bool) \<Rightarrow> instant \<Rightarrow> db \<Rightarrow> (Run \<times> Job) list" where
  "abandoned_rows limits locked now d =
     order_by_limit (\<lambda>(r, j). ((case job_lease_expires_at j of None \<Rightarrow> 0 | Some t \<Rightarrow> t), job_id j))
       (nat (reconciliation_batch_size limits))
       (filter (\<lambda>(r, j). job_status j = JobStatus.LEASED \<and> lease_expired now j
                  \<and> run_status r = RunStatus.DISPATCH_FENCED \<and> \<not> locked (run_id r)) (run_jobs d))"

definition terminalize_abandoned_dispatches ::
  "ExecutionLimits \<Rightarrow> (uuid \<Rightarrow> bool) \<Rightarrow> instant \<Rightarrow> db \<Rightarrow> svc_error + ReconciledJob list \<times> db" where
  "terminalize_abandoned_dispatches limits locked now d =
     terminalize_each (\<lambda>_. RunStatus.INDETERMINATE) WORKER_LOST_AFTER_DISPATCH now
       (abandoned_rows limits locked now d) d"

section \<open>Current authority of a run\<close>

text \<open>The snapshot query of admission, claiming and fencing: the connection's current snapshot
  observed this capability version under this connection version.\<close>

definition observed_in_snapshot :: "uuid \<Rightarrow> uuid \<Rightarrow> uuid \<Rightarrow> uuid \<Rightarrow> uuid option \<Rightarrow> db \<Rightarrow> bool" where
  "observed_in_snapshot w conn conn_version cap_version snapshot d =
     (case snapshot of
        None \<Rightarrow> False
      | Some s \<Rightarrow> list_ex (\<lambda>o'. dsc_workspace_id o' = w \<and> dsc_connection_id o' = conn
            \<and> dsc_connection_version_id o' = conn_version \<and> dsc_snapshot_id o' = s
            \<and> dsc_capability_version_id o' = cap_version) (snapshot_capabilities d))"

definition scoped_capability :: "uuid \<Rightarrow> uuid \<Rightarrow> db \<Rightarrow> Capability option" where
  "scoped_capability i w d =
     first_row (filter (\<lambda>c. cap_id c = i \<and> cap_workspace_id c = w) (capabilities d))"

definition scoped_connection :: "uuid \<Rightarrow> uuid \<Rightarrow> db \<Rightarrow> ServerConnection option" where
  "scoped_connection i w d =
     first_row (filter (\<lambda>c. conn_id c = i \<and> conn_workspace_id c = w) (connections d))"

text \<open>The conditions on membership, capability, connection, snapshot and binding that a run pinned
  at admission, shared by \<open>_claim_target_is_current\<close> and \<open>_fence_attempt\<close>.\<close>

definition membership_may_run :: "Run \<Rightarrow> db \<Rightarrow> bool" where
  "membership_may_run run d =
     (case membership_of d (run_workspace_id run) (run_actor_user_id run) of
        None \<Rightarrow> False
      | Some m \<Rightarrow> mem_role m = ADMIN \<or> mem_role m = OPERATOR)"

definition capability_is_pinned :: "Run \<Rightarrow> db \<Rightarrow> bool" where
  "capability_is_pinned run d =
     (case scoped_capability (run_capability_id run) (run_workspace_id run) d of
        None \<Rightarrow> False
      | Some c \<Rightarrow> cap_status c = CapabilityStatus.ENABLED
          \<and> cap_enabled_version_id c = Some (run_capability_version_id run)
          \<and> cap_pending_version_id c = None
          \<and> cap_status_epoch c = run_capability_status_epoch run)"

definition connection_is_pinned :: "Run \<Rightarrow> db \<Rightarrow> bool" where
  "connection_is_pinned run d =
     (case scoped_connection (run_connection_id run) (run_workspace_id run) d of
        None \<Rightarrow> False
      | Some c \<Rightarrow> conn_lifecycle c = ConnectionLifecycle.ACTIVE
          \<and> conn_pending_version_id c = None
          \<and> conn_verified_version_id c = Some (run_connection_version_id run)
          \<and> conn_control_epoch c = run_connection_control_epoch run
          \<and> observed_in_snapshot (run_workspace_id run) (run_connection_id run)
               (run_connection_version_id run) (run_capability_version_id run)
               (conn_current_snapshot_id c) d)"

definition binding_is_pinned :: "Run \<Rightarrow> db \<Rightarrow> bool" where
  "binding_is_pinned run d =
     list_ex (\<lambda>b. bind_workspace_id b = run_workspace_id run
        \<and> bind_capability_id b = run_capability_id run
        \<and> bind_capability_version_id b = run_capability_version_id run
        \<and> bind_connection_id b = run_connection_id run
        \<and> bind_connection_version_id b = run_connection_version_id run
        \<and> bind_protocol_revision b = run_protocol_revision run) (tool_bindings d)"

definition claim_target_is_current :: "Run \<Rightarrow> db \<Rightarrow> bool" where
  "claim_target_is_current run d \<longleftrightarrow>
     list_ex (\<lambda>w. ws_id w = run_workspace_id run) (workspaces d)
     \<and> run_protocol_revision run = QUALIFIED_PROTOCOL_REVISION
     \<and> membership_may_run run d
     \<and> capability_is_pinned run d
     \<and> connection_is_pinned run d
     \<and> binding_is_pinned run d"

end
