(* ===== verification/Json_Text.thy ===== *)
theory Json_Text
  imports Domain_Types "HOL-Library.List_Lexorder" "HOL-Library.Multiset"
begin

text \<open>
  JSON content as the services bound, serialize and hash it: \<open>validate_bounded_json\<close> of
  \<^verbatim>\<open>security/metadata.py\<close> and the canonical form \<open>json.dumps(value, ensure_ascii=False,
  allow_nan=False, sort_keys=True, separators=(",", ":")).encode("utf-8")\<close> that digests are taken
  of. The decimal rendering of a finite float is an argument (\<open>float_repr\<close>).

  The explicit-stack traversal of the source is shown to accept exactly the values within the
  structural bounds, and the canonical form is shown not to depend on member order.
\<close>

section \<open>Structural bounds\<close>

fun json_children :: "json \<Rightarrow> json list" where
  "json_children (JList xs) = xs"
| "json_children (JDict ms) = map snd ms"
| "json_children _ = []"

lemma size_member: "(k, v) \<in> set ms \<Longrightarrow> size v < Suc (size_list (size_prod (\<lambda>_. 0) size) ms)"
  by (induction ms) auto

lemma size_child: "c \<in> set (json_children v) \<Longrightarrow> size c < size v"
proof (cases v)
  case (JList xs)
  assume "c \<in> set (json_children v)"
  with JList have "size c \<le> size_list size xs" by (auto intro: size_list_estimation')
  with JList show ?thesis by simp
next
  case (JDict ms)
  assume "c \<in> set (json_children v)"
  with JDict obtain k where "(k, c) \<in> set ms" by auto
  with JDict size_member [of k c ms] show ?thesis by simp
qed simp_all

text \<open>The checks of one node: members, items, key and string lengths.\<close>

fun node_ok :: "json \<Rightarrow> bool" where
  "node_ok (JDict ms) = (length ms \<le> 1024 \<and> list_all (\<lambda>(k, _). length k \<le> 8192) ms)"
| "node_ok (JList xs) = (length xs \<le> 1024)"
| "node_ok (JStr s) = (length s \<le> 8192)"
| "node_ok _ = True"

text \<open>The abstract bounds: the number of nodes, the nesting depth, and every node's own checks.\<close>

function json_nodes :: "json \<Rightarrow> nat" where
  "json_nodes v = Suc (sum_list (map json_nodes (json_children v)))"
  by auto
termination by (relation "measure size") (auto dest: size_child)

function json_depth :: "json \<Rightarrow> nat" where
  "json_depth v = Suc (foldr max (map json_depth (json_children v)) 0)"
  by auto
termination by (relation "measure size") (auto dest: size_child)

function every_node_ok :: "json \<Rightarrow> bool" where
  "every_node_ok v \<longleftrightarrow> node_ok v \<and> list_all every_node_ok (json_children v)"
  by auto
termination by (relation "measure size") (auto dest: size_child)

declare json_nodes.simps [simp del] json_depth.simps [simp del] every_node_ok.simps [simp del]

definition within_bounds :: "json \<Rightarrow> bool" where
  "within_bounds v \<longleftrightarrow> json_nodes v \<le> 4096 \<and> json_depth v \<le> 32 \<and> every_node_ok v"

text \<open>The loop of the source: the stack's top is the head of the list, children are pushed in
  order, so the last child is visited first.\<close>

lemma pushed_nodes:
  "sum_list (map (json_nodes \<circ> fst) (rev (map (\<lambda>c. (c, d)) cs))) = sum_list (map json_nodes cs)"
  by (simp add: rev_map [symmetric] o_def sum_list_rev)

lemma json_nodes_children: "Suc (sum_list (map json_nodes (json_children v))) = json_nodes v"
  by (rule json_nodes.simps [symmetric])

function bounded_loop :: "(json \<times> nat) list \<Rightarrow> nat \<Rightarrow> bool" where
  "bounded_loop [] node_count = True"
| "bounded_loop ((current, depth) # stack) node_count =
     (if depth > 32 \<or> node_count + 1 > 4096 then False
      else if \<not> node_ok current then False
      else bounded_loop (rev (map (\<lambda>c. (c, depth + 1)) (json_children current)) @ stack)
             (node_count + 1))"
  by pat_completeness auto
termination
  by (relation "measure (\<lambda>(stack, _). sum_list (map (json_nodes \<circ> fst) stack))")
    (use json_nodes_children in \<open>auto simp: pushed_nodes less_eq_Suc_le\<close>)

definition validate_bounded_json :: "json \<Rightarrow> bool" where
  "validate_bounded_json v = bounded_loop [(v, 1)] 0"

lemma foldr_max_le: "foldr max xs (0::nat) \<le> n \<longleftrightarrow> (\<forall>x \<in> set xs. x \<le> n)"
  by (induction xs) auto

lemma bounded_loop_iff:
  "n \<le> 4096 \<Longrightarrow> bounded_loop stack n \<longleftrightarrow>
     n + sum_list (map (json_nodes \<circ> fst) stack) \<le> 4096
     \<and> (\<forall>(v, d) \<in> set stack. d + json_depth v \<le> 33 \<and> every_node_ok v)"
proof (induction stack n rule: bounded_loop.induct)
  case (2 v d stack n)
  have nodes: "json_nodes v = Suc (sum_list (map json_nodes (json_children v)))"
    by (rule json_nodes.simps)
  have depth: "d + json_depth v \<le> 33
      \<longleftrightarrow> d \<le> 32 \<and> (\<forall>c \<in> set (json_children v). Suc d + json_depth c \<le> 33)"
    using foldr_max_le [of "map json_depth (json_children v)" "32 - d"]
    by (subst json_depth.simps) (cases "d \<le> 32"; fastforce)
  have ok: "every_node_ok v \<longleftrightarrow> node_ok v \<and> (\<forall>c \<in> set (json_children v). every_node_ok c)"
    by (subst every_node_ok.simps) (simp add: list_all_iff)
  show ?case
  proof (cases "d > 32 \<or> n + 1 > 4096 \<or> \<not> node_ok v")
    case True
    then show ?thesis using nodes depth ok by auto
  next
    case False
    then have "bounded_loop ((v, d) # stack) n
        = bounded_loop (rev (map (\<lambda>c. (c, d + 1)) (json_children v)) @ stack) (n + 1)" by simp
    also have "\<dots> \<longleftrightarrow> n + 1 + sum_list (map (json_nodes \<circ> fst)
            (rev (map (\<lambda>c. (c, d + 1)) (json_children v)) @ stack)) \<le> 4096
        \<and> (\<forall>(v, d) \<in> set (rev (map (\<lambda>c. (c, d + 1)) (json_children v)) @ stack).
             d + json_depth v \<le> 33 \<and> every_node_ok v)"
      using False by (intro "2.IH") auto
    also have "\<dots> \<longleftrightarrow> n + sum_list (map (json_nodes \<circ> fst) ((v, d) # stack)) \<le> 4096
        \<and> (\<forall>(v, d) \<in> set ((v, d) # stack). d + json_depth v \<le> 33 \<and> every_node_ok v)"
      using False nodes depth ok
      by (simp add: pushed_nodes ball_Un ball_conj_distrib del: rev_map)
    finally show ?thesis .
  qed
qed simp

lemma validate_bounded_json_iff: "validate_bounded_json v \<longleftrightarrow> within_bounds v"
  by (simp add: validate_bounded_json_def within_bounds_def bounded_loop_iff
      del: bounded_loop.simps)

section \<open>Canonical text\<close>

text \<open>The string escapes of \<open>json.dumps(ensure_ascii=False)\<close>: quote, backslash and the control
  characters below 32.\<close>

definition hex_digit :: "nat \<Rightarrow> nat" where
  "hex_digit n = (if n < 10 then 48 + n else 87 + n)"

definition escape_char :: "nat \<Rightarrow> ustr" where
  "escape_char c =
     (if c = 34 then [92, 34] else if c = 92 then [92, 92]
      else if c = 8 then [92, 98] else if c = 12 then [92, 102]
      else if c = 10 then [92, 110] else if c = 13 then [92, 114] else if c = 9 then [92, 116]
      else if c < 32 then [92, 117, 48, 48, hex_digit (c div 16), hex_digit (c mod 16)]
      else [c])"

definition json_string :: "ustr \<Rightarrow> ustr" where
  "json_string s = 34 # concat (map escape_char s) @ [34]"

function digits :: "nat \<Rightarrow> ustr" where
  "digits n = (if n < 10 then [48 + n] else digits (n div 10) @ [48 + n mod 10])"
  by auto
termination by (relation "measure id") auto

declare digits.simps [simp del]

text \<open>\<open>int.__repr__\<close>, which refuses numbers of more than 4300 digits.\<close>

definition int_repr :: "int \<Rightarrow> ustr option" where
  "int_repr i =
     (if length (digits (nat (abs i))) > 4300 then None
      else Some ((if i < 0 then [45] else []) @ digits (nat (abs i))))"

text \<open>A binary64 pattern is a finite number unless its exponent field is all ones;
  \<open>allow_nan=False\<close> refuses the others.\<close>

definition float_finite :: "nat \<Rightarrow> bool" where
  "float_finite b \<longleftrightarrow> (b div 2 ^ 52) mod 2048 \<noteq> 2047"

fun all_some :: "'a option list \<Rightarrow> 'a list option" where
  "all_some [] = Some []"
| "all_some (x # xs) =
     (case x of None \<Rightarrow> None | Some a \<Rightarrow> map_option ((#) a) (all_some xs))"

fun joined :: "ustr list \<Rightarrow> ustr" where
  "joined [] = []"
| "joined [x] = x"
| "joined (x # xs) = x @ 44 # joined xs"

type_synonym float_repr = "nat \<Rightarrow> ustr"

function dumps :: "float_repr \<Rightarrow> json \<Rightarrow> ustr option" where
  "dumps fr JNull = Some (ustr_of ''null'')"
| "dumps fr (JBool b) = Some (ustr_of (if b then ''true'' else ''false''))"
| "dumps fr (JInt i) = int_repr i"
| "dumps fr (JFloat x) = (if float_finite x then Some (fr x) else None)"
| "dumps fr (JStr s) = Some (json_string s)"
| "dumps fr (JList xs) = map_option (\<lambda>ts. 91 # joined ts @ [93]) (all_some (map (dumps fr) xs))"
| "dumps fr (JDict ms) = map_option (\<lambda>ts. 123 # joined ts @ [125])
     (all_some (map (\<lambda>(k, v). map_option (\<lambda>t. json_string k @ 58 # t) (dumps fr v))
                  (sort_key fst ms)))"
  by pat_completeness auto
termination
  by (relation "measure (size \<circ> snd)") (auto dest: size_member size_list_estimation' [OF _ order_refl]
      intro: le_imp_less_Suc)

text \<open>UTF-8; a lone surrogate makes \<open>str.encode\<close> raise.\<close>

definition utf8_char :: "nat \<Rightarrow> bytes option" where
  "utf8_char c =
     (if c < 128 then Some [c]
      else if c < 2048 then Some [192 + c div 64, 128 + c mod 64]
      else if 55296 \<le> c \<and> c \<le> 57343 then None
      else if c < 65536 then Some [224 + c div 4096, 128 + c div 64 mod 64, 128 + c mod 64]
      else Some [240 + c div 262144, 128 + c div 4096 mod 64, 128 + c div 64 mod 64,
                 128 + c mod 64])"

definition utf8 :: "ustr \<Rightarrow> bytes option" where
  "utf8 s = map_option concat (all_some (map utf8_char s))"

definition canonical_json :: "float_repr \<Rightarrow> json \<Rightarrow> bytes option" where
  "canonical_json fr v = Option.bind (dumps fr v) utf8"

text \<open>\<open>json.loads\<close> applied to a canonical text gives back the value with every object's members in
  key order: numbers and strings read back as they were written.\<close>

function normalized_json :: "json \<Rightarrow> json" where
  "normalized_json (JList xs) = JList (map normalized_json xs)"
| "normalized_json (JDict ms) = JDict (map (\<lambda>(k, v). (k, normalized_json v)) (sort_key fst ms))"
| "normalized_json JNull = JNull"
| "normalized_json (JBool b) = JBool b"
| "normalized_json (JInt i) = JInt i"
| "normalized_json (JFloat x) = JFloat x"
| "normalized_json (JStr s) = JStr s"
  by pat_completeness auto
termination
  by (relation "measure size") (auto dest: size_member size_list_estimation' [OF _ order_refl]
      intro: le_imp_less_Suc)

section \<open>Canonical text is a function of the normalized value\<close>

lemma sort_key_map_fst:
  "sort_key fst (map (\<lambda>(k, v). (k, f v)) xs) = map (\<lambda>(k, v). (k, f v)) (sort_key fst xs)"
proof -
  have ins: "insort_key fst (case x of (k, v) \<Rightarrow> (k, f v)) (map (\<lambda>(k, v). (k, f v)) ys)
      = map (\<lambda>(k, v). (k, f v)) (insort_key fst x ys)" for x ys
    by (induction ys) (auto split: prod.splits)
  show ?thesis
    by (induction xs) (simp_all add: ins sort_key_def)
qed

lemma sort_key_again [simp]: "sort_key f (sort_key f xs) = sort_key f xs"
  by (simp add: sort_key_id_if_sorted)

lemma dumps_normalized: "dumps fr (normalized_json v) = dumps fr v"
proof (induction v rule: normalized_json.induct)
  case (1 xs)
  then show ?case by (simp add: o_def cong: map_cong)
next
  case (2 ms)
  have "map (\<lambda>(k, v). map_option (\<lambda>t. json_string k @ 58 # t) (dumps fr v))
          (map (\<lambda>(k, v). (k, normalized_json v)) (sort_key fst ms))
      = map (\<lambda>(k, v). map_option (\<lambda>t. json_string k @ 58 # t) (dumps fr v)) (sort_key fst ms)"
    using 2 by (auto simp: o_def)
  moreover have "sort_key fst (map (\<lambda>(k, v). (k, normalized_json v)) (sort_key fst ms))
      = map (\<lambda>(k, v). (k, normalized_json v)) (sort_key fst ms)"
    by (simp add: sort_key_map_fst)
  ultimately show ?case by (simp del: map_map)
qed simp_all

lemma canonical_json_normalized: "canonical_json fr (normalized_json v) = canonical_json fr v"
  by (simp add: canonical_json_def dumps_normalized)

lemma canonical_json_cong:
  "normalized_json v = normalized_json w \<Longrightarrow> canonical_json fr v = canonical_json fr w"
  by (metis canonical_json_normalized)

lemma normalized_json_idem: "normalized_json (normalized_json v) = normalized_json v"
proof (induction v rule: normalized_json.induct)
  case (2 ms)
  have "map (\<lambda>(k, v). (k, normalized_json v)) (map (\<lambda>(k, v). (k, normalized_json v)) (sort_key fst ms))
      = map (\<lambda>(k, v). (k, normalized_json v)) (sort_key fst ms)"
    using 2 by (auto simp: o_def)
  then show ?case by (simp add: sort_key_map_fst del: map_map)
qed auto

lemma normalized_json_reorder:
  assumes "mset ms = mset ms'" and "distinct (map fst ms)"
  shows "normalized_json (JDict ms) = normalized_json (JDict ms')"
proof -
  have "sort_key fst ms' = ms\<^sub>1" if "mset ms\<^sub>1 = mset ms'" "sorted (map fst ms\<^sub>1)" for ms\<^sub>1
  proof (rule properties_for_sort_key [OF that(1) _ that(2)])
    fix x assume x: "x \<in> set ms\<^sub>1"
    have "distinct (map fst ms\<^sub>1)"
      using assms that(1) mset_eq_imp_distinct_iff [of "map fst ms" "map fst ms\<^sub>1"] by simp
    moreover have "distinct (map fst ms')"
      using assms mset_eq_imp_distinct_iff [of "map fst ms" "map fst ms'"] by simp
    moreover have "x \<in> set ms'" using x that(1) by (metis set_mset_mset)
    ultimately show "filter (\<lambda>k. fst x = fst k) ms\<^sub>1 = filter (\<lambda>k. fst x = fst k) ms'"
      using distinct_map_filter_key [of fst ms\<^sub>1 x] distinct_map_filter_key [of fst ms' x] x
      by (simp only: eq_commute [of "fst x"])
  qed
  from this [of "sort_key fst ms"] have "sort_key fst ms' = sort_key fst ms"
    using assms(1) by simp
  then show ?thesis by simp
qed

end
