(* ===== verification/Exec_Worker.thy ===== *)
theory Exec_Worker
  imports Exec_Core Json_Text
begin

text \<open>
  The worker protocol of \<^verbatim>\<open>execution/service.py\<close>: claiming a job, the two fences in front of
  endpoint contact and of the one permitted tool call, heartbeats, and completion with or without a
  result. \<open>clock n\<close> is the \<open>n\<close>-th reading of \<open>_durable_now\<close> inside the operation; nothing is
  assumed of it here, so it may even run backwards.
\<close>

type_synonym clock = "nat \<Rightarrow> instant"

abbreviation lease_lost :: "svc_error + 'a" where
  "lease_lost \<equiv> Inl (ExecutionError ExecutionFailureCode.LEASE_LOST)"

abbreviation invalid_transition :: "svc_error + 'a" where
  "invalid_transition \<equiv> Inl (ExecutionError INVALID_TRANSITION)"

section \<open>Claiming\<close>

definition claimable :: "SystemExecutionState \<Rightarrow> (uuid \<Rightarrow> bool) \<Rightarrow> instant \<Rightarrow> Run \<Rightarrow> Job \<Rightarrow> bool" where
  "claimable st locked now r j \<longleftrightarrow>
     job_execution_epoch j = ses_execution_epoch st
     \<and> job_available_at j \<le> now \<and> now < job_deadline j
     \<and> (run_status r = RunStatus.QUEUED \<or> run_status r = RunStatus.PREPARING
        \<or> run_status r = RunStatus.SESSION_FENCED)
     \<and> (job_status j = JobStatus.QUEUED \<or> job_status j = JobStatus.LEASED \<and> lease_expired now j)
     \<and> \<not> locked (run_id r)"

definition claim_candidate ::
  "SystemExecutionState \<Rightarrow> (uuid \<Rightarrow> bool) \<Rightarrow> instant \<Rightarrow> db \<Rightarrow> Run option" where
  "claim_candidate st locked now d =
     map_option fst (first_row (order_by_limit (\<lambda>(r, j). (job_created_at j, job_id j)) 1
       (filter (\<lambda>(r, j). claimable st locked now r j) (run_jobs d))))"

text \<open>The previous attempt of a lease that ran out is closed before the job is leased again.\<close>

definition close_lost_attempt :: "Run \<Rightarrow> Job \<Rightarrow> instant \<Rightarrow> db \<Rightarrow> db" where
  "close_lost_attempt run job now d =
     (if job_status job = JobStatus.LEASED
      then (case active_attempt (run_id run) d of
              None \<Rightarrow> d
            | Some previous \<Rightarrow>
                append_next_event run RunEventType.LEASE_LOST (run_status run)
                  (Some WORKER_LOST_BEFORE_DISPATCH) now
                  (put_attempt (terminal_attempt RunStatus.FAILED now
                                  (Some WORKER_LOST_BEFORE_DISPATCH) previous) d))
      else d)"

definition leased_job :: "string \<Rightarrow> duration \<Rightarrow> instant \<Rightarrow> Job \<Rightarrow> Job" where
  "leased_job worker_id lease_duration now job =
     job\<lparr>job_status := JobStatus.LEASED, job_lease_owner := Some worker_id,
         job_lease_epoch := job_lease_epoch job + 1,
         job_lease_expires_at := Some (min (now + lease_duration) (job_deadline job))\<rparr>"

definition new_attempt :: "Run \<Rightarrow> Job \<Rightarrow> instant \<Rightarrow> db \<Rightarrow> RunAttempt" where
  "new_attempt run job now d = \<lparr>att_workspace_id = run_workspace_id run, att_run_id = run_id run,
     att_job_id = job_id job,
     att_sequence =
       next_sequence (map att_sequence (filter (\<lambda>a. att_run_id a = run_id run) (run_attempts d))),
     att_lease_epoch = job_lease_epoch job, att_status = RunStatus.PREPARING, att_started_at = now,
     att_terminal_at = None, att_safe_error_code = None\<rparr>"

definition add_attempt :: "RunAttempt \<Rightarrow> db \<Rightarrow> db" where
  "add_attempt a d = d\<lparr>run_attempts := run_attempts d @ [a]\<rparr>"

definition lease_of :: "Run \<Rightarrow> Job \<Rightarrow> string \<Rightarrow> instant \<Rightarrow> JobLease" where
  "lease_of run job worker_id expires = \<lparr>lease_job_id = job_id job, lease_run_id = job_run_id job,
     lease_workspace_id = job_workspace_id job, lease_correlation_id = run_correlation_id run,
     lease_worker_id = worker_id, lease_lease_epoch = job_lease_epoch job,
     lease_execution_epoch = job_execution_epoch job, lease_expires_at = expires\<rparr>"

definition grant_lease ::
  "string \<Rightarrow> duration \<Rightarrow> instant \<Rightarrow> Run \<Rightarrow> Job \<Rightarrow> db \<Rightarrow> JobLease \<times> db" where
  "grant_lease worker_id lease_duration now run job d =
     (let d1 = close_lost_attempt run job now d;
          job' = leased_job worker_id lease_duration now job;
          d2 = put_job job' d1;
          d3 = add_attempt (new_attempt run job' now d2) d2;
          run' = run\<lparr>run_status := RunStatus.PREPARING, run_updated_at := now\<rparr>;
          d4 = put_run run' d3
      in (lease_of run job' worker_id (min (now + lease_duration) (job_deadline job)),
          append_next_event run' ATTEMPT_STARTED RunStatus.PREPARING None now d4))"

text \<open>The part of \<open>claim_job\<close> after a candidate row is locked: \<open>clock 2\<close> and \<open>clock 3\<close> are read
  again because the locks may have been waited for.\<close>

definition claim_run ::
  "string \<Rightarrow> duration \<Rightarrow> clock \<Rightarrow> Run \<Rightarrow> ReconciledJob list \<Rightarrow> db
     \<Rightarrow> svc_error + (JobLease option \<times> ReconciledJob list) \<times> db" where
  "claim_run worker_id lease_duration clock run reconciled d =
     (case job_for_run (run_id run) d of
        None \<Rightarrow> Inr ((None, reconciled), d)
      | Some job \<Rightarrow>
          (let give_up = (\<lambda>status now code.
                 and_then (terminalize_run run status now code TERMINAL d) (\<lambda>(_, d').
                   Inr ((None, reconciled @ [reconciled_job run job status]), d')))
           in if job_deadline job \<le> clock 2
              then give_up RunStatus.TIMED_OUT (clock 2) DEADLINE_EXCEEDED
              else if job_deadline job \<le> clock 3
              then give_up RunStatus.TIMED_OUT (clock 3) DEADLINE_EXCEEDED
              else if \<not> claim_target_is_current run d
              then give_up RunStatus.FAILED (clock 3) PREPARATION_FAILED
              else (let (lease, d') = grant_lease worker_id lease_duration (clock 3) run job d
                    in Inr ((Some lease, reconciled), d'))))"

definition claim_job ::
  "ExecutionLimits \<Rightarrow> (uuid \<Rightarrow> bool) \<Rightarrow> clock \<Rightarrow> string \<Rightarrow> duration \<Rightarrow> db
     \<Rightarrow> svc_error + (JobLease option \<times> ReconciledJob list) \<times> db" where
  "claim_job limits locked clock worker_id lease_duration d0 =
     (if worker_id = '''' \<or> length worker_id > 128 \<or> lease_duration \<le> 0 then Inl ValueError
      else
        (let now = clock 0; (st, d) = execution_state_row (clock 1) d0
         in if ses_dispatch_quarantined st then Inl (ExecutionError DISPATCH_QUARANTINED)
            else
              and_then (terminalize_expired_jobs limits locked now d) (\<lambda>(expired, d1).
              and_then (terminalize_abandoned_dispatches limits locked now d1) (\<lambda>(abandoned, d2).
                case claim_candidate st locked now d2 of
                  None \<Rightarrow> Inr ((None, expired @ abandoned), d2)
                | Some run \<Rightarrow>
                    claim_run worker_id lease_duration clock run (expired @ abandoned) d2))))"

section \<open>Lineage of a lease\<close>

definition locked_job :: "JobLease \<Rightarrow> db \<Rightarrow> svc_error + Job" where
  "locked_job lease d =
     (case first_row (filter (\<lambda>j. job_id j = lease_job_id lease
                                 \<and> job_workspace_id j = lease_workspace_id lease) (jobs d)) of
        None \<Rightarrow> lease_lost
      | Some job \<Rightarrow> if job_run_id job \<noteq> lease_run_id lease then lease_lost else Inr job)"

definition locked_lease_lineage :: "JobLease \<Rightarrow> db \<Rightarrow> svc_error + Run \<times> Job" where
  "locked_lease_lineage lease d =
     (case first_row (filter (\<lambda>j. job_id j = lease_job_id lease
                                 \<and> job_workspace_id j = lease_workspace_id lease) (jobs d)) of
        None \<Rightarrow> lease_lost
      | Some row \<Rightarrow>
          if job_run_id row \<noteq> lease_run_id lease then lease_lost
          else
            (case first_row (filter (\<lambda>r. run_id r = job_run_id row
                                       \<and> run_workspace_id r = job_workspace_id row) (runs d)) of
               None \<Rightarrow> lease_lost
             | Some run \<Rightarrow> and_then (locked_job lease d) (\<lambda>job. Inr (run, job))))"

section \<open>Fences\<close>

text \<open>The lease columns of the job agree with the lease the worker holds.\<close>

definition holds_lease :: "JobLease \<Rightarrow> Job \<Rightarrow> bool" where
  "holds_lease lease job \<longleftrightarrow> job_status job = JobStatus.LEASED
     \<and> job_lease_owner job = Some (lease_worker_id lease)
     \<and> job_lease_epoch job = lease_lease_epoch lease"

definition unexpired :: "instant \<Rightarrow> Job \<Rightarrow> bool" where
  "unexpired now job \<longleftrightarrow> (case job_lease_expires_at job of None \<Rightarrow> False | Some t \<Rightarrow> now < t)"

definition may_fence ::
  "SystemExecutionState \<Rightarrow> JobLease \<Rightarrow> RunStatus \<Rightarrow> instant \<Rightarrow> Run \<Rightarrow> Job \<Rightarrow> db \<Rightarrow> bool" where
  "may_fence st lease expected now run job d \<longleftrightarrow>
     \<not> ses_dispatch_quarantined st
     \<and> ses_execution_epoch st = lease_execution_epoch lease
     \<and> job_execution_epoch job = lease_execution_epoch lease
     \<and> holds_lease lease job \<and> unexpired now job \<and> now < job_deadline job
     \<and> \<not> run_cancellation_requested run
     \<and> run_status run = expected
     \<and> run_protocol_revision run = QUALIFIED_PROTOCOL_REVISION
     \<and> membership_may_run run d \<and> capability_is_pinned run d \<and> connection_is_pinned run d
     \<and> binding_is_pinned run d"

definition fence_attempt ::
  "JobLease \<Rightarrow> RunStatus \<Rightarrow> RunStatus \<Rightarrow> RunEventType \<Rightarrow> clock \<Rightarrow> db \<Rightarrow> svc_error + Run \<times> db" where
  "fence_attempt lease expected target event_type clock d0 =
     (let (st, d) = execution_state_row (clock 0) d0
      in if \<not> list_ex (\<lambda>j. job_id j = lease_job_id lease
               \<and> job_workspace_id j = lease_workspace_id lease
               \<and> job_run_id j = lease_run_id lease) (jobs d) then lease_lost
         else and_then (locked_lease_lineage lease d) (\<lambda>(run, job).
           if \<not> list_ex (\<lambda>w. ws_id w = lease_workspace_id lease) (workspaces d) then lease_lost
           else
             (let now = clock 1
              in if \<not> may_fence st lease expected now run job d then lease_lost
                 else
                   (case active_attempt (run_id run) d of
                      None \<Rightarrow> lease_lost
                    | Some attempt \<Rightarrow>
                        if att_lease_epoch attempt \<noteq> lease_lease_epoch lease
                           \<or> att_status attempt \<noteq> expected then lease_lost
                        else
                          (let run' = run\<lparr>run_status := target, run_updated_at := now\<rparr>;
                               d1 = put_attempt (attempt\<lparr>att_status := target\<rparr>) (put_run run' d)
                           in Inr (run', append_next_event run' event_type target None now d1))))))"

definition fence_session :: "JobLease \<Rightarrow> clock \<Rightarrow> db \<Rightarrow> svc_error + Run \<times> db" where
  "fence_session lease =
     fence_attempt lease RunStatus.PREPARING RunStatus.SESSION_FENCED RunEventType.SESSION_FENCED"

definition fence_dispatch :: "JobLease \<Rightarrow> clock \<Rightarrow> db \<Rightarrow> svc_error + Run \<times> db" where
  "fence_dispatch lease =
     fence_attempt lease RunStatus.SESSION_FENCED RunStatus.DISPATCH_FENCED
       RunEventType.DISPATCH_FENCED"

section \<open>Heartbeats\<close>

definition heartbeat :: "JobLease \<Rightarrow> duration \<Rightarrow> clock \<Rightarrow> db \<Rightarrow> svc_error + JobLease \<times> db" where
  "heartbeat lease lease_duration clock d0 =
     (if lease_duration \<le> 0 then Inl ValueError
      else
        (let (st, d) = execution_state_row (clock 0) d0
         in and_then (locked_lease_lineage lease d) (\<lambda>(run, job).
              (let now = clock 1
               in if ses_dispatch_quarantined st
                     \<or> ses_execution_epoch st \<noteq> lease_execution_epoch lease
                     \<or> \<not> holds_lease lease job \<or> \<not> unexpired now job \<or> job_deadline job \<le> now
                  then lease_lost
                  else if terminal_status (run_status run) then lease_lost
                  else
                    (let expires = min (now + lease_duration) (job_deadline job)
                     in Inr (\<lparr>lease_job_id = job_id job, lease_run_id = job_run_id job,
                              lease_workspace_id = job_workspace_id job,
                              lease_correlation_id = lease_correlation_id lease,
                              lease_worker_id = lease_worker_id lease,
                              lease_lease_epoch = lease_lease_epoch lease,
                              lease_execution_epoch = lease_execution_epoch lease,
                              lease_expires_at = expires\<rparr>,
                             put_job (job\<lparr>job_lease_expires_at := Some expires\<rparr>) d))))))"

section \<open>Completion\<close>

fun allowed_failure_codes :: "RunStatus \<Rightarrow> RunFailureCode list" where
  "allowed_failure_codes RunStatus.PREPARING = [PREPARATION_FAILED]"
| "allowed_failure_codes RunStatus.SESSION_FENCED = [SESSION_INITIALIZATION_FAILED]"
| "allowed_failure_codes RunStatus.DISPATCH_FENCED =
     [TOOL_CALL_FAILED, INVALID_TOOL_RESULT, UNSUPPORTED_TOOL_RESULT, SENSITIVE_TOOL_RESULT]"
| "allowed_failure_codes _ = []"

definition valid_worker_completion ::
  "Run \<Rightarrow> RunAttempt \<Rightarrow> RunStatus \<Rightarrow> RunFailureCode option \<Rightarrow> bool" where
  "valid_worker_completion run attempt status code =
     (let source = run_status run
      in if att_status attempt \<noteq> source then False
         else case status of
           RunStatus.SUCCEEDED \<Rightarrow> source = RunStatus.DISPATCH_FENCED \<and> code = None
         | RunStatus.FAILED \<Rightarrow>
             (case code of None \<Rightarrow> False | Some c \<Rightarrow> c \<in> set (allowed_failure_codes source))
         | RunStatus.CANCELLED \<Rightarrow> run_cancellation_requested run
             \<and> (source = RunStatus.PREPARING \<or> source = RunStatus.SESSION_FENCED)
             \<and> code = Some CANCELLED_BEFORE_DISPATCH
         | RunStatus.INDETERMINATE \<Rightarrow> source = RunStatus.DISPATCH_FENCED
             \<and> code = Some UPSTREAM_OUTCOME_UNKNOWN
         | _ \<Rightarrow> False)"

definition complete_lease ::
  "JobLease \<Rightarrow> RunStatus \<Rightarrow> RunFailureCode option \<Rightarrow> clock \<Rightarrow> db \<Rightarrow> svc_error + Run \<times> db" where
  "complete_lease lease status code clock d0 =
     (if \<not> terminal_status status then invalid_transition
      else if status = RunStatus.SUCCEEDED \<and> code \<noteq> None then invalid_transition
      else
        (let (st, d) = execution_state_row (clock 0) d0
         in and_then (locked_lease_lineage lease d) (\<lambda>(run, job).
              (let now = clock 1
               in if ses_execution_epoch st \<noteq> lease_execution_epoch lease
                     \<or> \<not> holds_lease lease job \<or> job_lease_expires_at job = None then lease_lost
                  else if terminal_status (run_status run) then invalid_transition
                  else if job_deadline job \<le> now
                  then terminalize_run run (deadline_status (run_status run)) now DEADLINE_EXCEEDED
                         TERMINAL d
                  else if \<not> unexpired now job then lease_lost
                  else
                    (case active_attempt (run_id run) d of
                       None \<Rightarrow> lease_lost
                     | Some attempt \<Rightarrow>
                         if att_lease_epoch attempt \<noteq> lease_lease_epoch lease then lease_lost
                         else if \<not> valid_worker_completion run attempt status code
                         then invalid_transition
                         else
                           (case JobStatus_of status of
                              None \<Rightarrow> Inl ValueError
                            | Some js \<Rightarrow>
                                (let run' = run\<lparr>run_status := status, run_safe_error_code := code,
                                       run_updated_at := now, run_terminal_at := Some now\<rparr>;
                                     d1 = put_job (terminal_job js now job)
                                            (put_attempt (terminal_attempt status now code attempt)
                                               (put_run run' d))
                                 in Inr (run', append_next_event run' TERMINAL status code now
                                                 d1))))))))"

text \<open>The code under \<open>src/\<close> that the model takes as an argument, and the libraries it calls:
  SHA-256 in hexadecimal, the rendering of floats, and the screen of
  \<^verbatim>\<open>security/metadata.py\<close> (\<open>None\<close> when it raises).\<close>

record content_externals =
  sha256_hex :: "bytes \<Rightarrow> string"
  json_float_repr :: float_repr
  contains_sensitive_json :: "json \<Rightarrow> bool option"

record AcceptedToolResult =
  atr_payload :: json
  atr_canonical_digest :: string
  atr_byte_count :: nat

definition accepted_result_ok :: "content_externals \<Rightarrow> ExecutionLimits \<Rightarrow> AcceptedToolResult \<Rightarrow> bool" where
  "accepted_result_ok ext limits result \<longleftrightarrow>
     validate_bounded_json (atr_payload result)
     \<and> (case canonical_json (json_float_repr ext) (atr_payload result) of
          None \<Rightarrow> False
        | Some canonical \<Rightarrow>
            canonical \<noteq> [] \<and> int (length canonical) \<le> max_result_bytes limits
            \<and> length canonical = atr_byte_count result
            \<and> sha256_hex ext canonical = atr_canonical_digest result
            \<and> contains_sensitive_json ext (atr_payload result) = Some False)"

definition complete_invocation_success ::
  "content_externals \<Rightarrow> ExecutionLimits \<Rightarrow> JobLease \<Rightarrow> AcceptedToolResult \<Rightarrow> clock \<Rightarrow> db
     \<Rightarrow> svc_error + Run \<times> db" where
  "complete_invocation_success ext limits lease result clock d0 =
     (if \<not> accepted_result_ok ext limits result then Inl (ExecutionError INVALID_ARGUMENTS)
      else and_then (complete_lease lease RunStatus.SUCCEEDED None clock d0) (\<lambda>(run, d).
        if run_status run \<noteq> RunStatus.SUCCEEDED then Inr (run, d)
        else
          (let captured_at = (case run_terminal_at run of Some t \<Rightarrow> t | None \<Rightarrow> clock 2)
           in Inr (run, d\<lparr>run_results := run_results d @ [\<lparr>res_run_id = run_id run,
                 res_workspace_id = run_workspace_id run, res_payload = atr_payload result,
                 res_canonical_digest = atr_canonical_digest result,
                 res_byte_count = atr_byte_count result, res_captured_at = captured_at,
                 res_expires_at = captured_at + days (result_retention_days limits)\<rparr>]\<rparr>))))"

end
