(* ===== verification/Exec_Control.thy ===== *)
theory Exec_Control
  imports Exec_Worker
begin

text \<open>
  The control operations of \<^verbatim>\<open>execution/service.py\<close>: cancellation by a member, restore quarantine
  (enter, reconcile in batches, clear), the three retention passes, and \<open>replay_projection\<close>, which
  recomputes a run's status from its event history.
\<close>

section \<open>Cancellation\<close>

definition locked_run :: "uuid \<Rightarrow> uuid \<Rightarrow> db \<Rightarrow> svc_error + Run" where
  "locked_run w i d =
     (case first_row (filter (\<lambda>r. run_id r = i \<and> run_workspace_id r = w) (runs d)) of
        None \<Rightarrow> invalid_transition
      | Some run \<Rightarrow> Inr run)"

definition cancel_run ::
  "WorkspaceContext \<Rightarrow> uuid \<Rightarrow> uuid option \<Rightarrow> uuid \<Rightarrow> clock \<Rightarrow> db \<Rightarrow> svc_error + Run \<times> db" where
  "cancel_run ctx i correlation_id fresh_correlation clock d =
     and_then (require_current_role ctx [ADMIN, OPERATOR] False d) (\<lambda>_.
     and_then (locked_run (ctx_workspace_id ctx) i d) (\<lambda>run.
     and_then (require_current_role ctx [ADMIN, OPERATOR] True d) (\<lambda>_.
       let status = run_status run
       in if terminal_status status then Inr (run, d)
          else
            (let now = clock 0; run1 = run\<lparr>run_cancellation_requested := True\<rparr>
             in and_then
                  (if run_deadline run1 \<le> now
                   then terminalize_run run1 (deadline_status status) now DEADLINE_EXCEEDED TERMINAL d
                   else if status = RunStatus.QUEUED \<or> status = RunStatus.PREPARING
                           \<or> status = RunStatus.SESSION_FENCED
                   then terminalize_run run1 RunStatus.CANCELLED now CANCELLED_BEFORE_DISPATCH
                          CANCEL_REQUESTED d
                   else
                     (let run2 = run1\<lparr>run_updated_at := now\<rparr>
                      in Inr (run2, append_next_event run2 CANCEL_REQUESTED status None now
                                      (put_run run2 d))))
                  (\<lambda>(run', d').
                     Inr (run', add_audit
                       (audit_succeeded (ctx_workspace_id ctx) (ctx_actor_user_id ctx)
                          (if run_status run' = RunStatus.CANCELLED then RUN_CANCELLED
                           else RUN_CANCELLATION_REQUESTED)
                          RUN (run_id run')
                          (case correlation_id of Some c \<Rightarrow> c | None \<Rightarrow> fresh_correlation)) d'))))))"

section \<open>Restore quarantine\<close>

text \<open>\<open>authority\<close> is whether the service was built with a \<open>SystemExecutionAuthority\<close>.\<close>

definition require_system_authority :: "bool \<Rightarrow> svc_error + unit" where
  "require_system_authority authority = (if authority then Inr () else Inl PermissionError)"

definition enter_restore_quarantine :: "bool \<Rightarrow> clock \<Rightarrow> db \<Rightarrow> svc_error + nat \<times> db" where
  "enter_restore_quarantine authority clock d0 =
     and_then (require_system_authority authority) (\<lambda>_.
       let now = clock 0; (st, d) = execution_state_row (clock 1) d0;
           st' = st\<lparr>ses_execution_epoch := ses_execution_epoch st + 1,
                    ses_dispatch_quarantined := True, ses_updated_at := now\<rparr>
       in Inr (ses_execution_epoch st', d\<lparr>execution_state := Some st'\<rparr>))"

text \<open>What reconciliation makes of an active run: an outcome that is unknown once dispatched, a
  cancellation before.\<close>

definition restore_status :: "RunStatus \<Rightarrow> RunStatus" where
  "restore_status s =
     (if s = RunStatus.DISPATCH_FENCED then RunStatus.INDETERMINATE else RunStatus.CANCELLED)"

definition unreconciled_rows :: "nat \<Rightarrow> (uuid \<Rightarrow> bool) \<Rightarrow> db \<Rightarrow> Run list" where
  "unreconciled_rows n locked d =
     order_by_limit (\<lambda>r. (run_created_at r, run_id r)) n
       (filter (\<lambda>r. active_status (run_status r) \<and> \<not> locked (run_id r)) (runs d))"

definition reconcile_restore_quarantine ::
  "bool \<Rightarrow> int \<Rightarrow> (uuid \<Rightarrow> bool) \<Rightarrow> clock \<Rightarrow> db \<Rightarrow> svc_error + nat \<times> db" where
  "reconcile_restore_quarantine authority batch_size locked clock d0 =
     and_then (require_system_authority authority) (\<lambda>_.
       if batch_size \<le> 0 \<or> batch_size > 1000 then Inl ValueError
       else
         (let (st, d) = execution_state_row (clock 0) d0
          in if \<not> ses_dispatch_quarantined st then invalid_transition
             else
               (let now = clock 1; rows = unreconciled_rows (nat batch_size) locked d
                in and_then
                     (fold_res (\<lambda>run d. map_sum id snd (terminalize_run run
                          (restore_status (run_status run)) now RESTORE_RECONCILIATION
                          RESTORE_RECONCILED d)) rows d)
                     (\<lambda>d'. Inr (length rows, d')))))"

definition clear_restore_quarantine :: "bool \<Rightarrow> clock \<Rightarrow> db \<Rightarrow> svc_error + nat \<times> db" where
  "clear_restore_quarantine authority clock d0 =
     and_then (require_system_authority authority) (\<lambda>_.
       let (st, d) = execution_state_row (clock 0) d0
       in if \<not> ses_dispatch_quarantined st \<or> list_ex (\<lambda>r. active_status (run_status r)) (runs d)
          then invalid_transition
          else
            (let st' = st\<lparr>ses_dispatch_quarantined := False, ses_updated_at := clock 1\<rparr>
             in Inr (ses_execution_epoch st', d\<lparr>execution_state := Some st'\<rparr>)))"

section \<open>Retention\<close>

definition content_expired_rows :: "nat \<Rightarrow> (uuid \<Rightarrow> bool) \<Rightarrow> instant \<Rightarrow> db \<Rightarrow> Run list" where
  "content_expired_rows n locked now d =
     order_by_limit (\<lambda>r. (run_arguments_expires_at r, run_id r)) n
       (filter (\<lambda>r. run_arguments r \<noteq> None \<and> run_arguments_expires_at r \<le> now
                  \<and> \<not> locked (run_id r)) (runs d))"

definition without_content :: "instant \<Rightarrow> Run \<Rightarrow> Run" where
  "without_content now run =
     run\<lparr>run_arguments := None, run_argument_digest := None, run_updated_at := now\<rparr>"

definition expire_content_of :: "instant \<Rightarrow> Run \<Rightarrow> db \<Rightarrow> svc_error + db" where
  "expire_content_of now run d =
     and_then
       (if \<not> terminal_status (run_status run)
        then terminalize_run run (deadline_status (run_status run)) now CONTENT_RETENTION_DEADLINE
               CONTENT_EXPIRED d
        else Inr (run, append_next_event run CONTENT_EXPIRED (run_status run)
                         (run_safe_error_code run) now d))
       (\<lambda>(run', d'). Inr (put_run (without_content now run') d'))"

definition invalid_batch :: "int \<Rightarrow> bool" where
  "invalid_batch batch_size \<longleftrightarrow> batch_size \<le> 0 \<or> batch_size > 1000"

definition expire_retained_content ::
  "int \<Rightarrow> (uuid \<Rightarrow> bool) \<Rightarrow> clock \<Rightarrow> db \<Rightarrow> svc_error + nat \<times> db" where
  "expire_retained_content batch_size locked clock d =
     (if invalid_batch batch_size then Inl ValueError
      else
        (let now = clock 0; rows = content_expired_rows (nat batch_size) locked now d
         in and_then (fold_res (expire_content_of now) rows d) (\<lambda>d'. Inr (length rows, d'))))"

text \<open>Deleting runs cascades to every table that references them.\<close>

definition delete_runs :: "uuid list \<Rightarrow> db \<Rightarrow> db" where
  "delete_runs ids d = d\<lparr>
     runs := filter (\<lambda>r. run_id r \<notin> set ids) (runs d),
     run_results := filter (\<lambda>r. res_run_id r \<notin> set ids) (run_results d),
     jobs := filter (\<lambda>j. job_run_id j \<notin> set ids) (jobs d),
     run_attempts := filter (\<lambda>a. att_run_id a \<notin> set ids) (run_attempts d),
     run_events := filter (\<lambda>e. ev_run_id e \<notin> set ids) (run_events d),
     confirmation_nonces := filter (\<lambda>n. nonce_run_id n \<notin> set ids) (confirmation_nonces d),
     idempotency_records := filter (\<lambda>r. idem_resource_id r \<notin> set ids) (idempotency_records d)\<rparr>"

definition metadata_expired_ids ::
  "nat \<Rightarrow> (uuid \<Rightarrow> bool) \<Rightarrow> instant \<Rightarrow> db \<Rightarrow> uuid list" where
  "metadata_expired_ids n locked cutoff d =
     map run_id (order_by_limit
       (\<lambda>r. ((case run_terminal_at r of None \<Rightarrow> 0 | Some t \<Rightarrow> t), run_id r)) n
       (filter (\<lambda>r. (case run_terminal_at r of None \<Rightarrow> False | Some t \<Rightarrow> t \<le> cutoff)
                  \<and> \<not> locked (run_id r)) (runs d)))"

definition delete_expired_run_metadata ::
  "ExecutionLimits \<Rightarrow> int \<Rightarrow> (uuid \<Rightarrow> bool) \<Rightarrow> clock \<Rightarrow> db \<Rightarrow> svc_error + nat \<times> db" where
  "delete_expired_run_metadata limits batch_size locked clock d =
     (if invalid_batch batch_size then Inl ValueError
      else
        (let cutoff = clock 0 - days (run_retention_days limits);
             ids = metadata_expired_ids (nat batch_size) locked cutoff d
         in Inr (length ids, if ids \<noteq> [] then delete_runs ids d else d)))"

definition result_expired_ids :: "nat \<Rightarrow> (uuid \<Rightarrow> bool) \<Rightarrow> instant \<Rightarrow> db \<Rightarrow> uuid list" where
  "result_expired_ids n locked now d =
     map res_run_id (order_by_limit (\<lambda>r. (res_expires_at r, res_run_id r)) n
       (filter (\<lambda>r. res_expires_at r \<le> now \<and> \<not> locked (res_run_id r)) (run_results d)))"

definition expire_retained_results ::
  "int \<Rightarrow> (uuid \<Rightarrow> bool) \<Rightarrow> clock \<Rightarrow> db \<Rightarrow> svc_error + nat \<times> db" where
  "expire_retained_results batch_size locked clock d =
     (if invalid_batch batch_size then Inl ValueError
      else
        (let ids = result_expired_ids (nat batch_size) locked (clock 0) d
         in Inr (length ids,
              if ids \<noteq> []
              then d\<lparr>run_results := filter (\<lambda>r. res_run_id r \<notin> set ids) (run_results d)\<rparr>
              else d)))"

section \<open>Replay\<close>

fun replay_loop :: "nat \<Rightarrow> RunStatus \<Rightarrow> RunEvent list \<Rightarrow> svc_error + RunStatus" where
  "replay_loop expected_sequence current [] = Inr current"
| "replay_loop expected_sequence current (e # es) =
     (if ev_sequence e \<noteq> expected_sequence then Inl ValueError
      else replay_loop (expected_sequence + 1) (ev_status e) es)"

definition replay_projection :: "RunEvent list \<Rightarrow> svc_error + RunStatus" where
  "replay_projection events =
     (if events = [] then Inl ValueError
      else replay_loop 1 RunStatus.QUEUED (sort_key ev_sequence events))"

end
