(* ===== verification/Exec_Constraints.thy ===== *)
theory Exec_Constraints
  imports Exec_Control
begin

text \<open>
  The constraints that \<^verbatim>\<open>persistence/models.py\<close> declares on the execution tables, as executable
  predicates: what a flush checks of a row (check constraints, unique constraints, foreign keys) and
  the update listener that refuses to change a terminal status. A flush that breaks one of them
  raises; the development shows that the operations never get there.
\<close>

section \<open>Check constraints\<close>

fun error_status :: "RunStatus \<Rightarrow> bool" where
  "error_status RunStatus.FAILED = True"
| "error_status RunStatus.CANCELLED = True"
| "error_status RunStatus.TIMED_OUT = True"
| "error_status RunStatus.INDETERMINATE = True"
| "error_status _ = False"

definition code_check :: "RunStatus \<Rightarrow> RunFailureCode option \<Rightarrow> bool" where
  "code_check s code \<longleftrightarrow>
     (s = RunStatus.SUCCEEDED \<longrightarrow> code = None) \<and> (error_status s \<longrightarrow> code \<noteq> None)"

definition arguments_check :: "json option \<Rightarrow> string option \<Rightarrow> bool" where
  "arguments_check arguments digest \<longleftrightarrow>
     (case arguments of
        None \<Rightarrow> digest = None
      | Some _ \<Rightarrow> (case digest of None \<Rightarrow> False | Some x \<Rightarrow> length x = 64))"

definition run_check :: "Run \<Rightarrow> bool" where
  "run_check r \<longleftrightarrow>
     (terminal_status (run_status r) \<longleftrightarrow> run_terminal_at r \<noteq> None)
     \<and> arguments_check (run_arguments r) (run_argument_digest r)
     \<and> code_check (run_status r) (run_safe_error_code r)
     \<and> length (run_protocol_revision r) \<le> 64"

fun terminal_job_status :: "JobStatus \<Rightarrow> bool" where
  "terminal_job_status JobStatus.QUEUED = False"
| "terminal_job_status JobStatus.LEASED = False"
| "terminal_job_status _ = True"

definition job_check :: "Job \<Rightarrow> bool" where
  "job_check j \<longleftrightarrow>
     0 < job_execution_epoch j
     \<and> (if job_status j = JobStatus.LEASED
        then job_lease_owner j \<noteq> None \<and> job_lease_expires_at j \<noteq> None
        else job_lease_owner j = None \<and> job_lease_expires_at j = None)
     \<and> (terminal_job_status (job_status j) \<longleftrightarrow> job_completed_at j \<noteq> None)
     \<and> pred_option (\<lambda>w. length w \<le> 128) (job_lease_owner j)"

definition attempt_check :: "RunAttempt \<Rightarrow> bool" where
  "attempt_check a \<longleftrightarrow>
     0 < att_sequence a \<and> 0 < att_lease_epoch a
     \<and> att_status a \<noteq> RunStatus.QUEUED
     \<and> (terminal_status (att_status a) \<longleftrightarrow> att_terminal_at a \<noteq> None)
     \<and> code_check (att_status a) (att_safe_error_code a)"

definition event_check :: "RunEvent \<Rightarrow> bool" where
  "event_check e \<longleftrightarrow> 0 < ev_sequence e \<and> code_check (ev_status e) (ev_safe_error_code e)"

definition result_check :: "RunResult \<Rightarrow> bool" where
  "result_check r \<longleftrightarrow> 0 < res_byte_count r \<and> length (res_canonical_digest r) = 64"

definition nonce_check :: "ConfirmationNonce \<Rightarrow> bool" where
  "nonce_check n \<longleftrightarrow> length (nonce_digest n) = 64
     \<and> 1 \<le> length (nonce_key_version n) \<and> length (nonce_key_version n) \<le> 32"

definition idem_check :: "IdempotencyRecord \<Rightarrow> bool" where
  "idem_check r \<longleftrightarrow> length (idem_key_hmac r) = 64 \<and> length (idem_request_hmac r) = 64
     \<and> idem_resource_type r = RUN
     \<and> 1 \<le> length (idem_confirmation_key_version r) \<and> length (idem_confirmation_key_version r) \<le> 32
     \<and> length (idem_key_version r) \<le> 32 \<and> length (idem_method r) \<le> 8 \<and> length (idem_route r) \<le> 128"

section \<open>Foreign keys and unique constraints\<close>

definition workspace_exists :: "uuid \<Rightarrow> db \<Rightarrow> bool" where
  "workspace_exists w d = list_ex (\<lambda>x. ws_id x = w) (workspaces d)"

definition user_exists :: "uuid \<Rightarrow> db \<Rightarrow> bool" where
  "user_exists u d = list_ex (\<lambda>x. usr_id x = u) (users d)"

definition run_exists :: "uuid \<Rightarrow> uuid \<Rightarrow> db \<Rightarrow> bool" where
  "run_exists w i d = list_ex (\<lambda>r. run_workspace_id r = w \<and> run_id r = i) (runs d)"

definition run_references :: "Run \<Rightarrow> db \<Rightarrow> bool" where
  "run_references r d \<longleftrightarrow>
     workspace_exists (run_workspace_id r) d \<and> user_exists (run_actor_user_id r) d
     \<and> list_ex (\<lambda>c. cap_workspace_id c = run_workspace_id r \<and> cap_id c = run_capability_id r)
         (capabilities d)
     \<and> list_ex (\<lambda>v. capv_workspace_id v = run_workspace_id r
                  \<and> capv_id v = run_capability_version_id r) (capability_versions d)
     \<and> list_ex (\<lambda>c. conn_workspace_id c = run_workspace_id r \<and> conn_id c = run_connection_id r)
         (connections d)
     \<and> list_ex (\<lambda>v. scv_workspace_id v = run_workspace_id r
                  \<and> scv_id v = run_connection_version_id r) (connection_versions d)"

definition idem_key :: "IdempotencyRecord \<Rightarrow> uuid \<times> uuid \<times> string \<times> string \<times> string \<times> string" where
  "idem_key r = (idem_workspace_id r, idem_actor_user_id r, idem_method r, idem_route r,
     idem_key_version r, idem_key_hmac r)"

text \<open>What a flush that inserts one row checks of it.\<close>

definition run_insert_ok :: "Run \<Rightarrow> db \<Rightarrow> bool" where
  "run_insert_ok r d \<longleftrightarrow> run_check r \<and> run_references r d \<and> run_id r \<notin> set (map run_id (runs d))"

definition job_insert_ok :: "Job \<Rightarrow> db \<Rightarrow> bool" where
  "job_insert_ok j d \<longleftrightarrow> job_check j \<and> workspace_exists (job_workspace_id j) d
     \<and> user_exists (job_actor_user_id j) d \<and> run_exists (job_workspace_id j) (job_run_id j) d
     \<and> job_id j \<notin> set (map job_id (jobs d)) \<and> job_run_id j \<notin> set (map job_run_id (jobs d))"

definition event_insert_ok :: "RunEvent \<Rightarrow> db \<Rightarrow> bool" where
  "event_insert_ok e d \<longleftrightarrow> event_check e \<and> workspace_exists (ev_workspace_id e) d
     \<and> run_exists (ev_workspace_id e) (ev_run_id e) d
     \<and> (ev_run_id e, ev_sequence e) \<notin> set (map (\<lambda>x. (ev_run_id x, ev_sequence x)) (run_events d))"

definition nonce_insert_ok :: "ConfirmationNonce \<Rightarrow> db \<Rightarrow> bool" where
  "nonce_insert_ok n d \<longleftrightarrow> nonce_check n \<and> workspace_exists (nonce_workspace_id n) d
     \<and> user_exists (nonce_actor_user_id n) d \<and> run_exists (nonce_workspace_id n) (nonce_run_id n) d
     \<and> nonce_digest n \<notin> set (map nonce_digest (confirmation_nonces d))"

definition idem_insert_ok :: "IdempotencyRecord \<Rightarrow> db \<Rightarrow> bool" where
  "idem_insert_ok r d \<longleftrightarrow> idem_check r \<and> workspace_exists (idem_workspace_id r) d
     \<and> user_exists (idem_actor_user_id r) d \<and> run_exists (idem_workspace_id r) (idem_resource_id r) d
     \<and> idem_id r \<notin> set (map idem_id (idempotency_records d))
     \<and> idem_key r \<notin> set (map idem_key (idempotency_records d))"

section \<open>The whole execution schema\<close>

definition active_attempts_of :: "uuid \<Rightarrow> db \<Rightarrow> RunAttempt list" where
  "active_attempts_of i d =
     filter (\<lambda>a. att_run_id a = i \<and> attempt_active (att_status a)) (run_attempts d)"

text \<open>The execution tables satisfy every constraint declared on them. Foreign keys into the
  registry tables are not repeated here: they concern rows that no execution operation changes.\<close>

definition execution_constraints :: "db \<Rightarrow> bool" where
  "execution_constraints d \<longleftrightarrow>
     list_all run_check (runs d) \<and> distinct (map run_id (runs d))
     \<and> list_all job_check (jobs d) \<and> distinct (map job_id (jobs d))
     \<and> distinct (map job_run_id (jobs d))
     \<and> list_all (\<lambda>j. run_exists (job_workspace_id j) (job_run_id j) d) (jobs d)
     \<and> list_all attempt_check (run_attempts d) \<and> distinct (map att_key (run_attempts d))
     \<and> list_all (\<lambda>a. run_exists (att_workspace_id a) (att_run_id a) d) (run_attempts d)
     \<and> list_all (\<lambda>a. list_ex (\<lambda>j. job_workspace_id j = att_workspace_id a
                                  \<and> job_id j = att_job_id a) (jobs d)) (run_attempts d)
     \<and> list_all (\<lambda>a. length (active_attempts_of (att_run_id a) d) \<le> 1) (run_attempts d)
     \<and> list_all event_check (run_events d)
     \<and> distinct (map (\<lambda>e. (ev_run_id e, ev_sequence e)) (run_events d))
     \<and> list_all (\<lambda>e. run_exists (ev_workspace_id e) (ev_run_id e) d) (run_events d)"

text \<open>\<open>_reject_terminal_status_update\<close>, for each row that is in both states.\<close>

definition terminal_status_kept :: "db \<Rightarrow> db \<Rightarrow> bool" where
  "terminal_status_kept d d' \<longleftrightarrow>
     list_all (\<lambda>r. list_all (\<lambda>r'. run_id r' = run_id r \<and> terminal_status (run_status r)
                        \<longrightarrow> run_status r' = run_status r) (runs d')) (runs d)
     \<and> list_all (\<lambda>j. list_all (\<lambda>j'. job_id j' = job_id j \<and> job_run_id j' = job_run_id j
                        \<and> terminal_job_status (job_status j)
                        \<longrightarrow> job_status j' = job_status j) (jobs d')) (jobs d)
     \<and> list_all (\<lambda>a. list_all (\<lambda>a'. att_key a' = att_key a \<and> terminal_status (att_status a)
                        \<longrightarrow> att_status a' = att_status a) (run_attempts d')) (run_attempts d)"

end
