(* ===== verification/Wire_Text.thy ===== *)
theory Wire_Text
  imports Json_Text "HOL-Library.Char_ord"
begin

text \<open>
  Text the services put on the wire and hash: UUIDs (\<open>str(UUID)\<close>, \<open>UUID(str)\<close>), ASCII JSON strings,
  UTC timestamps in ISO format, and the white-space free JSON object that identifies an admission
  request. A UUID read back from its own text is shown to be the same UUID.
\<close>

section \<open>UUIDs\<close>

fun hex_fixed :: "nat \<Rightarrow> nat \<Rightarrow> ustr" where
  "hex_fixed 0 n = []"
| "hex_fixed (Suc k) n = hex_fixed k (n div 16) @ [hex_digit (n mod 16)]"

definition uuid_hex :: "uuid \<Rightarrow> ustr" where
  "uuid_hex u = hex_fixed 32 u"

definition uuid_str :: "uuid \<Rightarrow> ustr" where
  "uuid_str u = (let h = uuid_hex u
     in take 8 h @ 45 # take 4 (drop 8 h) @ 45 # take 4 (drop 12 h) @ 45 # take 4 (drop 16 h)
        @ 45 # drop 20 h)"

definition hex_value :: "nat \<Rightarrow> nat option" where
  "hex_value c =
     (if 48 \<le> c \<and> c \<le> 57 then Some (c - 48)
      else if 97 \<le> c \<and> c \<le> 102 then Some (c - 87)
      else if 65 \<le> c \<and> c \<le> 70 then Some (c - 55) else None)"

text \<open>The digits of \<open>int(text, 16)\<close>: one underscore may separate two digits. Digits of other
  scripts, which \<open>int\<close> accepts as well, are not digits here.\<close>

fun hex_digits_value :: "nat \<Rightarrow> ustr \<Rightarrow> nat option" where
  "hex_digits_value acc [] = Some acc"
| "hex_digits_value acc (c # cs) =
     (if c = 95
      then (case cs of
              [] \<Rightarrow> None
            | c' # cs' \<Rightarrow> (case hex_value c' of
                              None \<Rightarrow> None
                            | Some v \<Rightarrow> hex_digits_value (acc * 16 + v) cs'))
      else (case hex_value c of
              None \<Rightarrow> None
            | Some v \<Rightarrow> hex_digits_value (acc * 16 + v) cs))"

definition unsigned_hex :: "ustr \<Rightarrow> nat option" where
  "unsigned_hex s =
     (case s of
        [] \<Rightarrow> None
      | c # cs \<Rightarrow>
          if c = 48 \<and> cs \<noteq> [] \<and> (hd cs = 120 \<or> hd cs = 88)
          then (case tl cs of
                  [] \<Rightarrow> None
                | x # xs \<Rightarrow> if x = 95 \<and> xs = [] then None else hex_digits_value 0 (x # xs))
          else if c = 95 then None else hex_digits_value 0 s)"

definition signed_hex :: "ustr \<Rightarrow> int option" where
  "signed_hex text =
     (case text of
        [] \<Rightarrow> None
      | c # cs \<Rightarrow>
          if c = 45 then map_option (\<lambda>n. - int n) (unsigned_hex cs)
          else if c = 43 then map_option int (unsigned_hex cs)
          else map_option int (unsigned_hex (c # cs)))"

definition int_base16 :: "ustr \<Rightarrow> int option" where
  "int_base16 text = signed_hex (ustr_strip text)"

text \<open>\<open>str.replace(pattern, "")\<close> and \<open>str.strip(chars)\<close>.\<close>

function replace_all :: "ustr \<Rightarrow> ustr \<Rightarrow> ustr" where
  "replace_all pat s =
     (if s = [] then []
      else if pat \<noteq> [] \<and> take (length pat) s = pat then replace_all pat (drop (length pat) s)
      else hd s # replace_all pat (tl s))"
  by auto
termination by (relation "measure (length \<circ> snd)") auto

declare replace_all.simps [simp del]

definition strip_chars :: "nat list \<Rightarrow> ustr \<Rightarrow> ustr" where
  "strip_chars cs s = rev (dropWhile (\<lambda>c. c \<in> set cs) (rev (dropWhile (\<lambda>c. c \<in> set cs) s)))"

definition parse_uuid :: "ustr \<Rightarrow> uuid option" where
  "parse_uuid text =
     (let h = filter (\<lambda>c. c \<noteq> 45) (strip_chars [123, 125]
                (replace_all (ustr_of ''uuid:'') (replace_all (ustr_of ''urn:'') text)))
      in if length h \<noteq> 32 then None
         else (case int_base16 h of
                 None \<Rightarrow> None
               | Some i \<Rightarrow> if 0 \<le> i \<and> i < 2 ^ 128 then Some (nat i) else None))"

section \<open>ASCII JSON\<close>

definition u_escape :: "nat \<Rightarrow> ustr" where
  "u_escape c = [92, 117, hex_digit (c div 4096 mod 16), hex_digit (c div 256 mod 16),
     hex_digit (c div 16 mod 16), hex_digit (c mod 16)]"

definition ascii_escape_char :: "nat \<Rightarrow> ustr" where
  "ascii_escape_char c =
     (if c < 32 \<or> c = 34 \<or> c = 92 then escape_char c
      else if c < 127 then [c]
      else if c < 65536 then u_escape c
      else u_escape (55296 + (c - 65536) div 1024) @ u_escape (56320 + (c - 65536) mod 1024))"

definition ascii_json_string :: "ustr \<Rightarrow> ustr" where
  "ascii_json_string s = 34 # concat (map ascii_escape_char s) @ [34]"

section \<open>Timestamps\<close>

definition seconds_trunc :: "instant \<Rightarrow> int" where
  "seconds_trunc t = (if 0 \<le> t then t div 1000000 else - ((- t) div 1000000))"

definition seconds_ceil :: "instant \<Rightarrow> int" where
  "seconds_ceil t = - ((- t) div 1000000)"

text \<open>The proleptic Gregorian date of a day number counted from 1970-01-01.\<close>

definition civil_of_days :: "int \<Rightarrow> int \<times> int \<times> int" where
  "civil_of_days n =
     (let z = n + 719468; era = z div 146097; doe = z mod 146097;
          yoe = (doe - doe div 1460 + doe div 36524 - doe div 146096) div 365;
          doy = doe - (365 * yoe + yoe div 4 - yoe div 100);
          mp = (5 * doy + 2) div 153;
          day = doy - (153 * mp + 2) div 5 + 1;
          month = (if mp < 10 then mp + 3 else mp - 9)
      in (yoe + era * 400 + (if month \<le> 2 then 1 else 0), month, day))"

fun dec_fixed :: "nat \<Rightarrow> nat \<Rightarrow> ustr" where
  "dec_fixed 0 n = []"
| "dec_fixed (Suc k) n = dec_fixed k (n div 10) @ [48 + n mod 10]"

definition isoformat_utc :: "instant \<Rightarrow> ustr" where
  "isoformat_utc t =
     (let (y, m, day) = civil_of_days (t div 86400000000);
          us = t mod 86400000000; s = us div 1000000; frac = us mod 1000000
      in dec_fixed 4 (nat y) @ 45 # dec_fixed 2 (nat m) @ 45 # dec_fixed 2 (nat day)
         @ 84 # dec_fixed 2 (nat (s div 3600)) @ 58 # dec_fixed 2 (nat (s div 60 mod 60))
         @ 58 # dec_fixed 2 (nat (s mod 60))
         @ (if frac = 0 then [] else 46 # dec_fixed 6 (nat frac))
         @ ustr_of ''+00:00'')"

section \<open>Reading a UUID back\<close>

lemma hex_value_digit [simp]: "n < 16 \<Longrightarrow> hex_value (hex_digit n) = Some n"
  by (auto simp: hex_value_def hex_digit_def)

lemma hex_digit_range: "n < 16 \<Longrightarrow> hex_digit n \<in> {48..57} \<union> {97..102}"
  by (auto simp: hex_digit_def)

lemma set_hex_fixed: "set (hex_fixed k n) \<subseteq> {48..57} \<union> {97..102}"
proof (induction k arbitrary: n)
  case (Suc k)
  have "hex_digit (n mod 16) \<in> {48..57} \<union> {97..102}" by (rule hex_digit_range) simp
  with Suc [of "n div 16"] show ?case by auto
qed simp

lemma length_hex_fixed [simp]: "length (hex_fixed k n) = k"
  by (induction k arbitrary: n) auto

lemma hex_digits_value_append:
  "95 \<notin> set xs \<Longrightarrow> hex_digits_value acc (xs @ ys)
     = (case hex_digits_value acc xs of None \<Rightarrow> None | Some v \<Rightarrow> hex_digits_value v ys)"
  by (induction xs arbitrary: acc) (auto split: option.splits)

lemma no_underscore_hex_fixed: "95 \<notin> set (hex_fixed k n)"
  using set_hex_fixed [of k n] by force

lemma hex_digit_not_underscore: "n < 16 \<Longrightarrow> hex_digit n \<noteq> 95"
  by (simp add: hex_digit_def)

lemma hex_digits_value_fixed:
  "n < 16 ^ k \<Longrightarrow> hex_digits_value acc (hex_fixed k n) = Some (acc * 16 ^ k + n)"
proof (induction k arbitrary: n acc)
  case (Suc k)
  have "n div 16 < 16 ^ k" using Suc.prems by (simp add: less_mult_imp_div_less mult.commute)
  moreover have "n = n div 16 * 16 + n mod 16" by simp
  ultimately show ?case
    by (simp add: Suc.IH hex_digits_value_append no_underscore_hex_fixed hex_digit_not_underscore
        algebra_simps)
qed simp

lemma uuid_hex_not_hyphen: "c \<in> set (uuid_hex u) \<Longrightarrow> c \<noteq> 45"
  using set_hex_fixed [of 32 u] by (auto simp: uuid_hex_def)

lemma take_drop_step: "take a (drop n xs) @ drop (n + a) xs = drop n xs"
  by (metis add.commute append_take_drop_id drop_drop)

lemma filter_uuid_str: "filter (\<lambda>c. c \<noteq> 45) (uuid_str u) = uuid_hex u"
proof -
  have split: "uuid_hex u = take 8 (uuid_hex u) @ take 4 (drop 8 (uuid_hex u))
      @ take 4 (drop 12 (uuid_hex u)) @ take 4 (drop 16 (uuid_hex u)) @ drop 20 (uuid_hex u)"
    using take_drop_step [of 8 0 "uuid_hex u"] take_drop_step [of 4 8 "uuid_hex u"]
      take_drop_step [of 4 12 "uuid_hex u"] take_drop_step [of 4 16 "uuid_hex u"] by simp
  have "filter (\<lambda>c. c \<noteq> 45) (uuid_str u) = filter (\<lambda>c. c \<noteq> 45) (uuid_hex u)"
    by (subst split) (simp add: uuid_str_def Let_def)
  also have "\<dots> = uuid_hex u"
    using uuid_hex_not_hyphen by (intro filter_True) auto
  finally show ?thesis .
qed

lemma set_uuid_str: "c \<in> set (uuid_str u) \<Longrightarrow> c \<in> {45} \<union> {48..57} \<union> {97..102}"
  using set_hex_fixed [of 32 u]
  by (auto simp: uuid_str_def uuid_hex_def Let_def dest!: in_set_takeD in_set_dropD)

lemma replace_all_absent: "c \<in> set pat \<Longrightarrow> c \<notin> set s \<Longrightarrow> replace_all pat s = s"
proof (induction s)
  case (Cons x s)
  then have "take (length pat) (x # s) \<noteq> pat" by (metis in_set_takeD)
  with Cons show ?case by (subst replace_all.simps) simp
qed (simp add: replace_all.simps)

lemma strip_chars_absent: "set s \<inter> set cs = {} \<Longrightarrow> strip_chars cs s = s"
  by (simp add: strip_chars_def disjoint_iff dropWhile_eq_self_iff)
    (metis disjoint_iff dropWhile_eq_self_iff hd_in_set rev_rev_ident set_rev)

lemma parse_uuid_str:
  assumes "u < 2 ^ 128"
  shows "parse_uuid (uuid_str u) = Some u"
proof -
  let ?h = "uuid_hex u"
  have chars: "c \<notin> set (uuid_str u)" if "c \<in> {58, 117, 123, 125}" for c
    using set_uuid_str [of c u] that by auto
  have "58 \<in> set (ustr_of ''urn:'')" "58 \<in> set (ustr_of ''uuid:'')"
    by (simp_all add: ustr_of_def)
  then have "replace_all (ustr_of ''urn:'') (uuid_str u) = uuid_str u"
    "replace_all (ustr_of ''uuid:'') (uuid_str u) = uuid_str u"
    using chars [of 58] by (simp_all only: replace_all_absent insertI1 not_False_eq_True)
  moreover have "strip_chars [123, 125] (uuid_str u) = uuid_str u"
    using chars by (intro strip_chars_absent) auto
  moreover have len: "length ?h = 32" by (simp add: uuid_hex_def)
  moreover have "int_base16 ?h = Some (int u)"
  proof -
    obtain c cs where h: "?h = c # cs" using len by (cases ?h) auto
    have range: "set ?h \<subseteq> {48..57} \<union> {97..102}" by (simp only: uuid_hex_def set_hex_fixed)
    have "ustr_strip ?h = ?h"
    proof -
      have "\<not> py_space x" if "x \<in> set ?h" for x
        using range that by (auto simp: py_space_def)
      then show ?thesis
        by (simp add: ustr_strip_def)
          (metis dropWhile_eq_self_iff hd_in_set rev_rev_ident set_rev)
    qed
    moreover have "unsigned_hex ?h = Some u"
    proof -
      have "hd cs \<noteq> 120" "hd cs \<noteq> 88" if "cs \<noteq> []"
        using subsetD [OF range, of "hd cs"] that h by auto
      moreover have "c \<noteq> 95" using range h by auto
      moreover have "(16::nat) ^ 32 = 2 ^ 128" by simp
      ultimately show ?thesis
        using hex_digits_value_fixed [of u 32 0] assms h
        by (auto simp: unsigned_hex_def uuid_hex_def)
    qed
    moreover have "c \<noteq> 45" "c \<noteq> 43" using range h by auto
    ultimately show ?thesis using h by (simp add: int_base16_def signed_hex_def)
  qed
  ultimately show ?thesis
    using assms by (simp add: parse_uuid_def filter_uuid_str Let_def)
qed

end
