(* ===== verification/Exec_Admission.thy ===== *)
theory Exec_Admission
  imports Exec_Constraints Wire_Text
begin

text \<open>
  Admission (\<^verbatim>\<open>execution/service.py\<close>): \<open>preflight\<close> issues a signed confirmation for one capability
  version and one argument digest; \<open>create_run\<close> consumes it once, under an idempotency key, and
  writes the run, its job, its first event, the consumed nonce, the idempotency record and the audit
  row in one transaction. Key versions that stored rows still use must be configured.

  The signature library, SHA-256, HMAC and the JSON Schema evaluator are the fields of
  \<open>exec_externals\<close>, an argument of the operations.
\<close>

section \<open>Externals\<close>

datatype SchemaValidationResult = VALID | INVALID_ARGUMENTS | INVALID_SCHEMA | FAILED

text \<open>\<open>jwt_header\<close> and \<open>jwt_decode\<close> give \<open>None\<close> when PyJWT raises; \<open>jwt_decode\<close> checks the HS256
  signature, audience, issuer and the presence of the required claims. \<open>str_other\<close> and \<open>int_other\<close>
  are \<open>str\<close> and \<open>int\<close> on the JSON values that the definitions below do not spell out.\<close>

record exec_externals = content_externals +
  hmac_hex :: "bytes \<Rightarrow> bytes \<Rightarrow> string"
  jwt_encode :: "json \<Rightarrow> bytes \<Rightarrow> string \<Rightarrow> ustr"
  jwt_header :: "ustr \<Rightarrow> json option"
  jwt_decode :: "ustr \<Rightarrow> bytes \<Rightarrow> json option"
  schema_check :: "json \<Rightarrow> json \<Rightarrow> SchemaValidationResult"
  str_other :: "json \<Rightarrow> ustr"
  int_other :: "json \<Rightarrow> int option"

definition bytes_of :: "string \<Rightarrow> bytes" where
  "bytes_of s = map of_char s"

definition TOKEN_ISSUER :: ustr where "TOKEN_ISSUER = ustr_of ''modall''"
definition TOKEN_AUDIENCE :: ustr where "TOKEN_AUDIENCE = ustr_of ''modall-run-confirmation''"
definition RUN_METHOD :: string where "RUN_METHOD = ''POST''"
definition RUN_ROUTE :: string where "RUN_ROUTE = ''/v1/runs''"

text \<open>The service object: limits and the two keyrings, the first key of each being active.\<close>

record service_config =
  cfg_limits :: ExecutionLimits
  cfg_confirmation_keys :: "HmacKeyVersion list"
  cfg_idempotency_keys :: "HmacKeyVersion list"

definition key_version_char :: "char \<Rightarrow> bool" where
  "key_version_char c \<longleftrightarrow> c \<in> set ''ABCDEFGHIJKLMNOPQRSTUVWXYZabcdefghijklmnopqrstuvwxyz0123456789._-''"

definition key_version_ok :: "string \<Rightarrow> bool" where
  "key_version_ok v \<longleftrightarrow> 1 \<le> length v \<and> length v \<le> 32 \<and> list_all key_version_char v"

definition validate_keyring ::
  "ExecutionLimits \<Rightarrow> HmacKeyVersion list \<Rightarrow> svc_error + HmacKeyVersion list" where
  "validate_keyring limits keys =
     (if keys = [] \<or> int (length keys) > max_historical_hmac_keys limits
         \<or> \<not> distinct (map hk_version keys)
         \<or> list_ex (\<lambda>k. \<not> key_version_ok (hk_version k)) keys
         \<or> list_ex (\<lambda>k. length (hk_secret k) < 32) keys
      then Inl ValueError else Inr keys)"

definition execution_service ::
  "ExecutionLimits \<Rightarrow> HmacKeyVersion list \<Rightarrow> HmacKeyVersion list \<Rightarrow> svc_error + service_config" where
  "execution_service limits confirmation_keys idempotency_keys =
     and_then (validate_keyring limits confirmation_keys) (\<lambda>ck.
     and_then (validate_keyring limits idempotency_keys) (\<lambda>ik.
       Inr \<lparr>cfg_limits = limits, cfg_confirmation_keys = ck, cfg_idempotency_keys = ik\<rparr>))"

definition key_by_version :: "HmacKeyVersion list \<Rightarrow> string \<Rightarrow> HmacKeyVersion option" where
  "key_by_version keys version = first_row (filter (\<lambda>k. hk_version k = version) keys)"

section \<open>Admission target\<close>

record AdmissionTarget =
  tgt_capability :: Capability
  tgt_version :: CapabilityVersion
  tgt_binding :: McpToolBinding
  tgt_connection :: ServerConnection

abbreviation exec_error :: "ExecutionFailureCode \<Rightarrow> svc_error + 'a" where
  "exec_error c \<equiv> Inl (ExecutionError c)"

definition load_admission_target ::
  "WorkspaceContext \<Rightarrow> uuid \<Rightarrow> db \<Rightarrow> svc_error + AdmissionTarget" where
  "load_admission_target ctx capability_version_id d =
     (let w = ctx_workspace_id ctx; unavailable = exec_error CAPABILITY_UNAVAILABLE
      in case first_row (filter (\<lambda>v. capv_id v = capability_version_id \<and> capv_workspace_id v = w)
                           (capability_versions d)) of
           None \<Rightarrow> unavailable
         | Some version \<Rightarrow>
             (case (scoped_capability (capv_capability_id version) w d,
                    first_row (filter (\<lambda>b. bind_capability_version_id b = capv_id version
                                         \<and> bind_workspace_id b = w) (tool_bindings d))) of
                (Some capability, Some binding) \<Rightarrow>
                  (case scoped_connection (bind_connection_id binding) w d of
                     None \<Rightarrow> unavailable
                   | Some connection \<Rightarrow>
                       if \<not> observed_in_snapshot w (conn_id connection)
                              (bind_connection_version_id binding) (capv_id version)
                              (conn_current_snapshot_id connection) d
                          \<or> \<not> capv_schema_supported version
                          \<or> cap_status capability \<noteq> CapabilityStatus.ENABLED
                          \<or> cap_enabled_version_id capability \<noteq> Some (capv_id version)
                          \<or> cap_pending_version_id capability \<noteq> None
                          \<or> conn_lifecycle connection \<noteq> ConnectionLifecycle.ACTIVE
                          \<or> conn_pending_version_id connection \<noteq> None
                          \<or> conn_verified_version_id connection
                              \<noteq> Some (bind_connection_version_id binding)
                          \<or> bind_protocol_revision binding \<noteq> QUALIFIED_PROTOCOL_REVISION
                       then unavailable
                       else Inr \<lparr>tgt_capability = capability, tgt_version = version,
                                 tgt_binding = binding, tgt_connection = connection\<rparr>)
              | _ \<Rightarrow> unavailable))"

section \<open>Arguments\<close>

definition normalize_arguments ::
  "'x content_externals_scheme \<Rightarrow> ExecutionLimits \<Rightarrow> json \<Rightarrow> svc_error + json \<times> string" where
  "normalize_arguments ext limits arguments =
     (if \<not> validate_bounded_json arguments then exec_error ExecutionFailureCode.INVALID_ARGUMENTS
      else case canonical_json (json_float_repr ext) arguments of
        None \<Rightarrow> exec_error ExecutionFailureCode.INVALID_ARGUMENTS
      | Some encoded \<Rightarrow>
          if int (length encoded) > max_argument_bytes limits then exec_error ARGUMENT_LIMIT
          else (case normalized_json arguments of
                  JDict ms \<Rightarrow> Inr (JDict ms, sha256_hex ext encoded)
                | _ \<Rightarrow> exec_error ExecutionFailureCode.INVALID_ARGUMENTS))"

definition validate_normalized_arguments :: "exec_externals \<Rightarrow> json \<Rightarrow> json \<Rightarrow> svc_error + unit" where
  "validate_normalized_arguments ext arguments schema =
     (case contains_sensitive_json ext arguments of
        None \<Rightarrow> exec_error SCANNER_FAILED
      | Some True \<Rightarrow> exec_error SENSITIVE_ARGUMENTS
      | Some False \<Rightarrow>
          (case schema_check ext arguments schema of
             VALID \<Rightarrow> Inr ()
           | INVALID_ARGUMENTS \<Rightarrow> exec_error ExecutionFailureCode.INVALID_ARGUMENTS
           | INVALID_SCHEMA \<Rightarrow> exec_error CAPABILITY_UNAVAILABLE
           | FAILED \<Rightarrow> exec_error SCANNER_FAILED))"

definition validate_arguments ::
  "exec_externals \<Rightarrow> ExecutionLimits \<Rightarrow> json \<Rightarrow> json \<Rightarrow> svc_error + json \<times> string" where
  "validate_arguments ext limits arguments schema =
     and_then (normalize_arguments ext limits arguments) (\<lambda>(normalized, digest).
     and_then (validate_normalized_arguments ext normalized schema) (\<lambda>_. Inr (normalized, digest)))"

section \<open>Preflight\<close>

record RunPreflight =
  pf_confirmation_token :: ustr
  pf_capability_version_id :: uuid
  pf_connection_version_id :: uuid
  pf_argument_digest :: string
  pf_expires_at :: instant
  pf_server_observed_at :: instant

definition confirmation_claims ::
  "WorkspaceContext \<Rightarrow> uuid \<Rightarrow> AdmissionTarget \<Rightarrow> string \<Rightarrow> instant \<Rightarrow> instant \<Rightarrow> uuid \<Rightarrow> json" where
  "confirmation_claims ctx capability_version_id target digest now expires_at nonce = JDict
     [(ustr_of ''iss'', JStr TOKEN_ISSUER), (ustr_of ''aud'', JStr TOKEN_AUDIENCE),
      (ustr_of ''iat'', JInt (seconds_trunc now)), (ustr_of ''exp'', JInt (seconds_trunc expires_at)),
      (ustr_of ''jti'', JStr (uuid_hex nonce)),
      (ustr_of ''w'', JStr (uuid_str (ctx_workspace_id ctx))),
      (ustr_of ''a'', JStr (uuid_str (ctx_actor_user_id ctx))),
      (ustr_of ''cv'', JStr (uuid_str capability_version_id)),
      (ustr_of ''c'', JStr (uuid_str (cap_id (tgt_capability target)))),
      (ustr_of ''cn'', JStr (uuid_str (conn_id (tgt_connection target)))),
      (ustr_of ''cnv'', JStr (uuid_str (bind_connection_version_id (tgt_binding target)))),
      (ustr_of ''ad'', JStr (ustr_of digest)), (ustr_of ''r'', JStr (ustr_of RUN_ROUTE))]"

text \<open>The expiry is the end of the lifetime rounded up to whole seconds.\<close>

definition confirmation_expiry :: "ExecutionLimits \<Rightarrow> instant \<Rightarrow> instant" where
  "confirmation_expiry limits now =
     seconds (seconds_ceil (now + seconds (confirmation_ttl_seconds limits)))"

definition preflight ::
  "exec_externals \<Rightarrow> service_config \<Rightarrow> WorkspaceContext \<Rightarrow> uuid \<Rightarrow> json \<Rightarrow> uuid \<Rightarrow> clock \<Rightarrow> db
     \<Rightarrow> svc_error + RunPreflight" where
  "preflight ext cfg ctx capability_version_id arguments nonce clock d =
     and_then (require_current_role ctx [ADMIN, OPERATOR] False d) (\<lambda>_.
     and_then (load_admission_target ctx capability_version_id d) (\<lambda>target.
     and_then (validate_arguments ext (cfg_limits cfg) arguments
                 (capv_input_schema (tgt_version target))) (\<lambda>(_, digest).
       let now = clock 0; expires_at = confirmation_expiry (cfg_limits cfg) now;
           active = hd (cfg_confirmation_keys cfg)
       in Inr \<lparr>pf_confirmation_token =
                 jwt_encode ext (confirmation_claims ctx capability_version_id target digest now
                                   expires_at nonce) (hk_secret active) (hk_version active),
               pf_capability_version_id = capability_version_id,
               pf_connection_version_id = bind_connection_version_id (tgt_binding target),
               pf_argument_digest = digest, pf_expires_at = expires_at,
               pf_server_observed_at = now\<rparr>)))"

section \<open>Reading a confirmation\<close>

record ConfirmationClaims =
  clm_workspace_id :: uuid
  clm_actor_user_id :: uuid
  clm_capability_version_id :: uuid
  clm_capability_id :: uuid
  clm_connection_id :: uuid
  clm_connection_version_id :: uuid
  clm_argument_digest :: ustr
  clm_route :: ustr
  clm_nonce :: ustr
  clm_key_version :: string
  clm_issued_at :: instant
  clm_expires_at :: instant

definition member :: "string \<Rightarrow> json \<Rightarrow> json option" where
  "member k v = (case v of
     JDict ms \<Rightarrow> map_option snd (first_row (filter (\<lambda>m. fst m = ustr_of k) ms)) | _ \<Rightarrow> None)"

text \<open>\<open>UUID(x)\<close> raises for anything but a string; \<open>str(x)\<close> is the string itself; \<open>int(x)\<close> of an
  integer is that integer. A timestamp outside the years 1 to 9999 makes \<open>fromtimestamp\<close> raise.\<close>

definition claim_uuid :: "string \<Rightarrow> json \<Rightarrow> uuid option" where
  "claim_uuid k v = (case member k v of Some (JStr s) \<Rightarrow> parse_uuid s | _ \<Rightarrow> None)"

definition claim_str :: "exec_externals \<Rightarrow> string \<Rightarrow> json \<Rightarrow> ustr option" where
  "claim_str ext k v = (case member k v of
     None \<Rightarrow> None | Some (JStr s) \<Rightarrow> Some s | Some x \<Rightarrow> Some (str_other ext x))"

definition claim_time :: "exec_externals \<Rightarrow> string \<Rightarrow> json \<Rightarrow> instant option" where
  "claim_time ext k v =
     Option.bind (case member k v of
                    None \<Rightarrow> None | Some (JInt i) \<Rightarrow> Some i | Some x \<Rightarrow> int_other ext x)
       (\<lambda>i. if -62135596800 \<le> i \<and> i < 253402300800 then Some (seconds i) else None)"

definition claims_of_payload :: "exec_externals \<Rightarrow> string \<Rightarrow> json \<Rightarrow> ConfirmationClaims option" where
  "claims_of_payload ext version p =
     Option.bind (claim_uuid ''w'' p) (\<lambda>w. Option.bind (claim_uuid ''a'' p) (\<lambda>a.
     Option.bind (claim_uuid ''cv'' p) (\<lambda>cv. Option.bind (claim_uuid ''c'' p) (\<lambda>c.
     Option.bind (claim_uuid ''cn'' p) (\<lambda>cn. Option.bind (claim_uuid ''cnv'' p) (\<lambda>cnv.
     Option.bind (claim_str ext ''ad'' p) (\<lambda>ad. Option.bind (claim_str ext ''r'' p) (\<lambda>r.
     Option.bind (claim_str ext ''jti'' p) (\<lambda>jti. Option.bind (claim_time ext ''iat'' p) (\<lambda>iat.
     Option.bind (claim_time ext ''exp'' p) (\<lambda>expiry.
       Some \<lparr>clm_workspace_id = w, clm_actor_user_id = a, clm_capability_version_id = cv,
             clm_capability_id = c, clm_connection_id = cn, clm_connection_version_id = cnv,
             clm_argument_digest = ad, clm_route = r, clm_nonce = jti, clm_key_version = version,
             clm_issued_at = iat, clm_expires_at = expiry\<rparr>)))))))))))"

definition decode_confirmation ::
  "exec_externals \<Rightarrow> HmacKeyVersion list \<Rightarrow> ustr \<Rightarrow> svc_error + ConfirmationClaims" where
  "decode_confirmation ext keys token =
     (let invalid = exec_error INVALID_CONFIRMATION
      in if token = [] \<or> length token > 4096 then invalid
         else case jwt_header ext token of
           None \<Rightarrow> invalid
         | Some header \<Rightarrow>
             (case first_row (filter (\<lambda>k. ustr_of (hk_version k)
                      = (case member ''kid'' header of Some (JStr s) \<Rightarrow> s | _ \<Rightarrow> [])) keys) of
                None \<Rightarrow> invalid
              | Some key \<Rightarrow>
                  (case Option.bind (jwt_decode ext token (hk_secret key))
                          (claims_of_payload ext (hk_version key)) of
                     None \<Rightarrow> invalid
                   | Some claims \<Rightarrow> Inr claims)))"

definition require_confirmation_bindings ::
  "ConfirmationClaims \<Rightarrow> WorkspaceContext \<Rightarrow> uuid \<Rightarrow> string \<Rightarrow> instant \<Rightarrow> svc_error + unit" where
  "require_confirmation_bindings claims ctx capability_version_id argument_digest now =
     (if clm_workspace_id claims \<noteq> ctx_workspace_id ctx
         \<or> clm_actor_user_id claims \<noteq> ctx_actor_user_id ctx
         \<or> clm_capability_version_id claims \<noteq> capability_version_id
         \<or> clm_argument_digest claims \<noteq> ustr_of argument_digest
         \<or> clm_route claims \<noteq> ustr_of RUN_ROUTE
         \<or> clm_nonce claims = []
         \<or> clm_issued_at claims > now
         \<or> clm_expires_at claims \<le> clm_issued_at claims
      then exec_error INVALID_CONFIRMATION else Inr ())"

section \<open>Key history\<close>

text \<open>One probe is \<open>SELECT column WHERE column > previous ORDER BY column LIMIT 1\<close>.\<close>

definition successor :: "string option \<Rightarrow> string list \<Rightarrow> string option" where
  "successor previous column =
     first_row (order_by_limit id 1
       (filter (\<lambda>v. case previous of None \<Rightarrow> True | Some p \<Rightarrow> p < v) column))"

fun probe_versions :: "nat \<Rightarrow> string option \<Rightarrow> string list \<Rightarrow> string list \<Rightarrow> string option" where
  "probe_versions 0 previous column configured = previous"
| "probe_versions (Suc n) previous column configured =
     (case successor previous column of
        None \<Rightarrow> None
      | Some observed \<Rightarrow>
          if observed \<notin> set configured then Some observed
          else probe_versions n (Some observed) column configured)"

definition find_unconfigured_key_version ::
  "ExecutionLimits \<Rightarrow> string list \<Rightarrow> string list \<Rightarrow> string option" where
  "find_unconfigured_key_version limits column configured =
     probe_versions (nat (max_historical_hmac_keys limits + 1)) None column configured"

definition require_idempotency_key_history :: "service_config \<Rightarrow> db \<Rightarrow> svc_error + unit" where
  "require_idempotency_key_history cfg d =
     (case find_unconfigured_key_version (cfg_limits cfg)
             (map idem_key_version (idempotency_records d))
             (map hk_version (cfg_idempotency_keys cfg)) of
        None \<Rightarrow> Inr () | Some _ \<Rightarrow> exec_error IDEMPOTENCY_KEY_HISTORY_INCOMPLETE)"

definition require_confirmation_key_history :: "service_config \<Rightarrow> db \<Rightarrow> svc_error + unit" where
  "require_confirmation_key_history cfg d =
     (let configured = map hk_version (cfg_confirmation_keys cfg)
      in case find_unconfigured_key_version (cfg_limits cfg)
                (map idem_confirmation_key_version (idempotency_records d)) configured of
           Some _ \<Rightarrow> exec_error CONFIRMATION_KEY_HISTORY_INCOMPLETE
         | None \<Rightarrow>
             (case find_unconfigured_key_version (cfg_limits cfg)
                     (map nonce_key_version (confirmation_nonces d)) configured of
                Some _ \<Rightarrow> exec_error CONFIRMATION_KEY_HISTORY_INCOMPLETE
              | None \<Rightarrow> Inr ()))"

section \<open>Idempotency\<close>

definition idempotency_hmac ::
  "exec_externals \<Rightarrow> HmacKeyVersion \<Rightarrow> WorkspaceContext \<Rightarrow> bytes \<Rightarrow> string" where
  "idempotency_hmac ext key ctx raw_key =
     hmac_hex ext (hk_secret key)
       (bytes_of ''key'' @ 0 # uuid_str (ctx_workspace_id ctx) @ 0 # uuid_str (ctx_actor_user_id ctx)
        @ 0 # bytes_of RUN_METHOD @ 0 # bytes_of RUN_ROUTE @ 0 # raw_key)"

definition json_field :: "string \<Rightarrow> ustr \<Rightarrow> ustr" where
  "json_field k rendered = ascii_json_string (ustr_of k) @ 58 # rendered"

definition canonical_request ::
  "ConfirmationClaims \<Rightarrow> uuid \<Rightarrow> string \<Rightarrow> instant option \<Rightarrow> bytes" where
  "canonical_request claims capability_version_id argument_digest deadline =
     123 # joined
       [json_field ''argument_digest'' (ascii_json_string (ustr_of argument_digest)),
        json_field ''capability_id'' (ascii_json_string (uuid_str (clm_capability_id claims))),
        json_field ''capability_version_id'' (ascii_json_string (uuid_str capability_version_id)),
        json_field ''connection_id'' (ascii_json_string (uuid_str (clm_connection_id claims))),
        json_field ''connection_version_id''
          (ascii_json_string (uuid_str (clm_connection_version_id claims))),
        json_field ''deadline'' (case deadline of None \<Rightarrow> ustr_of ''null''
           | Some t \<Rightarrow> ascii_json_string (isoformat_utc t)),
        json_field ''method'' (ascii_json_string (ustr_of RUN_METHOD)),
        json_field ''route'' (ascii_json_string (ustr_of RUN_ROUTE))] @ [125]"

definition request_hmac_of :: "exec_externals \<Rightarrow> HmacKeyVersion \<Rightarrow> bytes \<Rightarrow> string" where
  "request_hmac_of ext key request =
     hmac_hex ext (hk_secret key) (bytes_of ''request'' @ 0 # request)"

definition find_idempotency_record ::
  "exec_externals \<Rightarrow> service_config \<Rightarrow> WorkspaceContext \<Rightarrow> bytes \<Rightarrow> db \<Rightarrow> IdempotencyRecord option" where
  "find_idempotency_record ext cfg ctx raw_key d =
     first_row (filter (\<lambda>r. idem_workspace_id r = ctx_workspace_id ctx
         \<and> idem_actor_user_id r = ctx_actor_user_id ctx
         \<and> idem_method r = RUN_METHOD \<and> idem_route r = RUN_ROUTE
         \<and> list_ex (\<lambda>k. idem_key_version r = hk_version k
                       \<and> idem_key_hmac r = idempotency_hmac ext k ctx raw_key)
             (cfg_idempotency_keys cfg)) (idempotency_records d))"

definition canonicalize_deadline :: "pydatetime option \<Rightarrow> svc_error + instant option" where
  "canonicalize_deadline deadline =
     (case deadline of
        None \<Rightarrow> Inr None
      | Some t \<Rightarrow> (case utcoffset t of
                     None \<Rightarrow> exec_error ExecutionFailureCode.INVALID_ARGUMENTS
                   | Some off \<Rightarrow> Inr (Some (wall t - off))))"

definition admission_deadline :: "ExecutionLimits \<Rightarrow> instant option \<Rightarrow> instant \<Rightarrow> svc_error + instant" where
  "admission_deadline limits requested now =
     (case requested of
        None \<Rightarrow> Inr (now + seconds (max_run_seconds limits))
      | Some t \<Rightarrow>
          if t \<le> now \<or> t > now + seconds (max_run_seconds limits)
          then exec_error ExecutionFailureCode.INVALID_ARGUMENTS else Inr t)"

definition validate_idempotency_key :: "ExecutionLimits \<Rightarrow> ustr \<Rightarrow> svc_error + bytes" where
  "validate_idempotency_key limits k =
     (if k = [] \<or> int (length k) > max_idempotency_key_characters limits
         \<or> list_ex (\<lambda>c. c < 33 \<or> c > 126) k
      then exec_error INVALID_IDEMPOTENCY_KEY else Inr k)"

section \<open>Replay of an existing run\<close>

definition find_nonce :: "string \<Rightarrow> db \<Rightarrow> ConfirmationNonce option" where
  "find_nonce digest d = first_row (filter (\<lambda>n. nonce_digest n = digest) (confirmation_nonces d))"

definition consumed_nonce ::
  "WorkspaceContext \<Rightarrow> ConfirmationClaims \<Rightarrow> string \<Rightarrow> uuid \<Rightarrow> instant \<Rightarrow> ConfirmationNonce" where
  "consumed_nonce ctx claims digest i now = \<lparr>nonce_workspace_id = ctx_workspace_id ctx,
     nonce_actor_user_id = ctx_actor_user_id ctx, nonce_digest = digest, nonce_run_id = i,
     nonce_key_version = clm_key_version claims, nonce_expires_at = clm_expires_at claims,
     nonce_consumed_at = now\<rparr>"

definition add_nonce :: "ConfirmationNonce \<Rightarrow> db \<Rightarrow> db" where
  "add_nonce n d = d\<lparr>confirmation_nonces := confirmation_nonces d @ [n]\<rparr>"

definition replay_existing_run ::
  "exec_externals \<Rightarrow> service_config \<Rightarrow> WorkspaceContext \<Rightarrow> IdempotencyRecord \<Rightarrow> bytes
     \<Rightarrow> ConfirmationClaims \<Rightarrow> string \<Rightarrow> instant \<Rightarrow> db \<Rightarrow> svc_error + Run \<times> db" where
  "replay_existing_run ext cfg ctx existing request claims nonce_dig now d =
     (let conflict = exec_error IDEMPOTENCY_CONFLICT
      in case key_by_version (cfg_idempotency_keys cfg) (idem_key_version existing) of
           None \<Rightarrow> conflict
         | Some key \<Rightarrow>
             if idem_request_hmac existing \<noteq> request_hmac_of ext key request then conflict
             else
               (case first_row (filter (\<lambda>r. run_id r = idem_resource_id existing
                                          \<and> run_workspace_id r = ctx_workspace_id ctx) (runs d)) of
                  None \<Rightarrow> conflict
                | Some run \<Rightarrow>
                    if \<not> list_ex (\<lambda>r. idem_id r = idem_id existing) (idempotency_records d)
                    then conflict
                    else and_then (require_current_role ctx [ADMIN, OPERATOR] True d) (\<lambda>_.
                      if run_capability_id run \<noteq> clm_capability_id claims
                         \<or> run_capability_version_id run \<noteq> clm_capability_version_id claims
                         \<or> run_connection_id run \<noteq> clm_connection_id claims
                         \<or> run_connection_version_id run \<noteq> clm_connection_version_id claims
                      then conflict
                      else
                        (case find_nonce nonce_dig d of
                           Some used \<Rightarrow>
                             if nonce_run_id used \<noteq> run_id run
                             then exec_error CONFIRMATION_REPLAYED else Inr (run, d)
                         | None \<Rightarrow>
                             (let n = consumed_nonce ctx claims nonce_dig (run_id run) now
                              in if nonce_insert_ok n d then Inr (run, add_nonce n d)
                                 else Inl IntegrityError)))))"

section \<open>Creating a run\<close>

text \<open>The \<open>uuid4\<close> values one call draws.\<close>

record fresh_ids =
  fresh_run :: uuid
  fresh_trace :: uuid
  fresh_job :: uuid
  fresh_idem :: uuid

record run_request =
  rq_capability_version_id :: uuid
  rq_arguments :: json
  rq_confirmation_token :: ustr
  rq_idempotency_key :: ustr
  rq_deadline :: "pydatetime option"
  rq_correlation_id :: "uuid option"

definition active_run_count :: "uuid \<Rightarrow> db \<Rightarrow> nat" where
  "active_run_count w d =
     length (filter (\<lambda>r. run_workspace_id r = w \<and> active_status (run_status r)) (runs d))"

definition admitted_run ::
  "service_config \<Rightarrow> WorkspaceContext \<Rightarrow> fresh_ids \<Rightarrow> uuid option \<Rightarrow> AdmissionTarget \<Rightarrow> json
     \<Rightarrow> string \<Rightarrow> instant \<Rightarrow> instant \<Rightarrow> Run" where
  "admitted_run cfg ctx ids correlation target normalized digest deadline now =
     \<lparr>run_id = fresh_run ids, run_workspace_id = ctx_workspace_id ctx,
      run_correlation_id = (case correlation of Some c \<Rightarrow> c | None \<Rightarrow> fresh_trace ids),
      run_actor_user_id = ctx_actor_user_id ctx, run_capability_id = cap_id (tgt_capability target),
      run_capability_version_id = capv_id (tgt_version target),
      run_connection_id = conn_id (tgt_connection target),
      run_connection_version_id = bind_connection_version_id (tgt_binding target),
      run_connection_control_epoch = conn_control_epoch (tgt_connection target),
      run_capability_status_epoch = cap_status_epoch (tgt_capability target),
      run_protocol_revision = bind_protocol_revision (tgt_binding target),
      run_status = RunStatus.QUEUED, run_arguments = Some normalized,
      run_argument_digest = Some digest,
      run_arguments_expires_at = now + days (argument_retention_days (cfg_limits cfg)),
      run_deadline = deadline, run_cancellation_requested = False, run_safe_error_code = None,
      run_created_at = now, run_updated_at = now, run_terminal_at = None\<rparr>"

definition admitted_job :: "SystemExecutionState \<Rightarrow> fresh_ids \<Rightarrow> Run \<Rightarrow> instant \<Rightarrow> Job" where
  "admitted_job st ids run now =
     \<lparr>job_id = fresh_job ids, job_workspace_id = run_workspace_id run, job_run_id = run_id run,
      job_actor_user_id = run_actor_user_id run, job_execution_epoch = ses_execution_epoch st,
      job_status = JobStatus.QUEUED, job_lease_owner = None, job_lease_epoch = 0,
      job_lease_expires_at = None, job_available_at = now, job_deadline = run_deadline run,
      job_created_at = now, job_completed_at = None\<rparr>"

definition admitted_record ::
  "exec_externals \<Rightarrow> service_config \<Rightarrow> WorkspaceContext \<Rightarrow> fresh_ids \<Rightarrow> ConfirmationClaims \<Rightarrow> bytes
     \<Rightarrow> bytes \<Rightarrow> Run \<Rightarrow> instant \<Rightarrow> IdempotencyRecord" where
  "admitted_record ext cfg ctx ids claims raw_key request run now =
     (let active = hd (cfg_idempotency_keys cfg)
      in \<lparr>idem_id = fresh_idem ids, idem_workspace_id = ctx_workspace_id ctx,
          idem_actor_user_id = ctx_actor_user_id ctx, idem_method = RUN_METHOD,
          idem_route = RUN_ROUTE, idem_confirmation_key_version = clm_key_version claims,
          idem_key_version = hk_version active,
          idem_key_hmac = idempotency_hmac ext active ctx raw_key,
          idem_request_hmac = request_hmac_of ext active request, idem_resource_type = RUN,
          idem_resource_id = run_id run, idem_created_at = now, idem_completed_at = now,
          idem_expires_at = now + days (run_retention_days (cfg_limits cfg))\<rparr>)"

definition add_run :: "Run \<Rightarrow> db \<Rightarrow> db" where
  "add_run r d = d\<lparr>runs := runs d @ [r]\<rparr>"

definition add_job :: "Job \<Rightarrow> db \<Rightarrow> db" where
  "add_job j d = d\<lparr>jobs := jobs d @ [j]\<rparr>"

definition add_idempotency_record :: "IdempotencyRecord \<Rightarrow> db \<Rightarrow> db" where
  "add_idempotency_record r d = d\<lparr>idempotency_records := idempotency_records d @ [r]\<rparr>"

definition admitted_event :: "Run \<Rightarrow> instant \<Rightarrow> RunEvent" where
  "admitted_event run now = \<lparr>ev_workspace_id = run_workspace_id run, ev_run_id = run_id run,
     ev_sequence = 1, ev_event_type = ADMITTED, ev_status = RunStatus.QUEUED,
     ev_safe_error_code = None, ev_occurred_at = now\<rparr>"

text \<open>The two flushes: the run first, then every row that references it.\<close>

definition write_admission ::
  "Run \<Rightarrow> Job \<Rightarrow> ConfirmationNonce \<Rightarrow> IdempotencyRecord \<Rightarrow> instant \<Rightarrow> db \<Rightarrow> svc_error + Run \<times> db" where
  "write_admission run job nonce record now d =
     (if \<not> run_insert_ok run d then exec_error PERSISTENCE_FAILURE
      else
        (let d1 = add_run run d
         in if \<not> (job_insert_ok job d1 \<and> event_insert_ok (admitted_event run now) d1
                  \<and> nonce_insert_ok nonce d1 \<and> idem_insert_ok record d1)
            then exec_error PERSISTENCE_FAILURE
            else Inr (run,
              add_audit (audit_succeeded (run_workspace_id run) (run_actor_user_id run) RUN_CREATED
                           RUN (run_id run) (run_correlation_id run))
                (add_idempotency_record record (add_nonce nonce
                  (append_event run ADMITTED RunStatus.QUEUED now 1 None (add_job job d1)))))))"

text \<open>The rest of \<open>create_run\<close> once no idempotency record was found; \<open>now2\<close> and \<open>now3\<close> are the
  readings after the workspace lock and after schema validation.\<close>

definition admit_new_run ::
  "exec_externals \<Rightarrow> service_config \<Rightarrow> WorkspaceContext \<Rightarrow> run_request \<Rightarrow> fresh_ids
     \<Rightarrow> SystemExecutionState \<Rightarrow> ConfirmationClaims \<Rightarrow> string \<Rightarrow> json \<Rightarrow> string \<Rightarrow> instant option
     \<Rightarrow> bytes \<Rightarrow> bytes \<Rightarrow> instant \<Rightarrow> instant \<Rightarrow> db \<Rightarrow> svc_error + Run \<times> db" where
  "admit_new_run ext cfg ctx rq ids st claims nonce_dig normalized digest requested raw_key request
       now2 now3 d =
     (let used = find_nonce nonce_dig d
      in if clm_expires_at claims \<le> now2 then exec_error CONFIRMATION_EXPIRED
         else if used \<noteq> None then exec_error CONFIRMATION_REPLAYED
         else
           and_then (admission_deadline (cfg_limits cfg) requested now2) (\<lambda>_.
           and_then (load_admission_target ctx (rq_capability_version_id rq) d) (\<lambda>target.
             if clm_capability_id claims \<noteq> cap_id (tgt_capability target)
                \<or> clm_connection_id claims \<noteq> conn_id (tgt_connection target)
                \<or> clm_connection_version_id claims \<noteq> bind_connection_version_id (tgt_binding target)
             then exec_error INVALID_CONFIRMATION
             else
               and_then (validate_normalized_arguments ext normalized
                           (capv_input_schema (tgt_version target))) (\<lambda>_.
                 if clm_expires_at claims \<le> now3 then exec_error CONFIRMATION_EXPIRED
                 else
                   and_then (admission_deadline (cfg_limits cfg) requested now3) (\<lambda>deadline.
                     if ses_dispatch_quarantined st then exec_error DISPATCH_QUARANTINED
                     else if int (active_run_count (ctx_workspace_id ctx) d)
                               \<ge> max_active_runs_per_workspace (cfg_limits cfg)
                     then exec_error ACTIVE_RUN_LIMIT
                     else
                       (let run = admitted_run cfg ctx ids (rq_correlation_id rq) target normalized
                                    digest deadline now3
                        in write_admission run (admitted_job st ids run now3)
                             (consumed_nonce ctx claims nonce_dig (run_id run) now3)
                             (admitted_record ext cfg ctx ids claims raw_key request run now3)
                             now3 d))))))"

definition create_run ::
  "exec_externals \<Rightarrow> service_config \<Rightarrow> WorkspaceContext \<Rightarrow> run_request \<Rightarrow> fresh_ids \<Rightarrow> clock \<Rightarrow> db
     \<Rightarrow> svc_error + Run \<times> db" where
  "create_run ext cfg ctx rq ids clock d0 =
     (let (st, d) = execution_state_row (clock 0) d0
      in and_then (require_current_role ctx [ADMIN, OPERATOR] False d) (\<lambda>_.
         and_then (normalize_arguments ext (cfg_limits cfg) (rq_arguments rq)) (\<lambda>(normalized, digest).
         and_then (require_confirmation_key_history cfg d) (\<lambda>_.
         and_then (require_idempotency_key_history cfg d) (\<lambda>_.
         and_then (decode_confirmation ext (cfg_confirmation_keys cfg) (rq_confirmation_token rq)) (\<lambda>claims.
         and_then (require_confirmation_bindings claims ctx (rq_capability_version_id rq) digest
                     (clock 1)) (\<lambda>_.
         and_then (canonicalize_deadline (rq_deadline rq)) (\<lambda>requested.
         and_then (validate_idempotency_key (cfg_limits cfg) (rq_idempotency_key rq)) (\<lambda>raw_key.
           let request = canonical_request claims (rq_capability_version_id rq) digest requested;
               existing = find_idempotency_record ext cfg ctx raw_key d
           in case utf8 (clm_nonce claims) of
                None \<Rightarrow> Inl ValueError
              | Some nonce_bytes \<Rightarrow>
                  (let nonce_dig = sha256_hex ext nonce_bytes
                   in case existing of
                        Some record \<Rightarrow>
                          replay_existing_run ext cfg ctx record request claims nonce_dig (clock 2) d
                      | None \<Rightarrow>
                          and_then (require_current_role ctx [ADMIN, OPERATOR] True d) (\<lambda>_.
                          and_then (require_confirmation_key_history cfg d) (\<lambda>_.
                          and_then (require_idempotency_key_history cfg d) (\<lambda>_.
                            case find_idempotency_record ext cfg ctx raw_key d of
                              Some record \<Rightarrow>
                                replay_existing_run ext cfg ctx record request claims nonce_dig
                                  (clock 3) d
                            | None \<Rightarrow>
                                admit_new_run ext cfg ctx rq ids st claims nonce_dig normalized
                                  digest requested raw_key request (clock 2) (clock 3) d)))))))))))))"

end
