(* ===== verification/Lineage.thy ===== *)
theory Lineage
  imports Exec_Admission
begin

text \<open>
  The abstract specification of one run: its run row, job, attempts, events and result as one value,
  the steps it may take, and the invariant these steps keep. The theory \<open>Exec_Refine\<close> shows that
  every operation of the execution service moves every run along these steps, so what is proved here
  of a lineage holds of every run in the database.
\<close>

section \<open>Lineages\<close>

record lineage =
  ln_run :: Run
  ln_job :: Job
  ln_attempts :: "RunAttempt list"
  ln_events :: "RunEvent list"
  ln_results :: "RunResult list"

abbreviation ln_status :: "lineage \<Rightarrow> RunStatus" where
  "ln_status l \<equiv> run_status (ln_run l)"

fun job_status_for :: "RunStatus \<Rightarrow> JobStatus" where
  "job_status_for RunStatus.QUEUED = JobStatus.QUEUED"
| "job_status_for RunStatus.PREPARING = JobStatus.LEASED"
| "job_status_for RunStatus.SESSION_FENCED = JobStatus.LEASED"
| "job_status_for RunStatus.DISPATCH_FENCED = JobStatus.LEASED"
| "job_status_for RunStatus.SUCCEEDED = JobStatus.SUCCEEDED"
| "job_status_for RunStatus.FAILED = JobStatus.FAILED"
| "job_status_for RunStatus.CANCELLED = JobStatus.CANCELLED"
| "job_status_for RunStatus.TIMED_OUT = JobStatus.TIMED_OUT"
| "job_status_for RunStatus.INDETERMINATE = JobStatus.INDETERMINATE"

text \<open>The failure codes a worker reports after the tool call was dispatched.\<close>

definition dispatched_code :: "RunFailureCode option \<Rightarrow> bool" where
  "dispatched_code c \<longleftrightarrow> c \<in> Some ` {TOOL_CALL_FAILED, INVALID_TOOL_RESULT, UNSUPPORTED_TOOL_RESULT,
     SENSITIVE_TOOL_RESULT}"

definition dispatches :: "RunEvent list \<Rightarrow> nat" where
  "dispatches es = length (filter (\<lambda>e. ev_event_type e = RunEventType.DISPATCH_FENCED) es)"

text \<open>How often the tool call of a run in this status has been dispatched.\<close>

fun dispatches_for :: "RunStatus \<Rightarrow> RunFailureCode option \<Rightarrow> nat" where
  "dispatches_for RunStatus.DISPATCH_FENCED _ = 1"
| "dispatches_for RunStatus.SUCCEEDED _ = 1"
| "dispatches_for RunStatus.INDETERMINATE _ = 1"
| "dispatches_for RunStatus.FAILED c = (if dispatched_code c then 1 else 0)"
| "dispatches_for _ _ = 0"

definition keys_ok :: "lineage \<Rightarrow> bool" where
  "keys_ok l \<longleftrightarrow>
     (let i = run_id (ln_run l); w = run_workspace_id (ln_run l); j = job_id (ln_job l)
      in job_run_id (ln_job l) = i \<and> job_workspace_id (ln_job l) = w
         \<and> list_all (\<lambda>a. att_run_id a = i \<and> att_workspace_id a = w \<and> att_job_id a = j) (ln_attempts l)
         \<and> list_all (\<lambda>e. ev_run_id e = i \<and> ev_workspace_id e = w) (ln_events l)
         \<and> list_all (\<lambda>s. res_run_id s = i \<and> res_workspace_id s = w) (ln_results l))"

definition checks_ok :: "lineage \<Rightarrow> bool" where
  "checks_ok l \<longleftrightarrow> run_check (ln_run l) \<and> job_check (ln_job l)
     \<and> list_all attempt_check (ln_attempts l) \<and> list_all event_check (ln_events l)"

definition lease_within :: "Job \<Rightarrow> bool" where
  "lease_within j \<longleftrightarrow>
     (case job_lease_expires_at j of None \<Rightarrow> True | Some t \<Rightarrow> t \<le> job_deadline j)"

definition lease_ok :: "lineage \<Rightarrow> bool" where
  "lease_ok l \<longleftrightarrow>
     job_status (ln_job l) = job_status_for (ln_status l)
     \<and> job_deadline (ln_job l) = run_deadline (ln_run l)
     \<and> lease_within (ln_job l)"

definition attempts_ok :: "lineage \<Rightarrow> bool" where
  "attempts_ok l \<longleftrightarrow>
     (let as = ln_attempts l
      in contiguous (map att_sequence as) \<and> map att_lease_epoch as = map att_sequence as
         \<and> job_lease_epoch (ln_job l) = length as
         \<and> (ln_status l = RunStatus.QUEUED \<longrightarrow> as = [])
         \<and> (if attempt_active (ln_status l)
            then as \<noteq> [] \<and> att_status (last as) = ln_status l
                 \<and> list_all (\<lambda>a. terminal_status (att_status a)) (butlast as)
            else list_all (\<lambda>a. terminal_status (att_status a)) as))"

definition events_ok :: "lineage \<Rightarrow> bool" where
  "events_ok l \<longleftrightarrow>
     (let es = ln_events l
      in es \<noteq> [] \<and> contiguous (map ev_sequence es) \<and> ev_status (last es) = ln_status l
         \<and> dispatches es = dispatches_for (ln_status l) (run_safe_error_code (ln_run l)))"

definition results_ok :: "lineage \<Rightarrow> bool" where
  "results_ok l \<longleftrightarrow> length (ln_results l) \<le> 1
     \<and> (ln_results l \<noteq> [] \<longrightarrow> ln_status l = RunStatus.SUCCEEDED)"

definition lineage_ok :: "lineage \<Rightarrow> bool" where
  "lineage_ok l \<longleftrightarrow> keys_ok l \<and> checks_ok l \<and> lease_ok l \<and> attempts_ok l \<and> events_ok l \<and> results_ok l"

lemmas lineage_defs = keys_ok_def checks_ok_def lease_ok_def attempts_ok_def events_ok_def
  results_ok_def Let_def

section \<open>Steps\<close>

definition next_event ::
  "RunEventType \<Rightarrow> RunStatus \<Rightarrow> RunFailureCode option \<Rightarrow> instant \<Rightarrow> lineage \<Rightarrow> RunEvent" where
  "next_event ty s code now l = \<lparr>ev_workspace_id = run_workspace_id (ln_run l),
     ev_run_id = run_id (ln_run l), ev_sequence = Suc (length (ln_events l)), ev_event_type = ty,
     ev_status = s, ev_safe_error_code = code, ev_occurred_at = now\<rparr>"

definition close_active ::
  "RunStatus \<Rightarrow> instant \<Rightarrow> RunFailureCode option \<Rightarrow> RunAttempt list \<Rightarrow> RunAttempt list" where
  "close_active s now code as =
     map (\<lambda>a. if attempt_active (att_status a) then terminal_attempt s now code a else a) as"

text \<open>Where a run that the service itself ends may go: an unknown outcome once dispatched,
  a timeout, a cancellation or a failed preparation before.\<close>

definition end_allowed :: "RunStatus \<Rightarrow> RunStatus \<Rightarrow> RunFailureCode \<Rightarrow> bool" where
  "end_allowed s s' code \<longleftrightarrow>
     (if s = RunStatus.DISPATCH_FENCED then s' = RunStatus.INDETERMINATE
      else active_status s \<and> (s' = RunStatus.TIMED_OUT \<or> s' = RunStatus.CANCELLED
             \<or> s' = RunStatus.FAILED \<and> code = PREPARATION_FAILED))"

definition ended :: "RunStatus \<Rightarrow> instant \<Rightarrow> RunFailureCode \<Rightarrow> RunEventType \<Rightarrow> lineage \<Rightarrow> lineage" where
  "ended s now code ty l = l\<lparr>
     ln_run := terminal_run s now code (ln_run l),
     ln_job := terminal_job (job_status_for s) now (ln_job l),
     ln_attempts := close_active s now (Some code) (ln_attempts l),
     ln_events := ln_events l @ [next_event ty s (Some code) now l]\<rparr>"

definition lost :: "instant \<Rightarrow> lineage \<Rightarrow> lineage" where
  "lost now l =
     (if job_status (ln_job l) = JobStatus.LEASED
      then l\<lparr>ln_attempts := close_active RunStatus.FAILED now (Some WORKER_LOST_BEFORE_DISPATCH)
                             (ln_attempts l),
             ln_events := ln_events l @ [next_event RunEventType.LEASE_LOST (ln_status l)
                                           (Some WORKER_LOST_BEFORE_DISPATCH) now l]\<rparr>
      else l)"

definition attempt_of :: "lineage \<Rightarrow> instant \<Rightarrow> RunAttempt" where
  "attempt_of l now = \<lparr>att_workspace_id = run_workspace_id (ln_run l), att_run_id = run_id (ln_run l),
     att_job_id = job_id (ln_job l), att_sequence = Suc (length (ln_attempts l)),
     att_lease_epoch = Suc (job_lease_epoch (ln_job l)), att_status = RunStatus.PREPARING,
     att_started_at = now, att_terminal_at = None, att_safe_error_code = None\<rparr>"

definition claimed :: "string \<Rightarrow> duration \<Rightarrow> instant \<Rightarrow> lineage \<Rightarrow> lineage" where
  "claimed worker dur now l0 =
     (let l = lost now l0
      in l\<lparr>ln_run := (ln_run l)\<lparr>run_status := RunStatus.PREPARING, run_updated_at := now\<rparr>,
           ln_job := leased_job worker dur now (ln_job l),
           ln_attempts := ln_attempts l @ [attempt_of l now],
           ln_events := ln_events l @ [next_event ATTEMPT_STARTED RunStatus.PREPARING None now l]\<rparr>)"

text \<open>The attempt that holds the lease is the last one.\<close>

definition map_last :: "('a \<Rightarrow> 'a) \<Rightarrow> 'a list \<Rightarrow> 'a list" where
  "map_last f xs = (if xs = [] then [] else butlast xs @ [f (last xs)])"

definition fenced :: "RunStatus \<Rightarrow> RunEventType \<Rightarrow> instant \<Rightarrow> lineage \<Rightarrow> lineage" where
  "fenced s ty now l = l\<lparr>
     ln_run := (ln_run l)\<lparr>run_status := s, run_updated_at := now\<rparr>,
     ln_attempts := map_last (\<lambda>a. a\<lparr>att_status := s\<rparr>) (ln_attempts l),
     ln_events := ln_events l @ [next_event ty s None now l]\<rparr>"

definition completed :: "RunStatus \<Rightarrow> RunFailureCode option \<Rightarrow> instant \<Rightarrow> lineage \<Rightarrow> lineage" where
  "completed s code now l = l\<lparr>
     ln_run := (ln_run l)\<lparr>run_status := s, run_safe_error_code := code, run_updated_at := now,
                          run_terminal_at := Some now\<rparr>,
     ln_job := terminal_job (job_status_for s) now (ln_job l),
     ln_attempts := map_last (terminal_attempt s now code) (ln_attempts l),
     ln_events := ln_events l @ [next_event TERMINAL s code now l]\<rparr>"

definition noted :: "RunEventType \<Rightarrow> RunFailureCode option \<Rightarrow> instant \<Rightarrow> lineage \<Rightarrow> lineage" where
  "noted ty code now l = l\<lparr>ln_events := ln_events l @ [next_event ty (ln_status l) code now l]\<rparr>"

inductive lineage_step :: "lineage \<Rightarrow> lineage \<Rightarrow> bool" where
  claim: "ln_status l \<in> {RunStatus.QUEUED, RunStatus.PREPARING, RunStatus.SESSION_FENCED} \<Longrightarrow>
    length worker \<le> 128 \<Longrightarrow> lineage_step l (claimed worker dur now l)"
| fence_session: "ln_status l = RunStatus.PREPARING \<Longrightarrow>
    lineage_step l (fenced RunStatus.SESSION_FENCED RunEventType.SESSION_FENCED now l)"
| fence_dispatch: "ln_status l = RunStatus.SESSION_FENCED \<Longrightarrow>
    lineage_step l (fenced RunStatus.DISPATCH_FENCED RunEventType.DISPATCH_FENCED now l)"
| beat: "job_status (ln_job l) = JobStatus.LEASED \<Longrightarrow> t \<le> job_deadline (ln_job l) \<Longrightarrow>
    lineage_step l (l\<lparr>ln_job := (ln_job l)\<lparr>job_lease_expires_at := Some t\<rparr>\<rparr>)"
| complete: "attempt_active (ln_status l) \<Longrightarrow>
    valid_worker_completion (ln_run l) (last (ln_attempts l)) s code \<Longrightarrow>
    lineage_step l (completed s code now l)"
| finish: "end_allowed (ln_status l) s code \<Longrightarrow>
    ty \<in> {TERMINAL, CANCEL_REQUESTED, CONTENT_EXPIRED, RESTORE_RECONCILED} \<Longrightarrow>
    lineage_step l (ended s now code ty l)"
| request_cancel: "active_status (ln_status l) \<Longrightarrow>
    lineage_step l (l\<lparr>ln_run := (ln_run l)\<lparr>run_cancellation_requested := True\<rparr>\<rparr>)"
| touch: "lineage_step l (l\<lparr>ln_run := (ln_run l)\<lparr>run_updated_at := now\<rparr>\<rparr>)"
| note_cancel: "ln_status l = RunStatus.DISPATCH_FENCED \<Longrightarrow>
    lineage_step l (noted CANCEL_REQUESTED None now l)"
| note_expired: "terminal_status (ln_status l) \<Longrightarrow>
    lineage_step l (noted CONTENT_EXPIRED (run_safe_error_code (ln_run l)) now l)"
| strip: "terminal_status (ln_status l) \<Longrightarrow>
    lineage_step l (l\<lparr>ln_run := without_content now (ln_run l)\<rparr>)"
| store: "ln_status l = RunStatus.SUCCEEDED \<Longrightarrow> ln_results l = [] \<Longrightarrow>
    res_run_id res = run_id (ln_run l) \<Longrightarrow> res_workspace_id res = run_workspace_id (ln_run l) \<Longrightarrow>
    lineage_step l (l\<lparr>ln_results := [res]\<rparr>)"
| drop_result: "lineage_step l (l\<lparr>ln_results := []\<rparr>)"

text \<open>The lineage admission writes.\<close>

definition admitted_lineage :: "lineage \<Rightarrow> bool" where
  "admitted_lineage l \<longleftrightarrow>
     ln_status l = RunStatus.QUEUED \<and> run_terminal_at (ln_run l) = None
     \<and> run_safe_error_code (ln_run l) = None \<and> run_check (ln_run l)
     \<and> job_check (ln_job l) \<and> job_status (ln_job l) = JobStatus.QUEUED
     \<and> job_lease_epoch (ln_job l) = 0 \<and> job_deadline (ln_job l) = run_deadline (ln_run l)
     \<and> job_run_id (ln_job l) = run_id (ln_run l)
     \<and> job_workspace_id (ln_job l) = run_workspace_id (ln_run l)
     \<and> ln_attempts l = [] \<and> (\<exists>now. ln_events l = [admitted_event (ln_run l) now])
     \<and> ln_results l = []"

section \<open>The invariant is kept\<close>

lemma attempt_active_iff: "attempt_active s \<longleftrightarrow> job_status_for s = JobStatus.LEASED"
  by (cases s) (auto simp: attempt_active_def)

lemma attempt_active_active: "attempt_active s \<Longrightarrow> active_status s"
  by (auto simp: attempt_active_def)

lemma terminal_not_active: "terminal_status s \<Longrightarrow> \<not> attempt_active s"
  by (cases s) (auto simp: attempt_active_def)

lemma terminal_job_status_for: "terminal_job_status (job_status_for s) \<longleftrightarrow> terminal_status s"
  by (cases s) auto

lemma JobStatus_of_for: "terminal_status s \<Longrightarrow> JobStatus_of s = Some (job_status_for s)"
  by (cases s) auto

lemma close_active_terminal:
  "list_all (\<lambda>a. terminal_status (att_status a)) as \<Longrightarrow> close_active s now code as = as"
  by (induction as) (auto simp: close_active_def dest: terminal_not_active)

lemma close_active_last:
  assumes "as \<noteq> []" and "attempt_active (att_status (last as))"
    and "list_all (\<lambda>a. terminal_status (att_status a)) (butlast as)"
  shows "close_active s now code as = map_last (terminal_attempt s now code) as"
  using assms close_active_terminal [of "butlast as" s now code]
  by (cases as rule: rev_cases) (simp_all add: close_active_def map_last_def)

lemma map_map_last: "(\<And>x. g (f x) = g x) \<Longrightarrow> map g (map_last f xs) = map g xs"
  by (cases xs rule: rev_cases) (simp_all add: map_last_def)

lemma length_map_last [simp]: "length (map_last f xs) = length xs"
  by (simp add: map_last_def)

lemma map_last_eq_Nil [simp]: "map_last f xs = [] \<longleftrightarrow> xs = []"
  by (simp add: map_last_def)

lemma last_map_last [simp]: "xs \<noteq> [] \<Longrightarrow> last (map_last f xs) = f (last xs)"
  by (simp add: map_last_def)

lemma butlast_map_last [simp]: "butlast (map_last f xs) = butlast xs"
  by (simp add: map_last_def)

lemma list_all_map_last:
  "list_all P xs \<Longrightarrow> (xs \<noteq> [] \<Longrightarrow> P (last xs) \<Longrightarrow> P (f (last xs))) \<Longrightarrow> list_all P (map_last f xs)"
  by (cases xs rule: rev_cases) (auto simp: map_last_def)

lemma list_all_butlast_last:
  "xs \<noteq> [] \<Longrightarrow> list_all P xs \<longleftrightarrow> list_all P (butlast xs) \<and> P (last xs)"
  by (cases xs rule: rev_cases) auto

lemma dispatches_append [simp]: "dispatches (es @ es') = dispatches es + dispatches es'"
  by (simp add: dispatches_def)

lemma dispatches_one [simp]:
  "dispatches [e] = (if ev_event_type e = RunEventType.DISPATCH_FENCED then 1 else 0)"
  by (simp add: dispatches_def)

text \<open>The steps that end the lease: the attempts afterwards are all terminal.\<close>

lemma attempts_ok_closed:
  assumes "attempts_ok l" and "terminal_status s"
  shows "list_all (\<lambda>a. terminal_status (att_status a)) (close_active s now code (ln_attempts l))
    \<and> map att_sequence (close_active s now code (ln_attempts l)) = map att_sequence (ln_attempts l)
    \<and> map att_lease_epoch (close_active s now code (ln_attempts l)) = map att_lease_epoch (ln_attempts l)
    \<and> length (close_active s now code (ln_attempts l)) = length (ln_attempts l)"
proof -
  have "list_all (\<lambda>a. terminal_status (att_status a) \<or> attempt_active (att_status a)) (ln_attempts l)"
  proof (cases "attempt_active (ln_status l)")
    case True
    with assms(1) have "ln_attempts l \<noteq> []" "att_status (last (ln_attempts l)) = ln_status l"
      "list_all (\<lambda>a. terminal_status (att_status a)) (butlast (ln_attempts l))"
      by (auto simp: attempts_ok_def Let_def)
    then show ?thesis using True list_all_butlast_last
      by (metis (no_types, lifting) list_all_iff)
  next
    case False
    with assms(1) show ?thesis by (auto simp: attempts_ok_def Let_def list_all_iff)
  qed
  then show ?thesis
    using assms(2) by (auto simp: close_active_def list_all_iff terminal_attempt_def o_def)
qed

lemma close_active_checks:
  assumes "list_all attempt_check as" and "terminal_status s" and "code_check s code"
  shows "list_all attempt_check (close_active s now code as)"
  using assms by (cases s) (auto simp: list_all_iff close_active_def terminal_attempt_def
      attempt_check_def)

lemma close_active_keys:
  "list_all (\<lambda>a. att_run_id a = i \<and> att_workspace_id a = w \<and> att_job_id a = j) as \<Longrightarrow>
   list_all (\<lambda>a. att_run_id a = i \<and> att_workspace_id a = w \<and> att_job_id a = j)
     (close_active s now code as)"
  by (auto simp: list_all_iff close_active_def terminal_attempt_def)

text \<open>Appending one event keeps the event log contiguous.\<close>

lemma events_snoc:
  assumes "events_ok l"
  shows "contiguous (map ev_sequence (ln_events l @ [next_event ty s code now l]))"
  using assms contiguous_snoc [of "map ev_sequence (ln_events l)"]
  by (simp add: events_ok_def Let_def next_event_def)

lemma ended_ok:
  assumes "lineage_ok l" and "end_allowed (ln_status l) s code"
    and "ty \<in> {TERMINAL, CANCEL_REQUESTED, CONTENT_EXPIRED, RESTORE_RECONCILED}"
  shows "lineage_ok (ended s now code ty l)"
proof -
  have s: "terminal_status s" "error_status s" "s \<noteq> RunStatus.SUCCEEDED"
    and act: "active_status (ln_status l)"
    using assms(2) by (auto simp: end_allowed_def split: if_splits)
  have na: "\<not> attempt_active s" "s \<noteq> RunStatus.QUEUED"
    using s by (auto simp: terminal_not_active)
  have cc: "code_check s (Some code)" using s by (simp add: code_check_def)
  note ok = assms(1) [unfolded lineage_ok_def]
  have closed: "list_all (\<lambda>a. terminal_status (att_status a)) (close_active s now (Some code) (ln_attempts l))"
    "map att_sequence (close_active s now (Some code) (ln_attempts l)) = map att_sequence (ln_attempts l)"
    "map att_lease_epoch (close_active s now (Some code) (ln_attempts l)) = map att_lease_epoch (ln_attempts l)"
    "length (close_active s now (Some code) (ln_attempts l)) = length (ln_attempts l)"
    using attempts_ok_closed [of l s now "Some code"] ok s by auto
  have keys: "keys_ok (ended s now code ty l)"
    using ok close_active_keys
    by (auto simp: keys_ok_def Let_def ended_def terminal_run_def terminal_job_def next_event_def)
  have res: "ln_results l = []" using ok act by (cases "ln_results l") (auto simp: results_ok_def)
  have "checks_ok (ended s now code ty l)"
    using ok s cc close_active_checks [of "ln_attempts l" s "Some code" now] na
    by (auto simp: checks_ok_def ended_def run_check_def job_check_def terminal_run_def
        terminal_job_def next_event_def event_check_def terminal_job_status_for
        attempt_active_iff [symmetric] split: option.splits)
  moreover have "lease_ok (ended s now code ty l)"
    using ok by (auto simp: lease_ok_def lease_within_def ended_def terminal_run_def terminal_job_def)
  moreover have "attempts_ok (ended s now code ty l)"
    using ok closed na
    by (auto simp: attempts_ok_def Let_def ended_def terminal_run_def terminal_job_def
        simp del: map_eq_conv)
  moreover have "events_ok (ended s now code ty l)"
  proof -
    have "dispatches_for s (Some code) = dispatches_for (ln_status l) (run_safe_error_code (ln_run l))"
      using assms(2) by (cases "ln_status l"; cases s) (auto simp: end_allowed_def dispatched_code_def)
    with ok assms(3) events_snoc [of l] show ?thesis
      by (auto simp: events_ok_def Let_def ended_def terminal_run_def next_event_def)
  qed
  moreover have "results_ok (ended s now code ty l)"
    using res by (simp add: results_ok_def ended_def)
  ultimately show ?thesis using keys by (simp add: lineage_ok_def)
qed

lemma valid_completion_cases:
  assumes "valid_worker_completion r a s code"
  shows "terminal_status s \<and> code_check s code \<and> attempt_active (run_status r)
    \<and> dispatches_for s code = dispatches_for (run_status r) c"
  using assms
  by (cases s; cases "run_status r")
    (auto simp: valid_worker_completion_def code_check_def attempt_active_def dispatched_code_def
      split: option.splits if_splits)

lemma completed_ok:
  assumes "lineage_ok l" and "attempt_active (ln_status l)"
    and "valid_worker_completion (ln_run l) (last (ln_attempts l)) s code"
  shows "lineage_ok (completed s code now l)"
proof -
  note v = valid_completion_cases [OF assms(3), of "run_safe_error_code (ln_run l)"]
  have na: "\<not> attempt_active s" "s \<noteq> RunStatus.QUEUED"
    using v by (auto simp: terminal_not_active)
  note ok = assms(1) [unfolded lineage_ok_def]
  have last: "ln_attempts l \<noteq> []" "attempt_active (att_status (last (ln_attempts l)))"
    "list_all (\<lambda>a. terminal_status (att_status a)) (butlast (ln_attempts l))"
    using ok assms(2) by (auto simp: attempts_ok_def Let_def)
  have close: "map_last (terminal_attempt s now code) (ln_attempts l)
      = close_active s now code (ln_attempts l)"
    using close_active_last [OF last] by simp
  have closed: "list_all (\<lambda>a. terminal_status (att_status a)) (close_active s now code (ln_attempts l))"
    "map att_sequence (close_active s now code (ln_attempts l)) = map att_sequence (ln_attempts l)"
    "map att_lease_epoch (close_active s now code (ln_attempts l)) = map att_lease_epoch (ln_attempts l)"
    "length (close_active s now code (ln_attempts l)) = length (ln_attempts l)"
    using attempts_ok_closed [of l s now code] ok v by auto
  have keys: "keys_ok (completed s code now l)"
    using ok close_active_keys
    by (auto simp: keys_ok_def Let_def completed_def terminal_job_def next_event_def close)
  have res: "ln_results l = []"
    using ok attempt_active_active [OF assms(2)] by (cases "ln_results l") (auto simp: results_ok_def)
  have "checks_ok (completed s code now l)"
    using ok v close_active_checks [of "ln_attempts l" s code now] na
    by (auto simp: checks_ok_def completed_def run_check_def job_check_def close
        terminal_job_def next_event_def event_check_def terminal_job_status_for
        attempt_active_iff [symmetric] split: option.splits)
  moreover have "lease_ok (completed s code now l)"
    using ok by (auto simp: lease_ok_def lease_within_def completed_def terminal_job_def)
  moreover have "attempts_ok (completed s code now l)"
    using ok closed na
    by (auto simp: attempts_ok_def Let_def completed_def close terminal_job_def
        simp del: map_eq_conv)
  moreover have "events_ok (completed s code now l)"
    using ok v events_snoc [of l]
    by (auto simp: events_ok_def Let_def completed_def next_event_def)
  moreover have "results_ok (completed s code now l)"
    using res by (simp add: results_ok_def completed_def)
  ultimately show ?thesis using keys by (simp add: lineage_ok_def)
qed

text \<open>What \<open>lost\<close> leaves behind: closed attempts and one more event, or nothing changed.\<close>

lemma lost_facts:
  assumes "lineage_ok l" and "active_status (ln_status l)"
  shows "ln_run (lost now l) = ln_run l" and "ln_job (lost now l) = ln_job l"
    and "ln_results (lost now l) = []" and "keys_ok (lost now l)" and "checks_ok (lost now l)"
    and "list_all (\<lambda>a. terminal_status (att_status a)) (ln_attempts (lost now l))"
    and "map att_sequence (ln_attempts (lost now l)) = map att_sequence (ln_attempts l)"
    and "map att_lease_epoch (ln_attempts (lost now l)) = map att_lease_epoch (ln_attempts l)"
    and "events_ok (lost now l)"
proof -
  note ok = assms(1) [unfolded lineage_ok_def]
  have failed: "terminal_status RunStatus.FAILED" by simp
  note closed = attempts_ok_closed [of l RunStatus.FAILED now "Some WORKER_LOST_BEFORE_DISPATCH",
      OF _ failed]
  show "ln_run (lost now l) = ln_run l" "ln_job (lost now l) = ln_job l"
    by (simp_all add: lost_def)
  show "ln_results (lost now l) = []"
    using ok assms(2) by (cases "ln_results l") (auto simp: results_ok_def lost_def)
  show "keys_ok (lost now l)"
    using ok close_active_keys by (auto simp: keys_ok_def Let_def lost_def next_event_def)
  show "checks_ok (lost now l)"
    using ok assms(2) close_active_checks [of "ln_attempts l" RunStatus.FAILED
        "Some WORKER_LOST_BEFORE_DISPATCH" now]
    by (cases "ln_status l") (auto simp: checks_ok_def lost_def next_event_def event_check_def code_check_def)
  show "list_all (\<lambda>a. terminal_status (att_status a)) (ln_attempts (lost now l))"
    "map att_sequence (ln_attempts (lost now l)) = map att_sequence (ln_attempts l)"
    "map att_lease_epoch (ln_attempts (lost now l)) = map att_lease_epoch (ln_attempts l)"
    using ok closed
    by (auto simp: lost_def attempts_ok_def Let_def lease_ok_def attempt_active_iff simp del: map_eq_conv)
  show "events_ok (lost now l)"
    using ok events_snoc [of l] by (auto simp: events_ok_def Let_def lost_def next_event_def)
qed

lemma run_check_active:
  "run_check r \<Longrightarrow> active_status (run_status r) \<Longrightarrow> active_status s \<Longrightarrow>
     run_check (r\<lparr>run_status := s, run_updated_at := now\<rparr>)"
  by (cases s) (simp_all add: run_check_def code_check_def active_iff_not_terminal)

lemma job_check_leased:
  "job_check j \<Longrightarrow> active_status s \<Longrightarrow> job_status j = job_status_for s \<Longrightarrow> length worker \<le> 128 \<Longrightarrow>
     job_check (leased_job worker dur now j)"
  using terminal_job_status_for [of s] by (simp add: job_check_def leased_job_def active_iff_not_terminal)

lemma claimed_ok:
  assumes "lineage_ok l"
    and "ln_status l \<in> {RunStatus.QUEUED, RunStatus.PREPARING, RunStatus.SESSION_FENCED}"
    and "length worker \<le> 128"
  shows "lineage_ok (claimed worker dur now l)"
proof -
  have act: "active_status (ln_status l)" using assms(2) by auto
  note ok = assms(1) [unfolded lineage_ok_def]
  note f = lost_facts [OF assms(1) act, of now]
  have len: "length (ln_attempts (lost now l)) = length (ln_attempts l)"
    using f(7) map_eq_imp_length_eq by blast
  have "keys_ok (claimed worker dur now l)"
    using f(1-5) by (auto simp: keys_ok_def Let_def claimed_def leased_job_def attempt_of_def
        next_event_def)
  moreover have "job_check (leased_job worker dur now (ln_job l))"
    using ok act assms(3) job_check_leased by (simp add: checks_ok_def lease_ok_def)
  then have "checks_ok (claimed worker dur now l)"
    using f(1,2,5) act run_check_active [of "ln_run l" RunStatus.PREPARING now]
    by (simp add: checks_ok_def claimed_def Let_def attempt_check_def attempt_of_def next_event_def
        event_check_def code_check_def)
  moreover have "lease_ok (claimed worker dur now l)"
    using ok f(1,2) by (auto simp: lease_ok_def lease_within_def claimed_def Let_def leased_job_def)
  moreover have "attempts_ok (claimed worker dur now l)"
    using ok f(1,2,6,7,8) len contiguous_snoc [of "map att_sequence (ln_attempts l)"]
    by (auto simp: attempts_ok_def Let_def claimed_def leased_job_def attempt_of_def attempt_active_def
        simp del: map_eq_conv)
  moreover have "events_ok (claimed worker dur now l)"
    using f(1,9) events_snoc [OF f(9)] assms(2)
    by (auto simp: events_ok_def Let_def claimed_def next_event_def)
  moreover have "results_ok (claimed worker dur now l)"
    using f(3) by (simp add: results_ok_def claimed_def Let_def)
  ultimately show ?thesis by (simp add: lineage_ok_def)
qed

lemma fenced_ok:
  assumes "lineage_ok l"
    and "(ln_status l, s, ty) \<in> {(RunStatus.PREPARING, RunStatus.SESSION_FENCED, RunEventType.SESSION_FENCED),
       (RunStatus.SESSION_FENCED, RunStatus.DISPATCH_FENCED, RunEventType.DISPATCH_FENCED)}"
  shows "lineage_ok (fenced s ty now l)"
proof -
  note ok = assms(1) [unfolded lineage_ok_def]
  have last: "ln_attempts l \<noteq> []" "att_status (last (ln_attempts l)) = ln_status l"
    "list_all (\<lambda>a. terminal_status (att_status a)) (butlast (ln_attempts l))"
    using ok assms(2) by (auto simp: attempts_ok_def Let_def attempt_active_def)
  have "keys_ok (fenced s ty now l)"
    using ok by (auto simp: keys_ok_def Let_def fenced_def next_event_def intro!: list_all_map_last)
  moreover have "checks_ok (fenced s ty now l)"
    using ok assms(2) last(2)
    by (auto simp: checks_ok_def fenced_def run_check_def next_event_def event_check_def
        code_check_def attempt_check_def intro!: list_all_map_last)
  moreover have "lease_ok (fenced s ty now l)"
    using ok assms(2) by (auto simp: lease_ok_def fenced_def)
  moreover have "attempts_ok (fenced s ty now l)"
    using ok assms(2) last
    by (auto simp: attempts_ok_def Let_def fenced_def attempt_active_def map_map_last
        simp del: map_eq_conv)
  moreover have "events_ok (fenced s ty now l)"
    using ok assms(2) events_snoc [of l]
    by (auto simp: events_ok_def Let_def fenced_def next_event_def)
  moreover have "results_ok (fenced s ty now l)"
    using ok assms(2) by (auto simp: results_ok_def fenced_def)
  ultimately show ?thesis by (simp add: lineage_ok_def)
qed

lemma noted_ok:
  assumes "lineage_ok l" and "ty \<noteq> RunEventType.DISPATCH_FENCED" and "code_check (ln_status l) code"
  shows "lineage_ok (noted ty code now l)"
  using assms events_snoc [of l ty "ln_status l" code now]
  by (simp add: lineage_ok_def lineage_defs noted_def next_event_def event_check_def
      del: map_eq_conv)

lemma rows_changed_ok:
  assumes "lineage_ok l"
  shows "lineage_ok (l\<lparr>ln_run := (ln_run l)\<lparr>run_cancellation_requested := b\<rparr>\<rparr>)"
    and "lineage_ok (l\<lparr>ln_run := (ln_run l)\<lparr>run_updated_at := now\<rparr>\<rparr>)"
    and "lineage_ok (l\<lparr>ln_run := without_content now (ln_run l)\<rparr>)"
    and "lineage_ok (l\<lparr>ln_results := []\<rparr>)"
  using assms
  by (simp_all add: lineage_ok_def lineage_defs without_content_def run_check_def arguments_check_def)

lemma lineage_step_ok:
  assumes "lineage_ok l" and "lineage_step l l'"
  shows "lineage_ok l'"
  using assms(2)
proof cases
  case (beat t)
  then show ?thesis
    using assms(1) by (simp add: lineage_ok_def lineage_defs job_check_def lease_within_def)
next
  case (note_cancel now)
  then show ?thesis using assms(1) by (auto intro!: noted_ok simp: code_check_def)
next
  case (note_expired now)
  have "code_check (ln_status l) (run_safe_error_code (ln_run l))"
    using assms(1) by (simp add: lineage_ok_def checks_ok_def run_check_def)
  with note_expired assms(1) show ?thesis by (simp add: noted_ok)
next
  case (store res)
  then show ?thesis using assms(1) by (simp add: lineage_ok_def lineage_defs)
qed (use assms(1) in \<open>simp_all add: claimed_ok fenced_ok completed_ok ended_ok rows_changed_ok\<close>)

lemma admitted_lineage_ok: "admitted_lineage l \<Longrightarrow> lineage_ok l"
  by (auto simp: admitted_lineage_def lineage_ok_def lineage_defs admitted_event_def event_check_def
      code_check_def job_check_def attempt_active_def contiguous_def lease_within_def)

interpretation run_machine: machine admitted_lineage lineage_step lineage_ok
  by unfold_locales (fact admitted_lineage_ok, fact lineage_step_ok)

section \<open>What steps keep\<close>

lemma terminal_absorbing:
  "lineage_step l l' \<Longrightarrow> terminal_status (ln_status l) \<Longrightarrow>
     ln_status l' = ln_status l \<and> run_safe_error_code (ln_run l') = run_safe_error_code (ln_run l)
     \<and> run_terminal_at (ln_run l') = run_terminal_at (ln_run l)"
  by (induction rule: lineage_step.cases)
    (auto simp: noted_def without_content_def end_allowed_def active_iff_not_terminal
      dest: terminal_not_active split: if_splits)

lemma step_ids:
  "lineage_step l l' \<Longrightarrow> run_id (ln_run l') = run_id (ln_run l) \<and> job_id (ln_job l') = job_id (ln_job l)
     \<and> run_workspace_id (ln_run l') = run_workspace_id (ln_run l)
     \<and> job_execution_epoch (ln_job l') = job_execution_epoch (ln_job l)
     \<and> run_deadline (ln_run l') = run_deadline (ln_run l)"
  by (induction rule: lineage_step.cases)
    (auto simp: claimed_def lost_def Let_def leased_job_def fenced_def completed_def terminal_job_def
      ended_def terminal_run_def noted_def without_content_def)

lemma step_epoch: "lineage_step l l' \<Longrightarrow> job_lease_epoch (ln_job l) \<le> job_lease_epoch (ln_job l')"
  by (induction rule: lineage_step.cases)
    (auto simp: claimed_def lost_def Let_def leased_job_def fenced_def completed_def terminal_job_def
      ended_def noted_def)

text \<open>The event log only grows.\<close>

lemma step_events: "lineage_step l l' \<Longrightarrow> \<exists>es. ln_events l' = ln_events l @ es"
  by (induction rule: lineage_step.cases)
    (auto simp: claimed_def lost_def Let_def fenced_def completed_def ended_def noted_def)

end
