(* ===== verification/Exec_Refine.thy ===== *)
theory Exec_Refine
  imports Lineage
begin

text \<open>
  The refinement: the rows of one run in the five execution tables are its lineage, and every
  operation of the execution service moves every lineage by steps of the abstract specification.
  The first part relates row operations to lineages, the second treats the service operation by
  operation.
\<close>

section \<open>Views\<close>

definition runs_at :: "db \<Rightarrow> uuid \<Rightarrow> Run list" where
  "runs_at d i = filter (\<lambda>r. run_id r = i) (runs d)"

definition jobs_at :: "db \<Rightarrow> uuid \<Rightarrow> Job list" where
  "jobs_at d i = filter (\<lambda>j. job_run_id j = i) (jobs d)"

definition attempts_at :: "db \<Rightarrow> uuid \<Rightarrow> RunAttempt list" where
  "attempts_at d i = filter (\<lambda>a. att_run_id a = i) (run_attempts d)"

definition events_at :: "db \<Rightarrow> uuid \<Rightarrow> RunEvent list" where
  "events_at d i = filter (\<lambda>e. ev_run_id e = i) (run_events d)"

definition results_at :: "db \<Rightarrow> uuid \<Rightarrow> RunResult list" where
  "results_at d i = filter (\<lambda>s. res_run_id s = i) (run_results d)"

lemmas view_defs = runs_at_def jobs_at_def attempts_at_def events_at_def results_at_def

definition has_lineage :: "db \<Rightarrow> uuid \<Rightarrow> lineage \<Rightarrow> bool" where
  "has_lineage d i l \<longleftrightarrow> runs_at d i = [ln_run l] \<and> jobs_at d i = [ln_job l]
     \<and> attempts_at d i = ln_attempts l \<and> events_at d i = ln_events l \<and> results_at d i = ln_results l"

definition absent :: "db \<Rightarrow> uuid \<Rightarrow> bool" where
  "absent d i \<longleftrightarrow> runs_at d i = [] \<and> jobs_at d i = [] \<and> attempts_at d i = [] \<and> events_at d i = []
     \<and> results_at d i = []"

definition same_at :: "uuid \<Rightarrow> db \<Rightarrow> db \<Rightarrow> bool" where
  "same_at i d d' \<longleftrightarrow> runs_at d' i = runs_at d i \<and> jobs_at d' i = jobs_at d i
     \<and> attempts_at d' i = attempts_at d i \<and> events_at d' i = events_at d i
     \<and> results_at d' i = results_at d i"

text \<open>Only the five execution tables differ.\<close>

definition ledger_only :: "db \<Rightarrow> db \<Rightarrow> bool" where
  "ledger_only d d' \<longleftrightarrow> d' = d\<lparr>runs := runs d', jobs := jobs d', run_attempts := run_attempts d',
     run_events := run_events d', run_results := run_results d'\<rparr>"

definition frame_at :: "uuid \<Rightarrow> db \<Rightarrow> db \<Rightarrow> bool" where
  "frame_at i d d' \<longleftrightarrow> (\<forall>k. k \<noteq> i \<longrightarrow> same_at k d d')
     \<and> map job_id (jobs d') = map job_id (jobs d) \<and> map run_id (runs d') = map run_id (runs d)
     \<and> ledger_only d d'"

definition ledger_ok :: "db \<Rightarrow> bool" where
  "ledger_ok d \<longleftrightarrow> distinct (map job_id (jobs d))
     \<and> (\<forall>i. absent d i \<or> (\<exists>l. has_lineage d i l \<and> lineage_ok l))"

lemma has_lineage_unique: "has_lineage d i l \<Longrightarrow> has_lineage d i l' \<Longrightarrow> l = l'"
  by (simp add: has_lineage_def lineage.equality)

lemma has_lineage_not_absent: "has_lineage d i l \<Longrightarrow> \<not> absent d i"
  by (simp add: has_lineage_def absent_def)

lemma has_lineage_id: "has_lineage d i l \<Longrightarrow> run_id (ln_run l) = i \<and> job_run_id (ln_job l) = i"
proof -
  assume l: "has_lineage d i l"
  then have "ln_run l \<in> set (runs_at d i)" "ln_job l \<in> set (jobs_at d i)"
    by (simp_all add: has_lineage_def)
  then show ?thesis by (simp add: runs_at_def jobs_at_def)
qed

lemma has_lineage_mem: "has_lineage d i l \<Longrightarrow> ln_run l \<in> set (runs d) \<and> ln_job l \<in> set (jobs d)"
proof -
  assume l: "has_lineage d i l"
  then have "ln_run l \<in> set (runs_at d i)" "ln_job l \<in> set (jobs_at d i)"
    by (simp_all add: has_lineage_def)
  then show ?thesis by (simp add: runs_at_def jobs_at_def)
qed

lemma same_at_refl [simp]: "same_at i d d"
  by (simp add: same_at_def)

lemma same_at_trans: "same_at i d d' \<Longrightarrow> same_at i d' d'' \<Longrightarrow> same_at i d d''"
  by (simp add: same_at_def)

lemma same_at_lineage: "same_at i d d' \<Longrightarrow> has_lineage d' i l \<longleftrightarrow> has_lineage d i l"
  by (simp add: same_at_def has_lineage_def)

lemma same_at_absent: "same_at i d d' \<Longrightarrow> absent d' i \<longleftrightarrow> absent d i"
  by (simp add: same_at_def absent_def)

lemma ledger_only_refl [simp]: "ledger_only d d"
  by (simp add: ledger_only_def)

lemma ledger_only_trans: "ledger_only d d' \<Longrightarrow> ledger_only d' d'' \<Longrightarrow> ledger_only d d''"
  by (cases d; cases d'; cases d'') (simp add: ledger_only_def)

lemma frame_at_refl [simp]: "frame_at i d d"
  by (simp add: frame_at_def)

lemma frame_at_trans: "frame_at i d d' \<Longrightarrow> frame_at i d' d'' \<Longrightarrow> frame_at i d d''"
  unfolding frame_at_def by (metis same_at_trans ledger_only_trans)

lemma ledger_ok_lineage: "ledger_ok d \<Longrightarrow> r \<in> set (runs d) \<Longrightarrow>
  \<exists>l. has_lineage d (run_id r) l \<and> lineage_ok l \<and> ln_run l = r"
proof -
  assume d: "ledger_ok d" "r \<in> set (runs d)"
  then have r: "r \<in> set (runs_at d (run_id r))" by (simp add: runs_at_def)
  then have "\<not> absent d (run_id r)" by (auto simp: absent_def)
  with d(1) obtain l where l: "has_lineage d (run_id r) l" "lineage_ok l"
    by (auto simp: ledger_ok_def)
  with r have "ln_run l = r" by (simp add: has_lineage_def)
  with l show ?thesis by blast
qed

lemma ledger_ok_job: "ledger_ok d \<Longrightarrow> j \<in> set (jobs d) \<Longrightarrow>
  \<exists>l. has_lineage d (job_run_id j) l \<and> lineage_ok l \<and> ln_job l = j"
proof -
  assume d: "ledger_ok d" "j \<in> set (jobs d)"
  then have j: "j \<in> set (jobs_at d (job_run_id j))" by (simp add: jobs_at_def)
  then have "\<not> absent d (job_run_id j)" by (auto simp: absent_def)
  with d(1) obtain l where l: "has_lineage d (job_run_id j) l" "lineage_ok l"
    by (auto simp: ledger_ok_def)
  with j have "ln_job l = j" by (simp add: has_lineage_def)
  with l show ?thesis by blast
qed

section \<open>Row operations on a lineage\<close>

lemma put_run_lineage:
  assumes "has_lineage d i l" and "run_id r = i"
  shows "has_lineage (put_run r d) i (l\<lparr>ln_run := r\<rparr>)" and "frame_at i d (put_run r d)"
proof -
  have "runs_at (put_run r d) k = (if k = i then rows_put run_id r (runs_at d k) else runs_at d k)" for k
    using assms(2) filter_rows_put [of "runs d" run_id r run_id k]
    by (simp add: runs_at_def put_run_def)
  moreover have "rows_put run_id r (runs_at d i) = [r]"
    using assms has_lineage_id [OF assms(1)] by (simp add: has_lineage_def rows_put_def)
  ultimately show "has_lineage (put_run r d) i (l\<lparr>ln_run := r\<rparr>)" "frame_at i d (put_run r d)"
    using assms(1)
    by (simp_all add: has_lineage_def frame_at_def same_at_def ledger_only_def put_run_def
        jobs_at_def attempts_at_def events_at_def results_at_def)
qed

lemma put_job_lineage:
  assumes "has_lineage d i l" and "distinct (map job_id (jobs d))"
    and "job_id j = job_id (ln_job l)" and "job_run_id j = i"
  shows "has_lineage (put_job j d) i (l\<lparr>ln_job := j\<rparr>)" and "frame_at i d (put_job j d)"
proof -
  have "job_run_id x = job_run_id j" if "x \<in> set (jobs d)" "job_id x = job_id j" for x
    using that assms has_lineage_mem [OF assms(1)] has_lineage_id [OF assms(1)]
    by (metis distinct_map inj_onD)
  then have "jobs_at (put_job j d) k = (if k = i then rows_put job_id j (jobs_at d k) else jobs_at d k)" for k
    using assms(4) filter_rows_put [of "jobs d" job_id j job_run_id k]
    by (simp add: jobs_at_def put_job_def)
  moreover have "rows_put job_id j (jobs_at d i) = [j]"
    using assms by (simp add: has_lineage_def rows_put_def)
  ultimately show "has_lineage (put_job j d) i (l\<lparr>ln_job := j\<rparr>)" "frame_at i d (put_job j d)"
    using assms(1)
    by (simp_all add: has_lineage_def frame_at_def same_at_def ledger_only_def put_job_def
        runs_at_def attempts_at_def events_at_def results_at_def)
qed

lemma put_attempt_lineage:
  assumes "has_lineage d i l" and "att_run_id a = i"
  shows "has_lineage (put_attempt a d) i (l\<lparr>ln_attempts := rows_put att_key a (ln_attempts l)\<rparr>)"
    and "frame_at i d (put_attempt a d)"
proof -
  have "attempts_at (put_attempt a d) k
      = (if k = i then rows_put att_key a (attempts_at d k) else attempts_at d k)" for k
    using assms(2) filter_rows_put [of "run_attempts d" att_key a att_run_id k]
    by (simp add: attempts_at_def put_attempt_def att_key_def)
  then show "has_lineage (put_attempt a d) i (l\<lparr>ln_attempts := rows_put att_key a (ln_attempts l)\<rparr>)"
    "frame_at i d (put_attempt a d)"
    using assms(1)
    by (simp_all add: has_lineage_def frame_at_def same_at_def ledger_only_def put_attempt_def
        runs_at_def jobs_at_def events_at_def results_at_def)
qed

lemma add_attempt_lineage:
  assumes "has_lineage d i l" and "att_run_id a = i"
  shows "has_lineage (add_attempt a d) i (l\<lparr>ln_attempts := ln_attempts l @ [a]\<rparr>)"
    and "frame_at i d (add_attempt a d)"
  using assms
  by (simp_all add: has_lineage_def frame_at_def same_at_def ledger_only_def add_attempt_def view_defs)

lemma append_next_event_lineage:
  assumes "has_lineage d i l" and "contiguous (map ev_sequence (ln_events l))"
    and "run_id run = i" and "run_workspace_id run = run_workspace_id (ln_run l)"
  shows "has_lineage (append_next_event run ty s code now d) i
           (l\<lparr>ln_events := ln_events l @ [next_event ty s code now l]\<rparr>)"
    and "frame_at i d (append_next_event run ty s code now d)"
proof -
  have "next_sequence (map ev_sequence (filter (\<lambda>e. ev_run_id e = i) (run_events d)))
      = Suc (length (ln_events l))"
    using assms(1,2) next_sequence_contiguous [of "map ev_sequence (ln_events l)"]
    by (simp add: has_lineage_def events_at_def)
  then show "has_lineage (append_next_event run ty s code now d) i
           (l\<lparr>ln_events := ln_events l @ [next_event ty s code now l]\<rparr>)"
    "frame_at i d (append_next_event run ty s code now d)"
    using assms has_lineage_id [OF assms(1)]
    by (simp_all add: has_lineage_def frame_at_def same_at_def ledger_only_def append_next_event_def
        append_event_def view_defs next_event_def)
qed

lemma job_for_run_lineage: "has_lineage d i l \<Longrightarrow> job_for_run i d = Some (ln_job l)"
  by (simp add: has_lineage_def job_for_run_def jobs_at_def)

lemma active_attempt_lineage:
  assumes "has_lineage d i l" and "attempts_ok l'" and "ln_attempts l' = ln_attempts l"
  shows "active_attempt i d
    = (if attempt_active (ln_status l') then Some (last (ln_attempts l)) else None)"
proof -
  let ?act = "filter (\<lambda>a. attempt_active (att_status a)) (ln_attempts l)"
  have view: "filter (\<lambda>a. att_run_id a = i \<and> attempt_active (att_status a)) (run_attempts d) = ?act"
    using assms(1) by (simp add: has_lineage_def attempts_at_def) (metis filter_filter conj_commute)
  have none: "filter (\<lambda>a. attempt_active (att_status a)) as = []"
    if "list_all (\<lambda>a. terminal_status (att_status a)) as" for as
    using that by (auto simp: list_all_iff filter_empty_conv dest: terminal_not_active)
  show ?thesis
  proof (cases "attempt_active (ln_status l')")
    case True
    with assms(2,3) have as: "ln_attempts l \<noteq> []" "attempt_active (att_status (last (ln_attempts l)))"
      "list_all (\<lambda>a. terminal_status (att_status a)) (butlast (ln_attempts l))"
      by (auto simp: attempts_ok_def Let_def)
    then have "ln_attempts l = butlast (ln_attempts l) @ [last (ln_attempts l)]" by simp
    with as none [of "butlast (ln_attempts l)"] have "?act = [last (ln_attempts l)]"
      by (metis (no_types, lifting) append_Nil filter.simps filter_append)
    with True show ?thesis by (simp add: active_attempt_def view)
  next
    case False
    with assms(2,3) none [of "ln_attempts l"] show ?thesis
      by (simp add: active_attempt_def view attempts_ok_def Let_def)
  qed
qed

lemma rows_put_last:
  assumes "distinct (map key xs)" and "xs \<noteq> []" and "key y = key (last xs)"
  shows "rows_put key y xs = butlast xs @ [y]"
proof -
  obtain ys z where xs: "xs = ys @ [z]" using assms(2) by (cases xs rule: rev_cases) auto
  then have "key y \<notin> key ` set ys" using assms by simp
  then have "rows_put key y ys = ys" by (intro rows_put_id) (metis imageI)
  with xs assms(3) show ?thesis by (simp add: rows_put_def)
qed

lemma attempts_distinct:
  assumes "lineage_ok l"
  shows "distinct (map att_key (ln_attempts l))"
proof -
  have "distinct (map att_sequence (ln_attempts l))"
    using assms by (auto simp: lineage_ok_def attempts_ok_def Let_def intro: contiguous_distinct)
  then show ?thesis by (auto simp: distinct_map att_key_def inj_on_def)
qed

lemma put_last_attempt_lineage:
  assumes "has_lineage d i l" and "distinct (map att_key (ln_attempts l))" and "ln_attempts l \<noteq> []"
    and "att_key (f (last (ln_attempts l))) = att_key (last (ln_attempts l))"
  shows "has_lineage (put_attempt (f (last (ln_attempts l))) d) i
           (l\<lparr>ln_attempts := map_last f (ln_attempts l)\<rparr>)"
    and "frame_at i d (put_attempt (f (last (ln_attempts l))) d)"
proof -
  have "last (ln_attempts l) \<in> set (attempts_at d i)"
    using assms(1,3) by (simp add: has_lineage_def)
  then have "att_run_id (last (ln_attempts l)) = i" by (simp add: attempts_at_def)
  then have run: "att_run_id (f (last (ln_attempts l))) = i"
    using assms(4) by (simp add: att_key_def)
  have "rows_put att_key (f (last (ln_attempts l))) (ln_attempts l) = map_last f (ln_attempts l)"
    using rows_put_last [OF assms(2,3,4)] assms(3) by (simp add: map_last_def)
  then show "has_lineage (put_attempt (f (last (ln_attempts l))) d) i
      (l\<lparr>ln_attempts := map_last f (ln_attempts l)\<rparr>)"
    "frame_at i d (put_attempt (f (last (ln_attempts l))) d)"
    using put_attempt_lineage [OF assms(1) run] by simp_all
qed

section \<open>Ending a run\<close>

lemma close_attempt_lineage:
  assumes "has_lineage d i l" and "lineage_ok l0" and "ln_attempts l0 = ln_attempts l"
    and "run_id run = i"
  shows "has_lineage (close_attempt run s now code d) i
           (l\<lparr>ln_attempts := close_active s now (Some code) (ln_attempts l)\<rparr>)"
    and "frame_at i d (close_attempt run s now code d)"
proof -
  have ok: "attempts_ok l0" using assms(2) by (simp add: lineage_ok_def)
  note act = active_attempt_lineage [OF assms(1) ok assms(3)]
  show "has_lineage (close_attempt run s now code d) i
           (l\<lparr>ln_attempts := close_active s now (Some code) (ln_attempts l)\<rparr>)"
    "frame_at i d (close_attempt run s now code d)"
  proof (atomize (full), cases "attempt_active (ln_status l0)")
    case True
    with ok assms(3) have as: "ln_attempts l \<noteq> []" "attempt_active (att_status (last (ln_attempts l)))"
      "list_all (\<lambda>a. terminal_status (att_status a)) (butlast (ln_attempts l))"
      by (auto simp: attempts_ok_def Let_def)
    have "distinct (map att_key (ln_attempts l))" using attempts_distinct [OF assms(2)] assms(3) by simp
    note put = put_last_attempt_lineage [OF assms(1) this as(1),
        of "terminal_attempt s now (Some code)"]
    then show "has_lineage (close_attempt run s now code d) i
           (l\<lparr>ln_attempts := close_active s now (Some code) (ln_attempts l)\<rparr>)
      \<and> frame_at i d (close_attempt run s now code d)"
      using True act assms(4) close_active_last [OF as]
      by (simp add: close_attempt_def att_key_def terminal_attempt_def)
  next
    case False
    with ok assms(3) have "close_active s now (Some code) (ln_attempts l) = ln_attempts l"
      by (simp add: close_active_terminal attempts_ok_def Let_def)
    with False act assms(1,4) show "has_lineage (close_attempt run s now code d) i
           (l\<lparr>ln_attempts := close_active s now (Some code) (ln_attempts l)\<rparr>)
      \<and> frame_at i d (close_attempt run s now code d)"
      by (simp add: close_attempt_def)
  qed
qed

lemma terminalize_run_lineage:
  assumes "has_lineage d i l" and "lineage_ok l" and "distinct (map job_id (jobs d))"
    and "terminal_status s" and "run_id run = i"
    and "run_workspace_id run = run_workspace_id (ln_run l)"
  obtains d' where "terminalize_run run s now code ty d = Inr (terminal_run s now code run, d')"
    and "has_lineage d' i (ended s now code ty (l\<lparr>ln_run := run\<rparr>))" and "frame_at i d d'"
proof -
  let ?run = "terminal_run s now code run" and ?job = "terminal_job (job_status_for s) now (ln_job l)"
  let ?l1 = "l\<lparr>ln_run := ?run\<rparr>"
  let ?l2 = "?l1\<lparr>ln_job := ?job\<rparr>"
  let ?l3 = "?l2\<lparr>ln_attempts := close_active s now (Some code) (ln_attempts l)\<rparr>"
  let ?d1 = "put_run ?run d"
  let ?d2 = "put_job ?job ?d1"
  let ?d3 = "close_attempt ?run s now code ?d2"
  let ?d4 = "append_next_event ?run ty s (Some code) now ?d3"
  have id: "run_id ?run = i" using assms(5) by (simp add: terminal_run_def)
  note p1 = put_run_lineage [OF assms(1) id]
  have dist: "distinct (map job_id (jobs ?d1))" using assms(3) by (simp add: put_run_def)
  have p2: "has_lineage ?d2 i ?l2" "frame_at i ?d1 ?d2"
    using put_job_lineage [OF p1(1) dist, of ?job] has_lineage_id [OF assms(1)]
    by (simp_all add: terminal_job_def)
  have p3: "has_lineage ?d3 i ?l3" "frame_at i ?d2 ?d3"
    using close_attempt_lineage [OF p2(1) assms(2) _ id, of s now code] by simp_all
  have p4: "has_lineage ?d4 i (?l3\<lparr>ln_events := ln_events ?l3 @ [next_event ty s (Some code) now ?l3]\<rparr>)"
    "frame_at i ?d3 ?d4"
    using append_next_event_lineage [OF p3(1) _ id, of ty s "Some code" now] assms(2)
    by (simp_all add: lineage_ok_def events_ok_def Let_def)
  have "job_for_run (run_id run) ?d1 = Some (ln_job l)"
    using job_for_run_lineage [OF p1(1)] assms(5) by simp
  then have "terminalize_run run s now code ty d = Inr (?run, ?d4)"
    using JobStatus_of_for [OF assms(4)] by (simp add: terminalize_run_def Let_def)
  moreover have "has_lineage ?d4 i (ended s now code ty (l\<lparr>ln_run := run\<rparr>))"
    using p4(1) by (simp add: ended_def next_event_def terminal_run_def)
  moreover have "frame_at i d ?d4" using p1(2) p2(2) p3(2) p4(2) frame_at_trans by blast
  ultimately show thesis by (rule that)
qed

section \<open>Moves of the whole ledger\<close>

text \<open>Every run has moved along its specification; none appeared or disappeared.\<close>

definition moved :: "db \<Rightarrow> db \<Rightarrow> bool" where
  "moved d d' \<longleftrightarrow> map job_id (jobs d') = map job_id (jobs d) \<and> map run_id (runs d') = map run_id (runs d)
     \<and> (\<forall>i. absent d i \<longrightarrow> absent d' i)
     \<and> (\<forall>i l. has_lineage d i l \<longrightarrow> (\<exists>l'. lineage_step\<^sup>*\<^sup>* l l' \<and> has_lineage d' i l'))"

lemma moved_refl [simp]: "moved d d"
  by (auto simp: moved_def)

lemma moved_trans: "moved d d' \<Longrightarrow> moved d' d'' \<Longrightarrow> moved d d''"
  unfolding moved_def by (metis rtranclp_trans)

lemma moved_ledger_ok: "moved d d' \<Longrightarrow> ledger_ok d \<Longrightarrow> ledger_ok d'"
  unfolding moved_def ledger_ok_def by (metis run_machine.steps_inv)

lemma frame_moved:
  assumes "has_lineage d i l" and "has_lineage d' i l'" and "lineage_step\<^sup>*\<^sup>* l l'" and "frame_at i d d'"
  shows "moved d d'"
  unfolding moved_def
proof (intro conjI allI impI)
  show "map job_id (jobs d') = map job_id (jobs d)" "map run_id (runs d') = map run_id (runs d)"
    using assms(4) by (simp_all add: frame_at_def)
next
  fix k assume "absent d k"
  with assms(1,4) show "absent d' k"
    by (metis frame_at_def has_lineage_not_absent same_at_absent)
next
  fix k m assume "has_lineage d k m"
  with assms show "\<exists>l'. lineage_step\<^sup>*\<^sup>* m l' \<and> has_lineage d' k l'"
    by (cases "k = i") (metis has_lineage_unique, metis frame_at_def rtranclp.rtrancl_refl same_at_lineage)
qed

text \<open>Tables the lineages do not read may change freely.\<close>

lemma same_tables_moved:
  assumes "runs d' = runs d" and "jobs d' = jobs d" and "run_attempts d' = run_attempts d"
    and "run_events d' = run_events d" and "run_results d' = run_results d"
  shows "moved d d'"
proof -
  have "same_at i d d'" for i using assms by (simp add: same_at_def view_defs)
  then have "absent d' i = absent d i" "has_lineage d' i l = has_lineage d i l" for i l
    by (simp_all add: same_at_absent same_at_lineage)
  then show ?thesis using assms(1,2) by (auto simp: moved_def)
qed

lemma ledger_only_frame:
  assumes "ledger_only d d'"
  shows "users d' = users d"
    and "workspaces d' = workspaces d"
    and "memberships d' = memberships d"
    and "secret_bindings d' = secret_bindings d"
    and "audit_events d' = audit_events d"
    and "connections d' = connections d"
    and "connection_versions d' = connection_versions d"
    and "capabilities d' = capabilities d"
    and "capability_versions d' = capability_versions d"
    and "tool_bindings d' = tool_bindings d"
    and "status_events d' = status_events d"
    and "discovery_payloads d' = discovery_payloads d"
    and "snapshots d' = snapshots d"
    and "snapshot_capabilities d' = snapshot_capabilities d"
    and "refresh_jobs d' = refresh_jobs d"
    and "execution_state d' = execution_state d"
    and "confirmation_nonces d' = confirmation_nonces d"
    and "idempotency_records d' = idempotency_records d"
    and "api_idempotency_records d' = api_idempotency_records d"
proof -
  define d1 where "d1 = d\<lparr>runs := runs d', jobs := jobs d', run_attempts := run_attempts d',
     run_events := run_events d', run_results := run_results d'\<rparr>"
  then have eq: "d' = d1" using assms unfolding ledger_only_def by blast
  show "users d' = users d"
    "workspaces d' = workspaces d"
    "memberships d' = memberships d"
    "secret_bindings d' = secret_bindings d"
    "audit_events d' = audit_events d"
    "connections d' = connections d"
    "connection_versions d' = connection_versions d"
    "capabilities d' = capabilities d"
    "capability_versions d' = capability_versions d"
    "tool_bindings d' = tool_bindings d"
    "status_events d' = status_events d"
    "discovery_payloads d' = discovery_payloads d"
    "snapshots d' = snapshots d"
    "snapshot_capabilities d' = snapshot_capabilities d"
    "refresh_jobs d' = refresh_jobs d"
    "execution_state d' = execution_state d"
    "confirmation_nonces d' = confirmation_nonces d"
    "idempotency_records d' = idempotency_records d"
    "api_idempotency_records d' = api_idempotency_records d"
    unfolding eq by (simp_all add: d1_def)
qed

section \<open>Loops over runs\<close>

text \<open>A loop whose body takes the lineage of each of a list of different runs from one known value
  to the next leaves all other runs alone and moves these.\<close>

lemma fold_lineages:
  fixes f :: "'r \<Rightarrow> db \<Rightarrow> svc_error + db"
  assumes "distinct (map key xs)" and "distinct (map job_id (jobs d))"
    and "\<And>x. x \<in> set xs \<Longrightarrow> has_lineage d (key x) (L x)"
    and body: "\<And>x d. x \<in> set xs \<Longrightarrow> has_lineage d (key x) (L x) \<Longrightarrow> distinct (map job_id (jobs d)) \<Longrightarrow>
      \<exists>d'. f x d = Inr d' \<and> has_lineage d' (key x) (L' x) \<and> frame_at (key x) d d'"
    and steps: "\<And>x. x \<in> set xs \<Longrightarrow> lineage_step\<^sup>*\<^sup>* (L x) (L' x)"
  shows "\<exists>d'. fold_res f xs d = Inr d' \<and> moved d d' \<and> ledger_only d d'
    \<and> (\<forall>x \<in> set xs. has_lineage d' (key x) (L' x)) \<and> (\<forall>k. k \<notin> key ` set xs \<longrightarrow> same_at k d d')"
  using assms
proof (induction xs arbitrary: d)
  case (Cons x xs)
  obtain d1 where d1: "f x d = Inr d1" "has_lineage d1 (key x) (L' x)" "frame_at (key x) d d1"
    using Cons.prems(4) [of x d] Cons.prems(2,3) by auto
  have other: "same_at k d d1" if "k \<noteq> key x" for k using d1(3) that by (simp add: frame_at_def)
  have ne: "key y \<noteq> key x" if "y \<in> set xs" for y
    using Cons.prems(1) that by (metis distinct.simps(2) image_eqI list.map(2) list.set_map)
  have "\<exists>d'. fold_res f xs d1 = Inr d' \<and> moved d1 d' \<and> ledger_only d1 d'
    \<and> (\<forall>x \<in> set xs. has_lineage d' (key x) (L' x)) \<and> (\<forall>k. k \<notin> key ` set xs \<longrightarrow> same_at k d1 d')"
  proof (rule Cons.IH)
    show "distinct (map key xs)" using Cons.prems(1) by simp
    show "distinct (map job_id (jobs d1))" using Cons.prems(2) d1(3) by (simp add: frame_at_def)
    show "has_lineage d1 (key y) (L y)" if "y \<in> set xs" for y
      using Cons.prems(3) [of y] other [OF ne [OF that]] that same_at_lineage by simp
    show "\<exists>d'. f y d = Inr d' \<and> has_lineage d' (key y) (L' y) \<and> frame_at (key y) d d'"
      if "y \<in> set xs" "has_lineage d (key y) (L y)" "distinct (map job_id (jobs d))" for y d
      using Cons.prems(4) that by simp
    show "lineage_step\<^sup>*\<^sup>* (L y) (L' y)" if "y \<in> set xs" for y using Cons.prems(5) that by simp
  qed
  then obtain d' where d': "fold_res f xs d1 = Inr d'" "moved d1 d'" "ledger_only d1 d'"
    "\<forall>x \<in> set xs. has_lineage d' (key x) (L' x)" "\<forall>k. k \<notin> key ` set xs \<longrightarrow> same_at k d1 d'" by blast
  have "moved d d1" using frame_moved [OF Cons.prems(3) d1(2) _ d1(3)] Cons.prems(5) by simp
  then have "moved d d'" using d'(2) moved_trans by blast
  moreover have "ledger_only d d'" using d1(3) d'(3) ledger_only_trans by (auto simp: frame_at_def)
  moreover have "key x \<notin> key ` set xs" using Cons.prems(1) by simp
  then have "has_lineage d' (key x) (L' x)" using d'(5) d1(2) same_at_lineage by blast
  ultimately show ?case
    using d1(1) d' other same_at_trans by auto blast
qed auto

end
