(* ===== verification/Exec_Ops.thy ===== *)
theory Exec_Ops
  imports Exec_Refine
begin

text \<open>
  The refinement, operation by operation: each operation of the execution service, run on a ledger
  whose lineages satisfy the invariant, moves them by steps of the specification; the operations
  that the service relies on not to fail are shown to return.
\<close>

section \<open>Rows of a good ledger\<close>

definition lineage_of :: "db \<Rightarrow> uuid \<Rightarrow> lineage" where
  "lineage_of d i = \<lparr>ln_run = hd (runs_at d i), ln_job = hd (jobs_at d i),
     ln_attempts = attempts_at d i, ln_events = events_at d i, ln_results = results_at d i\<rparr>"

lemma lineage_of_eq: "has_lineage d i l \<Longrightarrow> lineage_of d i = l"
  by (simp add: has_lineage_def lineage_of_def)

lemma ledger_ok_distinct_jobs: "ledger_ok d \<Longrightarrow> distinct (map job_id (jobs d))"
  by (simp add: ledger_ok_def)

lemma distinct_keys: "(\<And>i. length (filter (\<lambda>x. key x = i) xs) \<le> 1) \<Longrightarrow> distinct (map key xs)"
proof (induction xs)
  case (Cons x xs)
  have "length (filter (\<lambda>y. key y = key x) (x # xs)) \<le> 1" by (rule Cons.prems)
  then have "key x \<notin> key ` set xs" by (auto simp: filter_empty_conv)
  moreover have "length (filter (\<lambda>y. key y = i) xs) \<le> 1" for i
    using Cons.prems [of i] by (auto split: if_splits)
  ultimately show ?case using Cons.IH by simp
qed simp

lemma ledger_ok_distinct_runs: "ledger_ok d \<Longrightarrow> distinct (map run_id (runs d))"
proof (rule distinct_keys)
  fix i assume "ledger_ok d"
  then have "absent d i \<or> (\<exists>l. has_lineage d i l)" by (auto simp: ledger_ok_def)
  then have "length (runs_at d i) \<le> 1" by (auto simp: absent_def has_lineage_def)
  then show "length (filter (\<lambda>x. run_id x = i) (runs d)) \<le> 1" by (simp add: runs_at_def)
qed

lemma distinct_map_order_by_limit:
  assumes "distinct (map f xs)"
  shows "distinct (map f (order_by_limit g n (filter P xs)))"
proof -
  have "distinct (map f (sort_key g (filter P xs)))"
    using assms by (auto simp: distinct_map inj_on_def)
  then show ?thesis by (simp add: order_by_limit_def take_map [symmetric])
qed

lemma run_jobs_lineage:
  assumes "ledger_ok d" and "(r, j) \<in> set (run_jobs d)"
  shows "\<exists>l. has_lineage d (run_id r) l \<and> lineage_ok l \<and> ln_run l = r \<and> ln_job l = j"
proof -
  have rj: "r \<in> set (runs d)" "j \<in> set (jobs d)" "job_run_id j = run_id r"
    using assms(2) by (auto simp: run_jobs_def)
  obtain l where l: "has_lineage d (run_id r) l" "lineage_ok l" "ln_run l = r"
    using ledger_ok_lineage [OF assms(1) rj(1)] by blast
  obtain l' where l': "has_lineage d (job_run_id j) l'" "ln_job l' = j"
    using ledger_ok_job [OF assms(1) rj(2)] by blast
  have "l' = l" using has_lineage_unique l(1) l'(1) rj(3) by simp
  with l l' show ?thesis by blast
qed

lemma run_jobs_runs:
  assumes "ledger_ok d"
  shows "map fst (run_jobs d) = runs d"
proof -
  have "map fst (concat (map (\<lambda>r. map (Pair r) (filter (\<lambda>j. job_workspace_id j = run_workspace_id r
        \<and> job_run_id j = run_id r) (jobs d))) rs)) = rs" if "set rs \<subseteq> set (runs d)" for rs
    using that
  proof (induction rs)
    case (Cons r rs)
    then obtain l where l: "has_lineage d (run_id r) l" "lineage_ok l" "ln_run l = r"
      using ledger_ok_lineage [OF assms] by auto
    have "filter (\<lambda>j. job_workspace_id j = run_workspace_id r \<and> job_run_id j = run_id r) (jobs d)
        = filter (\<lambda>j. job_workspace_id j = run_workspace_id r) (jobs_at d (run_id r))"
      by (simp add: jobs_at_def) (metis conj_commute)
    also have "\<dots> = [ln_job l]"
      using l by (simp add: has_lineage_def lineage_ok_def keys_ok_def Let_def)
    finally show ?case using Cons by simp
  qed simp
  from this [of "runs d"] show ?thesis by (simp add: run_jobs_def)
qed

lemma distinct_run_jobs: "ledger_ok d \<Longrightarrow> distinct (map (\<lambda>(r, j). run_id r) (run_jobs d))"
  using ledger_ok_distinct_runs [of d] run_jobs_runs [of d]
  by (metis (no_types, lifting) case_prod_unfold comp_apply map_eq_conv map_map)

section \<open>Reconciliation\<close>

text \<open>The loop that ends a list of runs, with the accumulator taken out.\<close>

lemma terminalize_each_fold:
  "terminalize_each target code now rows d =
     and_then (fold_res (\<lambda>(run, job) d. map_sum id snd
                  (terminalize_run run (target run) now code TERMINAL d)) rows d)
       (\<lambda>d'. Inr (map (\<lambda>(run, job). reconciled_job run job (target run)) rows, d'))"
proof -
  have "fold_res (\<lambda>(run, job) (acc, d).
         and_then (terminalize_run run (target run) now code TERMINAL d)
           (\<lambda>(_, d'). Inr (acc @ [reconciled_job run job (target run)], d'))) rows (acc, d)
     = and_then (fold_res (\<lambda>(run, job) d. map_sum id snd
                  (terminalize_run run (target run) now code TERMINAL d)) rows d)
       (\<lambda>d'. Inr (acc @ map (\<lambda>(run, job). reconciled_job run job (target run)) rows, d'))" for acc
  proof (induction rows arbitrary: acc d)
    case (Cons x rows)
    obtain run job where "x = (run, job)" by (cases x)
    then show ?case
      by (cases "terminalize_run run (target run) now code TERMINAL d") (auto simp: Cons.IH)
  qed simp
  from this [of "[]"] show ?thesis by (simp add: terminalize_each_def)
qed

text \<open>Ending every run of a list of rows: the loop returns, ends exactly these runs and leaves the
  others alone.\<close>

lemma terminalize_runs_lineages:
  fixes run_of :: "'r \<Rightarrow> Run"
  assumes "ledger_ok d" and "distinct (map (\<lambda>x. run_id (run_of x)) rows)"
    and "\<And>x. x \<in> set rows \<Longrightarrow> run_of x \<in> set (runs d)"
    and "\<And>x. x \<in> set rows \<Longrightarrow> end_allowed (run_status (run_of x)) (target (run_of x)) code"
    and "ty \<in> {TERMINAL, CANCEL_REQUESTED, CONTENT_EXPIRED, RESTORE_RECONCILED}"
  obtains d' where "fold_res (\<lambda>x d. map_sum id snd
        (terminalize_run (run_of x) (target (run_of x)) now code ty d)) rows d = Inr d'"
    and "moved d d'" and "ledger_only d d'"
    and "\<And>x. x \<in> set rows \<Longrightarrow> has_lineage d' (run_id (run_of x))
           (ended (target (run_of x)) now code ty (lineage_of d (run_id (run_of x))))"
    and "\<And>k. k \<notin> (\<lambda>x. run_id (run_of x)) ` set rows \<Longrightarrow> same_at k d d'"
proof -
  let ?key = "\<lambda>x. run_id (run_of x)"
  let ?L = "\<lambda>x. lineage_of d (?key x)"
  let ?L' = "\<lambda>x. ended (target (run_of x)) now code ty (?L x)"
  have lin: "has_lineage d (?key x) (?L x) \<and> lineage_ok (?L x) \<and> ln_run (?L x) = run_of x"
    if x: "x \<in> set rows" for x
    using ledger_ok_lineage [OF assms(1) assms(3) [OF x]] lineage_of_eq by metis
  have "\<exists>d'. fold_res (\<lambda>x d. map_sum id snd
        (terminalize_run (run_of x) (target (run_of x)) now code ty d)) rows d = Inr d'
      \<and> moved d d' \<and> ledger_only d d' \<and> (\<forall>x \<in> set rows. has_lineage d' (?key x) (?L' x))
      \<and> (\<forall>k. k \<notin> ?key ` set rows \<longrightarrow> same_at k d d')"
  proof (rule fold_lineages [OF assms(2) ledger_ok_distinct_jobs [OF assms(1)]])
    show "has_lineage d (?key x) (?L x)" if "x \<in> set rows" for x using lin that by blast
  next
    fix x e assume x: "x \<in> set rows" and e: "has_lineage e (?key x) (?L x)" "distinct (map job_id (jobs e))"
    have "terminal_status (target (run_of x))"
      using assms(4) [OF x] by (auto simp: end_allowed_def split: if_splits)
    moreover have "run_workspace_id (run_of x) = run_workspace_id (ln_run (?L x))"
      using lin [OF x] by simp
    ultimately obtain e' where e': "terminalize_run (run_of x) (target (run_of x)) now code ty e
          = Inr (terminal_run (target (run_of x)) now code (run_of x), e')"
      "has_lineage e' (?key x) (ended (target (run_of x)) now code ty ((?L x)\<lparr>ln_run := run_of x\<rparr>))"
      "frame_at (?key x) e e'"
      using terminalize_run_lineage [OF e(1) _ e(2), of "target (run_of x)" "run_of x" now code ty]
        lin [OF x] by blast
    moreover have "(?L x)\<lparr>ln_run := run_of x\<rparr> = ?L x" using lin [OF x] by (metis lineage.surjective lineage.update_convs(1) lineage.select_convs(1))
    ultimately show "\<exists>d'. map_sum id snd (terminalize_run (run_of x) (target (run_of x)) now code ty e)
        = Inr d' \<and> has_lineage d' (?key x) (?L' x) \<and> frame_at (?key x) e d'"
      by simp
  next
    fix x assume x: "x \<in> set rows"
    show "lineage_step\<^sup>*\<^sup>* (?L x) (?L' x)"
      using lineage_step.finish [OF _ assms(5)] assms(4) [OF x] lin [OF x] by auto
  qed
  then show thesis using that by blast
qed

lemma active_job_status:
  "lineage_ok l \<Longrightarrow> job_status (ln_job l) = JobStatus.QUEUED \<or> job_status (ln_job l) = JobStatus.LEASED
     \<longleftrightarrow> active_status (ln_status l)"
  by (cases "ln_status l") (auto simp: lineage_ok_def lease_ok_def)

lemma end_allowed_deadline: "active_status s \<Longrightarrow> end_allowed s (deadline_status s) code"
  by (simp add: end_allowed_def deadline_status_def)

lemma expired_rows_mem:
  "x \<in> set (expired_rows limits locked now d) \<Longrightarrow> x \<in> set (run_jobs d)
     \<and> (job_status (snd x) = JobStatus.QUEUED \<or> job_status (snd x) = JobStatus.LEASED)
     \<and> job_deadline (snd x) \<le> now"
  unfolding expired_rows_def using set_order_by_limit by fastforce

lemma abandoned_rows_mem:
  "x \<in> set (abandoned_rows limits locked now d) \<Longrightarrow> x \<in> set (run_jobs d)
     \<and> run_status (fst x) = RunStatus.DISPATCH_FENCED"
  unfolding abandoned_rows_def using set_order_by_limit by fastforce

lemma terminalize_expired_jobs_moved:
  assumes "ledger_ok d"
  obtains acc d' where "terminalize_expired_jobs limits locked now d = Inr (acc, d')"
    and "moved d d'" and "ledger_only d d'"
proof -
  let ?rows = "expired_rows limits locked now d"
  have dist: "distinct (map (\<lambda>x. run_id (fst x)) ?rows)"
    unfolding expired_rows_def
    using distinct_map_order_by_limit [OF distinct_run_jobs [OF assms]]
    by (simp add: case_prod_unfold)
  have rows: "fst x \<in> set (runs d) \<and> end_allowed (run_status (fst x)) (deadline_status (run_status (fst x))) DEADLINE_EXCEEDED"
    if x: "x \<in> set ?rows" for x
  proof -
    obtain l where l: "has_lineage d (run_id (fst x)) l" "lineage_ok l" "ln_run l = fst x" "ln_job l = snd x"
      using run_jobs_lineage [OF assms, of "fst x" "snd x"] expired_rows_mem [OF x] by auto
    then have "active_status (run_status (fst x))"
      using active_job_status [OF l(2)] expired_rows_mem [OF x] by simp
    with l has_lineage_mem [OF l(1)] show ?thesis by (simp add: end_allowed_deadline)
  qed
  obtain d' where "fold_res (\<lambda>x d. map_sum id snd (terminalize_run (fst x)
        (deadline_status (run_status (fst x))) now DEADLINE_EXCEEDED TERMINAL d)) ?rows d = Inr d'"
    "moved d d'" "ledger_only d d'"
    by (rule terminalize_runs_lineages [OF assms dist, of "\<lambda>r. deadline_status (run_status r)"
          DEADLINE_EXCEEDED TERMINAL now]) (use rows in auto)
  then show thesis
    using that by (simp add: terminalize_expired_jobs_def terminalize_each_fold case_prod_unfold)
qed

lemma terminalize_abandoned_dispatches_moved:
  assumes "ledger_ok d"
  obtains acc d' where "terminalize_abandoned_dispatches limits locked now d = Inr (acc, d')"
    and "moved d d'" and "ledger_only d d'"
proof -
  let ?rows = "abandoned_rows limits locked now d"
  have dist: "distinct (map (\<lambda>x. run_id (fst x)) ?rows)"
    unfolding abandoned_rows_def
    using distinct_map_order_by_limit [OF distinct_run_jobs [OF assms]]
    by (simp add: case_prod_unfold)
  have rows: "fst x \<in> set (runs d) \<and> end_allowed (run_status (fst x)) RunStatus.INDETERMINATE WORKER_LOST_AFTER_DISPATCH"
    if x: "x \<in> set ?rows" for x
    using run_jobs_lineage [OF assms, of "fst x" "snd x"] abandoned_rows_mem [OF x] has_lineage_mem
    by (fastforce simp: end_allowed_def)
  obtain d' where "fold_res (\<lambda>x d. map_sum id snd (terminalize_run (fst x)
        RunStatus.INDETERMINATE now WORKER_LOST_AFTER_DISPATCH TERMINAL d)) ?rows d = Inr d'"
    "moved d d'" "ledger_only d d'"
    by (rule terminalize_runs_lineages [OF assms dist, of "\<lambda>r. RunStatus.INDETERMINATE"
          WORKER_LOST_AFTER_DISPATCH TERMINAL now]) (use rows in auto)
  then show thesis
    using that by (simp add: terminalize_abandoned_dispatches_def terminalize_each_fold case_prod_unfold)
qed

section \<open>Claiming\<close>

lemma close_lost_attempt_lineage:
  assumes "has_lineage d i l" and "lineage_ok l"
  shows "has_lineage (close_lost_attempt (ln_run l) (ln_job l) now d) i (lost now l)"
    and "frame_at i d (close_lost_attempt (ln_run l) (ln_job l) now d)"
proof -
  let ?f = "terminal_attempt RunStatus.FAILED now (Some WORKER_LOST_BEFORE_DISPATCH)"
  have ok: "attempts_ok l" "lease_ok l" "events_ok l" using assms(2) by (auto simp: lineage_ok_def)
  have id: "run_id (ln_run l) = i" using has_lineage_id [OF assms(1)] by simp
  show "has_lineage (close_lost_attempt (ln_run l) (ln_job l) now d) i (lost now l)"
    "frame_at i d (close_lost_attempt (ln_run l) (ln_job l) now d)"
  proof (atomize (full), cases "job_status (ln_job l) = JobStatus.LEASED")
    case True
    then have act: "attempt_active (ln_status l)" using ok(2) by (simp add: lease_ok_def attempt_active_iff)
    with ok(1) have as: "ln_attempts l \<noteq> []" "attempt_active (att_status (last (ln_attempts l)))"
      "list_all (\<lambda>a. terminal_status (att_status a)) (butlast (ln_attempts l))"
      by (auto simp: attempts_ok_def Let_def)
    let ?d1 = "put_attempt (?f (last (ln_attempts l))) d"
    let ?l1 = "l\<lparr>ln_attempts := map_last ?f (ln_attempts l)\<rparr>"
    have p1: "has_lineage ?d1 i ?l1" "frame_at i d ?d1"
      using put_last_attempt_lineage [OF assms(1) attempts_distinct [OF assms(2)] as(1), of ?f]
      by (simp_all add: att_key_def terminal_attempt_def)
    have p2: "has_lineage (append_next_event (ln_run l) RunEventType.LEASE_LOST (ln_status l)
          (Some WORKER_LOST_BEFORE_DISPATCH) now ?d1) i (lost now l)"
      "frame_at i ?d1 (append_next_event (ln_run l) RunEventType.LEASE_LOST (ln_status l)
          (Some WORKER_LOST_BEFORE_DISPATCH) now ?d1)"
      using append_next_event_lineage [OF p1(1) _ id, of RunEventType.LEASE_LOST "ln_status l"
          "Some WORKER_LOST_BEFORE_DISPATCH" now] ok(3) True
      by (simp_all add: events_ok_def Let_def lost_def next_event_def close_active_last [OF as])
    show "has_lineage (close_lost_attempt (ln_run l) (ln_job l) now d) i (lost now l)
      \<and> frame_at i d (close_lost_attempt (ln_run l) (ln_job l) now d)"
      using p2(1) frame_at_trans [OF p1(2) p2(2)] True act active_attempt_lineage [OF assms(1) ok(1) refl] id
      by (simp add: close_lost_attempt_def)
  next
    case False
    with assms(1) show "has_lineage (close_lost_attempt (ln_run l) (ln_job l) now d) i (lost now l)
      \<and> frame_at i d (close_lost_attempt (ln_run l) (ln_job l) now d)"
      by (simp add: close_lost_attempt_def lost_def)
  qed
qed

lemma grant_lease_lineage:
  assumes "has_lineage d i l" and "lineage_ok l" and "distinct (map job_id (jobs d))"
    and "active_status (ln_status l)"
  obtains d' where "grant_lease worker dur now (ln_run l) (ln_job l) d
      = (lease_of (ln_run l) (ln_job (claimed worker dur now l)) worker
           (min (now + dur) (job_deadline (ln_job l))), d')"
    and "has_lineage d' i (claimed worker dur now l)" and "frame_at i d d'"
proof -
  let ?l1 = "lost now l" and ?d1 = "close_lost_attempt (ln_run l) (ln_job l) now d"
  let ?job = "leased_job worker dur now (ln_job l)"
  let ?d2 = "put_job ?job ?d1"
  let ?l2 = "?l1\<lparr>ln_job := ?job\<rparr>"
  let ?a = "new_attempt (ln_run l) ?job now ?d2"
  let ?d3 = "add_attempt ?a ?d2"
  let ?l3 = "?l2\<lparr>ln_attempts := ln_attempts ?l2 @ [?a]\<rparr>"
  let ?run = "(ln_run l)\<lparr>run_status := RunStatus.PREPARING, run_updated_at := now\<rparr>"
  let ?d4 = "put_run ?run ?d3"
  let ?l4 = "?l3\<lparr>ln_run := ?run\<rparr>"
  let ?d5 = "append_next_event ?run ATTEMPT_STARTED RunStatus.PREPARING None now ?d4"
  note f = lost_facts [OF assms(2,4), of now]
  have id: "run_id (ln_run l) = i" "job_run_id (ln_job l) = i" using has_lineage_id [OF assms(1)] by auto
  note p1 = close_lost_attempt_lineage [OF assms(1,2), of now]
  have dist: "distinct (map job_id (jobs ?d1))" using assms(3) p1(2) by (simp add: frame_at_def)
  have p2: "has_lineage ?d2 i ?l2" "frame_at i ?d1 ?d2"
    using put_job_lineage [OF p1(1) dist, of ?job] f(2) id(2) by (simp_all add: leased_job_def)
  have "attempts_at ?d2 i = ln_attempts ?l1" using p2(1) by (simp add: has_lineage_def)
  moreover have "contiguous (map att_sequence (ln_attempts ?l1))"
    using f(7) assms(2) by (simp add: lineage_ok_def attempts_ok_def Let_def)
  ultimately have a: "?a = attempt_of ?l1 now"
    using next_sequence_contiguous [of "map att_sequence (ln_attempts ?l1)"] id f(1,2)
    by (simp add: new_attempt_def attempt_of_def attempts_at_def leased_job_def)
  have p3: "has_lineage ?d3 i ?l3" "frame_at i ?d2 ?d3"
    using add_attempt_lineage [OF p2(1), of ?a] id by (simp_all add: new_attempt_def)
  have p4: "has_lineage ?d4 i ?l4" "frame_at i ?d3 ?d4"
    using put_run_lineage [OF p3(1), of ?run] id by simp_all
  have p5: "has_lineage ?d5 i (?l4\<lparr>ln_events := ln_events ?l4
        @ [next_event ATTEMPT_STARTED RunStatus.PREPARING None now ?l4]\<rparr>)" "frame_at i ?d4 ?d5"
    using append_next_event_lineage [OF p4(1), of ?run ATTEMPT_STARTED RunStatus.PREPARING None now]
      f(9) id by (simp_all add: events_ok_def Let_def)
  have "grant_lease worker dur now (ln_run l) (ln_job l) d
      = (lease_of (ln_run l) (ln_job (claimed worker dur now l)) worker
           (min (now + dur) (job_deadline (ln_job l))), ?d5)"
    using f(2) by (simp add: grant_lease_def Let_def claimed_def)
  moreover have "?l4\<lparr>ln_events := ln_events ?l4
        @ [next_event ATTEMPT_STARTED RunStatus.PREPARING None now ?l4]\<rparr> = claimed worker dur now l"
    using f(1,2) by (intro lineage.equality) (simp_all add: claimed_def Let_def a next_event_def)
  then have "has_lineage ?d5 i (claimed worker dur now l)" using p5(1) by simp
  moreover have "frame_at i d ?d5"
    using p1(2) p2(2) p3(2) p4(2) p5(2) frame_at_trans by blast
  ultimately show thesis by (rule that)
qed

lemma claim_candidate_lineage:
  assumes "ledger_ok d" and "claim_candidate st locked now d = Some run"
  obtains l where "has_lineage d (run_id run) l" and "lineage_ok l" and "ln_run l = run"
    and "claimable st locked now run (ln_job l)"
proof -
  obtain j where rj: "first_row (order_by_limit (\<lambda>(r, j). (job_created_at j, job_id j)) 1
       (filter (\<lambda>(r, j). claimable st locked now r j) (run_jobs d))) = Some (run, j)"
    using assms(2) by (auto simp: claim_candidate_def)
  then have "(run, j) \<in> set (filter (\<lambda>(r, j). claimable st locked now r j) (run_jobs d))"
    using first_row_Some set_order_by_limit by (metis (no_types, lifting) in_mono)
  then show thesis using run_jobs_lineage [OF assms(1), of run j] that by auto
qed

lemma claim_run_moved:
  assumes "has_lineage d (run_id run) l" and "lineage_ok l" and "ln_run l = run" and "ledger_ok d"
    and "claimable st locked now run (ln_job l)" and "length worker \<le> 128"
  obtains x d' where "claim_run worker dur clock run rec d = Inr (x, d')"
    and "moved d d'" and "ledger_only d d'"
    and "fst x = None \<or> (has_lineage d' (run_id run) (claimed worker dur (clock 3) l)
      \<and> fst x = Some (lease_of run (ln_job (claimed worker dur (clock 3) l)) worker
            (min (clock 3 + dur) (job_deadline (ln_job l))))
      \<and> clock 3 < job_deadline (ln_job l) \<and> claim_target_is_current run d)"
proof -
  let ?i = "run_id run"
  note dist = ledger_ok_distinct_jobs [OF assms(4)]
  have st: "ln_status l \<in> {RunStatus.QUEUED, RunStatus.PREPARING, RunStatus.SESSION_FENCED}"
    and act: "active_status (ln_status l)"
    using assms(3,5) by (auto simp: claimable_def)
  have job: "job_for_run ?i d = Some (ln_job l)" using job_for_run_lineage [OF assms(1)] .
  have upd: "l\<lparr>ln_run := run\<rparr> = l" using assms(3) by (cases l) simp
  have give_up: "\<exists>d'. terminalize_run run s t code TERMINAL d = Inr (terminal_run s t code run, d')
      \<and> moved d d' \<and> ledger_only d d'"
    if "s = RunStatus.TIMED_OUT \<or> s = RunStatus.FAILED \<and> code = PREPARATION_FAILED" for s t code
  proof -
    have e: "end_allowed (ln_status l) s code" "terminal_status s"
      using that st act by (auto simp: end_allowed_def)
    obtain d' where "terminalize_run run s t code TERMINAL d = Inr (terminal_run s t code run, d')"
      "has_lineage d' ?i (ended s t code TERMINAL l)" "frame_at ?i d d'"
      using terminalize_run_lineage [OF assms(1,2) dist e(2) refl, of t code TERMINAL] assms(3) upd
      by metis
    moreover have "lineage_step l (ended s t code TERMINAL l)" using e(1) by (intro lineage_step.finish) auto
    ultimately show ?thesis using frame_moved [OF assms(1)] by (fastforce simp: frame_at_def)
  qed
  show thesis
  proof (cases "job_deadline (ln_job l) \<le> clock 2 \<or> job_deadline (ln_job l) \<le> clock 3
      \<or> \<not> claim_target_is_current run d")
    case True
    then have "\<exists>y d'. claim_run worker dur clock run rec d = Inr ((None, y), d') \<and> moved d d' \<and> ledger_only d d'"
      using give_up [of RunStatus.TIMED_OUT DEADLINE_EXCEEDED "clock 2"]
        give_up [of RunStatus.TIMED_OUT DEADLINE_EXCEEDED "clock 3"]
        give_up [of RunStatus.FAILED PREPARATION_FAILED "clock 3"]
      by (auto simp: claim_run_def job Let_def split: if_splits)
    then show thesis using that by fastforce
  next
    case False
    obtain d' where d': "grant_lease worker dur (clock 3) (ln_run l) (ln_job l) d
      = (lease_of (ln_run l) (ln_job (claimed worker dur (clock 3) l)) worker
           (min (clock 3 + dur) (job_deadline (ln_job l))), d')"
      "has_lineage d' ?i (claimed worker dur (clock 3) l)" "frame_at ?i d d'"
      by (rule grant_lease_lineage [OF assms(1,2) dist act])
    have "moved d d'"
      using frame_moved [OF assms(1) d'(2) _ d'(3)] lineage_step.claim [OF st assms(6)] by auto
    with False d' assms(3) show thesis
      by (intro that [of "(Some (lease_of run (ln_job (claimed worker dur (clock 3) l)) worker
           (min (clock 3 + dur) (job_deadline (ln_job l)))), rec)" d'])
        (auto simp: claim_run_def job Let_def frame_at_def)
  qed
qed

lemma execution_state_row_tables:
  "execution_state_row now d = (st, d') \<Longrightarrow> \<exists>x. d' = d\<lparr>execution_state := x\<rparr> \<and> x = Some st
     \<and> (execution_state d = None \<or> x = execution_state d)"
  by (cases d) (auto simp: execution_state_row_def Let_def split: option.splits)

lemma execution_state_row_moved: "execution_state_row now d = (st, d') \<Longrightarrow> moved d d'"
  by (frule execution_state_row_tables) (auto intro!: same_tables_moved)

text \<open>What every operation on existing runs does to the database: all runs move along their
  specification, the execution state row may be created, an audit row may be added, and nothing else
  changes.\<close>

definition served :: "db \<Rightarrow> db \<Rightarrow> bool" where
  "served d d' \<longleftrightarrow> moved d d' \<and> (\<exists>x a. ledger_only (d\<lparr>execution_state := x, audit_events := a\<rparr>) d'
     \<and> (x = execution_state d \<or> execution_state d = None
          \<and> (\<exists>t. x = Some \<lparr>ses_execution_epoch = 1, ses_dispatch_quarantined = False,
                            ses_updated_at = t\<rparr>)))"

lemma served_after_state:
  assumes "execution_state_row now d = (st, d0)" and "moved d0 d'" and "ledger_only d0 d'"
  shows "served d d'"
proof -
  obtain x where x: "d0 = d\<lparr>execution_state := x\<rparr>"
    "x = execution_state d \<or> execution_state d = None \<and> x = Some \<lparr>ses_execution_epoch = 1,
       ses_dispatch_quarantined = False, ses_updated_at = now\<rparr>"
    using assms(1) by (cases d) (auto simp: execution_state_row_def Let_def split: option.splits)
  then have "d0 = d\<lparr>execution_state := x, audit_events := audit_events d\<rparr>" by simp
  moreover have "moved d d'"
    using execution_state_row_moved [OF assms(1)] assms(2) by (rule moved_trans)
  ultimately show ?thesis using assms(3) x(2) unfolding served_def by blast
qed

lemma served_plain:
  assumes "moved d d'" and "ledger_only d d'"
  shows "served d d'"
proof -
  have "ledger_only (d\<lparr>execution_state := execution_state d, audit_events := audit_events d\<rparr>) d'"
    using assms(2) by simp
  with assms(1) show ?thesis unfolding served_def by blast
qed

lemma served_moved: "served d d' \<Longrightarrow> moved d d'"
  by (simp add: served_def)

lemma served_audit: "served d d' \<Longrightarrow> served d (add_audit a d')"
proof -
  assume "served d d'"
  then obtain x b where *: "moved d d'" "ledger_only (d\<lparr>execution_state := x, audit_events := b\<rparr>) d'"
    "x = execution_state d \<or> execution_state d = None \<and> (\<exists>t. x = Some \<lparr>ses_execution_epoch = 1,
       ses_dispatch_quarantined = False, ses_updated_at = t\<rparr>)"
    by (auto simp: served_def)
  have "moved d' (add_audit a d')" by (rule same_tables_moved) (simp_all add: add_audit_def)
  then have "moved d (add_audit a d')" using *(1) moved_trans by blast
  moreover have "ledger_only (d\<lparr>execution_state := x, audit_events := audit_events d' @ [a]\<rparr>) (add_audit a d')"
    using *(2) unfolding ledger_only_def add_audit_def by (cases d; cases d') simp
  ultimately show ?thesis using *(3) unfolding served_def by blast
qed

lemma served_frame:
  assumes "served d d'"
  shows "confirmation_nonces d' = confirmation_nonces d" "idempotency_records d' = idempotency_records d"
    "memberships d' = memberships d" "workspaces d' = workspaces d" "connections d' = connections d"
    "capabilities d' = capabilities d"
proof -
  obtain x b where "ledger_only (d\<lparr>execution_state := x, audit_events := b\<rparr>) d'"
    using assms by (auto simp: served_def)
  from ledger_only_frame [OF this] show "confirmation_nonces d' = confirmation_nonces d"
    "idempotency_records d' = idempotency_records d"
    "memberships d' = memberships d" "workspaces d' = workspaces d" "connections d' = connections d"
    "capabilities d' = capabilities d" by simp_all
qed

lemma served_state:
  "served d d' \<Longrightarrow> execution_state d' = execution_state d
     \<or> execution_state d = None \<and> (\<exists>t. execution_state d' = Some \<lparr>ses_execution_epoch = 1,
          ses_dispatch_quarantined = False, ses_updated_at = t\<rparr>)"
  by (auto simp: served_def dest!: ledger_only_frame(16))

lemma claim_job_served:
  assumes "claim_job limits locked clock worker dur d = Inr (x, d')" and "ledger_ok d"
  shows "served d d'"
proof -
  obtain st d0 where st: "execution_state_row (clock 1) d = (st, d0)" by (cases "execution_state_row (clock 1) d")
  have m0: "moved d d0" "ledger_ok d0"
    using execution_state_row_moved [OF st] moved_ledger_ok assms(2) by auto
  obtain a1 d1 where d1: "terminalize_expired_jobs limits locked (clock 0) d0 = Inr (a1, d1)" "moved d0 d1" "ledger_only d0 d1"
    by (rule terminalize_expired_jobs_moved [OF m0(2)])
  then have ok1: "ledger_ok d1" using moved_ledger_ok m0(2) by blast
  obtain a2 d2 where d2: "terminalize_abandoned_dispatches limits locked (clock 0) d1 = Inr (a2, d2)" "moved d1 d2" "ledger_only d1 d2"
    by (rule terminalize_abandoned_dispatches_moved [OF ok1])
  then have ok2: "ledger_ok d2" using moved_ledger_ok ok1 by blast
  have "moved d2 d' \<and> ledger_only d2 d'"
  proof (cases "claim_candidate st locked (clock 0) d2")
    case None
    with assms(1) st d1 d2 show ?thesis by (auto simp: claim_job_def Let_def split: if_splits)
  next
    case (Some run)
    obtain l where l: "has_lineage d2 (run_id run) l" "lineage_ok l" "ln_run l = run"
      "claimable st locked (clock 0) run (ln_job l)"
      by (rule claim_candidate_lineage [OF ok2 Some])
    have w: "length worker \<le> 128" using assms(1) by (auto simp: claim_job_def split: if_splits)
    obtain y e where "claim_run worker dur clock run (a1 @ a2) d2 = Inr (y, e)" "moved d2 e" "ledger_only d2 e"
      by (rule claim_run_moved [OF l(1-3) ok2 l(4) w])
    with assms(1) st d1 d2 Some show ?thesis by (auto simp: claim_job_def Let_def split: if_splits)
  qed
  then have "moved d0 d'" "ledger_only d0 d'"
    using d1(2,3) d2(2,3) moved_trans ledger_only_trans by blast+
  then show ?thesis by (rule served_after_state [OF st])
qed

section \<open>Worker operations\<close>

lemma locked_lease_lineage_Inr:
  assumes "locked_lease_lineage lease d = Inr (run, job)" and "ledger_ok d"
  obtains l where "has_lineage d (lease_run_id lease) l" and "lineage_ok l" and "ln_run l = run"
    and "ln_job l = job" and "job_id job = lease_job_id lease"
proof -
  have job: "job \<in> set (jobs d)" "job_id job = lease_job_id lease" "job_run_id job = lease_run_id lease"
    and run: "run \<in> set (runs d)" "run_id run = lease_run_id lease"
    using assms(1)
    by (auto simp: locked_lease_lineage_def locked_job_def and_then_Inr
        dest!: first_row_filter_Some split: option.splits if_splits)
  obtain l where "has_lineage d (lease_run_id lease) l" "lineage_ok l" "ln_run l = run"
    using ledger_ok_lineage [OF assms(2) run(1)] run(2) by auto
  moreover obtain l' where "has_lineage d (lease_run_id lease) l'" "ln_job l' = job"
    using ledger_ok_job [OF assms(2) job(1)] job(3) by auto
  ultimately show thesis using that job(2) has_lineage_unique by blast
qed

lemma fence_attempt_lineage:
  assumes "fence_attempt lease expected target ty clock d = Inr (run', d')" and "ledger_ok d"
  obtains l d0 st where "execution_state_row (clock 0) d = (st, d0)"
    and "has_lineage d0 (lease_run_id lease) l" and "lineage_ok l"
    and "may_fence st lease expected (clock 1) (ln_run l) (ln_job l) d0"
    and "list_ex (\<lambda>w. ws_id w = lease_workspace_id lease) (workspaces d0)"
    and "attempt_active (ln_status l)"
    and "run' = ln_run (fenced target ty (clock 1) l)"
    and "has_lineage d' (lease_run_id lease) (fenced target ty (clock 1) l)"
    and "frame_at (lease_run_id lease) d0 d'" and "job_id (ln_job l) = lease_job_id lease"
proof -
  obtain st d0 where st: "execution_state_row (clock 0) d = (st, d0)" by (cases "execution_state_row (clock 0) d")
  have ok0: "ledger_ok d0" using execution_state_row_moved [OF st] moved_ledger_ok assms(2) by auto
  obtain run job attempt where rj: "locked_lease_lineage lease d0 = Inr (run, job)"
    and mf: "may_fence st lease expected (clock 1) run job d0"
    and ws: "list_ex (\<lambda>w. ws_id w = lease_workspace_id lease) (workspaces d0)"
    and att: "active_attempt (run_id run) d0 = Some attempt"
    and run': "run' = run\<lparr>run_status := target, run_updated_at := clock 1\<rparr>"
    and d': "d' = append_next_event run' ty target None (clock 1)
        (put_attempt (attempt\<lparr>att_status := target\<rparr>) (put_run run' d0))"
    using assms(1) st
    by (auto simp: fence_attempt_def Let_def and_then_Inr split: if_splits option.splits)
  let ?i = "lease_run_id lease"
  obtain l where l: "has_lineage d0 ?i l" "lineage_ok l" "ln_run l = run" "ln_job l = job"
    "job_id job = lease_job_id lease"
    by (rule locked_lease_lineage_Inr [OF rj ok0])
  have ok: "attempts_ok l" "events_ok l" using l(2) by (auto simp: lineage_ok_def)
  have id: "run_id run = ?i" using has_lineage_id [OF l(1)] l(3) by simp
  note act = active_attempt_lineage [OF l(1) ok(1) refl]
  then have active: "attempt_active (ln_status l)" and att': "attempt = last (ln_attempts l)"
    using att id by (auto split: if_splits)
  have ne: "ln_attempts l \<noteq> []" using ok(1) active by (auto simp: attempts_ok_def Let_def)
  let ?l1 = "l\<lparr>ln_run := run'\<rparr>"
  have p1: "has_lineage (put_run run' d0) ?i ?l1" "frame_at ?i d0 (put_run run' d0)"
    using put_run_lineage [OF l(1), of run'] id run' by simp_all
  let ?d2 = "put_attempt (attempt\<lparr>att_status := target\<rparr>) (put_run run' d0)"
  let ?l2 = "?l1\<lparr>ln_attempts := map_last (\<lambda>a. a\<lparr>att_status := target\<rparr>) (ln_attempts l)\<rparr>"
  have p2: "has_lineage ?d2 ?i ?l2" "frame_at ?i (put_run run' d0) ?d2"
    using put_last_attempt_lineage [OF p1(1), of "\<lambda>a. a\<lparr>att_status := target\<rparr>"]
      attempts_distinct [OF l(2)] ne att' by (simp_all add: att_key_def)
  have p3: "has_lineage d' ?i (?l2\<lparr>ln_events := ln_events ?l2 @ [next_event ty target None (clock 1) ?l2]\<rparr>)"
    "frame_at ?i ?d2 d'"
    using append_next_event_lineage [OF p2(1), of run' ty target None "clock 1"] ok(2) id run' d'
    by (simp_all add: events_ok_def Let_def)
  have "?l2\<lparr>ln_events := ln_events ?l2 @ [next_event ty target None (clock 1) ?l2]\<rparr>
      = fenced target ty (clock 1) l"
    using run' l(3) by (intro lineage.equality) (simp_all add: fenced_def next_event_def)
  with p3(1) have "has_lineage d' ?i (fenced target ty (clock 1) l)" by simp
  moreover have "frame_at ?i d0 d'" using p1(2) p2(2) p3(2) frame_at_trans by blast
  ultimately show thesis
    using that [OF st l(1,2)] mf ws active run' l by (simp add: fenced_def)
qed

lemma fence_served:
  assumes "fence_attempt lease expected target ty clock d = Inr (run', d')" and "ledger_ok d"
    and "(expected, target, ty) \<in> {(RunStatus.PREPARING, RunStatus.SESSION_FENCED, RunEventType.SESSION_FENCED),
       (RunStatus.SESSION_FENCED, RunStatus.DISPATCH_FENCED, RunEventType.DISPATCH_FENCED)}"
  shows "served d d'"
proof -
  obtain l d0 st where f: "execution_state_row (clock 0) d = (st, d0)"
    "has_lineage d0 (lease_run_id lease) l" "lineage_ok l"
    "may_fence st lease expected (clock 1) (ln_run l) (ln_job l) d0"
    "has_lineage d' (lease_run_id lease) (fenced target ty (clock 1) l)"
    "frame_at (lease_run_id lease) d0 d'"
    by (rule fence_attempt_lineage [OF assms(1,2)])
  have "lineage_step l (fenced target ty (clock 1) l)"
    using f(4) assms(3) by (auto simp: may_fence_def intro: lineage_step.intros)
  then have "moved d0 d'" using frame_moved [OF f(2,5) _ f(6)] by auto
  then show ?thesis using served_after_state [OF f(1)] f(6) by (simp add: frame_at_def)
qed

lemma fence_session_served: "fence_session lease clock d = Inr (run', d') \<Longrightarrow> ledger_ok d \<Longrightarrow> served d d'"
  unfolding fence_session_def by (erule fence_served) auto

lemma fence_dispatch_served: "fence_dispatch lease clock d = Inr (run', d') \<Longrightarrow> ledger_ok d \<Longrightarrow> served d d'"
  unfolding fence_dispatch_def by (erule fence_served) auto

lemma heartbeat_served:
  assumes "heartbeat lease dur clock d = Inr (lease', d')" and "ledger_ok d"
  shows "served d d'"
proof -
  obtain st d0 where st: "execution_state_row (clock 0) d = (st, d0)" by (cases "execution_state_row (clock 0) d")
  have ok0: "ledger_ok d0" using execution_state_row_moved [OF st] moved_ledger_ok assms(2) by auto
  obtain run job where rj: "locked_lease_lineage lease d0 = Inr (run, job)" and h: "holds_lease lease job"
    and d': "d' = put_job (job\<lparr>job_lease_expires_at := Some (min (clock 1 + dur) (job_deadline job))\<rparr>) d0"
    using assms(1) st by (auto simp: heartbeat_def Let_def and_then_Inr split: if_splits)
  obtain l where l: "has_lineage d0 (lease_run_id lease) l" "lineage_ok l" "ln_job l = job"
    using locked_lease_lineage_Inr [OF rj ok0] by metis
  let ?job = "job\<lparr>job_lease_expires_at := Some (min (clock 1 + dur) (job_deadline job))\<rparr>"
  have p: "has_lineage d' (lease_run_id lease) (l\<lparr>ln_job := ?job\<rparr>)" "frame_at (lease_run_id lease) d0 d'"
    using put_job_lineage [OF l(1) ledger_ok_distinct_jobs [OF ok0], of ?job] l has_lineage_id [OF l(1)] d'
    by simp_all
  have "lineage_step l (l\<lparr>ln_job := ?job\<rparr>)"
    using lineage_step.beat [of l "min (clock 1 + dur) (job_deadline job)"] h l(3)
    by (simp add: holds_lease_def)
  then have "moved d0 d'" using frame_moved [OF l(1) p(1) _ p(2)] by auto
  then show ?thesis using served_after_state [OF st] p(2) by (simp add: frame_at_def)
qed

text \<open>A completion either records the worker's outcome or, past the deadline, ends the run as the
  deadline prescribes.\<close>

lemma complete_lease_lineage:
  assumes "complete_lease lease s code clock d = Inr (run', d')" and "ledger_ok d"
  obtains l l' d0 st where "execution_state_row (clock 0) d = (st, d0)"
    and "has_lineage d0 (lease_run_id lease) l" and "lineage_ok l"
    and "ses_execution_epoch st = lease_execution_epoch lease" and "holds_lease lease (ln_job l)"
    and "job_id (ln_job l) = lease_job_id lease"
    and "lineage_step l l'" and "has_lineage d' (lease_run_id lease) l'"
    and "frame_at (lease_run_id lease) d0 d'" and "run' = ln_run l'"
    and "job_deadline (ln_job l) \<le> clock 1 \<and> l' = ended (deadline_status (ln_status l)) (clock 1)
           DEADLINE_EXCEEDED TERMINAL l
       \<or> clock 1 < job_deadline (ln_job l) \<and> unexpired (clock 1) (ln_job l)
         \<and> valid_worker_completion (ln_run l) (last (ln_attempts l)) s code
         \<and> l' = completed s code (clock 1) l"
proof -
  let ?i = "lease_run_id lease" and ?now = "clock 1"
  obtain st d0 where st: "execution_state_row (clock 0) d = (st, d0)" by (cases "execution_state_row (clock 0) d")
  have ok0: "ledger_ok d0" using execution_state_row_moved [OF st] moved_ledger_ok assms(2) by auto
  obtain run job where rj: "locked_lease_lineage lease d0 = Inr (run, job)"
    using assms(1) st by (auto simp: complete_lease_def Let_def and_then_Inr split: if_splits)
  obtain l where l: "has_lineage d0 ?i l" "lineage_ok l" "ln_run l = run" "ln_job l = job"
    "job_id job = lease_job_id lease"
    by (rule locked_lease_lineage_Inr [OF rj ok0])
  have g: "terminal_status s" "ses_execution_epoch st = lease_execution_epoch lease" "holds_lease lease job"
    "\<not> terminal_status (run_status run)"
    using assms(1) st rj by (auto simp: complete_lease_def Let_def split: if_splits)
  have ok: "attempts_ok l" "events_ok l" using l(2) by (auto simp: lineage_ok_def)
  have id: "run_id run = ?i" using has_lineage_id [OF l(1)] l(3) by simp
  show thesis
  proof (cases "job_deadline job \<le> ?now")
    case True
    let ?s = "deadline_status (ln_status l)"
    have e: "end_allowed (ln_status l) ?s DEADLINE_EXCEEDED" "terminal_status ?s"
      using g(4) l(3) end_allowed_deadline by (auto simp: active_iff_not_terminal deadline_status_def end_allowed_def)
    have "l\<lparr>ln_run := run\<rparr> = l" using l(3) by (cases l) simp
    then obtain e' where "terminalize_run run ?s ?now DEADLINE_EXCEEDED TERMINAL d0
        = Inr (terminal_run ?s ?now DEADLINE_EXCEEDED run, e')"
      "has_lineage e' ?i (ended ?s ?now DEADLINE_EXCEEDED TERMINAL l)" "frame_at ?i d0 e'"
      using terminalize_run_lineage [OF l(1,2) ledger_ok_distinct_jobs [OF ok0] e(2) id,
          of ?now DEADLINE_EXCEEDED TERMINAL] l(3) by metis
    moreover have "terminalize_run run ?s ?now DEADLINE_EXCEEDED TERMINAL d0 = Inr (run', d')"
      using assms(1) st rj True l(3) by (auto simp: complete_lease_def Let_def split: if_splits)
    ultimately have fin: "run' = ln_run (ended ?s ?now DEADLINE_EXCEEDED TERMINAL l)"
      "has_lineage d' ?i (ended ?s ?now DEADLINE_EXCEEDED TERMINAL l)" "frame_at ?i d0 d'"
      using l(3) by (simp_all add: ended_def)
    have "lineage_step l (ended ?s ?now DEADLINE_EXCEEDED TERMINAL l)"
      by (rule lineage_step.finish [OF e(1)]) simp
    then show thesis
      using that [OF st l(1,2) g(2) _ _ _ fin(2,3,1)] g(3) l(4,5) True by blast
  next
    case False
    obtain attempt js where v: "active_attempt (run_id run) d0 = Some attempt" "unexpired ?now job"
      "valid_worker_completion run attempt s code" "JobStatus_of s = Some js"
      and run': "run' = run\<lparr>run_status := s, run_safe_error_code := code, run_updated_at := ?now,
                  run_terminal_at := Some ?now\<rparr>"
      and d': "d' = append_next_event run' TERMINAL s code ?now (put_job (terminal_job js ?now job)
               (put_attempt (terminal_attempt s ?now code attempt) (put_run run' d0)))"
      using assms(1) st rj False
      by (auto simp: complete_lease_def Let_def split: if_splits option.splits)
    have act: "attempt_active (ln_status l)" "attempt = last (ln_attempts l)"
      using active_attempt_lineage [OF l(1) ok(1) refl] v(1) id by (auto split: if_splits)
    have ne: "ln_attempts l \<noteq> []" using ok(1) act by (auto simp: attempts_ok_def Let_def)
    have js: "js = job_status_for s" using v(4) JobStatus_of_for [OF g(1)] by simp
    let ?d1 = "put_run run' d0" and ?l1 = "l\<lparr>ln_run := run'\<rparr>"
    have p1: "has_lineage ?d1 ?i ?l1" "frame_at ?i d0 ?d1"
      using put_run_lineage [OF l(1), of run'] id run' by simp_all
    let ?d2 = "put_attempt (terminal_attempt s ?now code attempt) ?d1"
    let ?l2 = "?l1\<lparr>ln_attempts := map_last (terminal_attempt s ?now code) (ln_attempts l)\<rparr>"
    have p2: "has_lineage ?d2 ?i ?l2" "frame_at ?i ?d1 ?d2"
      using put_last_attempt_lineage [OF p1(1), of "terminal_attempt s ?now code"]
        attempts_distinct [OF l(2)] ne act(2) by (simp_all add: att_key_def terminal_attempt_def)
    let ?d3 = "put_job (terminal_job js ?now job) ?d2" and ?l3 = "?l2\<lparr>ln_job := terminal_job js ?now job\<rparr>"
    have "distinct (map job_id (jobs ?d2))"
      using ledger_ok_distinct_jobs [OF ok0] p1(2) p2(2) by (simp add: frame_at_def)
    then have p3: "has_lineage ?d3 ?i ?l3" "frame_at ?i ?d2 ?d3"
      using put_job_lineage [OF p2(1), of "terminal_job js ?now job"] l(4) has_lineage_id [OF l(1)]
      by (simp_all add: terminal_job_def)
    have p4: "has_lineage d' ?i (?l3\<lparr>ln_events := ln_events ?l3 @ [next_event TERMINAL s code ?now ?l3]\<rparr>)"
      "frame_at ?i ?d3 d'"
      using append_next_event_lineage [OF p3(1), of run' TERMINAL s code ?now] ok(2) id run' d'
      by (simp_all add: events_ok_def Let_def)
    have "?l3\<lparr>ln_events := ln_events ?l3 @ [next_event TERMINAL s code ?now ?l3]\<rparr> = completed s code ?now l"
      using run' l(3,4) js by (intro lineage.equality) (simp_all add: completed_def next_event_def)
    with p4(1) have fin: "has_lineage d' ?i (completed s code ?now l)" by simp
    have "frame_at ?i d0 d'" using p1(2) p2(2) p3(2) p4(2) frame_at_trans by blast
    moreover have val: "valid_worker_completion (ln_run l) (last (ln_attempts l)) s code"
      using v(3) act(2) l(3) by simp
    moreover have "lineage_step l (completed s code ?now l)"
      by (rule lineage_step.complete [OF act(1) val])
    moreover have "run' = ln_run (completed s code ?now l)" using run' l(3) by (simp add: completed_def)
    ultimately show thesis
      using that [OF st l(1,2), of "completed s code ?now l"] g l False v(2) fin by simp
  qed
qed

lemma complete_lease_served:
  assumes "complete_lease lease s code clock d = Inr (run', d')" and "ledger_ok d"
  shows "served d d'"
proof -
  obtain l l' d0 st where f: "execution_state_row (clock 0) d = (st, d0)"
    "has_lineage d0 (lease_run_id lease) l" "lineage_step l l'"
    "has_lineage d' (lease_run_id lease) l'" "frame_at (lease_run_id lease) d0 d'"
    by (rule complete_lease_lineage [OF assms])
  then have "moved d0 d'" using frame_moved [OF f(2,4) _ f(5)] by auto
  then show ?thesis using served_after_state [OF f(1)] f(5) by (simp add: frame_at_def)
qed

lemma add_result_lineage:
  assumes "has_lineage d i l" and "res_run_id res = i" and "ln_results l = []"
  shows "has_lineage (d\<lparr>run_results := run_results d @ [res]\<rparr>) i (l\<lparr>ln_results := [res]\<rparr>)"
    and "frame_at i d (d\<lparr>run_results := run_results d @ [res]\<rparr>)"
  using assms by (simp_all add: has_lineage_def frame_at_def same_at_def ledger_only_def view_defs)

lemma served_then:
  "served d d' \<Longrightarrow> moved d' d'' \<Longrightarrow> ledger_only d' d'' \<Longrightarrow> served d d''"
  unfolding served_def using moved_trans ledger_only_trans by blast

lemma complete_invocation_success_served:
  assumes "complete_invocation_success ext limits lease result clock d = Inr (run', d')" and "ledger_ok d"
  shows "served d d'"
proof -
  obtain e where e: "complete_lease lease RunStatus.SUCCEEDED None clock d = Inr (run', e)"
    using assms(1) by (auto simp: complete_invocation_success_def and_then_Inr Let_def split: if_splits)
  have same: "d' = e" if "run_status run' \<noteq> RunStatus.SUCCEEDED"
    using assms(1) e that by (auto simp: complete_invocation_success_def split: if_splits)
  have stored: "\<exists>res. res_run_id res = run_id run' \<and> res_workspace_id res = run_workspace_id run'
        \<and> d' = e\<lparr>run_results := run_results e @ [res]\<rparr>" if "run_status run' = RunStatus.SUCCEEDED"
    using assms(1) e that
    by (intro exI [of _ "last (run_results d')"])
      (auto simp: complete_invocation_success_def Let_def split: if_splits)
  have m: "served d e" by (rule complete_lease_served [OF e assms(2)])
  obtain l l' d0 st where f: "lineage_ok l" "lineage_step l l'" "has_lineage e (lease_run_id lease) l'"
    "run' = ln_run l'" "holds_lease lease (ln_job l)"
    "(\<exists>s t c ty. l' = ended s t c ty l) \<or> (\<exists>s c t. l' = completed s c t l)"
    by (rule complete_lease_lineage [OF e assms(2)]) blast
  show ?thesis
  proof (cases "run_status run' = RunStatus.SUCCEEDED")
    case True
    then obtain res where res: "res_run_id res = run_id run'" "res_workspace_id res = run_workspace_id run'"
      "d' = e\<lparr>run_results := run_results e @ [res]\<rparr>" using stored by auto
    have "ln_results l = []"
      using f(1,5) by (cases "ln_results l") (auto simp: lineage_ok_def results_ok_def lease_ok_def holds_lease_def)
    then have nores: "ln_results l' = []"
      using f(6) by (auto simp: completed_def ended_def)
    have id: "res_run_id res = lease_run_id lease"
      using res(1) f(4) has_lineage_id [OF f(3)] by simp
    note p = add_result_lineage [OF f(3) id nores]
    have "lineage_step l' (l'\<lparr>ln_results := [res]\<rparr>)"
      using True f(4) nores res(1,2) by (intro lineage_step.store) auto
    then have "moved e d'" using frame_moved [OF f(3) p(1) _ p(2)] res(3) by auto
    with m show ?thesis using served_then p(2) res(3) by (simp add: frame_at_def)
  qed (use same m in auto)
qed

section \<open>Control operations\<close>

lemma cancel_run_served:
  assumes "cancel_run ctx i corr fresh clock d = Inr (run', d')" and "ledger_ok d"
  shows "served d d'"
proof -
  let ?now = "clock 0"
  obtain run where run: "run \<in> set (runs d)" "run_id run = i" "locked_run (ctx_workspace_id ctx) i d = Inr run"
    using assms(1)
    by (auto simp: cancel_run_def and_then_Inr locked_run_def split: option.splits dest!: first_row_filter_Some)
  obtain l where l: "has_lineage d i l" "lineage_ok l" "ln_run l = run"
    using ledger_ok_lineage [OF assms(2) run(1)] run(2) by auto
  let ?run1 = "run\<lparr>run_cancellation_requested := True\<rparr>"
  let ?l1 = "l\<lparr>ln_run := ?run1\<rparr>"
  note dist = ledger_ok_distinct_jobs [OF assms(2)]
  show ?thesis
  proof (cases "terminal_status (run_status run)")
    case True
    with assms(1) run(3) show ?thesis by (auto simp: cancel_run_def and_then_Inr Let_def intro: served_plain)
  next
    case False
    then have act: "active_status (ln_status l)" using l(3) by (simp add: active_iff_not_terminal)
    have s1: "lineage_step l ?l1" using lineage_step.request_cancel [OF act] l(3) by simp
    have ending: "served d e" if t: "terminalize_run ?run1 s ?now code ty d = Inr (r, e)"
      and e: "end_allowed (ln_status l) s code" "ty \<in> {TERMINAL, CANCEL_REQUESTED}" for s code ty r e
    proof -
      have "terminal_status s" using e(1) by (auto simp: end_allowed_def split: if_splits)
      then obtain e' where "terminalize_run ?run1 s ?now code ty d = Inr (terminal_run s ?now code ?run1, e')"
        "has_lineage e' i (ended s ?now code ty ?l1)" "frame_at i d e'"
        using terminalize_run_lineage [OF l(1,2) dist, of s ?run1 ?now code ty] run(2) l(3) by auto
      moreover have "lineage_step ?l1 (ended s ?now code ty ?l1)"
        using e l(3) by (intro lineage_step.finish) auto
      moreover from this have "lineage_step\<^sup>*\<^sup>* l (ended s ?now code ty ?l1)"
        using s1 by (meson converse_rtranclp_into_rtranclp rtranclp.rtrancl_refl)
      ultimately have "moved d e" "ledger_only d e"
        using frame_moved [OF l(1)] t by (metis Inr_inject prod.inject, simp add: frame_at_def)
      then show ?thesis by (rule served_plain)
    qed
    have noting: "served d (append_next_event (?run1\<lparr>run_updated_at := ?now\<rparr>) CANCEL_REQUESTED
        (run_status run) None ?now (put_run (?run1\<lparr>run_updated_at := ?now\<rparr>) d))" (is "served d ?e")
      if st: "run_status run = RunStatus.DISPATCH_FENCED"
    proof -
      let ?run2 = "?run1\<lparr>run_updated_at := ?now\<rparr>"
      let ?l2 = "l\<lparr>ln_run := ?run2\<rparr>"
      have p: "has_lineage (put_run ?run2 d) i ?l2" "frame_at i d (put_run ?run2 d)"
        using put_run_lineage [OF l(1), of ?run2] run(2) by simp_all
      have q: "has_lineage ?e i (noted CANCEL_REQUESTED None ?now ?l2)" "frame_at i (put_run ?run2 d) ?e"
        using append_next_event_lineage [OF p(1), of ?run2 CANCEL_REQUESTED "run_status run" None ?now]
          l(2,3) run(2) by (simp_all add: lineage_ok_def events_ok_def Let_def noted_def)
      have "lineage_step ?l1 ?l2" using lineage_step.touch [of ?l1 ?now] by simp
      moreover have "lineage_step ?l2 (noted CANCEL_REQUESTED None ?now ?l2)"
        using st by (intro lineage_step.note_cancel) simp
      ultimately have "lineage_step\<^sup>*\<^sup>* l (noted CANCEL_REQUESTED None ?now ?l2)"
        using s1 by (meson converse_rtranclp_into_rtranclp rtranclp.rtrancl_refl)
      moreover have "frame_at i d ?e" using p(2) q(2) by (rule frame_at_trans)
      ultimately have "moved d ?e" "ledger_only d ?e"
        using frame_moved [OF l(1) q(1)] by (auto simp: frame_at_def)
      then show ?thesis by (rule served_plain)
    qed
    have "\<exists>e a. d' = add_audit a e \<and> served d e"
    proof (cases "run_deadline run \<le> ?now")
      case True
      then obtain r e a where "d' = add_audit a e"
        "terminalize_run ?run1 (deadline_status (run_status run)) ?now DEADLINE_EXCEEDED TERMINAL d = Inr (r, e)"
        using assms(1) run(3) False by (auto simp: cancel_run_def and_then_Inr Let_def)
      then show ?thesis
        using ending [of "deadline_status (run_status run)" DEADLINE_EXCEEDED TERMINAL r e]
          end_allowed_deadline act l(3) by auto
    next
      case nd: False
      show ?thesis
      proof (cases "run_status run = RunStatus.DISPATCH_FENCED")
        case True
        with assms(1) run(3) False nd noting show ?thesis
          by (auto simp: cancel_run_def and_then_Inr Let_def)
      next
        case ndf: False
        then have q: "run_status run = RunStatus.QUEUED \<or> run_status run = RunStatus.PREPARING
            \<or> run_status run = RunStatus.SESSION_FENCED"
          using False by (cases "run_status run") auto
        then obtain r e a where "d' = add_audit a e"
          "terminalize_run ?run1 RunStatus.CANCELLED ?now CANCELLED_BEFORE_DISPATCH CANCEL_REQUESTED d = Inr (r, e)"
          using assms(1) run(3) False nd by (auto simp: cancel_run_def and_then_Inr Let_def)
        then show ?thesis
          using ending [of RunStatus.CANCELLED CANCELLED_BEFORE_DISPATCH CANCEL_REQUESTED r e] q l(3) act
          by (auto simp: end_allowed_def)
      qed
    qed
    then obtain e a where "d' = add_audit a e" "served d e" by blast
    then show ?thesis using served_audit by simp
  qed
qed

lemma restore_status_allowed: "active_status s \<Longrightarrow> end_allowed s (restore_status s) code"
  by (simp add: end_allowed_def restore_status_def)

lemma unreconciled_rows_mem:
  "r \<in> set (unreconciled_rows n locked d) \<Longrightarrow> r \<in> set (runs d) \<and> active_status (run_status r)"
  unfolding unreconciled_rows_def using set_order_by_limit by fastforce

text \<open>One reconciliation batch returns, and ends exactly the runs of the batch.\<close>

lemma reconcile_batch:
  assumes "ledger_ok d"
  obtains d' where "fold_res (\<lambda>run d. map_sum id snd (terminalize_run run
        (restore_status (run_status run)) now RESTORE_RECONCILIATION RESTORE_RECONCILED d))
        (unreconciled_rows n locked d) d = Inr d'"
    and "moved d d'" and "ledger_only d d'"
    and "\<And>r. r \<in> set (unreconciled_rows n locked d) \<Longrightarrow> has_lineage d' (run_id r)
           (ended (restore_status (run_status r)) now RESTORE_RECONCILIATION RESTORE_RECONCILED
              (lineage_of d (run_id r)))"
    and "\<And>k. k \<notin> run_id ` set (unreconciled_rows n locked d) \<Longrightarrow> same_at k d d'"
proof -
  let ?rows = "unreconciled_rows n locked d"
  have dist: "distinct (map (\<lambda>x. run_id x) ?rows)"
    unfolding unreconciled_rows_def
    by (rule distinct_map_order_by_limit) (use ledger_ok_distinct_runs [OF assms] in simp)
  show thesis
    by (rule terminalize_runs_lineages [OF assms dist, of "\<lambda>r. restore_status (run_status r)"
          RESTORE_RECONCILIATION RESTORE_RECONCILED now])
      (use unreconciled_rows_mem restore_status_allowed that in auto)
qed

lemma reconcile_restore_quarantine_served:
  assumes "reconcile_restore_quarantine auth n locked clock d = Inr (k, d')" and "ledger_ok d"
  shows "served d d'"
proof -
  obtain st d0 where st: "execution_state_row (clock 0) d = (st, d0)" by (cases "execution_state_row (clock 0) d")
  have m0: "moved d d0" "ledger_ok d0"
    using execution_state_row_moved [OF st] moved_ledger_ok assms(2) by auto
  obtain e where "fold_res (\<lambda>run d. map_sum id snd (terminalize_run run
        (restore_status (run_status run)) (clock 1) RESTORE_RECONCILIATION RESTORE_RECONCILED d))
        (unreconciled_rows (nat n) locked d0) d0 = Inr e" "moved d0 e" "ledger_only d0 e"
    by (rule reconcile_batch [OF m0(2)])
  with assms(1) st have "e = d'"
    by (auto simp: reconcile_restore_quarantine_def and_then_Inr Let_def split: if_splits)
  with \<open>moved d0 e\<close> \<open>ledger_only d0 e\<close> show ?thesis using served_after_state [OF st] by simp
qed

lemma enter_restore_quarantine_moved:
  "enter_restore_quarantine auth clock d = Inr (k, d') \<Longrightarrow> moved d d'"
  by (auto simp: enter_restore_quarantine_def and_then_Inr Let_def split: prod.splits
      dest!: execution_state_row_tables intro!: same_tables_moved)

lemma clear_restore_quarantine_moved:
  "clear_restore_quarantine auth clock d = Inr (k, d') \<Longrightarrow> moved d d'"
  by (auto simp: clear_restore_quarantine_def and_then_Inr Let_def split: prod.splits if_splits
      dest!: execution_state_row_tables intro!: same_tables_moved)

section \<open>Retention\<close>

definition content_expired :: "instant \<Rightarrow> lineage \<Rightarrow> lineage" where
  "content_expired now l =
     (let l1 = (if terminal_status (ln_status l)
                then noted CONTENT_EXPIRED (run_safe_error_code (ln_run l)) now l
                else ended (deadline_status (ln_status l)) now CONTENT_RETENTION_DEADLINE
                       CONTENT_EXPIRED l)
      in l1\<lparr>ln_run := without_content now (ln_run l1)\<rparr>)"

lemma expire_content_of_lineage:
  assumes "has_lineage d i l" and "lineage_ok l" and "distinct (map job_id (jobs d))" and "ln_run l = run"
  shows "\<exists>d'. expire_content_of now run d = Inr d' \<and> has_lineage d' i (content_expired now l)
    \<and> frame_at i d d'"
proof -
  have id: "run_id run = i" using has_lineage_id [OF assms(1)] assms(4) by simp
  have upd: "l\<lparr>ln_run := run\<rparr> = l" using assms(4) by (cases l) simp
  have strip: "has_lineage (put_run (without_content now (ln_run m)) e) i
      (m\<lparr>ln_run := without_content now (ln_run m)\<rparr>) \<and> frame_at i d (put_run (without_content now (ln_run m)) e)"
    if "has_lineage e i m" "frame_at i d e" for e m
    using put_run_lineage [OF that(1), of "without_content now (ln_run m)"] has_lineage_id [OF that(1)]
      that(2) frame_at_trans by (auto simp: without_content_def)
  show ?thesis
  proof (cases "terminal_status (run_status run)")
    case True
    let ?e = "append_next_event run CONTENT_EXPIRED (run_status run) (run_safe_error_code run) now d"
    let ?m = "noted CONTENT_EXPIRED (run_safe_error_code run) now l"
    have "has_lineage ?e i ?m" "frame_at i d ?e"
      using append_next_event_lineage [OF assms(1) _ id, of CONTENT_EXPIRED "run_status run"
          "run_safe_error_code run" now] assms(2,4)
      by (simp_all add: lineage_ok_def events_ok_def Let_def noted_def)
    from strip [OF this] True assms(4) show ?thesis
      by (auto simp: expire_content_of_def content_expired_def Let_def noted_def)
  next
    case False
    let ?s = "deadline_status (run_status run)"
    have "terminal_status ?s" by (simp add: deadline_status_def)
    then obtain e where e: "terminalize_run run ?s now CONTENT_RETENTION_DEADLINE CONTENT_EXPIRED d
        = Inr (terminal_run ?s now CONTENT_RETENTION_DEADLINE run, e)"
      "has_lineage e i (ended ?s now CONTENT_RETENTION_DEADLINE CONTENT_EXPIRED l)" "frame_at i d e"
      using terminalize_run_lineage [OF assms(1-3) _ id, of ?s now CONTENT_RETENTION_DEADLINE CONTENT_EXPIRED]
        assms(4) upd by metis
    from strip [OF e(2,3)] e(1) False assms(4) show ?thesis
      by (auto simp: expire_content_of_def content_expired_def Let_def ended_def)
  qed
qed

lemma content_expired_steps: "lineage_step\<^sup>*\<^sup>* l (content_expired now l)"
proof (cases "terminal_status (ln_status l)")
  case True
  let ?m = "noted CONTENT_EXPIRED (run_safe_error_code (ln_run l)) now l"
  have "lineage_step l ?m" using True by (rule lineage_step.note_expired)
  moreover have "lineage_step ?m (content_expired now l)"
    using lineage_step.strip [of ?m now] True by (simp add: content_expired_def Let_def noted_def)
  ultimately show ?thesis by (meson converse_rtranclp_into_rtranclp rtranclp.rtrancl_refl)
next
  case False
  let ?s = "deadline_status (ln_status l)"
  let ?m = "ended ?s now CONTENT_RETENTION_DEADLINE CONTENT_EXPIRED l"
  have "lineage_step l ?m"
    using False end_allowed_deadline by (intro lineage_step.finish) (auto simp: active_iff_not_terminal)
  moreover have "terminal_status (ln_status ?m)" by (simp add: ended_def terminal_run_def deadline_status_def)
  then have "lineage_step ?m (content_expired now l)"
    using lineage_step.strip [of ?m now] False by (simp add: content_expired_def Let_def)
  ultimately show ?thesis by (meson converse_rtranclp_into_rtranclp rtranclp.rtrancl_refl)
qed

lemma content_expired_rows_mem:
  "r \<in> set (content_expired_rows n locked now d) \<Longrightarrow> r \<in> set (runs d) \<and> run_arguments_expires_at r \<le> now"
  unfolding content_expired_rows_def using set_order_by_limit by fastforce

text \<open>The content pass returns; it strips exactly the runs of its batch.\<close>

lemma expire_retained_content_batch:
  assumes "ledger_ok d" and "\<not> invalid_batch n"
  obtains d' where "expire_retained_content n locked clock d
      = Inr (length (content_expired_rows (nat n) locked (clock 0) d), d')"
    and "moved d d'" and "ledger_only d d'"
    and "\<And>r. r \<in> set (content_expired_rows (nat n) locked (clock 0) d) \<Longrightarrow>
           has_lineage d' (run_id r) (content_expired (clock 0) (lineage_of d (run_id r)))"
    and "\<And>k. k \<notin> run_id ` set (content_expired_rows (nat n) locked (clock 0) d) \<Longrightarrow> same_at k d d'"
proof -
  let ?rows = "content_expired_rows (nat n) locked (clock 0) d"
  have dist: "distinct (map run_id ?rows)"
    unfolding content_expired_rows_def
    by (rule distinct_map_order_by_limit) (rule ledger_ok_distinct_runs [OF assms(1)])
  have lin: "has_lineage d (run_id r) (lineage_of d (run_id r)) \<and> lineage_ok (lineage_of d (run_id r))
      \<and> ln_run (lineage_of d (run_id r)) = r" if "r \<in> set ?rows" for r
    using ledger_ok_lineage [OF assms(1)] content_expired_rows_mem [OF that] lineage_of_eq by metis
  have "\<exists>d'. fold_res (expire_content_of (clock 0)) ?rows d = Inr d' \<and> moved d d' \<and> ledger_only d d'
    \<and> (\<forall>r \<in> set ?rows. has_lineage d' (run_id r) (content_expired (clock 0) (lineage_of d (run_id r))))
    \<and> (\<forall>k. k \<notin> run_id ` set ?rows \<longrightarrow> same_at k d d')"
    using lin expire_content_of_lineage content_expired_steps
    by (intro fold_lineages [OF dist ledger_ok_distinct_jobs [OF assms(1)]]) auto
  then show thesis
    using that assms(2) by (auto simp: expire_retained_content_def Let_def)
qed

lemma expire_retained_content_served:
  "expire_retained_content n locked clock d = Inr (k, d') \<Longrightarrow> ledger_ok d \<Longrightarrow> served d d'"
  by (cases "invalid_batch n")
    (simp add: expire_retained_content_def,
      metis expire_retained_content_batch Inr_inject prod.inject served_plain)

lemma filter_results_lineage:
  assumes "has_lineage d i l" and "lineage_ok l"
  shows "\<exists>l'. lineage_step\<^sup>*\<^sup>* l l' \<and> has_lineage (d\<lparr>run_results := filter (\<lambda>r. res_run_id r \<notin> ids) (run_results d)\<rparr>) i l'"
proof -
  have view: "results_at (d\<lparr>run_results := filter (\<lambda>r. res_run_id r \<notin> ids) (run_results d)\<rparr>) i
      = (if i \<in> ids then [] else results_at d i)"
    by (auto simp: results_at_def filter_empty_conv intro: filter_cong)
  show ?thesis
  proof (cases "i \<in> ids")
    case True
    with assms(1) view have "has_lineage (d\<lparr>run_results := filter (\<lambda>r. res_run_id r \<notin> ids) (run_results d)\<rparr>) i
        (l\<lparr>ln_results := []\<rparr>)"
      by (simp add: has_lineage_def runs_at_def jobs_at_def attempts_at_def events_at_def)
    then show ?thesis using lineage_step.drop_result [of l] by blast
  next
    case False
    with assms(1) view have "has_lineage (d\<lparr>run_results := filter (\<lambda>r. res_run_id r \<notin> ids) (run_results d)\<rparr>) i l"
      by (simp add: has_lineage_def runs_at_def jobs_at_def attempts_at_def events_at_def)
    then show ?thesis by blast
  qed
qed

end
