(* ===== verification/Exec_Machine.thy ===== *)
theory Exec_Machine
  imports Exec_Ops
begin

text \<open>
  The execution service as a transition system: admission and deletion refine the specification
  too, every public operation is a step, and the invariant of the whole ledger (lineages, epochs,
  nonces, idempotency records, active-run limit) is kept by every step. Other components may change
  their own tables at any time; the rule \<open>environment\<close> stands for them.
\<close>

section \<open>Deletion\<close>

lemma expire_retained_results_served:
  assumes "expire_retained_results n locked clock d = Inr (k, d')" and "ledger_ok d"
  shows "served d d'"
proof -
  define ids where "ids = set (result_expired_ids (nat n) locked (clock 0) d)"
  let ?e = "d\<lparr>run_results := filter (\<lambda>r. res_run_id r \<notin> ids) (run_results d)\<rparr>"
  have "d' = ?e \<or> d' = d"
    using assms(1) by (auto simp: expire_retained_results_def Let_def ids_def split: if_splits)
  moreover have "moved d ?e"
  proof -
    have "absent ?e i" if "absent d i" for i
      using that by (simp add: absent_def view_defs filter_empty_conv)
    moreover have "\<exists>l'. lineage_step\<^sup>*\<^sup>* l l' \<and> has_lineage ?e i l'" if "has_lineage d i l" for i l
    proof -
      have "lineage_ok l"
        using assms(2) that has_lineage_unique has_lineage_not_absent by (auto simp: ledger_ok_def) blast
      then show ?thesis by (rule filter_results_lineage [OF that])
    qed
    ultimately show ?thesis by (simp add: moved_def)
  qed
  moreover have "ledger_only d ?e" by (simp add: ledger_only_def)
  ultimately show ?thesis using served_plain [of d d'] by auto
qed

text \<open>Some terminal runs disappear with every row that belongs to them; the others stay.\<close>

definition deleted :: "uuid set \<Rightarrow> db \<Rightarrow> db \<Rightarrow> bool" where
  "deleted ids d d' \<longleftrightarrow> (\<forall>i \<in> ids. absent d' i) \<and> (\<forall>i. i \<notin> ids \<longrightarrow> same_at i d d')"

lemma filter_other: "filter (\<lambda>x. f x = i) (filter (\<lambda>x. f x \<notin> ids) xs)
    = (if i \<in> ids then [] else filter (\<lambda>x. f x = i) xs)"
  by (auto simp: filter_empty_conv intro: filter_cong)

lemma delete_runs_deleted: "deleted (set ids) d (delete_runs ids d)"
  by (auto simp: deleted_def absent_def same_at_def view_defs delete_runs_def filter_other
      simp del: filter_filter)

lemma deleted_ledger_ok:
  assumes "deleted ids d d'" and "ledger_ok d" and "distinct (map job_id (jobs d'))"
  shows "ledger_ok d'"
  unfolding ledger_ok_def
proof (intro conjI allI)
  fix i
  show "absent d' i \<or> (\<exists>l. has_lineage d' i l \<and> lineage_ok l)"
    using assms(1,2) same_at_absent same_at_lineage unfolding deleted_def ledger_ok_def by blast
qed (rule assms(3))

lemma delete_runs_ledger_ok: "ledger_ok d \<Longrightarrow> ledger_ok (delete_runs ids d)"
  by (rule deleted_ledger_ok [OF delete_runs_deleted])
    (auto simp: delete_runs_def ledger_ok_def distinct_map inj_on_def)

lemma delete_expired_run_metadata_Inr:
  assumes "delete_expired_run_metadata limits n locked clock d = Inr (k, d')"
  obtains ids where "d' = delete_runs ids d" and "set ids \<subseteq> {run_id r |r. r \<in> set (runs d)
    \<and> (\<exists>t. run_terminal_at r = Some t \<and> t \<le> clock 0 - days (run_retention_days limits))}"
    and "k = length ids"
proof -
  let ?cutoff = "clock 0 - days (run_retention_days limits)"
  let ?ids = "metadata_expired_ids (nat n) locked ?cutoff d"
  have "set ?ids \<subseteq> {run_id r |r. r \<in> set (runs d) \<and> (\<exists>t. run_terminal_at r = Some t \<and> t \<le> ?cutoff)}"
    unfolding metadata_expired_ids_def using set_order_by_limit
    by (fastforce split: option.splits)
  moreover have "delete_runs [] d = d" by (simp add: delete_runs_def)
  ultimately show thesis
    using assms that [of ?ids] by (auto simp: delete_expired_run_metadata_def Let_def split: if_splits)
qed

section \<open>Admission\<close>

text \<open>One new run has been admitted; the other runs are as they were.\<close>

definition admitted_one :: "uuid \<Rightarrow> db \<Rightarrow> db \<Rightarrow> bool" where
  "admitted_one i d d' \<longleftrightarrow> absent d i \<and> (\<exists>l. has_lineage d' i l \<and> admitted_lineage l)
     \<and> (\<forall>k. k \<noteq> i \<longrightarrow> same_at k d d') \<and> distinct (map job_id (jobs d'))"

lemma admitted_one_ledger_ok: "admitted_one i d d' \<Longrightarrow> ledger_ok d \<Longrightarrow> ledger_ok d'"
  unfolding ledger_ok_def admitted_one_def
  by (metis admitted_lineage_ok same_at_absent same_at_lineage)

lemma fresh_absent: "ledger_ok d \<Longrightarrow> i \<notin> run_id ` set (runs d) \<Longrightarrow> absent d i"
proof -
  assume "ledger_ok d" "i \<notin> run_id ` set (runs d)"
  then have "runs_at d i = []" by (auto simp: runs_at_def filter_empty_conv)
  with \<open>ledger_ok d\<close> show ?thesis by (auto simp: ledger_ok_def has_lineage_def)
qed

lemma write_admission_Inr:
  assumes "write_admission run job nonce record now d = Inr (run', d')"
  shows "run' = run" and "run_insert_ok run d" and "job_insert_ok job (add_run run d)"
    and "nonce_insert_ok nonce (add_run run d)" and "idem_insert_ok record (add_run run d)"
    and "d' = add_audit (audit_succeeded (run_workspace_id run) (run_actor_user_id run) RUN_CREATED
                           RUN (run_id run) (run_correlation_id run))
                (add_idempotency_record record (add_nonce nonce
                  (append_event run ADMITTED RunStatus.QUEUED now 1 None (add_job job (add_run run d)))))"
  using assms by (auto simp: write_admission_def Let_def split: if_splits)

lemmas add_defs = add_run_def add_job_def add_nonce_def add_idempotency_record_def append_event_def
  add_audit_def

lemma write_admission_admitted:
  assumes "write_admission run job nonce record now d = Inr (run', d')" and "ledger_ok d"
    and "run_status run = RunStatus.QUEUED" and "run_terminal_at run = None"
    and "run_safe_error_code run = None" and "job_status job = JobStatus.QUEUED"
    and "job_lease_epoch job = 0" and "job_deadline job = run_deadline run"
    and "job_run_id job = run_id run" and "job_workspace_id job = run_workspace_id run"
  shows "admitted_one (run_id run) d d'"
    and "has_lineage d' (run_id run) \<lparr>ln_run = run, ln_job = job, ln_attempts = [],
           ln_events = [admitted_event run now], ln_results = []\<rparr>"
proof -
  note w = write_admission_Inr [OF assms(1)]
  let ?l = "\<lparr>ln_run = run, ln_job = job, ln_attempts = [], ln_events = [admitted_event run now],
    ln_results = []\<rparr>"
  have absent: "absent d (run_id run)"
    using fresh_absent [OF assms(2)] w(2) by (auto simp: run_insert_ok_def)
  then show lin: "has_lineage d' (run_id run) ?l"
    using assms(9) by (simp add: w(6) has_lineage_def absent_def view_defs add_defs admitted_event_def)
  have "admitted_lineage ?l"
    using assms(3-10) w(2,3) by (auto simp: admitted_lineage_def run_insert_ok_def job_insert_ok_def)
  moreover have "same_at k d d'" if "k \<noteq> run_id run" for k
    using that assms(9) by (simp add: w(6) same_at_def view_defs add_defs)
  moreover have "distinct (map job_id (jobs d'))"
    using w(3) ledger_ok_distinct_jobs [OF assms(2)] by (auto simp: w(6) job_insert_ok_def add_defs)
  ultimately show "admitted_one (run_id run) d d'" using absent lin by (auto simp: admitted_one_def)
qed

text \<open>What a successful \<open>create_run\<close> did: it returned an existing run and at most recorded its
  nonce, or it admitted a new run after every check.\<close>

lemma create_run_Inr:
  assumes "create_run ext cfg ctx rq ids clock d = Inr (run, d')"
  obtains (replayed) st d0 existing request claims dig now where
      "execution_state_row (clock 0) d = (st, d0)"
      "find_idempotency_record ext cfg ctx (rq_idempotency_key rq) d0 = Some existing"
      "replay_existing_run ext cfg ctx existing request claims dig now d0 = Inr (run, d')"
  | (admitted) st d0 claims dig normalized digest requested request nonce_bytes where
      "execution_state_row (clock 0) d = (st, d0)"
      "find_idempotency_record ext cfg ctx (rq_idempotency_key rq) d0 = None"
      "require_current_role ctx [ADMIN, OPERATOR] True d0 \<noteq> Inl AuthorizationDenied"
      "decode_confirmation ext (cfg_confirmation_keys cfg) (rq_confirmation_token rq) = Inr claims"
      "require_confirmation_bindings claims ctx (rq_capability_version_id rq) digest (clock 1) = Inr ()"
      "utf8 (clm_nonce claims) = Some nonce_bytes" "dig = sha256_hex ext nonce_bytes"
      "normalize_arguments ext (cfg_limits cfg) (rq_arguments rq) = Inr (normalized, digest)"
      "admit_new_run ext cfg ctx rq ids st claims dig normalized digest requested
         (rq_idempotency_key rq) request (clock 2) (clock 3) d0 = Inr (run, d')"
proof -
  obtain st d0 where st: "execution_state_row (clock 0) d = (st, d0)" by (cases "execution_state_row (clock 0) d")
  obtain normalized digest claims requested raw_key nonce_bytes where s:
    "normalize_arguments ext (cfg_limits cfg) (rq_arguments rq) = Inr (normalized, digest)"
    "decode_confirmation ext (cfg_confirmation_keys cfg) (rq_confirmation_token rq) = Inr claims"
    "require_confirmation_bindings claims ctx (rq_capability_version_id rq) digest (clock 1) = Inr ()"
    "canonicalize_deadline (rq_deadline rq) = Inr requested"
    "validate_idempotency_key (cfg_limits cfg) (rq_idempotency_key rq) = Inr raw_key"
    "utf8 (clm_nonce claims) = Some nonce_bytes"
    using assms st
    by (auto simp: create_run_def and_then_Inr Let_def split: option.splits)
  have raw: "raw_key = rq_idempotency_key rq"
    using s(5) by (auto simp: validate_idempotency_key_def split: if_splits)
  let ?req = "canonical_request claims (rq_capability_version_id rq) digest requested"
  let ?dig = "sha256_hex ext nonce_bytes"
  show thesis
  proof (cases "find_idempotency_record ext cfg ctx raw_key d0")
    case (Some existing)
    then have "replay_existing_run ext cfg ctx existing ?req claims ?dig (clock 2) d0 = Inr (run, d')"
      using assms st s by (auto simp: create_run_def and_then_Inr Let_def)
    with Some st raw show thesis by (auto intro: replayed)
  next
    case None
    then have "admit_new_run ext cfg ctx rq ids st claims ?dig normalized digest requested raw_key ?req
        (clock 2) (clock 3) d0 = Inr (run, d')"
      "require_current_role ctx [ADMIN, OPERATOR] True d0 \<noteq> Inl AuthorizationDenied"
      using assms st s by (auto simp: create_run_def and_then_Inr Let_def)
    with None st raw s show thesis by (auto intro: admitted)
  qed
qed

lemma admit_new_run_Inr:
  assumes "admit_new_run ext cfg ctx rq ids st claims dig normalized digest requested raw request
    now2 now3 d = Inr (run, d')"
  obtains target deadline where
    "find_nonce dig d = None" "now2 < clm_expires_at claims" "now3 < clm_expires_at claims"
    "load_admission_target ctx (rq_capability_version_id rq) d = Inr target"
    "clm_capability_id claims = cap_id (tgt_capability target)"
    "clm_connection_id claims = conn_id (tgt_connection target)"
    "clm_connection_version_id claims = bind_connection_version_id (tgt_binding target)"
    "validate_normalized_arguments ext normalized (capv_input_schema (tgt_version target)) = Inr ()"
    "admission_deadline (cfg_limits cfg) requested now3 = Inr deadline"
    "\<not> ses_dispatch_quarantined st"
    "int (active_run_count (ctx_workspace_id ctx) d) < max_active_runs_per_workspace (cfg_limits cfg)"
    "run = admitted_run cfg ctx ids (rq_correlation_id rq) target normalized digest deadline now3"
    "write_admission run (admitted_job st ids run now3) (consumed_nonce ctx claims dig (run_id run) now3)
       (admitted_record ext cfg ctx ids claims raw request run now3) now3 d = Inr (run, d')"
  using assms that
  by (auto simp: admit_new_run_def and_then_Inr Let_def write_admission_Inr(1) split: if_splits)

lemma replay_existing_run_Inr:
  assumes "replay_existing_run ext cfg ctx existing request claims dig now d = Inr (run, d')"
  obtains key where
    "key_by_version (cfg_idempotency_keys cfg) (idem_key_version existing) = Some key"
    "idem_request_hmac existing = request_hmac_of ext key request"
    "run \<in> set (runs d)" "run_id run = idem_resource_id existing"
    "run_workspace_id run = ctx_workspace_id ctx"
    "d' = d \<and> (\<exists>used. find_nonce dig d = Some used \<and> nonce_run_id used = run_id run)
     \<or> find_nonce dig d = None \<and> nonce_insert_ok (consumed_nonce ctx claims dig (run_id run) now) d
       \<and> d' = add_nonce (consumed_nonce ctx claims dig (run_id run) now) d"
proof -
  obtain key where key: "key_by_version (cfg_idempotency_keys cfg) (idem_key_version existing) = Some key"
    using assms by (auto simp: replay_existing_run_def Let_def split: option.splits)
  have hmac: "idem_request_hmac existing = request_hmac_of ext key request"
    using assms key by (auto simp: replay_existing_run_def Let_def split: if_splits)
  obtain r where r: "first_row (filter (\<lambda>r. run_id r = idem_resource_id existing
      \<and> run_workspace_id r = ctx_workspace_id ctx) (runs d)) = Some r"
    using assms key hmac by (auto simp: replay_existing_run_def Let_def split: option.splits)
  have eq: "run = r" using assms key hmac r
    by (auto simp: replay_existing_run_def Let_def and_then_Inr split: option.splits if_splits)
  have "d' = d \<and> (\<exists>used. find_nonce dig d = Some used \<and> nonce_run_id used = run_id run)
     \<or> find_nonce dig d = None \<and> nonce_insert_ok (consumed_nonce ctx claims dig (run_id run) now) d
       \<and> d' = add_nonce (consumed_nonce ctx claims dig (run_id run) now) d"
    using assms key hmac r
    by (auto simp: replay_existing_run_def Let_def and_then_Inr split: option.splits if_splits)
  with key hmac first_row_filter_Some [OF r] eq show thesis by (intro that [of key]) auto
qed

section \<open>Invariant\<close>

text \<open>The runs of a workspace that are still active, as a set of run ids.\<close>

definition active_ids :: "uuid \<Rightarrow> db \<Rightarrow> uuid set" where
  "active_ids w d = {i. \<exists>l. has_lineage d i l \<and> run_workspace_id (ln_run l) = w \<and> active_status (ln_status l)}"

lemma active_run_count_ids:
  assumes "ledger_ok d"
  shows "active_run_count w d = card (active_ids w d)" and "finite (active_ids w d)"
proof -
  let ?rs = "filter (\<lambda>r. run_workspace_id r = w \<and> active_status (run_status r)) (runs d)"
  have "active_ids w d = run_id ` set ?rs"
  proof (intro set_eqI iffI)
    fix i assume "i \<in> active_ids w d"
    then obtain l where "has_lineage d i l" "run_workspace_id (ln_run l) = w" "active_status (ln_status l)"
      by (auto simp: active_ids_def)
    then show "i \<in> run_id ` set ?rs" using has_lineage_mem has_lineage_id by (auto intro!: image_eqI)
  next
    fix i assume "i \<in> run_id ` set ?rs"
    then show "i \<in> active_ids w d" using ledger_ok_lineage [OF assms] by (auto simp: active_ids_def)
  qed
  moreover have "distinct (map run_id ?rs)"
    using ledger_ok_distinct_runs [OF assms] by (auto simp: distinct_map inj_on_def)
  ultimately show "active_run_count w d = card (active_ids w d)" "finite (active_ids w d)"
    using distinct_card [of "map run_id ?rs"] by (simp_all add: active_run_count_def)
qed

text \<open>Every active run belongs to the current execution epoch, unless dispatch is quarantined.\<close>

definition epoch_ok :: "db \<Rightarrow> bool" where
  "epoch_ok d \<longleftrightarrow>
     (case execution_state d of None \<Rightarrow> True | Some st \<Rightarrow> 0 < ses_execution_epoch st)
     \<and> (\<forall>i l. has_lineage d i l \<longrightarrow> active_status (ln_status l) \<longrightarrow>
          (\<exists>st. execution_state d = Some st \<and> job_execution_epoch (ln_job l) \<le> ses_execution_epoch st
             \<and> (\<not> ses_dispatch_quarantined st \<longrightarrow>
                  job_execution_epoch (ln_job l) = ses_execution_epoch st)))"

text \<open>Each run has exactly one idempotency record, and a nonce is spent on one run only.\<close>

definition admissions_ok :: "db \<Rightarrow> bool" where
  "admissions_ok d \<longleftrightarrow>
     map idem_resource_id (idempotency_records d) = map run_id (runs d)
     \<and> distinct (map idem_id (idempotency_records d)) \<and> distinct (map idem_key (idempotency_records d))
     \<and> distinct (map nonce_digest (confirmation_nonces d))
     \<and> nonce_run_id ` set (confirmation_nonces d) = run_id ` set (runs d)"

definition exec_inv :: "db \<times> uuid set \<Rightarrow> bool" where
  "exec_inv = (\<lambda>(d, drawn). ledger_ok d \<and> epoch_ok d \<and> admissions_ok d
     \<and> run_id ` set (runs d) \<subseteq> drawn
     \<and> (\<forall>w. int (active_run_count w d) \<le> MAX_ACTIVE_RUNS_PER_WORKSPACE))"

lemma steps_terminal:
  "lineage_step\<^sup>*\<^sup>* l l' \<Longrightarrow> terminal_status (ln_status l) \<Longrightarrow> ln_status l' = ln_status l"
  by (induction rule: rtranclp_induct) (auto dest: terminal_absorbing)

lemma steps_ids:
  "lineage_step\<^sup>*\<^sup>* l l' \<Longrightarrow> run_id (ln_run l') = run_id (ln_run l) \<and> job_id (ln_job l') = job_id (ln_job l)
     \<and> run_workspace_id (ln_run l') = run_workspace_id (ln_run l)
     \<and> job_execution_epoch (ln_job l') = job_execution_epoch (ln_job l)
     \<and> run_deadline (ln_run l') = run_deadline (ln_run l)"
  by (induction rule: rtranclp_induct) (auto dest: step_ids)

lemma moved_back:
  assumes "moved d d'" and "ledger_ok d" and "has_lineage d' i l'"
  obtains l where "has_lineage d i l" and "lineage_step\<^sup>*\<^sup>* l l'"
  using assms unfolding moved_def ledger_ok_def
  by (metis has_lineage_not_absent has_lineage_unique)

lemma moved_active_ids:
  assumes "moved d d'" and "ledger_ok d"
  shows "active_ids w d' \<subseteq> active_ids w d"
proof
  fix i assume "i \<in> active_ids w d'"
  then obtain l' where l': "has_lineage d' i l'" "run_workspace_id (ln_run l') = w" "active_status (ln_status l')"
    by (auto simp: active_ids_def)
  obtain l where l: "has_lineage d i l" "lineage_step\<^sup>*\<^sup>* l l'" by (rule moved_back [OF assms l'(1)])
  have "active_status (ln_status l)" using steps_terminal [OF l(2)] l'(3) by (auto simp: active_iff_not_terminal)
  then show "i \<in> active_ids w d" using l l'(2) steps_ids [OF l(2)] by (auto simp: active_ids_def)
qed

lemma active_count_mono:
  assumes "active_ids w d' \<subseteq> active_ids w d" and "ledger_ok d" and "ledger_ok d'"
  shows "active_run_count w d' \<le> active_run_count w d"
  using assms active_run_count_ids by (simp add: card_mono)

lemma moved_epoch_ok:
  assumes "moved d d'" and "ledger_ok d" and "epoch_ok d"
    and "execution_state d' = execution_state d \<or> execution_state d = None \<and> (\<exists>t. execution_state d' = Some
          \<lparr>ses_execution_epoch = 1, ses_dispatch_quarantined = False, ses_updated_at = t\<rparr>)"
  shows "epoch_ok d'"
  unfolding epoch_ok_def
proof (intro conjI allI impI)
  show "case execution_state d' of None \<Rightarrow> True | Some st \<Rightarrow> 0 < ses_execution_epoch st"
    using assms(3,4) by (auto simp: epoch_ok_def)
next
  fix i l' assume l': "has_lineage d' i l'" "active_status (ln_status l')"
  obtain l where l: "has_lineage d i l" "lineage_step\<^sup>*\<^sup>* l l'" by (rule moved_back [OF assms(1,2) l'(1)])
  have "active_status (ln_status l)" using steps_terminal [OF l(2)] l'(2) by (auto simp: active_iff_not_terminal)
  then obtain st where st: "execution_state d = Some st"
    "job_execution_epoch (ln_job l) \<le> ses_execution_epoch st"
    "\<not> ses_dispatch_quarantined st \<longrightarrow> job_execution_epoch (ln_job l) = ses_execution_epoch st"
    using assms(3) l(1) by (auto simp: epoch_ok_def)
  moreover have "execution_state d' = Some st" using st(1) assms(4) by auto
  ultimately show "\<exists>st. execution_state d' = Some st \<and> job_execution_epoch (ln_job l') \<le> ses_execution_epoch st
      \<and> (\<not> ses_dispatch_quarantined st \<longrightarrow> job_execution_epoch (ln_job l') = ses_execution_epoch st)"
    using steps_ids [OF l(2)] by auto
qed

lemma served_inv:
  assumes "served d d'" and "exec_inv (d, drawn)"
  shows "exec_inv (d', drawn)"
proof -
  note m = served_moved [OF assms(1)]
  have ok: "ledger_ok d" "epoch_ok d" "admissions_ok d" "run_id ` set (runs d) \<subseteq> drawn"
    "\<And>w. int (active_run_count w d) \<le> MAX_ACTIVE_RUNS_PER_WORKSPACE"
    using assms(2) by (auto simp: exec_inv_def)
  note ok' = moved_ledger_ok [OF m ok(1)]
  have ids: "map run_id (runs d') = map run_id (runs d)" using m by (simp add: moved_def)
  then have "run_id ` set (runs d') = run_id ` set (runs d)" by (metis list.set_map)
  moreover have "admissions_ok d'"
    using ok(3) served_frame(1,2) [OF assms(1)] ids calculation by (simp add: admissions_ok_def)
  moreover have "epoch_ok d'"
    by (rule moved_epoch_ok [OF m ok(1,2) served_state [OF assms(1)]])
  moreover have "int (active_run_count w d') \<le> MAX_ACTIVE_RUNS_PER_WORKSPACE" for w
    using active_count_mono [OF moved_active_ids [OF m ok(1)] ok(1) ok', of w] ok(5) [of w] by linarith
  ultimately show ?thesis using ok ok' by (simp add: exec_inv_def)
qed

lemma execution_state_row_served: "execution_state_row now d = (st, d0) \<Longrightarrow> served d d0"
  using served_after_state by simp

lemma execution_state_row_state: "execution_state_row now d = (st, d0) \<Longrightarrow> execution_state d0 = Some st"
  by (auto dest: execution_state_row_tables)

lemma add_nonce_inv:
  assumes "exec_inv (d, drawn)" and "nonce_insert_ok n d" and "nonce_run_id n \<in> run_id ` set (runs d)"
  shows "exec_inv (add_nonce n d, drawn)"
proof -
  have m: "moved d (add_nonce n d)" by (rule same_tables_moved) (simp_all add: add_nonce_def)
  have "admissions_ok (add_nonce n d)"
    using assms by (auto simp: exec_inv_def admissions_ok_def add_nonce_def nonce_insert_ok_def)
  moreover have "epoch_ok (add_nonce n d)"
    using assms(1) by (intro moved_epoch_ok [OF m]) (auto simp: exec_inv_def add_nonce_def)
  ultimately show ?thesis
    using assms(1) moved_ledger_ok [OF m]
    by (simp add: exec_inv_def add_nonce_def active_run_count_def)
qed

lemma admit_new_run_facts:
  assumes "admit_new_run ext cfg ctx rq ids st claims dig normalized digest requested raw request
      now2 now3 d = Inr (run, d')"
    and "exec_inv (d, drawn)" and "execution_state d = Some st" and "\<not> invalid_limits (cfg_limits cfg)"
  shows "admitted_one (fresh_run ids) d d'" and "run_id run = fresh_run ids"
    and "exec_inv (d', insert (fresh_run ids) drawn)"
proof -
  obtain target deadline where a: "\<not> ses_dispatch_quarantined st"
    "int (active_run_count (ctx_workspace_id ctx) d) < max_active_runs_per_workspace (cfg_limits cfg)"
    "run = admitted_run cfg ctx ids (rq_correlation_id rq) target normalized digest deadline now3"
    "write_admission run (admitted_job st ids run now3) (consumed_nonce ctx claims dig (run_id run) now3)
       (admitted_record ext cfg ctx ids claims raw request run now3) now3 d = Inr (run, d')"
    using admit_new_run_Inr [OF assms(1)] by metis
  have inv: "ledger_ok d" "epoch_ok d" "admissions_ok d" "run_id ` set (runs d) \<subseteq> drawn"
    "\<And>w. int (active_run_count w d) \<le> MAX_ACTIVE_RUNS_PER_WORKSPACE"
    using assms(2) by (auto simp: exec_inv_def)
  show id: "run_id run = fresh_run ids" using a(3) by (simp add: admitted_run_def)
  note w = write_admission_Inr [OF a(4)]
  have adm: "admitted_one (run_id run) d d'"
    and lin: "has_lineage d' (run_id run) \<lparr>ln_run = run, ln_job = admitted_job st ids run now3,
      ln_attempts = [], ln_events = [admitted_event run now3], ln_results = []\<rparr>"
    using write_admission_admitted [OF a(4) inv(1)] a(3) by (simp_all add: admitted_run_def admitted_job_def)
  from adm id show "admitted_one (fresh_run ids) d d'" by simp
  have rows: "runs d' = runs d @ [run]" "execution_state d' = execution_state d"
    "idempotency_records d' = idempotency_records d @ [admitted_record ext cfg ctx ids claims raw request run now3]"
    "confirmation_nonces d' = confirmation_nonces d @ [consumed_nonce ctx claims dig (run_id run) now3]"
    using w(6) by (simp_all add: add_defs)
  have "admissions_ok d'"
    using inv(3) w(4,5)
    by (auto simp: admissions_ok_def rows admitted_record_def consumed_nonce_def Let_def
        nonce_insert_ok_def idem_insert_ok_def add_run_def)
  moreover have "epoch_ok d'"
    unfolding epoch_ok_def
  proof (intro conjI allI impI)
    show "case execution_state d' of None \<Rightarrow> True | Some st \<Rightarrow> 0 < ses_execution_epoch st"
      using inv(2) rows(2) by (simp add: epoch_ok_def)
  next
    fix k l assume l: "has_lineage d' k l" "active_status (ln_status l)"
    show "\<exists>st. execution_state d' = Some st \<and> job_execution_epoch (ln_job l) \<le> ses_execution_epoch st
      \<and> (\<not> ses_dispatch_quarantined st \<longrightarrow> job_execution_epoch (ln_job l) = ses_execution_epoch st)"
    proof (cases "k = run_id run")
      case True
      then have "ln_job l = admitted_job st ids run now3" using has_lineage_unique [OF lin] l(1) by force
      then show ?thesis using assms(3) rows(2) by (simp add: admitted_job_def)
    next
      case False
      then have "has_lineage d k l" using adm l(1) same_at_lineage by (auto simp: admitted_one_def)
      with l(2) inv(2) rows(2) show ?thesis by (auto simp: epoch_ok_def)
    qed
  qed
  moreover have "int (active_run_count w d') \<le> MAX_ACTIVE_RUNS_PER_WORKSPACE" for w
    using inv(5) [of w] a(2) assms(4) a(3)
    by (auto simp: active_run_count_def rows invalid_limits_def admitted_run_def)
  ultimately show "exec_inv (d', insert (fresh_run ids) drawn)"
    using admitted_one_ledger_ok [OF adm inv(1)] inv(4) id rows(1) by (auto simp: exec_inv_def)
qed

lemma create_run_inv:
  assumes "create_run ext cfg ctx rq ids clock d = Inr (run, d')" and "exec_inv (d, drawn)"
    and "\<not> invalid_limits (cfg_limits cfg)"
  shows "exec_inv (d', insert (fresh_run ids) drawn)"
  using assms(1)
proof (cases rule: create_run_Inr)
  case (replayed st d0 existing request claims dig now)
  have inv: "exec_inv (d0, drawn)"
    using served_inv [OF execution_state_row_served [OF replayed(1)] assms(2)] .
  have "exec_inv (d', drawn)"
    by (rule replay_existing_run_Inr [OF replayed(3)])
      (use inv in \<open>auto intro!: add_nonce_inv image_eqI [of _ _ run] simp: consumed_nonce_def\<close>)
  then show ?thesis by (auto simp: exec_inv_def)
next
  case (admitted st d0 claims dig normalized digest requested request nonce_bytes)
  have "exec_inv (d0, drawn)"
    using served_inv [OF execution_state_row_served [OF admitted(1)] assms(2)] .
  from admit_new_run_facts(3) [OF admitted(9) this execution_state_row_state [OF admitted(1)] assms(3)]
  show ?thesis .
qed

lemma map_filter_keys:
  assumes "map f xs = map g ys"
  shows "map f (filter (\<lambda>x. f x \<notin> ids) xs) = map g (filter (\<lambda>y. g y \<notin> ids) ys)"
proof -
  have "map f (filter (\<lambda>x. f x \<notin> ids) xs) = filter (\<lambda>i. i \<notin> ids) (map f xs)"
    by (simp add: filter_map o_def)
  also have "\<dots> = map g (filter (\<lambda>y. g y \<notin> ids) ys)"
    using assms by (simp add: filter_map o_def)
  finally show ?thesis .
qed

lemma delete_runs_inv:
  assumes "exec_inv (d, drawn)"
  shows "exec_inv (delete_runs ids d, drawn)"
proof -
  let ?d = "delete_runs ids d"
  have inv: "ledger_ok d" "epoch_ok d" "admissions_ok d" "run_id ` set (runs d) \<subseteq> drawn"
    "\<And>w. int (active_run_count w d) \<le> MAX_ACTIVE_RUNS_PER_WORKSPACE"
    using assms by (auto simp: exec_inv_def)
  have prior: "has_lineage d i l" if "has_lineage ?d i l" for i l
    using that delete_runs_deleted [of ids d] has_lineage_not_absent [OF that] same_at_lineage
    unfolding deleted_def by blast
  have "execution_state ?d = execution_state d" by (simp add: delete_runs_def)
  then have "epoch_ok ?d" using inv(2) prior unfolding epoch_ok_def by metis
  moreover have "admissions_ok ?d"
  proof -
    have "map idem_resource_id (idempotency_records ?d) = map run_id (runs ?d)"
      using inv(3) map_filter_keys [of idem_resource_id "idempotency_records d" run_id "runs d"]
      by (simp add: admissions_ok_def delete_runs_def)
    moreover have "nonce_run_id ` set (confirmation_nonces ?d) = run_id ` set (runs ?d)"
    proof -
      have "nonce_run_id ` set (confirmation_nonces ?d) = nonce_run_id ` set (confirmation_nonces d) - set ids"
        "run_id ` set (runs ?d) = run_id ` set (runs d) - set ids" by (auto simp: delete_runs_def)
      then show ?thesis using inv(3) by (simp add: admissions_ok_def)
    qed
    ultimately show ?thesis
      using inv(3) by (auto simp: admissions_ok_def delete_runs_def distinct_map inj_on_def)
  qed
  moreover have "int (active_run_count w ?d) \<le> MAX_ACTIVE_RUNS_PER_WORKSPACE" for w
  proof -
    have "active_ids w ?d \<subseteq> active_ids w d" using prior by (auto simp: active_ids_def)
    then have "active_run_count w ?d \<le> active_run_count w d"
      using inv(1) delete_runs_ledger_ok [OF inv(1)] by (rule active_count_mono)
    then show ?thesis using inv(5) [of w] by linarith
  qed
  ultimately show ?thesis
    using delete_runs_ledger_ok [OF inv(1)] inv(4) by (auto simp: exec_inv_def delete_runs_def)
qed

lemma state_change_inv:
  assumes "exec_inv (d, drawn)" and "0 < ses_execution_epoch st"
    and "\<And>i l. has_lineage d i l \<Longrightarrow> active_status (ln_status l) \<Longrightarrow>
      job_execution_epoch (ln_job l) \<le> ses_execution_epoch st
      \<and> (\<not> ses_dispatch_quarantined st \<longrightarrow> job_execution_epoch (ln_job l) = ses_execution_epoch st)"
  shows "exec_inv (d\<lparr>execution_state := Some st\<rparr>, drawn)"
proof -
  let ?d = "d\<lparr>execution_state := Some st\<rparr>"
  have "moved d ?d" by (rule same_tables_moved) simp_all
  then have "ledger_ok ?d" using assms(1) moved_ledger_ok by (auto simp: exec_inv_def)
  moreover have "has_lineage ?d i l = has_lineage d i l" for i l
    by (simp add: has_lineage_def view_defs)
  then have "epoch_ok ?d" using assms(2,3) by (simp add: epoch_ok_def)
  ultimately show ?thesis
    using assms(1) by (simp add: exec_inv_def admissions_ok_def active_run_count_def)
qed

lemma enter_restore_quarantine_inv:
  assumes "enter_restore_quarantine auth clock d = Inr (k, d')" and "exec_inv (d, drawn)"
  shows "exec_inv (d', drawn)"
proof -
  obtain st d0 where st: "execution_state_row (clock 1) d = (st, d0)" by (cases "execution_state_row (clock 1) d")
  have inv: "exec_inv (d0, drawn)" using served_inv [OF execution_state_row_served [OF st] assms(2)] .
  have d': "d' = d0\<lparr>execution_state := Some (st\<lparr>ses_execution_epoch := ses_execution_epoch st + 1,
      ses_dispatch_quarantined := True, ses_updated_at := clock 0\<rparr>)\<rparr>"
    using assms(1) st by (auto simp: enter_restore_quarantine_def and_then_Inr Let_def)
  show ?thesis
    unfolding d' using inv execution_state_row_state [OF st]
    by (intro state_change_inv [OF inv]) (auto simp: exec_inv_def epoch_ok_def intro: le_SucI)
qed

lemma clear_restore_quarantine_Inr:
  assumes "clear_restore_quarantine auth clock d = Inr (k, d')"
  obtains st d0 where "execution_state_row (clock 0) d = (st, d0)" and "auth"
    and "ses_dispatch_quarantined st" and "\<And>r. r \<in> set (runs d0) \<Longrightarrow> terminal_status (run_status r)"
    and "k = ses_execution_epoch st"
    and "d' = d0\<lparr>execution_state := Some (st\<lparr>ses_dispatch_quarantined := False, ses_updated_at := clock 1\<rparr>)\<rparr>"
  using assms
  by (cases "execution_state_row (clock 0) d")
    (auto simp: clear_restore_quarantine_def require_system_authority_def and_then_Inr Let_def list_ex_iff
      active_iff_not_terminal split: if_splits)

lemma clear_restore_quarantine_inv:
  assumes "clear_restore_quarantine auth clock d = Inr (k, d')" and "exec_inv (d, drawn)"
  shows "exec_inv (d', drawn)"
proof (rule clear_restore_quarantine_Inr [OF assms(1)])
  fix st d0
  assume st: "execution_state_row (clock 0) d = (st, d0)"
    and runs: "\<And>r. r \<in> set (runs d0) \<Longrightarrow> terminal_status (run_status r)"
    and d': "d' = d0\<lparr>execution_state := Some (st\<lparr>ses_dispatch_quarantined := False, ses_updated_at := clock 1\<rparr>)\<rparr>"
  have inv: "exec_inv (d0, drawn)" using served_inv [OF execution_state_row_served [OF st] assms(2)] .
  have "0 < ses_execution_epoch st"
    using inv execution_state_row_state [OF st] by (simp add: exec_inv_def epoch_ok_def)
  then show ?thesis
    unfolding d' using runs has_lineage_mem
    by (intro state_change_inv [OF inv]) (auto simp: active_iff_not_terminal)
qed

section \<open>Steps\<close>

definition exec_tables_same :: "db \<Rightarrow> db \<Rightarrow> bool" where
  "exec_tables_same d d' \<longleftrightarrow> runs d' = runs d \<and> jobs d' = jobs d \<and> run_attempts d' = run_attempts d
     \<and> run_events d' = run_events d \<and> run_results d' = run_results d
     \<and> execution_state d' = execution_state d \<and> confirmation_nonces d' = confirmation_nonces d
     \<and> idempotency_records d' = idempotency_records d"

text \<open>The state is the database and the set of run ids drawn so far; \<open>uuid4\<close> does not draw an id
  twice.\<close>

inductive exec_step :: "db \<times> uuid set \<Rightarrow> db \<times> uuid set \<Rightarrow> bool" where
  create: "create_run ext cfg ctx rq ids clock d = Inr (run, d') \<Longrightarrow> \<not> invalid_limits (cfg_limits cfg) \<Longrightarrow>
    fresh_run ids \<notin> drawn \<Longrightarrow> exec_step (d, drawn) (d', insert (fresh_run ids) drawn)"
| claim: "claim_job limits locked clock worker dur d = Inr (x, d') \<Longrightarrow> exec_step (d, drawn) (d', drawn)"
| fence_session: "fence_session lease clock d = Inr (run, d') \<Longrightarrow> exec_step (d, drawn) (d', drawn)"
| fence_dispatch: "fence_dispatch lease clock d = Inr (run, d') \<Longrightarrow> exec_step (d, drawn) (d', drawn)"
| heartbeat: "heartbeat lease dur clock d = Inr (lease', d') \<Longrightarrow> exec_step (d, drawn) (d', drawn)"
| complete: "complete_lease lease s code clock d = Inr (run, d') \<Longrightarrow> exec_step (d, drawn) (d', drawn)"
| succeed: "complete_invocation_success cext limits lease result clock d = Inr (run, d') \<Longrightarrow>
    exec_step (d, drawn) (d', drawn)"
| cancel: "cancel_run ctx i corr fresh clock d = Inr (run, d') \<Longrightarrow> exec_step (d, drawn) (d', drawn)"
| enter: "enter_restore_quarantine auth clock d = Inr (k, d') \<Longrightarrow> exec_step (d, drawn) (d', drawn)"
| reconcile: "reconcile_restore_quarantine auth n locked clock d = Inr (k, d') \<Longrightarrow>
    exec_step (d, drawn) (d', drawn)"
| clear: "clear_restore_quarantine auth clock d = Inr (k, d') \<Longrightarrow> exec_step (d, drawn) (d', drawn)"
| expire_content: "expire_retained_content n locked clock d = Inr (k, d') \<Longrightarrow>
    exec_step (d, drawn) (d', drawn)"
| expire_results: "expire_retained_results n locked clock d = Inr (k, d') \<Longrightarrow>
    exec_step (d, drawn) (d', drawn)"
| delete: "delete_expired_run_metadata limits n locked clock d = Inr (k, d') \<Longrightarrow>
    exec_step (d, drawn) (d', drawn)"
| environment: "exec_tables_same d d' \<Longrightarrow> exec_step (d, drawn) (d', drawn)"

text \<open>The start: empty execution tables.\<close>

definition exec_init :: "db \<times> uuid set \<Rightarrow> bool" where
  "exec_init = (\<lambda>(d, drawn). runs d = [] \<and> jobs d = [] \<and> run_attempts d = [] \<and> run_events d = []
     \<and> run_results d = [] \<and> execution_state d = None \<and> confirmation_nonces d = []
     \<and> idempotency_records d = [] \<and> drawn = {})"

lemma exec_init_inv: "exec_init s \<Longrightarrow> exec_inv s"
  by (cases s) (auto simp: exec_init_def exec_inv_def ledger_ok_def absent_def view_defs epoch_ok_def
      has_lineage_def admissions_ok_def active_run_count_def MAX_ACTIVE_RUNS_PER_WORKSPACE_def)

lemma environment_inv:
  assumes "exec_tables_same d d'" and "exec_inv (d, drawn)"
  shows "exec_inv (d', drawn)"
proof -
  have m: "moved d d'" using assms(1) by (intro same_tables_moved) (auto simp: exec_tables_same_def)
  have "epoch_ok d'"
    using assms by (intro moved_epoch_ok [OF m]) (auto simp: exec_tables_same_def exec_inv_def)
  then show ?thesis
    using assms moved_ledger_ok [OF m]
    by (simp add: exec_inv_def exec_tables_same_def admissions_ok_def active_run_count_def)
qed

text \<open>The operations that serve existing runs, as one fact.\<close>

lemma exec_step_cases:
  assumes "exec_step (d, drawn) (d', drawn')" and "ledger_ok d"
  obtains (served) "served d d'" "drawn' = drawn"
  | (created) ext cfg ctx rq ids clock run where "create_run ext cfg ctx rq ids clock d = Inr (run, d')"
      "\<not> invalid_limits (cfg_limits cfg)" "fresh_run ids \<notin> drawn" "drawn' = insert (fresh_run ids) drawn"
  | (entered) auth clock k where "enter_restore_quarantine auth clock d = Inr (k, d')" "drawn' = drawn"
  | (cleared) auth clock k where "clear_restore_quarantine auth clock d = Inr (k, d')" "drawn' = drawn"
  | (deleted) limits n locked clock k where
      "delete_expired_run_metadata limits n locked clock d = Inr (k, d')" "drawn' = drawn"
  | (environment) "exec_tables_same d d'" "drawn' = drawn"
  using assms(1)
proof cases
  case create
  then show thesis using created by blast
next
  case enter
  then show thesis using entered by blast
next
  case clear
  then show thesis using cleared by blast
next
  case delete
  then show thesis using deleted by blast
next
  case environment
  then show thesis using that(6) by blast
qed (rule that(1), rule claim_job_served fence_session_served fence_dispatch_served heartbeat_served
      complete_lease_served complete_invocation_success_served cancel_run_served
      reconcile_restore_quarantine_served expire_retained_content_served
      expire_retained_results_served, assumption, rule assms(2), assumption)+

lemma exec_step_inv: "exec_inv s \<Longrightarrow> exec_step s t \<Longrightarrow> exec_inv t"
proof -
  assume inv: "exec_inv s" and st: "exec_step s t"
  obtain d drawn d' drawn' where eq: "s = (d, drawn)" "t = (d', drawn')" by (cases s; cases t)
  have ok: "ledger_ok d" and inv': "exec_inv (d, drawn)" using inv eq by (auto simp: exec_inv_def)
  from st [unfolded eq] ok have "exec_inv (d', drawn')"
  proof (cases rule: exec_step_cases)
    case served
    with inv' show ?thesis using served_inv by simp
  next
    case created
    with inv' show ?thesis using create_run_inv by simp
  next
    case entered
    with inv' show ?thesis using enter_restore_quarantine_inv by simp
  next
    case cleared
    with inv' show ?thesis using clear_restore_quarantine_inv by simp
  next
    case deleted
    with inv' show ?thesis using delete_expired_run_metadata_Inr delete_runs_inv by metis
  next
    case environment
    with inv' show ?thesis using environment_inv by simp
  qed
  then show ?thesis using eq by simp
qed

interpretation exec_machine: machine exec_init exec_step exec_inv
  by unfold_locales (fact exec_init_inv, fact exec_step_inv)

end
