(* ===== verification/Exec_Demo.thy ===== *)
theory Exec_Demo
  imports Exec_Machine "HOL-Library.Code_Target_Nat"
begin

text \<open>
  A worked history of one run, evaluated: a workspace with one operator and one enabled capability, a
  run that is admitted, claimed, fenced twice and completed with a result. The externals are
  concrete functions here. Every database of the history is reachable in the transition system;
  the theorems about reachable states are applied to them.
\<close>

section \<open>Setting\<close>

definition demo_ctx :: WorkspaceContext where
  "demo_ctx = \<lparr>ctx_workspace_id = 1, ctx_actor_user_id = 2, ctx_role = OPERATOR\<rparr>"

definition demo_capability :: Capability where
  "demo_capability = \<lparr>cap_id = 10, cap_workspace_id = 1, cap_connection_id = 20,
     cap_tool_identity = ustr_of ''t'', cap_pending_version_id = None,
     cap_enabled_version_id = Some 11, cap_status = CapabilityStatus.ENABLED, cap_status_epoch = 3\<rparr>"

definition demo_version :: CapabilityVersion where
  "demo_version = \<lparr>capv_id = 11, capv_workspace_id = 1, capv_capability_id = 10, capv_sequence = 1,
     capv_display_name = ustr_of ''t'', capv_description = None, capv_input_schema = JDict [],
     capv_output_schema = None, capv_metadata_digest = ''d'', capv_schema_supported = True\<rparr>"

definition demo_binding :: McpToolBinding where
  "demo_binding = \<lparr>bind_capability_version_id = 11, bind_capability_id = 10, bind_workspace_id = 1,
     bind_connection_id = 20, bind_connection_version_id = 21, bind_tool_name = ustr_of ''t'',
     bind_protocol_revision = QUALIFIED_PROTOCOL_REVISION\<rparr>"

definition demo_connection :: ServerConnection where
  "demo_connection = \<lparr>conn_id = 20, conn_workspace_id = 1, conn_name = ustr_of ''c'',
     conn_lifecycle = ConnectionLifecycle.ACTIVE, conn_pending_version_id = None,
     conn_verified_version_id = Some 21, conn_control_epoch = 4, conn_refresh_generation = 1,
     conn_allocated_control_epoch = None, conn_allocated_target_version_id = None,
     conn_current_snapshot_id = Some 30, conn_last_refresh_error_code = None,
     conn_last_refresh_at = None, conn_created_by_user_id = 2\<rparr>"

definition demo_connection_version :: ServerConnectionVersion where
  "demo_connection_version = \<lparr>scv_id = 21, scv_workspace_id = 1, scv_connection_id = 20,
     scv_sequence = 1, scv_endpoint_url = ustr_of ''u'', scv_secret_binding_id = None,
     scv_transport = STREAMABLE_HTTP, scv_policy_version = ustr_of ''p'',
     scv_created_by_user_id = 2\<rparr>"

definition demo_db :: db where
  "demo_db = empty_db\<lparr>
     users := [\<lparr>usr_id = 2, usr_oidc_issuer = ustr_of ''i'', usr_oidc_subject = ustr_of ''s'',
                usr_display_name = None\<rparr>],
     workspaces := [\<lparr>ws_id = 1, ws_name = ustr_of ''w''\<rparr>],
     memberships := [\<lparr>mem_workspace_id = 1, mem_user_id = 2, mem_role = OPERATOR\<rparr>],
     connections := [demo_connection], connection_versions := [demo_connection_version],
     capabilities := [demo_capability], capability_versions := [demo_version],
     tool_bindings := [demo_binding],
     snapshot_capabilities := [\<lparr>dsc_workspace_id = 1, dsc_connection_id = 20,
        dsc_connection_version_id = 21, dsc_snapshot_id = 30, dsc_capability_version_id = 11\<rparr>]\<rparr>"

definition demo_hex :: string where
  "demo_hex = replicate 64 CHR ''0''"

definition demo_claims :: json where
  "demo_claims = JDict
     [(ustr_of ''iat'', JInt 0), (ustr_of ''exp'', JInt 120), (ustr_of ''jti'', JStr (ustr_of ''n'')),
      (ustr_of ''w'', JStr (uuid_str 1)), (ustr_of ''a'', JStr (uuid_str 2)),
      (ustr_of ''cv'', JStr (uuid_str 11)), (ustr_of ''c'', JStr (uuid_str 10)),
      (ustr_of ''cn'', JStr (uuid_str 20)), (ustr_of ''cnv'', JStr (uuid_str 21)),
      (ustr_of ''ad'', JStr (ustr_of demo_hex)), (ustr_of ''r'', JStr (ustr_of RUN_ROUTE))]"

definition demo_ext :: exec_externals where
  "demo_ext = \<lparr>sha256_hex = (\<lambda>_. demo_hex), json_float_repr = (\<lambda>_. []),
     contains_sensitive_json = (\<lambda>_. Some False), hmac_hex = (\<lambda>_ _. demo_hex),
     jwt_encode = (\<lambda>_ _ _. [1]),
     jwt_header = (\<lambda>_. Some (JDict [(ustr_of ''kid'', JStr (ustr_of ''k1''))])),
     jwt_decode = (\<lambda>_ _. Some demo_claims), schema_check = (\<lambda>_ _. VALID),
     str_other = (\<lambda>_. []), int_other = (\<lambda>_. None)\<rparr>"

definition demo_key :: HmacKeyVersion where
  "demo_key = \<lparr>hk_version = ''k1'', hk_secret = replicate 32 7\<rparr>"

definition demo_cfg :: service_config where
  "demo_cfg = \<lparr>cfg_limits = default_limits, cfg_confirmation_keys = [demo_key],
     cfg_idempotency_keys = [demo_key]\<rparr>"

definition demo_request :: run_request where
  "demo_request = \<lparr>rq_capability_version_id = 11, rq_arguments = JDict [], rq_confirmation_token = [1],
     rq_idempotency_key = ustr_of ''key'', rq_deadline = None, rq_correlation_id = None\<rparr>"

definition demo_ids :: fresh_ids where
  "demo_ids = \<lparr>fresh_run = 100, fresh_trace = 101, fresh_job = 102, fresh_idem = 103\<rparr>"

definition demo_clock :: clock where
  "demo_clock n = 1000000"
section \<open>Admission\<close>

lemma demo_state: "execution_state_row t demo_db = (\<lparr>ses_execution_epoch = 1, ses_dispatch_quarantined = False,
   ses_updated_at = t\<rparr>, demo_db\<lparr>execution_state := Some \<lparr>ses_execution_epoch = 1,
   ses_dispatch_quarantined = False, ses_updated_at = t\<rparr>\<rparr>)"
  by (simp add: execution_state_row_def demo_db_def empty_db_def Let_def)

definition demo_db0 :: db where
  "demo_db0 = demo_db\<lparr>execution_state := Some \<lparr>ses_execution_epoch = 1,
   ses_dispatch_quarantined = False, ses_updated_at = 1000000\<rparr>\<rparr>"

lemma demo_role: "require_current_role demo_ctx [ADMIN, OPERATOR] b demo_db0
  = Inr \<lparr>mem_workspace_id = 1, mem_user_id = 2, mem_role = OPERATOR\<rparr>"
  by (cases b) (simp_all add: require_current_role_def require_role_def demo_ctx_def demo_db0_def demo_db_def
      empty_db_def membership_of_def)

lemma demo_normalized: "normalize_arguments demo_ext default_limits (JDict []) = Inr (JDict [], demo_hex)"
  by code_simp

lemma demo_histories:
  "require_confirmation_key_history demo_cfg demo_db0 = Inr ()"
  "require_idempotency_key_history demo_cfg demo_db0 = Inr ()"
  by (code_simp, code_simp)


definition demo_confirmation :: ConfirmationClaims where
  "demo_confirmation = \<lparr>clm_workspace_id = 1, clm_actor_user_id = 2, clm_capability_version_id = 11,
     clm_capability_id = 10, clm_connection_id = 20, clm_connection_version_id = 21,
     clm_argument_digest = ustr_of demo_hex, clm_route = ustr_of RUN_ROUTE, clm_nonce = ustr_of ''n'',
     clm_key_version = ''k1'', clm_issued_at = 0, clm_expires_at = 120000000\<rparr>"

lemma demo_decoded: "decode_confirmation demo_ext [demo_key] [1] = Inr demo_confirmation"
proof -
  have "claims_of_payload demo_ext ''k1'' demo_claims = Some demo_confirmation"
    by (simp add: claims_of_payload_def claim_uuid_def claim_str_def claim_time_def member_def demo_claims_def
        parse_uuid_str ustr_of_def demo_confirmation_def seconds_def)
  then show ?thesis
    by (simp add: decode_confirmation_def demo_ext_def demo_key_def member_def ustr_of_def Let_def)
qed

definition demo_target :: AdmissionTarget where
  "demo_target = \<lparr>tgt_capability = demo_capability, tgt_version = demo_version, tgt_binding = demo_binding,
     tgt_connection = demo_connection\<rparr>"

lemma demo_loaded: "load_admission_target demo_ctx 11 demo_db0 = Inr demo_target"
  by (simp add: load_admission_target_def demo_ctx_def demo_db0_def demo_db_def empty_db_def demo_version_def
      scoped_capability_def demo_capability_def demo_binding_def scoped_connection_def demo_connection_def
      observed_in_snapshot_def demo_target_def Let_def)

definition demo_run :: Run where
  "demo_run = admitted_run demo_cfg demo_ctx demo_ids None demo_target (JDict []) demo_hex 301000000 1000000"

definition demo_record :: IdempotencyRecord where
  "demo_record = admitted_record demo_ext demo_cfg demo_ctx demo_ids demo_confirmation (ustr_of ''key'')
     (canonical_request demo_confirmation 11 demo_hex None) demo_run 1000000"

definition demo_state1 :: SystemExecutionState where
  "demo_state1 = \<lparr>ses_execution_epoch = 1, ses_dispatch_quarantined = False, ses_updated_at = 1000000\<rparr>"

definition demo_job :: Job where
  "demo_job = admitted_job demo_state1 demo_ids demo_run 1000000"

definition demo_nonce :: ConfirmationNonce where
  "demo_nonce = consumed_nonce demo_ctx demo_confirmation demo_hex 100 1000000"

definition demo_db1 :: db where
  "demo_db1 = demo_db0\<lparr>runs := [demo_run], jobs := [demo_job], run_events := [admitted_event demo_run 1000000],
     confirmation_nonces := [demo_nonce], idempotency_records := [demo_record],
     audit_events := [audit_succeeded 1 2 RUN_CREATED RUN 100 101]\<rparr>"

lemmas demo_rows = demo_run_def demo_job_def demo_nonce_def demo_record_def demo_target_def demo_capability_def
  demo_version_def demo_binding_def demo_connection_def demo_cfg_def demo_ctx_def demo_ids_def demo_key_def
  admitted_run_def admitted_job_def consumed_nonce_def admitted_record_def

lemma demo_written: "write_admission demo_run demo_job demo_nonce demo_record 1000000 demo_db0
  = Inr (demo_run, demo_db1)"
proof -
  have "run_insert_ok demo_run demo_db0"
    by (simp add: run_insert_ok_def run_check_def arguments_check_def code_check_def run_references_def
        workspace_exists_def user_exists_def demo_rows demo_db0_def demo_db_def empty_db_def
        demo_connection_version_def QUALIFIED_PROTOCOL_REVISION_def ustr_of_def demo_hex_def)
  moreover have "job_insert_ok demo_job (add_run demo_run demo_db0)"
    by (simp add: job_insert_ok_def job_check_def workspace_exists_def user_exists_def run_exists_def
        demo_rows demo_db0_def demo_db_def empty_db_def add_run_def demo_state1_def)
  moreover have "event_insert_ok (admitted_event demo_run 1000000) (add_run demo_run demo_db0)"
    by (simp add: event_insert_ok_def event_check_def code_check_def workspace_exists_def run_exists_def
        admitted_event_def demo_rows demo_db0_def demo_db_def empty_db_def add_run_def)
  moreover have "nonce_insert_ok demo_nonce (add_run demo_run demo_db0)"
    by (simp add: nonce_insert_ok_def nonce_check_def workspace_exists_def user_exists_def run_exists_def
        demo_rows demo_db0_def demo_db_def empty_db_def add_run_def demo_hex_def demo_confirmation_def)
  moreover have "idem_insert_ok demo_record (add_run demo_run demo_db0)"
    by (simp add: idem_insert_ok_def idem_check_def workspace_exists_def user_exists_def run_exists_def
        demo_rows demo_db0_def demo_db_def empty_db_def add_run_def demo_hex_def demo_confirmation_def
        idempotency_hmac_def request_hmac_of_def demo_ext_def RUN_METHOD_def RUN_ROUTE_def)
  ultimately show ?thesis
    by (simp add: write_admission_def Let_def demo_db1_def add_defs admitted_event_def audit_succeeded_def)
      (simp add: demo_db0_def demo_db_def empty_db_def demo_rows)
qed

lemma demo_created:
  "create_run demo_ext demo_cfg demo_ctx demo_request demo_ids demo_clock demo_db = Inr (demo_run, demo_db1)"
proof -
  have "find_idempotency_record demo_ext demo_cfg demo_ctx k demo_db0 = None" for k
    by (simp add: find_idempotency_record_def demo_db0_def demo_db_def empty_db_def)
  moreover have "require_confirmation_bindings demo_confirmation demo_ctx 11 demo_hex 1000000 = Inr ()"
    by (simp add: require_confirmation_bindings_def demo_confirmation_def demo_ctx_def ustr_of_def)
  moreover have "validate_idempotency_key default_limits (ustr_of ''key'') = Inr (ustr_of ''key'')"
    by (simp add: validate_idempotency_key_def default_limits_def ustr_of_def)
  moreover have "admit_new_run demo_ext demo_cfg demo_ctx demo_request demo_ids demo_state1 demo_confirmation
      demo_hex (JDict []) demo_hex None (ustr_of ''key'') (canonical_request demo_confirmation 11 demo_hex None)
      1000000 1000000 demo_db0 = Inr (demo_run, demo_db1)"
  proof -
    have "find_nonce demo_hex demo_db0 = None" "active_run_count 1 demo_db0 = 0"
      by (simp_all add: find_nonce_def active_run_count_def demo_db0_def demo_db_def empty_db_def)
    moreover have "admission_deadline default_limits None 1000000 = Inr 301000000"
      by (simp add: admission_deadline_def default_limits_def seconds_def)
    moreover have "validate_normalized_arguments demo_ext (JDict []) s = Inr ()" for s
      by (simp add: validate_normalized_arguments_def demo_ext_def)
    moreover have "clm_expires_at demo_confirmation = 120000000" "clm_capability_id demo_confirmation = 10"
      "clm_connection_id demo_confirmation = 20" "clm_connection_version_id demo_confirmation = 21"
      by (simp_all add: demo_confirmation_def)
    moreover have "cap_id (tgt_capability demo_target) = 10" "conn_id (tgt_connection demo_target) = 20"
      "bind_connection_version_id (tgt_binding demo_target) = 21"
      by (simp_all add: demo_target_def demo_capability_def demo_connection_def demo_binding_def)
    moreover have "run_id demo_run = 100" by (simp add: demo_run_def admitted_run_def demo_ids_def)
    moreover have "cfg_limits demo_cfg = default_limits" "rq_capability_version_id demo_request = 11"
      "rq_correlation_id demo_request = None" "ses_dispatch_quarantined demo_state1 = False"
      "ctx_workspace_id demo_ctx = 1" "max_active_runs_per_workspace default_limits = 100"
      by (simp_all add: demo_cfg_def demo_request_def demo_state1_def demo_ctx_def default_limits_def
          MAX_ACTIVE_RUNS_PER_WORKSPACE_def)
    ultimately show ?thesis
      using demo_loaded demo_written
      by (simp add: admit_new_run_def Let_def demo_run_def [symmetric] demo_record_def demo_job_def demo_nonce_def)
  qed
  moreover have "utf8 (clm_nonce demo_confirmation) = Some [110]"
    by (simp add: utf8_def utf8_char_def demo_confirmation_def ustr_of_def)
  moreover have "sha256_hex demo_ext [110] = demo_hex" by (simp add: demo_ext_def)
  moreover have "cfg_limits demo_cfg = default_limits" "cfg_confirmation_keys demo_cfg = [demo_key]"
      "rq_capability_version_id demo_request = 11" "rq_arguments demo_request = JDict []"
      "rq_confirmation_token demo_request = [1]" "rq_idempotency_key demo_request = ustr_of ''key''"
      "rq_deadline demo_request = None" "demo_clock n = 1000000" for n
    by (simp_all add: demo_cfg_def demo_request_def demo_clock_def)
  moreover have "execution_state_row 1000000 demo_db = (demo_state1, demo_db0)"
    by (simp add: demo_state demo_state1_def demo_db0_def)
  ultimately show ?thesis
    using demo_role demo_normalized demo_histories demo_decoded
    by (simp add: create_run_def canonicalize_deadline_def Let_def)
qed

section \<open>Claim and fences\<close>

definition demo_job2 :: Job where
  "demo_job2 = leased_job ''worker'' 30000000 1000000 demo_job"

definition demo_run2 :: Run where
  "demo_run2 = demo_run\<lparr>run_status := RunStatus.PREPARING, run_updated_at := 1000000\<rparr>"

definition demo_lease :: JobLease where
  "demo_lease = \<lparr>lease_job_id = 102, lease_run_id = 100, lease_workspace_id = 1, lease_correlation_id = 101,
     lease_worker_id = ''worker'', lease_lease_epoch = 1, lease_execution_epoch = 1,
     lease_expires_at = 31000000\<rparr>"

definition demo_attempt :: "RunStatus \<Rightarrow> RunAttempt" where
  "demo_attempt s = \<lparr>att_workspace_id = 1, att_run_id = 100, att_job_id = 102, att_sequence = 1,
     att_lease_epoch = 1, att_status = s, att_started_at = 1000000, att_terminal_at = None,
     att_safe_error_code = None\<rparr>"

definition demo_event :: "nat \<Rightarrow> RunEventType \<Rightarrow> RunStatus \<Rightarrow> RunEvent" where
  "demo_event n ty s = \<lparr>ev_workspace_id = 1, ev_run_id = 100, ev_sequence = n, ev_event_type = ty,
     ev_status = s, ev_safe_error_code = None, ev_occurred_at = 1000000\<rparr>"

definition demo_db2 :: db where
  "demo_db2 = demo_db1\<lparr>runs := [demo_run2], jobs := [demo_job2], run_attempts := [demo_attempt RunStatus.PREPARING],
     run_events := [demo_event 1 ADMITTED RunStatus.QUEUED, demo_event 2 ATTEMPT_STARTED RunStatus.PREPARING]\<rparr>"

lemma demo_db1_tables:
  "runs demo_db1 = [demo_run]" "jobs demo_db1 = [demo_job]" "run_attempts demo_db1 = []"
  "run_events demo_db1 = [demo_event 1 ADMITTED RunStatus.QUEUED]" "execution_state demo_db1 = Some demo_state1"
  "workspaces demo_db1 = [\<lparr>ws_id = 1, ws_name = ustr_of ''w''\<rparr>]"
  "memberships demo_db1 = [\<lparr>mem_workspace_id = 1, mem_user_id = 2, mem_role = OPERATOR\<rparr>]"
  "capabilities demo_db1 = [demo_capability]" "connections demo_db1 = [demo_connection]"
  "tool_bindings demo_db1 = [demo_binding]"
  "snapshot_capabilities demo_db1 = [\<lparr>dsc_workspace_id = 1, dsc_connection_id = 20,
        dsc_connection_version_id = 21, dsc_snapshot_id = 30, dsc_capability_version_id = 11\<rparr>]"
  by (simp_all add: demo_db1_def demo_db0_def demo_db_def empty_db_def admitted_event_def demo_event_def
      demo_rows demo_state1_def)

lemma demo_run_fields:
  "run_id demo_run = 100" "run_workspace_id demo_run = 1" "run_status demo_run = RunStatus.QUEUED"
  "run_correlation_id demo_run = 101" "run_actor_user_id demo_run = 2" "run_capability_id demo_run = 10"
  "run_capability_version_id demo_run = 11" "run_connection_id demo_run = 20"
  "run_connection_version_id demo_run = 21" "run_connection_control_epoch demo_run = 4"
  "run_capability_status_epoch demo_run = 3" "run_protocol_revision demo_run = QUALIFIED_PROTOCOL_REVISION"
  "run_cancellation_requested demo_run = False" "run_deadline demo_run = 301000000"
  by (simp_all add: demo_rows)

lemma demo_job_fields:
  "job_id demo_job = 102" "job_workspace_id demo_job = 1" "job_run_id demo_job = 100"
  "job_status demo_job = JobStatus.QUEUED" "job_deadline demo_job = 301000000" "job_execution_epoch demo_job = 1"
  "job_available_at demo_job = 1000000" "job_lease_epoch demo_job = 0"
  by (simp_all add: demo_rows demo_state1_def)

lemma demo_current: "claim_target_is_current demo_run demo_db1"
  by (simp add: claim_target_is_current_def membership_may_run_def membership_of_def capability_is_pinned_def
      connection_is_pinned_def binding_is_pinned_def scoped_capability_def scoped_connection_def
      observed_in_snapshot_def demo_db1_tables demo_run_fields)
    (simp add: demo_capability_def demo_connection_def demo_binding_def demo_db1_tables)

lemma demo_claimed:
  "claim_job default_limits (\<lambda>_. False) demo_clock ''worker'' 30000000 demo_db1
     = Inr ((Some demo_lease, []), demo_db2)"
proof -
  have rj: "run_jobs demo_db1 = [(demo_run, demo_job)]"
    by (simp add: run_jobs_def demo_db1_tables demo_run_fields demo_job_fields)
  have "expired_rows default_limits (\<lambda>_. False) 1000000 demo_db1 = []"
    "abandoned_rows default_limits (\<lambda>_. False) 1000000 demo_db1 = []"
    "claim_candidate demo_state1 (\<lambda>_. False) 1000000 demo_db1 = Some demo_run"
    by (simp_all add: expired_rows_def abandoned_rows_def claim_candidate_def claimable_def rj order_by_limit_def
        demo_run_fields demo_job_fields demo_state1_def)
  moreover have "job_for_run 100 demo_db1 = Some demo_job"
    by (simp add: job_for_run_def demo_db1_tables demo_job_fields)
  moreover have "grant_lease ''worker'' 30000000 1000000 demo_run demo_job demo_db1 = (demo_lease, demo_db2)"
    by (simp add: grant_lease_def close_lost_attempt_def lease_of_def leased_job_def new_attempt_def add_attempt_def
        put_job_def put_run_def append_next_event_def append_event_def rows_put_def next_sequence_def Let_def
        demo_db2_def demo_db1_tables demo_run_fields demo_job_fields demo_lease_def demo_attempt_def demo_event_def
        demo_job2_def demo_run2_def)
  moreover have "execution_state_row t demo_db1 = (demo_state1, demo_db1)" for t
    by (simp add: execution_state_row_def demo_db1_tables)
  moreover have "\<not> ses_dispatch_quarantined demo_state1" by (simp add: demo_state1_def)
  ultimately show ?thesis
    using demo_current
    by (simp add: claim_job_def terminalize_expired_jobs_def terminalize_abandoned_dispatches_def terminalize_each_def
        claim_run_def demo_clock_def demo_run_fields demo_job_fields Let_def)
qed

definition demo_db3 :: db where
  "demo_db3 = demo_db2\<lparr>runs := [demo_run\<lparr>run_status := RunStatus.SESSION_FENCED, run_updated_at := 1000000\<rparr>],
     run_attempts := [demo_attempt RunStatus.SESSION_FENCED],
     run_events := run_events demo_db2 @ [demo_event 3 RunEventType.SESSION_FENCED RunStatus.SESSION_FENCED]\<rparr>"

definition demo_db4 :: db where
  "demo_db4 = demo_db3\<lparr>runs := [demo_run\<lparr>run_status := RunStatus.DISPATCH_FENCED, run_updated_at := 1000000\<rparr>],
     run_attempts := [demo_attempt RunStatus.DISPATCH_FENCED],
     run_events := run_events demo_db3 @ [demo_event 4 RunEventType.DISPATCH_FENCED RunStatus.DISPATCH_FENCED]\<rparr>"

lemmas demo_tables = demo_db4_def demo_db3_def demo_db2_def demo_db1_tables

lemma demo_locked:
  "d \<in> {demo_db2, demo_db3, demo_db4} \<Longrightarrow> jobs d = [demo_job2] \<and> execution_state d = Some demo_state1
     \<and> workspaces d = [\<lparr>ws_id = 1, ws_name = ustr_of ''w''\<rparr>]"
  by (auto simp: demo_tables)

lemma demo_job2_fields:
  "job_id demo_job2 = 102" "job_workspace_id demo_job2 = 1" "job_run_id demo_job2 = 100"
  "job_status demo_job2 = JobStatus.LEASED" "job_deadline demo_job2 = 301000000" "job_execution_epoch demo_job2 = 1"
  "job_lease_owner demo_job2 = Some ''worker''" "job_lease_epoch demo_job2 = 1"
  "job_lease_expires_at demo_job2 = Some 31000000"
  by (simp_all add: demo_job2_def leased_job_def demo_job_fields)

lemma demo_authority:
  assumes "d \<in> {demo_db2, demo_db3}"
  shows "membership_may_run (demo_run\<lparr>run_status := s, run_updated_at := t\<rparr>) d"
    "capability_is_pinned (demo_run\<lparr>run_status := s, run_updated_at := t\<rparr>) d"
    "connection_is_pinned (demo_run\<lparr>run_status := s, run_updated_at := t\<rparr>) d"
    "binding_is_pinned (demo_run\<lparr>run_status := s, run_updated_at := t\<rparr>) d"
  using assms
  by (auto simp: membership_may_run_def membership_of_def capability_is_pinned_def
      connection_is_pinned_def binding_is_pinned_def scoped_capability_def scoped_connection_def
      observed_in_snapshot_def demo_run_fields demo_db2_def demo_db3_def demo_db1_tables demo_capability_def
      demo_connection_def demo_binding_def)

abbreviation demo_run_in :: "RunStatus \<Rightarrow> Run" where
  "demo_run_in s \<equiv> demo_run\<lparr>run_status := s, run_updated_at := 1000000\<rparr>"

lemma demo_lineage:
  assumes "d \<in> {demo_db2, demo_db3, demo_db4}" and "runs d = [demo_run_in s]"
  shows "locked_lease_lineage demo_lease d = Inr (demo_run_in s, demo_job2)"
  using assms(2) demo_locked [OF assms(1)]
  by (simp add: locked_lease_lineage_def locked_job_def demo_job2_fields demo_lease_def demo_run_fields)

lemma demo_fence:
  assumes "d \<in> {demo_db2, demo_db3}" and "runs d = [demo_run_in s]" and "run_attempts d = [demo_attempt s]"
    and "attempt_active s"
  shows "fence_attempt demo_lease s s' ty demo_clock d
    = Inr (demo_run_in s', append_next_event (demo_run_in s') ty s' None 1000000
             (d\<lparr>runs := [demo_run_in s'], run_attempts := [demo_attempt s']\<rparr>))"
proof -
  have d: "d \<in> {demo_db2, demo_db3, demo_db4}" using assms(1) by auto
  have "may_fence demo_state1 demo_lease s 1000000 (demo_run_in s) demo_job2 d"
    using demo_authority [OF assms(1), of 1000000 s]
    by (simp add: may_fence_def holds_lease_def unexpired_def demo_lease_def demo_state1_def demo_job2_fields
        demo_run_fields)
  moreover have "active_attempt 100 d = Some (demo_attempt s)"
    using assms(3,4) by (simp add: active_attempt_def demo_attempt_def)
  moreover have "put_attempt (demo_attempt s\<lparr>att_status := s'\<rparr>) (put_run (demo_run_in s') d)
      = d\<lparr>runs := [demo_run_in s'], run_attempts := [demo_attempt s']\<rparr>"
    using assms(2,3) by (simp add: put_attempt_def put_run_def rows_put_def demo_attempt_def att_key_def)
  ultimately show ?thesis
    using demo_lineage [OF d assms(2)] demo_locked [OF d]
    by (simp add: fence_attempt_def execution_state_row_def demo_clock_def demo_run_fields demo_job2_fields Let_def)
      (simp add: demo_lease_def demo_attempt_def)
qed

lemma demo_session:
  "fence_session demo_lease demo_clock demo_db2 = Inr (demo_run_in RunStatus.SESSION_FENCED, demo_db3)"
  using demo_fence [of demo_db2 RunStatus.PREPARING RunStatus.SESSION_FENCED RunEventType.SESSION_FENCED]
  by (simp add: fence_session_def attempt_active_def demo_run2_def demo_tables append_next_event_def
      append_event_def demo_run_fields demo_event_def next_sequence_def)

lemma demo_dispatch:
  "fence_dispatch demo_lease demo_clock demo_db3 = Inr (demo_run_in RunStatus.DISPATCH_FENCED, demo_db4)"
  using demo_fence [of demo_db3 RunStatus.SESSION_FENCED RunStatus.DISPATCH_FENCED RunEventType.DISPATCH_FENCED]
  by (simp add: fence_dispatch_def attempt_active_def demo_run2_def demo_tables append_next_event_def
      append_event_def demo_run_fields demo_event_def next_sequence_def)

section \<open>Completion\<close>

definition demo_content :: content_externals where
  "demo_content = \<lparr>sha256_hex = (\<lambda>_. demo_hex), json_float_repr = (\<lambda>_. []),
     contains_sensitive_json = (\<lambda>_. Some False)\<rparr>"

definition demo_result :: AcceptedToolResult where
  "demo_result = \<lparr>atr_payload = JDict [], atr_canonical_digest = demo_hex, atr_byte_count = 2\<rparr>"

definition demo_run5 :: Run where
  "demo_run5 = demo_run\<lparr>run_status := RunStatus.SUCCEEDED, run_safe_error_code := None,
     run_updated_at := 1000000, run_terminal_at := Some 1000000\<rparr>"

definition demo_db5 :: db where
  "demo_db5 = demo_db4\<lparr>runs := [demo_run5], jobs := [terminal_job JobStatus.SUCCEEDED 1000000 demo_job2],
     run_attempts := [terminal_attempt RunStatus.SUCCEEDED 1000000 None (demo_attempt RunStatus.DISPATCH_FENCED)],
     run_events := run_events demo_db4 @ [demo_event 5 TERMINAL RunStatus.SUCCEEDED],
     run_results := [\<lparr>res_run_id = 100, res_workspace_id = 1, res_payload = JDict [],
        res_canonical_digest = demo_hex, res_byte_count = 2, res_captured_at = 1000000,
        res_expires_at = 1000000 + days 14\<rparr>]\<rparr>"

lemma demo_accepted: "accepted_result_ok demo_content default_limits demo_result"
  by code_simp

lemma demo_completed:
  "complete_lease demo_lease RunStatus.SUCCEEDED None demo_clock demo_db4
     = Inr (demo_run5, demo_db5\<lparr>run_results := []\<rparr>)"
proof -
  have "locked_lease_lineage demo_lease demo_db4 = Inr (demo_run_in RunStatus.DISPATCH_FENCED, demo_job2)"
    by (rule demo_lineage) (simp_all add: demo_db4_def)
  moreover have "active_attempt 100 demo_db4 = Some (demo_attempt RunStatus.DISPATCH_FENCED)"
    by (simp add: active_attempt_def demo_db4_def demo_attempt_def attempt_active_def)
  moreover have "holds_lease demo_lease demo_job2" "unexpired 1000000 demo_job2"
    by (simp_all add: holds_lease_def unexpired_def demo_lease_def demo_job2_fields)
  moreover have "valid_worker_completion (demo_run_in RunStatus.DISPATCH_FENCED)
      (demo_attempt RunStatus.DISPATCH_FENCED) RunStatus.SUCCEEDED None"
    by (simp add: valid_worker_completion_def demo_attempt_def)
  ultimately show ?thesis
    using demo_locked [of demo_db4]
    by (simp add: complete_lease_def execution_state_row_def demo_clock_def demo_run_fields demo_job2_fields
        demo_state1_def Let_def)
      (simp add: demo_lease_def demo_attempt_def demo_db5_def demo_tables put_run_def put_job_def put_attempt_def
        rows_put_def append_next_event_def append_event_def next_sequence_def demo_event_def demo_run5_def
        demo_run_fields demo_job2_fields terminal_attempt_def terminal_job_def att_key_def
        demo_db1_def demo_db0_def demo_db_def empty_db_def)
qed

lemma demo_succeeded:
  "complete_invocation_success demo_content default_limits demo_lease demo_result demo_clock demo_db4
     = Inr (demo_run5, demo_db5)"
  using demo_accepted demo_completed
  by (simp add: complete_invocation_success_def demo_run5_def demo_run_fields demo_result_def Let_def)
    (simp add: demo_db5_def default_limits_def)

section \<open>Retention\<close>

text \<open>Fifteen days later the arguments are expired, ninety-one days later the run is deleted.\<close>

definition demo_late :: "int \<Rightarrow> clock" where
  "demo_late n _ = 1000000 + days n"

definition demo_run6 :: Run where
  "demo_run6 = without_content (1000000 + days 15) demo_run5"

definition demo_db6 :: db where
  "demo_db6 = demo_db5\<lparr>runs := [demo_run6], run_events := run_events demo_db5
     @ [(demo_event 6 CONTENT_EXPIRED RunStatus.SUCCEEDED)\<lparr>ev_occurred_at := 1000000 + days 15\<rparr>]\<rparr>"

lemma demo_stripped:
  "expire_retained_content 500 (\<lambda>_. False) (demo_late 15) demo_db5 = Inr (1, demo_db6)"
proof -
  have "run_arguments demo_run5 = Some (JDict [])" "run_arguments_expires_at demo_run5 = 1000000 + days 14"
    "run_id demo_run5 = 100" "run_workspace_id demo_run5 = 1" "run_status demo_run5 = RunStatus.SUCCEEDED"
    "run_safe_error_code demo_run5 = None"
    by (simp_all add: demo_run5_def demo_rows default_limits_def)
  then show ?thesis
    by (simp add: expire_retained_content_def invalid_batch_def content_expired_rows_def demo_db6_def demo_db5_def
        order_by_limit_def demo_late_def days_def expire_content_of_def append_next_event_def append_event_def
        put_run_def rows_put_def demo_run6_def without_content_def demo_tables demo_event_def next_sequence_def)
qed

definition demo_db7 :: db where
  "demo_db7 = demo_db6\<lparr>runs := [], run_results := [], jobs := [], run_attempts := [], run_events := [],
     confirmation_nonces := [], idempotency_records := []\<rparr>"

lemma demo_deleted:
  "delete_expired_run_metadata default_limits 500 (\<lambda>_. False) (demo_late 91) demo_db6 = Inr (1, demo_db7)"
proof -
  have "run_terminal_at demo_run6 = Some 1000000" "run_id demo_run6 = 100"
    by (simp_all add: demo_run6_def without_content_def demo_run5_def demo_rows)
  moreover have "confirmation_nonces demo_db6 = [demo_nonce]" "idempotency_records demo_db6 = [demo_record]"
    "nonce_run_id demo_nonce = 100" "idem_resource_id demo_record = 100"
    by (simp_all add: demo_db6_def demo_db5_def demo_tables demo_db1_def demo_rows Let_def)
  ultimately show ?thesis
    by (simp add: delete_expired_run_metadata_def invalid_batch_def metadata_expired_ids_def order_by_limit_def
        demo_late_def days_def default_limits_def delete_runs_def demo_db7_def)
      (simp add: demo_db6_def demo_db5_def demo_tables demo_event_def terminal_job_def demo_job2_fields
        terminal_attempt_def demo_attempt_def)
qed

section \<open>Reachability\<close>

lemma demo_limits: "\<not> invalid_limits (cfg_limits demo_cfg)"
  using default_limits_valid by (simp add: demo_cfg_def post_init_limits_def split: if_splits)

lemma demo_reach:
  "reach exec_init exec_step (demo_db, {})" "reach exec_init exec_step (demo_db1, {100})"
  "reach exec_init exec_step (demo_db2, {100})" "reach exec_init exec_step (demo_db3, {100})"
  "reach exec_init exec_step (demo_db4, {100})" "reach exec_init exec_step (demo_db5, {100})"
  "reach exec_init exec_step (demo_db6, {100})"
proof -
  show 0: "reach exec_init exec_step (demo_db, {})"
    by (rule reach.start) (simp add: exec_init_def demo_db_def empty_db_def)
  have "exec_step (demo_db, {}) (demo_db1, insert (fresh_run demo_ids) {})"
    by (rule exec_step.create [OF demo_created demo_limits]) simp
  then show 1: "reach exec_init exec_step (demo_db1, {100})"
    using 0 by (auto intro: reach.step simp: demo_ids_def)
  show 2: "reach exec_init exec_step (demo_db2, {100})"
    using 1 exec_step.claim [OF demo_claimed] by (rule reach.step)
  show 3: "reach exec_init exec_step (demo_db3, {100})"
    using 2 exec_step.fence_session [OF demo_session] by (rule reach.step)
  show 4: "reach exec_init exec_step (demo_db4, {100})"
    using 3 exec_step.fence_dispatch [OF demo_dispatch] by (rule reach.step)
  show 5: "reach exec_init exec_step (demo_db5, {100})"
    using 4 exec_step.succeed [OF demo_succeeded] by (rule reach.step)
  show "reach exec_init exec_step (demo_db6, {100})"
    using 5 exec_step.expire_content [OF demo_stripped] by (rule reach.step)
qed

end
