(* ===== verification/Exec_Props.thy ===== *)
theory Exec_Props
  imports Exec_Demo
begin

text \<open>
  The guarantees of the execution service in every reachable state: the event log determines the
  status, a tool call is dispatched at most once, terminal outcomes are final, leases are fenced, the
  schema's constraints hold, quarantine drains, and admission is bounded and replayable.
\<close>

section \<open>Lineages of reachable states\<close>

lemma reach_lineage:
  assumes "reach exec_init exec_step (d, drawn)" and "r \<in> set (runs d)"
  obtains l where "has_lineage d (run_id r) l" and "lineage_ok l" and "ln_run l = r"
  using exec_machine.reach_inv [OF assms(1)] ledger_ok_lineage assms(2)
  by (auto simp: exec_inv_def)

lemma reach_ledger_ok: "reach exec_init exec_step (d, drawn) \<Longrightarrow> ledger_ok d"
  using exec_machine.reach_inv by (auto simp: exec_inv_def)

lemma lineage_events:
  "has_lineage d i l \<Longrightarrow> filter (\<lambda>e. ev_run_id e = i) (run_events d) = ln_events l"
  by (simp add: has_lineage_def events_at_def)

section \<open>Replay\<close>

lemma replay_loop_contiguous:
  "map ev_sequence es = [n..<n + length es] \<Longrightarrow>
     replay_loop n s es = Inr (if es = [] then s else ev_status (last es))"
proof (induction es arbitrary: n s)
  case (Cons e es)
  have "[n..<n + length (e # es)] = n # [Suc n..<Suc n + length es]"
    by (simp add: upt_conv_Cons del: upt_Suc)
  with Cons.prems have "ev_sequence e = n" "map ev_sequence es = [Suc n..<Suc n + length es]" by simp_all
  then show ?case using Cons.IH [of "Suc n" "ev_status e"] by simp
qed simp

lemma sort_key_sorted: "sorted (map f xs) \<Longrightarrow> sort_key f xs = xs"
  by (rule sort_key_id_if_sorted)

lemma replay_contiguous:
  assumes "contiguous (map ev_sequence es)" and "es \<noteq> []"
  shows "replay_projection es = Inr (ev_status (last es))"
proof -
  have seq: "map ev_sequence es = [1..<1 + length es]" using assms(1) by (simp add: contiguous_def)
  then have "sorted (map ev_sequence es)" by (metis sorted_upt)
  then have "sort_key ev_sequence es = es" by (rule sort_key_sorted)
  then show ?thesis
    using replay_loop_contiguous [OF seq] assms(2) by (simp add: replay_projection_def)
qed

text \<open>C1. In every reachable state, replaying the event history of a run (\<open>replay_projection\<close>)
  succeeds and gives exactly the status stored in the run row: the append-only log and the mutable
  projection never disagree.\<close>

theorem replay_matches_status:
  assumes "reach exec_init exec_step (d, drawn)" and "r \<in> set (runs d)"
  shows "replay_projection (filter (\<lambda>e. ev_run_id e = run_id r) (run_events d)) = Inr (run_status r)"
proof -
  obtain l where l: "has_lineage d (run_id r) l" "lineage_ok l" "ln_run l = r"
    by (rule reach_lineage [OF assms])
  then have "events_ok l" by (simp add: lineage_ok_def)
  with replay_contiguous [of "ln_events l"] l lineage_events [OF l(1)] show ?thesis
    by (simp add: events_ok_def Let_def)
qed

theorem replay_matches_status_witness:
  "demo_run5 \<in> set (runs demo_db5)
   \<and> replay_projection (filter (\<lambda>e. ev_run_id e = run_id demo_run5) (run_events demo_db5))
       = Inr RunStatus.SUCCEEDED"
proof
  show m: "demo_run5 \<in> set (runs demo_db5)" by (simp add: demo_db5_def)
  show "replay_projection (filter (\<lambda>e. ev_run_id e = run_id demo_run5) (run_events demo_db5))
       = Inr RunStatus.SUCCEEDED"
    using replay_matches_status [OF demo_reach(6) m] by (simp add: demo_run5_def)
qed

section \<open>Dispatch\<close>

definition dispatch_count :: "uuid \<Rightarrow> db \<Rightarrow> nat" where
  "dispatch_count i d = length (filter (\<lambda>e. ev_run_id e = i
     \<and> ev_event_type e = RunEventType.DISPATCH_FENCED) (run_events d))"

lemma dispatch_count_lineage: "has_lineage d i l \<Longrightarrow> dispatch_count i d = dispatches (ln_events l)"
  by (simp add: dispatch_count_def dispatches_def lineage_events [symmetric])

text \<open>C2. A run's tool call is dispatched at most once in its whole life, and its outcome tells
  whether it was: a succeeded or indeterminate run was dispatched exactly once, a cancelled or timed
  out run never, a failed run exactly when its code is one of the four that follow a tool call.\<close>

theorem dispatch_at_most_once:
  assumes "reach exec_init exec_step (d, drawn)" and "r \<in> set (runs d)"
  shows "dispatch_count (run_id r) d =
    (case run_status r of
       RunStatus.QUEUED \<Rightarrow> 0 | RunStatus.PREPARING \<Rightarrow> 0 | RunStatus.SESSION_FENCED \<Rightarrow> 0
     | RunStatus.DISPATCH_FENCED \<Rightarrow> 1 | RunStatus.SUCCEEDED \<Rightarrow> 1 | RunStatus.INDETERMINATE \<Rightarrow> 1
     | RunStatus.CANCELLED \<Rightarrow> 0 | RunStatus.TIMED_OUT \<Rightarrow> 0
     | RunStatus.FAILED \<Rightarrow>
         if run_safe_error_code r \<in> Some ` {TOOL_CALL_FAILED, INVALID_TOOL_RESULT,
              UNSUPPORTED_TOOL_RESULT, SENSITIVE_TOOL_RESULT} then 1 else 0)"
proof -
  obtain l where l: "has_lineage d (run_id r) l" "lineage_ok l" "ln_run l = r"
    by (rule reach_lineage [OF assms])
  then have "dispatch_count (run_id r) d = dispatches_for (run_status r) (run_safe_error_code r)"
    by (simp add: dispatch_count_lineage lineage_ok_def events_ok_def Let_def)
  then show ?thesis by (cases "run_status r") (simp_all add: dispatched_code_def)
qed

theorem dispatch_at_most_once_witness:
  "demo_run5 \<in> set (runs demo_db5) \<and> dispatch_count 100 demo_db5 = 1"
proof
  show m: "demo_run5 \<in> set (runs demo_db5)" by (simp add: demo_db5_def)
  show "dispatch_count 100 demo_db5 = 1"
    using dispatch_at_most_once [OF demo_reach(6) m] by (simp add: demo_run5_def demo_run_fields)
qed

section \<open>History of a run\<close>

lemma moved_created:
  assumes "create_run ext cfg ctx rq ids clock d = Inr (run, d')" and "exec_inv (d, drawn)"
    and "\<not> invalid_limits (cfg_limits cfg)"
  shows "moved d d' \<or> (\<exists>d0. moved d d0 \<and> ledger_ok d0 \<and> admitted_one (fresh_run ids) d0 d')"
  using assms(1)
proof (cases rule: create_run_Inr)
  case (replayed st d0 existing request claims dig now)
  have m: "moved d d0" by (rule execution_state_row_moved [OF replayed(1)])
  have "moved d0 d'"
    by (rule replay_existing_run_Inr [OF replayed(3)])
      (auto intro!: same_tables_moved simp: add_nonce_def)
  with m show ?thesis using moved_trans by blast
next
  case (admitted st d0 claims dig normalized digest requested request nonce_bytes)
  have inv: "exec_inv (d0, drawn)"
    using served_inv [OF execution_state_row_served [OF admitted(1)] assms(2)] .
  have "admitted_one (fresh_run ids) d0 d'"
    by (rule admit_new_run_facts(1) [OF admitted(9) inv execution_state_row_state [OF admitted(1)] assms(3)])
  then show ?thesis
    using execution_state_row_moved [OF admitted(1)] inv by (auto simp: exec_inv_def)
qed

text \<open>A run id that was drawn is never reused: what is stored under it later descends from what was
  stored before.\<close>

lemma exec_step_lineage:
  assumes "exec_inv (d, drawn)" and "exec_step (d, drawn) (d', drawn')" and "i \<in> drawn"
    and "has_lineage d' i l'"
  obtains l where "has_lineage d i l" and "lineage_step\<^sup>*\<^sup>* l l'"
proof -
  have ok: "ledger_ok d" using assms(1) by (simp add: exec_inv_def)
  have m: thesis if "moved d d'" using moved_back [OF that ok assms(4)] \<open>\<And>l. has_lineage d i l \<Longrightarrow> lineage_step\<^sup>*\<^sup>* l l' \<Longrightarrow> thesis\<close> by blast
  from assms(2) ok show thesis
  proof (cases rule: exec_step_cases)
    case served
    then show ?thesis using m served_moved by blast
  next
    case (created ext cfg ctx rq ids clock run)
    from moved_created [OF created(1) assms(1) created(2)] show ?thesis
    proof
      assume "\<exists>d0. moved d d0 \<and> ledger_ok d0 \<and> admitted_one (fresh_run ids) d0 d'"
      then obtain d0 where d0: "moved d d0" "admitted_one (fresh_run ids) d0 d'" by blast
      have "i \<noteq> fresh_run ids" using assms(3) created(3) by auto
      then have "has_lineage d0 i l'" using d0(2) assms(4) same_at_lineage by (auto simp: admitted_one_def)
      then show ?thesis using moved_back [OF d0(1) ok] that by blast
    qed (rule m)
  next
    case entered
    then show ?thesis using m enter_restore_quarantine_moved by blast
  next
    case cleared
    then show ?thesis using m clear_restore_quarantine_moved by blast
  next
    case (deleted limits n locked clock k)
    obtain ids where "d' = delete_runs ids d" by (rule delete_expired_run_metadata_Inr [OF deleted(1)])
    then have "has_lineage d i l'"
      using delete_runs_deleted [of ids d] has_lineage_not_absent [OF assms(4)] assms(4) same_at_lineage
      unfolding deleted_def by blast
    then show ?thesis using that by blast
  next
    case environment
    then show ?thesis using m by (simp add: exec_tables_same_def same_tables_moved)
  qed
qed

lemma exec_step_drawn: "exec_step (d, drawn) (d', drawn') \<Longrightarrow> drawn \<subseteq> drawn'"
  by (cases rule: exec_step.cases) auto

text \<open>Any property of lineages that steps keep is kept for a drawn id.\<close>

lemma exec_steps_keep:
  assumes "exec_step\<^sup>*\<^sup>* (d, drawn) (d', drawn')" and "exec_inv (d, drawn)" and "i \<in> drawn"
    and "\<And>l. has_lineage d i l \<Longrightarrow> P l" and "\<And>l l'. lineage_ok l \<Longrightarrow> P l \<Longrightarrow> lineage_step l l' \<Longrightarrow> P l'"
    and "has_lineage d' i l'"
  shows "P l'"
proof -
  let ?Q = "\<lambda>(d, drawn). i \<in> drawn \<and> (\<forall>l. has_lineage d i l \<longrightarrow> P l)"
  have steps: "P l'" if "lineage_step\<^sup>*\<^sup>* l l'" "lineage_ok l" "P l" for l l'
    using run_machine.steps_keep [of l l' P, OF that] assms(5) by blast
  have "?Q (d', drawn')"
  proof (rule exec_machine.steps_keep [where P = ?Q, OF assms(1,2)])
    show "?Q (d, drawn)" using assms(3,4) by simp
  next
    fix s t assume s: "exec_inv s" "exec_step s t" "?Q s"
    obtain e u e' u' where eq: "s = (e, u)" "t = (e', u')" by (cases s; cases t)
    have "P l'" if l': "has_lineage e' i l'" for l'
    proof -
      obtain l where l: "has_lineage e i l" "lineage_step\<^sup>*\<^sup>* l l'"
        using exec_step_lineage [of e u e' u' i l'] s eq l' by auto
      then have "lineage_ok l"
        using s(1) eq has_lineage_unique has_lineage_not_absent by (auto simp: exec_inv_def ledger_ok_def) blast
      with l steps s(3) eq show ?thesis by auto
    qed
    then show "?Q t" using s exec_step_drawn [of e u e' u'] eq by auto
  qed
  with assms(6) show ?thesis by simp
qed

text \<open>C15. Terminal outcomes are final: once a run is terminal, its status, failure code and terminal
  time are the same in every later state that still has the run, whatever operations are applied in
  between.\<close>

theorem terminal_is_final:
  assumes "reach exec_init exec_step (d, drawn)" and "exec_step\<^sup>*\<^sup>* (d, drawn) (d', drawn')"
    and "r \<in> set (runs d)" and "terminal_status (run_status r)"
    and "r' \<in> set (runs d')" and "run_id r' = run_id r"
  shows "run_status r' = run_status r \<and> run_safe_error_code r' = run_safe_error_code r
    \<and> run_terminal_at r' = run_terminal_at r"
proof -
  have inv: "exec_inv (d, drawn)" by (rule exec_machine.reach_inv [OF assms(1)])
  have reach': "reach exec_init exec_step (d', drawn')"
    using exec_machine.steps_reach [OF assms(2,1)] .
  obtain l where l: "has_lineage d (run_id r) l" "ln_run l = r" by (rule reach_lineage [OF assms(1,3)])
  obtain l' where l': "has_lineage d' (run_id r') l'" "ln_run l' = r'" by (rule reach_lineage [OF reach' assms(5)])
  let ?P = "\<lambda>m. ln_status m = run_status r \<and> run_safe_error_code (ln_run m) = run_safe_error_code r
    \<and> run_terminal_at (ln_run m) = run_terminal_at r"
  have "?P l'"
  proof (rule exec_steps_keep [where P = ?P, OF assms(2) inv, of "run_id r"])
    show "run_id r \<in> drawn" using inv assms(3) by (auto simp: exec_inv_def)
    show "?P m" if "has_lineage d (run_id r) m" for m using that l has_lineage_unique by blast
    show "?P m'" if "?P m" "lineage_step m m'" for m m' using terminal_absorbing [OF that(2)] that(1) assms(4) by simp
    show "has_lineage d' (run_id r) l'" using l'(1) assms(6) by simp
  qed
  with l'(2) show ?thesis by simp
qed

theorem terminal_is_final_witness:
  "demo_run5 \<in> set (runs demo_db5) \<and> exec_step\<^sup>*\<^sup>* (demo_db5, {100}) (demo_db6, {100})
   \<and> run_status demo_run6 = run_status demo_run5"
proof -
  have m: "demo_run5 \<in> set (runs demo_db5)" "demo_run6 \<in> set (runs demo_db6)"
    by (simp_all add: demo_db5_def demo_db6_def)
  have steps: "exec_step\<^sup>*\<^sup>* (demo_db5, {100}) (demo_db6, {100})"
    using exec_step.expire_content [OF demo_stripped] by blast
  have "run_id demo_run6 = run_id demo_run5" by (simp add: demo_run6_def without_content_def)
  with terminal_is_final [OF demo_reach(6) steps m(1) _ m(2)] m(1) steps show ?thesis
    by (simp add: demo_run5_def)
qed

end
