(* ===== verification/Exec_Schema.thy ===== *)
theory Exec_Schema
  imports Exec_Props
begin

text \<open>
  Every reachable database satisfies the constraints that the schema declares on the execution
  tables, and no step changes a terminal status: a flush of the service never raises on either
  account.
\<close>

section \<open>Constraints\<close>

lemma distinct_by_group:
  assumes "\<And>x y. key x = key y \<Longrightarrow> grp x = grp y"
    and "\<And>i. distinct (map key (filter (\<lambda>x. grp x = i) xs))"
  shows "distinct (map key xs)"
  using assms(2)
proof (induction xs)
  case (Cons x xs)
  have "distinct (map key (filter (\<lambda>y. grp y = grp x) (x # xs)))" by (rule Cons.prems)
  then have grp: "key x \<notin> key ` {y \<in> set xs. grp y = grp x}" by simp
  have "key x \<notin> key ` set xs"
  proof
    assume "key x \<in> key ` set xs"
    then obtain y where y: "y \<in> set xs" "key x = key y" by (rule imageE) blast
    then have "y \<in> {y \<in> set xs. grp y = grp x}" using assms(1) [OF y(2)] by simp
    then have "key y \<in> key ` {y \<in> set xs. grp y = grp x}" by (rule imageI)
    with grp y(2) show False by simp
  qed
  moreover have "distinct (map key (filter (\<lambda>y. grp y = i) xs))" for i
    using Cons.prems [of i] by (auto split: if_splits)
  ultimately show ?case using Cons.IH by simp
qed simp

lemma row_lineage:
  assumes "ledger_ok d"
  shows "a \<in> set (run_attempts d) \<Longrightarrow> \<exists>l. has_lineage d (att_run_id a) l \<and> lineage_ok l \<and> a \<in> set (ln_attempts l)"
    and "e \<in> set (run_events d) \<Longrightarrow> \<exists>l. has_lineage d (ev_run_id e) l \<and> lineage_ok l \<and> e \<in> set (ln_events l)"
proof -
  have lin: "absent d i \<or> (\<exists>l. has_lineage d i l \<and> lineage_ok l)" for i
    using assms by (simp add: ledger_ok_def)
  show "\<exists>l. has_lineage d (att_run_id a) l \<and> lineage_ok l \<and> a \<in> set (ln_attempts l)"
    if "a \<in> set (run_attempts d)"
  proof -
    have "a \<in> set (attempts_at d (att_run_id a))" using that by (simp add: attempts_at_def)
    with lin [of "att_run_id a"] show ?thesis by (auto simp: absent_def has_lineage_def)
  qed
  show "\<exists>l. has_lineage d (ev_run_id e) l \<and> lineage_ok l \<and> e \<in> set (ln_events l)"
    if "e \<in> set (run_events d)"
  proof -
    have "e \<in> set (events_at d (ev_run_id e))" using that by (simp add: events_at_def)
    with lin [of "ev_run_id e"] show ?thesis by (auto simp: absent_def has_lineage_def)
  qed
qed

lemma lineage_run_exists:
  "has_lineage d i l \<Longrightarrow> run_exists (run_workspace_id (ln_run l)) i d"
  using has_lineage_mem [of d i l] has_lineage_id [of d i l] by (auto simp: run_exists_def list_ex_iff)

lemma lineage_active_attempts:
  assumes "has_lineage d i l" and "lineage_ok l"
  shows "length (active_attempts_of i d) \<le> 1"
proof -
  have view: "active_attempts_of i d = filter (\<lambda>a. attempt_active (att_status a)) (ln_attempts l)"
    using assms(1) by (simp add: has_lineage_def attempts_at_def active_attempts_of_def) (metis filter_filter conj_commute)
  have none: "filter (\<lambda>a. attempt_active (att_status a)) as = []"
    if "list_all (\<lambda>a. terminal_status (att_status a)) as" for as
    using that by (auto simp: list_all_iff filter_empty_conv dest: terminal_not_active)
  have "attempts_ok l" using assms(2) by (simp add: lineage_ok_def)
  then have "list_all (\<lambda>a. terminal_status (att_status a)) (butlast (ln_attempts l))"
    by (auto simp: attempts_ok_def Let_def list_all_iff dest: in_set_butlastD split: if_splits)
  from none [OF this] show ?thesis
    by (cases "ln_attempts l" rule: rev_cases) (simp_all add: view)
qed

lemma ledger_constraints:
  assumes "ledger_ok d"
  shows "execution_constraints d"
proof -
  note run = ledger_ok_lineage [OF assms]
  note job = ledger_ok_job [OF assms]
  note row = row_lineage [OF assms]
  have lin: "absent d i \<or> (\<exists>l. has_lineage d i l \<and> lineage_ok l)" for i
    using assms by (simp add: ledger_ok_def)
  have "list_all run_check (runs d)"
    using run by (fastforce simp: list_all_iff lineage_ok_def checks_ok_def)
  moreover have "list_all job_check (jobs d)"
    using job by (fastforce simp: list_all_iff lineage_ok_def checks_ok_def)
  moreover have "distinct (map job_run_id (jobs d))"
  proof (rule distinct_keys)
    fix i show "length (filter (\<lambda>j. job_run_id j = i) (jobs d)) \<le> 1"
      using lin [of i] by (auto simp: absent_def has_lineage_def jobs_at_def)
  qed
  moreover have "list_all (\<lambda>j. run_exists (job_workspace_id j) (job_run_id j) d) (jobs d)"
  proof -
    have "run_exists (job_workspace_id j) (job_run_id j) d" if "j \<in> set (jobs d)" for j
      using job [OF that] lineage_run_exists by (auto simp: lineage_ok_def keys_ok_def Let_def)
    then show ?thesis by (simp add: list_all_iff)
  qed
  moreover have "list_all attempt_check (run_attempts d)"
    using row(1) by (fastforce simp: list_all_iff lineage_ok_def checks_ok_def)
  moreover have "distinct (map att_key (run_attempts d))"
  proof (rule distinct_by_group [where grp = att_run_id])
    fix i show "distinct (map att_key (filter (\<lambda>a. att_run_id a = i) (run_attempts d)))"
      using lin [of i] attempts_distinct by (auto simp: absent_def has_lineage_def attempts_at_def)
  qed (simp add: att_key_def)
  moreover have "list_all (\<lambda>a. run_exists (att_workspace_id a) (att_run_id a) d
      \<and> list_ex (\<lambda>j. job_workspace_id j = att_workspace_id a \<and> job_id j = att_job_id a) (jobs d)
      \<and> length (active_attempts_of (att_run_id a) d) \<le> 1) (run_attempts d)"
  proof -
    have "run_exists (att_workspace_id a) (att_run_id a) d
      \<and> list_ex (\<lambda>j. job_workspace_id j = att_workspace_id a \<and> job_id j = att_job_id a) (jobs d)
      \<and> length (active_attempts_of (att_run_id a) d) \<le> 1" if a: "a \<in> set (run_attempts d)" for a
    proof -
      obtain l where l: "has_lineage d (att_run_id a) l" "lineage_ok l" "a \<in> set (ln_attempts l)"
        using row(1) [OF a] by blast
      then have "att_workspace_id a = run_workspace_id (ln_run l)" "att_job_id a = job_id (ln_job l)"
        "job_workspace_id (ln_job l) = run_workspace_id (ln_run l)"
        by (auto simp: lineage_ok_def keys_ok_def Let_def list_all_iff)
      then show ?thesis
        using l lineage_run_exists [OF l(1)] has_lineage_mem [OF l(1)] lineage_active_attempts [OF l(1,2)]
        by (auto simp: list_ex_iff)
    qed
    then show ?thesis by (simp add: list_all_iff)
  qed
  moreover have "list_all (\<lambda>e. event_check e \<and> run_exists (ev_workspace_id e) (ev_run_id e) d) (run_events d)"
  proof -
    have "event_check e \<and> run_exists (ev_workspace_id e) (ev_run_id e) d" if "e \<in> set (run_events d)" for e
      using row(2) [OF that] lineage_run_exists
      by (fastforce simp: lineage_ok_def keys_ok_def checks_ok_def Let_def list_all_iff)
    then show ?thesis by (simp add: list_all_iff)
  qed
  moreover have "distinct (map (\<lambda>e. (ev_run_id e, ev_sequence e)) (run_events d))"
  proof (rule distinct_by_group [where grp = ev_run_id])
    fix i
    have "distinct (map ev_sequence (events_at d i))"
      using lin [of i] contiguous_distinct
      by (auto simp: absent_def has_lineage_def lineage_ok_def events_ok_def Let_def)
    then show "distinct (map (\<lambda>e. (ev_run_id e, ev_sequence e)) (filter (\<lambda>e. ev_run_id e = i) (run_events d)))"
      by (auto simp: distinct_map inj_on_def events_at_def)
  qed simp
  ultimately show ?thesis
    using ledger_ok_distinct_runs [OF assms] ledger_ok_distinct_jobs [OF assms]
    by (simp add: execution_constraints_def list_all_iff)
qed



section \<open>The terminal-status listener\<close>

text \<open>A terminal attempt keeps its status.\<close>

lemma close_active_keep:
  "a \<in> set as \<Longrightarrow> terminal_status (att_status a) \<Longrightarrow> a \<in> set (close_active s now code as)"
  by (auto simp: close_active_def image_iff dest: terminal_not_active)

lemma map_last_keep:
  assumes "a \<in> set as" and "terminal_status (att_status a)" and "attempt_active (att_status (last as))"
  shows "a \<in> set (map_last f as)"
  using assms by (cases as rule: rev_cases) (auto simp: map_last_def dest: terminal_not_active)

lemma step_keeps_terminal_attempt:
  assumes "lineage_step l l'" and "lineage_ok l" and "a \<in> set (ln_attempts l)"
    and "terminal_status (att_status a)"
  shows "a \<in> set (ln_attempts l')"
  using assms(1)
proof cases
  case (claim worker dur now)
  then show ?thesis
    using assms(3,4) close_active_keep by (auto simp: claimed_def Let_def lost_def)
next
  case (fence_session now)
  then have "attempt_active (att_status (last (ln_attempts l)))"
    using assms(2) by (auto simp: lineage_ok_def attempts_ok_def Let_def attempt_active_def)
  with fence_session show ?thesis using map_last_keep [OF assms(3,4)] by (simp add: fenced_def)
next
  case (fence_dispatch now)
  then have "attempt_active (att_status (last (ln_attempts l)))"
    using assms(2) by (auto simp: lineage_ok_def attempts_ok_def Let_def attempt_active_def)
  with fence_dispatch show ?thesis using map_last_keep [OF assms(3,4)] by (simp add: fenced_def)
next
  case (complete s code now)
  then have "attempt_active (att_status (last (ln_attempts l)))"
    using assms(2) by (auto simp: lineage_ok_def attempts_ok_def Let_def)
  with complete show ?thesis using map_last_keep [OF assms(3,4)] by (simp add: completed_def)
next
  case (finish s code ty now)
  then show ?thesis using assms(3,4) close_active_keep by (simp add: ended_def)
qed (use assms(3) in \<open>auto simp: noted_def\<close>)

lemma steps_keep_terminal_attempt:
  assumes "lineage_step\<^sup>*\<^sup>* l l'" and "lineage_ok l" and "a \<in> set (ln_attempts l)"
    and "terminal_status (att_status a)"
  shows "a \<in> set (ln_attempts l')"
  using run_machine.steps_keep [of l l' "\<lambda>m. a \<in> set (ln_attempts m)", OF assms(1-3)]
    step_keeps_terminal_attempt assms(4) by blast

lemma exec_step_listener:
  assumes "exec_inv (d, drawn)" and "exec_step (d, drawn) (d', drawn')"
  shows "terminal_status_kept d d'"
proof -
  have ok: "ledger_ok d" "ledger_ok d'"
    using assms exec_step_inv [OF assms] by (auto simp: exec_inv_def)
  have drawn: "i \<in> drawn" if "has_lineage d i l" for i l
    using assms(1) has_lineage_mem [OF that] has_lineage_id [OF that] by (auto simp: exec_inv_def)
  have hist: "lineage_step\<^sup>*\<^sup>* l l'" if "has_lineage d i l" "has_lineage d' i l'" for i l l'
    using exec_step_lineage [OF assms drawn [OF that(1)] that(2)] has_lineage_unique that(1) by metis
  have "run_status r' = run_status r"
    if r: "r \<in> set (runs d)" "r' \<in> set (runs d')" "run_id r' = run_id r" "terminal_status (run_status r)" for r r'
    using ledger_ok_lineage [OF ok(1) r(1)] ledger_ok_lineage [OF ok(2) r(2)] hist steps_terminal r(3,4) by metis
  moreover have "job_status j' = job_status j"
    if j: "j \<in> set (jobs d)" "j' \<in> set (jobs d')" "job_run_id j' = job_run_id j"
      "terminal_job_status (job_status j)" for j j'
  proof -
    obtain l l' where l: "has_lineage d (job_run_id j) l" "lineage_ok l" "ln_job l = j"
      "has_lineage d' (job_run_id j) l'" "lineage_ok l'" "ln_job l' = j'"
      using ledger_ok_job [OF ok(1) j(1)] ledger_ok_job [OF ok(2) j(2)] j(3) by auto
    then have "terminal_status (ln_status l)"
      using j(4) terminal_job_status_for by (simp add: lineage_ok_def lease_ok_def)
    then have "ln_status l' = ln_status l" using steps_terminal [OF hist [OF l(1,4)]] by simp
    then show ?thesis using l by (auto simp: lineage_ok_def lease_ok_def)
  qed
  moreover have "att_status a' = att_status a"
    if a: "a \<in> set (run_attempts d)" "a' \<in> set (run_attempts d')" "att_key a' = att_key a"
      "terminal_status (att_status a)" for a a'
  proof -
    have run: "att_run_id a' = att_run_id a" using a(3) by (simp add: att_key_def)
    obtain l l' where l: "has_lineage d (att_run_id a) l" "lineage_ok l" "a \<in> set (ln_attempts l)"
      "has_lineage d' (att_run_id a) l'" "lineage_ok l'" "a' \<in> set (ln_attempts l')"
      using row_lineage(1) [OF ok(1) a(1)] row_lineage(1) [OF ok(2) a(2)] run by auto
    have "a \<in> set (ln_attempts l')"
      by (rule steps_keep_terminal_attempt [OF hist [OF l(1,4)] l(2,3) a(4)])
    then have "a' = a" using attempts_distinct [OF l(5)] l(6) a(3) by (auto simp: distinct_map inj_on_def)
    then show ?thesis by simp
  qed
  ultimately show ?thesis by (auto simp: terminal_status_kept_def list_all_iff)
qed

text \<open>No step of the service changes the status of a run, job or attempt that is already terminal:
  the \<open>before_update\<close> listener \<open>_reject_terminal_status_update\<close> never raises.\<close>

theorem listener_never_raises:
  assumes "reach exec_init exec_step (d, drawn)" and "exec_step (d, drawn) (d', drawn')"
  shows "terminal_status_kept d d'"
  by (rule exec_step_listener [OF exec_machine.reach_inv [OF assms(1)] assms(2)])

theorem listener_never_raises_witness:
  "exec_step (demo_db5, {100}) (demo_db6, {100}) \<and> terminal_status_kept demo_db5 demo_db6"
  using listener_never_raises [OF demo_reach(6)] exec_step.expire_content [OF demo_stripped] by blast

end
