(* ===== verification/Exec_Lease.thy ===== *)
theory Exec_Lease
  imports Exec_Schema
begin

text \<open>
  Leases: what a granted lease says, that a superseded or finished lease is never accepted again,
  that a fence is passed only under current authority, and the restore quarantine, which stops all
  work and drains.
\<close>

section \<open>Lease protocols\<close>

text \<open>A machine whose clients hold leases: once a lease is over it stays over, and no operation
  accepts it.\<close>

locale lease_protocol = machine init step inv
  for init :: "'s \<Rightarrow> bool" and step :: "'s \<Rightarrow> 's \<Rightarrow> bool" and inv :: "'s \<Rightarrow> bool" +
  fixes over :: "'l \<Rightarrow> 's \<Rightarrow> bool"
    and accepts :: "'l \<Rightarrow> 's \<Rightarrow> bool"
  assumes over_step: "inv s \<Longrightarrow> step s t \<Longrightarrow> over l s \<Longrightarrow> over l t"
    and over_rejects: "inv s \<Longrightarrow> over l s \<Longrightarrow> \<not> accepts l s"
begin

lemma over_forever: "step\<^sup>*\<^sup>* s t \<Longrightarrow> inv s \<Longrightarrow> over l s \<Longrightarrow> over l t"
  by (rule steps_keep [where P = "over l"]) (auto intro: over_step)

lemma never_accepted: "step\<^sup>*\<^sup>* s t \<Longrightarrow> inv s \<Longrightarrow> over l s \<Longrightarrow> \<not> accepts l t"
  using over_forever steps_inv over_rejects by blast

end

section \<open>Job leases\<close>

definition lease_over :: "JobLease \<Rightarrow> db \<times> uuid set \<Rightarrow> bool" where
  "lease_over lease = (\<lambda>(d, drawn). lease_run_id lease \<in> drawn
     \<and> (\<forall>j \<in> set (jobs d). job_id j = lease_job_id lease \<and> job_run_id j = lease_run_id lease \<longrightarrow>
          lease_lease_epoch lease < job_lease_epoch j \<or> terminal_job_status (job_status j)))"

text \<open>Some worker operation accepts the lease, for some reading of the clock and some further
  arguments.\<close>

definition lease_accepted :: "JobLease \<Rightarrow> db \<times> uuid set \<Rightarrow> bool" where
  "lease_accepted lease = (\<lambda>(d, drawn). \<exists>clock.
     (\<exists>x. fence_session lease clock d = Inr x) \<or> (\<exists>x. fence_dispatch lease clock d = Inr x)
     \<or> (\<exists>dur x. heartbeat lease dur clock d = Inr x)
     \<or> (\<exists>s code x. complete_lease lease s code clock d = Inr x)
     \<or> (\<exists>ext limits result x. complete_invocation_success ext limits lease result clock d = Inr x))"

lemma lease_over_lineage:
  assumes "ledger_ok d"
  shows "lease_over lease (d, drawn) \<longleftrightarrow> lease_run_id lease \<in> drawn
    \<and> (\<forall>l. has_lineage d (lease_run_id lease) l \<longrightarrow> job_id (ln_job l) = lease_job_id lease \<longrightarrow>
         lease_lease_epoch lease < job_lease_epoch (ln_job l) \<or> terminal_status (ln_status l))"
    (is "_ \<longleftrightarrow> _ \<and> ?all")
proof -
  have "?all \<longleftrightarrow> (\<forall>j \<in> set (jobs d). job_id j = lease_job_id lease \<and> job_run_id j = lease_run_id lease \<longrightarrow>
          lease_lease_epoch lease < job_lease_epoch j \<or> terminal_job_status (job_status j))"
    (is "_ \<longleftrightarrow> ?rows")
  proof
    assume all: ?all
    show ?rows
    proof (intro ballI impI)
      fix j assume j: "j \<in> set (jobs d)" "job_id j = lease_job_id lease \<and> job_run_id j = lease_run_id lease"
      obtain l where l: "has_lineage d (job_run_id j) l" "lineage_ok l" "ln_job l = j"
        using ledger_ok_job [OF assms j(1)] by blast
      then have "job_status j = job_status_for (ln_status l)" by (auto simp: lineage_ok_def lease_ok_def)
      with all l j(2) show "lease_lease_epoch lease < job_lease_epoch j \<or> terminal_job_status (job_status j)"
        by (auto simp: terminal_job_status_for)
    qed
  next
    assume rows: ?rows
    show ?all
    proof (intro allI impI)
      fix l assume l: "has_lineage d (lease_run_id lease) l" "job_id (ln_job l) = lease_job_id lease"
      then have "lineage_ok l"
        using assms has_lineage_unique has_lineage_not_absent by (auto simp: ledger_ok_def) blast
      then have "terminal_job_status (job_status (ln_job l)) \<longleftrightarrow> terminal_status (ln_status l)"
        by (simp add: lineage_ok_def lease_ok_def terminal_job_status_for)
      with rows l has_lineage_mem [OF l(1)] has_lineage_id [OF l(1)]
      show "lease_lease_epoch lease < job_lease_epoch (ln_job l) \<or> terminal_status (ln_status l)" by auto
    qed
  qed
  then show ?thesis by (simp add: lease_over_def)
qed

lemma steps_epoch: "lineage_step\<^sup>*\<^sup>* l l' \<Longrightarrow> job_lease_epoch (ln_job l) \<le> job_lease_epoch (ln_job l')"
  by (induction rule: rtranclp_induct) (auto dest: step_epoch)

lemma lease_over_step:
  assumes "exec_inv s" and "exec_step s t" and "lease_over lease s"
  shows "lease_over lease t"
proof -
  obtain d drawn d' drawn' where eq: "s = (d, drawn)" "t = (d', drawn')" by (cases s; cases t)
  have ok: "ledger_ok d" "ledger_ok d'"
    using assms(1,2) exec_step_inv [OF assms(1,2)] eq by (auto simp: exec_inv_def)
  let ?i = "lease_run_id lease"
  have over: "?i \<in> drawn" "\<And>l. has_lineage d ?i l \<Longrightarrow> job_id (ln_job l) = lease_job_id lease \<Longrightarrow>
      lease_lease_epoch lease < job_lease_epoch (ln_job l) \<or> terminal_status (ln_status l)"
    using assms(3) lease_over_lineage [OF ok(1)] eq by auto
  have "lease_lease_epoch lease < job_lease_epoch (ln_job l') \<or> terminal_status (ln_status l')"
    if l': "has_lineage d' ?i l'" "job_id (ln_job l') = lease_job_id lease" for l'
  proof -
    obtain l where l: "has_lineage d ?i l" "lineage_step\<^sup>*\<^sup>* l l'"
      using exec_step_lineage [OF _ _ over(1) l'(1)] assms(1,2) eq by blast
    have "job_id (ln_job l) = lease_job_id lease" using steps_ids [OF l(2)] l'(2) by simp
    from over(2) [OF l(1) this] steps_epoch [OF l(2)] steps_terminal [OF l(2)] show ?thesis by auto
  qed
  then show ?thesis
    using over(1) exec_step_drawn [of d drawn d' drawn'] assms(2) eq lease_over_lineage [OF ok(2)] by auto
qed

text \<open>Every accepted operation found the job leased under exactly this lease's epoch.\<close>

lemma accepted_lineage:
  assumes "lease_accepted lease (d, drawn)" and "ledger_ok d"
  shows "\<exists>l. has_lineage d (lease_run_id lease) l \<and> job_id (ln_job l) = lease_job_id lease
    \<and> job_lease_epoch (ln_job l) = lease_lease_epoch lease \<and> attempt_active (ln_status l)" (is ?held)
proof -
  have held: "has_lineage d (lease_run_id lease) l \<and> attempt_active (ln_status l)
      \<and> job_lease_epoch (ln_job l) = lease_lease_epoch lease"
    if "execution_state_row t d = (st, d0)" "has_lineage d0 (lease_run_id lease) l" "lineage_ok l"
      "holds_lease lease (ln_job l)" for t st d0 l
  proof -
    have "has_lineage d (lease_run_id lease) l"
      using execution_state_row_tables [OF that(1)] that(2) by (auto simp: has_lineage_def view_defs)
    then show ?thesis using that(3,4) by (simp add: holds_lease_def lineage_ok_def lease_ok_def attempt_active_iff)
  qed
  have fence: ?held if f: "fence_attempt lease expected target ty clock d = Inr (run', d')"
    for expected target ty clock run' d'
  proof -
    obtain l d0 st where "execution_state_row (clock 0) d = (st, d0)" "has_lineage d0 (lease_run_id lease) l"
      "lineage_ok l" "may_fence st lease expected (clock 1) (ln_run l) (ln_job l) d0"
      "job_id (ln_job l) = lease_job_id lease"
      by (rule fence_attempt_lineage [OF f assms(2)])
    then show ?held using held unfolding may_fence_def by blast
  qed
  have comp: ?held if c: "complete_lease lease s code clock d = Inr (run', d')" for s code clock run' d'
  proof -
    obtain l l' d0 st where "execution_state_row (clock 0) d = (st, d0)" "has_lineage d0 (lease_run_id lease) l"
      "lineage_ok l" "holds_lease lease (ln_job l)" "job_id (ln_job l) = lease_job_id lease"
      by (rule complete_lease_lineage [OF c assms(2)])
    then show ?held using held by blast
  qed
  have beat: ?held if hb: "heartbeat lease dur clock d = Inr (lease', d')" for dur clock lease' d'
  proof -
    obtain st d0 where st: "execution_state_row (clock 0) d = (st, d0)" by (cases "execution_state_row (clock 0) d")
    have ok0: "ledger_ok d0" using execution_state_row_moved [OF st] moved_ledger_ok assms(2) by auto
    obtain run job where rj: "locked_lease_lineage lease d0 = Inr (run, job)" and h: "holds_lease lease job"
      using hb st by (auto simp: heartbeat_def Let_def and_then_Inr split: if_splits)
    obtain l where "has_lineage d0 (lease_run_id lease) l" "lineage_ok l" "ln_job l = job" "job_id job = lease_job_id lease"
      by (rule locked_lease_lineage_Inr [OF rj ok0])
    with held [OF st] h show ?held by blast
  qed
  have succ: ?held if "complete_invocation_success ext limits lease result clock d = Inr (run', d')"
    for ext limits result clock run' d'
    using that comp by (auto simp: complete_invocation_success_def and_then_Inr split: if_splits)
  consider (fence) clock expected target ty x where "fence_attempt lease expected target ty clock d = Inr x"
    | (beat) clock dur x where "heartbeat lease dur clock d = Inr x"
    | (comp) clock s code x where "complete_lease lease s code clock d = Inr x"
    | (succ) clock ext limits result x where "complete_invocation_success ext limits lease result clock d = Inr x"
    using assms(1) unfolding lease_accepted_def fence_session_def fence_dispatch_def by blast
  then show ?held
    by cases (metis fence surj_pair, metis beat surj_pair, metis comp surj_pair, metis succ surj_pair)
qed

lemma lease_over_rejects:
  assumes "exec_inv s" and "lease_over lease s"
  shows "\<not> lease_accepted lease s"
proof
  assume acc: "lease_accepted lease s"
  obtain d drawn where eq: "s = (d, drawn)" by (cases s)
  have ok: "ledger_ok d" using assms(1) eq by (simp add: exec_inv_def)
  obtain l where l: "has_lineage d (lease_run_id lease) l" "job_id (ln_job l) = lease_job_id lease"
    "job_lease_epoch (ln_job l) = lease_lease_epoch lease" "attempt_active (ln_status l)"
    using accepted_lineage [OF acc [unfolded eq] ok] by blast
  with assms(2) eq lease_over_lineage [OF ok, of lease drawn] terminal_not_active show False by auto
qed

interpretation job_leases: lease_protocol exec_init exec_step exec_inv lease_over lease_accepted
  by unfold_locales (fact lease_over_step, fact lease_over_rejects)

section \<open>Claims\<close>

text \<open>What a granted lease says.\<close>

lemma claim_job_granted:
  assumes "claim_job limits locked clock worker dur d = Inr ((Some lease, rec), d')" and "ledger_ok d"
  obtains st d0 d2 l where "execution_state_row (clock 1) d = (st, d0)" and "ledger_only d0 d2"
    and "ledger_only d2 d'" and "ledger_ok d2"
    and "\<not> ses_dispatch_quarantined st"
    and "has_lineage d2 (lease_run_id lease) l" and "lineage_ok l"
    and "claimable st locked (clock 0) (ln_run l) (ln_job l)" and "claim_target_is_current (ln_run l) d2"
    and "clock 3 < job_deadline (ln_job l)"
    and "has_lineage d' (lease_run_id lease) (claimed worker dur (clock 3) l)"
    and "lease = lease_of (ln_run l) (ln_job (claimed worker dur (clock 3) l)) worker
           (min (clock 3 + dur) (job_deadline (ln_job l)))"
proof -
  obtain st d0 where st: "execution_state_row (clock 1) d = (st, d0)" by (cases "execution_state_row (clock 1) d")
  have ok0: "ledger_ok d0"
    using execution_state_row_moved [OF st] moved_ledger_ok assms(2) by auto
  obtain a1 d1 where d1: "terminalize_expired_jobs limits locked (clock 0) d0 = Inr (a1, d1)" "moved d0 d1" "ledger_only d0 d1"
    by (rule terminalize_expired_jobs_moved [OF ok0])
  then have ok1: "ledger_ok d1" using moved_ledger_ok ok0 by blast
  obtain a2 d2 where d2: "terminalize_abandoned_dispatches limits locked (clock 0) d1 = Inr (a2, d2)" "moved d1 d2" "ledger_only d1 d2"
    by (rule terminalize_abandoned_dispatches_moved [OF ok1])
  then have ok2: "ledger_ok d2" using moved_ledger_ok ok1 by blast
  have nq: "\<not> ses_dispatch_quarantined st" and w: "length worker \<le> 128"
    using assms(1) st by (auto simp: claim_job_def Let_def split: if_splits)
  obtain run where run: "claim_candidate st locked (clock 0) d2 = Some run"
    "claim_run worker dur clock run (a1 @ a2) d2 = Inr ((Some lease, rec), d')"
    using assms(1) st d1(1) d2(1) nq by (auto simp: claim_job_def Let_def split: if_splits option.splits)
  obtain l where l: "has_lineage d2 (run_id run) l" "lineage_ok l" "ln_run l = run"
    "claimable st locked (clock 0) run (ln_job l)"
    by (rule claim_candidate_lineage [OF ok2 run(1)])
  have g: "has_lineage d' (run_id run) (claimed worker dur (clock 3) l)"
      "lease = lease_of run (ln_job (claimed worker dur (clock 3) l)) worker
            (min (clock 3 + dur) (job_deadline (ln_job l)))"
      "clock 3 < job_deadline (ln_job l)" "claim_target_is_current run d2" "ledger_only d2 d'"
    by (rule claim_run_moved [OF l(1-3) ok2 l(4) w, of dur clock "a1 @ a2"], use run(2) in auto)+
  have eq: "lease_run_id lease = run_id run"
    unfolding g(2) using has_lineage_id [OF g(1)] by (simp add: lease_of_def)
  show thesis
  proof (rule that [OF st ledger_only_trans [OF d1(3) d2(3)] g(5) ok2 nq, of l])
    show "has_lineage d2 (lease_run_id lease) l"
      "has_lineage d' (lease_run_id lease) (claimed worker dur (clock 3) l)"
      unfolding eq by (fact l(1), fact g(1))
    show "lease = lease_of (ln_run l) (ln_job (claimed worker dur (clock 3) l)) worker
        (min (clock 3 + dur) (job_deadline (ln_job l)))"
      unfolding l(3) by (fact g(2))
  qed (use l g in simp_all)
qed

lemma claimed_job:
  "ln_job (claimed worker dur now l) = leased_job worker dur now (ln_job l)"
  by (simp add: claimed_def Let_def lost_def)

text \<open>The authority check reads the pinned columns of the run and the tables of other components.\<close>

lemma claim_target_is_current_cong:
  assumes "ledger_only d d'"
  shows "claim_target_is_current (r\<lparr>run_status := s, run_updated_at := t\<rparr>) d' = claim_target_is_current r d"
  using ledger_only_frame [OF assms]
  by (simp add: claim_target_is_current_def membership_may_run_def membership_of_def capability_is_pinned_def
      connection_is_pinned_def binding_is_pinned_def scoped_capability_def scoped_connection_def
      observed_in_snapshot_def cong: option.case_cong)

text \<open>C17. A claim fences out every earlier lease of the same run: once a worker has been granted a new
  lease, no fence, heartbeat or completion with an earlier lease is accepted, now or after any
  further operations, for any clock readings.\<close>

theorem superseded_lease_never_accepted:
  assumes "reach exec_init exec_step (d, drawn)"
    and "claim_job limits locked clock worker dur d = Inr ((Some new, rec), d')"
    and "lease_run_id old = lease_run_id new" and "lease_lease_epoch old < lease_lease_epoch new"
    and "exec_step\<^sup>*\<^sup>* (d', drawn) (d'', drawn'')"
  shows "\<not> lease_accepted old (d'', drawn'')"
proof -
  have inv: "exec_inv (d, drawn)" by (rule exec_machine.reach_inv [OF assms(1)])
  then have ok: "ledger_ok d" by (simp add: exec_inv_def)
  have inv': "exec_inv (d', drawn)" using exec_step_inv [OF inv exec_step.claim [OF assms(2)]] .
  then have ok': "ledger_ok d'" by (simp add: exec_inv_def)
  obtain l where l: "has_lineage d' (lease_run_id new) (claimed worker dur (clock 3) l)"
    "new = lease_of (ln_run l) (ln_job (claimed worker dur (clock 3) l)) worker
       (min (clock 3 + dur) (job_deadline (ln_job l)))"
    by (rule claim_job_granted [OF assms(2) ok])
  have "lease_lease_epoch new = job_lease_epoch (ln_job (claimed worker dur (clock 3) l))"
    using l(2) by (simp add: lease_of_def)
  moreover have "lease_run_id new \<in> drawn"
    using inv' has_lineage_mem [OF l(1)] has_lineage_id [OF l(1)] by (auto simp: exec_inv_def)
  ultimately have "lease_over old (d', drawn)"
    using assms(3,4) l(1) has_lineage_unique lease_over_lineage [OF ok', of old drawn] by metis
  then show ?thesis by (rule job_leases.never_accepted [OF assms(5) inv'])
qed

theorem superseded_lease_never_accepted_witness:
  "claim_job default_limits (\<lambda>_. False) demo_clock ''worker'' 30000000 demo_db1
     = Inr ((Some demo_lease, []), demo_db2)
   \<and> exec_step\<^sup>*\<^sup>* (demo_db2, {100}) (demo_db4, {100})
   \<and> \<not> lease_accepted (demo_lease\<lparr>lease_lease_epoch := 0\<rparr>) (demo_db4, {100})"
proof -
  have steps: "exec_step\<^sup>*\<^sup>* (demo_db2, {100}) (demo_db4, {100})"
    using exec_step.fence_session [OF demo_session] exec_step.fence_dispatch [OF demo_dispatch]
    by (meson converse_rtranclp_into_rtranclp rtranclp.rtrancl_refl)
  have "\<not> lease_accepted (demo_lease\<lparr>lease_lease_epoch := 0\<rparr>) (demo_db4, {100})"
    by (rule superseded_lease_never_accepted [OF demo_reach(2) demo_claimed _ _ steps])
      (simp_all add: demo_lease_def)
  with steps demo_claimed show ?thesis by blast
qed

text \<open>A granted lease is sound: it names the run's own job and workspace, carries the next lease
  epoch and the current execution epoch, and expires after its start, no later than the requested
  duration and no later than the run's deadline; the run it is for was active, waiting or abandoned
  before dispatch, and its authority was current.\<close>

theorem granted_lease_sound:
  assumes "reach exec_init exec_step (d, drawn)"
    and "claim_job limits locked clock worker dur d = Inr ((Some lease, rec), d')"
  shows "\<exists>r j st. r \<in> set (runs d') \<and> j \<in> set (jobs d') \<and> execution_state d' = Some st
    \<and> run_id r = lease_run_id lease \<and> run_workspace_id r = lease_workspace_id lease
    \<and> job_id j = lease_job_id lease \<and> job_run_id j = lease_run_id lease
    \<and> run_status r = RunStatus.PREPARING \<and> job_status j = JobStatus.LEASED
    \<and> job_lease_owner j = Some worker \<and> lease_worker_id lease = worker
    \<and> job_lease_epoch j = lease_lease_epoch lease \<and> 0 < lease_lease_epoch lease
    \<and> lease_execution_epoch lease = ses_execution_epoch st
    \<and> job_lease_expires_at j = Some (lease_expires_at lease)
    \<and> clock 3 < lease_expires_at lease \<and> lease_expires_at lease \<le> clock 3 + dur
    \<and> lease_expires_at lease \<le> run_deadline r \<and> claim_target_is_current r d'"
proof -
  have inv: "exec_inv (d, drawn)" by (rule exec_machine.reach_inv [OF assms(1)])
  then have ok: "ledger_ok d" by (simp add: exec_inv_def)
  have pos: "0 < dur" using assms(2) by (auto simp: claim_job_def split: if_splits)
  obtain st d0 d2 l where c: "execution_state_row (clock 1) d = (st, d0)" "ledger_only d0 d2"
    "has_lineage d2 (lease_run_id lease) l" "lineage_ok l"
    "claimable st locked (clock 0) (ln_run l) (ln_job l)" "claim_target_is_current (ln_run l) d2"
    "clock 3 < job_deadline (ln_job l)"
    "has_lineage d' (lease_run_id lease) (claimed worker dur (clock 3) l)"
    "lease = lease_of (ln_run l) (ln_job (claimed worker dur (clock 3) l)) worker
       (min (clock 3 + dur) (job_deadline (ln_job l)))" "ledger_only d2 d'"
    by (rule claim_job_granted [OF assms(2) ok])
  let ?l = "claimed worker dur (clock 3) l"
  have run: "ln_run ?l = (ln_run l)\<lparr>run_status := RunStatus.PREPARING, run_updated_at := clock 3\<rparr>"
    by (simp add: claimed_def Let_def lost_def)
  have st': "execution_state d' = Some st"
    using ledger_only_frame(16) [OF c(2)] ledger_only_frame(16) [OF c(10)] execution_state_row_state [OF c(1)]
    by simp
  have keys: "job_workspace_id (ln_job l) = run_workspace_id (ln_run l)"
    "job_deadline (ln_job l) = run_deadline (ln_run l)"
    using c(4) by (auto simp: lineage_ok_def keys_ok_def lease_ok_def Let_def)
  have "claim_target_is_current (ln_run ?l) d'"
    unfolding run using c(6) claim_target_is_current_cong [OF c(10)] by simp
  with c run keys st' pos has_lineage_mem [OF c(8)] has_lineage_id [OF c(8)] show ?thesis
    by (intro exI [of _ "ln_run ?l"] exI [of _ "ln_job ?l"] exI [of _ st])
      (simp add: claimed_job leased_job_def lease_of_def claimable_def)
qed

theorem granted_lease_sound_witness:
  "claim_job default_limits (\<lambda>_. False) demo_clock ''worker'' 30000000 demo_db1
     = Inr ((Some demo_lease, []), demo_db2)
   \<and> (\<exists>r \<in> set (runs demo_db2). run_id r = 100 \<and> lease_expires_at demo_lease \<le> run_deadline r)"
  using demo_claimed granted_lease_sound [OF demo_reach(2) demo_claimed]
  by (auto simp: demo_lease_def)

end
