(* ===== verification/Exec_Quarantine.thy ===== *)
theory Exec_Quarantine
  imports Exec_Lease
begin

text \<open>
  Dispatch under current authority, and the restore quarantine: while it is on nothing is claimed,
  fenced, extended or admitted; repeated reconciliation ends every active run; only then can it be
  cleared, under a higher execution epoch that no earlier lease carries.
\<close>

section \<open>Fences\<close>

text \<open>C18. The fence in front of the one permitted tool call is passed only under authority that is
  current at that moment: dispatch is not quarantined and the lease belongs to the current execution
  epoch, the lease is the job's own and unexpired, the deadline has not passed, no cancellation was
  requested, the actor is still an administrator or operator, the capability is still enabled with
  the pinned version and status epoch, and the connection is still active with the pinned version
  and control epoch. Afterwards the run is dispatch fenced, with exactly one dispatch event.\<close>

theorem dispatch_needs_current_authority:
  assumes "reach exec_init exec_step (d, drawn)"
    and "fence_dispatch lease clock d = Inr (run, d')"
  shows "\<exists>r j st m cap conn. r \<in> set (runs d) \<and> j \<in> set (jobs d) \<and> execution_state d = Some st
    \<and> run_id r = lease_run_id lease \<and> job_id j = lease_job_id lease \<and> job_run_id j = run_id r
    \<and> \<not> ses_dispatch_quarantined st \<and> ses_execution_epoch st = lease_execution_epoch lease
    \<and> job_lease_owner j = Some (lease_worker_id lease) \<and> job_lease_epoch j = lease_lease_epoch lease
    \<and> (\<exists>t. job_lease_expires_at j = Some t \<and> clock 1 < t) \<and> clock 1 < run_deadline r
    \<and> \<not> run_cancellation_requested r \<and> run_status r = RunStatus.SESSION_FENCED
    \<and> m \<in> set (memberships d) \<and> mem_workspace_id m = run_workspace_id r
    \<and> mem_user_id m = run_actor_user_id r \<and> mem_role m \<in> {ADMIN, OPERATOR}
    \<and> cap \<in> set (capabilities d) \<and> cap_id cap = run_capability_id r
    \<and> cap_status cap = CapabilityStatus.ENABLED
    \<and> cap_enabled_version_id cap = Some (run_capability_version_id r)
    \<and> cap_status_epoch cap = run_capability_status_epoch r
    \<and> conn \<in> set (connections d) \<and> conn_id conn = run_connection_id r
    \<and> conn_lifecycle conn = ConnectionLifecycle.ACTIVE
    \<and> conn_verified_version_id conn = Some (run_connection_version_id r)
    \<and> conn_control_epoch conn = run_connection_control_epoch r
    \<and> run_id run = run_id r \<and> run \<in> set (runs d') \<and> run_status run = RunStatus.DISPATCH_FENCED
    \<and> dispatch_count (run_id r) d = 0 \<and> dispatch_count (run_id r) d' = 1"
proof -
  have inv: "exec_inv (d, drawn)" by (rule exec_machine.reach_inv [OF assms(1)])
  then have ok: "ledger_ok d" by (simp add: exec_inv_def)
  obtain l d0 st where f: "execution_state_row (clock 0) d = (st, d0)"
    "has_lineage d0 (lease_run_id lease) l" "lineage_ok l"
    "may_fence st lease RunStatus.SESSION_FENCED (clock 1) (ln_run l) (ln_job l) d0"
    "run = ln_run (fenced RunStatus.DISPATCH_FENCED RunEventType.DISPATCH_FENCED (clock 1) l)"
    "has_lineage d' (lease_run_id lease) (fenced RunStatus.DISPATCH_FENCED RunEventType.DISPATCH_FENCED (clock 1) l)"
    "job_id (ln_job l) = lease_job_id lease"
    by (rule fence_attempt_lineage [OF assms(2) [unfolded fence_dispatch_def] ok])
  have d0: "d0 = d\<lparr>execution_state := Some st\<rparr>"
    using execution_state_row_tables [OF f(1)] by auto
  then have lin: "has_lineage d (lease_run_id lease) l"
    using f(2) by (simp add: has_lineage_def view_defs)
  have act: "active_status (ln_status l)" using f(4) by (auto simp: may_fence_def)
  have "epoch_ok d" using inv by (simp add: exec_inv_def)
  then obtain st' where "execution_state d = Some st'"
    using act lin unfolding epoch_ok_def by blast
  then have st: "execution_state d = Some st"
    using f(1) by (simp add: execution_state_row_def)
  obtain m where m: "m \<in> set (memberships d)" "mem_workspace_id m = run_workspace_id (ln_run l)"
    "mem_user_id m = run_actor_user_id (ln_run l)" "mem_role m \<in> {ADMIN, OPERATOR}"
    using f(4) d0 by (auto simp: may_fence_def membership_may_run_def split: option.splits dest!: membership_of_Some)
  obtain cap where cap: "cap \<in> set (capabilities d)" "cap_id cap = run_capability_id (ln_run l)"
    "cap_status cap = CapabilityStatus.ENABLED"
    "cap_enabled_version_id cap = Some (run_capability_version_id (ln_run l))"
    "cap_status_epoch cap = run_capability_status_epoch (ln_run l)"
    using f(4) d0 by (auto simp: may_fence_def capability_is_pinned_def scoped_capability_def
        split: option.splits dest!: first_row_filter_Some)
  obtain conn where conn: "conn \<in> set (connections d)" "conn_id conn = run_connection_id (ln_run l)"
    "conn_lifecycle conn = ConnectionLifecycle.ACTIVE"
    "conn_verified_version_id conn = Some (run_connection_version_id (ln_run l))"
    "conn_control_epoch conn = run_connection_control_epoch (ln_run l)"
    using f(4) d0 by (auto simp: may_fence_def connection_is_pinned_def scoped_connection_def
        split: option.splits dest!: first_row_filter_Some)
  have deadline: "job_deadline (ln_job l) = run_deadline (ln_run l)"
    using f(3) by (simp add: lineage_ok_def lease_ok_def)
  have expiry: "\<exists>t. job_lease_expires_at (ln_job l) = Some t \<and> clock 1 < t"
    using f(4) by (auto simp: may_fence_def unexpired_def split: option.splits)
  have count: "dispatch_count (lease_run_id lease) d = 0"
    using dispatch_count_lineage [OF lin] f(3,4)
    by (simp add: lineage_ok_def events_ok_def Let_def may_fence_def)
  then have "dispatches (ln_events l) = 0" using dispatch_count_lineage [OF lin] by simp
  then have count': "dispatch_count (lease_run_id lease) d' = 1"
    using dispatch_count_lineage [OF f(6)] by (simp add: fenced_def next_event_def)
  show ?thesis
    using m cap conn st count count' deadline expiry f(4,5,7) has_lineage_mem [OF lin] has_lineage_id [OF lin]
      has_lineage_mem [OF f(6)]
    by (intro exI [of _ "ln_run l"] exI [of _ "ln_job l"] exI [of _ st] exI [of _ m] exI [of _ cap] exI [of _ conn])
      (simp add: may_fence_def holds_lease_def fenced_def)
qed

theorem dispatch_needs_current_authority_witness:
  "fence_dispatch demo_lease demo_clock demo_db3 = Inr (demo_run_in RunStatus.DISPATCH_FENCED, demo_db4)
   \<and> (\<exists>r \<in> set (runs demo_db3). run_status r = RunStatus.SESSION_FENCED)
   \<and> dispatch_count 100 demo_db4 = 1"
  using demo_dispatch dispatch_needs_current_authority [OF demo_reach(4) demo_dispatch]
  by (auto simp: demo_run_fields)

text \<open>In every reachable state a leased job has an owner and an expiry that does not lie after its
  run's deadline; a job that is not leased has neither.\<close>

theorem lease_within_deadline:
  assumes "reach exec_init exec_step (d, drawn)" and "j \<in> set (jobs d)"
  shows "(if job_status j = JobStatus.LEASED
          then \<exists>w t r. job_lease_owner j = Some w \<and> job_lease_expires_at j = Some t \<and> t \<le> job_deadline j
                 \<and> r \<in> set (runs d) \<and> run_id r = job_run_id j \<and> run_deadline r = job_deadline j
                 \<and> run_status r \<in> {RunStatus.PREPARING, RunStatus.SESSION_FENCED, RunStatus.DISPATCH_FENCED}
          else job_lease_owner j = None \<and> job_lease_expires_at j = None)"
proof -
  obtain l where l: "has_lineage d (job_run_id j) l" "lineage_ok l" "ln_job l = j"
    using ledger_ok_job [OF reach_ledger_ok [OF assms(1)] assms(2)] by blast
  have c: "job_check j" and k: "job_deadline j = run_deadline (ln_run l)" "lease_within j"
    "job_status j = job_status_for (ln_status l)"
    using l by (auto simp: lineage_ok_def checks_ok_def lease_ok_def)
  have "job_status j = JobStatus.LEASED \<Longrightarrow>
      ln_status l \<in> {RunStatus.PREPARING, RunStatus.SESSION_FENCED, RunStatus.DISPATCH_FENCED}"
    using k(3) by (cases "ln_status l") auto
  then show ?thesis
    using c k has_lineage_mem [OF l(1)] has_lineage_id [OF l(1)]
    by (auto simp: job_check_def lease_within_def split: option.splits if_splits)
qed

theorem lease_within_deadline_witness:
  "demo_job2 \<in> set (jobs demo_db2) \<and> job_status demo_job2 = JobStatus.LEASED
   \<and> (\<exists>t. job_lease_expires_at demo_job2 = Some t \<and> t \<le> job_deadline demo_job2)"
proof -
  have m: "demo_job2 \<in> set (jobs demo_db2)" by (simp add: demo_db2_def)
  show ?thesis using m lease_within_deadline [OF demo_reach(3) m] by (auto simp: demo_job2_fields)
qed

section \<open>Quarantine\<close>

lemma locked_lease_lineage_Inl:
  "locked_lease_lineage lease d = Inl e \<Longrightarrow> e = ExecutionError ExecutionFailureCode.LEASE_LOST"
  by (auto simp: locked_lease_lineage_def locked_job_def split: option.splits if_splits)

lemma execution_state_row_present:
  "execution_state d = Some st \<Longrightarrow> execution_state_row now d = (st, d)"
  by (simp add: execution_state_row_def)

lemma quarantined_fence:
  assumes "execution_state d = Some st" and "ses_dispatch_quarantined st"
  shows "fence_attempt lease expected target event clock d = lease_lost"
proof (cases "locked_lease_lineage lease d")
  case (Inl e)
  with locked_lease_lineage_Inl assms(1) show ?thesis
    by (fastforce simp: fence_attempt_def execution_state_row_present and_then_def)
next
  case (Inr b)
  with assms show ?thesis
    by (cases b) (simp add: fence_attempt_def execution_state_row_present and_then_def may_fence_def)
qed

lemma quarantined_heartbeat:
  assumes "execution_state d = Some st" and "ses_dispatch_quarantined st" and "0 < dur"
  shows "heartbeat lease dur clock d = lease_lost"
proof (cases "locked_lease_lineage lease d")
  case (Inl e)
  with locked_lease_lineage_Inl assms(1,3) show ?thesis
    by (fastforce simp: heartbeat_def execution_state_row_present and_then_def)
next
  case (Inr b)
  with assms show ?thesis
    by (cases b) (simp add: heartbeat_def execution_state_row_present and_then_def)
qed

lemma add_nonce_runs: "runs (add_nonce n d) = runs d"
  by (simp add: add_nonce_def)

lemma quarantined_create:
  assumes "execution_state d = Some st" and "ses_dispatch_quarantined st"
    and "create_run ext cfg ctx rq ids clock d = Inr (run, d')"
  shows "run \<in> set (runs d) \<and> runs d' = runs d"
  using assms(3)
proof (cases rule: create_run_Inr)
  case (replayed st' d0 existing request claims dig now)
  then have "d0 = d" using assms(1) by (simp add: execution_state_row_present)
  with replay_existing_run_Inr [OF replayed(3)] show ?thesis by (metis add_nonce_runs)
next
  case (admitted st' d0 claims dig normalized digest requested request nonce_bytes)
  then have "st' = st" using assms(1) by (simp add: execution_state_row_present)
  with admit_new_run_Inr [OF admitted(9)] assms(2) show ?thesis by metis
qed

text \<open>C19. While dispatch is quarantined no work moves: every claim is refused with
  \<open>DISPATCH_QUARANTINED\<close>, every fence and every heartbeat with \<open>LEASE_LOST\<close>, and \<open>create_run\<close> admits
  no run (a run it returns is one that exists, and the runs stay as they are).\<close>

theorem quarantine_stops_work:
  assumes "execution_state d = Some st" and "ses_dispatch_quarantined st"
    and "worker \<noteq> ''''" and "length worker \<le> 128" and "0 < dur"
  shows "claim_job limits locked clock worker dur d = Inl (ExecutionError DISPATCH_QUARANTINED)
    \<and> fence_session lease clock d = lease_lost \<and> fence_dispatch lease clock d = lease_lost
    \<and> heartbeat lease dur clock d = lease_lost
    \<and> (\<forall>run d'. create_run ext cfg ctx rq ids clock d = Inr (run, d') \<longrightarrow>
         run \<in> set (runs d) \<and> runs d' = runs d)"
  using assms quarantined_fence quarantined_heartbeat quarantined_create
  by (auto simp: claim_job_def execution_state_row_present fence_session_def fence_dispatch_def)

definition demo_quarantined :: db where
  "demo_quarantined = demo_db2\<lparr>execution_state := Some \<lparr>ses_execution_epoch = 2,
     ses_dispatch_quarantined = True, ses_updated_at = 1000000\<rparr>\<rparr>"

lemma demo_entered: "enter_restore_quarantine True demo_clock demo_db2 = Inr (2, demo_quarantined)"
  by (simp add: enter_restore_quarantine_def require_system_authority_def and_then_def Let_def
      execution_state_row_def demo_quarantined_def demo_db2_def demo_clock_def demo_db1_tables demo_state1_def)

lemma demo_reach_quarantined: "reach exec_init exec_step (demo_quarantined, {100})"
  by (rule reach.step [OF demo_reach(3) exec_step.enter [OF demo_entered]])

theorem quarantine_stops_work_witness:
  "execution_state demo_quarantined = Some \<lparr>ses_execution_epoch = 2, ses_dispatch_quarantined = True,
     ses_updated_at = 1000000\<rparr>
   \<and> claim_job default_limits (\<lambda>_. False) demo_clock ''w'' 60000000 demo_quarantined
       = Inl (ExecutionError DISPATCH_QUARANTINED)
   \<and> fence_session demo_lease demo_clock demo_quarantined = lease_lost"
  using quarantine_stops_work [of demo_quarantined "\<lparr>ses_execution_epoch = 2,
      ses_dispatch_quarantined = True, ses_updated_at = 1000000\<rparr>" "''w''" 60000000]
  by (simp add: demo_quarantined_def)

text \<open>Repeated reconciliation: \<open>reconcile_batches k\<close> runs \<open>k\<close> batches, one after the other.\<close>

fun reconcile_batches :: "nat \<Rightarrow> int \<Rightarrow> clock \<Rightarrow> db \<Rightarrow> svc_error + db" where
  "reconcile_batches 0 n clock d = Inr d"
| "reconcile_batches (Suc k) n clock d =
     and_then (reconcile_restore_quarantine True n (\<lambda>_. False) clock d)
       (\<lambda>(_, d'). reconcile_batches k n clock d')"

definition active_total :: "db \<Rightarrow> nat" where
  "active_total d = length (filter (\<lambda>r. active_status (run_status r)) (runs d))"

lemma active_total_card:
  assumes "ledger_ok d"
  shows "active_total d = card {i. \<exists>l. has_lineage d i l \<and> active_status (ln_status l)}"
proof -
  let ?rs = "filter (\<lambda>r. active_status (run_status r)) (runs d)"
  have "{i. \<exists>l. has_lineage d i l \<and> active_status (ln_status l)} = run_id ` set ?rs"
    using has_lineage_mem has_lineage_id ledger_ok_lineage [OF assms] by fastforce
  moreover have "distinct (map run_id ?rs)"
    using ledger_ok_distinct_runs [OF assms] by (auto simp: distinct_map inj_on_def)
  ultimately show ?thesis using distinct_card [of "map run_id ?rs"] by (simp add: active_total_def)
qed

lemma set_without:
  assumes "\<And>i. i \<in> R \<Longrightarrow> i \<notin> A'" and "\<And>i. i \<notin> R \<Longrightarrow> i \<in> A' \<longleftrightarrow> i \<in> A"
  shows "A' = A - R"
  using assms by blast

lemma reconcile_progress:
  assumes "ledger_ok d" and "execution_state d = Some st" and "ses_dispatch_quarantined st"
    and "0 < n" and "n \<le> 1000"
  obtains d' where
    "reconcile_restore_quarantine True n (\<lambda>_. False) clock d = Inr (min (active_total d) (nat n), d')"
    and "ledger_ok d'" and "execution_state d' = Some st"
    and "active_total d' = active_total d - min (active_total d) (nat n)"
proof -
  let ?rows = "unreconciled_rows (nat n) (\<lambda>_. False) d"
  let ?act = "\<lambda>d. {i. \<exists>l. has_lineage d i l \<and> active_status (ln_status l)}"
  obtain d' where b: "fold_res (\<lambda>run d. map_sum id snd (terminalize_run run
        (restore_status (run_status run)) (clock 1) RESTORE_RECONCILIATION RESTORE_RECONCILED d))
        ?rows d = Inr d'" "moved d d'" "ledger_only d d'"
    "\<And>r. r \<in> set ?rows \<Longrightarrow> has_lineage d' (run_id r)
       (ended (restore_status (run_status r)) (clock 1) RESTORE_RECONCILIATION RESTORE_RECONCILED
          (lineage_of d (run_id r)))"
    "\<And>k. k \<notin> run_id ` set ?rows \<Longrightarrow> same_at k d d'"
    by (rule reconcile_batch [OF assms(1), where n = "nat n" and locked = "\<lambda>_. False" and now = "clock 1"]) (rule that)
  have ok': "ledger_ok d'" by (rule moved_ledger_ok [OF b(2) assms(1)])
  have len: "length ?rows = min (active_total d) (nat n)"
    by (simp add: unreconciled_rows_def length_order_by_limit active_total_def)
  have dist: "distinct (map run_id ?rows)"
    unfolding unreconciled_rows_def
    by (rule distinct_map_order_by_limit) (use ledger_ok_distinct_runs [OF assms(1)] in simp)
  have sub: "run_id ` set ?rows \<subseteq> ?act d"
    using unreconciled_rows_mem ledger_ok_lineage [OF assms(1)] by fastforce
  have ended: "i \<notin> ?act d'" if i: "i \<in> run_id ` set ?rows" for i
  proof -
    obtain r where r: "r \<in> set ?rows" "i = run_id r" using i by blast
    have "ln_status l = restore_status (run_status r)" if "has_lineage d' i l" for l
      using has_lineage_unique [OF that [unfolded r(2)] b(4) [OF r(1)]] by (simp add: ended_def terminal_run_def)
    then show ?thesis by (auto simp: restore_status_def active_iff_not_terminal)
  qed
  have same: "i \<in> ?act d' \<longleftrightarrow> i \<in> ?act d" if "i \<notin> run_id ` set ?rows" for i
    by (simp add: same_at_lineage [OF b(5) [OF that]])
  have "?act d' = ?act d - run_id ` set ?rows"
    by (intro set_without) (fact ended, fact same)
  then have "card (?act d') = card (?act d) - length ?rows"
    using sub distinct_card [OF dist] by (simp add: card_Diff_subset)
  then have total: "active_total d' = active_total d - min (active_total d) (nat n)"
    using active_total_card [OF assms(1)] active_total_card [OF ok'] len by simp
  have "execution_state d' = Some st" using ledger_only_frame(16) [OF b(3)] assms(2) by simp
  moreover have "reconcile_restore_quarantine True n (\<lambda>_. False) clock d
      = Inr (min (active_total d) (nat n), d')"
    using assms b(1) len
    by (simp add: reconcile_restore_quarantine_def require_system_authority_def and_then_def
        execution_state_row_present)
  ultimately show thesis using that ok' total by blast
qed

lemma reconcile_batches_drain:
  assumes "ledger_ok d" and "execution_state d = Some st" and "ses_dispatch_quarantined st"
    and "0 < n" and "n \<le> 1000" and "active_total d \<le> k"
  shows "\<exists>d'. reconcile_batches k n clock d = Inr d' \<and> ledger_ok d' \<and> execution_state d' = Some st
    \<and> active_total d' = 0"
  using assms(1,2,6)
proof (induction k arbitrary: d)
  case (Suc k)
  obtain d' where d': "reconcile_restore_quarantine True n (\<lambda>_. False) clock d
      = Inr (min (active_total d) (nat n), d')" "ledger_ok d'" "execution_state d' = Some st"
    "active_total d' = active_total d - min (active_total d) (nat n)"
    by (rule reconcile_progress [OF Suc.prems(1,2) assms(3-5)])
  then have "active_total d' \<le> k" using Suc.prems(3) assms(4) by auto
  with Suc.IH [OF d'(2,3)] d'(1) show ?case by (simp add: and_then_def)
qed simp

text \<open>C20. The way out of quarantine is open and leads through reconciliation only. From any reachable
  quarantined state, as many batches as there are active runs (of any legal size, no row being
  locked) all return and end every run; then, and not while a run is active, \<open>clear_restore_quarantine\<close>
  succeeds and dispatch resumes under the epoch that entering the quarantine raised.\<close>

theorem quarantine_drains_and_clears:
  assumes "reach exec_init exec_step (d, drawn)" and "execution_state d = Some st"
    and "ses_dispatch_quarantined st" and "0 < n" and "n \<le> 1000"
    and "length (filter (\<lambda>r. active_status (run_status r)) (runs d)) \<le> k"
  shows "\<exists>d'. reconcile_batches k n clock d = Inr d' \<and> list_all (\<lambda>r. terminal_status (run_status r)) (runs d')
    \<and> clear_restore_quarantine True clock d' = Inr (ses_execution_epoch st,
        d'\<lparr>execution_state := Some (st\<lparr>ses_dispatch_quarantined := False, ses_updated_at := clock 1\<rparr>)\<rparr>)
    \<and> (0 < length (filter (\<lambda>r. active_status (run_status r)) (runs d)) \<longrightarrow>
         clear_restore_quarantine True clock d = Inl (ExecutionError INVALID_TRANSITION))"
proof -
  obtain d' where d': "reconcile_batches k n clock d = Inr d'" "execution_state d' = Some st"
    "active_total d' = 0"
    using reconcile_batches_drain [OF reach_ledger_ok [OF assms(1)] assms(2-5)] assms(6)
    unfolding active_total_def by blast
  then have over: "\<And>r. r \<in> set (runs d') \<Longrightarrow> terminal_status (run_status r)"
    by (simp add: active_total_def filter_empty_conv active_iff_not_terminal)
  have busy: "list_ex (\<lambda>r. active_status (run_status r)) (runs d)"
    if "0 < length (filter (\<lambda>r. active_status (run_status r)) (runs d))"
    using that by (auto simp: list_ex_iff filter_empty_conv)
  show ?thesis
    using d' over busy assms(2)
    by (intro exI [of _ d'])
      (auto simp: clear_restore_quarantine_def require_system_authority_def execution_state_row_present
        and_then_def assms(3) list_all_iff list_ex_iff active_iff_not_terminal)
qed

lemma demo_one_active: "length (filter (\<lambda>r. active_status (run_status r)) (runs demo_quarantined)) = 1"
  by (simp add: demo_quarantined_def demo_db2_def demo_run2_def)

theorem quarantine_drains_and_clears_witness:
  "ses_dispatch_quarantined \<lparr>ses_execution_epoch = 2, ses_dispatch_quarantined = True, ses_updated_at = 1000000\<rparr>
   \<and> (\<exists>d'. reconcile_batches 1 100 demo_clock demo_quarantined = Inr d'
        \<and> list_all (\<lambda>r. terminal_status (run_status r)) (runs d'))
   \<and> clear_restore_quarantine True demo_clock demo_quarantined = Inl (ExecutionError INVALID_TRANSITION)"
  using quarantine_drains_and_clears [OF demo_reach_quarantined, of "\<lparr>ses_execution_epoch = 2,
      ses_dispatch_quarantined = True, ses_updated_at = 1000000\<rparr>" 100 1 demo_clock] demo_one_active
  by (auto simp: demo_quarantined_def)

section \<open>Epochs and limits\<close>

text \<open>No work of an earlier execution epoch survives into a later one: in every reachable state in
  which dispatch is open, every run that is still active has a job of the current execution epoch;
  under quarantine the job's epoch is at most the current one.\<close>

theorem active_runs_in_current_epoch:
  assumes "reach exec_init exec_step (d, drawn)" and "r \<in> set (runs d)" and "active_status (run_status r)"
  shows "\<exists>st j. execution_state d = Some st \<and> j \<in> set (jobs d) \<and> job_run_id j = run_id r
    \<and> job_execution_epoch j \<le> ses_execution_epoch st
    \<and> (\<not> ses_dispatch_quarantined st \<longrightarrow> job_execution_epoch j = ses_execution_epoch st)"
proof -
  have inv: "epoch_ok d" "ledger_ok d"
    using exec_machine.reach_inv [OF assms(1)] by (simp_all add: exec_inv_def)
  obtain l where l: "has_lineage d (run_id r) l" "ln_run l = r"
    using ledger_ok_lineage [OF inv(2) assms(2)] by blast
  then have "active_status (ln_status l)" using assms(3) by simp
  then obtain st where "execution_state d = Some st" "job_execution_epoch (ln_job l) \<le> ses_execution_epoch st"
    "\<not> ses_dispatch_quarantined st \<longrightarrow> job_execution_epoch (ln_job l) = ses_execution_epoch st"
    using inv(1) l(1) unfolding epoch_ok_def by blast
  then show ?thesis using has_lineage_mem [OF l(1)] has_lineage_id [OF l(1)] by blast
qed

theorem active_runs_in_current_epoch_witness:
  "demo_run2 \<in> set (runs demo_db2) \<and> active_status (run_status demo_run2)
   \<and> (\<exists>j \<in> set (jobs demo_db2). job_run_id j = run_id demo_run2)"
proof -
  have m: "demo_run2 \<in> set (runs demo_db2)" by (simp add: demo_db2_def)
  have a: "active_status (run_status demo_run2)" by (simp add: demo_run2_def)
  show ?thesis using m a active_runs_in_current_epoch [OF demo_reach(3) m a] by blast
qed

text \<open>C21. A workspace never has more active runs than the hard limit of 100, whatever limits the
  deployments of the service were configured with (within the bounds their constructor checks).\<close>

theorem active_runs_bounded:
  assumes "reach exec_init exec_step (d, drawn)"
  shows "int (active_run_count w d) \<le> 100"
  using exec_machine.reach_inv [OF assms]
  by (auto simp: exec_inv_def MAX_ACTIVE_RUNS_PER_WORKSPACE_def)

theorem active_runs_bounded_witness:
  "active_run_count 1 demo_db2 = 1 \<and> int (active_run_count 1 demo_db2) \<le> 100"
proof -
  have "active_run_count 1 demo_db2 = 1"
    by (simp add: active_run_count_def demo_db2_def demo_run2_def demo_run_fields)
  with active_runs_bounded [OF demo_reach(3), of 1] show ?thesis by simp
qed

end
