(* ===== verification/Endpoint_Rules.thy ===== *)
theory Endpoint_Rules
  imports Json_Text
begin

text \<open>
  The rules for endpoint URLs, applied twice: when a connection version is stored
  (\<open>_validate_configuration\<close> of \<^verbatim>\<open>registry/service.py\<close>) and again before a worker opens a session
  (\<open>EndpointPolicy.validate\<close> of \<^verbatim>\<open>mcp_adapter/policy.py\<close>). Both normalize the host with
  \<^verbatim>\<open>security/endpoints.py\<close>. URL splitting, address and IDNA tables, percent-decoding and the
  credential screens are arguments.
\<close>

section \<open>Libraries\<close>

text \<open>What the source reads of an \<open>ip_address\<close>.\<close>

record ip =
  ip_compressed :: ustr
  ip_is_global :: bool
  ip_is_multicast :: bool
  ip_is_loopback :: bool
  ip_is_link_local :: bool
  ip_is_private :: bool
  ip_is_reserved :: bool
  ip_is_unspecified :: bool

text \<open>What the source reads of \<open>urlsplit(url)\<close>; a value error of the split or of its \<open>port\<close> is
  \<open>None\<close>.\<close>

record split_url =
  url_scheme :: ustr
  url_hostname :: "ustr option"
  url_port :: "nat option"
  url_username :: "ustr option"
  url_password :: "ustr option"
  url_path :: ustr
  url_query :: ustr
  url_fragment :: ustr

record url_externals =
  urlsplit :: "ustr \<Rightarrow> split_url option"
  str_lower :: "ustr \<Rightarrow> ustr"
  ip_address :: "ustr \<Rightarrow> ip option"
  idna_encode :: "ustr \<Rightarrow> ustr option"
  inet_aton :: "ustr \<Rightarrow> bool"
  unquote_strict :: "ustr \<Rightarrow> ustr option"
  contains_obvious_secret :: "ustr \<Rightarrow> bool"
  contains_sensitive_hostname :: "ustr \<Rightarrow> bool"
  contains_sensitive_url_path :: "ustr \<Rightarrow> bool"

section \<open>Host names\<close>

definition ascii_alnum :: "nat \<Rightarrow> bool" where
  "ascii_alnum c \<longleftrightarrow> (48 \<le> c \<and> c \<le> 57) \<or> (65 \<le> c \<and> c \<le> 90) \<or> (97 \<le> c \<and> c \<le> 122)"

text \<open>\<open>_DNS_LABEL\<close>: letters and digits, with hyphens inside, at most 63.\<close>

definition dns_label :: "ustr \<Rightarrow> bool" where
  "dns_label s \<longleftrightarrow> s \<noteq> [] \<and> length s \<le> 63 \<and> ascii_alnum (hd s) \<and> ascii_alnum (last s)
     \<and> list_all (\<lambda>c. ascii_alnum c \<or> c = 45) s"

fun split_on :: "nat \<Rightarrow> ustr \<Rightarrow> ustr list" where
  "split_on sep [] = [[]]"
| "split_on sep (c # cs) =
     (if c = sep then [] # split_on sep cs
      else (c # hd (split_on sep cs)) # tl (split_on sep cs))"

definition ends_with :: "ustr \<Rightarrow> ustr \<Rightarrow> bool" where
  "ends_with s t \<longleftrightarrow> length t \<le> length s \<and> drop (length s - length t) s = t"

definition removesuffix :: "ustr \<Rightarrow> ustr \<Rightarrow> ustr" where
  "removesuffix s t = (if ends_with s t then take (length s - length t) s else s)"

record NormalizedEndpointHost =
  neh_value :: ustr
  neh_parsed_ip :: "ip option"
  neh_is_ip_literal :: bool

definition normalize_endpoint_host ::
  "url_externals \<Rightarrow> ustr option \<Rightarrow> NormalizedEndpointHost option" where
  "normalize_endpoint_host ext raw_hostname =
     (let lowered = (case raw_hostname of None \<Rightarrow> [] | Some h \<Rightarrow> if h = [] then [] else str_lower ext h)
      in if lowered = [] \<or> ends_with lowered [46, 46] \<or> 37 \<in> set lowered then None
         else
           (let hostname = removesuffix lowered [46]
            in case ip_address ext hostname of
                 Some a \<Rightarrow> Some \<lparr>neh_value = ip_compressed a, neh_parsed_ip = Some a, neh_is_ip_literal = True\<rparr>
               | None \<Rightarrow>
                   (case idna_encode ext hostname of
                      None \<Rightarrow> None
                    | Some normalized \<Rightarrow>
                        if length normalized > 253 \<or> list_ex (\<lambda>l. \<not> dns_label l) (split_on 46 normalized)
                        then None
                        else Some \<lparr>neh_value = normalized, neh_parsed_ip = None,
                                   neh_is_ip_literal = inet_aton ext normalized\<rparr>)))"

section \<open>Paths\<close>

definition is_hex :: "nat \<Rightarrow> bool" where
  "is_hex c \<longleftrightarrow> (48 \<le> c \<and> c \<le> 57) \<or> (65 \<le> c \<and> c \<le> 70) \<or> (97 \<le> c \<and> c \<le> 102)"

text \<open>The two searches of \<open>decode_safe_url_path\<close>: a percent sign that starts no escape, and one that
  does.\<close>

fun bad_percent :: "ustr \<Rightarrow> bool" where
  "bad_percent [] = False"
| "bad_percent (c # cs) =
     (c = 37 \<and> \<not> (case cs of a # b # _ \<Rightarrow> is_hex a \<and> is_hex b | _ \<Rightarrow> False) \<or> bad_percent cs)"

fun has_escape :: "ustr \<Rightarrow> bool" where
  "has_escape [] = False"
| "has_escape (c # cs) =
     (c = 37 \<and> (case cs of a # b # _ \<Rightarrow> is_hex a \<and> is_hex b | _ \<Rightarrow> False) \<or> has_escape cs)"

definition decode_safe_url_path :: "url_externals \<Rightarrow> ustr \<Rightarrow> ustr option" where
  "decode_safe_url_path ext path =
     (if bad_percent path then None
      else
        (case unquote_strict ext path of
           None \<Rightarrow> None
         | Some decoded \<Rightarrow>
             if has_escape decoded
                \<or> list_ex (\<lambda>c. py_space c \<or> c < 32 \<or> (127 \<le> c \<and> c \<le> 159)) decoded
             then None else Some decoded))"

section \<open>Stored configuration\<close>

record connection_config =
  cfg_environment :: ustr
  cfg_allow_loopback_http :: bool

definition local_or_test :: "ustr \<Rightarrow> bool" where
  "local_or_test e \<longleftrightarrow> e = ustr_of ''local'' \<or> e = ustr_of ''test''"

definition connection_service :: "ustr \<Rightarrow> bool \<Rightarrow> svc_error + connection_config" where
  "connection_service environment allow_loopback_http =
     (if allow_loopback_http \<and> \<not> local_or_test environment then Inl ValueError
      else Inr \<lparr>cfg_environment = environment, cfg_allow_loopback_http = allow_loopback_http\<rparr>)"

definition local_host :: "NormalizedEndpointHost \<Rightarrow> bool" where
  "local_host h \<longleftrightarrow> neh_value h = ustr_of ''localhost'' \<or> ends_with (neh_value h) (ustr_of ''.localhost'')"

definition config_local_fixture :: "connection_config \<Rightarrow> split_url \<Rightarrow> NormalizedEndpointHost \<Rightarrow> bool" where
  "config_local_fixture cfg parsed h \<longleftrightarrow>
     local_or_test (cfg_environment cfg) \<and> cfg_allow_loopback_http cfg
     \<and> url_scheme parsed = ustr_of ''http''
     \<and> (local_host h \<or> (case neh_parsed_ip h of None \<Rightarrow> False | Some a \<Rightarrow> ip_is_loopback a))"

definition canonical_endpoint :: "split_url \<Rightarrow> ustr \<Rightarrow> nat option \<Rightarrow> ustr \<Rightarrow> ustr" where
  "canonical_endpoint parsed host port decoded_path =
     url_scheme parsed @ ustr_of ''://'' @ host
     @ (case port of None \<Rightarrow> [] | Some p \<Rightarrow> 58 # digits p) @ decoded_path"

text \<open>\<open>_POLICY_VERSION\<close>: a letter or digit, then at most 63 letters, digits, dots, underscores and
  hyphens.\<close>

definition policy_version_ok :: "ustr \<Rightarrow> bool" where
  "policy_version_ok s \<longleftrightarrow> s \<noteq> [] \<and> length s \<le> 64 \<and> ascii_alnum (hd s)
     \<and> list_all (\<lambda>c. ascii_alnum c \<or> c = 46 \<or> c = 95 \<or> c = 45) (tl s)"

text \<open>\<open>_validate_configuration\<close>; \<open>True\<close> is a normal return, every rejection raises a value error.\<close>

definition validate_configuration ::
  "url_externals \<Rightarrow> connection_config \<Rightarrow> ustr \<Rightarrow> ustr \<Rightarrow> bool \<Rightarrow> bool" where
  "validate_configuration ext cfg endpoint_url policy_version has_secret =
     (if endpoint_url = [] \<or> length endpoint_url > 2048
         \<or> list_ex (\<lambda>c. c \<le> 32 \<or> c = 127) endpoint_url then False
      else
        (case urlsplit ext endpoint_url of
           None \<Rightarrow> False
         | Some parsed \<Rightarrow>
             (case normalize_endpoint_host ext (url_hostname parsed) of
                None \<Rightarrow> False
              | Some host \<Rightarrow>
                  (let local_fixture = config_local_fixture cfg parsed host; port = url_port parsed
                   in if (url_scheme parsed \<noteq> ustr_of ''https'' \<and> \<not> local_fixture)
                         \<or> port = Some 0
                         \<or> neh_value host = []
                         \<or> (\<not> local_fixture \<and> (local_host host \<or> neh_is_ip_literal host))
                         \<or> url_username parsed \<noteq> None \<or> url_password parsed \<noteq> None
                         \<or> url_query parsed \<noteq> [] \<or> url_fragment parsed \<noteq> []
                         \<or> (\<not> local_fixture \<and> port \<noteq> None \<and> port \<noteq> Some 443) then False
                      else if local_fixture \<and> has_secret then False
                      else
                        (case decode_safe_url_path ext (url_path parsed) of
                           None \<Rightarrow> False
                         | Some decoded_path \<Rightarrow>
                             (let canonical = canonical_endpoint parsed (neh_value host) port decoded_path
                              in if utf8 canonical = None then False
                                 else if contains_obvious_secret ext canonical
                                         \<or> contains_sensitive_hostname ext (neh_value host)
                                         \<or> contains_sensitive_url_path ext decoded_path then False
                                 else policy_version_ok policy_version))))))"

section \<open>Contact policy\<close>

datatype endpoint_error = EndpointPolicyError | EndpointResolutionError

record EndpointResolution =
  er_host :: ustr
  er_port :: nat
  er_addresses :: "ustr list"

definition forbidden_address :: "ip \<Rightarrow> bool" where
  "forbidden_address a \<longleftrightarrow> \<not> ip_is_global a \<or> ip_is_multicast a \<or> ip_is_loopback a \<or> ip_is_link_local a
     \<or> ip_is_private a \<or> ip_is_reserved a \<or> ip_is_unspecified a"

text \<open>\<open>resolver host port\<close> is \<open>None\<close> when resolution raises. Its result is a set; the model takes the
  sorted list of it that the source returns.\<close>

definition policy_validate ::
  "url_externals \<Rightarrow> ustr \<Rightarrow> bool \<Rightarrow> (ustr \<Rightarrow> nat \<Rightarrow> ustr list option) \<Rightarrow> ustr
     \<Rightarrow> endpoint_error + EndpointResolution" where
  "policy_validate ext environment allow_loopback_http resolver endpoint =
     (case urlsplit ext endpoint of
        None \<Rightarrow> Inl EndpointPolicyError
      | Some parsed \<Rightarrow>
          (let port = (case url_port parsed of Some p \<Rightarrow> p
                       | None \<Rightarrow> if url_scheme parsed = ustr_of ''https'' then 443 else 80)
           in if url_hostname parsed = None \<or> url_hostname parsed = Some []
                 \<or> url_username parsed \<noteq> None \<or> url_password parsed \<noteq> None
                 \<or> url_query parsed \<noteq> [] \<or> url_fragment parsed \<noteq> []
                 \<or> (url_scheme parsed \<noteq> ustr_of ''http'' \<and> url_scheme parsed \<noteq> ustr_of ''https'')
                 \<or> port = 0 then Inl EndpointPolicyError
              else
                (case normalize_endpoint_host ext (url_hostname parsed) of
                   None \<Rightarrow> Inl EndpointPolicyError
                 | Some host \<Rightarrow>
                     (case decode_safe_url_path ext (url_path parsed) of
                        None \<Rightarrow> Inl EndpointPolicyError
                      | Some decoded_path \<Rightarrow>
                          if contains_obvious_secret ext
                               (canonical_endpoint parsed (neh_value host) (Some port) decoded_path)
                             \<or> contains_sensitive_hostname ext (neh_value host)
                             \<or> contains_sensitive_url_path ext decoded_path
                          then Inl EndpointPolicyError
                          else
                            (case resolver (neh_value host) port of
                               None \<Rightarrow> Inl EndpointResolutionError
                             | Some addresses \<Rightarrow>
                                 if addresses = [] then Inl EndpointPolicyError
                                 else
                                   (case all_some (map (ip_address ext) addresses) of
                                      None \<Rightarrow> Inl EndpointPolicyError
                                    | Some parsed_addresses \<Rightarrow>
                                        (let resolution = \<lparr>er_host = neh_value host, er_port = port,
                                                           er_addresses = sort addresses\<rparr>
                                         in if url_scheme parsed = ustr_of ''http''
                                               \<and> local_or_test environment \<and> allow_loopback_http
                                               \<and> list_all ip_is_loopback parsed_addresses
                                            then Inr resolution
                                            else if url_scheme parsed \<noteq> ustr_of ''https''
                                                    \<or> list_ex forbidden_address parsed_addresses
                                            then Inl EndpointPolicyError
                                            else Inr resolution)))))))"

end
