(* ===== verification/Reg_Connections.thy ===== *)
theory Reg_Connections
  imports Exec_Core Endpoint_Rules
begin

text \<open>
  Connections and their versions: \<open>ConnectionService\<close> of \<^verbatim>\<open>registry/service.py\<close>. A connection has a
  pending and a verified version, a lifecycle, a control epoch that every administrative change
  raises, and at most one refresh allocation, which names the generation, control epoch and version
  a refresh may publish under. Fresh identifiers (\<open>uuid4\<close>) are arguments.
\<close>

section \<open>Helpers\<close>

text \<open>\<open>correlation_id or uuid4()\<close>.\<close>

definition correlation_or :: "uuid option \<Rightarrow> uuid \<Rightarrow> uuid" where
  "correlation_or correlation_id fresh = (case correlation_id of Some c \<Rightarrow> c | None \<Rightarrow> fresh)"

definition connection_audit ::
  "WorkspaceContext \<Rightarrow> AuditAction \<Rightarrow> uuid \<Rightarrow> uuid option \<Rightarrow> uuid \<Rightarrow> db \<Rightarrow> db" where
  "connection_audit ctx action connection_id correlation_id fresh =
     add_audit (audit_succeeded (ctx_workspace_id ctx) (ctx_actor_user_id ctx) action SERVER_CONNECTION
                  connection_id (correlation_or correlation_id fresh))"

definition locked_connection :: "WorkspaceContext \<Rightarrow> uuid \<Rightarrow> db \<Rightarrow> svc_error + ServerConnection" where
  "locked_connection ctx connection_id d =
     (case scoped_connection connection_id (ctx_workspace_id ctx) d of
        None \<Rightarrow> Inl AuthorizationDenied
      | Some c \<Rightarrow> Inr c)"

definition require_scoped_secret :: "WorkspaceContext \<Rightarrow> uuid option \<Rightarrow> db \<Rightarrow> svc_error + unit" where
  "require_scoped_secret ctx secret_binding_id d =
     (case secret_binding_id of
        None \<Rightarrow> Inr ()
      | Some s \<Rightarrow>
          (case get_secret_binding ctx s d of
             None \<Rightarrow> Inl AuthorizationDenied
           | Some _ \<Rightarrow> Inr ()))"

definition validate_name :: "ustr \<Rightarrow> svc_error + ustr" where
  "validate_name name =
     (let normalized = ustr_strip name
      in if normalized = [] \<or> length normalized > 128 \<or> 0 \<in> set normalized then Inl ValueError
         else if utf8 normalized = None then Inl ValueError
         else Inr normalized)"

text \<open>\<open>pending_version_id or verified_version_id\<close>: the version a refresh is about.\<close>

definition conn_target :: "ServerConnection \<Rightarrow> uuid option" where
  "conn_target c =
     (case conn_pending_version_id c of Some v \<Rightarrow> Some v | None \<Rightarrow> conn_verified_version_id c)"

definition open_refresh_job :: "DiscoveryRefreshJob \<Rightarrow> bool" where
  "open_refresh_job j \<longleftrightarrow> drj_status j = RefreshJobStatus.QUEUED \<or> drj_status j = RefreshJobStatus.LEASED"

definition obsolete_job :: "DiscoveryRefreshJob \<Rightarrow> DiscoveryRefreshJob" where
  "obsolete_job j = j\<lparr>drj_status := OBSOLETE, drj_lease_owner := None, drj_lease_expires_at := None\<rparr>"

definition obsolete_refresh_jobs :: "WorkspaceContext \<Rightarrow> uuid \<Rightarrow> db \<Rightarrow> db" where
  "obsolete_refresh_jobs ctx connection_id d =
     d\<lparr>refresh_jobs := map (\<lambda>j. if drj_workspace_id j = ctx_workspace_id ctx
                                  \<and> drj_connection_id j = connection_id \<and> open_refresh_job j
                               then obsolete_job j else j) (refresh_jobs d)\<rparr>"

text \<open>The allocation is forgotten whenever the control epoch moves or a refresh ends.\<close>

definition no_allocation :: "ServerConnection \<Rightarrow> ServerConnection" where
  "no_allocation c = c\<lparr>conn_allocated_control_epoch := None, conn_allocated_target_version_id := None\<rparr>"

section \<open>Administrative operations\<close>

record connection_request =
  crq_endpoint_url :: ustr
  crq_secret_binding_id :: "uuid option"
  crq_policy_version :: ustr
  crq_correlation_id :: "uuid option"

record connection_ids =
  fresh_connection :: uuid
  fresh_version :: uuid
  fresh_correlation :: uuid

definition new_connection_version ::
  "WorkspaceContext \<Rightarrow> uuid \<Rightarrow> uuid \<Rightarrow> nat \<Rightarrow> connection_request \<Rightarrow> ServerConnectionVersion" where
  "new_connection_version ctx version_id connection_id sequence rq =
     \<lparr>scv_id = version_id, scv_workspace_id = ctx_workspace_id ctx, scv_connection_id = connection_id,
      scv_sequence = sequence, scv_endpoint_url = crq_endpoint_url rq,
      scv_secret_binding_id = crq_secret_binding_id rq, scv_transport = STREAMABLE_HTTP,
      scv_policy_version = crq_policy_version rq, scv_created_by_user_id = ctx_actor_user_id ctx\<rparr>"

definition connection_create ::
  "url_externals \<Rightarrow> connection_config \<Rightarrow> WorkspaceContext \<Rightarrow> ustr \<Rightarrow> connection_request \<Rightarrow> connection_ids
     \<Rightarrow> db \<Rightarrow> svc_error + ServerConnection \<times> db" where
  "connection_create ext cfg ctx name rq ids d =
     and_then (require_current_role ctx [ADMIN] True d) (\<lambda>_.
     and_then (validate_name name) (\<lambda>normalized_name.
       if \<not> validate_configuration ext cfg (crq_endpoint_url rq) (crq_policy_version rq)
              (crq_secret_binding_id rq \<noteq> None) then Inl ValueError
       else
         and_then (require_scoped_secret ctx (crq_secret_binding_id rq) d) (\<lambda>_.
           let connection = \<lparr>conn_id = fresh_connection ids, conn_workspace_id = ctx_workspace_id ctx,
                 conn_name = normalized_name, conn_lifecycle = VERIFYING,
                 conn_pending_version_id = Some (fresh_version ids), conn_verified_version_id = None,
                 conn_control_epoch = 0, conn_refresh_generation = 0,
                 conn_allocated_control_epoch = None, conn_allocated_target_version_id = None,
                 conn_current_snapshot_id = None, conn_last_refresh_error_code = None,
                 conn_last_refresh_at = None, conn_created_by_user_id = ctx_actor_user_id ctx\<rparr>;
               version = new_connection_version ctx (fresh_version ids) (fresh_connection ids) 1 rq
           in Inr (connection,
                connection_audit ctx CONNECTION_CREATED (conn_id connection) (crq_correlation_id rq)
                  (fresh_correlation ids)
                  (d\<lparr>connections := connections d @ [connection],
                     connection_versions := connection_versions d @ [version]\<rparr>)))))"

definition append_version ::
  "url_externals \<Rightarrow> connection_config \<Rightarrow> WorkspaceContext \<Rightarrow> uuid \<Rightarrow> connection_request \<Rightarrow> connection_ids
     \<Rightarrow> db \<Rightarrow> svc_error + ServerConnectionVersion \<times> db" where
  "append_version ext cfg ctx connection_id rq ids d =
     and_then (require_current_role ctx [ADMIN] True d) (\<lambda>_.
       if \<not> validate_configuration ext cfg (crq_endpoint_url rq) (crq_policy_version rq)
              (crq_secret_binding_id rq \<noteq> None) then Inl ValueError
       else
         and_then (require_scoped_secret ctx (crq_secret_binding_id rq) d) (\<lambda>_.
         and_then (locked_connection ctx connection_id d) (\<lambda>connection.
           if conn_lifecycle connection = ConnectionLifecycle.DISABLED then Inl InvalidConnectionTransition
           else
             (let version = new_connection_version ctx (fresh_version ids) (conn_id connection)
                    (next_sequence (map scv_sequence (filter (\<lambda>v. scv_connection_id v = conn_id connection)
                       (connection_versions d)))) rq;
                  connection' = no_allocation (connection\<lparr>conn_pending_version_id := Some (scv_id version),
                    conn_lifecycle := VERIFYING, conn_control_epoch := conn_control_epoch connection + 1\<rparr>)
              in Inr (version,
                   connection_audit ctx CONNECTION_VERSION_APPENDED (conn_id connection)
                     (crq_correlation_id rq) (fresh_correlation ids)
                     (obsolete_refresh_jobs ctx (conn_id connection)
                       (put_connection connection'
                         (d\<lparr>connection_versions := connection_versions d @ [version]\<rparr>))))))))"

definition connection_disable ::
  "WorkspaceContext \<Rightarrow> uuid \<Rightarrow> uuid option \<Rightarrow> uuid \<Rightarrow> db \<Rightarrow> svc_error + ServerConnection \<times> db" where
  "connection_disable ctx connection_id correlation_id fresh d =
     and_then (require_current_role ctx [ADMIN, OPERATOR] True d) (\<lambda>_.
     and_then (locked_connection ctx connection_id d) (\<lambda>connection.
       if conn_lifecycle connection = ConnectionLifecycle.DISABLED then Inl InvalidConnectionTransition
       else
         (let connection' = no_allocation (connection\<lparr>conn_lifecycle := ConnectionLifecycle.DISABLED,
                conn_control_epoch := conn_control_epoch connection + 1\<rparr>)
          in Inr (connection',
               connection_audit ctx CONNECTION_DISABLED (conn_id connection) correlation_id fresh
                 (obsolete_refresh_jobs ctx (conn_id connection) (put_connection connection' d))))))"

definition connection_enable ::
  "WorkspaceContext \<Rightarrow> uuid \<Rightarrow> uuid option \<Rightarrow> uuid \<Rightarrow> db \<Rightarrow> svc_error + ServerConnection \<times> db" where
  "connection_enable ctx connection_id correlation_id fresh d =
     and_then (require_current_role ctx [ADMIN] True d) (\<lambda>_.
     and_then (locked_connection ctx connection_id d) (\<lambda>connection.
       if conn_lifecycle connection \<noteq> ConnectionLifecycle.DISABLED then Inl InvalidConnectionTransition
       else
         (let connection' = no_allocation (connection\<lparr>conn_lifecycle := VERIFYING,
                conn_control_epoch := conn_control_epoch connection + 1\<rparr>)
          in Inr (connection',
               connection_audit ctx CONNECTION_ENABLED (conn_id connection) correlation_id fresh
                 (put_connection connection' d)))))"

section \<open>Refresh allocations\<close>

definition allocate_refresh_generation ::
  "WorkspaceContext \<Rightarrow> uuid \<Rightarrow> db \<Rightarrow> svc_error + (nat \<times> nat \<times> uuid) \<times> db" where
  "allocate_refresh_generation ctx connection_id d =
     and_then (require_current_role ctx [ADMIN, OPERATOR] True d) (\<lambda>_.
     and_then (locked_connection ctx connection_id d) (\<lambda>connection.
       if conn_lifecycle connection = ConnectionLifecycle.DISABLED then Inl InvalidConnectionTransition
       else
         (case conn_target connection of
            None \<Rightarrow> Inl InvalidConnectionTransition
          | Some target \<Rightarrow>
              (let connection' = connection\<lparr>
                     conn_lifecycle := (if conn_pending_version_id connection \<noteq> None
                                           \<and> conn_lifecycle connection = DEGRADED
                                        then VERIFYING else conn_lifecycle connection),
                     conn_refresh_generation := conn_refresh_generation connection + 1,
                     conn_allocated_control_epoch := Some (conn_control_epoch connection),
                     conn_allocated_target_version_id := Some target\<rparr>
               in Inr ((conn_refresh_generation connection', conn_control_epoch connection', target),
                       put_connection connection' d)))))"

text \<open>The condition that \<open>promote_pending\<close>, \<open>complete_refresh\<close>, \<open>record_version\<close> and the refresh
  leases share: the allocation is the one the caller was given.\<close>

definition allocation_is :: "uuid \<Rightarrow> nat \<Rightarrow> nat \<Rightarrow> ServerConnection \<Rightarrow> bool" where
  "allocation_is version_id epoch generation c \<longleftrightarrow>
     conn_control_epoch c = epoch \<and> conn_refresh_generation c = generation
     \<and> conn_allocated_control_epoch c = Some epoch
     \<and> conn_allocated_target_version_id c = Some version_id"

definition promote_pending ::
  "WorkspaceContext \<Rightarrow> uuid \<Rightarrow> uuid \<Rightarrow> nat \<Rightarrow> nat \<Rightarrow> uuid option \<Rightarrow> uuid \<Rightarrow> db
     \<Rightarrow> svc_error + ServerConnection \<times> db" where
  "promote_pending ctx connection_id version_id epoch generation correlation_id fresh d =
     and_then (require_current_role ctx [ADMIN, OPERATOR] True d) (\<lambda>_.
     and_then (locked_connection ctx connection_id d) (\<lambda>connection.
       if conn_lifecycle connection \<noteq> VERIFYING \<or> conn_target connection \<noteq> Some version_id
          \<or> \<not> allocation_is version_id epoch generation connection
       then Inl InvalidConnectionTransition
       else
         (let connection' = no_allocation (connection\<lparr>conn_verified_version_id := Some version_id,
                conn_pending_version_id := None, conn_lifecycle := ACTIVE\<rparr>)
          in Inr (connection',
               connection_audit ctx CONNECTION_VERIFIED (conn_id connection) correlation_id fresh
                 (put_connection connection' d)))))"

definition complete_refresh ::
  "WorkspaceContext \<Rightarrow> uuid \<Rightarrow> uuid \<Rightarrow> nat \<Rightarrow> nat \<Rightarrow> db \<Rightarrow> svc_error + ServerConnection \<times> db" where
  "complete_refresh ctx connection_id version_id epoch generation d =
     and_then (require_current_role ctx [ADMIN, OPERATOR] True d) (\<lambda>_.
     and_then (locked_connection ctx connection_id d) (\<lambda>connection.
       if (conn_lifecycle connection \<noteq> VERIFYING \<and> conn_lifecycle connection \<noteq> ACTIVE
           \<and> conn_lifecycle connection \<noteq> DEGRADED)
          \<or> conn_pending_version_id connection \<noteq> None
          \<or> conn_verified_version_id connection \<noteq> Some version_id
          \<or> \<not> allocation_is version_id epoch generation connection
       then Inl InvalidConnectionTransition
       else
         (let connection' = no_allocation (connection\<lparr>conn_lifecycle := ACTIVE\<rparr>)
          in Inr (connection', put_connection connection' d))))"

definition is_executable :: "ServerConnection \<Rightarrow> uuid \<Rightarrow> bool" where
  "is_executable c version_id \<longleftrightarrow> conn_lifecycle c = ACTIVE \<and> conn_pending_version_id c = None
     \<and> conn_verified_version_id c = Some version_id"

section \<open>Rows\<close>

text \<open>The check constraints of \<open>server_connections\<close>, and what the operations keep beyond them: an
  active connection has no pending version, and an allocation is always current.\<close>

definition connection_check :: "ServerConnection \<Rightarrow> bool" where
  "connection_check c \<longleftrightarrow>
     (if conn_refresh_generation c = 0
      then conn_allocated_control_epoch c = None \<and> conn_allocated_target_version_id c = None
      else (conn_allocated_control_epoch c = None) = (conn_allocated_target_version_id c = None))
     \<and> (conn_pending_version_id c \<noteq> None \<or> conn_verified_version_id c \<noteq> None)
     \<and> (conn_pending_version_id c = None \<or> conn_pending_version_id c \<noteq> conn_verified_version_id c)"

definition conn_ok :: "ServerConnection \<Rightarrow> bool" where
  "conn_ok c \<longleftrightarrow> connection_check c
     \<and> (conn_lifecycle c = ACTIVE \<longrightarrow> conn_pending_version_id c = None)
     \<and> (case conn_allocated_control_epoch c of
          None \<Rightarrow> True
        | Some e \<Rightarrow> e = conn_control_epoch c \<and> conn_allocated_target_version_id c = conn_target c
            \<and> conn_lifecycle c \<noteq> ConnectionLifecycle.DISABLED
            \<and> (conn_pending_version_id c \<noteq> None \<longrightarrow> conn_lifecycle c = VERIFYING))"

lemma locked_connection_Inr:
  "locked_connection ctx i d = Inr c \<longleftrightarrow> scoped_connection i (ctx_workspace_id ctx) d = Some c"
  by (auto simp: locked_connection_def split: option.splits)

lemma scoped_connection_Some:
  "scoped_connection i w d = Some c \<Longrightarrow> c \<in> set (connections d) \<and> conn_id c = i \<and> conn_workspace_id c = w"
  by (auto simp: scoped_connection_def dest: first_row_filter_Some)

lemma conn_target_Some: "conn_ok c \<Longrightarrow> \<exists>v. conn_target c = Some v"
  by (auto simp: conn_ok_def connection_check_def conn_target_def split: option.splits)

text \<open>What each change of a connection row keeps.\<close>

lemma conn_ok_no_allocation:
  assumes "connection_check c" and "conn_lifecycle c = ACTIVE \<longrightarrow> conn_pending_version_id c = None"
  shows "conn_ok (no_allocation c)"
  using assms by (simp add: conn_ok_def no_allocation_def connection_check_def split: if_splits)

end
