(* ===== verification/Meta_Rules.thy ===== *)
theory Meta_Rules
  imports Endpoint_Rules
begin

text \<open>
  The rules for discovered tool metadata (\<^verbatim>\<open>security/metadata.py\<close>: \<open>validate_capability_scalars\<close>,
  \<open>validate_schema_payload\<close>; \<open>_validate_metadata\<close> of \<^verbatim>\<open>registry/service.py\<close>) and Python's equality
  of decoded JSON values, by which stored metadata is recognized. The credential screen of schemas
  is an argument, as the other screens are.
\<close>

record meta_externals = url_externals +
  contains_sensitive_schema :: "json \<Rightarrow> bool"
  meta_float_repr :: float_repr

record ToolDefinition =
  tool_identity :: ustr
  tool_name :: ustr
  tool_display_name :: ustr
  tool_description :: "ustr option"
  tool_input_schema :: json
  tool_output_schema :: "json option"
  tool_metadata_digest :: string
  tool_schema_supported :: bool

section \<open>Scalars\<close>

definition scalar_ok :: "nat \<Rightarrow> ustr \<Rightarrow> bool" where
  "scalar_ok n s \<longleftrightarrow> s \<noteq> [] \<and> length s \<le> n \<and> 0 \<notin> set s"

definition description_ok :: "ustr option \<Rightarrow> bool" where
  "description_ok s \<longleftrightarrow> (case s of None \<Rightarrow> True | Some t \<Rightarrow> length t \<le> 2048 \<and> 0 \<notin> set t)"

definition validate_capability_scalars :: "meta_externals \<Rightarrow> ToolDefinition \<Rightarrow> ustr \<Rightarrow> bool" where
  "validate_capability_scalars ext tool revision \<longleftrightarrow>
     scalar_ok 256 (tool_identity tool) \<and> scalar_ok 256 (tool_name tool)
     \<and> scalar_ok 256 (tool_display_name tool) \<and> description_ok (tool_description tool)
     \<and> (let texts = [tool_identity tool, tool_name tool, tool_display_name tool]
               @ (case tool_description tool of None \<Rightarrow> [] | Some t \<Rightarrow> [t]) @ [revision]
        in list_all (\<lambda>t. utf8 t \<noteq> None) texts
           \<and> \<not> list_ex (contains_obvious_secret ext) texts)"

section \<open>Schemas\<close>

text \<open>\<open>json.dumps(..., ensure_ascii=False, allow_nan=False)\<close> without key sorting: members are written
  in the order they have.\<close>

function dumps_plain :: "float_repr \<Rightarrow> json \<Rightarrow> ustr option" where
  "dumps_plain fr JNull = Some (ustr_of ''null'')"
| "dumps_plain fr (JBool b) = Some (ustr_of (if b then ''true'' else ''false''))"
| "dumps_plain fr (JInt i) = int_repr i"
| "dumps_plain fr (JFloat x) = (if float_finite x then Some (fr x) else None)"
| "dumps_plain fr (JStr s) = Some (json_string s)"
| "dumps_plain fr (JList xs) =
     map_option (\<lambda>ts. 91 # joined ts @ [93]) (all_some (map (dumps_plain fr) xs))"
| "dumps_plain fr (JDict ms) = map_option (\<lambda>ts. 123 # joined ts @ [125])
     (all_some (map (\<lambda>(k, v). map_option (\<lambda>t. json_string k @ 58 # t) (dumps_plain fr v)) ms))"
  by pat_completeness auto
termination
  by (relation "measure (size \<circ> snd)") (auto dest: size_member size_list_estimation' [OF _ order_refl]
      intro: le_imp_less_Suc)

definition schema_roots :: "json \<Rightarrow> json option \<Rightarrow> json list" where
  "schema_roots input output = input # (case output of None \<Rightarrow> [] | Some o' \<Rightarrow> [o'])"

definition validate_schema_payload :: "meta_externals \<Rightarrow> json \<Rightarrow> json option \<Rightarrow> bool" where
  "validate_schema_payload ext input output =
     (let roots = schema_roots input output
      in if \<not> bounded_loop (rev (map (\<lambda>r. (r, 1)) roots)) 0 then False
         else
           (case dumps_plain (meta_float_repr ext) (JList roots) of
              None \<Rightarrow> False
            | Some serialized \<Rightarrow>
                (case utf8 serialized of
                   None \<Rightarrow> False
                 | Some encoded \<Rightarrow>
                     length encoded \<le> 131072
                     \<and> \<not> contains_obvious_secret ext serialized
                     \<and> \<not> list_ex (contains_sensitive_schema ext) roots)))"

definition digest_ok :: "string \<Rightarrow> bool" where
  "digest_ok s \<longleftrightarrow> length s = 64 \<and> list_all (\<lambda>c. c \<in> set ''0123456789abcdef'') s"

definition revision_ok :: "ustr \<Rightarrow> bool" where
  "revision_ok s \<longleftrightarrow> s \<noteq> [] \<and> length s \<le> 64 \<and> ascii_alnum (hd s)
     \<and> list_all (\<lambda>c. ascii_alnum c \<or> c = 46 \<or> c = 95 \<or> c = 47 \<or> c = 45) (tl s)"

definition validate_metadata :: "meta_externals \<Rightarrow> ToolDefinition \<Rightarrow> ustr \<Rightarrow> bool" where
  "validate_metadata ext tool revision \<longleftrightarrow>
     digest_ok (tool_metadata_digest tool) \<and> revision_ok revision
     \<and> validate_capability_scalars ext tool revision
     \<and> validate_schema_payload ext (tool_input_schema tool) (tool_output_schema tool)"

section \<open>Equality of decoded values\<close>

text \<open>The rational value of a finite binary64 pattern.\<close>

definition float_value :: "nat \<Rightarrow> rat" where
  "float_value b =
     (let s = (if (b div 2 ^ 63) mod 2 = 1 then - 1 else 1 :: rat);
          e = (b div 2 ^ 52) mod 2048; m = b mod 2 ^ 52
      in if e = 0 then s * of_nat m / 2 ^ 1074
         else if e < 1075 then s * of_nat (2 ^ 52 + m) / 2 ^ (1075 - e)
         else s * of_nat (2 ^ 52 + m) * 2 ^ (e - 1075))"

text \<open>\<open>==\<close>: numbers compare by value across \<open>bool\<close>, \<open>int\<close> and \<open>float\<close>, lists element by element,
  dictionaries by their members whatever the order.\<close>

fun num_value :: "json \<Rightarrow> rat option" where
  "num_value (JBool b) = Some (if b then 1 else 0)"
| "num_value (JInt i) = Some (of_int i)"
| "num_value (JFloat x) = (if float_finite x then Some (float_value x) else None)"
| "num_value _ = None"

function py_eq :: "json \<Rightarrow> json \<Rightarrow> bool" where
  "py_eq (JList xs) w =
     (case w of JList ys \<Rightarrow> length xs = length ys \<and> list_all (\<lambda>(x, y). py_eq x y) (zip xs ys) | _ \<Rightarrow> False)"
| "py_eq (JDict ms) w =
     (case w of JDict ns \<Rightarrow> length ms = length ns
          \<and> list_all (\<lambda>(k, v). case map_of ns k of None \<Rightarrow> False | Some v' \<Rightarrow> py_eq v v') ms
        | _ \<Rightarrow> False)"
| "py_eq (JStr s) w = (w = JStr s)"
| "py_eq JNull w = (w = JNull)"
| "py_eq (JBool b) w = (num_value w = Some (if b then 1 else 0))"
| "py_eq (JInt i) w = (num_value w = Some (of_int i))"
| "py_eq (JFloat x) w =
     (if float_finite x then num_value w = Some (float_value x)
      else w = JFloat x \<and> x mod 2 ^ 52 = 0)"
  by pat_completeness auto
termination
proof (relation "measure (size \<circ> fst)", simp)
  fix xs ys :: "json list" and w z x y
  assume "z \<in> set (zip xs ys)" "(x, y) = z"
  then have "x \<in> set xs" by (auto dest: set_zip_leftD)
  then have "x \<in> set (json_children (JList xs))" by simp
  from size_child [OF this] show "((x, y), JList xs, w) \<in> measure (size \<circ> fst)" by simp
next
  fix ms ns :: "(ustr \<times> json) list" and w z k v v'
  assume "z \<in> set ms" "(k, v) = z"
  then have "v \<in> set (json_children (JDict ms))" by force
  from size_child [OF this] show "((v, v'), JDict ms, w) \<in> measure (size \<circ> fst)" by simp
qed

definition py_eq_opt :: "json option \<Rightarrow> json option \<Rightarrow> bool" where
  "py_eq_opt a b = (case (a, b) of (None, None) \<Rightarrow> True | (Some x, Some y) \<Rightarrow> py_eq x y | _ \<Rightarrow> False)"

end
