(* ===== verification/Reg_Capabilities.thy ===== *)
theory Reg_Capabilities
  imports Reg_Connections Meta_Rules
begin

text \<open>
  Capabilities and their immutable versions: \<open>CapabilityService\<close> of \<^verbatim>\<open>registry/service.py\<close>. A
  capability has a pending and an enabled version and a status whose every change raises the status
  epoch and appends one status event.
\<close>

section \<open>Helpers\<close>

definition append_status_event :: "WorkspaceContext \<Rightarrow> Capability \<Rightarrow> uuid option \<Rightarrow> db \<Rightarrow> db" where
  "append_status_event ctx cap version_id d =
     d\<lparr>status_events := status_events d @ [\<lparr>cse_workspace_id = ctx_workspace_id ctx,
         cse_capability_id = cap_id cap, cse_capability_version_id = version_id,
         cse_status = cap_status cap, cse_status_epoch = cap_status_epoch cap,
         cse_actor_user_id = ctx_actor_user_id ctx\<rparr>]\<rparr>"

definition capability_audit ::
  "WorkspaceContext \<Rightarrow> AuditAction \<Rightarrow> uuid \<Rightarrow> uuid option \<Rightarrow> uuid \<Rightarrow> db \<Rightarrow> db" where
  "capability_audit ctx action capability_id correlation_id fresh =
     add_audit (audit_succeeded (ctx_workspace_id ctx) (ctx_actor_user_id ctx) action CAPABILITY
                  capability_id (correlation_or correlation_id fresh))"

definition locked_capability :: "WorkspaceContext \<Rightarrow> uuid \<Rightarrow> db \<Rightarrow> svc_error + Capability" where
  "locked_capability ctx capability_id d =
     (case scoped_capability capability_id (ctx_workspace_id ctx) d of
        None \<Rightarrow> Inl AuthorizationDenied
      | Some c \<Rightarrow> Inr c)"

text \<open>Every change of a capability goes with the next status epoch and its event.\<close>

definition revise_capability :: "WorkspaceContext \<Rightarrow> Capability \<Rightarrow> uuid option \<Rightarrow> db \<Rightarrow> db" where
  "revise_capability ctx cap version_id d =
     (let cap' = cap\<lparr>cap_status_epoch := cap_status_epoch cap + 1\<rparr>
      in append_status_event ctx cap' version_id (put_capability cap' d))"

definition decision_version :: "Capability \<Rightarrow> uuid option" where
  "decision_version c =
     (case cap_pending_version_id c of Some v \<Rightarrow> Some v | None \<Rightarrow> cap_enabled_version_id c)"

section \<open>Recording an observed tool\<close>

definition same_metadata :: "ToolDefinition \<Rightarrow> CapabilityVersion \<Rightarrow> bool" where
  "same_metadata tool v \<longleftrightarrow>
     capv_display_name v = tool_display_name tool \<and> capv_description v = tool_description tool
     \<and> py_eq (capv_input_schema v) (tool_input_schema tool)
     \<and> py_eq_opt (capv_output_schema v) (tool_output_schema tool)
     \<and> capv_metadata_digest v = tool_metadata_digest tool
     \<and> capv_schema_supported v = tool_schema_supported tool"

definition matching_rows ::
  "Capability \<Rightarrow> uuid \<Rightarrow> ToolDefinition \<Rightarrow> ustr \<Rightarrow> db \<Rightarrow> CapabilityVersion list" where
  "matching_rows cap connection_version_id tool revision d =
     concat (map (\<lambda>v. map (\<lambda>_. v) (filter (\<lambda>b. bind_capability_version_id b = capv_id v
           \<and> bind_connection_version_id b = connection_version_id
           \<and> bind_tool_name b = tool_name tool \<and> bind_protocol_revision b = revision)
         (tool_bindings d)))
       (filter (\<lambda>v. capv_capability_id v = cap_id cap \<and> capv_workspace_id v = cap_workspace_id cap
           \<and> capv_metadata_digest v = tool_metadata_digest tool) (capability_versions d)))"

definition matching_current_version ::
  "Capability \<Rightarrow> uuid \<Rightarrow> ToolDefinition \<Rightarrow> ustr \<Rightarrow> db \<Rightarrow> CapabilityVersion option" where
  "matching_current_version cap connection_version_id tool revision d =
     (let rows = matching_rows cap connection_version_id tool revision d;
          by_id = (\<lambda>i. first_row (filter (\<lambda>v. capv_id v = i) (rev rows)));
          current_ids = (case cap_enabled_version_id cap of None \<Rightarrow> [] | Some v \<Rightarrow> [v])
                        @ (case cap_pending_version_id cap of None \<Rightarrow> [] | Some v \<Rightarrow> [v]);
          historical_ids = filter (\<lambda>i. i \<notin> set current_ids)
                             (map capv_id (rev (sort_key capv_sequence (rev rows))))
      in first_row (filter (same_metadata tool)
           (concat (map (\<lambda>i. case by_id i of None \<Rightarrow> [] | Some v \<Rightarrow> [v]) (current_ids @ historical_ids)))))"

text \<open>An observation of metadata that is already known as version \<open>i\<close>: the enabled version comes back,
  or the version goes to review again, or nothing changes.\<close>

definition existing_change :: "Capability \<Rightarrow> uuid \<Rightarrow> Capability option" where
  "existing_change cap i =
     (if cap_enabled_version_id cap = Some i \<and> cap_pending_version_id cap \<noteq> None
      then Some (cap\<lparr>cap_pending_version_id := None,
             cap_status := (if cap_status cap \<noteq> CapabilityStatus.DISABLED then ENABLED else cap_status cap)\<rparr>)
      else if cap_enabled_version_id cap = Some i \<and> cap_status cap = UNAVAILABLE
      then Some (cap\<lparr>cap_status := ENABLED\<rparr>)
      else if cap_status cap = UNAVAILABLE \<and> cap_pending_version_id cap = Some i
      then Some (cap\<lparr>cap_status := PENDING_REVIEW\<rparr>)
      else if cap_enabled_version_id cap \<noteq> Some i \<and> cap_pending_version_id cap \<noteq> Some i
      then Some (cap\<lparr>cap_pending_version_id := Some i,
             cap_status := (if cap_status cap \<noteq> CapabilityStatus.DISABLED then PENDING_REVIEW
                            else cap_status cap)\<rparr>)
      else None)"

definition record_existing :: "WorkspaceContext \<Rightarrow> Capability \<Rightarrow> CapabilityVersion \<Rightarrow> db \<Rightarrow> db" where
  "record_existing ctx cap existing d =
     (case existing_change cap (capv_id existing) of
        None \<Rightarrow> d
      | Some cap' \<Rightarrow> revise_capability ctx cap' (Some (capv_id existing)) d)"

record capability_ids =
  fresh_capability :: uuid
  fresh_capability_version :: uuid
  fresh_capability_correlation :: uuid

text \<open>New metadata becomes a new version, with its binding to the connection version, and goes to
  review; \<open>cap\<close> is the row of the capability, stored already.\<close>

definition record_new ::
  "WorkspaceContext \<Rightarrow> uuid \<Rightarrow> uuid \<Rightarrow> ToolDefinition \<Rightarrow> ustr \<Rightarrow> nat \<Rightarrow> capability_ids
     \<Rightarrow> uuid option \<Rightarrow> Capability \<Rightarrow> db \<Rightarrow> CapabilityVersion \<times> db" where
  "record_new ctx connection_id connection_version_id tool revision sequence ids correlation_id cap d =
     (let version = \<lparr>capv_id = fresh_capability_version ids, capv_workspace_id = ctx_workspace_id ctx,
            capv_capability_id = cap_id cap, capv_sequence = sequence,
            capv_display_name = tool_display_name tool, capv_description = tool_description tool,
            capv_input_schema = tool_input_schema tool, capv_output_schema = tool_output_schema tool,
            capv_metadata_digest = tool_metadata_digest tool,
            capv_schema_supported = tool_schema_supported tool\<rparr>;
          binding = \<lparr>bind_capability_version_id = capv_id version, bind_capability_id = cap_id cap,
            bind_workspace_id = ctx_workspace_id ctx, bind_connection_id = connection_id,
            bind_connection_version_id = connection_version_id, bind_tool_name = tool_name tool,
            bind_protocol_revision = revision\<rparr>;
          d1 = d\<lparr>capability_versions := capability_versions d @ [version],
                 tool_bindings := tool_bindings d @ [binding]\<rparr>;
          cap' = cap\<lparr>cap_pending_version_id := Some (capv_id version),
            cap_status := (if cap_status cap \<noteq> CapabilityStatus.DISABLED then PENDING_REVIEW
                           else cap_status cap)\<rparr>
      in (version, capability_audit ctx CAPABILITY_VERSION_RECORDED (cap_id cap) correlation_id
                     (fresh_capability_correlation ids)
                     (revise_capability ctx cap' (Some (capv_id version)) d1)))"

definition observed_capability :: "WorkspaceContext \<Rightarrow> uuid \<Rightarrow> ustr \<Rightarrow> db \<Rightarrow> Capability option" where
  "observed_capability ctx connection_id identity d =
     first_row (filter (\<lambda>c. cap_workspace_id c = ctx_workspace_id ctx \<and> cap_connection_id c = connection_id
                          \<and> cap_tool_identity c = identity) (capabilities d))"

definition new_capability :: "WorkspaceContext \<Rightarrow> uuid \<Rightarrow> ToolDefinition \<Rightarrow> capability_ids \<Rightarrow> Capability" where
  "new_capability ctx connection_id tool ids = \<lparr>cap_id = fresh_capability ids,
     cap_workspace_id = ctx_workspace_id ctx, cap_connection_id = connection_id,
     cap_tool_identity = tool_identity tool, cap_pending_version_id = None,
     cap_enabled_version_id = None, cap_status = PENDING_REVIEW, cap_status_epoch = 0\<rparr>"

definition record_version ::
  "meta_externals \<Rightarrow> WorkspaceContext \<Rightarrow> uuid \<Rightarrow> uuid \<Rightarrow> nat \<Rightarrow> nat \<Rightarrow> ToolDefinition \<Rightarrow> ustr
     \<Rightarrow> uuid option \<Rightarrow> capability_ids \<Rightarrow> db \<Rightarrow> svc_error + CapabilityVersion \<times> db" where
  "record_version ext ctx connection_id connection_version_id epoch generation tool revision
       correlation_id ids d =
     and_then (require_current_role ctx [ADMIN, OPERATOR] True d) (\<lambda>_.
       if \<not> validate_metadata ext tool revision then Inl ValueError
       else
         and_then (locked_connection ctx connection_id d) (\<lambda>connection.
           if conn_lifecycle connection = ConnectionLifecycle.DISABLED
              \<or> conn_target connection \<noteq> Some connection_version_id
              \<or> \<not> allocation_is connection_version_id epoch generation connection
           then Inl InvalidConnectionTransition
           else
             (case observed_capability ctx connection_id (tool_identity tool) d of
                None \<Rightarrow>
                  (let cap = new_capability ctx connection_id tool ids
                   in Inr (record_new ctx connection_id connection_version_id tool revision 1 ids correlation_id cap
                             (d\<lparr>capabilities := capabilities d @ [cap]\<rparr>)))
              | Some cap \<Rightarrow>
                  (case matching_current_version cap connection_version_id tool revision d of
                     Some existing \<Rightarrow> Inr (existing, record_existing ctx cap existing d)
                   | None \<Rightarrow>
                       Inr (record_new ctx connection_id connection_version_id tool revision
                              (next_sequence (map capv_sequence
                                 (filter (\<lambda>v. capv_capability_id v = cap_id cap) (capability_versions d))))
                              ids correlation_id cap d)))))"

section \<open>Decisions\<close>

definition capability_enable ::
  "WorkspaceContext \<Rightarrow> uuid \<Rightarrow> uuid \<Rightarrow> uuid option \<Rightarrow> uuid \<Rightarrow> db \<Rightarrow> svc_error + Capability \<times> db" where
  "capability_enable ctx capability_id version_id correlation_id fresh d =
     and_then (require_current_role ctx [ADMIN, OPERATOR] True d) (\<lambda>_.
     and_then (locked_capability ctx capability_id d) (\<lambda>cap.
       if decision_version cap \<noteq> Some version_id \<or> cap_status cap = ENABLED
       then Inl InvalidCapabilityTransition
       else
         (case (first_row (filter (\<lambda>b. bind_capability_version_id b = version_id
                     \<and> bind_capability_id b = cap_id cap
                     \<and> bind_workspace_id b = ctx_workspace_id ctx) (tool_bindings d)),
                first_row (filter (\<lambda>v. capv_id v = version_id \<and> capv_capability_id v = cap_id cap
                     \<and> capv_workspace_id v = ctx_workspace_id ctx) (capability_versions d)),
                scoped_connection (cap_connection_id cap) (ctx_workspace_id ctx) d) of
            (Some binding, Some version, Some connection) \<Rightarrow>
              if \<not> capv_schema_supported version
                 \<or> \<not> observed_in_snapshot (ctx_workspace_id ctx) (cap_connection_id cap)
                       (bind_connection_version_id binding) version_id
                       (conn_current_snapshot_id connection) d
                 \<or> bind_protocol_revision binding \<noteq> QUALIFIED_PROTOCOL_REVISION
                 \<or> conn_lifecycle connection \<noteq> ACTIVE
                 \<or> conn_pending_version_id connection \<noteq> None
                 \<or> conn_verified_version_id connection \<noteq> Some (bind_connection_version_id binding)
              then Inl InvalidCapabilityTransition
              else
                (let cap' = cap\<lparr>cap_enabled_version_id := Some version_id,
                       cap_pending_version_id := None, cap_status := ENABLED\<rparr>
                 in Inr (cap'\<lparr>cap_status_epoch := cap_status_epoch cap + 1\<rparr>,
                      capability_audit ctx CAPABILITY_ENABLED (cap_id cap) correlation_id fresh
                        (revise_capability ctx cap' (Some version_id) d)))
          | _ \<Rightarrow> Inl InvalidCapabilityTransition)))"

definition capability_disable ::
  "WorkspaceContext \<Rightarrow> uuid \<Rightarrow> uuid \<Rightarrow> uuid option \<Rightarrow> uuid \<Rightarrow> db \<Rightarrow> svc_error + Capability \<times> db" where
  "capability_disable ctx capability_id version_id correlation_id fresh d =
     and_then (require_current_role ctx [ADMIN, OPERATOR] True d) (\<lambda>_.
     and_then (locked_capability ctx capability_id d) (\<lambda>cap.
       if cap_status cap = CapabilityStatus.DISABLED \<or> decision_version cap \<noteq> Some version_id
       then Inl InvalidCapabilityTransition
       else
         (let cap' = cap\<lparr>cap_status := CapabilityStatus.DISABLED\<rparr>
          in Inr (cap'\<lparr>cap_status_epoch := cap_status_epoch cap + 1\<rparr>,
               capability_audit ctx CAPABILITY_DISABLED (cap_id cap) correlation_id fresh
                 (revise_capability ctx cap' (Some version_id) d)))))"

end
