(* ===== verification/Reg_Discovery.thy ===== *)
theory Reg_Discovery
  imports Reg_Capabilities Exec_Worker
begin

text \<open>
  Refresh jobs and the publication of discovery results (\<^verbatim>\<open>registry/discovery.py\<close>): a job is queued
  under a fresh allocation of its connection, leased by a worker, and ends with a published snapshot
  or a recorded failure. \<open>clock n\<close> is the \<open>n\<close>-th reading of the database clock inside an operation.
\<close>

record RefreshLease =
  rl_job_id :: uuid
  rl_actor_user_id :: uuid
  rl_worker_id :: ustr
  rl_lease_epoch :: nat
  rl_connection_id :: uuid
  rl_connection_version_id :: uuid
  rl_control_epoch :: nat
  rl_generation :: nat

section \<open>Eligibility\<close>

definition lock_eligible_connection ::
  "WorkspaceContext \<Rightarrow> uuid \<Rightarrow> uuid \<Rightarrow> nat \<Rightarrow> nat \<Rightarrow> db \<Rightarrow> svc_error + ServerConnection" where
  "lock_eligible_connection ctx connection_id version_id epoch generation d =
     and_then (locked_connection ctx connection_id d) (\<lambda>connection.
       if (conn_lifecycle connection \<noteq> VERIFYING \<and> conn_lifecycle connection \<noteq> ACTIVE
           \<and> conn_lifecycle connection \<noteq> DEGRADED)
          \<or> conn_target connection \<noteq> Some version_id
          \<or> \<not> allocation_is version_id epoch generation connection
       then Inl InvalidConnectionTransition
       else Inr connection)"

abbreviation eligible_for :: "WorkspaceContext \<Rightarrow> RefreshLease \<Rightarrow> db \<Rightarrow> svc_error + ServerConnection" where
  "eligible_for ctx lease \<equiv> lock_eligible_connection ctx (rl_connection_id lease)
     (rl_connection_version_id lease) (rl_control_epoch lease) (rl_generation lease)"

section \<open>Refresh jobs\<close>

definition refresh_job_insert_ok :: "DiscoveryRefreshJob \<Rightarrow> db \<Rightarrow> bool" where
  "refresh_job_insert_ok j d \<longleftrightarrow> 0 < drj_generation j
     \<and> \<not> list_ex (\<lambda>k. drj_connection_id k = drj_connection_id j \<and> drj_generation k = drj_generation j)
          (refresh_jobs d)"

definition enqueue ::
  "WorkspaceContext \<Rightarrow> uuid \<Rightarrow> uuid \<Rightarrow> db \<Rightarrow> svc_error + DiscoveryRefreshJob \<times> db" where
  "enqueue ctx connection_id fresh_job_id d =
     and_then (allocate_refresh_generation ctx connection_id d)
       (\<lambda>((generation, control_epoch, version_id), d1).
         let d2 = obsolete_refresh_jobs ctx connection_id d1;
             job = \<lparr>drj_id = fresh_job_id, drj_workspace_id = ctx_workspace_id ctx,
                    drj_actor_user_id = ctx_actor_user_id ctx, drj_connection_id = connection_id,
                    drj_connection_version_id = version_id, drj_generation = generation,
                    drj_control_epoch = control_epoch, drj_status = RefreshJobStatus.QUEUED,
                    drj_lease_owner = None, drj_lease_epoch = 0, drj_lease_expires_at = None\<rparr>
         in if \<not> refresh_job_insert_ok job d2 then Inl IntegrityError
            else Inr (job, d2\<lparr>refresh_jobs := refresh_jobs d2 @ [job]\<rparr>))"

definition context_for_job :: "uuid \<Rightarrow> db \<Rightarrow> svc_error + WorkspaceContext" where
  "context_for_job i d =
     (case first_row (filter (\<lambda>j. drj_id j = i) (refresh_jobs d)) of
        None \<Rightarrow> Inl AuthorizationDenied
      | Some j \<Rightarrow>
          (case membership_of d (drj_workspace_id j) (drj_actor_user_id j) of
             None \<Rightarrow> Inl AuthorizationDenied
           | Some m \<Rightarrow> Inr \<lparr>ctx_workspace_id = drj_workspace_id j,
               ctx_actor_user_id = drj_actor_user_id j, ctx_role = mem_role m\<rparr>))"

definition reclaimable :: "instant \<Rightarrow> DiscoveryRefreshJob \<Rightarrow> bool" where
  "reclaimable now j \<longleftrightarrow> drj_status j = RefreshJobStatus.QUEUED
     \<or> drj_status j = RefreshJobStatus.LEASED
       \<and> (case drj_lease_expires_at j of None \<Rightarrow> False | Some t \<Rightarrow> t \<le> now)"

definition refresh_lease :: "ustr \<Rightarrow> DiscoveryRefreshJob \<Rightarrow> RefreshLease" where
  "refresh_lease worker_id j = \<lparr>rl_job_id = drj_id j, rl_actor_user_id = drj_actor_user_id j,
     rl_worker_id = worker_id, rl_lease_epoch = drj_lease_epoch j,
     rl_connection_id = drj_connection_id j, rl_connection_version_id = drj_connection_version_id j,
     rl_control_epoch = drj_control_epoch j, rl_generation = drj_generation j\<rparr>"

definition refresh_claim ::
  "WorkspaceContext \<Rightarrow> uuid \<Rightarrow> ustr \<Rightarrow> duration \<Rightarrow> clock \<Rightarrow> db \<Rightarrow> svc_error + RefreshLease \<times> db" where
  "refresh_claim ctx i worker_id lease_duration clock d =
     and_then (require_current_role ctx [ADMIN, OPERATOR] True d) (\<lambda>_.
       if worker_id = [] \<or> length worker_id > 128 \<or> lease_duration \<le> 0 then Inl ValueError
       else
         (case first_row (filter (\<lambda>j. drj_id j = i \<and> drj_workspace_id j = ctx_workspace_id ctx
                 \<and> drj_actor_user_id j = ctx_actor_user_id ctx) (refresh_jobs d)) of
            None \<Rightarrow> Inl AuthorizationDenied
          | Some j \<Rightarrow>
              if \<not> reclaimable (clock 0) j then Inl InvalidConnectionTransition
              else
                and_then (lock_eligible_connection ctx (drj_connection_id j)
                            (drj_connection_version_id j) (drj_control_epoch j) (drj_generation j) d)
                  (\<lambda>_.
                    let j' = j\<lparr>drj_status := RefreshJobStatus.LEASED, drj_lease_owner := Some worker_id,
                               drj_lease_epoch := drj_lease_epoch j + 1,
                               drj_lease_expires_at := Some (clock 0 + lease_duration)\<rparr>
                    in Inr (refresh_lease worker_id j', put_refresh_job j' d))))"

definition claim_durable ::
  "uuid \<Rightarrow> ustr \<Rightarrow> duration \<Rightarrow> clock \<Rightarrow> db \<Rightarrow> svc_error + (WorkspaceContext \<times> RefreshLease) \<times> db" where
  "claim_durable i worker_id lease_duration clock d =
     and_then (context_for_job i d) (\<lambda>ctx.
     and_then (refresh_claim ctx i worker_id lease_duration clock d) (\<lambda>(lease, d').
       Inr ((ctx, lease), d')))"

text \<open>The columns of a job that must agree with a lease; \<open>_locked_job_for_lease\<close> and
  \<open>_locked_active_job\<close> query for them, the latter and the contact check also for an expiry in the
  future.\<close>

definition lease_matches :: "WorkspaceContext \<Rightarrow> RefreshLease \<Rightarrow> DiscoveryRefreshJob \<Rightarrow> bool" where
  "lease_matches ctx lease j \<longleftrightarrow> drj_id j = rl_job_id lease
     \<and> drj_workspace_id j = ctx_workspace_id ctx \<and> drj_actor_user_id j = ctx_actor_user_id ctx
     \<and> drj_actor_user_id j = rl_actor_user_id lease
     \<and> drj_status j = RefreshJobStatus.LEASED \<and> drj_lease_owner j = Some (rl_worker_id lease)
     \<and> drj_lease_epoch j = rl_lease_epoch lease \<and> drj_connection_id j = rl_connection_id lease
     \<and> drj_connection_version_id j = rl_connection_version_id lease
     \<and> drj_control_epoch j = rl_control_epoch lease \<and> drj_generation j = rl_generation lease"

definition refresh_unexpired :: "instant \<Rightarrow> DiscoveryRefreshJob \<Rightarrow> bool" where
  "refresh_unexpired now j \<longleftrightarrow> (case drj_lease_expires_at j of None \<Rightarrow> False | Some t \<Rightarrow> now < t)"

definition locked_job_for_lease ::
  "WorkspaceContext \<Rightarrow> RefreshLease \<Rightarrow> (DiscoveryRefreshJob \<Rightarrow> bool) \<Rightarrow> db \<Rightarrow> svc_error + DiscoveryRefreshJob" where
  "locked_job_for_lease ctx lease extra d =
     (case first_row (filter (\<lambda>j. lease_matches ctx lease j \<and> extra j) (refresh_jobs d)) of
        None \<Rightarrow> Inl InvalidConnectionTransition
      | Some j \<Rightarrow> Inr j)"

definition renew ::
  "WorkspaceContext \<Rightarrow> RefreshLease \<Rightarrow> duration \<Rightarrow> clock \<Rightarrow> db \<Rightarrow> svc_error + RefreshLease \<times> db" where
  "renew ctx lease lease_duration clock d =
     and_then (require_current_role ctx [ADMIN, OPERATOR] True d) (\<lambda>_.
       if lease_duration \<le> 0 then Inl ValueError
       else
         and_then (locked_job_for_lease ctx lease (\<lambda>_. True) d) (\<lambda>j.
           case drj_lease_expires_at j of
             None \<Rightarrow> Inl InvalidConnectionTransition
           | Some expires_at \<Rightarrow>
               if expires_at \<le> clock 0 then Inl InvalidConnectionTransition
               else
                 and_then (eligible_for ctx lease d) (\<lambda>_.
                   Inr (lease, put_refresh_job
                     (j\<lparr>drj_lease_expires_at := Some (max expires_at (clock 0 + lease_duration))\<rparr>) d))))"

definition validate_for_contact :: "WorkspaceContext \<Rightarrow> RefreshLease \<Rightarrow> clock \<Rightarrow> db \<Rightarrow> svc_error + unit" where
  "validate_for_contact ctx lease clock d =
     and_then (require_current_role ctx [ADMIN, OPERATOR] True d) (\<lambda>_.
     and_then (locked_job_for_lease ctx lease (refresh_unexpired (clock 0)) d) (\<lambda>_.
     and_then (eligible_for ctx lease d) (\<lambda>_. Inr ())))"

section \<open>Publication\<close>

record DiscoveryResult =
  dr_protocol_revision :: ustr
  dr_tools :: "ToolDefinition list"
  dr_normalized_payload :: json
  dr_canonical_bytes :: bytes
  dr_canonical_digest :: string

record publication_ids =
  pub_payload :: uuid
  pub_snapshot :: uuid
  pub_tools :: "nat \<Rightarrow> capability_ids"
  pub_correlation :: uuid

text \<open>The payload row of this digest, stored once per workspace; a different payload under the same
  digest is refused.\<close>

definition publish_payload ::
  "WorkspaceContext \<Rightarrow> DiscoveryResult \<Rightarrow> uuid \<Rightarrow> db \<Rightarrow> svc_error + uuid \<times> db" where
  "publish_payload ctx result fresh d =
     (case first_row (filter (\<lambda>p. dp_workspace_id p = ctx_workspace_id ctx
             \<and> dp_canonical_digest p = dr_canonical_digest result) (discovery_payloads d)) of
        Some p \<Rightarrow>
          if dp_byte_count p \<noteq> length (dr_canonical_bytes result)
             \<or> \<not> py_eq (dp_normalized_payload p) (dr_normalized_payload result)
          then Inl InvalidConnectionTransition else Inr (dp_id p, d)
      | None \<Rightarrow>
          if dr_canonical_bytes result = [] then Inl IntegrityError
          else Inr (fresh, d\<lparr>discovery_payloads := discovery_payloads d @
                 [\<lparr>dp_id = fresh, dp_workspace_id = ctx_workspace_id ctx,
                   dp_canonical_digest = dr_canonical_digest result,
                   dp_normalized_payload = dr_normalized_payload result,
                   dp_byte_count = length (dr_canonical_bytes result)\<rparr>]\<rparr>))"

definition publish_snapshot ::
  "WorkspaceContext \<Rightarrow> RefreshLease \<Rightarrow> ustr \<Rightarrow> uuid \<Rightarrow> uuid \<Rightarrow> db \<Rightarrow> svc_error + DiscoverySnapshot \<times> db" where
  "publish_snapshot ctx lease revision payload_id fresh d =
     (let s = \<lparr>snap_id = fresh, snap_workspace_id = ctx_workspace_id ctx,
            snap_connection_id = rl_connection_id lease,
            snap_connection_version_id = rl_connection_version_id lease, snap_payload_id = payload_id,
            snap_generation = rl_generation lease, snap_control_epoch = rl_control_epoch lease,
            snap_protocol_revision = revision\<rparr>
      in if snap_generation s = 0
            \<or> list_ex (\<lambda>x. snap_connection_id x = snap_connection_id s
                  \<and> snap_generation x = snap_generation s) (snapshots d)
         then Inl IntegrityError
         else Inr (s, d\<lparr>snapshots := snapshots d @ [s]\<rparr>))"

definition publish_tool ::
  "meta_externals \<Rightarrow> WorkspaceContext \<Rightarrow> RefreshLease \<Rightarrow> ustr \<Rightarrow> uuid \<Rightarrow> ToolDefinition \<times> capability_ids \<Rightarrow> db
     \<Rightarrow> svc_error + db" where
  "publish_tool ext ctx lease revision snapshot_id = (\<lambda>(tool, ids) d.
     and_then (record_version ext ctx (rl_connection_id lease) (rl_connection_version_id lease)
                 (rl_control_epoch lease) (rl_generation lease) tool revision None ids d)
       (\<lambda>(version, d').
          if list_ex (\<lambda>x. dsc_snapshot_id x = snapshot_id \<and> dsc_capability_version_id x = capv_id version)
               (snapshot_capabilities d')
          then Inl IntegrityError
          else Inr (d'\<lparr>snapshot_capabilities := snapshot_capabilities d' @
                 [\<lparr>dsc_workspace_id = ctx_workspace_id ctx, dsc_connection_id = rl_connection_id lease,
                   dsc_connection_version_id = rl_connection_version_id lease,
                   dsc_snapshot_id = snapshot_id, dsc_capability_version_id = capv_id version\<rparr>]\<rparr>)))"

definition mark_missing_unavailable :: "WorkspaceContext \<Rightarrow> uuid \<Rightarrow> ustr list \<Rightarrow> db \<Rightarrow> db" where
  "mark_missing_unavailable ctx connection_id observed d =
     fold (\<lambda>cap. revise_capability ctx (cap\<lparr>cap_status := UNAVAILABLE\<rparr>) (decision_version cap))
       (filter (\<lambda>c. cap_workspace_id c = ctx_workspace_id ctx \<and> cap_connection_id c = connection_id
            \<and> cap_tool_identity c \<notin> set observed \<and> cap_status c \<noteq> UNAVAILABLE
            \<and> cap_status c \<noteq> CapabilityStatus.DISABLED) (capabilities d)) d"

definition ended_refresh_job :: "RefreshJobStatus \<Rightarrow> DiscoveryRefreshJob \<Rightarrow> DiscoveryRefreshJob" where
  "ended_refresh_job status j =
     j\<lparr>drj_status := status, drj_lease_owner := None, drj_lease_expires_at := None\<rparr>"

definition publish_success ::
  "meta_externals \<Rightarrow> WorkspaceContext \<Rightarrow> RefreshLease \<Rightarrow> DiscoveryResult \<Rightarrow> publication_ids \<Rightarrow> clock \<Rightarrow> db
     \<Rightarrow> svc_error + DiscoverySnapshot \<times> db" where
  "publish_success ext ctx lease result ids clock d =
     and_then (require_current_role ctx [ADMIN, OPERATOR] True d) (\<lambda>_.
     and_then (locked_job_for_lease ctx lease (refresh_unexpired (clock 0)) d) (\<lambda>job.
     and_then (eligible_for ctx lease d) (\<lambda>connection.
     and_then (publish_payload ctx result (pub_payload ids) d) (\<lambda>(payload_id, d1).
     and_then (publish_snapshot ctx lease (dr_protocol_revision result) payload_id (pub_snapshot ids) d1)
       (\<lambda>(snapshot, d2).
     and_then (fold_res (publish_tool ext ctx lease (dr_protocol_revision result) (snap_id snapshot))
                 (zip (dr_tools result) (map (pub_tools ids) [0..<length (dr_tools result)])) d2) (\<lambda>d3.
       let d4 = mark_missing_unavailable ctx (rl_connection_id lease)
                  (map tool_identity (dr_tools result)) d3
       in and_then
            (if conn_pending_version_id connection \<noteq> None
             then promote_pending ctx (rl_connection_id lease) (rl_connection_version_id lease)
                    (rl_control_epoch lease) (rl_generation lease) None (pub_correlation ids) d4
             else complete_refresh ctx (rl_connection_id lease) (rl_connection_version_id lease)
                    (rl_control_epoch lease) (rl_generation lease) d4)
            (\<lambda>(connection', d5).
              Inr (snapshot,
                put_refresh_job (ended_refresh_job RefreshJobStatus.SUCCEEDED job)
                  (put_connection (connection'\<lparr>conn_current_snapshot_id := Some (snap_id snapshot),
                     conn_last_refresh_error_code := None, conn_last_refresh_at := Some (clock 1)\<rparr>)
                     d5)))))))))"

definition publish_failure ::
  "WorkspaceContext \<Rightarrow> RefreshLease \<Rightarrow> DiscoveryFailureCode \<Rightarrow> clock \<Rightarrow> db
     \<Rightarrow> svc_error + ServerConnection \<times> db" where
  "publish_failure ctx lease error_code clock d =
     and_then (require_current_role ctx [ADMIN, OPERATOR] True d) (\<lambda>_.
     and_then (locked_job_for_lease ctx lease (refresh_unexpired (clock 0)) d) (\<lambda>job.
     and_then (eligible_for ctx lease d) (\<lambda>connection.
       let connection' = no_allocation (connection\<lparr>conn_lifecycle := DEGRADED,
             conn_last_refresh_error_code := Some error_code, conn_last_refresh_at := Some (clock 1)\<rparr>)
       in Inr (connection',
            put_refresh_job (ended_refresh_job RefreshJobStatus.FAILED job) (put_connection connection' d)))))"

end
