(* ===== verification/Reg_Inv.thy ===== *)
theory Reg_Inv
  imports Reg_Discovery
begin

text \<open>
  The invariants of the registry tables, one predicate per group of tables that change together:
  connections with their refresh jobs and snapshots, and capabilities with their versions and status
  history; and how the row operations of the services keep them.
\<close>

lemma rows_put_mem:
  "x \<in> set (rows_put key r rows) \<longleftrightarrow>
     x = r \<and> (\<exists>y \<in> set rows. key y = key r) \<or> x \<in> set rows \<and> key x \<noteq> key r"
  by (auto simp: rows_put_def)

lemma distinct_key_eq: "distinct (map key rows) \<Longrightarrow> x \<in> set rows \<Longrightarrow> y \<in> set rows \<Longrightarrow> key x = key y \<Longrightarrow> x = y"
  by (auto simp: distinct_map inj_on_def)

section \<open>Connections, jobs and snapshots\<close>

definition conns_inv :: "ServerConnection list \<Rightarrow> bool" where
  "conns_inv cs \<longleftrightarrow> distinct (map conn_id cs) \<and> (\<forall>c \<in> set cs. conn_ok c)"

text \<open>The check constraint on the lease columns of a refresh job.\<close>

definition refresh_job_check :: "DiscoveryRefreshJob \<Rightarrow> bool" where
  "refresh_job_check j \<longleftrightarrow> 0 < drj_generation j
     \<and> (if drj_status j = RefreshJobStatus.LEASED
        then drj_lease_owner j \<noteq> None \<and> drj_lease_expires_at j \<noteq> None
        else drj_lease_owner j = None \<and> drj_lease_expires_at j = None)"

definition job_current :: "DiscoveryRefreshJob \<Rightarrow> ServerConnection \<Rightarrow> bool" where
  "job_current j = allocation_is (drj_connection_version_id j) (drj_control_epoch j) (drj_generation j)"

text \<open>A job belongs to its connection; an open job carries the connection's current allocation.\<close>

definition job_of :: "DiscoveryRefreshJob \<Rightarrow> ServerConnection \<Rightarrow> bool" where
  "job_of j c \<longleftrightarrow> conn_id c = drj_connection_id j \<and> conn_workspace_id c = drj_workspace_id j
     \<and> drj_generation j \<le> conn_refresh_generation c \<and> (open_refresh_job j \<longrightarrow> job_current j c)"

definition job_slot :: "DiscoveryRefreshJob \<Rightarrow> uuid \<times> nat" where
  "job_slot j = (drj_connection_id j, drj_generation j)"

definition jobs_inv :: "ServerConnection list \<Rightarrow> DiscoveryRefreshJob list \<Rightarrow> bool" where
  "jobs_inv cs js \<longleftrightarrow> distinct (map drj_id js) \<and> distinct (map job_slot js)
     \<and> (\<forall>j \<in> set js. refresh_job_check j \<and> (\<exists>c \<in> set cs. job_of j c))"

definition snap_of :: "DiscoverySnapshot \<Rightarrow> ServerConnection \<Rightarrow> bool" where
  "snap_of s c \<longleftrightarrow> conn_id c = snap_connection_id s \<and> conn_workspace_id c = snap_workspace_id s
     \<and> 0 < snap_generation s \<and> snap_generation s \<le> conn_refresh_generation c
     \<and> (snap_generation s = conn_refresh_generation c \<longrightarrow> conn_allocated_control_epoch c = None)"

definition snap_slot :: "DiscoverySnapshot \<Rightarrow> uuid \<times> nat" where
  "snap_slot s = (snap_connection_id s, snap_generation s)"

definition snaps_inv :: "ServerConnection list \<Rightarrow> DiscoverySnapshot list \<Rightarrow> bool" where
  "snaps_inv cs ss \<longleftrightarrow> distinct (map snap_id ss) \<and> distinct (map snap_slot ss)
     \<and> (\<forall>s \<in> set ss. \<exists>c \<in> set cs. snap_of s c)
     \<and> (\<forall>c \<in> set cs. \<forall>i. conn_current_snapshot_id c = Some i \<longrightarrow>
          (\<exists>s \<in> set ss. snap_id s = i \<and> snap_connection_id s = conn_id c))"

text \<open>The version pointers of a connection name versions of that connection.\<close>

definition vers_inv :: "ServerConnection list \<Rightarrow> ServerConnectionVersion list \<Rightarrow> bool" where
  "vers_inv cs vs \<longleftrightarrow> distinct (map scv_id vs)
     \<and> (\<forall>v \<in> set vs. \<exists>c \<in> set cs. conn_id c = scv_connection_id v \<and> conn_workspace_id c = scv_workspace_id v)
     \<and> (\<forall>c \<in> set cs. contiguous (map scv_sequence (filter (\<lambda>v. scv_connection_id v = conn_id c) vs)))
     \<and> (\<forall>c \<in> set cs. \<forall>i. conn_pending_version_id c = Some i \<or> conn_verified_version_id c = Some i \<longrightarrow>
          (\<exists>v \<in> set vs. scv_id v = i \<and> scv_connection_id v = conn_id c))"

subsection \<open>Changing one connection row\<close>

lemma conns_inv_put:
  assumes "conns_inv cs" and "conn_ok c'"
  shows "conns_inv (rows_put conn_id c' cs)"
  using assms by (auto simp: conns_inv_def rows_put_mem)

text \<open>One connection changes, and each of its jobs by \<open>f\<close>, which leaves a job what it is about.\<close>

definition keeps_job :: "(DiscoveryRefreshJob \<Rightarrow> DiscoveryRefreshJob) \<Rightarrow> bool" where
  "keeps_job f \<longleftrightarrow> (\<forall>j. drj_id (f j) = drj_id j \<and> drj_workspace_id (f j) = drj_workspace_id j
     \<and> drj_connection_id (f j) = drj_connection_id j \<and> drj_generation (f j) = drj_generation j
     \<and> drj_connection_version_id (f j) = drj_connection_version_id j
     \<and> drj_control_epoch (f j) = drj_control_epoch j)"

lemma keeps_job_current: "keeps_job f \<Longrightarrow> job_current (f j) = job_current j"
  by (simp add: keeps_job_def job_current_def)

lemma keeps_job_maps:
  "keeps_job f \<Longrightarrow> map drj_id (map f js) = map drj_id js"
  "keeps_job f \<Longrightarrow> map job_slot (map f js) = map job_slot js"
  by (simp_all add: keeps_job_def job_slot_def)

text \<open>The connection of a job, and of a snapshot, is the one with that id.\<close>

lemma job_of_the:
  assumes "jobs_inv cs js" and "distinct (map conn_id cs)" and "c \<in> set cs" and "j \<in> set js"
    and "drj_connection_id j = conn_id c"
  shows "job_of j c"
proof -
  obtain b where b: "b \<in> set cs" "job_of j b" using assms(1,4) by (auto simp: jobs_inv_def)
  then have "b = c" using distinct_key_eq [OF assms(2) b(1) assms(3)] assms(5) by (simp add: job_of_def)
  with b(2) show ?thesis by simp
qed

lemma snap_of_the:
  assumes "snaps_inv cs ss" and "distinct (map conn_id cs)" and "c \<in> set cs" and "s \<in> set ss"
    and "snap_connection_id s = conn_id c"
  shows "snap_of s c"
proof -
  obtain b where b: "b \<in> set cs" "snap_of s b" using assms(1,4) by (auto simp: snaps_inv_def)
  then have "b = c" using distinct_key_eq [OF assms(2) b(1) assms(3)] assms(5) by (simp add: snap_of_def)
  with b(2) show ?thesis by simp
qed

lemma jobs_inv_map:
  assumes inv: "jobs_inv cs js" "distinct (map conn_id cs)" "c \<in> set cs"
    and c': "conn_id c' = conn_id c" "conn_workspace_id c' = conn_workspace_id c"
      "conn_refresh_generation c \<le> conn_refresh_generation c'"
    and f: "keeps_job f" "\<And>j. j \<in> set js \<Longrightarrow> refresh_job_check (f j)"
      "\<And>j. j \<in> set js \<Longrightarrow> open_refresh_job (f j) \<Longrightarrow> open_refresh_job j
         \<and> (drj_connection_id j = conn_id c \<longrightarrow> job_current j c')"
  shows "jobs_inv (rows_put conn_id c' cs) (map f js)"
  unfolding jobs_inv_def keeps_job_maps [OF f(1)]
proof (intro conjI ballI)
  fix j' assume "j' \<in> set (map f js)"
  then obtain j where j: "j \<in> set js" "j' = f j" by auto
  then show "refresh_job_check j'" using f(2) by simp
  obtain b where b: "b \<in> set cs" "job_of j b" using inv(1) j(1) by (auto simp: jobs_inv_def)
  show "\<exists>b \<in> set (rows_put conn_id c' cs). job_of j' b"
  proof (cases "conn_id b = conn_id c")
    case True
    then have "b = c" using distinct_key_eq [OF inv(2) b(1) inv(3)] by simp
    with b(2) j c' f(1) f(3) [OF j(1)] keeps_job_current [OF f(1), of j]
    have "job_of j' c'" by (auto simp: job_of_def keeps_job_def)
    moreover have "c' \<in> set (rows_put conn_id c' cs)" using inv(3) c'(1) by (auto simp: rows_put_mem)
    ultimately show ?thesis by blast
  next
    case False
    then have "b \<in> set (rows_put conn_id c' cs)" using b(1) c'(1) by (simp add: rows_put_mem)
    moreover have "job_of j' b"
      using b(2) j f(1) f(3) [OF j(1)] keeps_job_current [OF f(1), of j] by (auto simp: job_of_def keeps_job_def)
    ultimately show ?thesis by blast
  qed
qed (use inv(1) in \<open>auto simp: jobs_inv_def\<close>)

lemma snaps_inv_put:
  assumes "snaps_inv cs ss" and "distinct (map conn_id cs)" and "c \<in> set cs"
    and "conn_id c' = conn_id c" and "conn_workspace_id c' = conn_workspace_id c"
    and "conn_refresh_generation c < conn_refresh_generation c'
      \<or> conn_refresh_generation c = conn_refresh_generation c'
        \<and> (conn_allocated_control_epoch c = None \<longrightarrow> conn_allocated_control_epoch c' = None)"
    and "conn_current_snapshot_id c' = conn_current_snapshot_id c"
  shows "snaps_inv (rows_put conn_id c' cs) ss"
  unfolding snaps_inv_def
proof (intro conjI ballI allI impI)
  fix s assume s: "s \<in> set ss"
  then obtain b where b: "b \<in> set cs" "snap_of s b" using assms(1) by (auto simp: snaps_inv_def)
  show "\<exists>b \<in> set (rows_put conn_id c' cs). snap_of s b"
  proof (cases "conn_id b = conn_id c")
    case True
    then have "b = c" using distinct_key_eq [OF assms(2) b(1) assms(3)] by simp
    then have "snap_of s c'" using b(2) assms(4-6) by (auto simp: snap_of_def)
    moreover have "c' \<in> set (rows_put conn_id c' cs)" using assms(3,4) by (auto simp: rows_put_mem)
    ultimately show ?thesis by blast
  next
    case False
    then show ?thesis using b assms(4) by (auto simp: rows_put_mem)
  qed
next
  fix b i assume "b \<in> set (rows_put conn_id c' cs)" "conn_current_snapshot_id b = Some i"
  then show "\<exists>s \<in> set ss. snap_id s = i \<and> snap_connection_id s = conn_id b"
    using assms(1,3,4,7) by (auto simp: snaps_inv_def rows_put_mem)
qed (use assms(1) in \<open>auto simp: snaps_inv_def\<close>)

lemma vers_inv_put:
  assumes "vers_inv cs vs" and "c \<in> set cs" and "conn_id c' = conn_id c"
    and "conn_workspace_id c' = conn_workspace_id c"
    and "\<And>i. conn_pending_version_id c' = Some i \<or> conn_verified_version_id c' = Some i \<Longrightarrow>
      \<exists>v \<in> set vs. scv_id v = i \<and> scv_connection_id v = conn_id c"
    and "distinct (map conn_id cs)"
  shows "vers_inv (rows_put conn_id c' cs) vs"
  unfolding vers_inv_def
proof (intro conjI ballI allI impI)
  fix v assume "v \<in> set vs"
  then obtain b where b: "b \<in> set cs" "conn_id b = scv_connection_id v" "conn_workspace_id b = scv_workspace_id v"
    using assms(1) by (auto simp: vers_inv_def)
  show "\<exists>b \<in> set (rows_put conn_id c' cs). conn_id b = scv_connection_id v \<and> conn_workspace_id b = scv_workspace_id v"
  proof (cases "conn_id b = conn_id c")
    case True
    then have "b = c" using distinct_key_eq [OF assms(6) b(1) assms(2)] by simp
    then show ?thesis using b assms(2-4) by (intro bexI [of _ c']) (auto simp: rows_put_mem)
  next
    case False
    then show ?thesis using b assms(3) by (auto simp: rows_put_mem)
  qed
next
  have ptr: "\<exists>v \<in> set vs. scv_id v = i \<and> scv_connection_id v = conn_id b"
    if "b \<in> set cs" "conn_pending_version_id b = Some i \<or> conn_verified_version_id b = Some i" for b i
    using assms(1) that unfolding vers_inv_def by blast
  fix b i assume b: "b \<in> set (rows_put conn_id c' cs)" "conn_pending_version_id b = Some i \<or> conn_verified_version_id b = Some i"
  show "\<exists>v \<in> set vs. scv_id v = i \<and> scv_connection_id v = conn_id b"
  proof (cases "b = c'")
    case True
    with b(2) assms(3,5) show ?thesis by simp
  next
    case False
    with b(1) have "b \<in> set cs" by (simp add: rows_put_mem)
    from ptr [OF this b(2)] show ?thesis .
  qed
next
  fix b assume "b \<in> set (rows_put conn_id c' cs)"
  then show "contiguous (map scv_sequence (filter (\<lambda>v. scv_connection_id v = conn_id b) vs))"
    using assms(1,2,3) by (auto simp: vers_inv_def rows_put_mem)
qed (use assms(1) in \<open>auto simp: vers_inv_def\<close>)

subsection \<open>The changes of the services\<close>

lemma keeps_job_obsolete: "keeps_job (\<lambda>j. if P j then obsolete_job j else j)"
  by (simp add: keeps_job_def obsolete_job_def)

lemma obsolete_job_closed: "\<not> open_refresh_job (obsolete_job j)"
  by (simp add: open_refresh_job_def obsolete_job_def)

lemma obsolete_job_check: "refresh_job_check j \<Longrightarrow> refresh_job_check (obsolete_job j)"
  by (simp add: refresh_job_check_def obsolete_job_def)

text \<open>Dropping the allocation of a connection together with its open jobs.\<close>

lemma obsolete_jobs_inv:
  assumes "jobs_inv (connections d) (refresh_jobs d)" and "distinct (map conn_id (connections d))"
    and "c \<in> set (connections d)" and "conn_workspace_id c = ctx_workspace_id ctx"
    and "conn_id c' = conn_id c" and "conn_workspace_id c' = conn_workspace_id c"
    and "conn_refresh_generation c \<le> conn_refresh_generation c'"
  shows "jobs_inv (rows_put conn_id c' (connections d)) (refresh_jobs (obsolete_refresh_jobs ctx (conn_id c) d))"
proof -
  let ?P = "\<lambda>j. drj_workspace_id j = ctx_workspace_id ctx \<and> drj_connection_id j = conn_id c \<and> open_refresh_job j"
  have ws: "drj_workspace_id j = conn_workspace_id c"
    if "j \<in> set (refresh_jobs d)" "drj_connection_id j = conn_id c" for j
    using job_of_the [OF assms(1-3) that] by (simp add: job_of_def)
  have "jobs_inv (rows_put conn_id c' (connections d)) (map (\<lambda>j. if ?P j then obsolete_job j else j) (refresh_jobs d))"
  proof (rule jobs_inv_map [OF assms(1-3,5-7) keeps_job_obsolete])
    fix j assume "j \<in> set (refresh_jobs d)"
    then show "refresh_job_check (if ?P j then obsolete_job j else j)"
      using assms(1) by (auto simp: jobs_inv_def obsolete_job_check)
  next
    fix j assume "j \<in> set (refresh_jobs d)" "open_refresh_job (if ?P j then obsolete_job j else j)"
    then show "open_refresh_job j \<and> (drj_connection_id j = conn_id c \<longrightarrow> job_current j c')"
      using ws assms(4) by (auto simp: obsolete_job_closed split: if_splits)
  qed
  then show ?thesis by (simp add: obsolete_refresh_jobs_def)
qed

text \<open>One job changes, and its connection possibly with it.\<close>

lemma put_job_inv:
  assumes inv: "jobs_inv cs js" "distinct (map conn_id cs)" "c \<in> set cs" "j \<in> set js" "job_of j c"
    and c': "conn_id c' = conn_id c" "conn_workspace_id c' = conn_workspace_id c"
      "conn_refresh_generation c' = conn_refresh_generation c"
    and j': "drj_id j' = drj_id j" "drj_workspace_id j' = drj_workspace_id j"
      "drj_connection_id j' = drj_connection_id j" "drj_generation j' = drj_generation j"
      "drj_connection_version_id j' = drj_connection_version_id j"
      "drj_control_epoch j' = drj_control_epoch j" "refresh_job_check j'"
    and op: "open_refresh_job j" "open_refresh_job j' \<Longrightarrow> job_current j c'"
  shows "jobs_inv (rows_put conn_id c' cs) (rows_put drj_id j' js)"
proof -
  let ?f = "\<lambda>x. if x = j then j' else x"
  have eq: "rows_put drj_id j' js = map ?f js"
    unfolding rows_put_def using distinct_key_eq [of drj_id js _ j] inv(1,4) j'(1)
    by (auto simp: jobs_inv_def)
  have only: "x = j" if "x \<in> set js" "drj_connection_id x = conn_id c" "open_refresh_job x" for x
  proof -
    have "job_slot x = job_slot j"
      using job_of_the [OF inv(1-3) that(1,2)] that(3) inv(5) op(1)
      by (simp add: job_of_def job_current_def allocation_is_def job_slot_def)
    then show ?thesis using inv(1,4) that(1) distinct_key_eq [of job_slot js] by (auto simp: jobs_inv_def)
  qed
  show ?thesis
    unfolding eq
  proof (rule jobs_inv_map [OF inv(1-3) c'(1,2)])
    show "conn_refresh_generation c \<le> conn_refresh_generation c'" using c'(3) by simp
    show "keeps_job ?f" using j' by (simp add: keeps_job_def)
    show "refresh_job_check (?f x)" if "x \<in> set js" for x
      using that inv(1) j'(7) by (auto simp: jobs_inv_def)
    show "open_refresh_job x \<and> (drj_connection_id x = conn_id c \<longrightarrow> job_current x c')"
      if "x \<in> set js" "open_refresh_job (?f x)" for x
      using that op only [OF that(1)] by (auto split: if_splits)
  qed
qed

text \<open>The snapshot of a publication: its generation was allocated, so no other snapshot has it.\<close>

lemma snaps_inv_publish:
  assumes inv: "snaps_inv cs ss" "distinct (map conn_id cs)" "c \<in> set cs"
    and c: "conn_allocated_control_epoch c \<noteq> None" "0 < conn_refresh_generation c"
    and c': "conn_id c' = conn_id c" "conn_workspace_id c' = conn_workspace_id c"
      "conn_refresh_generation c' = conn_refresh_generation c" "conn_allocated_control_epoch c' = None"
      "conn_current_snapshot_id c' = Some (snap_id s)"
    and s: "snap_id s \<notin> snap_id ` set ss" "snap_connection_id s = conn_id c"
      "snap_workspace_id s = conn_workspace_id c" "snap_generation s = conn_refresh_generation c"
  shows "snaps_inv (rows_put conn_id c' cs) (ss @ [s])"
  unfolding snaps_inv_def
proof (intro conjI ballI allI impI)
  have none: "snap_generation x \<noteq> snap_generation s" if "x \<in> set ss" "snap_connection_id x = conn_id c" for x
    using snap_of_the [OF inv that] c(1) s(4) by (auto simp: snap_of_def)
  have "snap_slot s \<notin> snap_slot ` set ss" using none s(2) by (force simp: snap_slot_def)
  then show "distinct (map snap_slot (ss @ [s]))" using inv(1) by (simp add: snaps_inv_def)
  show "distinct (map snap_id (ss @ [s]))" using inv(1) s(1) by (simp add: snaps_inv_def)
  have mem: "c' \<in> set (rows_put conn_id c' cs)" using inv(3) c'(1) by (auto simp: rows_put_mem)
  fix x assume "x \<in> set (ss @ [s])"
  then consider "x = s" | "x \<in> set ss" "snap_connection_id x = conn_id c" | "x \<in> set ss" "snap_connection_id x \<noteq> conn_id c"
    by auto
  then show "\<exists>b \<in> set (rows_put conn_id c' cs). snap_of x b"
  proof cases
    case 1
    then show ?thesis using mem c c' s by (intro bexI [of _ c']) (simp_all add: snap_of_def)
  next
    case 2
    then show ?thesis
      using mem snap_of_the [OF inv 2] c' by (intro bexI [of _ c']) (auto simp: snap_of_def)
  next
    case 3
    then obtain b where "b \<in> set cs" "snap_of x b" using inv(1) by (auto simp: snaps_inv_def)
    then show ?thesis using 3 c'(1) by (intro bexI [of _ b]) (auto simp: snap_of_def rows_put_mem)
  qed
next
  fix b i assume "b \<in> set (rows_put conn_id c' cs)" "conn_current_snapshot_id b = Some i"
  then show "\<exists>x \<in> set (ss @ [s]). snap_id x = i \<and> snap_connection_id x = conn_id b"
    using inv(1) c'(1,5) s(2) by (auto simp: snaps_inv_def rows_put_mem)
qed

section \<open>Capabilities, versions and status history\<close>

text \<open>The check constraints of \<open>capabilities\<close>.\<close>

definition capability_check :: "Capability \<Rightarrow> bool" where
  "capability_check c \<longleftrightarrow>
     (cap_pending_version_id c = None \<or> cap_pending_version_id c \<noteq> cap_enabled_version_id c)
     \<and> (cap_status c = ENABLED \<longrightarrow> cap_enabled_version_id c \<noteq> None \<and> cap_pending_version_id c = None)
     \<and> (cap_status c = PENDING_REVIEW \<longrightarrow> cap_pending_version_id c \<noteq> None)"

definition cap_slot :: "Capability \<Rightarrow> uuid \<times> ustr" where
  "cap_slot c = (cap_connection_id c, cap_tool_identity c)"

definition cap_pointers :: "Capability \<Rightarrow> CapabilityVersion list \<Rightarrow> bool" where
  "cap_pointers c vs \<longleftrightarrow> (\<forall>i. cap_pending_version_id c = Some i \<or> cap_enabled_version_id c = Some i \<longrightarrow>
     (\<exists>v \<in> set vs. capv_id v = i \<and> capv_capability_id v = cap_id c))"

definition history_of :: "uuid \<Rightarrow> CapabilityStatusEvent list \<Rightarrow> CapabilityStatusEvent list" where
  "history_of i evs = filter (\<lambda>e. cse_capability_id e = i) evs"

text \<open>The status events of a capability are numbered 1, 2, ... and the last one states its present
  status and the version that status is about.\<close>

definition history_ok :: "Capability \<Rightarrow> CapabilityStatusEvent list \<Rightarrow> bool" where
  "history_ok c evs \<longleftrightarrow> (let h = history_of (cap_id c) evs
     in h \<noteq> [] \<and> map cse_status_epoch h = [1..<Suc (cap_status_epoch c)]
        \<and> cse_status (last h) = cap_status c \<and> cse_capability_version_id (last h) = decision_version c)"

definition version_of :: "CapabilityVersion \<Rightarrow> Capability \<Rightarrow> bool" where
  "version_of v c \<longleftrightarrow> capv_capability_id v = cap_id c \<and> capv_workspace_id v = cap_workspace_id c"

definition cap_ok :: "Capability \<Rightarrow> CapabilityVersion list \<Rightarrow> CapabilityStatusEvent list \<Rightarrow> bool" where
  "cap_ok c vs evs \<longleftrightarrow> capability_check c \<and> decision_version c \<noteq> None \<and> cap_pointers c vs \<and> history_ok c evs
     \<and> contiguous (map capv_sequence (filter (\<lambda>v. capv_capability_id v = cap_id c) vs))"

definition caps_inv ::
  "Capability list \<Rightarrow> CapabilityVersion list \<Rightarrow> CapabilityStatusEvent list \<Rightarrow> bool" where
  "caps_inv cs vs evs \<longleftrightarrow> distinct (map cap_id cs) \<and> distinct (map cap_slot cs) \<and> distinct (map capv_id vs)
     \<and> (\<forall>c \<in> set cs. cap_ok c vs evs) \<and> (\<forall>v \<in> set vs. \<exists>c \<in> set cs. version_of v c)
     \<and> (\<forall>e \<in> set evs. cse_capability_id e \<in> cap_id ` set cs)"

text \<open>Every capability version has exactly one binding, to a version of the capability's connection.\<close>

definition binds_version :: "McpToolBinding \<Rightarrow> CapabilityVersion \<Rightarrow> bool" where
  "binds_version b v \<longleftrightarrow> bind_capability_version_id b = capv_id v \<and> bind_capability_id b = capv_capability_id v
     \<and> bind_workspace_id b = capv_workspace_id v"

definition binds_inv :: "Capability list \<Rightarrow> CapabilityVersion list \<Rightarrow> McpToolBinding list \<Rightarrow> bool" where
  "binds_inv cs vs bs \<longleftrightarrow> list_all2 binds_version bs vs
     \<and> (\<forall>b \<in> set bs. \<exists>c \<in> set cs. cap_id c = bind_capability_id b \<and> cap_connection_id c = bind_connection_id b)"

definition observes :: "DiscoverySnapshotCapability \<Rightarrow> DiscoverySnapshot \<Rightarrow> McpToolBinding \<Rightarrow> bool" where
  "observes x s b \<longleftrightarrow> dsc_snapshot_id x = snap_id s \<and> dsc_connection_id x = snap_connection_id s
     \<and> dsc_connection_version_id x = snap_connection_version_id s \<and> dsc_workspace_id x = snap_workspace_id s
     \<and> dsc_capability_version_id x = bind_capability_version_id b
     \<and> dsc_connection_version_id x = bind_connection_version_id b
     \<and> dsc_connection_id x = bind_connection_id b"

definition obs_slot :: "DiscoverySnapshotCapability \<Rightarrow> uuid \<times> uuid" where
  "obs_slot x = (dsc_snapshot_id x, dsc_capability_version_id x)"

definition obs_inv ::
  "DiscoverySnapshot list \<Rightarrow> McpToolBinding list \<Rightarrow> DiscoverySnapshotCapability list \<Rightarrow> bool" where
  "obs_inv ss bs xs \<longleftrightarrow> distinct (map obs_slot xs) \<and> (\<forall>x \<in> set xs. \<exists>s \<in> set ss. \<exists>b \<in> set bs. observes x s b)"

text \<open>A capability lives in the workspace of its connection.\<close>

definition owns :: "ServerConnection list \<Rightarrow> uuid \<Rightarrow> uuid \<Rightarrow> bool" where
  "owns cs i w \<longleftrightarrow> (\<exists>c \<in> set cs. conn_id c = i \<and> conn_workspace_id c = w)"

definition capconn_inv :: "ServerConnection list \<Rightarrow> Capability list \<Rightarrow> bool" where
  "capconn_inv cs caps \<longleftrightarrow> (\<forall>c \<in> set caps. owns cs (cap_connection_id c) (cap_workspace_id c))"

definition reg_tables_ok :: "db \<Rightarrow> bool" where
  "reg_tables_ok d \<longleftrightarrow> conns_inv (connections d) \<and> jobs_inv (connections d) (refresh_jobs d)
     \<and> snaps_inv (connections d) (snapshots d) \<and> vers_inv (connections d) (connection_versions d)
     \<and> caps_inv (capabilities d) (capability_versions d) (status_events d)
     \<and> binds_inv (capabilities d) (capability_versions d) (tool_bindings d)
     \<and> obs_inv (snapshots d) (tool_bindings d) (snapshot_capabilities d)
     \<and> capconn_inv (connections d) (capabilities d)"

lemma owns_put:
  assumes "distinct (map conn_id cs)" and "c \<in> set cs" and "conn_id c' = conn_id c"
    and "conn_workspace_id c' = conn_workspace_id c"
  shows "owns (rows_put conn_id c' cs) i w \<longleftrightarrow> owns cs i w"
  using distinct_key_eq [OF assms(1) _ assms(2)] assms(2-4) unfolding owns_def Bex_def rows_put_mem by metis

lemma owns_unique:
  "distinct (map conn_id cs) \<Longrightarrow> owns cs i w \<Longrightarrow> owns cs i w' \<Longrightarrow> w = w'"
  unfolding owns_def using distinct_key_eq [of conn_id cs] by metis

lemma owns_scoped: "scoped_connection i w d = Some c \<Longrightarrow> owns (connections d) i w"
  by (auto simp: owns_def dest: scoped_connection_Some)

text \<open>The tables the capability service writes.\<close>

definition caps_ok :: "db \<Rightarrow> bool" where
  "caps_ok d \<longleftrightarrow> caps_inv (capabilities d) (capability_versions d) (status_events d)
     \<and> binds_inv (capabilities d) (capability_versions d) (tool_bindings d)"

definition caps_only :: "db \<Rightarrow> db \<Rightarrow> bool" where
  "caps_only d d' \<longleftrightarrow> d' = d\<lparr>capabilities := capabilities d', capability_versions := capability_versions d',
     tool_bindings := tool_bindings d', status_events := status_events d',
     snapshot_capabilities := snapshot_capabilities d', audit_events := audit_events d'\<rparr>"

lemma caps_only_refl [simp]: "caps_only d d"
  by (simp add: caps_only_def)

lemma caps_only_trans: "caps_only d d' \<Longrightarrow> caps_only d' d'' \<Longrightarrow> caps_only d d''"
  by (cases d; cases d'; cases d'') (simp add: caps_only_def)

lemma caps_only_frame:
  assumes "caps_only d d'"
  shows "connections d' = connections d" "refresh_jobs d' = refresh_jobs d" "snapshots d' = snapshots d"
    "connection_versions d' = connection_versions d" "memberships d' = memberships d"
    "workspaces d' = workspaces d" "discovery_payloads d' = discovery_payloads d"
  by (subst assms [unfolded caps_only_def], simp)+

subsection \<open>Revising a capability\<close>

lemma history_of_snoc:
  "history_of i (evs @ [e]) = history_of i evs @ (if cse_capability_id e = i then [e] else [])"
  by (simp add: history_of_def)

lemma history_ok_snoc:
  assumes "history_ok c evs" and "cap_id c' = cap_id c" and "cap_status_epoch c' = Suc (cap_status_epoch c)"
    and "cse_capability_id e = cap_id c" and "cse_status_epoch e = cap_status_epoch c'"
    and "cse_status e = cap_status c'" and "cse_capability_version_id e = decision_version c'"
  shows "history_ok c' (evs @ [e])"
  using assms by (simp add: history_ok_def Let_def history_of_snoc)

lemma history_ok_other:
  "history_ok b evs \<Longrightarrow> cse_capability_id e \<noteq> cap_id b \<Longrightarrow> history_ok b (evs @ [e])"
  by (simp add: history_ok_def Let_def history_of_snoc)

lemma caps_inv_put:
  assumes inv: "caps_inv cs vs evs" "c \<in> set cs"
    and c': "cap_id c' = cap_id c" "cap_slot c' = cap_slot c" "cap_workspace_id c' = cap_workspace_id c"
      "capability_check c'" "decision_version c' \<noteq> None" "cap_pointers c' vs"
      "cap_status_epoch c' = Suc (cap_status_epoch c)"
    and e: "cse_capability_id e = cap_id c" "cse_status_epoch e = cap_status_epoch c'"
      "cse_status e = cap_status c'" "cse_capability_version_id e = decision_version c'"
  shows "caps_inv (rows_put cap_id c' cs) vs (evs @ [e])"
proof -
  have dist: "distinct (map cap_id cs)" using inv(1) by (simp add: caps_inv_def)
  have slots: "map cap_slot (rows_put cap_id c' cs) = map cap_slot cs"
    unfolding rows_put_def using c'(1,2) distinct_key_eq [OF dist _ inv(2)] by (auto simp: map_eq_conv)
  have c: "cap_ok c vs evs" using inv by (simp add: caps_inv_def)
  have "cap_ok c' vs (evs @ [e])"
    using c c' history_ok_snoc [OF _ c'(1,7) e] by (simp add: cap_ok_def)
  moreover have "cap_ok b vs (evs @ [e])" if "b \<in> set cs" "cap_id b \<noteq> cap_id c" for b
    using inv(1) that e(1) history_ok_other by (simp add: caps_inv_def cap_ok_def)
  moreover have "\<exists>b \<in> set (rows_put cap_id c' cs). version_of v b" if v: "v \<in> set vs" for v
  proof -
    obtain b where b: "b \<in> set cs" "version_of v b" using inv(1) v by (auto simp: caps_inv_def)
    show ?thesis
    proof (cases "cap_id b = cap_id c")
      case True
      then have "b = c" using distinct_key_eq [OF dist b(1) inv(2)] by simp
      then show ?thesis using b c'(1,3) inv(2) by (intro bexI [of _ c']) (auto simp: version_of_def rows_put_mem)
    qed (use b c'(1) in \<open>auto simp: rows_put_mem\<close>)
  qed
  moreover have "cap_id ` set (rows_put cap_id c' cs) = cap_id ` set cs" by (metis list.set_map map_key_rows_put)
  ultimately show ?thesis
    using inv e(1) dist slots c'(1) by (auto simp: caps_inv_def rows_put_mem)
qed

lemma binds_inv_put:
  assumes "binds_inv cs vs bs" and "c \<in> set cs" and "cap_id c' = cap_id c" and "cap_slot c' = cap_slot c"
    and "distinct (map cap_id cs)"
  shows "binds_inv (rows_put cap_id c' cs) vs bs"
  unfolding binds_inv_def
proof (intro conjI ballI)
  fix b assume "b \<in> set bs"
  then obtain a where a: "a \<in> set cs" "cap_id a = bind_capability_id b" "cap_connection_id a = bind_connection_id b"
    using assms(1) by (auto simp: binds_inv_def)
  show "\<exists>a \<in> set (rows_put cap_id c' cs). cap_id a = bind_capability_id b \<and> cap_connection_id a = bind_connection_id b"
  proof (cases "cap_id a = cap_id c")
    case True
    then have "a = c" using distinct_key_eq [OF assms(5) a(1) assms(2)] by simp
    then show ?thesis using a assms(2-4) by (intro bexI [of _ c']) (auto simp: cap_slot_def rows_put_mem)
  qed (use a assms(3) in \<open>auto simp: rows_put_mem\<close>)
qed (use assms(1) in \<open>simp add: binds_inv_def\<close>)

lemma decision_version_update [simp]:
  "decision_version (c\<lparr>cap_status_epoch := n\<rparr>) = decision_version c"
  "decision_version (c\<lparr>cap_status := s\<rparr>) = decision_version c"
  by (simp_all add: decision_version_def split: option.split)

lemma revise_capability_tables:
  "capabilities (revise_capability ctx c vid d)
     = rows_put cap_id (c\<lparr>cap_status_epoch := Suc (cap_status_epoch c)\<rparr>) (capabilities d)"
  "capability_versions (revise_capability ctx c vid d) = capability_versions d"
  "tool_bindings (revise_capability ctx c vid d) = tool_bindings d"
  "snapshot_capabilities (revise_capability ctx c vid d) = snapshot_capabilities d"
  "caps_only d (revise_capability ctx c vid d)"
  by (simp_all add: revise_capability_def append_status_event_def put_capability_def Let_def caps_only_def)

lemma revise_capability_ok:
  assumes ok: "caps_ok d" "c \<in> set (capabilities d)"
    and c': "cap_id c' = cap_id c" "cap_slot c' = cap_slot c" "cap_workspace_id c' = cap_workspace_id c"
      "cap_status_epoch c' = cap_status_epoch c" "capability_check c'" "decision_version c' = vid" "vid \<noteq> None"
      "cap_pointers c' (capability_versions d)"
  shows "caps_ok (revise_capability ctx c' vid d)"
proof -
  let ?c = "c'\<lparr>cap_status_epoch := Suc (cap_status_epoch c')\<rparr>"
  have same: "capability_check ?c" "decision_version ?c = vid" "cap_pointers ?c (capability_versions d)"
    "cap_slot ?c = cap_slot c" using c' by (simp_all add: capability_check_def cap_pointers_def cap_slot_def)
  have "caps_inv (rows_put cap_id ?c (capabilities d)) (capability_versions d)
      (status_events d @ [\<lparr>cse_workspace_id = ctx_workspace_id ctx, cse_capability_id = cap_id c',
         cse_capability_version_id = vid, cse_status = cap_status c',
         cse_status_epoch = Suc (cap_status_epoch c'), cse_actor_user_id = ctx_actor_user_id ctx\<rparr>])"
    using ok c' same by (intro caps_inv_put [of _ _ _ c]) (simp_all add: caps_ok_def)
  moreover have "binds_inv (rows_put cap_id ?c (capabilities d)) (capability_versions d) (tool_bindings d)"
    using ok c' same by (intro binds_inv_put [of _ _ _ c]) (auto simp: caps_ok_def caps_inv_def)
  ultimately show ?thesis
    by (simp add: caps_ok_def revise_capability_def append_status_event_def put_capability_def Let_def)
qed

end
