(* ===== verification/Reg_Ops.thy ===== *)
theory Reg_Ops
  imports Reg_Inv
begin

text \<open>
  What the operations of the capability and connection services keep: the operations that returned,
  read back as changes of the tables, preserve the invariants of the registry.
\<close>

section \<open>Recording tools\<close>

lemma matching_rows_mem:
  assumes "v \<in> set (matching_rows cap cv tool revision d)"
  shows "v \<in> set (capability_versions d) \<and> capv_capability_id v = cap_id cap
    \<and> (\<exists>b \<in> set (tool_bindings d). bind_capability_version_id b = capv_id v
         \<and> bind_connection_version_id b = cv \<and> bind_protocol_revision b = revision)"
  using assms by (auto simp: matching_rows_def)

lemma matching_current_version_Some:
  assumes "matching_current_version cap cv tool revision d = Some v"
  shows "v \<in> set (capability_versions d) \<and> capv_capability_id v = cap_id cap \<and> same_metadata tool v
    \<and> (\<exists>b \<in> set (tool_bindings d). bind_capability_version_id b = capv_id v
         \<and> bind_connection_version_id b = cv \<and> bind_protocol_revision b = revision)"
proof -
  let ?by = "\<lambda>i. first_row (filter (\<lambda>v. capv_id v = i) (rev (matching_rows cap cv tool revision d)))"
  have "\<exists>i. ?by i = Some v" "same_metadata tool v"
    using first_row_filter_Some [OF assms [unfolded matching_current_version_def Let_def]]
    by (auto split: option.splits)
  then have "v \<in> set (matching_rows cap cv tool revision d)" by (auto dest: first_row_filter_Some)
  from matching_rows_mem [OF this] \<open>same_metadata tool v\<close> show ?thesis by blast
qed

text \<open>What an observation may do to a capability: nothing, or raise its status epoch; it never touches
  the enabled version and never ends a \<open>DISABLED\<close> status.\<close>

definition observed_change :: "Capability \<Rightarrow> Capability \<Rightarrow> bool" where
  "observed_change c c' \<longleftrightarrow> cap_id c' = cap_id c \<and> cap_slot c' = cap_slot c
     \<and> cap_workspace_id c' = cap_workspace_id c \<and> cap_enabled_version_id c' = cap_enabled_version_id c
     \<and> (cap_status c = CapabilityStatus.DISABLED \<longrightarrow> cap_status c' = CapabilityStatus.DISABLED)
     \<and> (c' = c \<or> cap_status_epoch c < cap_status_epoch c')"

lemma observed_change_refl [simp]: "observed_change c c"
  by (simp add: observed_change_def)

lemma observed_change_trans: "observed_change a b \<Longrightarrow> observed_change b c \<Longrightarrow> observed_change a c"
  by (auto simp: observed_change_def)

lemma existing_change_Some:
  assumes "existing_change cap i = Some c'" and "capability_check cap"
  shows "cap_id c' = cap_id cap" and "cap_slot c' = cap_slot cap" and "cap_workspace_id c' = cap_workspace_id cap"
    and "cap_status_epoch c' = cap_status_epoch cap" and "cap_enabled_version_id c' = cap_enabled_version_id cap"
    and "cap_pending_version_id c' \<in> {None, cap_pending_version_id cap, Some i}"
    and "capability_check c'" and "decision_version c' = Some i" and "cap_status c' \<noteq> UNAVAILABLE"
    and "cap_status cap = CapabilityStatus.DISABLED \<longrightarrow> cap_status c' = CapabilityStatus.DISABLED"
  using assms
  by (auto simp: existing_change_def cap_slot_def capability_check_def decision_version_def split: if_splits)

lemma existing_change_None: "existing_change cap i = None \<Longrightarrow> cap_status cap \<noteq> UNAVAILABLE"
  by (auto simp: existing_change_def split: if_splits)

lemma record_existing_ok:
  assumes "caps_ok d" and "cap \<in> set (capabilities d)" and "v \<in> set (capability_versions d)"
    and "capv_capability_id v = cap_id cap"
  shows "caps_ok (record_existing ctx cap v d)"
proof (cases "existing_change cap (capv_id v)")
  case (Some c')
  have ok: "capability_check cap" "cap_pointers cap (capability_versions d)"
    using assms(1,2) by (auto simp: caps_ok_def caps_inv_def cap_ok_def)
  note e = existing_change_Some [OF Some ok(1)]
  have "cap_pointers c' (capability_versions d)"
    using ok(2) e(1,5,6) assms(3,4) by (auto simp: cap_pointers_def)
  with revise_capability_ok [OF assms(1,2) e(1-4,7,8)] Some show ?thesis by (simp add: record_existing_def)
qed (simp add: record_existing_def assms(1))

lemma caps_inv_add_version:
  assumes "caps_inv cs vs evs" and "c \<in> set cs" and "version_of v c" and "capv_id v \<notin> capv_id ` set vs"
    and "capv_sequence v = next_sequence (map capv_sequence (filter (\<lambda>x. capv_capability_id x = cap_id c) vs))"
  shows "caps_inv cs (vs @ [v]) evs"
proof -
  have dist: "distinct (map cap_id cs)" using assms(1) by (simp add: caps_inv_def)
  have "cap_ok b (vs @ [v]) evs" if b: "b \<in> set cs" for b
  proof -
    have ok: "cap_ok b vs evs" using assms(1) b by (simp add: caps_inv_def)
    then have "contiguous (map capv_sequence (filter (\<lambda>x. capv_capability_id x = cap_id b) (vs @ [v])))"
    proof (cases "b = c")
      case True
      with ok assms(3,5) show ?thesis
        by (auto simp: cap_ok_def version_of_def next_sequence_contiguous intro: contiguous_snoc [of "map _ _", simplified])
    next
      case False
      then have "cap_id b \<noteq> cap_id c" using distinct_key_eq [OF dist b assms(2)] by blast
      with ok assms(3) show ?thesis by (simp add: cap_ok_def version_of_def)
    qed
    with ok show ?thesis by (auto simp: cap_ok_def cap_pointers_def)
  qed
  with assms show ?thesis by (auto simp: caps_inv_def)
qed

lemma caps_inv_add_capability:
  assumes inv: "caps_inv cs vs evs" and "cap_id c \<notin> cap_id ` set cs" and "cap_slot c \<notin> cap_slot ` set cs"
    and "capability_check c" and "version_of v c" and "capv_id v \<notin> capv_id ` set vs" and "capv_sequence v = 1"
    and "cap_pending_version_id c = Some (capv_id v)" and "cap_enabled_version_id c = None"
    and "cap_status_epoch c = 1" and "cse_capability_id e = cap_id c" and "cse_status_epoch e = 1"
    and "cse_status e = cap_status c" and "cse_capability_version_id e = Some (capv_id v)"
  shows "caps_inv (cs @ [c]) (vs @ [v]) (evs @ [e])"
proof -
  have "capv_capability_id x \<noteq> cap_id c" if "x \<in> set vs" for x
    using inv assms(2) that unfolding caps_inv_def version_of_def by (metis imageI)
  moreover have "cse_capability_id x \<noteq> cap_id c" if "x \<in> set evs" for x
    using inv assms(2) that unfolding caps_inv_def by metis
  ultimately have new: "filter (\<lambda>x. capv_capability_id x = cap_id c) vs = []" "history_of (cap_id c) evs = []"
    by (simp_all add: filter_empty_conv history_of_def)
  have "cap_ok c (vs @ [v]) (evs @ [e])"
    using assms new by (simp add: cap_ok_def decision_version_def cap_pointers_def history_ok_def history_of_snoc
        version_of_def contiguous_def)
  moreover have "cap_ok b (vs @ [v]) (evs @ [e])" if "b \<in> set cs" for b
  proof -
    have "cap_ok b vs evs" using inv that by (simp add: caps_inv_def)
    moreover have "cap_id b \<noteq> cap_id c" using assms(2) that by (metis imageI)
    ultimately show ?thesis
      using assms(5,11) by (auto simp: cap_ok_def cap_pointers_def version_of_def intro: history_ok_other)
  qed
  ultimately show ?thesis using assms by (auto simp: caps_inv_def)
qed

lemma record_new_ok:
  assumes "caps_ok d" and "cap \<in> set (capabilities d)" and "fresh_capability_version ids \<notin> capv_id ` set (capability_versions d)"
    and "cap_connection_id cap = conn" and "cap_workspace_id cap = ctx_workspace_id ctx"
    and "record_new ctx conn cv tool revision (next_sequence (map capv_sequence
           (filter (\<lambda>v. capv_capability_id v = cap_id cap) (capability_versions d)))) ids corr cap d = (v, d')"
  shows "caps_ok d'"
proof -
  let ?b = "\<lparr>bind_capability_version_id = capv_id v, bind_capability_id = cap_id cap,
    bind_workspace_id = ctx_workspace_id ctx, bind_connection_id = conn,
    bind_connection_version_id = cv, bind_tool_name = tool_name tool, bind_protocol_revision = revision\<rparr>"
  let ?d = "d\<lparr>capability_versions := capability_versions d @ [v], tool_bindings := tool_bindings d @ [?b]\<rparr>"
  let ?c = "cap\<lparr>cap_pending_version_id := Some (capv_id v),
    cap_status := (if cap_status cap \<noteq> CapabilityStatus.DISABLED then PENDING_REVIEW else cap_status cap)\<rparr>"
  have v: "capv_id v = fresh_capability_version ids" "version_of v cap"
    "capv_sequence v = next_sequence (map capv_sequence (filter (\<lambda>v. capv_capability_id v = cap_id cap) (capability_versions d)))"
    and d': "d' = capability_audit ctx CAPABILITY_VERSION_RECORDED (cap_id cap) corr (fresh_capability_correlation ids)
      (revise_capability ctx ?c (Some (capv_id v)) ?d)"
    using assms(5,6) by (auto simp: record_new_def Let_def version_of_def)
  have "caps_inv (capabilities d) (capability_versions d @ [v]) (status_events d)"
    using assms(1-3) v by (intro caps_inv_add_version [of _ _ _ cap]) (simp_all add: caps_ok_def)
  moreover have "binds_inv (capabilities d) (capability_versions d @ [v]) (tool_bindings d @ [?b])"
    using assms(1,2,4,5) v(2)
    by (auto simp: caps_ok_def binds_inv_def binds_version_def version_of_def intro!: list_all2_appendI)
  ultimately have ok: "caps_ok ?d" by (simp add: caps_ok_def)
  have "cap_ok cap (capability_versions d) (status_events d)" using assms(1,2) by (simp add: caps_ok_def caps_inv_def)
  then have "cap_enabled_version_id cap \<noteq> Some (capv_id v)"
    using assms(3) v(1) unfolding cap_ok_def cap_pointers_def by (metis imageI)
  moreover have "cap_pointers ?c (capability_versions ?d)"
    using \<open>cap_ok cap _ _\<close> v(2) by (auto simp: cap_ok_def cap_pointers_def version_of_def)
  ultimately have "caps_ok (revise_capability ctx ?c (Some (capv_id v)) ?d)"
    using assms(2)
    by (intro revise_capability_ok [OF ok, of cap]) (simp_all add: cap_slot_def capability_check_def decision_version_def)
  then show ?thesis by (simp add: d' capability_audit_def add_audit_def caps_ok_def)
qed

lemma rows_put_snoc_fresh: "key c \<notin> key ` set cs \<Longrightarrow> key c' = key c \<Longrightarrow> rows_put key c' (cs @ [c]) = cs @ [c']"
  by (induction cs) (auto simp: rows_put_def)

lemma record_first_ok:
  assumes "caps_ok d" and "fresh_capability ids \<notin> cap_id ` set (capabilities d)"
    and "fresh_capability_version ids \<notin> capv_id ` set (capability_versions d)"
    and "(conn, tool_identity tool) \<notin> cap_slot ` set (capabilities d)"
    and "record_new ctx conn cv tool revision 1 ids corr (new_capability ctx conn tool ids)
           (d\<lparr>capabilities := capabilities d @ [new_capability ctx conn tool ids]\<rparr>) = (v, d')"
  shows "caps_ok d'"
proof -
  let ?c = "(new_capability ctx conn tool ids)\<lparr>cap_pending_version_id := Some (capv_id v), cap_status_epoch := 1\<rparr>"
  have "capabilities d' = rows_put cap_id ?c (capabilities d @ [new_capability ctx conn tool ids])"
    using assms(5) by (auto simp: record_new_def Let_def revise_capability_def append_status_event_def put_capability_def
        capability_audit_def add_audit_def new_capability_def)
  then have caps: "capabilities d' = capabilities d @ [?c]"
    using assms(2) by (simp add: rows_put_snoc_fresh new_capability_def)
  obtain b e where tables: "capability_versions d' = capability_versions d @ [v]"
    "tool_bindings d' = tool_bindings d @ [b]" "status_events d' = status_events d @ [e]" "binds_version b v"
    "bind_capability_id b = cap_id ?c" "bind_connection_id b = conn" "version_of v ?c"
    "capv_id v = fresh_capability_version ids" "capv_sequence v = 1"
    "cse_capability_id e = cap_id ?c" "cse_status_epoch e = 1" "cse_status e = cap_status ?c"
    "cse_capability_version_id e = Some (capv_id v)"
    using assms(5) by (auto simp: record_new_def Let_def revise_capability_def append_status_event_def put_capability_def
        capability_audit_def add_audit_def new_capability_def version_of_def binds_version_def)
  have "caps_inv (capabilities d @ [?c]) (capability_versions d @ [v]) (status_events d @ [e])"
    using assms(1-4) tables
    by (intro caps_inv_add_capability) (auto simp: caps_ok_def new_capability_def cap_slot_def capability_check_def)
  moreover have "binds_inv (capabilities d @ [?c]) (capability_versions d @ [v]) (tool_bindings d @ [b])"
    using assms(1) tables(4-6) by (auto simp: caps_ok_def binds_inv_def new_capability_def intro!: list_all2_appendI)
  ultimately show ?thesis by (simp add: caps_ok_def caps tables)
qed

text \<open>What \<open>record_version\<close> did: it found the connection under the caller's allocation, and the
  version is known, or new to a known capability, or the first of a new one.\<close>

lemma record_version_Inr:
  assumes "record_version ext ctx conn cv ep gen tool revision corr ids d = Inr (v, d')"
  obtains (known) cap c where "scoped_connection conn (ctx_workspace_id ctx) d = Some c"
      "observed_capability ctx conn (tool_identity tool) d = Some cap"
      "matching_current_version cap cv tool revision d = Some v" "d' = record_existing ctx cap v d"
  | (changed) cap c where "scoped_connection conn (ctx_workspace_id ctx) d = Some c"
      "observed_capability ctx conn (tool_identity tool) d = Some cap"
      "matching_current_version cap cv tool revision d = None"
      "record_new ctx conn cv tool revision (next_sequence (map capv_sequence
         (filter (\<lambda>v. capv_capability_id v = cap_id cap) (capability_versions d)))) ids corr cap d = (v, d')"
  | (first) c where "scoped_connection conn (ctx_workspace_id ctx) d = Some c"
      "observed_capability ctx conn (tool_identity tool) d = None"
      "record_new ctx conn cv tool revision 1 ids corr (new_capability ctx conn tool ids)
           (d\<lparr>capabilities := capabilities d @ [new_capability ctx conn tool ids]\<rparr>) = (v, d')"
  using assms that
  by (auto simp: record_version_def and_then_Inr locked_connection_Inr Let_def split: if_splits option.splits)

lemma observed_capability_Some:
  "observed_capability ctx conn i d = Some c \<Longrightarrow> c \<in> set (capabilities d)
     \<and> cap_workspace_id c = ctx_workspace_id ctx \<and> cap_slot c = (conn, i)"
  by (auto simp: observed_capability_def cap_slot_def dest: first_row_filter_Some)

lemma observed_capability_None:
  assumes "observed_capability ctx conn i d = None" and "capconn_inv (connections d) (capabilities d)"
    and "distinct (map conn_id (connections d))" and "scoped_connection conn (ctx_workspace_id ctx) d = Some c"
  shows "(conn, i) \<notin> cap_slot ` set (capabilities d)"
proof
  assume "(conn, i) \<in> cap_slot ` set (capabilities d)"
  then obtain a where a: "a \<in> set (capabilities d)" "cap_connection_id a = conn" "cap_tool_identity a = i"
    by (auto simp: cap_slot_def)
  then have "owns (connections d) conn (cap_workspace_id a)" using assms(2) by (auto simp: capconn_inv_def)
  then have "cap_workspace_id a = ctx_workspace_id ctx"
    using owns_unique [OF assms(3)] owns_scoped [OF assms(4)] by blast
  with a assms(1) show False by (auto simp: observed_capability_def filter_empty_conv)
qed

text \<open>The rows a recorded tool leaves behind.\<close>

lemma record_existing_tables:
  "capability_versions (record_existing ctx cap v d) = capability_versions d"
  "tool_bindings (record_existing ctx cap v d) = tool_bindings d"
  "snapshot_capabilities (record_existing ctx cap v d) = snapshot_capabilities d"
  "caps_only d (record_existing ctx cap v d)"
  by (simp_all add: record_existing_def revise_capability_tables split: option.split)

lemma record_new_tables:
  assumes "record_new ctx conn cv tool revision n ids corr cap d = (v, d')"
  shows "capability_versions d' = capability_versions d @ [v]"
    and "\<exists>b. tool_bindings d' = tool_bindings d @ [b] \<and> bind_capability_version_id b = capv_id v
           \<and> bind_connection_version_id b = cv \<and> bind_connection_id b = conn"
    and "snapshot_capabilities d' = snapshot_capabilities d" and "caps_only d d'"
    and "capv_id v = fresh_capability_version ids" and "capv_capability_id v = cap_id cap"
    and "capabilities d' = rows_put cap_id (cap\<lparr>cap_pending_version_id := Some (capv_id v),
           cap_status := (if cap_status cap \<noteq> CapabilityStatus.DISABLED then PENDING_REVIEW else cap_status cap),
           cap_status_epoch := Suc (cap_status_epoch cap)\<rparr>) (capabilities d)"
  using assms by (auto simp: record_new_def Let_def capability_audit_def add_audit_def revise_capability_def
      append_status_event_def put_capability_def caps_only_def)

lemma rows_put_self: "distinct (map key rows) \<Longrightarrow> r \<in> set rows \<Longrightarrow> rows_put key r rows = rows"
  unfolding rows_put_def using distinct_key_eq [of key rows] by (intro map_idI) auto

lemma record_existing_caps:
  assumes "distinct (map cap_id (capabilities d))" and "cap \<in> set (capabilities d)" and "capability_check cap"
  obtains c' where "capabilities (record_existing ctx cap v d) = rows_put cap_id c' (capabilities d)"
    and "observed_change cap c'" and "cap_status c' \<noteq> UNAVAILABLE"
proof (cases "existing_change cap (capv_id v)")
  case None
  with that [of cap] show thesis
    by (simp add: record_existing_def rows_put_self [OF assms(1,2)] existing_change_None)
next
  case (Some c')
  note e = existing_change_Some [OF Some assms(3)]
  have "observed_change cap (c'\<lparr>cap_status_epoch := Suc (cap_status_epoch c')\<rparr>)"
    using e by (simp add: observed_change_def cap_slot_def)
  then show thesis
    using that [of "c'\<lparr>cap_status_epoch := Suc (cap_status_epoch c')\<rparr>"] Some e(9)
    by (simp add: record_existing_def revise_capability_tables)
qed

definition tool_recorded :: "uuid \<Rightarrow> uuid \<Rightarrow> uuid \<Rightarrow> ustr \<Rightarrow> CapabilityVersion \<Rightarrow> db \<Rightarrow> db \<Rightarrow> bool" where
  "tool_recorded w conn cv ident v d d' \<longleftrightarrow> caps_only d d' \<and> snapshot_capabilities d' = snapshot_capabilities d
     \<and> set (tool_bindings d) \<subseteq> set (tool_bindings d')
     \<and> set (capability_versions d) \<subseteq> set (capability_versions d') \<and> v \<in> set (capability_versions d')
     \<and> (\<exists>b \<in> set (tool_bindings d'). bind_capability_version_id b = capv_id v
          \<and> bind_connection_version_id b = cv \<and> bind_connection_id b = conn)
     \<and> (\<exists>c \<in> set (capabilities d'). capv_capability_id v = cap_id c \<and> cap_slot c = (conn, ident)
          \<and> cap_status c \<noteq> UNAVAILABLE)
     \<and> (\<forall>c \<in> set (capabilities d). \<exists>c' \<in> set (capabilities d'). observed_change c c'
          \<and> (cap_slot c \<noteq> (conn, ident) \<longrightarrow> c' = c))
     \<and> (\<forall>c' \<in> set (capabilities d'). c' \<in> set (capabilities d)
          \<or> cap_slot c' = (conn, ident) \<and> cap_workspace_id c' = w)"

lemma put_observed:
  assumes "distinct (map cap_id cs)" and "cap \<in> set cs" and "observed_change cap c'" and "c \<in> set cs"
  shows "\<exists>x \<in> set (rows_put cap_id c' cs). observed_change c x \<and> (cap_slot c \<noteq> cap_slot cap \<longrightarrow> x = c)"
proof (cases "c = cap")
  case True
  with assms show ?thesis by (intro bexI [of _ c']) (auto simp: rows_put_mem observed_change_def)
next
  case False
  then have "cap_id c \<noteq> cap_id cap" using distinct_key_eq [OF assms(1,4,2)] by blast
  with assms(3,4) show ?thesis by (intro bexI [of _ c]) (auto simp: rows_put_mem observed_change_def)
qed

lemma tool_recorded_put:
  assumes "caps_only d d'" and "snapshot_capabilities d' = snapshot_capabilities d"
    and "set (tool_bindings d) \<subseteq> set (tool_bindings d')"
    and "set (capability_versions d) \<subseteq> set (capability_versions d')" and "v \<in> set (capability_versions d')"
    and "\<exists>b \<in> set (tool_bindings d'). bind_capability_version_id b = capv_id v
          \<and> bind_connection_version_id b = cv \<and> bind_connection_id b = conn"
    and "capabilities d' = rows_put cap_id c' (capabilities d)" and "distinct (map cap_id (capabilities d))"
    and "cap \<in> set (capabilities d)" and "observed_change cap c'" and "cap_status c' \<noteq> UNAVAILABLE"
    and "capv_capability_id v = cap_id cap" and "cap_slot cap = (conn, ident)" and "cap_workspace_id cap = w"
  shows "tool_recorded w conn cv ident v d d'"
proof -
  have mem: "c' \<in> set (capabilities d')" using assms(7,9,10) by (auto simp: rows_put_mem observed_change_def)
  then have "\<exists>c \<in> set (capabilities d'). capv_capability_id v = cap_id c \<and> cap_slot c = (conn, ident)
          \<and> cap_status c \<noteq> UNAVAILABLE"
    using assms(10-13) by (intro bexI [of _ c']) (simp_all add: observed_change_def)
  moreover have "\<forall>c \<in> set (capabilities d). \<exists>c' \<in> set (capabilities d'). observed_change c c'
          \<and> (cap_slot c \<noteq> (conn, ident) \<longrightarrow> c' = c)"
    using put_observed [OF assms(8,9,10)] assms(7,13) by simp
  moreover have "\<forall>x \<in> set (capabilities d'). x \<in> set (capabilities d) \<or> cap_slot x = (conn, ident) \<and> cap_workspace_id x = w"
    using assms(7,10,13,14) by (auto simp: rows_put_mem observed_change_def)
  ultimately show ?thesis using assms(1-6) by (simp add: tool_recorded_def)
qed

lemma binding_of_version:
  assumes "binds_inv cs vs bs" and "v \<in> set vs" and "b \<in> set bs" and "distinct (map capv_id vs)"
    and "bind_capability_version_id b = capv_id v" and "distinct (map cap_id cs)" and "c \<in> set cs"
    and "capv_capability_id v = cap_id c"
  shows "bind_connection_id b = cap_connection_id c"
proof -
  have "\<exists>v' \<in> set vs. binds_version b v'"
    using assms(1,3) by (fastforce simp: binds_inv_def list_all2_conv_all_nth in_set_conv_nth)
  then obtain v' where "v' \<in> set vs" "binds_version b v'" by blast
  then have "bind_capability_id b = cap_id c"
    using assms(5,8) distinct_key_eq [OF assms(4), of v' v] assms(2) by (auto simp: binds_version_def)
  moreover obtain a where "a \<in> set cs" "cap_id a = bind_capability_id b" "cap_connection_id a = bind_connection_id b"
    using assms(1,3) by (auto simp: binds_inv_def)
  ultimately show ?thesis using distinct_key_eq [OF assms(6), of a c] assms(7) by auto
qed

lemma record_version_recorded:
  assumes "record_version ext ctx conn cv ep gen tool revision corr ids d = Inr (v, d')" and "caps_ok d"
    and "fresh_capability ids \<notin> cap_id ` set (capabilities d)"
    and "fresh_capability_version ids \<notin> capv_id ` set (capability_versions d)"
    and "capconn_inv (connections d) (capabilities d)" and "distinct (map conn_id (connections d))"
  shows "caps_ok d'" and "tool_recorded (ctx_workspace_id ctx) conn cv (tool_identity tool) v d d'"
proof -
  have dist: "distinct (map cap_id (capabilities d))" "distinct (map capv_id (capability_versions d))"
    and bind: "binds_inv (capabilities d) (capability_versions d) (tool_bindings d)"
    using assms(2) by (auto simp: caps_ok_def caps_inv_def)
  have "caps_ok d' \<and> tool_recorded (ctx_workspace_id ctx) conn cv (tool_identity tool) v d d'"
    using assms(1)
  proof (cases rule: record_version_Inr)
    case (known cap c)
    note cap = observed_capability_Some [OF known(2)] and v = matching_current_version_Some [OF known(3)]
    obtain c' where c': "capabilities d' = rows_put cap_id c' (capabilities d)" "observed_change cap c'"
      "cap_status c' \<noteq> UNAVAILABLE"
    proof (rule record_existing_caps [OF dist(1), of cap ctx v])
      show "capability_check cap" using assms(2) cap by (auto simp: caps_ok_def caps_inv_def cap_ok_def)
    qed (use cap known(4) that in auto)
    obtain b where b: "b \<in> set (tool_bindings d)" "bind_capability_version_id b = capv_id v"
      "bind_connection_version_id b = cv" using v by blast
    have "bind_connection_id b = conn"
      using binding_of_version [OF bind _ b(1) dist(2) b(2) dist(1)] v cap by (auto simp: cap_slot_def)
    with b have "\<exists>b \<in> set (tool_bindings d'). bind_capability_version_id b = capv_id v
          \<and> bind_connection_version_id b = cv \<and> bind_connection_id b = conn"
      by (auto simp: known(4) record_existing_tables)
    then have "tool_recorded (ctx_workspace_id ctx) conn cv (tool_identity tool) v d d'"
      using v cap c' dist(1)
      by (intro tool_recorded_put [of d d' v cv conn c' cap]) (simp_all add: known(4) record_existing_tables)
    then show ?thesis using record_existing_ok [OF assms(2)] v cap known(4) by simp
  next
    case (changed cap c)
    note cap = observed_capability_Some [OF changed(2)] and r = record_new_tables [OF changed(4)]
    let ?c = "cap\<lparr>cap_pending_version_id := Some (capv_id v), cap_status := (if cap_status cap \<noteq> CapabilityStatus.DISABLED
      then PENDING_REVIEW else cap_status cap), cap_status_epoch := Suc (cap_status_epoch cap)\<rparr>"
    have ch: "observed_change cap ?c" by (simp add: observed_change_def cap_slot_def)
    have "tool_recorded (ctx_workspace_id ctx) conn cv (tool_identity tool) v d d'"
      using r cap ch dist(1) by (intro tool_recorded_put [of d d' v cv conn ?c cap]) auto
    then show ?thesis using record_new_ok [OF assms(2) _ assms(4) _ _ changed(4)] cap by (simp add: cap_slot_def)
  next
    case (first c)
    let ?n = "new_capability ctx conn tool ids"
    let ?c = "?n\<lparr>cap_pending_version_id := Some (capv_id v), cap_status := PENDING_REVIEW, cap_status_epoch := Suc 0\<rparr>"
    note r = record_new_tables [OF first(3)]
    have caps: "capabilities d' = capabilities d @ [?c]"
      using r(7) assms(3) by (simp add: rows_put_snoc_fresh new_capability_def)
    have kept: "\<forall>c \<in> set (capabilities d). \<exists>x \<in> set (capabilities d'). observed_change c x
        \<and> (cap_slot c \<noteq> (conn, tool_identity tool) \<longrightarrow> x = c)"
      unfolding caps by (metis Un_iff observed_change_refl set_append)
    have "caps_only d d'" using r(4) by (simp add: caps_only_def)
    then have "tool_recorded (ctx_workspace_id ctx) conn cv (tool_identity tool) v d d'"
      using r(1-3,5,6) kept caps by (auto simp: tool_recorded_def new_capability_def cap_slot_def)
    then show ?thesis
      using record_first_ok [OF assms(2-4) observed_capability_None [OF first(2) assms(5,6) first(1)] first(3)] by simp
  qed
  then show "caps_ok d'" "tool_recorded (ctx_workspace_id ctx) conn cv (tool_identity tool) v d d'" by simp_all
qed

lemma record_version_ids:
  assumes "record_version ext ctx conn cv ep gen tool revision corr ids d = Inr (v, d')"
  shows "cap_id ` set (capabilities d') \<subseteq> insert (fresh_capability ids) (cap_id ` set (capabilities d))"
    and "capv_id ` set (capability_versions d') \<subseteq> insert (fresh_capability_version ids) (capv_id ` set (capability_versions d))"
proof -
  have put: "cap_id ` set (rows_put cap_id c cs) = cap_id ` set cs" for c cs by (metis list.set_map map_key_rows_put)
  have "cap_id ` set (capabilities d') \<subseteq> insert (fresh_capability ids) (cap_id ` set (capabilities d))
      \<and> capv_id ` set (capability_versions d') \<subseteq> insert (fresh_capability_version ids) (capv_id ` set (capability_versions d))"
    using assms
  proof (cases rule: record_version_Inr)
    case (known cap c)
    then show ?thesis
      by (auto simp: record_existing_def revise_capability_tables put split: option.splits)
  next
    case (changed cap c)
    from record_new_tables [OF changed(4)] show ?thesis by (auto simp: put)
  next
    case (first c)
    from record_new_tables [OF first(3)] show ?thesis by (auto simp: put new_capability_def)
  qed
  then show "cap_id ` set (capabilities d') \<subseteq> insert (fresh_capability ids) (cap_id ` set (capabilities d))"
    "capv_id ` set (capability_versions d') \<subseteq> insert (fresh_capability_version ids) (capv_id ` set (capability_versions d))"
    by simp_all
qed

section \<open>Publishing a list of tools\<close>

definition tools_recorded :: "uuid \<Rightarrow> uuid \<Rightarrow> ustr set \<Rightarrow> db \<Rightarrow> db \<Rightarrow> bool" where
  "tools_recorded w conn is d d' \<longleftrightarrow> caps_only d d'
     \<and> set (tool_bindings d) \<subseteq> set (tool_bindings d') \<and> set (capability_versions d) \<subseteq> set (capability_versions d')
     \<and> (\<forall>i \<in> is. \<exists>c \<in> set (capabilities d'). cap_slot c = (conn, i) \<and> cap_status c \<noteq> UNAVAILABLE)
     \<and> (\<forall>c \<in> set (capabilities d). \<exists>c' \<in> set (capabilities d'). observed_change c c'
          \<and> (cap_slot c \<notin> Pair conn ` is \<longrightarrow> c' = c))
     \<and> (\<forall>c' \<in> set (capabilities d'). c' \<in> set (capabilities d) \<or> cap_slot c' \<in> Pair conn ` is \<and> cap_workspace_id c' = w)"

lemma tools_recorded_none: "tools_recorded w conn {} d d"
  by (auto simp: tools_recorded_def intro: bexI)

lemma tools_recorded_trans:
  assumes "tools_recorded w conn is d d1" and "tools_recorded w conn js d1 d2" and "is \<inter> js = {}"
  shows "tools_recorded w conn (is \<union> js) d d2"
proof -
  have "\<exists>c \<in> set (capabilities d2). cap_slot c = (conn, i) \<and> cap_status c \<noteq> UNAVAILABLE" if i: "i \<in> is \<union> js" for i
  proof (cases "i \<in> js")
    case True
    then show ?thesis using assms(2) by (simp add: tools_recorded_def)
  next
    case False
    with i obtain c where c: "c \<in> set (capabilities d1)" "cap_slot c = (conn, i)" "cap_status c \<noteq> UNAVAILABLE"
      using assms(1) by (auto simp: tools_recorded_def)
    have "cap_slot c \<notin> Pair conn ` js" using c(2) False by auto
    then have "c \<in> set (capabilities d2)" using assms(2) c(1) unfolding tools_recorded_def by metis
    with c show ?thesis by blast
  qed
  moreover have "\<exists>x \<in> set (capabilities d2). observed_change c x \<and> (cap_slot c \<notin> Pair conn ` (is \<union> js) \<longrightarrow> x = c)"
    if c: "c \<in> set (capabilities d)" for c
  proof -
    obtain c1 where c1: "c1 \<in> set (capabilities d1)" "observed_change c c1" "cap_slot c \<notin> Pair conn ` is \<longrightarrow> c1 = c"
      using assms(1) c unfolding tools_recorded_def by blast
    obtain c2 where c2: "c2 \<in> set (capabilities d2)" "observed_change c1 c2" "cap_slot c1 \<notin> Pair conn ` js \<longrightarrow> c2 = c1"
      using assms(2) c1(1) unfolding tools_recorded_def by blast
    have "observed_change c c2" by (rule observed_change_trans [OF c1(2) c2(2)])
    moreover have "cap_slot c \<notin> Pair conn ` (is \<union> js) \<longrightarrow> c2 = c" using c1(3) c2(3) by auto
    ultimately show ?thesis using c2(1) by blast
  qed
  moreover have "x \<in> set (capabilities d) \<or> cap_slot x \<in> Pair conn ` (is \<union> js) \<and> cap_workspace_id x = w"
    if x: "x \<in> set (capabilities d2)" for x
  proof -
    have "x \<in> set (capabilities d1) \<or> cap_slot x \<in> Pair conn ` js \<and> cap_workspace_id x = w"
      using assms(2) x by (simp add: tools_recorded_def)
    moreover have "x \<in> set (capabilities d1) \<Longrightarrow> x \<in> set (capabilities d) \<or> cap_slot x \<in> Pair conn ` is \<and> cap_workspace_id x = w"
      using assms(1) by (simp add: tools_recorded_def)
    ultimately show ?thesis by (auto simp: image_Un)
  qed
  moreover have "caps_only d d2" using assms(1,2) caps_only_trans by (auto simp: tools_recorded_def)
  ultimately show ?thesis using assms(1,2) by (auto simp: tools_recorded_def)
qed

text \<open>The state in which the tools of snapshot \<open>s\<close> are being recorded.\<close>

definition publishing :: "DiscoverySnapshot \<Rightarrow> db \<Rightarrow> bool" where
  "publishing s d \<longleftrightarrow> caps_ok d \<and> capconn_inv (connections d) (capabilities d) \<and> distinct (map conn_id (connections d))
     \<and> obs_inv (snapshots d) (tool_bindings d) (snapshot_capabilities d) \<and> s \<in> set (snapshots d)"

definition tool_ids :: "ToolDefinition \<times> capability_ids \<Rightarrow> uuid list" where
  "tool_ids = (\<lambda>(_, ids). [fresh_capability ids, fresh_capability_version ids])"

definition capability_id_set :: "db \<Rightarrow> uuid set" where
  "capability_id_set d = cap_id ` set (capabilities d) \<union> capv_id ` set (capability_versions d)"

lemma publish_tool_recorded:
  assumes "publish_tool ext ctx lease revision (snap_id s) t d = Inr d'" and "publishing s d"
    and "set (tool_ids t) \<inter> capability_id_set d = {}"
    and "snap_connection_id s = rl_connection_id lease" and "snap_workspace_id s = ctx_workspace_id ctx"
    and "snap_connection_version_id s = rl_connection_version_id lease"
  shows "tools_recorded (ctx_workspace_id ctx) (rl_connection_id lease) {tool_identity (fst t)} d d'"
    and "publishing s d'" and "capability_id_set d' \<subseteq> set (tool_ids t) \<union> capability_id_set d"
proof -
  obtain tool ids where t: "t = (tool, ids)" by (cases t)
  obtain v d1 where r: "record_version ext ctx (rl_connection_id lease) (rl_connection_version_id lease)
      (rl_control_epoch lease) (rl_generation lease) tool revision None ids d = Inr (v, d1)"
    and fresh: "\<not> list_ex (\<lambda>x. dsc_snapshot_id x = snap_id s \<and> dsc_capability_version_id x = capv_id v)
        (snapshot_capabilities d1)"
    and d': "d' = d1\<lparr>snapshot_capabilities := snapshot_capabilities d1 @
                 [\<lparr>dsc_workspace_id = ctx_workspace_id ctx, dsc_connection_id = rl_connection_id lease,
                   dsc_connection_version_id = rl_connection_version_id lease,
                   dsc_snapshot_id = snap_id s, dsc_capability_version_id = capv_id v\<rparr>]\<rparr>"
    using assms(1) by (auto simp: publish_tool_def t and_then_Inr split: if_splits)
  have pre: "caps_ok d" "capconn_inv (connections d) (capabilities d)" "distinct (map conn_id (connections d))"
    "obs_inv (snapshots d) (tool_bindings d) (snapshot_capabilities d)" "s \<in> set (snapshots d)"
    using assms(2) by (auto simp: publishing_def)
  have ids: "fresh_capability ids \<notin> cap_id ` set (capabilities d)"
    "fresh_capability_version ids \<notin> capv_id ` set (capability_versions d)"
    using assms(3) by (auto simp: t tool_ids_def capability_id_set_def)
  have ok: "caps_ok d1" "tool_recorded (ctx_workspace_id ctx) (rl_connection_id lease) (rl_connection_version_id lease)
      (tool_identity tool) v d d1"
    using record_version_recorded [OF r pre(1) ids pre(2,3)] by simp_all
  have only: "caps_only d d'"
    using ok(2) d' by (cases d; cases d1) (auto simp: tool_recorded_def caps_only_def)
  then show rec: "tools_recorded (ctx_workspace_id ctx) (rl_connection_id lease) {tool_identity (fst t)} d d'"
    using ok(2) d' unfolding tools_recorded_def tool_recorded_def by (auto simp: t)
  have own: "owns (connections d) (rl_connection_id lease) (ctx_workspace_id ctx)"
    using r by (cases rule: record_version_Inr) (auto dest: owns_scoped)
  have frame: "connections d' = connections d" "snapshots d' = snapshots d" using caps_only_frame [OF only] by simp_all
  have "capconn_inv (connections d) (capabilities d')"
    using rec pre(2) own unfolding tools_recorded_def capconn_inv_def by (auto simp: cap_slot_def)
  moreover have "obs_inv (snapshots d) (tool_bindings d') (snapshot_capabilities d')"
  proof -
    obtain b where b: "b \<in> set (tool_bindings d')" "bind_capability_version_id b = capv_id v"
      "bind_connection_version_id b = rl_connection_version_id lease" "bind_connection_id b = rl_connection_id lease"
      using ok(2) d' by (auto simp: tool_recorded_def)
    have "snapshot_capabilities d1 = snapshot_capabilities d" using ok(2) by (simp add: tool_recorded_def)
    moreover have "set (tool_bindings d) \<subseteq> set (tool_bindings d')" using rec by (simp add: tools_recorded_def)
    moreover have "\<exists>s \<in> set (snapshots d). \<exists>b \<in> set (tool_bindings d'). observes \<lparr>dsc_workspace_id = ctx_workspace_id ctx,
        dsc_connection_id = rl_connection_id lease, dsc_connection_version_id = rl_connection_version_id lease,
        dsc_snapshot_id = snap_id s, dsc_capability_version_id = capv_id v\<rparr> s b"
      using pre(5) b assms(4-6) by (intro bexI [of _ s] bexI [of _ b]) (simp_all add: observes_def)
    ultimately show ?thesis
      using pre(4,5) b fresh assms(4-6) d'
      by (auto simp: obs_inv_def obs_slot_def list_ex_iff observes_def) blast+
  qed
  ultimately show "publishing s d'" using ok(1) pre(3,5) frame d' by (simp add: publishing_def caps_ok_def)
  show "capability_id_set d' \<subseteq> set (tool_ids t) \<union> capability_id_set d"
    using record_version_ids [OF r] d' by (auto simp: capability_id_set_def t tool_ids_def)
qed

lemma publish_tools_recorded:
  assumes "fold_res (publish_tool ext ctx lease revision (snap_id s)) ts d = Inr d'" and "publishing s d"
    and "distinct (concat (map tool_ids ts))" and "set (concat (map tool_ids ts)) \<inter> capability_id_set d = {}"
    and "distinct (map (\<lambda>t. tool_identity (fst t)) ts)"
    and "snap_connection_id s = rl_connection_id lease" and "snap_workspace_id s = ctx_workspace_id ctx"
    and "snap_connection_version_id s = rl_connection_version_id lease"
  shows "tools_recorded (ctx_workspace_id ctx) (rl_connection_id lease) (set (map (\<lambda>t. tool_identity (fst t)) ts)) d d'
    \<and> publishing s d' \<and> capability_id_set d' \<subseteq> set (concat (map tool_ids ts)) \<union> capability_id_set d"
  using assms(1-5)
proof (induction ts arbitrary: d)
  case Nil
  then show ?case by (simp add: tools_recorded_none)
next
  case (Cons t ts)
  obtain d1 where d1: "publish_tool ext ctx lease revision (snap_id s) t d = Inr d1"
    "fold_res (publish_tool ext ctx lease revision (snap_id s)) ts d1 = Inr d'"
    using Cons.prems(1) by (auto simp: and_then_Inr)
  have free: "set (tool_ids t) \<inter> capability_id_set d = {}" using Cons.prems(4) by auto
  note step = publish_tool_recorded [OF d1(1) Cons.prems(2) free assms(6-8)]
  have "set (concat (map tool_ids ts)) \<inter> capability_id_set d1 = {}"
    using step(3) Cons.prems(3,4) by auto
  with Cons.IH [OF d1(2) step(2)] Cons.prems(3,5)
  have rest: "tools_recorded (ctx_workspace_id ctx) (rl_connection_id lease) (set (map (\<lambda>t. tool_identity (fst t)) ts)) d1 d'"
    "publishing s d'" "capability_id_set d' \<subseteq> set (concat (map tool_ids ts)) \<union> capability_id_set d1" by auto
  have "tools_recorded (ctx_workspace_id ctx) (rl_connection_id lease)
      ({tool_identity (fst t)} \<union> set (map (\<lambda>t. tool_identity (fst t)) ts)) d d'"
    using Cons.prems(5) by (intro tools_recorded_trans [OF step(1) rest(1)]) auto
  with rest(2,3) step(3) show ?case by auto
qed

section \<open>Missing tools\<close>

definition unavailable :: "Capability \<Rightarrow> Capability" where
  "unavailable c = c\<lparr>cap_status := UNAVAILABLE, cap_status_epoch := Suc (cap_status_epoch c)\<rparr>"

lemma mark_one:
  assumes "caps_ok d" and "c \<in> set (capabilities d)"
  shows "caps_ok (revise_capability ctx (c\<lparr>cap_status := UNAVAILABLE\<rparr>) (decision_version c) d)"
proof -
  have "cap_ok c (capability_versions d) (status_events d)" using assms by (simp add: caps_ok_def caps_inv_def)
  then show ?thesis
    by (intro revise_capability_ok [OF assms]) (simp_all add: cap_ok_def cap_slot_def capability_check_def cap_pointers_def)
qed

lemma mark_all:
  assumes "caps_ok d" and "set xs \<subseteq> set (capabilities d)" and "distinct (map cap_id xs)"
  shows "caps_ok (fold (\<lambda>c. revise_capability ctx (c\<lparr>cap_status := UNAVAILABLE\<rparr>) (decision_version c)) xs d)
    \<and> caps_only d (fold (\<lambda>c. revise_capability ctx (c\<lparr>cap_status := UNAVAILABLE\<rparr>) (decision_version c)) xs d)
    \<and> capabilities (fold (\<lambda>c. revise_capability ctx (c\<lparr>cap_status := UNAVAILABLE\<rparr>) (decision_version c)) xs d)
        = map (\<lambda>c. if c \<in> set xs then unavailable c else c) (capabilities d)
    \<and> capability_versions (fold (\<lambda>c. revise_capability ctx (c\<lparr>cap_status := UNAVAILABLE\<rparr>) (decision_version c)) xs d)
        = capability_versions d
    \<and> tool_bindings (fold (\<lambda>c. revise_capability ctx (c\<lparr>cap_status := UNAVAILABLE\<rparr>) (decision_version c)) xs d)
        = tool_bindings d
    \<and> snapshot_capabilities (fold (\<lambda>c. revise_capability ctx (c\<lparr>cap_status := UNAVAILABLE\<rparr>) (decision_version c)) xs d)
        = snapshot_capabilities d"
  using assms
proof (induction xs arbitrary: d)
  case (Cons c xs)
  let ?d = "revise_capability ctx (c\<lparr>cap_status := UNAVAILABLE\<rparr>) (decision_version c) d"
  have dist: "distinct (map cap_id (capabilities d))" using Cons.prems(1) by (simp add: caps_ok_def caps_inv_def)
  have c: "c \<in> set (capabilities d)" using Cons.prems(2) by simp
  have put: "capabilities ?d = map (\<lambda>x. if x = c then unavailable c else x) (capabilities d)"
    unfolding revise_capability_tables rows_put_def
    using distinct_key_eq [OF dist _ c] by (auto simp: unavailable_def)
  have new: "unavailable c \<notin> set xs"
  proof
    assume "unavailable c \<in> set xs"
    then have "cap_id (unavailable c) \<in> cap_id ` set xs" by (rule imageI)
    with Cons.prems(3) show False by (simp add: unavailable_def)
  qed
  have "set xs \<subseteq> set (capabilities ?d)"
  proof
    fix x assume "x \<in> set xs"
    then have "x \<in> set (capabilities d)" "x \<noteq> c" using Cons.prems(2,3) by auto
    then show "x \<in> set (capabilities ?d)" by (auto simp: put)
  qed
  note ih = Cons.IH [OF mark_one [OF Cons.prems(1) c] this]
  have "map (\<lambda>x. if x \<in> set xs then unavailable x else x) (capabilities ?d)
      = map (\<lambda>x. if x \<in> set (c # xs) then unavailable x else x) (capabilities d)"
    using new Cons.prems(3) by (auto simp: put)
  moreover have "caps_only d ?d" by (rule revise_capability_tables(5))
  ultimately show ?case
    using ih Cons.prems(3) by (auto simp: revise_capability_tables(2-4) intro: caps_only_trans)
qed simp

lemma mark_missing_unavailable_ok:
  assumes "caps_ok d"
  shows "caps_ok (mark_missing_unavailable ctx conn observed d)"
    and "caps_only d (mark_missing_unavailable ctx conn observed d)"
    and "capabilities (mark_missing_unavailable ctx conn observed d) = map (\<lambda>c.
           if cap_workspace_id c = ctx_workspace_id ctx \<and> cap_connection_id c = conn
              \<and> cap_tool_identity c \<notin> set observed \<and> cap_status c \<noteq> UNAVAILABLE
              \<and> cap_status c \<noteq> CapabilityStatus.DISABLED
           then unavailable c else c) (capabilities d)"
    and "capability_versions (mark_missing_unavailable ctx conn observed d) = capability_versions d"
    and "tool_bindings (mark_missing_unavailable ctx conn observed d) = tool_bindings d"
    and "snapshot_capabilities (mark_missing_unavailable ctx conn observed d) = snapshot_capabilities d"
proof -
  let ?P = "\<lambda>c. cap_workspace_id c = ctx_workspace_id ctx \<and> cap_connection_id c = conn
            \<and> cap_tool_identity c \<notin> set observed \<and> cap_status c \<noteq> UNAVAILABLE
            \<and> cap_status c \<noteq> CapabilityStatus.DISABLED"
  have "distinct (map cap_id (filter ?P (capabilities d)))"
    using assms by (auto simp: caps_ok_def caps_inv_def distinct_map inj_on_def)
  note m = mark_all [OF assms _ this, of ctx]
  show "caps_ok (mark_missing_unavailable ctx conn observed d)"
    "caps_only d (mark_missing_unavailable ctx conn observed d)"
    "capability_versions (mark_missing_unavailable ctx conn observed d) = capability_versions d"
    "tool_bindings (mark_missing_unavailable ctx conn observed d) = tool_bindings d"
    "snapshot_capabilities (mark_missing_unavailable ctx conn observed d) = snapshot_capabilities d"
    using m by (simp_all add: mark_missing_unavailable_def)
  show "capabilities (mark_missing_unavailable ctx conn observed d) = map (\<lambda>c. if ?P c then unavailable c else c) (capabilities d)"
    using m by (simp add: mark_missing_unavailable_def)
qed

end
