(* ===== verification/Reg_Jobs.thy ===== *)
theory Reg_Jobs
  imports Reg_Ops
begin

text \<open>
  The administrative operations on connections and the operations on refresh jobs, each read back as
  a change of the tables and shown to keep the invariants of all registry tables.
\<close>

section \<open>Operations on a connection\<close>

text \<open>The tables the connection and refresh-job services write.\<close>

definition conn_only :: "db \<Rightarrow> db \<Rightarrow> bool" where
  "conn_only d d' \<longleftrightarrow> d' = d\<lparr>connections := connections d', refresh_jobs := refresh_jobs d',
     audit_events := audit_events d'\<rparr>"

lemma conn_only_frame:
  assumes "conn_only d d'"
  shows "connection_versions d' = connection_versions d" "snapshots d' = snapshots d"
    "capabilities d' = capabilities d" "capability_versions d' = capability_versions d"
    "tool_bindings d' = tool_bindings d" "status_events d' = status_events d"
    "snapshot_capabilities d' = snapshot_capabilities d" "discovery_payloads d' = discovery_payloads d"
  by (subst assms [unfolded conn_only_def], simp)+

lemma conn_put_ok:
  assumes ok: "reg_tables_ok d" "c \<in> set (connections d)"
    and c': "conn_id c' = conn_id c" "conn_workspace_id c' = conn_workspace_id c" "conn_ok c'"
      "conn_refresh_generation c < conn_refresh_generation c'
       \<or> conn_refresh_generation c = conn_refresh_generation c'
         \<and> (conn_allocated_control_epoch c = None \<longrightarrow> conn_allocated_control_epoch c' = None)"
      "conn_current_snapshot_id c' = conn_current_snapshot_id c"
      "\<And>i. conn_pending_version_id c' = Some i \<or> conn_verified_version_id c' = Some i \<Longrightarrow>
        \<exists>v \<in> set (connection_versions d). scv_id v = i \<and> scv_connection_id v = conn_id c"
    and d': "conn_only d d'" "connections d' = rows_put conn_id c' (connections d)"
      "jobs_inv (rows_put conn_id c' (connections d)) (refresh_jobs d')"
  shows "reg_tables_ok d'"
proof -
  have inv: "conns_inv (connections d)" "snaps_inv (connections d) (snapshots d)"
    "vers_inv (connections d) (connection_versions d)" "capconn_inv (connections d) (capabilities d)"
    and dist: "distinct (map conn_id (connections d))"
    using ok(1) by (auto simp: reg_tables_ok_def conns_inv_def)
  have "conns_inv (connections d')" using conns_inv_put [OF inv(1) c'(3)] d'(2) by simp
  moreover have "snaps_inv (connections d') (snapshots d')"
    using snaps_inv_put [OF inv(2) dist ok(2) c'(1,2,4,5)] d'(2) conn_only_frame [OF d'(1)] by simp
  moreover have "vers_inv (connections d') (connection_versions d')"
    using vers_inv_put [OF inv(3) ok(2) c'(1,2,6) dist] d'(2) conn_only_frame [OF d'(1)] by simp
  moreover have "capconn_inv (connections d') (capabilities d')"
    using inv(4) owns_put [OF dist ok(2) c'(1,2)] d'(2) conn_only_frame [OF d'(1)] by (simp add: capconn_inv_def)
  ultimately show ?thesis
    using ok(1) d'(2,3) conn_only_frame [OF d'(1)] by (simp add: reg_tables_ok_def)
qed

lemma reg_ok_conn:
  assumes "reg_tables_ok d" and "scoped_connection i w d = Some c"
  shows "c \<in> set (connections d)" and "conn_id c = i" and "conn_workspace_id c = w" and "conn_ok c"
    and "\<And>v. conn_pending_version_id c = Some v \<or> conn_verified_version_id c = Some v \<Longrightarrow>
        \<exists>x \<in> set (connection_versions d). scv_id x = v \<and> scv_connection_id x = conn_id c"
    and "jobs_inv (connections d) (refresh_jobs d)" and "distinct (map conn_id (connections d))"
  using scoped_connection_Some [OF assms(2)] assms(1)
  by (auto simp: reg_tables_ok_def conns_inv_def vers_inv_def)

lemmas conn_change_defs = no_allocation_def connection_audit_def add_audit_def obsolete_refresh_jobs_def put_connection_def
  put_refresh_job_def conn_only_def

lemma connection_disable_Inr:
  assumes "connection_disable ctx i corr fresh d = Inr (c', d')"
  obtains c where "scoped_connection i (ctx_workspace_id ctx) d = Some c"
    and "conn_lifecycle c \<noteq> ConnectionLifecycle.DISABLED"
    and "c' = no_allocation (c\<lparr>conn_lifecycle := ConnectionLifecycle.DISABLED, conn_control_epoch := conn_control_epoch c + 1\<rparr>)"
    and "d' = connection_audit ctx CONNECTION_DISABLED (conn_id c) corr fresh
      (obsolete_refresh_jobs ctx (conn_id c) (put_connection c' d))"
  using assms that by (auto simp: connection_disable_def and_then_Inr locked_connection_Inr Let_def split: if_splits)

lemma connection_disable_ok:
  assumes "connection_disable ctx i corr fresh d = Inr (c', d')" and "reg_tables_ok d"
  shows "reg_tables_ok d'"
proof (rule connection_disable_Inr [OF assms(1)])
  fix c assume c: "scoped_connection i (ctx_workspace_id ctx) d = Some c"
    and c': "c' = no_allocation (c\<lparr>conn_lifecycle := ConnectionLifecycle.DISABLED, conn_control_epoch := conn_control_epoch c + 1\<rparr>)"
    and d': "d' = connection_audit ctx CONNECTION_DISABLED (conn_id c) corr fresh
      (obsolete_refresh_jobs ctx (conn_id c) (put_connection c' d))"
  note r = reg_ok_conn [OF assms(2) c]
  have ok': "conn_ok c'" using r(4) unfolding c' by (intro conn_ok_no_allocation) (auto simp: conn_ok_def connection_check_def)
  have jobs: "refresh_jobs d' = refresh_jobs (obsolete_refresh_jobs ctx (conn_id c) d)"
    by (simp add: d' conn_change_defs)
  have "jobs_inv (rows_put conn_id c' (connections d)) (refresh_jobs d')"
    unfolding jobs by (rule obsolete_jobs_inv [OF r(6,7,1,3)]) (simp_all add: c' no_allocation_def)
  then show ?thesis
    by (intro conn_put_ok [OF assms(2) r(1) _ _ ok']) (auto simp: c' d' conn_change_defs intro: r(5))
qed

lemma connection_enable_Inr:
  assumes "connection_enable ctx i corr fresh d = Inr (c', d')"
  obtains c where "scoped_connection i (ctx_workspace_id ctx) d = Some c"
    and "conn_lifecycle c = ConnectionLifecycle.DISABLED"
    and "c' = no_allocation (c\<lparr>conn_lifecycle := VERIFYING, conn_control_epoch := conn_control_epoch c + 1\<rparr>)"
    and "d' = connection_audit ctx CONNECTION_ENABLED (conn_id c) corr fresh (put_connection c' d)"
  using assms that by (auto simp: connection_enable_def and_then_Inr locked_connection_Inr Let_def split: if_splits)

text \<open>A connection without an allocation has no open job, so its jobs do not care how it changes.\<close>

lemma unallocated_jobs_inv:
  assumes "jobs_inv cs js" and "distinct (map conn_id cs)" and "c \<in> set cs" and "conn_allocated_control_epoch c = None"
    and "conn_id c' = conn_id c" and "conn_workspace_id c' = conn_workspace_id c"
    and "conn_refresh_generation c \<le> conn_refresh_generation c'"
  shows "jobs_inv (rows_put conn_id c' cs) js"
proof -
  have "jobs_inv (rows_put conn_id c' cs) (map (\<lambda>j. j) js)"
    using assms(1) job_of_the [OF assms(1-3)] assms(4)
    by (intro jobs_inv_map [OF assms(1-3,5-7)])
      (auto simp: keeps_job_def jobs_inv_def job_of_def job_current_def allocation_is_def)
  then show ?thesis by simp
qed

lemma connection_enable_ok:
  assumes "connection_enable ctx i corr fresh d = Inr (c', d')" and "reg_tables_ok d"
  shows "reg_tables_ok d'"
proof (rule connection_enable_Inr [OF assms(1)])
  fix c assume c: "scoped_connection i (ctx_workspace_id ctx) d = Some c" "conn_lifecycle c = ConnectionLifecycle.DISABLED"
    and c': "c' = no_allocation (c\<lparr>conn_lifecycle := VERIFYING, conn_control_epoch := conn_control_epoch c + 1\<rparr>)"
    and d': "d' = connection_audit ctx CONNECTION_ENABLED (conn_id c) corr fresh (put_connection c' d)"
  note r = reg_ok_conn [OF assms(2) c(1)]
  have ok': "conn_ok c'" using r(4) unfolding c' by (intro conn_ok_no_allocation) (auto simp: conn_ok_def connection_check_def)
  have "conn_allocated_control_epoch c = None" using r(4) c(2) by (auto simp: conn_ok_def split: option.splits)
  then have "jobs_inv (rows_put conn_id c' (connections d)) (refresh_jobs d')"
    using unallocated_jobs_inv [OF r(6,7,1)] by (simp add: c' d' conn_change_defs)
  then show ?thesis
    by (intro conn_put_ok [OF assms(2) r(1) _ _ ok']) (auto simp: c' d' conn_change_defs intro: r(5))
qed

text \<open>A new version of a connection is added before the connection points to it.\<close>

lemma add_connection_version_ok:
  assumes "reg_tables_ok d" and "c \<in> set (connections d)" and "scv_id v \<notin> scv_id ` set (connection_versions d)"
    and "scv_connection_id v = conn_id c" and "scv_workspace_id v = conn_workspace_id c"
    and "scv_sequence v = next_sequence (map scv_sequence (filter (\<lambda>x. scv_connection_id x = conn_id c) (connection_versions d)))"
  shows "reg_tables_ok (d\<lparr>connection_versions := connection_versions d @ [v]\<rparr>)"
proof -
  have inv: "vers_inv (connections d) (connection_versions d)" using assms(1) by (simp add: reg_tables_ok_def)
  have "contiguous (map scv_sequence (filter (\<lambda>x. scv_connection_id x = conn_id b) (connection_versions d @ [v])))"
    if "b \<in> set (connections d)" for b
  proof -
    have "contiguous (map scv_sequence (filter (\<lambda>x. scv_connection_id x = conn_id b) (connection_versions d)))"
      using inv that by (simp add: vers_inv_def)
    then show ?thesis
      using assms(4,6) by (auto simp: next_sequence_contiguous intro: contiguous_snoc [of "map _ _", simplified])
  qed
  with inv assms have "vers_inv (connections d) (connection_versions d @ [v])"
    by (auto simp: vers_inv_def)
  with assms(1) show ?thesis by (simp add: reg_tables_ok_def)
qed

lemma append_version_Inr:
  assumes "append_version ext cfg ctx i rq ids d = Inr (v, d')"
  obtains c where "scoped_connection i (ctx_workspace_id ctx) d = Some c"
    and "conn_lifecycle c \<noteq> ConnectionLifecycle.DISABLED"
    and "v = new_connection_version ctx (fresh_version ids) (conn_id c)
           (next_sequence (map scv_sequence (filter (\<lambda>v. scv_connection_id v = conn_id c) (connection_versions d)))) rq"
    and "d' = connection_audit ctx CONNECTION_VERSION_APPENDED (conn_id c) (crq_correlation_id rq) (fresh_correlation ids)
           (obsolete_refresh_jobs ctx (conn_id c) (put_connection (no_allocation (c\<lparr>conn_pending_version_id := Some (scv_id v),
              conn_lifecycle := VERIFYING, conn_control_epoch := conn_control_epoch c + 1\<rparr>))
             (d\<lparr>connection_versions := connection_versions d @ [v]\<rparr>)))"
    and "validate_configuration ext cfg (crq_endpoint_url rq) (crq_policy_version rq) (crq_secret_binding_id rq \<noteq> None)"
  using assms that by (auto simp: append_version_def and_then_Inr locked_connection_Inr Let_def split: if_splits)

lemma append_version_ok:
  assumes "append_version ext cfg ctx i rq ids d = Inr (v, d')" and "reg_tables_ok d"
    and "fresh_version ids \<notin> scv_id ` set (connection_versions d)"
  shows "reg_tables_ok d'"
proof (rule append_version_Inr [OF assms(1)])
  fix c
  let ?d = "d\<lparr>connection_versions := connection_versions d @ [v]\<rparr>"
  let ?c = "no_allocation (c\<lparr>conn_pending_version_id := Some (scv_id v), conn_lifecycle := VERIFYING,
    conn_control_epoch := conn_control_epoch c + 1\<rparr>)"
  assume c: "scoped_connection i (ctx_workspace_id ctx) d = Some c"
    and v: "v = new_connection_version ctx (fresh_version ids) (conn_id c)
           (next_sequence (map scv_sequence (filter (\<lambda>v. scv_connection_id v = conn_id c) (connection_versions d)))) rq"
    and d': "d' = connection_audit ctx CONNECTION_VERSION_APPENDED (conn_id c) (crq_correlation_id rq) (fresh_correlation ids)
           (obsolete_refresh_jobs ctx (conn_id c) (put_connection ?c ?d))"
  note r = reg_ok_conn [OF assms(2) c]
  have new: "scv_id v = fresh_version ids" "scv_connection_id v = conn_id c" by (simp_all add: v new_connection_version_def)
  have "conn_verified_version_id c \<noteq> Some (scv_id v)" using r(5) [of "scv_id v"] new(1) assms(3) by (metis imageI)
  then have ok': "conn_ok ?c" using r(4) by (intro conn_ok_no_allocation) (auto simp: conn_ok_def connection_check_def)
  have okd: "reg_tables_ok ?d"
    by (rule add_connection_version_ok [OF assms(2) r(1)]) (use assms(3) r(3) in \<open>simp_all add: v new_connection_version_def\<close>)
  have jobs: "refresh_jobs d' = refresh_jobs (obsolete_refresh_jobs ctx (conn_id c) d)" by (simp add: d' conn_change_defs)
  have "jobs_inv (rows_put conn_id ?c (connections d)) (refresh_jobs d')"
    unfolding jobs by (rule obsolete_jobs_inv [OF r(6,7,1,3)]) (simp_all add: no_allocation_def)
  moreover have "\<exists>x \<in> set (connection_versions ?d). scv_id x = k \<and> scv_connection_id x = conn_id c"
    if "conn_pending_version_id ?c = Some k \<or> conn_verified_version_id ?c = Some k" for k
    using that r(5) [of k] new(2) by (auto simp: no_allocation_def)
  ultimately show ?thesis
    using r(1) by (intro conn_put_ok [OF okd _ _ _ ok']) (auto simp: d' conn_change_defs)
qed


lemma snoc_row_ok:
  "jobs_inv cs js \<Longrightarrow> jobs_inv (cs @ [c]) js"
  "snaps_inv cs ss \<Longrightarrow> conn_current_snapshot_id c = None \<Longrightarrow> snaps_inv (cs @ [c]) ss"
  "capconn_inv cs caps \<Longrightarrow> capconn_inv (cs @ [c]) caps"
  by (auto simp: jobs_inv_def snaps_inv_def capconn_inv_def owns_def)

lemma add_connection_ok:
  assumes "reg_tables_ok d" and c: "conn_ok c" "conn_id c \<notin> conn_id ` set (connections d)" "conn_current_snapshot_id c = None"
    and v: "scv_id v \<notin> scv_id ` set (connection_versions d)" "scv_connection_id v = conn_id c"
      "scv_workspace_id v = conn_workspace_id c" "scv_sequence v = 1"
    and ptr: "conn_pending_version_id c = Some (scv_id v)" "conn_verified_version_id c = None"
  shows "reg_tables_ok (d\<lparr>connections := connections d @ [c], connection_versions := connection_versions d @ [v]\<rparr>)"
proof -
  have inv: "vers_inv (connections d) (connection_versions d)" using assms(1) by (simp add: reg_tables_ok_def)
  have other: "scv_connection_id x \<noteq> conn_id c" if "x \<in> set (connection_versions d)" for x
    using inv that c(2) unfolding vers_inv_def by (metis imageI)
  then have none: "filter (\<lambda>x. scv_connection_id x = conn_id c) (connection_versions d) = []"
    by (simp add: filter_empty_conv)
  have old: "conn_id b \<noteq> conn_id c" if "b \<in> set (connections d)" for b using that c(2) by (metis imageI)
  have "contiguous (map scv_sequence (filter (\<lambda>x. scv_connection_id x = conn_id b) (connection_versions d @ [v])))"
    if "b \<in> set (connections d @ [c])" for b
    using that inv none v(2,4) old by (auto simp: vers_inv_def contiguous_def)
  moreover have "\<exists>x \<in> set (connection_versions d @ [v]). scv_id x = i \<and> scv_connection_id x = conn_id b"
    if b: "b \<in> set (connections d @ [c])" "conn_pending_version_id b = Some i \<or> conn_verified_version_id b = Some i" for b i
  proof (cases "b = c")
    case True
    then show ?thesis using b(2) ptr v(2) by simp
  next
    case False
    then have "\<exists>x \<in> set (connection_versions d). scv_id x = i \<and> scv_connection_id x = conn_id b"
      using b inv unfolding vers_inv_def by auto
    then show ?thesis by auto
  qed
  ultimately have "vers_inv (connections d @ [c]) (connection_versions d @ [v])"
    using inv v unfolding vers_inv_def by auto
  moreover have "conns_inv (connections d @ [c])" using assms(1) c by (auto simp: reg_tables_ok_def conns_inv_def)
  ultimately show ?thesis using assms(1) c(3) snoc_row_ok by (simp add: reg_tables_ok_def)
qed

lemma connection_create_Inr:
  assumes "connection_create ext cfg ctx name rq ids d = Inr (c, d')"
  obtains v where "v = new_connection_version ctx (fresh_version ids) (fresh_connection ids) 1 rq"
    and "conn_id c = fresh_connection ids" and "conn_workspace_id c = ctx_workspace_id ctx"
    and "conn_lifecycle c = VERIFYING" and "conn_pending_version_id c = Some (fresh_version ids)"
    and "conn_verified_version_id c = None" and "conn_refresh_generation c = 0" and "conn_control_epoch c = 0"
    and "conn_allocated_control_epoch c = None" and "conn_allocated_target_version_id c = None"
    and "conn_current_snapshot_id c = None"
    and "d' = connection_audit ctx CONNECTION_CREATED (conn_id c) (crq_correlation_id rq) (fresh_correlation ids)
      (d\<lparr>connections := connections d @ [c], connection_versions := connection_versions d @ [v]\<rparr>)"
    and "validate_configuration ext cfg (crq_endpoint_url rq) (crq_policy_version rq) (crq_secret_binding_id rq \<noteq> None)"
  using assms that by (auto simp: connection_create_def and_then_Inr Let_def split: if_splits)

lemma reg_ok_audit:
  "reg_tables_ok (connection_audit ctx a i corr fresh d) \<longleftrightarrow> reg_tables_ok d"
  "reg_tables_ok (capability_audit ctx a i corr fresh d) \<longleftrightarrow> reg_tables_ok d"
  by (simp_all add: connection_audit_def capability_audit_def add_audit_def reg_tables_ok_def)

lemma connection_create_ok:
  assumes "connection_create ext cfg ctx name rq ids d = Inr (c, d')" and "reg_tables_ok d"
    and "fresh_connection ids \<notin> conn_id ` set (connections d)"
    and "fresh_version ids \<notin> scv_id ` set (connection_versions d)"
  shows "reg_tables_ok d'"
  using assms(1)
proof (rule connection_create_Inr)
  fix v assume v: "v = new_connection_version ctx (fresh_version ids) (fresh_connection ids) 1 rq"
    and c: "conn_id c = fresh_connection ids" "conn_workspace_id c = ctx_workspace_id ctx" "conn_lifecycle c = VERIFYING"
      "conn_pending_version_id c = Some (fresh_version ids)" "conn_verified_version_id c = None"
      "conn_refresh_generation c = 0" "conn_allocated_control_epoch c = None"
      "conn_allocated_target_version_id c = None" "conn_current_snapshot_id c = None"
    and d': "d' = connection_audit ctx CONNECTION_CREATED (conn_id c) (crq_correlation_id rq) (fresh_correlation ids)
      (d\<lparr>connections := connections d @ [c], connection_versions := connection_versions d @ [v]\<rparr>)"
  have "conn_ok c" using c by (simp add: conn_ok_def connection_check_def)
  with assms(2-4) c show ?thesis
    unfolding d' reg_ok_audit by (intro add_connection_ok) (simp_all add: v new_connection_version_def)
qed

section \<open>Refresh jobs\<close>

definition allocated :: "ServerConnection \<Rightarrow> uuid \<Rightarrow> ServerConnection" where
  "allocated c target = c\<lparr>
     conn_lifecycle := (if conn_pending_version_id c \<noteq> None \<and> conn_lifecycle c = DEGRADED then VERIFYING else conn_lifecycle c),
     conn_refresh_generation := conn_refresh_generation c + 1,
     conn_allocated_control_epoch := Some (conn_control_epoch c), conn_allocated_target_version_id := Some target\<rparr>"

lemma conn_ok_allocated:
  assumes "conn_ok c" and "conn_lifecycle c \<noteq> ConnectionLifecycle.DISABLED" and "conn_target c = Some target"
  shows "conn_ok (allocated c target)"
  using assms
  by (cases "conn_lifecycle c")
    (auto simp: conn_ok_def connection_check_def allocated_def conn_target_def split: option.splits if_splits)

definition queued_job :: "WorkspaceContext \<Rightarrow> uuid \<Rightarrow> ServerConnection \<Rightarrow> uuid \<Rightarrow> DiscoveryRefreshJob" where
  "queued_job ctx i c target = \<lparr>drj_id = i, drj_workspace_id = ctx_workspace_id ctx,
     drj_actor_user_id = ctx_actor_user_id ctx, drj_connection_id = conn_id c,
     drj_connection_version_id = target, drj_generation = conn_refresh_generation c + 1,
     drj_control_epoch = conn_control_epoch c, drj_status = RefreshJobStatus.QUEUED,
     drj_lease_owner = None, drj_lease_epoch = 0, drj_lease_expires_at = None\<rparr>"

lemma enqueue_Inr:
  assumes "enqueue ctx i fresh d = Inr (j, d')"
  obtains c target where "scoped_connection i (ctx_workspace_id ctx) d = Some c"
    and "conn_lifecycle c \<noteq> ConnectionLifecycle.DISABLED" and "conn_target c = Some target"
    and "j = queued_job ctx fresh c target"
    and "d' = (obsolete_refresh_jobs ctx i (put_connection (allocated c target) d))\<lparr>refresh_jobs :=
      refresh_jobs (obsolete_refresh_jobs ctx i (put_connection (allocated c target) d)) @ [j]\<rparr>"
proof -
  obtain c target where "scoped_connection i (ctx_workspace_id ctx) d = Some c"
    "conn_lifecycle c \<noteq> ConnectionLifecycle.DISABLED" "conn_target c = Some target"
    "j = queued_job ctx fresh c target"
    "d' = (obsolete_refresh_jobs ctx i (put_connection (allocated c target) d))\<lparr>refresh_jobs :=
      refresh_jobs (obsolete_refresh_jobs ctx i (put_connection (allocated c target) d)) @ [j]\<rparr>"
    using assms
    by (auto simp: enqueue_def allocate_refresh_generation_def and_then_Inr locked_connection_Inr Let_def
        allocated_def queued_job_def scoped_connection_Some split: if_splits option.splits dest: scoped_connection_Some)
  with that show thesis by blast
qed

lemma enqueue_jobs:
  assumes "reg_tables_ok d" and c: "scoped_connection i (ctx_workspace_id ctx) d = Some c"
    and "fresh \<notin> drj_id ` set (refresh_jobs d)"
  defines "js \<equiv> refresh_jobs (obsolete_refresh_jobs ctx i d)"
  shows "jobs_inv (rows_put conn_id (allocated c target) (connections d)) (js @ [queued_job ctx fresh c target])"
    and "refresh_job_insert_ok (queued_job ctx fresh c target) (obsolete_refresh_jobs ctx i d)"
proof -
  note r = reg_ok_conn [OF assms(1) c]
  let ?c = "allocated c target" and ?j = "queued_job ctx fresh c target"
  have same: "conn_id ?c = conn_id c" "conn_workspace_id ?c = conn_workspace_id c"
    "conn_refresh_generation c \<le> conn_refresh_generation ?c" by (simp_all add: allocated_def)
  have inv: "jobs_inv (rows_put conn_id ?c (connections d)) js"
    using obsolete_jobs_inv [OF r(6,7,1,3) same] by (simp add: js_def r(2))
  have ids: "map drj_id js = map drj_id (refresh_jobs d)"
    by (simp add: js_def obsolete_refresh_jobs_def obsolete_job_def)
  have old: "drj_generation x \<le> conn_refresh_generation c" if x: "x \<in> set js" "drj_connection_id x = conn_id c" for x
  proof -
    obtain y where y: "y \<in> set (refresh_jobs d)" "drj_connection_id y = conn_id c" "drj_generation y = drj_generation x"
      using x by (auto simp: js_def obsolete_refresh_jobs_def obsolete_job_def split: if_splits)
    then show ?thesis using job_of_the [OF r(6,7,1) y(1,2)] by (simp add: job_of_def)
  qed
  have new: "job_slot ?j \<notin> job_slot ` set js"
    using old by (force simp: job_slot_def queued_job_def)
  have mem: "?c \<in> set (rows_put conn_id ?c (connections d))" using r(1) same(1) by (auto simp: rows_put_mem)
  have "job_of ?j ?c" using r(3)
    by (simp add: job_of_def queued_job_def allocated_def job_current_def allocation_is_def)
  moreover have "refresh_job_check ?j" by (simp add: refresh_job_check_def queued_job_def)
  moreover have "drj_id ?j \<notin> drj_id ` set js" using ids assms(3) by (simp add: queued_job_def flip: set_map)
  ultimately show "jobs_inv (rows_put conn_id ?c (connections d)) (js @ [?j])"
    using inv new mem by (auto simp: jobs_inv_def)
  show "refresh_job_insert_ok ?j (obsolete_refresh_jobs ctx i d)"
    using new by (auto simp: refresh_job_insert_ok_def list_ex_iff js_def job_slot_def queued_job_def image_iff)
qed

lemma enqueue_ok:
  assumes "enqueue ctx i fresh d = Inr (j, d')" and "reg_tables_ok d" and "fresh \<notin> drj_id ` set (refresh_jobs d)"
  shows "reg_tables_ok d'"
  using assms(1)
proof (rule enqueue_Inr)
  fix c target assume c: "scoped_connection i (ctx_workspace_id ctx) d = Some c"
    "conn_lifecycle c \<noteq> ConnectionLifecycle.DISABLED" "conn_target c = Some target"
    and d': "j = queued_job ctx fresh c target"
      "d' = (obsolete_refresh_jobs ctx i (put_connection (allocated c target) d))\<lparr>refresh_jobs :=
        refresh_jobs (obsolete_refresh_jobs ctx i (put_connection (allocated c target) d)) @ [j]\<rparr>"
  note r = reg_ok_conn [OF assms(2) c(1)]
  have "jobs_inv (rows_put conn_id (allocated c target) (connections d)) (refresh_jobs d')"
    using enqueue_jobs(1) [OF assms(2) c(1) assms(3)] by (simp add: d' obsolete_refresh_jobs_def put_connection_def)
  moreover have "conn_ok (allocated c target)" by (rule conn_ok_allocated [OF r(4) c(2,3)])
  ultimately show ?thesis
    by (intro conn_put_ok [OF assms(2) r(1), of "allocated c target"])
      (auto simp: d' conn_change_defs allocated_def intro: r(5))
qed

text \<open>Enqueueing never meets the unique constraint on (connection, generation).\<close>

lemma enqueue_total:
  assumes "reg_tables_ok d" and "scoped_connection i (ctx_workspace_id ctx) d = Some c"
    and "require_current_role ctx [ADMIN, OPERATOR] True d = Inr u"
    and "conn_lifecycle c \<noteq> ConnectionLifecycle.DISABLED" and "fresh \<notin> drj_id ` set (refresh_jobs d)"
  obtains d' target where "conn_target c = Some target" and "enqueue ctx i fresh d = Inr (queued_job ctx fresh c target, d')"
proof -
  obtain target where t: "conn_target c = Some target" using conn_target_Some reg_ok_conn(4) [OF assms(1,2)] by blast
  have i: "conn_id c = i" using reg_ok_conn(2) [OF assms(1,2)] .
  have "refresh_job_insert_ok (queued_job ctx fresh c target) (obsolete_refresh_jobs ctx i (put_connection (allocated c target) d))"
    using enqueue_jobs(2) [OF assms(1,2,5), of target]
    by (simp add: refresh_job_insert_ok_def obsolete_refresh_jobs_def put_connection_def)
  then have "\<exists>d'. enqueue ctx i fresh d = Inr (queued_job ctx fresh c target, d')"
    using assms(2-4) t i
    by (simp add: enqueue_def allocate_refresh_generation_def locked_connection_def Let_def
        allocated_def queued_job_def)
  with t that show thesis by blast
qed

lemma lock_eligible_connection_Inr:
  "lock_eligible_connection ctx i v e g d = Inr c \<longleftrightarrow> scoped_connection i (ctx_workspace_id ctx) d = Some c
     \<and> conn_lifecycle c \<noteq> ConnectionLifecycle.DISABLED \<and> conn_target c = Some v \<and> allocation_is v e g c"
  by (cases "\<exists>c. scoped_connection i (ctx_workspace_id ctx) d = Some c")
    (auto simp: lock_eligible_connection_def locked_connection_def split: option.splits, metis ConnectionLifecycle.exhaust)

lemma locked_job_for_lease_Inr:
  "locked_job_for_lease ctx lease extra d = Inr j \<Longrightarrow> j \<in> set (refresh_jobs d) \<and> lease_matches ctx lease j \<and> extra j"
  by (auto simp: locked_job_for_lease_def split: option.splits dest: first_row_filter_Some)

text \<open>A job whose row moves on under its connection, which may change with it.\<close>

definition job_moves :: "DiscoveryRefreshJob \<Rightarrow> DiscoveryRefreshJob \<Rightarrow> bool" where
  "job_moves j j' \<longleftrightarrow> drj_id j' = drj_id j \<and> drj_workspace_id j' = drj_workspace_id j
     \<and> drj_connection_id j' = drj_connection_id j \<and> drj_generation j' = drj_generation j
     \<and> drj_connection_version_id j' = drj_connection_version_id j \<and> drj_control_epoch j' = drj_control_epoch j
     \<and> open_refresh_job j \<and> refresh_job_check j'"

lemma job_move_ok:
  assumes ok: "reg_tables_ok d" "c \<in> set (connections d)" "j \<in> set (refresh_jobs d)" "drj_connection_id j = conn_id c"
    and c': "conn_id c' = conn_id c" "conn_workspace_id c' = conn_workspace_id c" "conn_ok c'"
      "conn_refresh_generation c' = conn_refresh_generation c" "conn_current_snapshot_id c' = conn_current_snapshot_id c"
      "conn_pending_version_id c' = conn_pending_version_id c" "conn_verified_version_id c' = conn_verified_version_id c"
      "conn_allocated_control_epoch c' = None \<or> conn_allocated_control_epoch c' = conn_allocated_control_epoch c"
    and j': "job_moves j j'" "open_refresh_job j' \<Longrightarrow> job_current j c'"
  shows "reg_tables_ok (put_refresh_job j' (put_connection c' d))"
proof -
  have inv: "jobs_inv (connections d) (refresh_jobs d)" "distinct (map conn_id (connections d))"
    "vers_inv (connections d) (connection_versions d)"
    using ok(1) by (auto simp: reg_tables_ok_def conns_inv_def)
  have "job_of j c" by (rule job_of_the [OF inv(1,2) ok(2-4)])
  then have "jobs_inv (rows_put conn_id c' (connections d)) (rows_put drj_id j' (refresh_jobs d))"
    using j' c' by (intro put_job_inv [OF inv(1,2) ok(2,3)]) (simp_all add: job_moves_def)
  moreover have "\<exists>v \<in> set (connection_versions d). scv_id v = i \<and> scv_connection_id v = conn_id c"
    if "conn_pending_version_id c' = Some i \<or> conn_verified_version_id c' = Some i" for i
    using that inv(3) ok(2) c'(6,7) unfolding vers_inv_def by metis
  ultimately show ?thesis
    using c'(4,5,8) by (intro conn_put_ok [OF ok(1,2) c'(1-3)]) (auto simp: conn_change_defs)
qed

lemma job_alone_ok:
  assumes "reg_tables_ok d" "c \<in> set (connections d)" "j \<in> set (refresh_jobs d)" "drj_connection_id j = conn_id c"
    and "job_moves j j'" and "job_current j c"
  shows "reg_tables_ok (put_refresh_job j' d)"
proof -
  have "conns_inv (connections d)" using assms(1) by (simp add: reg_tables_ok_def)
  moreover from this have "put_connection c d = d"
    using rows_put_self [of conn_id "connections d" c] assms(2) by (simp add: put_connection_def conns_inv_def)
  ultimately show ?thesis using job_move_ok [OF assms(1-4), of c j'] assms by (simp add: conns_inv_def)
qed

lemma refresh_claim_Inr:
  assumes "refresh_claim ctx i worker dur clock d = Inr (lease, d')"
  obtains j c where "j \<in> set (refresh_jobs d)" and "drj_id j = i" and "reclaimable (clock 0) j"
    and "drj_workspace_id j = ctx_workspace_id ctx" and "drj_actor_user_id j = ctx_actor_user_id ctx"
    and "scoped_connection (drj_connection_id j) (ctx_workspace_id ctx) d = Some c" and "job_current j c"
    and "lease = refresh_lease worker (j\<lparr>drj_lease_epoch := drj_lease_epoch j + 1\<rparr>)"
    and "d' = put_refresh_job (j\<lparr>drj_status := RefreshJobStatus.LEASED, drj_lease_owner := Some worker,
      drj_lease_epoch := drj_lease_epoch j + 1, drj_lease_expires_at := Some (clock 0 + dur)\<rparr>) d"
  using assms that
  by (auto simp: refresh_claim_def and_then_Inr lock_eligible_connection_Inr Let_def refresh_lease_def job_current_def
      split: if_splits option.splits dest!: first_row_filter_Some)

lemma refresh_claim_ok:
  assumes "refresh_claim ctx i worker dur clock d = Inr (lease, d')" and "reg_tables_ok d"
  shows "reg_tables_ok d'"
  using assms(1)
proof (rule refresh_claim_Inr)
  fix j :: DiscoveryRefreshJob and c
  let ?j = "j\<lparr>drj_status := RefreshJobStatus.LEASED, drj_lease_owner := Some worker,
      drj_lease_epoch := drj_lease_epoch j + 1, drj_lease_expires_at := Some (clock 0 + dur)\<rparr>"
  assume j: "j \<in> set (refresh_jobs d)" "reclaimable (clock 0) j" "job_current j c"
    and c: "scoped_connection (drj_connection_id j) (ctx_workspace_id ctx) d = Some c" and d': "d' = put_refresh_job ?j d"
  have "0 < drj_generation j" using j(1) assms(2) by (auto simp: reg_tables_ok_def jobs_inv_def refresh_job_check_def)
  then have "job_moves j ?j" using j(2) by (auto simp: job_moves_def reclaimable_def open_refresh_job_def refresh_job_check_def)
  then show ?thesis
    unfolding d' using j reg_ok_conn(1,2) [OF assms(2) c] by (intro job_alone_ok [OF assms(2), of c j]) simp_all
qed

lemma renew_Inr:
  assumes "renew ctx lease dur clock d = Inr (lease', d')"
  obtains j c t where "j \<in> set (refresh_jobs d)" and "lease_matches ctx lease j" and "drj_lease_expires_at j = Some t"
    and "clock 0 < t" and "scoped_connection (drj_connection_id j) (ctx_workspace_id ctx) d = Some c" and "job_current j c"
    and "lease' = lease" and "d' = put_refresh_job (j\<lparr>drj_lease_expires_at := Some (max t (clock 0 + dur))\<rparr>) d"
  using assms that
  by (auto simp: renew_def and_then_Inr lock_eligible_connection_Inr job_current_def lease_matches_def
      split: if_splits option.splits dest!: locked_job_for_lease_Inr)

lemma renew_ok:
  assumes "renew ctx lease dur clock d = Inr (lease', d')" and "reg_tables_ok d"
  shows "reg_tables_ok d'"
  using assms(1)
proof (rule renew_Inr)
  fix j :: DiscoveryRefreshJob and c t
  let ?j = "j\<lparr>drj_lease_expires_at := Some (max t (clock 0 + dur))\<rparr>"
  assume j: "j \<in> set (refresh_jobs d)" "lease_matches ctx lease j" "job_current j c"
    and c: "scoped_connection (drj_connection_id j) (ctx_workspace_id ctx) d = Some c" and d': "d' = put_refresh_job ?j d"
  have "refresh_job_check j" using j(1) assms(2) by (auto simp: reg_tables_ok_def jobs_inv_def)
  then have "job_moves j ?j" using j(2) by (auto simp: job_moves_def lease_matches_def open_refresh_job_def refresh_job_check_def)
  then show ?thesis
    unfolding d' using j reg_ok_conn(1,2) [OF assms(2) c] by (intro job_alone_ok [OF assms(2), of c j]) simp_all
qed

lemma publish_failure_Inr:
  assumes "publish_failure ctx lease code clock d = Inr (c', d')"
  obtains j c where "j \<in> set (refresh_jobs d)" and "lease_matches ctx lease j" and "refresh_unexpired (clock 0) j"
    and "scoped_connection (drj_connection_id j) (ctx_workspace_id ctx) d = Some c" and "job_current j c"
    and "conn_lifecycle c \<noteq> ConnectionLifecycle.DISABLED"
    and "c' = no_allocation (c\<lparr>conn_lifecycle := DEGRADED, conn_last_refresh_error_code := Some code,
           conn_last_refresh_at := Some (clock 1)\<rparr>)"
    and "d' = put_refresh_job (ended_refresh_job RefreshJobStatus.FAILED j) (put_connection c' d)"
  using assms that
  by (auto simp: publish_failure_def and_then_Inr lock_eligible_connection_Inr job_current_def lease_matches_def Let_def
      dest!: locked_job_for_lease_Inr)

lemma ended_job_moves:
  assumes "reg_tables_ok d" and "j \<in> set (refresh_jobs d)" and "lease_matches ctx lease j"
    and "s = RefreshJobStatus.FAILED \<or> s = RefreshJobStatus.SUCCEEDED"
  shows "job_moves j (ended_refresh_job s j)" and "\<not> open_refresh_job (ended_refresh_job s j)"
proof -
  have "refresh_job_check j" using assms(1,2) by (auto simp: reg_tables_ok_def jobs_inv_def)
  then show "job_moves j (ended_refresh_job s j)" "\<not> open_refresh_job (ended_refresh_job s j)"
    using assms(3,4) by (auto simp: job_moves_def lease_matches_def open_refresh_job_def refresh_job_check_def ended_refresh_job_def)
qed

lemma publish_failure_ok:
  assumes "publish_failure ctx lease code clock d = Inr (c', d')" and "reg_tables_ok d"
  shows "reg_tables_ok d'"
  using assms(1)
proof (rule publish_failure_Inr)
  fix j c
  assume j: "j \<in> set (refresh_jobs d)" "lease_matches ctx lease j" "job_current j c"
    and c: "scoped_connection (drj_connection_id j) (ctx_workspace_id ctx) d = Some c"
    and c': "c' = no_allocation (c\<lparr>conn_lifecycle := DEGRADED, conn_last_refresh_error_code := Some code,
           conn_last_refresh_at := Some (clock 1)\<rparr>)"
    and d': "d' = put_refresh_job (ended_refresh_job RefreshJobStatus.FAILED j) (put_connection c' d)"
  note r = reg_ok_conn [OF assms(2) c] and e = ended_job_moves [OF assms(2) j(1,2), of RefreshJobStatus.FAILED]
  have "conn_ok c'" unfolding c' using r(4) by (intro conn_ok_no_allocation) (auto simp: conn_ok_def connection_check_def)
  then show ?thesis
    unfolding d' using j r(1,2) e by (intro job_move_ok [OF assms(2), of c j]) (simp_all add: c' no_allocation_def)
qed

end
