(* ===== verification/Reg_Publish.thy ===== *)
theory Reg_Publish
  imports Reg_Jobs
begin

text \<open>
  The publication of a discovery result, \<open>DiscoveryPublicationService.publish_success\<close>: one transaction stores the
  payload and the snapshot, records every observed tool, marks the tools that were not observed and
  ends the refresh. What it leaves behind, and that it keeps the invariants of the registry.
\<close>

lemma rows_put_put: "key a = key b \<Longrightarrow> rows_put key b (rows_put key a rows) = rows_put key b rows"
  by (auto simp: rows_put_def)

text \<open>The row a connection has after a successful refresh.\<close>

definition refreshed :: "ServerConnection \<Rightarrow> uuid \<Rightarrow> uuid \<Rightarrow> instant \<Rightarrow> ServerConnection" where
  "refreshed c version_id snapshot_id now = (no_allocation (c\<lparr>conn_verified_version_id := Some version_id,
     conn_pending_version_id := None, conn_lifecycle := ACTIVE\<rparr>))\<lparr>conn_current_snapshot_id := Some snapshot_id,
     conn_last_refresh_error_code := None, conn_last_refresh_at := Some now\<rparr>"

lemma promote_pending_Inr:
  assumes "promote_pending ctx i v e g corr fresh d = Inr (c', d')" and "scoped_connection i (ctx_workspace_id ctx) d = Some c"
  shows "c' = no_allocation (c\<lparr>conn_verified_version_id := Some v, conn_pending_version_id := None, conn_lifecycle := ACTIVE\<rparr>)"
    and "d' = connection_audit ctx CONNECTION_VERIFIED (conn_id c) corr fresh (put_connection c' d)"
  using assms by (auto simp: promote_pending_def and_then_Inr locked_connection_Inr Let_def split: if_splits)

lemma complete_refresh_Inr:
  assumes "complete_refresh ctx i v e g d = Inr (c', d')" and "scoped_connection i (ctx_workspace_id ctx) d = Some c"
  shows "c' = no_allocation (c\<lparr>conn_verified_version_id := Some v, conn_pending_version_id := None, conn_lifecycle := ACTIVE\<rparr>)"
    and "d' = put_connection c' d"
  using assms by (auto simp: complete_refresh_def and_then_Inr locked_connection_Inr Let_def no_allocation_def split: if_splits)

lemma end_refresh_Inr:
  assumes "(if P then promote_pending ctx i v e g corr fresh d else complete_refresh ctx i v e g d) = Inr (c', d')"
    and sc: "scoped_connection i (ctx_workspace_id ctx) d = Some c"
  shows "c' = no_allocation (c\<lparr>conn_verified_version_id := Some v, conn_pending_version_id := None, conn_lifecycle := ACTIVE\<rparr>)"
    and "\<exists>a. d' = (put_connection c' d)\<lparr>audit_events := a\<rparr>"
proof -
  have "c' = no_allocation (c\<lparr>conn_verified_version_id := Some v, conn_pending_version_id := None, conn_lifecycle := ACTIVE\<rparr>)
      \<and> (\<exists>a. d' = (put_connection c' d)\<lparr>audit_events := a\<rparr>)"
  proof (cases P)
    case True
    then have "promote_pending ctx i v e g corr fresh d = Inr (c', d')" using assms(1) by simp
    note p = promote_pending_Inr [OF this sc]
    show ?thesis using p(1) by (subst p(2)) (auto simp: connection_audit_def add_audit_def)
  next
    case False
    then have "complete_refresh ctx i v e g d = Inr (c', d')" using assms(1) by simp
    note p = complete_refresh_Inr [OF this sc]
    show ?thesis using p(1) by (subst p(2)) (auto intro: exI [of _ "audit_events (put_connection c' d)"])
  qed
  then show "c' = no_allocation (c\<lparr>conn_verified_version_id := Some v, conn_pending_version_id := None, conn_lifecycle := ACTIVE\<rparr>)"
    "\<exists>a. d' = (put_connection c' d)\<lparr>audit_events := a\<rparr>" by blast+
qed

lemma scoped_connection_cong: "connections d' = connections d \<Longrightarrow> scoped_connection i w d' = scoped_connection i w d"
  by (simp add: scoped_connection_def)

text \<open>The identifiers a publication draws.\<close>

definition pub_tool_list :: "DiscoveryResult \<Rightarrow> publication_ids \<Rightarrow> (ToolDefinition \<times> capability_ids) list" where
  "pub_tool_list result ids = zip (dr_tools result) (map (pub_tools ids) [0..<length (dr_tools result)])"

lemma pub_tool_list_fst: "map (\<lambda>t. tool_identity (fst t)) (pub_tool_list result ids) = map tool_identity (dr_tools result)"
proof -
  have "map fst (pub_tool_list result ids) = dr_tools result" by (simp add: pub_tool_list_def)
  then have "map (tool_identity \<circ> fst) (pub_tool_list result ids) = map tool_identity (dr_tools result)"
    by (metis map_map)
  then show ?thesis by (simp add: comp_def)
qed

lemma publish_payload_Inr:
  assumes "publish_payload ctx result fresh d = Inr (i, d')"
  shows "d' = d\<lparr>discovery_payloads := discovery_payloads d'\<rparr>"
  using assms by (auto simp: publish_payload_def split: option.splits if_splits)

lemma publish_snapshot_Inr:
  assumes "publish_snapshot ctx lease revision payload fresh d = Inr (s, d')"
  shows "d' = d\<lparr>snapshots := snapshots d @ [s]\<rparr>" and "snap_id s = fresh" and "snap_workspace_id s = ctx_workspace_id ctx"
    and "snap_connection_id s = rl_connection_id lease" and "snap_connection_version_id s = rl_connection_version_id lease"
    and "snap_generation s = rl_generation lease"
  using assms by (auto simp: publish_snapshot_def Let_def split: if_splits)

definition published_from :: "DiscoverySnapshot \<Rightarrow> db \<Rightarrow> db \<Rightarrow> bool" where
  "published_from s d d2 \<longleftrightarrow> d2 = d\<lparr>discovery_payloads := discovery_payloads d2, snapshots := snapshots d @ [s]\<rparr>"

lemma published_from_frame:
  assumes "published_from s d d2"
  shows "connections d2 = connections d" "refresh_jobs d2 = refresh_jobs d" "snapshots d2 = snapshots d @ [s]"
    "connection_versions d2 = connection_versions d" "capabilities d2 = capabilities d"
    "capability_versions d2 = capability_versions d" "tool_bindings d2 = tool_bindings d"
    "status_events d2 = status_events d" "snapshot_capabilities d2 = snapshot_capabilities d"
  by (subst assms [unfolded published_from_def], simp)+

lemma publish_success_Inr:
  assumes "publish_success ext ctx lease result ids clock d = Inr (s, d')"
  obtains j c d2 d3 d5 c5 where "j \<in> set (refresh_jobs d)" and "lease_matches ctx lease j" and "refresh_unexpired (clock 0) j"
    and "eligible_for ctx lease d = Inr c" and "published_from s d d2"
    and "snap_id s = pub_snapshot ids" and "snap_workspace_id s = ctx_workspace_id ctx"
    and "snap_connection_id s = rl_connection_id lease" and "snap_connection_version_id s = rl_connection_version_id lease"
    and "snap_generation s = rl_generation lease"
    and "fold_res (publish_tool ext ctx lease (dr_protocol_revision result) (snap_id s)) (pub_tool_list result ids) d2 = Inr d3"
    and "(if conn_pending_version_id c \<noteq> None
          then promote_pending ctx (rl_connection_id lease) (rl_connection_version_id lease)
                    (rl_control_epoch lease) (rl_generation lease) None (pub_correlation ids)
                    (mark_missing_unavailable ctx (rl_connection_id lease) (map tool_identity (dr_tools result)) d3)
          else complete_refresh ctx (rl_connection_id lease) (rl_connection_version_id lease)
                    (rl_control_epoch lease) (rl_generation lease)
                    (mark_missing_unavailable ctx (rl_connection_id lease) (map tool_identity (dr_tools result)) d3)) = Inr (c5, d5)"
    and "d' = put_refresh_job (ended_refresh_job RefreshJobStatus.SUCCEEDED j)
      (put_connection (c5\<lparr>conn_current_snapshot_id := Some (snap_id s), conn_last_refresh_error_code := None,
         conn_last_refresh_at := Some (clock 1)\<rparr>) d5)"
proof -
  obtain j c p d1 d2 d3 d5 c5 where p: "locked_job_for_lease ctx lease (refresh_unexpired (clock 0)) d = Inr j"
    "eligible_for ctx lease d = Inr c" "publish_payload ctx result (pub_payload ids) d = Inr (p, d1)"
    "publish_snapshot ctx lease (dr_protocol_revision result) p (pub_snapshot ids) d1 = Inr (s, d2)"
    "fold_res (publish_tool ext ctx lease (dr_protocol_revision result) (snap_id s)) (pub_tool_list result ids) d2 = Inr d3"
    "(if conn_pending_version_id c \<noteq> None
          then promote_pending ctx (rl_connection_id lease) (rl_connection_version_id lease)
                    (rl_control_epoch lease) (rl_generation lease) None (pub_correlation ids)
                    (mark_missing_unavailable ctx (rl_connection_id lease) (map tool_identity (dr_tools result)) d3)
          else complete_refresh ctx (rl_connection_id lease) (rl_connection_version_id lease)
                    (rl_control_epoch lease) (rl_generation lease)
                    (mark_missing_unavailable ctx (rl_connection_id lease) (map tool_identity (dr_tools result)) d3)) = Inr (c5, d5)"
    "d' = put_refresh_job (ended_refresh_job RefreshJobStatus.SUCCEEDED j)
      (put_connection (c5\<lparr>conn_current_snapshot_id := Some (snap_id s), conn_last_refresh_error_code := None,
         conn_last_refresh_at := Some (clock 1)\<rparr>) d5)"
    using assms unfolding publish_success_def and_then_Inr Let_def pub_tool_list_def
    by (elim exE conjE) (clarsimp simp: and_then_Inr)
  note sn = publish_snapshot_Inr [OF p(4)]
  have "snapshots d1 = snapshots d" by (subst publish_payload_Inr [OF p(3)]) simp
  then have "published_from s d d2"
    unfolding published_from_def sn(1) by (subst publish_payload_Inr [OF p(3)], subst (2) publish_payload_Inr [OF p(3)]) simp
  with that p sn(2-6) locked_job_for_lease_Inr [OF p(1)] show thesis by blast
qed

text \<open>The identifiers of a publication are new and its tools have different identities.\<close>

definition publication_fresh :: "DiscoveryResult \<Rightarrow> publication_ids \<Rightarrow> db \<Rightarrow> bool" where
  "publication_fresh result ids d \<longleftrightarrow> pub_snapshot ids \<notin> snap_id ` set (snapshots d)
     \<and> distinct (concat (map tool_ids (pub_tool_list result ids)))
     \<and> set (concat (map tool_ids (pub_tool_list result ids))) \<inter> capability_id_set d = {}
     \<and> distinct (map tool_identity (dr_tools result))"

lemma publishing_start:
  assumes "reg_tables_ok d" and "published_from s d d2"
  shows "publishing s d2"
proof -
  have "obs_inv (snapshots d @ [s]) (tool_bindings d) (snapshot_capabilities d)"
    using assms(1) by (auto simp: reg_tables_ok_def obs_inv_def)
  then show ?thesis
    using assms(1) published_from_frame [OF assms(2)] by (simp add: publishing_def caps_ok_def reg_tables_ok_def conns_inv_def)
qed

text \<open>What a publication does to the capability tables: the observed tools are recorded, then the others of
  the connection are marked.\<close>

lemma publication_capabilities:
  assumes "reg_tables_ok d" and "published_from s d d2" and "publication_fresh result ids d"
    and "fold_res (publish_tool ext ctx lease (dr_protocol_revision result) (snap_id s)) (pub_tool_list result ids) d2 = Inr d3"
    and "snap_workspace_id s = ctx_workspace_id ctx" and "snap_connection_id s = rl_connection_id lease"
    and "snap_connection_version_id s = rl_connection_version_id lease"
  defines "obs \<equiv> map tool_identity (dr_tools result)"
  defines "d4 \<equiv> mark_missing_unavailable ctx (rl_connection_id lease) obs d3"
  shows "publishing s d4" and "caps_only d2 d4"
    and "tools_recorded (ctx_workspace_id ctx) (rl_connection_id lease) (set obs) d2 d3"
    and "capability_id_set d4 \<subseteq> set (concat (map tool_ids (pub_tool_list result ids))) \<union> capability_id_set d"
    and "capabilities d4 = map (\<lambda>c.
           if cap_workspace_id c = ctx_workspace_id ctx \<and> cap_connection_id c = rl_connection_id lease
              \<and> cap_tool_identity c \<notin> set obs \<and> cap_status c \<noteq> UNAVAILABLE
              \<and> cap_status c \<noteq> CapabilityStatus.DISABLED
           then unavailable c else c) (capabilities d3)"
proof -
  have ids: "capability_id_set d2 = capability_id_set d"
    using published_from_frame [OF assms(2)] by (simp add: capability_id_set_def)
  have "tools_recorded (ctx_workspace_id ctx) (rl_connection_id lease)
      (set (map (\<lambda>t. tool_identity (fst t)) (pub_tool_list result ids))) d2 d3 \<and> publishing s d3
      \<and> capability_id_set d3 \<subseteq> set (concat (map tool_ids (pub_tool_list result ids))) \<union> capability_id_set d2"
    using publish_tools_recorded [OF assms(4) publishing_start [OF assms(1,2)]] assms(3,5-7) ids
    by (simp add: publication_fresh_def pub_tool_list_fst)
  then have r: "tools_recorded (ctx_workspace_id ctx) (rl_connection_id lease) (set obs) d2 d3" "publishing s d3"
    "capability_id_set d3 \<subseteq> set (concat (map tool_ids (pub_tool_list result ids))) \<union> capability_id_set d"
    by (simp_all add: pub_tool_list_fst obs_def ids)
  have c3: "caps_ok d3" using r(2) by (simp add: publishing_def)
  note m = mark_missing_unavailable_ok [OF c3, of ctx "rl_connection_id lease" obs, folded d4_def]
  show "tools_recorded (ctx_workspace_id ctx) (rl_connection_id lease) (set obs) d2 d3" by (rule r(1))
  show "capabilities d4 = map (\<lambda>c.
           if cap_workspace_id c = ctx_workspace_id ctx \<and> cap_connection_id c = rl_connection_id lease
              \<and> cap_tool_identity c \<notin> set obs \<and> cap_status c \<noteq> UNAVAILABLE
              \<and> cap_status c \<noteq> CapabilityStatus.DISABLED
           then unavailable c else c) (capabilities d3)" by (rule m(3))
  show "caps_only d2 d4" using r(1) m(2) caps_only_trans by (auto simp: tools_recorded_def)
  have "capconn_inv (connections d4) (capabilities d4)"
    using r(2) m(3) caps_only_frame [OF m(2)] by (auto simp: publishing_def capconn_inv_def unavailable_def)
  with r(2) m show "publishing s d4" using caps_only_frame [OF m(2)] by (simp add: publishing_def)
  show "capability_id_set d4 \<subseteq> set (concat (map tool_ids (pub_tool_list result ids))) \<union> capability_id_set d"
  proof -
    have "map cap_id (capabilities d4) = map cap_id (capabilities d3)" by (simp add: m(3) unavailable_def)
    then have "cap_id ` set (capabilities d4) = cap_id ` set (capabilities d3)" by (metis list.set_map)
    with r(3) m(4) show ?thesis by (simp add: capability_id_set_def)
  qed
qed

text \<open>The state after a publication, table by table.\<close>

lemma publication_tables:
  assumes ok: "publish_success ext ctx lease result ids clock d = Inr (s, d')" "reg_tables_ok d" "publication_fresh result ids d"
  obtains j c d2 d3 where "j \<in> set (refresh_jobs d)" and "lease_matches ctx lease j" and "refresh_unexpired (clock 0) j"
    and "eligible_for ctx lease d = Inr c" and "published_from s d d2"
    and "snap_id s = pub_snapshot ids" and "snap_workspace_id s = ctx_workspace_id ctx"
    and "snap_connection_id s = rl_connection_id lease" and "snap_connection_version_id s = rl_connection_version_id lease"
    and "snap_generation s = rl_generation lease"
    and "fold_res (publish_tool ext ctx lease (dr_protocol_revision result) (snap_id s)) (pub_tool_list result ids) d2 = Inr d3"
    and "connections d' = rows_put conn_id (refreshed c (rl_connection_version_id lease) (snap_id s) (clock 1)) (connections d)"
    and "refresh_jobs d' = rows_put drj_id (ended_refresh_job RefreshJobStatus.SUCCEEDED j) (refresh_jobs d)"
    and "snapshots d' = snapshots d @ [s]" and "connection_versions d' = connection_versions d"
    and "\<And>d4. d4 = mark_missing_unavailable ctx (rl_connection_id lease) (map tool_identity (dr_tools result)) d3 \<Longrightarrow>
      capabilities d' = capabilities d4 \<and> capability_versions d' = capability_versions d4 \<and> tool_bindings d' = tool_bindings d4
      \<and> status_events d' = status_events d4 \<and> snapshot_capabilities d' = snapshot_capabilities d4"
  using ok(1)
proof (rule publish_success_Inr)
  fix j c d2 d3 d5 and c5 :: ServerConnection
  let ?d4 = "mark_missing_unavailable ctx (rl_connection_id lease) (map tool_identity (dr_tools result)) d3"
  let ?c6 = "c5\<lparr>conn_current_snapshot_id := Some (snap_id s), conn_last_refresh_error_code := None,
         conn_last_refresh_at := Some (clock 1)\<rparr>"
  assume j: "j \<in> set (refresh_jobs d)" "lease_matches ctx lease j" "refresh_unexpired (clock 0) j"
    and c: "eligible_for ctx lease d = Inr c" and d2: "published_from s d d2"
    and s: "snap_id s = pub_snapshot ids" "snap_workspace_id s = ctx_workspace_id ctx"
      "snap_connection_id s = rl_connection_id lease" "snap_connection_version_id s = rl_connection_version_id lease"
      "snap_generation s = rl_generation lease"
    and d3: "fold_res (publish_tool ext ctx lease (dr_protocol_revision result) (snap_id s)) (pub_tool_list result ids) d2 = Inr d3"
    and c5: "(if conn_pending_version_id c \<noteq> None
          then promote_pending ctx (rl_connection_id lease) (rl_connection_version_id lease)
                    (rl_control_epoch lease) (rl_generation lease) None (pub_correlation ids) ?d4
          else complete_refresh ctx (rl_connection_id lease) (rl_connection_version_id lease)
                    (rl_control_epoch lease) (rl_generation lease) ?d4) = Inr (c5, d5)"
    and d': "d' = put_refresh_job (ended_refresh_job RefreshJobStatus.SUCCEEDED j) (put_connection ?c6 d5)"
  note t2 = published_from_frame [OF d2]
  note f = caps_only_frame [OF publication_capabilities(2) [OF ok(2) d2 ok(3) d3 s(2-4)]]
  have sc: "scoped_connection (rl_connection_id lease) (ctx_workspace_id ctx) ?d4 = Some c"
    using c scoped_connection_cong [of ?d4 d] f(1) t2(1) by (simp add: lock_eligible_connection_Inr)
  note c5' = end_refresh_Inr(1) [OF c5 sc] and d5 = end_refresh_Inr(2) [OF c5 sc]
  have c6: "?c6 = refreshed c (rl_connection_version_id lease) (snap_id s) (clock 1)" by (simp add: refreshed_def c5')
  have "connections d' = rows_put conn_id ?c6 (connections d)"
    using d5 f(1) t2(1) by (auto simp: d' put_refresh_job_def put_connection_def rows_put_put)
  with that [OF j c d2 s d3] d5 f t2 c6 show thesis
    by (auto simp: d' put_refresh_job_def put_connection_def)
qed

lemma refreshed_ok:
  assumes "conn_ok c" and "conn_target c = Some v"
  shows "conn_ok (refreshed c v s now)"
  using assms by (auto simp: conn_ok_def connection_check_def refreshed_def no_allocation_def split: if_splits)

lemma refreshed_same [simp]:
  "conn_id (refreshed c v s now) = conn_id c"
  "conn_workspace_id (refreshed c v s now) = conn_workspace_id c"
  "conn_refresh_generation (refreshed c v s now) = conn_refresh_generation c"
  "conn_allocated_control_epoch (refreshed c v s now) = None"
  "conn_current_snapshot_id (refreshed c v s now) = Some s"
  "conn_lifecycle (refreshed c v s now) = ACTIVE"
  "conn_pending_version_id (refreshed c v s now) = None"
  "conn_verified_version_id (refreshed c v s now) = Some v"
  "conn_control_epoch (refreshed c v s now) = conn_control_epoch c"
  by (simp_all add: refreshed_def no_allocation_def)

lemma publish_success_ok:
  assumes "publish_success ext ctx lease result ids clock d = Inr (s, d')" and ok: "reg_tables_ok d"
    and fresh: "publication_fresh result ids d"
  shows "reg_tables_ok d'"
proof (rule publication_tables [OF assms])
  fix j c d2 d3
  let ?d4 = "mark_missing_unavailable ctx (rl_connection_id lease) (map tool_identity (dr_tools result)) d3"
  let ?c = "refreshed c (rl_connection_version_id lease) (snap_id s) (clock 1)"
  assume j: "j \<in> set (refresh_jobs d)" "lease_matches ctx lease j"
    and c: "eligible_for ctx lease d = Inr c" and d2: "published_from s d d2"
    and s: "snap_id s = pub_snapshot ids" "snap_workspace_id s = ctx_workspace_id ctx"
      "snap_connection_id s = rl_connection_id lease" "snap_connection_version_id s = rl_connection_version_id lease"
      "snap_generation s = rl_generation lease"
    and d3: "fold_res (publish_tool ext ctx lease (dr_protocol_revision result) (snap_id s)) (pub_tool_list result ids) d2 = Inr d3"
    and t: "connections d' = rows_put conn_id ?c (connections d)"
      "refresh_jobs d' = rows_put drj_id (ended_refresh_job RefreshJobStatus.SUCCEEDED j) (refresh_jobs d)"
      "snapshots d' = snapshots d @ [s]" "connection_versions d' = connection_versions d"
    and "\<And>d4. d4 = ?d4 \<Longrightarrow> capabilities d' = capabilities d4 \<and> capability_versions d' = capability_versions d4
      \<and> tool_bindings d' = tool_bindings d4 \<and> status_events d' = status_events d4
      \<and> snapshot_capabilities d' = snapshot_capabilities d4"
  then have t4: "capabilities d' = capabilities ?d4" "capability_versions d' = capability_versions ?d4"
    "tool_bindings d' = tool_bindings ?d4" "status_events d' = status_events ?d4"
    "snapshot_capabilities d' = snapshot_capabilities ?d4" by blast+
  have el: "scoped_connection (rl_connection_id lease) (ctx_workspace_id ctx) d = Some c"
    "conn_target c = Some (rl_connection_version_id lease)"
    "allocation_is (rl_connection_version_id lease) (rl_control_epoch lease) (rl_generation lease) c"
    using c by (simp_all add: lock_eligible_connection_Inr)
  note r = reg_ok_conn [OF ok el(1)] and p = publication_capabilities(1,2) [OF ok d2 fresh d3 s(2-4)]
    and e = ended_job_moves [OF ok j, of RefreshJobStatus.SUCCEEDED]
  have inv: "conns_inv (connections d)" "snaps_inv (connections d) (snapshots d)" "vers_inv (connections d) (connection_versions d)"
    using ok by (auto simp: reg_tables_ok_def)
  have alloc: "conn_allocated_control_epoch c \<noteq> None" "conn_refresh_generation c = rl_generation lease"
    using el(3) by (auto simp: allocation_is_def)
  then have pos: "0 < conn_refresh_generation c" using r(4) by (auto simp: conn_ok_def connection_check_def split: if_splits)
  have "conns_inv (connections d')" unfolding t by (rule conns_inv_put [OF inv(1) refreshed_ok [OF r(4) el(2)]])
  moreover have "jobs_inv (connections d') (refresh_jobs d')"
    unfolding t using e j(2) r(2) job_of_the [OF r(6,7,1) j(1)]
    by (intro put_job_inv [OF r(6,7,1) j(1)]) (auto simp: job_moves_def lease_matches_def)
  moreover have "snaps_inv (connections d') (snapshots d')"
    unfolding t using fresh s alloc pos r(2,3)
    by (intro snaps_inv_publish [OF inv(2) r(7,1)]) (simp_all add: publication_fresh_def)
  moreover have "vers_inv (connections d') (connection_versions d')"
    unfolding t using r(5) el(2)
    by (intro vers_inv_put [OF inv(3) r(1) _ _ _ r(7)]) (auto simp: conn_target_def split: option.splits)
  moreover have "capconn_inv (connections d') (capabilities d')"
  proof -
    have "connections ?d4 = connections d" using caps_only_frame(1) [OF p(2)] published_from_frame(1) [OF d2] by simp
    then have "capconn_inv (connections d) (capabilities d')" using p(1) t4(1) by (simp add: publishing_def)
    then show ?thesis unfolding t using owns_put [OF r(7,1), of ?c] by (simp add: capconn_inv_def)
  qed
  moreover have "snapshots ?d4 = snapshots d'"
    using caps_only_frame(3) [OF p(2)] t(3) published_from_frame(3) [OF d2] by simp
  ultimately show ?thesis using p(1) t4 by (simp add: reg_tables_ok_def publishing_def caps_ok_def)
qed

end
