(* ===== verification/Reg_Machine.thy ===== *)
theory Reg_Machine
  imports Reg_Publish
begin

text \<open>
  The registry as a transition system. A step is one call of an operation by the API or the refresh
  worker that commits, with freshly drawn identifiers, or a change that other components make to
  their own tables. The invariant says that all registry tables are well formed and that every
  identifier in them was drawn before.
\<close>

section \<open>Decisions\<close>

lemma scoped_capability_Some:
  "scoped_capability i w d = Some c \<Longrightarrow> c \<in> set (capabilities d) \<and> cap_id c = i \<and> cap_workspace_id c = w"
  by (auto simp: scoped_capability_def dest: first_row_filter_Some)

lemma capability_enable_Inr:
  assumes "capability_enable ctx i v corr fresh d = Inr (c', d')"
  obtains c where "c \<in> set (capabilities d)" and "cap_id c = i" and "cap_workspace_id c = ctx_workspace_id ctx"
    and "decision_version c = Some v" and "cap_status c \<noteq> ENABLED"
    and "d' = capability_audit ctx CAPABILITY_ENABLED (cap_id c) corr fresh
      (revise_capability ctx (c\<lparr>cap_enabled_version_id := Some v, cap_pending_version_id := None, cap_status := ENABLED\<rparr>) (Some v) d)"
    and "c' = c\<lparr>cap_enabled_version_id := Some v, cap_pending_version_id := None, cap_status := ENABLED,
      cap_status_epoch := Suc (cap_status_epoch c)\<rparr>"
  using assms that
  by (auto simp: capability_enable_def and_then_Inr locked_capability_def Let_def split: if_splits option.splits
      dest!: scoped_capability_Some)

lemma capability_disable_Inr:
  assumes "capability_disable ctx i v corr fresh d = Inr (c', d')"
  obtains c where "c \<in> set (capabilities d)" and "cap_id c = i" and "cap_workspace_id c = ctx_workspace_id ctx"
    and "decision_version c = Some v" and "cap_status c \<noteq> CapabilityStatus.DISABLED"
    and "d' = capability_audit ctx CAPABILITY_DISABLED (cap_id c) corr fresh
      (revise_capability ctx (c\<lparr>cap_status := CapabilityStatus.DISABLED\<rparr>) (Some v) d)"
    and "c' = c\<lparr>cap_status := CapabilityStatus.DISABLED, cap_status_epoch := Suc (cap_status_epoch c)\<rparr>"
  using assms that
  by (auto simp: capability_disable_def and_then_Inr locked_capability_def Let_def split: if_splits option.splits
      dest!: scoped_capability_Some)

text \<open>A decision rewrites one capability in place.\<close>

lemma decision_ok:
  assumes ok: "reg_tables_ok d" "c \<in> set (capabilities d)"
    and c': "cap_id c' = cap_id c" "cap_slot c' = cap_slot c" "cap_workspace_id c' = cap_workspace_id c"
      "cap_status_epoch c' = cap_status_epoch c" "capability_check c'" "decision_version c' = Some v"
      "cap_pointers c' (capability_versions d)"
  shows "reg_tables_ok (revise_capability ctx c' (Some v) d)"
proof -
  let ?d = "revise_capability ctx c' (Some v) d"
  have "caps_ok d" using ok(1) by (simp add: reg_tables_ok_def caps_ok_def)
  from revise_capability_ok [OF this ok(2) c'(1-6) _ c'(7)] have caps: "caps_ok ?d" by simp
  have "capconn_inv (connections d) (capabilities ?d)"
    using ok c'(1-3) by (auto simp: reg_tables_ok_def capconn_inv_def revise_capability_tables rows_put_mem cap_slot_def)
  with caps ok(1) show ?thesis
    using caps_only_frame [OF revise_capability_tables(5) [of d ctx c' "Some v"]]
    by (simp add: reg_tables_ok_def caps_ok_def revise_capability_tables)
qed

lemma cap_of_ok:
  assumes "reg_tables_ok d" and "c \<in> set (capabilities d)"
  shows "capability_check c" and "cap_pointers c (capability_versions d)" and "history_ok c (status_events d)"
  using assms by (auto simp: reg_tables_ok_def caps_inv_def cap_ok_def)

lemma capability_enable_ok:
  assumes "capability_enable ctx i v corr fresh d = Inr (c', d')" and "reg_tables_ok d"
  shows "reg_tables_ok d'"
  using assms(1)
proof (rule capability_enable_Inr)
  fix c assume c: "c \<in> set (capabilities d)" "decision_version c = Some v"
    and d': "d' = capability_audit ctx CAPABILITY_ENABLED (cap_id c) corr fresh
      (revise_capability ctx (c\<lparr>cap_enabled_version_id := Some v, cap_pending_version_id := None, cap_status := ENABLED\<rparr>) (Some v) d)"
  note ok = cap_of_ok [OF assms(2) c(1)]
  have "cap_pointers (c\<lparr>cap_enabled_version_id := Some v, cap_pending_version_id := None, cap_status := ENABLED\<rparr>) (capability_versions d)"
    using ok(2) c(2) by (auto simp: cap_pointers_def decision_version_def split: option.splits)
  then show ?thesis
    unfolding d' reg_ok_audit
    by (intro decision_ok [OF assms(2) c(1)]) (simp_all add: cap_slot_def capability_check_def decision_version_def)
qed

lemma capability_disable_ok:
  assumes "capability_disable ctx i v corr fresh d = Inr (c', d')" and "reg_tables_ok d"
  shows "reg_tables_ok d'"
  using assms(1)
proof (rule capability_disable_Inr)
  fix c assume c: "c \<in> set (capabilities d)" "decision_version c = Some v"
    and d': "d' = capability_audit ctx CAPABILITY_DISABLED (cap_id c) corr fresh
      (revise_capability ctx (c\<lparr>cap_status := CapabilityStatus.DISABLED\<rparr>) (Some v) d)"
  note ok = cap_of_ok [OF assms(2) c(1)]
  show ?thesis
    unfolding d' reg_ok_audit using ok c
    by (intro decision_ok [OF assms(2) c(1)]) (simp_all add: cap_slot_def capability_check_def cap_pointers_def)
qed

section \<open>Identifiers\<close>

definition reg_ids :: "db \<Rightarrow> uuid set" where
  "reg_ids d = conn_id ` set (connections d) \<union> scv_id ` set (connection_versions d) \<union> drj_id ` set (refresh_jobs d)
     \<union> snap_id ` set (snapshots d) \<union> capability_id_set d"

lemma put_ids: "key ` set (rows_put key r rows) = key ` set rows"
  by (metis list.set_map map_key_rows_put)

lemma obsolete_ids:
  "drj_id ` set (refresh_jobs (obsolete_refresh_jobs ctx i d)) = drj_id ` set (refresh_jobs d)"
proof -
  have "map drj_id (refresh_jobs (obsolete_refresh_jobs ctx i d)) = map drj_id (refresh_jobs d)"
    by (simp add: obsolete_refresh_jobs_def obsolete_job_def)
  then show ?thesis by (metis list.set_map)
qed

lemma reg_ids_change [simp]:
  "reg_ids (put_connection c d) = reg_ids d"
  "reg_ids (put_refresh_job j d) = reg_ids d"
  "reg_ids (obsolete_refresh_jobs ctx i d) = reg_ids d"
  "reg_ids (connection_audit ctx a i corr fresh d) = reg_ids d"
  "reg_ids (capability_audit ctx a i corr fresh d) = reg_ids d"
  "reg_ids (revise_capability ctx cap v d) = reg_ids d"
proof -
  show "reg_ids (obsolete_refresh_jobs ctx i d) = reg_ids d"
    unfolding reg_ids_def obsolete_ids by (simp add: obsolete_refresh_jobs_def capability_id_set_def)
qed (simp_all add: reg_ids_def capability_id_set_def put_connection_def put_refresh_job_def connection_audit_def
    capability_audit_def add_audit_def put_ids revise_capability_def append_status_event_def put_capability_def Let_def)

lemma connection_create_ids:
  "connection_create ext cfg ctx name rq ids d = Inr (c, d') \<Longrightarrow>
     reg_ids d' = {fresh_connection ids, fresh_version ids} \<union> reg_ids d"
  by (erule connection_create_Inr) (auto simp: reg_ids_def capability_id_set_def connection_audit_def add_audit_def new_connection_version_def)

lemma append_version_ids:
  assumes "append_version ext cfg ctx i rq ids d = Inr (v, d')"
  shows "reg_ids d' = insert (fresh_version ids) (reg_ids d)"
proof (rule append_version_Inr [OF assms])
  fix c assume "v = new_connection_version ctx (fresh_version ids) (conn_id c)
           (next_sequence (map scv_sequence (filter (\<lambda>v. scv_connection_id v = conn_id c) (connection_versions d)))) rq"
    and "d' = connection_audit ctx CONNECTION_VERSION_APPENDED (conn_id c) (crq_correlation_id rq) (fresh_correlation ids)
           (obsolete_refresh_jobs ctx (conn_id c) (put_connection (no_allocation (c\<lparr>conn_pending_version_id := Some (scv_id v),
              conn_lifecycle := VERIFYING, conn_control_epoch := conn_control_epoch c + 1\<rparr>))
             (d\<lparr>connection_versions := connection_versions d @ [v]\<rparr>)))"
  then have "reg_ids d' = reg_ids (d\<lparr>connection_versions := connection_versions d @ [v]\<rparr>)" "scv_id v = fresh_version ids"
    by (simp_all add: new_connection_version_def)
  then show ?thesis by (auto simp: reg_ids_def capability_id_set_def)
qed

lemma enqueue_ids:
  assumes "enqueue ctx i fresh d = Inr (j, d')"
  shows "reg_ids d' = insert fresh (reg_ids d)"
proof (rule enqueue_Inr [OF assms])
  fix c target
  let ?d = "obsolete_refresh_jobs ctx i (put_connection (allocated c target) d)"
  assume "j = queued_job ctx fresh c target" "d' = ?d\<lparr>refresh_jobs := refresh_jobs ?d @ [j]\<rparr>"
  then have "reg_ids d' = insert fresh (reg_ids ?d)" by (auto simp: reg_ids_def capability_id_set_def queued_job_def)
  then show ?thesis by simp
qed

definition publication_draw :: "DiscoveryResult \<Rightarrow> publication_ids \<Rightarrow> uuid list" where
  "publication_draw result ids = pub_snapshot ids # concat (map tool_ids (pub_tool_list result ids))"

lemma publication_draw_fresh:
  assumes "distinct (publication_draw result ids)" and "set (publication_draw result ids) \<inter> drawn = {}"
    and "distinct (map tool_identity (dr_tools result))" and "reg_ids d \<subseteq> drawn"
  shows "publication_fresh result ids d"
  using assms by (auto simp: publication_fresh_def publication_draw_def reg_ids_def)

lemma publish_success_ids:
  assumes "publish_success ext ctx lease result ids clock d = Inr (s, d')" and "reg_tables_ok d"
    and "publication_fresh result ids d"
  shows "reg_ids d' \<subseteq> set (publication_draw result ids) \<union> reg_ids d"
proof (rule publication_tables [OF assms])
  fix j c d2 d3
  let ?d4 = "mark_missing_unavailable ctx (rl_connection_id lease) (map tool_identity (dr_tools result)) d3"
  assume d2: "published_from s d d2" and s: "snap_id s = pub_snapshot ids" "snap_workspace_id s = ctx_workspace_id ctx"
      "snap_connection_id s = rl_connection_id lease" "snap_connection_version_id s = rl_connection_version_id lease"
    and d3: "fold_res (publish_tool ext ctx lease (dr_protocol_revision result) (snap_id s)) (pub_tool_list result ids) d2 = Inr d3"
    and t: "connections d' = rows_put conn_id (refreshed c (rl_connection_version_id lease) (snap_id s) (clock 1)) (connections d)"
      "refresh_jobs d' = rows_put drj_id (ended_refresh_job RefreshJobStatus.SUCCEEDED j) (refresh_jobs d)"
      "snapshots d' = snapshots d @ [s]" "connection_versions d' = connection_versions d"
    and t4: "\<And>d4. d4 = ?d4 \<Longrightarrow> capabilities d' = capabilities d4 \<and> capability_versions d' = capability_versions d4
      \<and> tool_bindings d' = tool_bindings d4 \<and> status_events d' = status_events d4
      \<and> snapshot_capabilities d' = snapshot_capabilities d4"
  have "capability_id_set d' = capability_id_set ?d4" using t4 [OF refl] by (simp add: capability_id_set_def)
  then have "capability_id_set d' \<subseteq> set (concat (map tool_ids (pub_tool_list result ids))) \<union> capability_id_set d"
    using publication_capabilities(4) [OF assms(2) d2 assms(3) d3 s(2-4)] by simp
  then show ?thesis unfolding reg_ids_def t put_ids using s(1) by (auto simp: publication_draw_def)
qed

section \<open>Steps\<close>

definition reg_tables_same :: "db \<Rightarrow> db \<Rightarrow> bool" where
  "reg_tables_same d d' \<longleftrightarrow> connections d' = connections d \<and> connection_versions d' = connection_versions d
     \<and> refresh_jobs d' = refresh_jobs d \<and> snapshots d' = snapshots d \<and> capabilities d' = capabilities d
     \<and> capability_versions d' = capability_versions d \<and> tool_bindings d' = tool_bindings d
     \<and> status_events d' = status_events d \<and> snapshot_capabilities d' = snapshot_capabilities d"

text \<open>The tools of a discovery result have different identities: the adapter rejects a listing that
  repeats a tool name.\<close>

inductive reg_step :: "db \<times> uuid set \<Rightarrow> db \<times> uuid set \<Rightarrow> bool" where
  create: "connection_create ext cfg ctx name rq ids d = Inr (c, d') \<Longrightarrow>
    fresh_connection ids \<notin> drawn \<Longrightarrow> fresh_version ids \<notin> drawn \<Longrightarrow>
    reg_step (d, drawn) (d', {fresh_connection ids, fresh_version ids} \<union> drawn)"
| append: "append_version ext cfg ctx i rq ids d = Inr (v, d') \<Longrightarrow> fresh_version ids \<notin> drawn \<Longrightarrow>
    reg_step (d, drawn) (d', insert (fresh_version ids) drawn)"
| disable: "connection_disable ctx i corr fresh d = Inr (c, d') \<Longrightarrow> reg_step (d, drawn) (d', drawn)"
| enable: "connection_enable ctx i corr fresh d = Inr (c, d') \<Longrightarrow> reg_step (d, drawn) (d', drawn)"
| enqueue: "enqueue ctx i fresh d = Inr (j, d') \<Longrightarrow> fresh \<notin> drawn \<Longrightarrow> reg_step (d, drawn) (d', insert fresh drawn)"
| claim: "refresh_claim ctx i worker dur clock d = Inr (lease, d') \<Longrightarrow> reg_step (d, drawn) (d', drawn)"
| renew: "renew ctx lease dur clock d = Inr (lease', d') \<Longrightarrow> reg_step (d, drawn) (d', drawn)"
| publish: "publish_success ext ctx lease result ids clock d = Inr (s, d') \<Longrightarrow>
    distinct (map tool_identity (dr_tools result)) \<Longrightarrow> distinct (publication_draw result ids) \<Longrightarrow>
    set (publication_draw result ids) \<inter> drawn = {} \<Longrightarrow>
    reg_step (d, drawn) (d', set (publication_draw result ids) \<union> drawn)"
| fail: "publish_failure ctx lease code clock d = Inr (c, d') \<Longrightarrow> reg_step (d, drawn) (d', drawn)"
| enable_capability: "capability_enable ctx i v corr fresh d = Inr (cap, d') \<Longrightarrow> reg_step (d, drawn) (d', drawn)"
| disable_capability: "capability_disable ctx i v corr fresh d = Inr (cap, d') \<Longrightarrow> reg_step (d, drawn) (d', drawn)"
| environment: "reg_tables_same d d' \<Longrightarrow> reg_step (d, drawn) (d', drawn)"

inductive_cases reg_stepE: "reg_step (d, drawn) (d', drawn')"

definition reg_init :: "db \<times> uuid set \<Rightarrow> bool" where
  "reg_init = (\<lambda>(d, drawn). connections d = [] \<and> connection_versions d = [] \<and> refresh_jobs d = [] \<and> snapshots d = []
     \<and> capabilities d = [] \<and> capability_versions d = [] \<and> tool_bindings d = [] \<and> status_events d = []
     \<and> snapshot_capabilities d = [])"

definition reg_inv :: "db \<times> uuid set \<Rightarrow> bool" where
  "reg_inv = (\<lambda>(d, drawn). reg_tables_ok d \<and> reg_ids d \<subseteq> drawn)"

lemma reg_init_inv: "reg_init s \<Longrightarrow> reg_inv s"
  by (cases s) (auto simp: reg_init_def reg_inv_def reg_tables_ok_def conns_inv_def jobs_inv_def snaps_inv_def vers_inv_def
      caps_inv_def binds_inv_def obs_inv_def capconn_inv_def reg_ids_def capability_id_set_def)

lemma reg_tables_same_ok:
  "reg_tables_same d d' \<Longrightarrow> reg_tables_ok d' = reg_tables_ok d"
  "reg_tables_same d d' \<Longrightarrow> reg_ids d' = reg_ids d"
  by (simp_all add: reg_tables_same_def reg_tables_ok_def reg_ids_def capability_id_set_def)

lemma unused_ids:
  assumes "reg_ids d \<subseteq> drawn" and "i \<notin> drawn"
  shows "i \<notin> conn_id ` set (connections d)" "i \<notin> scv_id ` set (connection_versions d)" "i \<notin> drj_id ` set (refresh_jobs d)"
  using assms by (auto simp: reg_ids_def)

lemma reg_step_inv:
  assumes "reg_step s s'" and "reg_inv s"
  shows "reg_inv s'"
  using assms
proof (induction rule: reg_step.induct)
  case (create ext cfg ctx name rq ids d c d' drawn)
  then show ?case
    using connection_create_ok [OF create(1)] connection_create_ids [OF create(1)] unused_ids [of d drawn]
    by (auto simp: reg_inv_def)
next
  case (append ext cfg ctx i rq ids d v d' drawn)
  then show ?case
    using append_version_ok [OF append(1)] append_version_ids [OF append(1)] unused_ids [of d drawn]
    by (auto simp: reg_inv_def)
next
  case (disable ctx i corr fresh d c d' drawn)
  have "reg_ids d' = reg_ids d" using disable(1) by (rule connection_disable_Inr) simp
  with disable show ?case using connection_disable_ok [OF disable(1)] by (simp add: reg_inv_def)
next
  case (enable ctx i corr fresh d c d' drawn)
  have "reg_ids d' = reg_ids d" using enable(1) by (rule connection_enable_Inr) simp
  with enable show ?case using connection_enable_ok [OF enable(1)] by (simp add: reg_inv_def)
next
  case (enqueue ctx i fresh d j d' drawn)
  then show ?case
    using enqueue_ok [OF enqueue(1)] enqueue_ids [OF enqueue(1)] unused_ids [of d drawn] by (auto simp: reg_inv_def)
next
  case (claim ctx i worker dur clock d lease d' drawn)
  have "reg_ids d' = reg_ids d" using claim(1) by (rule refresh_claim_Inr) simp
  with claim show ?case using refresh_claim_ok [OF claim(1)] by (simp add: reg_inv_def)
next
  case (renew ctx lease dur clock d lease' d' drawn)
  have "reg_ids d' = reg_ids d" using renew(1) by (rule renew_Inr) simp
  with renew show ?case using renew_ok [OF renew(1)] by (simp add: reg_inv_def)
next
  case (publish ext ctx lease result ids clock d s d' drawn)
  have ok: "reg_tables_ok d" "reg_ids d \<subseteq> drawn" using publish(5) by (auto simp: reg_inv_def)
  note fresh = publication_draw_fresh [OF publish(3,4,2) ok(2)]
  show ?case
    using publish_success_ok [OF publish(1) ok(1) fresh] publish_success_ids [OF publish(1) ok(1) fresh] ok(2)
    by (auto simp: reg_inv_def)
next
  case (fail ctx lease code clock d c d' drawn)
  have "reg_ids d' = reg_ids d" using fail(1) by (rule publish_failure_Inr) simp
  with fail show ?case using publish_failure_ok [OF fail(1)] by (simp add: reg_inv_def)
next
  case (enable_capability ctx i v corr fresh d cap d' drawn)
  have "reg_ids d' = reg_ids d" using enable_capability(1) by (rule capability_enable_Inr) simp
  with enable_capability show ?case using capability_enable_ok [OF enable_capability(1)] by (simp add: reg_inv_def)
next
  case (disable_capability ctx i v corr fresh d cap d' drawn)
  have "reg_ids d' = reg_ids d" using disable_capability(1) by (rule capability_disable_Inr) simp
  with disable_capability show ?case using capability_disable_ok [OF disable_capability(1)] by (simp add: reg_inv_def)
next
  case (environment d d' drawn)
  then show ?case by (simp add: reg_inv_def reg_tables_same_ok)
qed

interpretation registry: machine reg_init reg_step reg_inv
  by unfold_locales (rule reg_init_inv, assumption, rule reg_step_inv, assumption+)

end
