(* ===== verification/Reg_Track.thy ===== *)
theory Reg_Track
  imports Reg_Machine
begin

text \<open>
  How the rows of the registry move from step to step: what a step may do to a connection and to a
  capability, and that epochs never come back.
\<close>

section \<open>Capabilities\<close>

definition decided :: "db \<Rightarrow> Capability \<Rightarrow> Capability \<Rightarrow> db \<Rightarrow> bool" where
  "decided d c c' d' \<longleftrightarrow>
     (\<exists>ctx v corr fresh. capability_enable ctx (cap_id c) v corr fresh d = Inr (c', d'))
     \<or> (\<exists>ctx v corr fresh. capability_disable ctx (cap_id c) v corr fresh d = Inr (c', d'))"

lemma observed_unavailable: "cap_status c \<noteq> CapabilityStatus.DISABLED \<Longrightarrow> observed_change c (unavailable c)"
  by (simp add: observed_change_def unavailable_def cap_slot_def)

lemma publication_observed:
  assumes "publish_success ext ctx lease result ids clock d = Inr (s, d')" and "reg_tables_ok d"
    and "publication_fresh result ids d" and "c \<in> set (capabilities d)"
  obtains c' where "c' \<in> set (capabilities d')" and "observed_change c c'"
proof (rule publication_tables [OF assms(1-3)])
  fix j b d2 d3
  let ?d4 = "mark_missing_unavailable ctx (rl_connection_id lease) (map tool_identity (dr_tools result)) d3"
  assume d2: "published_from s d d2" and s: "snap_workspace_id s = ctx_workspace_id ctx"
      "snap_connection_id s = rl_connection_id lease" "snap_connection_version_id s = rl_connection_version_id lease"
    and d3: "fold_res (publish_tool ext ctx lease (dr_protocol_revision result) (snap_id s)) (pub_tool_list result ids) d2 = Inr d3"
    and "\<And>d4. d4 = ?d4 \<Longrightarrow> capabilities d' = capabilities d4 \<and> capability_versions d' = capability_versions d4
      \<and> tool_bindings d' = tool_bindings d4 \<and> status_events d' = status_events d4
      \<and> snapshot_capabilities d' = snapshot_capabilities d4"
  then have t4: "capabilities d' = capabilities ?d4" by blast
  note p = publication_capabilities [OF assms(2) d2 assms(3) d3 s]
  have "c \<in> set (capabilities d2)" using assms(4) published_from_frame(5) [OF d2] by simp
  then obtain c3 where c3: "c3 \<in> set (capabilities d3)" "observed_change c c3"
    using p(3) unfolding tools_recorded_def by blast
  show thesis
  proof (cases "unavailable c3 \<in> set (capabilities d') \<and> cap_status c3 \<noteq> CapabilityStatus.DISABLED")
    case True
    then show thesis using that observed_change_trans [OF c3(2) observed_unavailable] by blast
  next
    case False
    then have "c3 \<in> set (capabilities d')" using c3(1) unfolding t4 p(5) by (force split: if_splits)
    then show thesis using that c3(2) by blast
  qed
qed

lemma revised_capability_in:
  assumes "c \<in> set (capabilities d)" and "b \<in> set (capabilities d)" and "cap_id c' = cap_id b"
    and "distinct (map cap_id (capabilities d))"
  shows "if c = b then c'\<lparr>cap_status_epoch := Suc (cap_status_epoch c')\<rparr> \<in> set (capabilities (revise_capability ctx c' v d))
         else c \<in> set (capabilities (revise_capability ctx c' v d))"
  using assms distinct_key_eq [OF assms(4,1,2)] unfolding revise_capability_tables rows_put_mem by auto

lemma audit_capabilities [simp]:
  "capabilities (capability_audit ctx a i corr fresh d) = capabilities d"
  "capabilities (connection_audit ctx a i corr fresh d) = capabilities d"
  "connections (capability_audit ctx a i corr fresh d) = connections d"
  "connections (connection_audit ctx a i corr fresh d) = connections d"
  "capabilities (obsolete_refresh_jobs ctx i d) = capabilities d"
  "connections (obsolete_refresh_jobs ctx i d) = connections d"
  "capabilities (put_connection c d) = capabilities d"
  "capabilities (put_refresh_job j d) = capabilities d"
  "connections (put_refresh_job j d) = connections d"
  by (simp_all add: capability_audit_def connection_audit_def add_audit_def obsolete_refresh_jobs_def put_connection_def
      put_refresh_job_def)

text \<open>A step observes a capability or is a decision on it.\<close>

lemma reg_step_capability:
  assumes "reg_step (d, drawn) (d', drawn')" and "reg_inv (d, drawn)" and c: "c \<in> set (capabilities d)"
  obtains c' where "c' \<in> set (capabilities d')"
    and "observed_change c c' \<or> (decided d c c' d' \<and> cap_id c' = cap_id c \<and> cap_workspace_id c' = cap_workspace_id c
           \<and> cap_slot c' = cap_slot c \<and> cap_status_epoch c' = Suc (cap_status_epoch c))"
proof -
  have ok: "reg_tables_ok d" "reg_ids d \<subseteq> drawn" using assms(2) by (simp_all add: reg_inv_def)
  then have dist: "distinct (map cap_id (capabilities d))" by (simp add: reg_tables_ok_def caps_inv_def)
  note result = that
  have same: thesis if "capabilities d' = capabilities d" using that result [of c] c by simp
  from assms(1) show thesis
  proof cases
    case (create ext cfg ctx name rq ids b)
    show thesis using create(2) by (rule connection_create_Inr) (use same in simp)
  next
    case (append ext cfg ctx i rq ids v)
    show thesis using append(2) by (rule append_version_Inr) (use same in simp)
  next
    case (disable ctx i corr fresh b)
    show thesis using disable(2) by (rule connection_disable_Inr) (use same in simp)
  next
    case (enable ctx i corr fresh b)
    show thesis using enable(2) by (rule connection_enable_Inr) (use same in simp)
  next
    case (enqueue ctx i fresh j)
    show thesis using enqueue(2) by (rule enqueue_Inr) (use same in simp)
  next
    case (claim ctx i worker dur clock lease)
    show thesis using claim(2) by (rule refresh_claim_Inr) (use same in simp)
  next
    case (renew ctx lease dur clock lease')
    show thesis using renew(2) by (rule renew_Inr) (use same in simp)
  next
    case (publish ext ctx lease result ids clock s)
    show thesis
      using publication_observed [OF publish(2) ok(1) publication_draw_fresh [OF publish(4,5,3) ok(2)] c] that by blast
  next
    case (fail ctx lease code clock b)
    show thesis using fail(2) by (rule publish_failure_Inr) (use same in simp)
  next
    case (enable_capability ctx i v corr fresh cap)
    show thesis
      using enable_capability(2)
    proof (rule capability_enable_Inr)
      fix b assume b: "b \<in> set (capabilities d)" "cap_id b = i"
        and d': "d' = capability_audit ctx CAPABILITY_ENABLED (cap_id b) corr fresh (revise_capability ctx
          (b\<lparr>cap_enabled_version_id := Some v, cap_pending_version_id := None, cap_status := ENABLED\<rparr>) (Some v) d)"
        and cap: "cap = b\<lparr>cap_enabled_version_id := Some v, cap_pending_version_id := None, cap_status := ENABLED,
          cap_status_epoch := Suc (cap_status_epoch b)\<rparr>"
      have "decided d b cap d'" unfolding decided_def using enable_capability(2) b(2) by blast
      then show thesis
        using revised_capability_in [OF c b(1) _ dist, of "b\<lparr>cap_enabled_version_id := Some v,
            cap_pending_version_id := None, cap_status := ENABLED\<rparr>" ctx "Some v"] cap d' result [of "if c = b then cap else c"]
        by (cases "c = b") (simp_all add: cap_slot_def)
    qed
  next
    case (disable_capability ctx i v corr fresh cap)
    show thesis
      using disable_capability(2)
    proof (rule capability_disable_Inr)
      fix b assume b: "b \<in> set (capabilities d)" "cap_id b = i"
        and d': "d' = capability_audit ctx CAPABILITY_DISABLED (cap_id b) corr fresh
          (revise_capability ctx (b\<lparr>cap_status := CapabilityStatus.DISABLED\<rparr>) (Some v) d)"
        and cap: "cap = b\<lparr>cap_status := CapabilityStatus.DISABLED, cap_status_epoch := Suc (cap_status_epoch b)\<rparr>"
      have "decided d b cap d'" unfolding decided_def using disable_capability(2) b(2) by blast
      then show thesis
        using revised_capability_in [OF c b(1) _ dist, of "b\<lparr>cap_status := CapabilityStatus.DISABLED\<rparr>" ctx "Some v"]
          cap d' result [of "if c = b then cap else c"]
        by (cases "c = b") (simp_all add: cap_slot_def)
    qed
  next
    case environment
    then show thesis using same by (simp add: reg_tables_same_def)
  qed
qed

section \<open>Connections\<close>

text \<open>Epochs and generations only grow, and within one control epoch the version a refresh is about stays
  the same.\<close>

definition conn_change :: "ServerConnection \<Rightarrow> ServerConnection \<Rightarrow> bool" where
  "conn_change c c' \<longleftrightarrow> conn_id c' = conn_id c \<and> conn_workspace_id c' = conn_workspace_id c
     \<and> conn_control_epoch c \<le> conn_control_epoch c' \<and> conn_refresh_generation c \<le> conn_refresh_generation c'
     \<and> (conn_control_epoch c' = conn_control_epoch c \<longrightarrow> conn_target c' = conn_target c)"

definition reopened :: "db \<Rightarrow> ServerConnection \<Rightarrow> ServerConnection \<Rightarrow> db \<Rightarrow> bool" where
  "reopened d c c' d' \<longleftrightarrow> (\<exists>ctx corr fresh. connection_enable ctx (conn_id c) corr fresh d = Inr (c', d'))"

lemma conn_change_refl [simp]: "conn_change c c"
  by (simp add: conn_change_def)

lemma put_conn_change:
  assumes "distinct (map conn_id cs)" and "b \<in> set cs" and "c \<in> set cs" and "conn_change b b'"
  shows "(if c = b then b' else c) \<in> set (rows_put conn_id b' cs) \<and> conn_change c (if c = b then b' else c)"
  using assms distinct_key_eq [OF assms(1,3,2)] by (auto simp: rows_put_mem conn_change_def)

lemma connections_put [simp]: "connections (put_connection c d) = rows_put conn_id c (connections d)"
  by (simp add: put_connection_def)

lemma allocated_change: "conn_change c (allocated c target)"
  by (simp add: conn_change_def allocated_def conn_target_def split: option.split)

lemma refreshed_change: "conn_target c = Some v \<Longrightarrow> conn_change c (refreshed c v s now)"
  by (simp add: conn_change_def conn_target_def split: option.split)

lemma reg_step_connection:
  assumes "reg_step (d, drawn) (d', drawn')" and "reg_inv (d, drawn)" and c: "c \<in> set (connections d)"
  obtains c' where "c' \<in> set (connections d')" and "conn_change c c'"
    and "conn_lifecycle c = ConnectionLifecycle.DISABLED \<Longrightarrow> conn_lifecycle c' = ConnectionLifecycle.DISABLED \<or> reopened d c c' d'"
proof -
  have ok: "reg_tables_ok d" "reg_ids d \<subseteq> drawn" using assms(2) by (simp_all add: reg_inv_def)
  then have dist: "distinct (map conn_id (connections d))" by (simp add: reg_tables_ok_def conns_inv_def)
  note result = that
  have same: thesis if "connections d' = connections d" using that result [of c] c by simp
  have put: thesis if "scoped_connection i w d = Some b" "connections d' = rows_put conn_id b' (connections d)"
      "conn_change b b'" "conn_lifecycle b = ConnectionLifecycle.DISABLED \<Longrightarrow> reopened d b b' d'" for b b' i w
    using put_conn_change [OF dist _ c that(3)] scoped_connection_Some [OF that(1)] that(2,4)
      result [of "if c = b then b' else c"] by (cases "c = b") auto
  from assms(1) show thesis
  proof cases
    case (create ext cfg ctx name rq ids b)
    show thesis using create(2) by (rule connection_create_Inr) (use result [of c] c in simp)
  next
    case (append ext cfg ctx i rq ids v)
    show thesis using append(2)
      by (rule append_version_Inr) (rule put, assumption, simp, simp_all add: conn_change_def no_allocation_def)
  next
    case (disable ctx i corr fresh b)
    show thesis using disable(2)
      by (rule connection_disable_Inr) (rule put, assumption, simp, simp_all add: conn_change_def no_allocation_def)
  next
    case (enable ctx i corr fresh b)
    show thesis
      using enable(2)
    proof (rule connection_enable_Inr)
      fix a assume a: "scoped_connection i (ctx_workspace_id ctx) d = Some a"
        and b: "b = no_allocation (a\<lparr>conn_lifecycle := VERIFYING, conn_control_epoch := conn_control_epoch a + 1\<rparr>)"
        and d': "d' = connection_audit ctx CONNECTION_ENABLED (conn_id a) corr fresh (put_connection b d)"
      have "reopened d a b d'" using enable(2) scoped_connection_Some [OF a] by (auto simp: reopened_def)
      then show thesis using a b d' by (intro put [OF a, of b]) (simp_all add: conn_change_def no_allocation_def)
    qed
  next
    case (enqueue ctx i fresh j)
    show thesis using enqueue(2) by (rule enqueue_Inr) (rule put, assumption, simp, simp_all add: allocated_change)
  next
    case (claim ctx i worker dur clock lease)
    show thesis using claim(2) by (rule refresh_claim_Inr) (use same in simp)
  next
    case (renew ctx lease dur clock lease')
    show thesis using renew(2) by (rule renew_Inr) (use same in simp)
  next
    case (publish ext ctx lease result ids clock s)
    show thesis
      using publish(2) ok(1) publication_draw_fresh [OF publish(4,5,3) ok(2)]
    proof (rule publication_tables)
      fix j b d2 d3 assume b: "eligible_for ctx lease d = Inr b"
        and d': "connections d' = rows_put conn_id (refreshed b (rl_connection_version_id lease) (snap_id s) (clock 1)) (connections d)"
      from b have "scoped_connection (rl_connection_id lease) (ctx_workspace_id ctx) d = Some b"
        "conn_target b = Some (rl_connection_version_id lease)" "conn_lifecycle b \<noteq> ConnectionLifecycle.DISABLED"
        by (simp_all add: lock_eligible_connection_Inr)
      from put [OF this(1) d' refreshed_change [OF this(2)]] this(3) show thesis by blast
    qed
  next
    case (fail ctx lease code clock b)
    show thesis using fail(2)
      by (rule publish_failure_Inr) (rule put, assumption, simp, simp_all add: conn_change_def no_allocation_def conn_target_def split: option.split)
  next
    case (enable_capability ctx i v corr fresh cap)
    show thesis using enable_capability(2)
      by (rule capability_enable_Inr) (use same caps_only_frame(1) [OF revise_capability_tables(5)] in simp)
  next
    case (disable_capability ctx i v corr fresh cap)
    show thesis using disable_capability(2)
      by (rule capability_disable_Inr) (use same caps_only_frame(1) [OF revise_capability_tables(5)] in simp)
  next
    case environment
    then show thesis using same by (simp add: reg_tables_same_def)
  qed
qed

section \<open>Epochs never come back\<close>

text \<open>A machine in which every key carries a counter that steps never lower: a counter value that has been
  passed is gone for ever. Runs pin such counters at admission.\<close>

locale epoch_guard = machine init step inv
  for init :: "'s \<Rightarrow> bool" and step :: "'s \<Rightarrow> 's \<Rightarrow> bool" and inv :: "'s \<Rightarrow> bool" +
  fixes epoch :: "'s \<Rightarrow> 'k \<Rightarrow> nat option"
  assumes epoch_mono: "inv s \<Longrightarrow> step s t \<Longrightarrow> epoch s k = Some n \<Longrightarrow> \<exists>m \<ge> n. epoch t k = Some m"
begin

lemma epochs_mono: "step\<^sup>*\<^sup>* s t \<Longrightarrow> inv s \<Longrightarrow> epoch s k = Some n \<Longrightarrow> \<exists>m \<ge> n. epoch t k = Some m"
proof (induction rule: rtranclp_induct)
  case (step t u)
  then obtain m where m: "n \<le> m" "epoch t k = Some m" by blast
  have "inv t" by (rule steps_inv [OF step(1,4)])
  from epoch_mono [OF this step(2) m(2)] m(1) show ?case using le_trans by blast
qed auto

lemma passed_epoch:
  assumes "step\<^sup>*\<^sup>* s t" and "inv s" and "epoch s k = Some n" and "p < n"
  shows "epoch t k \<noteq> Some p"
  using epochs_mono [OF assms(1-3)] assms(4) by auto

end

definition connection_epoch :: "db \<times> uuid set \<Rightarrow> uuid \<Rightarrow> nat option" where
  "connection_epoch s i = map_option conn_control_epoch (first_row (filter (\<lambda>c. conn_id c = i) (connections (fst s))))"

definition capability_epoch :: "db \<times> uuid set \<Rightarrow> uuid \<Rightarrow> nat option" where
  "capability_epoch s i = map_option cap_status_epoch (first_row (filter (\<lambda>c. cap_id c = i) (capabilities (fst s))))"

lemma first_row_key:
  assumes "distinct (map key rows)" and "r \<in> set rows" and "key r = k"
  shows "first_row (filter (\<lambda>x. key x = k) rows) = Some r"
  using distinct_map_filter_key [OF assms(1,2)] assms(3) by simp

lemma reg_inv_distinct:
  assumes "reg_inv (d, drawn)"
  shows "distinct (map conn_id (connections d))" "distinct (map cap_id (capabilities d))"
  using assms by (auto simp: reg_inv_def reg_tables_ok_def conns_inv_def caps_inv_def)

lemma connection_epoch_Some:
  assumes "reg_inv (d, drawn)"
  shows "connection_epoch (d, drawn) i = Some n \<longleftrightarrow> (\<exists>c \<in> set (connections d). conn_id c = i \<and> conn_control_epoch c = n)"
  using first_row_key [OF reg_inv_distinct(1) [OF assms]]
  by (auto simp: connection_epoch_def dest: first_row_filter_Some)

lemma capability_epoch_Some:
  assumes "reg_inv (d, drawn)"
  shows "capability_epoch (d, drawn) i = Some n \<longleftrightarrow> (\<exists>c \<in> set (capabilities d). cap_id c = i \<and> cap_status_epoch c = n)"
  using first_row_key [OF reg_inv_distinct(2) [OF assms]]
  by (auto simp: capability_epoch_def dest: first_row_filter_Some)

interpretation connection_guard: epoch_guard reg_init reg_step reg_inv connection_epoch
proof unfold_locales
  fix s t i n assume s: "reg_inv s" "reg_step s t" "connection_epoch s i = Some n"
  obtain d drawn d' drawn' where eq: "s = (d, drawn)" "t = (d', drawn')" by (cases s; cases t)
  have inv: "reg_inv (d, drawn)" "reg_inv (d', drawn')" using s eq reg_step_inv by auto
  obtain c where c: "c \<in> set (connections d)" "conn_id c = i" "conn_control_epoch c = n"
    using s(3) connection_epoch_Some [OF inv(1)] eq by auto
  obtain c' where "c' \<in> set (connections d')" "conn_change c c'"
    using reg_step_connection [OF _ inv(1) c(1), of d' drawn'] s(2) eq by blast
  then show "\<exists>m \<ge> n. connection_epoch t i = Some m"
    using connection_epoch_Some [OF inv(2)] c by (auto simp: eq conn_change_def)
qed

lemma decided_epoch:
  "observed_change c c' \<or> (decided d c c' d' \<and> cap_id c' = cap_id c \<and> cap_workspace_id c' = cap_workspace_id c
     \<and> cap_slot c' = cap_slot c \<and> cap_status_epoch c' = Suc (cap_status_epoch c)) \<Longrightarrow>
   cap_id c' = cap_id c \<and> cap_workspace_id c' = cap_workspace_id c \<and> (c' = c \<or> cap_status_epoch c < cap_status_epoch c')"
  by (auto simp: observed_change_def)

interpretation capability_guard: epoch_guard reg_init reg_step reg_inv capability_epoch
proof unfold_locales
  fix s t i n assume s: "reg_inv s" "reg_step s t" "capability_epoch s i = Some n"
  obtain d drawn d' drawn' where eq: "s = (d, drawn)" "t = (d', drawn')" by (cases s; cases t)
  have inv: "reg_inv (d, drawn)" "reg_inv (d', drawn')" using s eq reg_step_inv by auto
  obtain c where c: "c \<in> set (capabilities d)" "cap_id c = i" "cap_status_epoch c = n"
    using s(3) capability_epoch_Some [OF inv(1)] eq by auto
  have step: "reg_step (d, drawn) (d', drawn')" using s(2) eq by simp
  obtain c' where "c' \<in> set (capabilities d')" "cap_id c' = cap_id c" "c' = c \<or> cap_status_epoch c < cap_status_epoch c'"
    by (rule reg_step_capability [OF step inv(1) c(1)]) (use decided_epoch in blast)
  then show "\<exists>m \<ge> n. capability_epoch t i = Some m"
    using capability_epoch_Some [OF inv(2)] c by (intro exI [of _ "cap_status_epoch c'"]) (auto simp: eq)
qed

end
