(* ===== verification/Reg_Lease.thy ===== *)
theory Reg_Lease
  imports Reg_Track Exec_Lease
begin

text \<open>
  Refresh leases follow the same protocol as job leases: once a lease is over, because the job was
  claimed again or was ended or made obsolete, no operation accepts it any more, so a worker that
  comes back late cannot publish what it discovered.
\<close>

definition refresh_over :: "RefreshLease \<Rightarrow> db \<times> uuid set \<Rightarrow> bool" where
  "refresh_over lease = (\<lambda>(d, drawn). rl_job_id lease \<in> drawn
     \<and> (\<forall>j \<in> set (refresh_jobs d). drj_id j = rl_job_id lease \<longrightarrow>
          rl_lease_epoch lease < drj_lease_epoch j \<or> \<not> open_refresh_job j))"

definition refresh_accepted :: "RefreshLease \<Rightarrow> db \<times> uuid set \<Rightarrow> bool" where
  "refresh_accepted lease = (\<lambda>(d, drawn). \<exists>ctx clock.
     (\<exists>dur x. renew ctx lease dur clock d = Inr x) \<or> validate_for_contact ctx lease clock d = Inr ()
     \<or> (\<exists>ext result ids x. publish_success ext ctx lease result ids clock d = Inr x)
     \<or> (\<exists>code x. publish_failure ctx lease code clock d = Inr x))"

lemma accepted_matches:
  assumes "refresh_accepted lease (d, drawn)"
  obtains ctx j where "j \<in> set (refresh_jobs d)" and "lease_matches ctx lease j"
proof -
  obtain ctx extra j where "locked_job_for_lease ctx lease extra d = Inr j"
    using assms unfolding refresh_accepted_def renew_def validate_for_contact_def publish_success_def publish_failure_def
    by (auto simp: and_then_Inr split: if_splits)
  with that locked_job_for_lease_Inr show thesis by blast
qed

lemma refresh_over_rejects: "refresh_over lease s \<Longrightarrow> \<not> refresh_accepted lease s"
  by (cases s) (auto simp: refresh_over_def lease_matches_def open_refresh_job_def elim!: accepted_matches)

section \<open>Jobs\<close>

text \<open>Where a job row comes from: lease epochs never shrink and an ended job stays ended.\<close>

definition job_from :: "DiscoveryRefreshJob \<Rightarrow> DiscoveryRefreshJob \<Rightarrow> bool" where
  "job_from j j' \<longleftrightarrow> drj_id j' = drj_id j \<and> drj_lease_epoch j \<le> drj_lease_epoch j' \<and> (open_refresh_job j' \<longrightarrow> open_refresh_job j)"

lemma job_from_refl [simp]: "job_from j j"
  by (simp add: job_from_def)

lemma obsolete_from:
  assumes "j' \<in> set (refresh_jobs (obsolete_refresh_jobs ctx i d))"
  shows "\<exists>j \<in> set (refresh_jobs d). job_from j j'"
  using assms by (auto simp: obsolete_refresh_jobs_def job_from_def obsolete_job_def open_refresh_job_def)

lemma put_from:
  assumes "j' \<in> set (rows_put drj_id k' (refresh_jobs d))" and "k \<in> set (refresh_jobs d)" and "job_from k k'"
  shows "\<exists>j \<in> set (refresh_jobs d). job_from j j'"
proof (cases "j' = k'")
  case False
  then show ?thesis using assms(1) by (intro bexI [of _ j']) (simp_all add: rows_put_mem)
qed (use assms in blast)

lemma audit_jobs [simp]:
  "refresh_jobs (capability_audit ctx a i corr fresh d) = refresh_jobs d"
  "refresh_jobs (connection_audit ctx a i corr fresh d) = refresh_jobs d"
  "refresh_jobs (put_connection c d) = refresh_jobs d"
  "refresh_jobs (put_refresh_job j d) = rows_put drj_id j (refresh_jobs d)"
  "refresh_jobs (revise_capability ctx cap v d) = refresh_jobs d"
  by (simp_all add: capability_audit_def connection_audit_def add_audit_def put_connection_def put_refresh_job_def
      revise_capability_def append_status_event_def put_capability_def Let_def)

lemma obsolete_jobs_cong:
  "refresh_jobs d' = refresh_jobs d \<Longrightarrow> refresh_jobs (obsolete_refresh_jobs ctx i d') = refresh_jobs (obsolete_refresh_jobs ctx i d)"
  by (simp add: obsolete_refresh_jobs_def)

lemma reg_step_job:
  assumes "reg_step (d, drawn) (d', drawn')" and "reg_inv (d, drawn)" and j: "j' \<in> set (refresh_jobs d')" "drj_id j' \<in> drawn"
  shows "\<exists>j \<in> set (refresh_jobs d). job_from j j'"
proof -
  have ok: "reg_tables_ok d" "reg_ids d \<subseteq> drawn" using assms(2) by (simp_all add: reg_inv_def)
  have same: ?thesis if "refresh_jobs d' = refresh_jobs d" using that j(1) by (intro bexI [of _ j']) simp_all
  have obs: ?thesis if "refresh_jobs d' = refresh_jobs (obsolete_refresh_jobs ctx i d)" for ctx i
    using that j(1) obsolete_from by auto
  from assms(1) show ?thesis
  proof cases
    case (create ext cfg ctx name rq ids b)
    show ?thesis using create(2) by (rule connection_create_Inr) (use same in simp)
  next
    case (append ext cfg ctx i rq ids v)
    show ?thesis using append(2) by (rule append_version_Inr) (rule obs, simp, rule obsolete_jobs_cong, simp)
  next
    case (disable ctx i corr fresh b)
    show ?thesis using disable(2) by (rule connection_disable_Inr) (rule obs, simp, rule obsolete_jobs_cong, simp)
  next
    case (enable ctx i corr fresh b)
    show ?thesis using enable(2) by (rule connection_enable_Inr) (use same in simp)
  next
    case (enqueue ctx i fresh k)
    show ?thesis
      using enqueue(2)
    proof (rule enqueue_Inr)
      fix c target assume "k = queued_job ctx fresh c target"
        "d' = (obsolete_refresh_jobs ctx i (put_connection (allocated c target) d))\<lparr>refresh_jobs :=
          refresh_jobs (obsolete_refresh_jobs ctx i (put_connection (allocated c target) d)) @ [k]\<rparr>"
      then have "j' \<in> set (refresh_jobs (obsolete_refresh_jobs ctx i d))"
        using j enqueue(3) obsolete_jobs_cong [of "put_connection (allocated c target) d" d ctx i]
        by (auto simp: queued_job_def)
      then show ?thesis by (rule obsolete_from)
    qed
  next
    case (claim ctx i worker dur clock lease)
    show ?thesis using claim(2)
      by (rule refresh_claim_Inr)
        (rule put_from [of j'], use j(1) in simp, assumption, auto simp: job_from_def reclaimable_def open_refresh_job_def)
  next
    case (renew ctx lease dur clock lease')
    show ?thesis using renew(2)
      by (rule renew_Inr) (rule put_from [of j'], use j(1) in simp, assumption, auto simp: job_from_def open_refresh_job_def)
  next
    case (publish ext ctx lease result ids clock s)
    show ?thesis
      using publish(2) ok(1) publication_draw_fresh [OF publish(4,5,3) ok(2)]
    proof (rule publication_tables)
      fix k b d2 d3 assume k: "k \<in> set (refresh_jobs d)"
        and "refresh_jobs d' = rows_put drj_id (ended_refresh_job RefreshJobStatus.SUCCEEDED k) (refresh_jobs d)"
      then show ?thesis
        using j(1) put_from [OF _ k] by (simp add: job_from_def ended_refresh_job_def open_refresh_job_def)
    qed
  next
    case (fail ctx lease code clock b)
    show ?thesis using fail(2)
      by (rule publish_failure_Inr)
        (rule put_from [of j'], use j(1) in simp, assumption, auto simp: job_from_def ended_refresh_job_def open_refresh_job_def)
  next
    case (enable_capability ctx i v corr fresh cap)
    show ?thesis using enable_capability(2) by (rule capability_enable_Inr) (use same in simp)
  next
    case (disable_capability ctx i v corr fresh cap)
    show ?thesis using disable_capability(2) by (rule capability_disable_Inr) (use same in simp)
  next
    case environment
    then show ?thesis using same by (simp add: reg_tables_same_def)
  qed
qed

lemma reg_step_drawn: "reg_step (d, drawn) (d', drawn') \<Longrightarrow> drawn \<subseteq> drawn'"
  by (cases rule: reg_step.cases) auto

lemma refresh_over_step:
  assumes "reg_inv s" and "reg_step s t" and "refresh_over lease s"
  shows "refresh_over lease t"
proof -
  obtain d drawn d' drawn' where eq: "s = (d, drawn)" "t = (d', drawn')" by (cases s; cases t)
  have "rl_lease_epoch lease < drj_lease_epoch j' \<or> \<not> open_refresh_job j'"
    if j': "j' \<in> set (refresh_jobs d')" "drj_id j' = rl_job_id lease" for j'
  proof -
    have "drj_id j' \<in> drawn" using assms(3) j'(2) by (simp add: refresh_over_def eq)
    then obtain j where "j \<in> set (refresh_jobs d)" "job_from j j'"
      using reg_step_job [of d drawn d' drawn' j'] assms(1,2) j'(1) eq by auto
    then show ?thesis using assms(3) j'(2) by (force simp: refresh_over_def eq job_from_def)
  qed
  then show ?thesis using assms(3) reg_step_drawn [of d drawn d' drawn'] assms(2) by (auto simp: refresh_over_def eq)
qed

interpretation refresh_leases: lease_protocol reg_init reg_step reg_inv refresh_over refresh_accepted
  by unfold_locales (fact refresh_over_step, rule refresh_over_rejects)

end
