(* ===== verification/Reg_Demo.thy ===== *)
theory Reg_Demo
  imports Reg_Lease Exec_Demo
begin

text \<open>
  A worked history of the registry, evaluated: an administrator creates a connection, queues a
  refresh, a worker claims it and publishes a listing with one tool, and the tool is approved. The
  externals are concrete functions here.
\<close>

definition site :: db where
  "site = empty_db\<lparr>
     users := [\<lparr>usr_id = 2, usr_oidc_issuer = ustr_of ''i'', usr_oidc_subject = ustr_of ''s'', usr_display_name = None\<rparr>],
     workspaces := [\<lparr>ws_id = 1, ws_name = ustr_of ''w''\<rparr>],
     memberships := [\<lparr>mem_workspace_id = 1, mem_user_id = 2, mem_role = ADMIN\<rparr>]\<rparr>"

definition site_ctx :: WorkspaceContext where
  "site_ctx = \<lparr>ctx_workspace_id = 1, ctx_actor_user_id = 2, ctx_role = ADMIN\<rparr>"

definition site_meta :: meta_externals where
  "site_meta = \<lparr>urlsplit = (\<lambda>_. Some \<lparr>url_scheme = ustr_of ''https'', url_hostname = Some (ustr_of ''a.b''), url_port = None,
       url_username = None, url_password = None, url_path = [], url_query = [], url_fragment = []\<rparr>),
     str_lower = (\<lambda>s. s), ip_address = (\<lambda>_. None), idna_encode = Some, inet_aton = (\<lambda>_. False), unquote_strict = Some,
     contains_obvious_secret = (\<lambda>_. False), contains_sensitive_hostname = (\<lambda>_. False),
     contains_sensitive_url_path = (\<lambda>_. False), contains_sensitive_schema = (\<lambda>_. False), meta_float_repr = (\<lambda>_. [])\<rparr>"

definition site_url :: url_externals where
  "site_url = url_externals.truncate site_meta"

definition site_cfg :: connection_config where
  "site_cfg = \<lparr>cfg_environment = ustr_of ''production'', cfg_allow_loopback_http = False\<rparr>"

definition site_request :: connection_request where
  "site_request = \<lparr>crq_endpoint_url = ustr_of ''https://a.b'', crq_secret_binding_id = None, crq_policy_version = ustr_of ''v1'',
     crq_correlation_id = None\<rparr>"

definition site_ids :: connection_ids where
  "site_ids = \<lparr>fresh_connection = 20, fresh_version = 21, fresh_correlation = 22\<rparr>"

definition created where "created = connection_create site_url site_cfg site_ctx (ustr_of ''c'') site_request site_ids site"

definition site1 :: db where "site1 = snd (projr created)"

definition enqueued where "enqueued = enqueue site_ctx 20 30 site1"

definition site2 :: db where "site2 = snd (projr enqueued)"

definition claimed_refresh where
  "claimed_refresh = refresh_claim site_ctx 30 (ustr_of ''worker'') 30000000 demo_clock site2"

definition site_lease :: RefreshLease where "site_lease = fst (projr claimed_refresh)"

definition site3 :: db where "site3 = snd (projr claimed_refresh)"

definition site_tool :: ToolDefinition where
  "site_tool = \<lparr>tool_identity = ustr_of ''t'', tool_name = ustr_of ''t'', tool_display_name = ustr_of ''t'', tool_description = None,
     tool_input_schema = JDict [], tool_output_schema = None, tool_metadata_digest = demo_hex, tool_schema_supported = True\<rparr>"

definition site_result :: DiscoveryResult where
  "site_result = \<lparr>dr_protocol_revision = QUALIFIED_PROTOCOL_REVISION, dr_tools = [site_tool], dr_normalized_payload = JDict [],
     dr_canonical_bytes = [123, 125], dr_canonical_digest = demo_hex\<rparr>"

definition site_publication :: publication_ids where
  "site_publication = \<lparr>pub_payload = 40, pub_snapshot = 41, pub_tools = (\<lambda>_. \<lparr>fresh_capability = 42,
     fresh_capability_version = 43, fresh_capability_correlation = 44\<rparr>), pub_correlation = 45\<rparr>"

definition published where
  "published = publish_success site_meta site_ctx site_lease site_result site_publication demo_clock site3"

definition site4 :: db where "site4 = snd (projr published)"

definition approved where "approved = capability_enable site_ctx 42 43 None 50 site4"

definition site5 :: db where "site5 = snd (projr approved)"

lemma site_evaluated: "\<not> isl created" "\<not> isl enqueued" "\<not> isl claimed_refresh" "\<not> isl published" "\<not> isl approved"
  by code_simp+

end
