(* ===== verification/Reg_Schema.thy ===== *)
theory Reg_Schema
  imports Reg_Demo
begin

text \<open>
  The unique constraints, check constraints and foreign keys that \<^verbatim>\<open>persistence/models.py\<close> declares
  between the registry tables, and that no reachable state breaks them.
\<close>

section \<open>Tables\<close>

definition connection_rows_ok :: "db \<Rightarrow> bool" where
  "connection_rows_ok d \<longleftrightarrow> distinct (map conn_id (connections d))
     \<and> (\<forall>c \<in> set (connections d). connection_check c
          \<and> (\<forall>i \<in> set_option (conn_pending_version_id c) \<union> set_option (conn_verified_version_id c)
                    \<union> set_option (conn_allocated_target_version_id c).
               \<exists>v \<in> set (connection_versions d). scv_id v = i \<and> scv_connection_id v = conn_id c)
          \<and> (\<forall>i \<in> set_option (conn_current_snapshot_id c).
               \<exists>s \<in> set (snapshots d). snap_id s = i \<and> snap_connection_id s = conn_id c))"

definition connection_version_rows_ok :: "db \<Rightarrow> bool" where
  "connection_version_rows_ok d \<longleftrightarrow> distinct (map scv_id (connection_versions d))
     \<and> distinct (map (\<lambda>v. (scv_connection_id v, scv_sequence v)) (connection_versions d))
     \<and> (\<forall>v \<in> set (connection_versions d). 0 < scv_sequence v
          \<and> owns (connections d) (scv_connection_id v) (scv_workspace_id v))"

definition capability_rows_ok :: "db \<Rightarrow> bool" where
  "capability_rows_ok d \<longleftrightarrow> distinct (map cap_id (capabilities d)) \<and> distinct (map cap_slot (capabilities d))
     \<and> (\<forall>c \<in> set (capabilities d). capability_check c
          \<and> owns (connections d) (cap_connection_id c) (cap_workspace_id c)
          \<and> (\<forall>i \<in> set_option (cap_pending_version_id c) \<union> set_option (cap_enabled_version_id c).
               \<exists>v \<in> set (capability_versions d). capv_id v = i \<and> capv_capability_id v = cap_id c))"

definition capability_version_rows_ok :: "db \<Rightarrow> bool" where
  "capability_version_rows_ok d \<longleftrightarrow> distinct (map capv_id (capability_versions d))
     \<and> distinct (map (\<lambda>v. (capv_capability_id v, capv_sequence v)) (capability_versions d))
     \<and> (\<forall>v \<in> set (capability_versions d). 0 < capv_sequence v
          \<and> (\<exists>c \<in> set (capabilities d). cap_id c = capv_capability_id v \<and> cap_workspace_id c = capv_workspace_id v))"

definition binding_rows_ok :: "db \<Rightarrow> bool" where
  "binding_rows_ok d \<longleftrightarrow> distinct (map bind_capability_version_id (tool_bindings d))
     \<and> (\<forall>b \<in> set (tool_bindings d).
          (\<exists>v \<in> set (capability_versions d). binds_version b v)
          \<and> (\<exists>c \<in> set (capabilities d). cap_id c = bind_capability_id b \<and> cap_connection_id c = bind_connection_id b))"

definition status_event_rows_ok :: "db \<Rightarrow> bool" where
  "status_event_rows_ok d \<longleftrightarrow>
     distinct (map (\<lambda>e. (cse_capability_id e, cse_status_epoch e)) (status_events d))
     \<and> (\<forall>e \<in> set (status_events d). 0 < cse_status_epoch e \<and> cse_capability_id e \<in> cap_id ` set (capabilities d))"

definition snapshot_rows_ok :: "db \<Rightarrow> bool" where
  "snapshot_rows_ok d \<longleftrightarrow> distinct (map snap_id (snapshots d)) \<and> distinct (map snap_slot (snapshots d))
     \<and> (\<forall>s \<in> set (snapshots d). 0 < snap_generation s
          \<and> owns (connections d) (snap_connection_id s) (snap_workspace_id s))"

definition observation_rows_ok :: "db \<Rightarrow> bool" where
  "observation_rows_ok d \<longleftrightarrow> distinct (map obs_slot (snapshot_capabilities d))
     \<and> (\<forall>x \<in> set (snapshot_capabilities d). \<exists>s \<in> set (snapshots d). \<exists>b \<in> set (tool_bindings d). observes x s b)"

definition refresh_job_rows_ok :: "db \<Rightarrow> bool" where
  "refresh_job_rows_ok d \<longleftrightarrow> distinct (map drj_id (refresh_jobs d)) \<and> distinct (map job_slot (refresh_jobs d))
     \<and> (\<forall>j \<in> set (refresh_jobs d). refresh_job_check j
          \<and> owns (connections d) (drj_connection_id j) (drj_workspace_id j))"

section \<open>The invariant gives the constraints\<close>

lemma contiguous_pos: "contiguous xs \<Longrightarrow> x \<in> set xs \<Longrightarrow> 0 < x"
  unfolding contiguous_def by (metis atLeastLessThan_iff gr0I not_one_le_zero set_upt)

lemma group_distinct:
  assumes "\<And>x. x \<in> set xs \<Longrightarrow> contiguous (map num (filter (\<lambda>y. grp y = grp x) xs))"
  shows "distinct (map (\<lambda>x. (grp x, num x)) xs)"
proof (rule distinct_by_group [where grp = grp])
  fix i
  show "distinct (map (\<lambda>x. (grp x, num x)) (filter (\<lambda>x. grp x = i) xs))"
  proof (cases "\<exists>x \<in> set xs. grp x = i")
    case True
    then have "distinct (map num (filter (\<lambda>y. grp y = i) xs))" using assms contiguous_distinct by blast
    then show ?thesis by (auto simp: distinct_map inj_on_def)
  next
    case False
    then have "filter (\<lambda>x. grp x = i) xs = []" by (simp add: filter_empty_conv)
    then show ?thesis by simp
  qed
qed simp

lemma connection_rows: "reg_tables_ok d \<Longrightarrow> connection_rows_ok d"
proof -
  assume ok: "reg_tables_ok d"
  then have inv: "conns_inv (connections d)" "snaps_inv (connections d) (snapshots d)" "vers_inv (connections d) (connection_versions d)"
    by (auto simp: reg_tables_ok_def)
  have "\<exists>v \<in> set (connection_versions d). scv_id v = i \<and> scv_connection_id v = conn_id c"
    if c: "c \<in> set (connections d)" "i \<in> set_option (conn_pending_version_id c) \<union> set_option (conn_verified_version_id c)
      \<union> set_option (conn_allocated_target_version_id c)" for c i
  proof -
    have ok: "conn_ok c" using inv(1) c(1) by (simp add: conns_inv_def)
    have "conn_allocated_target_version_id c = None \<or> conn_allocated_target_version_id c = conn_target c"
    proof (cases "conn_allocated_control_epoch c")
      case None
      with ok show ?thesis by (auto simp: conn_ok_def connection_check_def split: if_splits)
    qed (use ok in \<open>simp add: conn_ok_def\<close>)
    with c(2) have "conn_pending_version_id c = Some i \<or> conn_verified_version_id c = Some i"
      by (auto simp: conn_target_def split: option.splits)
    with inv(3) c(1) show ?thesis unfolding vers_inv_def by blast
  qed
  with inv show ?thesis by (auto simp: connection_rows_ok_def conns_inv_def conn_ok_def snaps_inv_def)
qed

lemma connection_version_rows: "reg_tables_ok d \<Longrightarrow> connection_version_rows_ok d"
proof -
  assume "reg_tables_ok d"
  then have inv: "vers_inv (connections d) (connection_versions d)" by (simp add: reg_tables_ok_def)
  have seq: "contiguous (map scv_sequence (filter (\<lambda>y. scv_connection_id y = scv_connection_id v) (connection_versions d)))"
    if "v \<in> set (connection_versions d)" for v
    using inv that unfolding vers_inv_def by metis
  have "0 < scv_sequence v" if "v \<in> set (connection_versions d)" for v
    using contiguous_pos [OF seq [OF that]] that by auto
  with inv group_distinct [OF seq] show ?thesis
    by (auto simp: connection_version_rows_ok_def vers_inv_def owns_def)
qed

lemma capability_rows: "reg_tables_ok d \<Longrightarrow> capability_rows_ok d"
  by (auto simp: reg_tables_ok_def capability_rows_ok_def caps_inv_def cap_ok_def capconn_inv_def cap_pointers_def)

lemma capability_version_rows: "reg_tables_ok d \<Longrightarrow> capability_version_rows_ok d"
proof -
  assume "reg_tables_ok d"
  then have inv: "caps_inv (capabilities d) (capability_versions d) (status_events d)" by (simp add: reg_tables_ok_def)
  have seq: "contiguous (map capv_sequence (filter (\<lambda>y. capv_capability_id y = capv_capability_id v) (capability_versions d)))"
    if "v \<in> set (capability_versions d)" for v
    using inv that unfolding caps_inv_def cap_ok_def version_of_def by metis
  have "0 < capv_sequence v" if "v \<in> set (capability_versions d)" for v
    using contiguous_pos [OF seq [OF that]] that by auto
  moreover have "\<exists>c \<in> set (capabilities d). cap_id c = capv_capability_id v \<and> cap_workspace_id c = capv_workspace_id v"
    if "v \<in> set (capability_versions d)" for v
    using inv that unfolding caps_inv_def version_of_def by metis
  ultimately show ?thesis
    using inv group_distinct [OF seq] by (auto simp: capability_version_rows_ok_def caps_inv_def)
qed

lemma binding_rows: "reg_tables_ok d \<Longrightarrow> binding_rows_ok d"
proof -
  assume "reg_tables_ok d"
  then have inv: "binds_inv (capabilities d) (capability_versions d) (tool_bindings d)" "distinct (map capv_id (capability_versions d))"
    by (auto simp: reg_tables_ok_def caps_inv_def)
  then have all2: "list_all2 binds_version (tool_bindings d) (capability_versions d)" by (simp add: binds_inv_def)
  have "map bind_capability_version_id (tool_bindings d) = map capv_id (capability_versions d)"
    using all2 by (simp add: list_eq_iff_nth_eq list_all2_conv_all_nth binds_version_def)
  moreover have "\<exists>v \<in> set (capability_versions d). binds_version b v" if "b \<in> set (tool_bindings d)" for b
    using all2 that by (fastforce simp: list_all2_conv_all_nth in_set_conv_nth)
  ultimately show ?thesis using inv by (auto simp: binding_rows_ok_def binds_inv_def)
qed

lemma status_event_rows: "reg_tables_ok d \<Longrightarrow> status_event_rows_ok d"
proof -
  assume "reg_tables_ok d"
  then have inv: "caps_inv (capabilities d) (capability_versions d) (status_events d)" by (simp add: reg_tables_ok_def)
  have seq: "contiguous (map cse_status_epoch (filter (\<lambda>x. cse_capability_id x = cse_capability_id e) (status_events d)))"
    if e: "e \<in> set (status_events d)" for e
  proof -
    have "cse_capability_id e \<in> cap_id ` set (capabilities d)" using inv e by (simp add: caps_inv_def)
    then obtain c where c: "c \<in> set (capabilities d)" "cap_id c = cse_capability_id e" by auto
    then have "history_ok c (status_events d)" using inv by (simp add: caps_inv_def cap_ok_def)
    with c have "map cse_status_epoch (history_of (cse_capability_id e) (status_events d)) = [1..<Suc (cap_status_epoch c)]"
      by (simp add: history_ok_def Let_def)
    then show ?thesis unfolding contiguous_def history_of_def by (metis diff_Suc_1 length_upt)
  qed
  have "0 < cse_status_epoch e" if "e \<in> set (status_events d)" for e
    using contiguous_pos [OF seq [OF that]] that by auto
  moreover have "distinct (map (\<lambda>e. (cse_capability_id e, cse_status_epoch e)) (status_events d))"
    by (rule group_distinct [OF seq])
  ultimately show ?thesis using inv unfolding status_event_rows_ok_def caps_inv_def by blast
qed

lemma snapshot_rows: "reg_tables_ok d \<Longrightarrow> snapshot_rows_ok d"
  by (fastforce simp: reg_tables_ok_def snapshot_rows_ok_def snaps_inv_def snap_of_def owns_def)

lemma observation_rows: "reg_tables_ok d \<Longrightarrow> observation_rows_ok d"
  by (simp add: reg_tables_ok_def observation_rows_ok_def obs_inv_def)

lemma refresh_job_rows: "reg_tables_ok d \<Longrightarrow> refresh_job_rows_ok d"
  by (fastforce simp: reg_tables_ok_def refresh_job_rows_ok_def jobs_inv_def job_of_def owns_def)

end
