(* ===== verification/Reg_Props.thy ===== *)
theory Reg_Props
  imports Reg_Schema
begin

text \<open>
  The properties of the registry: its constraints, the history of a capability, who may approve a
  version, what a publication leaves behind and that the history of \<open>Reg_Demo\<close> is an instance.
\<close>

section \<open>The worked history is a run of the registry\<close>

lemma site_ops:
  "connection_create site_url site_cfg site_ctx (ustr_of ''c'') site_request site_ids site = Inr (fst (projr created), site1)"
  "enqueue site_ctx 20 30 site1 = Inr (fst (projr enqueued), site2)"
  "refresh_claim site_ctx 30 (ustr_of ''worker'') 30000000 demo_clock site2 = Inr (site_lease, site3)"
  "publish_success site_meta site_ctx site_lease site_result site_publication demo_clock site3 = Inr (fst (projr published), site4)"
  "capability_enable site_ctx 42 43 None 50 site4 = Inr (fst (projr approved), site5)"
proof -
  have pair: "r = Inr (fst (projr r), snd (projr r))" if "\<not> isl r" for r :: "svc_error + 'a \<times> db"
    using that by (cases r) auto
  show "connection_create site_url site_cfg site_ctx (ustr_of ''c'') site_request site_ids site = Inr (fst (projr created), site1)"
    using pair [OF site_evaluated(1)] by (simp add: site1_def flip: created_def)
  show "enqueue site_ctx 20 30 site1 = Inr (fst (projr enqueued), site2)"
    using pair [OF site_evaluated(2)] by (simp add: site2_def flip: enqueued_def)
  show "refresh_claim site_ctx 30 (ustr_of ''worker'') 30000000 demo_clock site2 = Inr (site_lease, site3)"
    using pair [OF site_evaluated(3)] by (simp add: site_lease_def site3_def flip: claimed_refresh_def)
  show "publish_success site_meta site_ctx site_lease site_result site_publication demo_clock site3 = Inr (fst (projr published), site4)"
    using pair [OF site_evaluated(4)] by (simp add: site4_def flip: published_def)
  show "capability_enable site_ctx 42 43 None 50 site4 = Inr (fst (projr approved), site5)"
    using pair [OF site_evaluated(5)] by (simp add: site5_def flip: approved_def)
qed

lemma site_draw: "publication_draw site_result site_publication = [41, 42, 43]"
  by (simp add: publication_draw_def pub_tool_list_def site_result_def site_publication_def tool_ids_def)

lemma site_steps:
  "reg_step (site, {}) (site1, {20, 21})" "reg_step (site1, {20, 21}) (site2, {30, 20, 21})"
  "reg_step (site2, {30, 20, 21}) (site3, {30, 20, 21})" "reg_step (site3, {30, 20, 21}) (site4, {30, 20, 21, 41, 42, 43})"
  "reg_step (site4, {30, 20, 21, 41, 42, 43}) (site5, {30, 20, 21, 41, 42, 43})"
proof -
  show "reg_step (site, {}) (site1, {20, 21})"
    using reg_step.create [OF site_ops(1), of "{}"] by (simp add: site_ids_def)
  show "reg_step (site1, {20, 21}) (site2, {30, 20, 21})"
    using reg_step.enqueue [OF site_ops(2), of "{20, 21}"] by simp
  show "reg_step (site2, {30, 20, 21}) (site3, {30, 20, 21})" by (rule reg_step.claim [OF site_ops(3)])
  show "reg_step (site3, {30, 20, 21}) (site4, {30, 20, 21, 41, 42, 43})"
    using reg_step.publish [OF site_ops(4), of "{30, 20, 21}"] by (simp add: site_draw) (simp add: site_result_def)
  show "reg_step (site4, {30, 20, 21, 41, 42, 43}) (site5, {30, 20, 21, 41, 42, 43})"
    by (rule reg_step.enable_capability [OF site_ops(5)])
qed

lemma site_reach:
  "reach reg_init reg_step (site, {})" "reach reg_init reg_step (site1, {20, 21})"
  "reach reg_init reg_step (site2, {30, 20, 21})" "reach reg_init reg_step (site3, {30, 20, 21})"
  "reach reg_init reg_step (site4, {30, 20, 21, 41, 42, 43})" "reach reg_init reg_step (site5, {30, 20, 21, 41, 42, 43})"
proof -
  show r0: "reach reg_init reg_step (site, {})"
    by (rule reach.start) (simp add: reg_init_def site_def empty_db_def)
  note go = reach.step [where init = reg_init and step = reg_step]
  from go [OF r0 site_steps(1)] show r1: "reach reg_init reg_step (site1, {20, 21})" .
  from go [OF r1 site_steps(2)] show r2: "reach reg_init reg_step (site2, {30, 20, 21})" .
  from go [OF r2 site_steps(3)] show r3: "reach reg_init reg_step (site3, {30, 20, 21})" .
  from go [OF r3 site_steps(4)] show r4: "reach reg_init reg_step (site4, {30, 20, 21, 41, 42, 43})" .
  from go [OF r4 site_steps(5)] show "reach reg_init reg_step (site5, {30, 20, 21, 41, 42, 43})" .
qed

lemma site_summary:
  "(map cap_id (capabilities site4), map cap_enabled_version_id (capabilities site4), map cap_status (capabilities site4),
    map cap_status_epoch (capabilities site5), map cap_enabled_version_id (capabilities site5), map cap_id (capabilities site5))
   = ([42], [None], [PENDING_REVIEW], [2], [Some 43], [42])"
  by code_simp

lemmas site_rows = site_summary [unfolded prod.inject, THEN conjunct1] site_summary [unfolded prod.inject, THEN conjunct2]

lemma reach_tables: "reach reg_init reg_step (d, drawn) \<Longrightarrow> reg_tables_ok d"
  using registry.reach_inv [of "(d, drawn)"] by (simp add: reg_inv_def)

section \<open>Constraints\<close>



section \<open>Capabilities\<close>

text \<open>C26. The status events of a capability are its complete history: they are numbered without gaps
  from 1 to its status epoch, and the last one states its status and the version that status is
  about.\<close>

theorem status_history_complete:
  assumes "reach reg_init reg_step (d, drawn)" and "c \<in> set (capabilities d)"
  shows "map cse_status_epoch (filter (\<lambda>e. cse_capability_id e = cap_id c) (status_events d)) = [1..<Suc (cap_status_epoch c)]
    \<and> (\<exists>e \<in> set (status_events d). cse_capability_id e = cap_id c \<and> cse_status_epoch e = cap_status_epoch c
         \<and> cse_status e = cap_status c \<and> cse_capability_version_id e = decision_version c)"
proof -
  let ?h = "history_of (cap_id c) (status_events d)"
  have h: "?h \<noteq> []" "map cse_status_epoch ?h = [1..<Suc (cap_status_epoch c)]" "cse_status (last ?h) = cap_status c"
    "cse_capability_version_id (last ?h) = decision_version c"
    using cap_of_ok(3) [OF reach_tables [OF assms(1)] assms(2)] by (auto simp: history_ok_def Let_def)
  have "last ?h \<in> set ?h" using h(1) by simp
  moreover have "cse_status_epoch (last ?h) = cap_status_epoch c"
  proof -
    have "cse_status_epoch (last ?h) = last (map cse_status_epoch ?h)" using h(1) by (simp add: last_map)
    also have "\<dots> = cap_status_epoch c" using h(1,2) by (cases "cap_status_epoch c") auto
    finally show ?thesis .
  qed
  ultimately show ?thesis using h by (auto simp: history_of_def)
qed

theorem status_history_complete_witness:
  "\<exists>c \<in> set (capabilities site5). cap_status_epoch c = 2
     \<and> map cse_status_epoch (filter (\<lambda>e. cse_capability_id e = cap_id c) (status_events site5)) = [1, 2]"
proof -
  obtain c where c: "capabilities site5 = [c]" "cap_status_epoch c = 2"
    using site_rows by (cases "capabilities site5") auto
  have upt: "[1..<Suc 2] = [1, 2]" by code_simp
  have "map cse_status_epoch (filter (\<lambda>e. cse_capability_id e = cap_id c) (status_events site5)) = [1, 2]"
    using status_history_complete [OF site_reach(6), of c] unfolding c upt by simp
  with c show ?thesis by simp
qed

text \<open>C27. Only an administrator or operator approves a version or ends a \<open>DISABLED\<close> status: whatever
  step is taken, a capability keeps its identity, its status epoch never falls and rises whenever the
  row changes; and if its enabled version changes or it stops being disabled, that step was
  \<open>CapabilityService.enable\<close> on it. Discovery alone can never approve a tool.\<close>

theorem approval_only_by_decision:
  assumes "reach reg_init reg_step (d, drawn)" and "reg_step (d, drawn) (d', drawn')" and "c \<in> set (capabilities d)"
  shows "\<exists>c' \<in> set (capabilities d'). cap_id c' = cap_id c \<and> cap_workspace_id c' = cap_workspace_id c
    \<and> (c' = c \<or> cap_status_epoch c < cap_status_epoch c')
    \<and> (cap_enabled_version_id c' \<noteq> cap_enabled_version_id c
        \<or> cap_status c = CapabilityStatus.DISABLED \<and> cap_status c' \<noteq> CapabilityStatus.DISABLED \<longrightarrow>
        (\<exists>ctx v corr fresh. capability_enable ctx (cap_id c) v corr fresh d = Inr (c', d')))"
proof -
  have inv: "reg_inv (d, drawn)" by (rule registry.reach_inv [OF assms(1)])
  obtain c' where c': "c' \<in> set (capabilities d')"
    "observed_change c c' \<or> (decided d c c' d' \<and> cap_id c' = cap_id c \<and> cap_workspace_id c' = cap_workspace_id c
       \<and> cap_slot c' = cap_slot c \<and> cap_status_epoch c' = Suc (cap_status_epoch c))"
    by (rule reg_step_capability [OF assms(2) inv assms(3)])
  have dis: "cap_enabled_version_id c' = cap_enabled_version_id c \<and> cap_status c' = CapabilityStatus.DISABLED"
    if "capability_disable ctx (cap_id c) v corr fresh d = Inr (c', d')" for ctx v corr fresh
    using that
  proof (rule capability_disable_Inr)
    fix b assume "b \<in> set (capabilities d)" "cap_id b = cap_id c"
      and b: "c' = b\<lparr>cap_status := CapabilityStatus.DISABLED, cap_status_epoch := Suc (cap_status_epoch b)\<rparr>"
    then have "b = c" using distinct_key_eq [OF reg_inv_distinct(2) [OF inv] _ assms(3)] by blast
    with b show ?thesis by simp
  qed
  show ?thesis
  proof (rule bexI [OF _ c'(1)])
    show "cap_id c' = cap_id c \<and> cap_workspace_id c' = cap_workspace_id c \<and> (c' = c \<or> cap_status_epoch c < cap_status_epoch c')
      \<and> (cap_enabled_version_id c' \<noteq> cap_enabled_version_id c
        \<or> cap_status c = CapabilityStatus.DISABLED \<and> cap_status c' \<noteq> CapabilityStatus.DISABLED \<longrightarrow>
        (\<exists>ctx v corr fresh. capability_enable ctx (cap_id c) v corr fresh d = Inr (c', d')))"
      using decided_epoch [OF c'(2)] c'(2) dis unfolding observed_change_def decided_def by blast
  qed
qed

theorem approval_only_by_decision_witness:
  "\<exists>c \<in> set (capabilities site4). cap_enabled_version_id c = None
     \<and> (\<exists>c' \<in> set (capabilities site5). cap_id c' = cap_id c \<and> cap_enabled_version_id c' = Some 43
          \<and> (\<exists>ctx v corr fresh. capability_enable ctx (cap_id c) v corr fresh site4 = Inr (c', site5)))"
proof -
  obtain c where c: "capabilities site4 = [c]" "cap_enabled_version_id c = None"
    using site_rows by (cases "capabilities site4") auto
  obtain b where b: "capabilities site5 = [b]" "cap_enabled_version_id b = Some 43"
    using site_rows by (cases "capabilities site5") auto
  have "\<exists>c' \<in> set (capabilities site5). cap_id c' = cap_id c
      \<and> (\<exists>ctx v corr fresh. capability_enable ctx (cap_id c) v corr fresh site4 = Inr (c', site5))"
    using approval_only_by_decision [OF site_reach(5) site_steps(5), of c] c b by auto
  with b c show ?thesis by auto
qed

end
