(* ===== verification/Reg_Refresh.thy ===== *)
theory Reg_Refresh
  imports Reg_Props
begin

text \<open>
  The properties of refreshes: one open job per connection that can always be claimed, leases that are
  over for good, and what a publication leaves behind.
\<close>

section \<open>Jobs\<close>

lemma scoped_connection_found:
  assumes "reg_tables_ok d" and "c \<in> set (connections d)"
  shows "scoped_connection (conn_id c) (conn_workspace_id c) d = Some c"
proof -
  have "distinct (map conn_id (connections d))" using assms(1) by (simp add: reg_tables_ok_def conns_inv_def)
  from distinct_map_filter_key [OF this assms(2)]
  have "filter (\<lambda>x. conn_id x = conn_id c) (connections d) = [c]" .
  then have "filter (\<lambda>x. conn_workspace_id x = conn_workspace_id c) (filter (\<lambda>x. conn_id x = conn_id c) (connections d)) = [c]"
    by simp
  then show ?thesis by (simp add: scoped_connection_def filter_filter conj_commute)
qed

lemma open_job_connection:
  assumes "reg_tables_ok d" and "j \<in> set (refresh_jobs d)" and "open_refresh_job j"
  obtains c where "c \<in> set (connections d)" and "conn_id c = drj_connection_id j" and "conn_workspace_id c = drj_workspace_id j"
    and "job_current j c" and "conn_target c = Some (drj_connection_version_id j)"
    and "conn_lifecycle c \<noteq> ConnectionLifecycle.DISABLED"
proof -
  obtain c where c: "c \<in> set (connections d)" "job_of j c" using assms(1,2) by (auto simp: reg_tables_ok_def jobs_inv_def)
  then have cur: "job_current j c" using assms(3) by (simp add: job_of_def)
  have "conn_ok c" using assms(1) c(1) by (simp add: reg_tables_ok_def conns_inv_def)
  with cur have "conn_target c = Some (drj_connection_version_id j)" "conn_lifecycle c \<noteq> ConnectionLifecycle.DISABLED"
    by (auto simp: job_current_def allocation_is_def conn_ok_def)
  with that c cur show thesis by (simp add: job_of_def)
qed

lemma job_lookup:
  assumes "reg_tables_ok d" and "j \<in> set (refresh_jobs d)"
  shows "first_row (filter (\<lambda>k. drj_id k = drj_id j \<and> drj_workspace_id k = drj_workspace_id j
      \<and> drj_actor_user_id k = drj_actor_user_id j) (refresh_jobs d)) = Some j"
proof -
  have "distinct (map drj_id (refresh_jobs d))" using assms(1) by (simp add: reg_tables_ok_def jobs_inv_def)
  from distinct_map_filter_key [OF this assms(2)]
  have "filter (\<lambda>k. drj_workspace_id k = drj_workspace_id j \<and> drj_actor_user_id k = drj_actor_user_id j)
      (filter (\<lambda>k. drj_id k = drj_id j) (refresh_jobs d)) = [j]" by simp
  then show ?thesis by (simp add: filter_filter conj_ac)
qed

text \<open>C28. A connection never has two open refresh jobs, and an open job is never stuck: when it is
  queued or its lease has run out, the user who requested it can claim it at once, under the next
  lease epoch and with the requested expiry, as long as that user still has the role.\<close>

theorem open_job_claimable:
  assumes "reach reg_init reg_step (d, drawn)" and "j \<in> set (refresh_jobs d)" and "open_refresh_job j"
  shows "(\<forall>k \<in> set (refresh_jobs d). open_refresh_job k \<and> drj_connection_id k = drj_connection_id j \<longrightarrow> k = j)
    \<and> (\<forall>ctx worker dur clock u. reclaimable (clock 0) j \<and> ctx_workspace_id ctx = drj_workspace_id j
         \<and> ctx_actor_user_id ctx = drj_actor_user_id j \<and> require_current_role ctx [ADMIN, OPERATOR] True d = Inr u
         \<and> worker \<noteq> [] \<and> length worker \<le> 128 \<and> 0 < dur \<longrightarrow>
         (\<exists>lease d'. refresh_claim ctx (drj_id j) worker dur clock d = Inr (lease, d')
            \<and> rl_lease_epoch lease = drj_lease_epoch j + 1
            \<and> (\<exists>k \<in> set (refresh_jobs d'). drj_id k = drj_id j \<and> drj_status k = RefreshJobStatus.LEASED
                 \<and> drj_lease_expires_at k = Some (clock 0 + dur))))"
proof (intro conjI ballI allI impI)
  note ok = reach_tables [OF assms(1)]
  obtain c where c: "c \<in> set (connections d)" "conn_id c = drj_connection_id j" "conn_workspace_id c = drj_workspace_id j"
    "job_current j c" "conn_target c = Some (drj_connection_version_id j)" "conn_lifecycle c \<noteq> ConnectionLifecycle.DISABLED"
    by (rule open_job_connection [OF ok assms(2,3)])
  fix k assume k: "k \<in> set (refresh_jobs d)" "open_refresh_job k \<and> drj_connection_id k = drj_connection_id j"
  obtain b where b: "b \<in> set (connections d)" "conn_id b = drj_connection_id k" "job_current k b"
    by (rule open_job_connection [OF ok k(1)]) (use k(2) in auto)
  have dist: "distinct (map conn_id (connections d))" "distinct (map job_slot (refresh_jobs d))"
    using ok by (auto simp: reg_tables_ok_def conns_inv_def jobs_inv_def)
  have "b = c" using distinct_key_eq [OF dist(1) b(1) c(1)] b(2) c(2) k(2) by simp
  then have "job_slot k = job_slot j" using b(3) c(4) k(2) by (simp add: job_slot_def job_current_def allocation_is_def)
  then show "k = j" using distinct_key_eq [OF dist(2) k(1) assms(2)] by simp
next
  note ok = reach_tables [OF assms(1)]
  obtain c where c: "c \<in> set (connections d)" "conn_id c = drj_connection_id j" "conn_workspace_id c = drj_workspace_id j"
    "job_current j c" "conn_target c = Some (drj_connection_version_id j)" "conn_lifecycle c \<noteq> ConnectionLifecycle.DISABLED"
    by (rule open_job_connection [OF ok assms(2,3)])
  fix ctx :: WorkspaceContext and worker :: ustr and dur :: duration and clock :: clock and u
  assume a: "reclaimable (clock 0) j \<and> ctx_workspace_id ctx = drj_workspace_id j
         \<and> ctx_actor_user_id ctx = drj_actor_user_id j \<and> require_current_role ctx [ADMIN, OPERATOR] True d = Inr u
         \<and> worker \<noteq> [] \<and> length worker \<le> 128 \<and> 0 < dur"
  let ?j = "j\<lparr>drj_status := RefreshJobStatus.LEASED, drj_lease_owner := Some worker,
     drj_lease_epoch := drj_lease_epoch j + 1, drj_lease_expires_at := Some (clock 0 + dur)\<rparr>"
  have "lock_eligible_connection ctx (drj_connection_id j) (drj_connection_version_id j) (drj_control_epoch j)
      (drj_generation j) d = Inr c"
    using c a scoped_connection_found [OF ok c(1)] by (simp add: lock_eligible_connection_Inr job_current_def)
  then have claim: "refresh_claim ctx (drj_id j) worker dur clock d = Inr (refresh_lease worker ?j, put_refresh_job ?j d)"
    using a job_lookup [OF ok assms(2)] by (simp add: refresh_claim_def Let_def)
  have "?j \<in> set (refresh_jobs (put_refresh_job ?j d))" using assms(2) by (auto simp: put_refresh_job_def rows_put_mem)
  then have "\<exists>k \<in> set (refresh_jobs (put_refresh_job ?j d)). drj_id k = drj_id j \<and> drj_status k = RefreshJobStatus.LEASED
      \<and> drj_lease_expires_at k = Some (clock 0 + dur)" by (rule bexI [rotated]) simp
  with claim show "\<exists>lease d'. refresh_claim ctx (drj_id j) worker dur clock d = Inr (lease, d')
            \<and> rl_lease_epoch lease = drj_lease_epoch j + 1
            \<and> (\<exists>k \<in> set (refresh_jobs d'). drj_id k = drj_id j \<and> drj_status k = RefreshJobStatus.LEASED
                 \<and> drj_lease_expires_at k = Some (clock 0 + dur))"
    by (simp add: refresh_lease_def)
qed

lemma site_jobs:
  "(map drj_id (refresh_jobs site2), map drj_status (refresh_jobs site2), map drj_actor_user_id (refresh_jobs site2),
    map drj_workspace_id (refresh_jobs site2), map drj_lease_epoch (refresh_jobs site2),
    isl (require_current_role site_ctx [ADMIN, OPERATOR] True site2), map drj_connection_id (refresh_jobs site2))
   = ([30], [RefreshJobStatus.QUEUED], [2], [1], [0], False, [20])"
  by code_simp

theorem open_job_claimable_witness:
  "\<exists>j \<in> set (refresh_jobs site2). open_refresh_job j
     \<and> (\<exists>lease d'. refresh_claim site_ctx (drj_id j) (ustr_of ''w'') 5 demo_clock site2 = Inr (lease, d') \<and> rl_lease_epoch lease = 1)"
proof -
  obtain j where j: "refresh_jobs site2 = [j]" "drj_status j = RefreshJobStatus.QUEUED" "drj_actor_user_id j = 2"
    "drj_workspace_id j = 1" "drj_lease_epoch j = 0"
    using site_jobs by (cases "refresh_jobs site2") auto
  obtain u where u: "require_current_role site_ctx [ADMIN, OPERATOR] True site2 = Inr u"
    using site_jobs by (cases "require_current_role site_ctx [ADMIN, OPERATOR] True site2") auto
  have op: "open_refresh_job j" "reclaimable (demo_clock 0) j" using j(2) by (simp_all add: open_refresh_job_def reclaimable_def)
  have "\<exists>lease d'. refresh_claim site_ctx (drj_id j) (ustr_of ''w'') 5 demo_clock site2 = Inr (lease, d') \<and> rl_lease_epoch lease = 1"
    using open_job_claimable [OF site_reach(3) _ op(1), THEN conjunct2, rule_format, of demo_clock site_ctx u "ustr_of ''w''" 5]
      j u op(2) by (auto simp: site_ctx_def ustr_of_def)
  with j op(1) show ?thesis by auto
qed

section \<open>Leases\<close>

lemma obsolete_closes:
  assumes "reg_tables_ok d" and "j \<in> set (refresh_jobs d)"
    and k: "k \<in> set (refresh_jobs (obsolete_refresh_jobs ctx (drj_connection_id j) d))" "drj_id k = drj_id j"
    and c: "scoped_connection (drj_connection_id j) (ctx_workspace_id ctx) d = Some c"
  shows "\<not> open_refresh_job k"
proof -
  have dist: "distinct (map drj_id (refresh_jobs d))" using assms(1) by (simp add: reg_tables_ok_def jobs_inv_def)
  obtain x where x: "x \<in> set (refresh_jobs d)" "k = (if drj_workspace_id x = ctx_workspace_id ctx
      \<and> drj_connection_id x = drj_connection_id j \<and> open_refresh_job x then obsolete_job x else x)"
    using k(1) by (auto simp: obsolete_refresh_jobs_def)
  then have "drj_id x = drj_id j" using k(2) by (auto simp: obsolete_job_def split: if_splits)
  then have "x = j" using distinct_key_eq [OF dist x(1) assms(2)] by simp
  moreover have "drj_workspace_id j = ctx_workspace_id ctx"
    using job_of_the [OF reg_ok_conn(6,7,1) [OF assms(1) c] assms(2)] reg_ok_conn(2,3) [OF assms(1) c] by (simp add: job_of_def)
  ultimately show ?thesis using x(2) obsolete_job_closed by (auto split: if_splits)
qed

text \<open>C29. A late worker can never publish: once a refresh job has been claimed again, or its connection was
  disabled, got a new version or was queued for another refresh, every earlier lease of that job is
  refused by renewal, by the check before contact and by both publications, now and for ever.\<close>

theorem stale_refresh_lease_refused:
  assumes "reach reg_init reg_step (d, drawn)" and "j \<in> set (refresh_jobs d)" and "rl_job_id lease = drj_id j"
    and "(\<exists>ctx worker dur clock new. refresh_claim ctx (drj_id j) worker dur clock d = Inr (new, d')
            \<and> rl_lease_epoch lease < rl_lease_epoch new)
      \<or> (\<exists>ctx corr fresh c. connection_disable ctx (drj_connection_id j) corr fresh d = Inr (c, d'))
      \<or> (\<exists>ext cfg ctx rq ids v. append_version ext cfg ctx (drj_connection_id j) rq ids d = Inr (v, d'))
      \<or> (\<exists>ctx fresh k. enqueue ctx (drj_connection_id j) fresh d = Inr (k, d') \<and> fresh \<notin> drawn)"
    and "reg_step (d, drawn) (d', drawn')" and "reg_step\<^sup>*\<^sup>* (d', drawn') (d'', drawn'')"
  shows "\<not> refresh_accepted lease (d'', drawn'')"
proof -
  note ok = reach_tables [OF assms(1)]
  have inv: "reg_inv (d, drawn)" by (rule registry.reach_inv [OF assms(1)])
  have drawn: "drj_id j \<in> drawn" using inv assms(2) by (auto simp: reg_inv_def reg_ids_def)
  note closed = obsolete_closes [OF ok assms(2)]
  have over: "rl_lease_epoch lease < drj_lease_epoch k \<or> \<not> open_refresh_job k"
    if k: "k \<in> set (refresh_jobs d')" "drj_id k = drj_id j" for k
    using assms(4)
  proof (elim disjE exE conjE)
    fix ctx worker dur clock new
    assume "refresh_claim ctx (drj_id j) worker dur clock d = Inr (new, d')" and lt: "rl_lease_epoch lease < rl_lease_epoch new"
    then show ?thesis
      by (elim refresh_claim_Inr) (use k in \<open>auto simp: refresh_lease_def rows_put_mem\<close>)
  next
    fix ctx corr fresh c assume "connection_disable ctx (drj_connection_id j) corr fresh d = Inr (c, d')"
    then show ?thesis
      by (elim connection_disable_Inr) (rule disjI2, rule closed, use k in \<open>auto simp: obsolete_refresh_jobs_def
            dest: scoped_connection_Some\<close>)
  next
    fix ext cfg ctx rq ids v assume "append_version ext cfg ctx (drj_connection_id j) rq ids d = Inr (v, d')"
    then show ?thesis
      by (elim append_version_Inr) (rule disjI2, rule closed, use k in \<open>auto simp: obsolete_refresh_jobs_def
            dest: scoped_connection_Some\<close>)
  next
    fix ctx fresh x assume "enqueue ctx (drj_connection_id j) fresh d = Inr (x, d')" and "fresh \<notin> drawn"
    then show ?thesis
      by (elim enqueue_Inr) (rule disjI2, rule closed, use k drawn in \<open>auto simp: obsolete_refresh_jobs_def queued_job_def\<close>)
  qed
  have "refresh_over lease (d', drawn')"
    using over drawn assms(3) reg_step_drawn [OF assms(5)] by (auto simp: refresh_over_def)
  then show ?thesis by (rule refresh_leases.never_accepted [OF assms(6) reg_step_inv [OF assms(5) inv]])
qed

definition halted where "halted = connection_disable site_ctx 20 None 60 site3"

definition site_halted :: db where "site_halted = snd (projr halted)"

lemma halted_rows:
  "(isl halted, map drj_id (refresh_jobs site3), map drj_connection_id (refresh_jobs site3), rl_job_id site_lease)
   = (False, [30], [20], 30)"
  by code_simp

theorem stale_refresh_lease_refused_witness:
  "\<not> isl (connection_disable site_ctx 20 None 60 site3) \<and> \<not> refresh_accepted site_lease (site_halted, {30, 20, 21})"
proof -
  have ok: "connection_disable site_ctx 20 None 60 site3 = Inr (fst (projr halted), site_halted)"
    using halted_rows by (cases halted) (auto simp: site_halted_def simp flip: halted_def)
  obtain j where j: "refresh_jobs site3 = [j]" "drj_id j = 30" "drj_connection_id j = 20"
    using halted_rows by (cases "refresh_jobs site3") auto
  have "\<not> refresh_accepted site_lease (site_halted, {30, 20, 21})"
  proof (rule stale_refresh_lease_refused [OF site_reach(4) _ _ _ reg_step.disable [OF ok] rtranclp.rtrancl_refl])
    show "j \<in> set (refresh_jobs site3)" "rl_job_id site_lease = drj_id j" using j halted_rows by simp_all
    have "connection_disable site_ctx (drj_connection_id j) None 60 site3 = Inr (fst (projr halted), site_halted)" using ok j(3) by simp
    then have "\<exists>ctx corr fresh c. connection_disable ctx (drj_connection_id j) corr fresh site3 = Inr (c, site_halted)" by blast
    then show "(\<exists>ctx worker dur clock new. refresh_claim ctx (drj_id j) worker dur clock site3 = Inr (new, site_halted)
          \<and> rl_lease_epoch site_lease < rl_lease_epoch new)
      \<or> (\<exists>ctx corr fresh c. connection_disable ctx (drj_connection_id j) corr fresh site3 = Inr (c, site_halted))
      \<or> (\<exists>ext cfg ctx rq ids v. append_version ext cfg ctx (drj_connection_id j) rq ids site3 = Inr (v, site_halted))
      \<or> (\<exists>ctx fresh k. enqueue ctx (drj_connection_id j) fresh site3 = Inr (k, site_halted) \<and> fresh \<notin> {30, 20, 21})"
      by (intro disjI1 disjI2)
  qed
  with ok show ?thesis by simp
qed

section \<open>Publications\<close>

lemma mapped_other:
  assumes "g c \<noteq> k" and "\<And>x. g (f x) = g x" and "\<And>x. g x \<noteq> k \<Longrightarrow> f x = x"
  shows "c \<in> set (map f xs) \<longleftrightarrow> c \<in> set xs"
  using assms by (metis (mono_tags, lifting) image_iff list.set_map)

lemma listing_capabilities:
  assumes "reg_tables_ok d" and d2: "published_from s d d2" and fresh: "publication_fresh result ids d"
    and d3: "fold_res (publish_tool ext ctx lease (dr_protocol_revision result) (snap_id s)) (pub_tool_list result ids) d2 = Inr d3"
    and s: "snap_workspace_id s = ctx_workspace_id ctx" "snap_connection_id s = rl_connection_id lease"
      "snap_connection_version_id s = rl_connection_version_id lease"
    and caps: "capabilities d' = capabilities (mark_missing_unavailable ctx (rl_connection_id lease) (map tool_identity (dr_tools result)) d3)"
    and own: "owns (connections d) (rl_connection_id lease) (ctx_workspace_id ctx)"
  shows "\<forall>t \<in> set (dr_tools result). \<exists>c \<in> set (capabilities d'). cap_slot c = (rl_connection_id lease, tool_identity t)
         \<and> cap_status c \<noteq> UNAVAILABLE"
    and "\<forall>c \<in> set (capabilities d'). cap_connection_id c = rl_connection_id lease
         \<and> cap_tool_identity c \<notin> tool_identity ` set (dr_tools result) \<longrightarrow>
         cap_status c = UNAVAILABLE \<or> cap_status c = CapabilityStatus.DISABLED"
    and "\<forall>c. cap_connection_id c \<noteq> rl_connection_id lease \<longrightarrow> c \<in> set (capabilities d') \<longleftrightarrow> c \<in> set (capabilities d)"
proof -
  let ?obs = "map tool_identity (dr_tools result)"
  note p = publication_capabilities [OF assms(1) d2 fresh d3 s]
  note rec = p(3) [unfolded tools_recorded_def]
  have c2: "capabilities d2 = capabilities d" "connections d2 = connections d" using published_from_frame [OF d2] by simp_all
  have conn3: "connections d3 = connections d" using rec caps_only_frame(1) [of d2 d3] c2 by simp
  show "\<forall>t \<in> set (dr_tools result). \<exists>c \<in> set (capabilities d'). cap_slot c = (rl_connection_id lease, tool_identity t)
         \<and> cap_status c \<noteq> UNAVAILABLE"
  proof
    fix t assume t: "t \<in> set (dr_tools result)"
    then obtain c where c: "c \<in> set (capabilities d3)" "cap_slot c = (rl_connection_id lease, tool_identity t)" "cap_status c \<noteq> UNAVAILABLE"
      using rec by fastforce
    then have "c \<in> set (capabilities d')" unfolding caps p(5) using t by (force simp: cap_slot_def)
    with c show "\<exists>c \<in> set (capabilities d'). cap_slot c = (rl_connection_id lease, tool_identity t) \<and> cap_status c \<noteq> UNAVAILABLE" by blast
  qed
  have ws: "cap_workspace_id c = ctx_workspace_id ctx" if "c \<in> set (capabilities d3)" "cap_connection_id c = rl_connection_id lease" for c
  proof -
    have "c \<in> set (capabilities d) \<or> cap_workspace_id c = ctx_workspace_id ctx" using rec that(1) c2(1) by auto
    moreover have "cap_workspace_id c = ctx_workspace_id ctx" if "c \<in> set (capabilities d)"
      using assms(1) that \<open>cap_connection_id c = rl_connection_id lease\<close> own owns_unique [of "connections d" "rl_connection_id lease"]
      by (auto simp: reg_tables_ok_def capconn_inv_def conns_inv_def)
    ultimately show ?thesis by blast
  qed
  show "\<forall>c \<in> set (capabilities d'). cap_connection_id c = rl_connection_id lease
         \<and> cap_tool_identity c \<notin> tool_identity ` set (dr_tools result) \<longrightarrow>
         cap_status c = UNAVAILABLE \<or> cap_status c = CapabilityStatus.DISABLED"
    unfolding caps p(5) using ws by (auto simp: unavailable_def)
  have "c \<in> set (capabilities d3) \<longleftrightarrow> c \<in> set (capabilities d)" if "cap_connection_id c \<noteq> rl_connection_id lease" for c
  proof
    assume "c \<in> set (capabilities d3)"
    with rec c2(1) that show "c \<in> set (capabilities d)" by (auto simp: cap_slot_def)
  next
    assume "c \<in> set (capabilities d)"
    then have "\<exists>x \<in> set (capabilities d3). observed_change c x \<and> (cap_slot c \<notin> Pair (rl_connection_id lease) ` set ?obs \<longrightarrow> x = c)"
      using rec unfolding c2(1) by simp
    with that show "c \<in> set (capabilities d3)" by (auto simp: cap_slot_def)
  qed
  moreover have "c \<in> set (capabilities d') \<longleftrightarrow> c \<in> set (capabilities d3)" if "cap_connection_id c \<noteq> rl_connection_id lease" for c
    unfolding caps p(5)
    by (rule mapped_other [where g = cap_connection_id and k = "rl_connection_id lease"]) (use that in \<open>simp_all add: unavailable_def\<close>)
  ultimately show "\<forall>c. cap_connection_id c \<noteq> rl_connection_id lease \<longrightarrow> c \<in> set (capabilities d') \<longleftrightarrow> c \<in> set (capabilities d)"
    by blast
qed

text \<open>C30. A publication makes the observed listing the state of the registry: the connection is executable
  with exactly the version that was contacted and points to the new snapshot, the job has succeeded,
  every observed tool is a capability that is not unavailable, and every other capability of the
  connection is unavailable or disabled; no capability of another connection changed.\<close>

theorem publication_installs_listing:
  assumes "reach reg_init reg_step (d, drawn)"
    and "publish_success ext ctx lease result ids clock d = Inr (s, d')"
    and "distinct (map tool_identity (dr_tools result))" and "distinct (publication_draw result ids)"
    and "set (publication_draw result ids) \<inter> drawn = {}"
  shows "(\<exists>c \<in> set (connections d'). conn_id c = rl_connection_id lease \<and> is_executable c (rl_connection_version_id lease)
        \<and> conn_current_snapshot_id c = Some (snap_id s) \<and> s \<in> set (snapshots d'))
    \<and> (\<exists>j \<in> set (refresh_jobs d'). drj_id j = rl_job_id lease \<and> drj_status j = RefreshJobStatus.SUCCEEDED)
    \<and> (\<forall>t \<in> set (dr_tools result). \<exists>c \<in> set (capabilities d'). cap_slot c = (rl_connection_id lease, tool_identity t)
         \<and> cap_status c \<noteq> UNAVAILABLE)
    \<and> (\<forall>c \<in> set (capabilities d'). cap_connection_id c = rl_connection_id lease
         \<and> cap_tool_identity c \<notin> tool_identity ` set (dr_tools result) \<longrightarrow>
         cap_status c = UNAVAILABLE \<or> cap_status c = CapabilityStatus.DISABLED)
    \<and> (\<forall>c. cap_connection_id c \<noteq> rl_connection_id lease \<longrightarrow> c \<in> set (capabilities d') \<longleftrightarrow> c \<in> set (capabilities d))"
proof -
  note ok = reach_tables [OF assms(1)]
  have inv: "reg_inv (d, drawn)" by (rule registry.reach_inv [OF assms(1)])
  then have fresh: "publication_fresh result ids d"
    using publication_draw_fresh [OF assms(4,5,3)] by (simp add: reg_inv_def)
  show ?thesis
    using assms(2) ok fresh
  proof (rule publication_tables)
    fix j c d2 d3
    let ?obs = "map tool_identity (dr_tools result)"
    let ?d4 = "mark_missing_unavailable ctx (rl_connection_id lease) ?obs d3"
    let ?c = "refreshed c (rl_connection_version_id lease) (snap_id s) (clock 1)"
    assume j: "j \<in> set (refresh_jobs d)" "lease_matches ctx lease j"
      and c: "eligible_for ctx lease d = Inr c" and d2: "published_from s d d2"
      and s: "snap_workspace_id s = ctx_workspace_id ctx" "snap_connection_id s = rl_connection_id lease"
        "snap_connection_version_id s = rl_connection_version_id lease"
      and d3: "fold_res (publish_tool ext ctx lease (dr_protocol_revision result) (snap_id s)) (pub_tool_list result ids) d2 = Inr d3"
      and t: "connections d' = rows_put conn_id ?c (connections d)"
        "refresh_jobs d' = rows_put drj_id (ended_refresh_job RefreshJobStatus.SUCCEEDED j) (refresh_jobs d)"
        "snapshots d' = snapshots d @ [s]"
      and t4: "\<And>d4. d4 = ?d4 \<Longrightarrow> capabilities d' = capabilities d4 \<and> capability_versions d' = capability_versions d4
      \<and> tool_bindings d' = tool_bindings d4 \<and> status_events d' = status_events d4
      \<and> snapshot_capabilities d' = snapshot_capabilities d4"
    have el: "scoped_connection (rl_connection_id lease) (ctx_workspace_id ctx) d = Some c" using c by (simp add: lock_eligible_connection_Inr)
    note r = reg_ok_conn [OF ok el]
    have caps: "capabilities d' = capabilities ?d4" using t4 [OF refl] by simp
    note l = listing_capabilities [OF ok d2 fresh d3 s caps owns_scoped [OF el]]
    have "?c \<in> set (connections d')" unfolding t using r(1) by (auto simp: rows_put_mem)
    then have "\<exists>c \<in> set (connections d'). conn_id c = rl_connection_id lease \<and> is_executable c (rl_connection_version_id lease)
        \<and> conn_current_snapshot_id c = Some (snap_id s) \<and> s \<in> set (snapshots d')"
      using r(2) t(3) by (intro bexI [of _ ?c]) (simp_all add: is_executable_def)
    moreover have "ended_refresh_job RefreshJobStatus.SUCCEEDED j \<in> set (refresh_jobs d')"
      unfolding t using j(1) by (auto simp: rows_put_mem ended_refresh_job_def)
    then have "\<exists>j \<in> set (refresh_jobs d'). drj_id j = rl_job_id lease \<and> drj_status j = RefreshJobStatus.SUCCEEDED"
      using j(2) by (intro bexI [of _ "ended_refresh_job RefreshJobStatus.SUCCEEDED j"]) (simp_all add: ended_refresh_job_def lease_matches_def)
    ultimately show ?thesis using l by simp
  qed
qed

theorem publication_installs_listing_witness:
  "(\<exists>c \<in> set (connections site4). conn_id c = rl_connection_id site_lease \<and> is_executable c (rl_connection_version_id site_lease))
   \<and> (\<exists>c \<in> set (capabilities site4). cap_tool_identity c = ustr_of ''t'' \<and> cap_status c \<noteq> UNAVAILABLE)"
proof -
  have "site_tool \<in> set (dr_tools site_result)" "tool_identity site_tool = ustr_of ''t''"
    "distinct (map tool_identity (dr_tools site_result))" by (simp_all add: site_result_def site_tool_def)
  then show ?thesis
    using publication_installs_listing [OF site_reach(4) site_ops(4)] unfolding site_draw by (fastforce simp: cap_slot_def)
qed

section \<open>Connections\<close>

text \<open>No step loses a connection or turns its clocks back: identity and workspace stay, control epoch and
  refresh generation never fall, within one control epoch the version a refresh is about is always the
  same, and a disabled connection stays disabled except through \<open>ConnectionService.enable\<close>.\<close>

theorem connection_changes:
  assumes "reach reg_init reg_step (d, drawn)" and "reg_step (d, drawn) (d', drawn')" and "c \<in> set (connections d)"
  shows "\<exists>c' \<in> set (connections d'). conn_id c' = conn_id c \<and> conn_workspace_id c' = conn_workspace_id c
    \<and> conn_control_epoch c \<le> conn_control_epoch c' \<and> conn_refresh_generation c \<le> conn_refresh_generation c'
    \<and> (conn_control_epoch c' = conn_control_epoch c \<longrightarrow> conn_target c' = conn_target c)
    \<and> (conn_lifecycle c = ConnectionLifecycle.DISABLED \<and> conn_lifecycle c' \<noteq> ConnectionLifecycle.DISABLED \<longrightarrow>
         (\<exists>ctx corr fresh. connection_enable ctx (conn_id c) corr fresh d = Inr (c', d')))"
proof -
  obtain c' where "c' \<in> set (connections d')" "conn_change c c'"
    "conn_lifecycle c = ConnectionLifecycle.DISABLED \<longrightarrow> conn_lifecycle c' = ConnectionLifecycle.DISABLED \<or> reopened d c c' d'"
    by (rule reg_step_connection [OF assms(2) registry.reach_inv [OF assms(1)] assms(3)]) blast
  then show ?thesis by (intro bexI [of _ c']) (auto simp: conn_change_def reopened_def)
qed

lemma site3_connection: "map conn_refresh_generation (connections site3) = [1]"
  by code_simp

theorem connection_changes_witness:
  "\<exists>c \<in> set (connections site3). conn_refresh_generation c = 1
     \<and> (\<exists>c' \<in> set (connections site4). conn_id c' = conn_id c \<and> 1 \<le> conn_refresh_generation c')"
proof -
  obtain c where c: "connections site3 = [c]" "conn_refresh_generation c = 1"
    using site3_connection by (cases "connections site3") auto
  with connection_changes [OF site_reach(4) site_steps(4), of c] show ?thesis by auto
qed

end
