(* ===== verification/System.thy ===== *)
theory System
  imports Reg_Refresh Exec_Quarantine
begin

text \<open>
  Execution and registry together: both services work on one database, each on its own tables. Runs pin
  the control epoch of their connection and the status epoch of their capability at admission; since
  epochs never come back, disabling either ends the authority of every run admitted before.
\<close>

section \<open>Each service keeps to its tables\<close>

lemma reg_tables_same_trans: "reg_tables_same a b \<Longrightarrow> reg_tables_same b c \<Longrightarrow> reg_tables_same a c"
  by (simp add: reg_tables_same_def)

lemma served_reg_tables: "served d d' \<Longrightarrow> reg_tables_same d d'"
proof -
  assume "served d d'"
  then obtain x a where d': "ledger_only (d\<lparr>execution_state := x, audit_events := a\<rparr>) d'" by (auto simp: served_def)
  show ?thesis unfolding reg_tables_same_def by (intro conjI) (subst d' [unfolded ledger_only_def], simp)+
qed

lemma execution_state_row_reg: "execution_state_row now d = (st, d0) \<Longrightarrow> reg_tables_same d d0"
  by (rule served_reg_tables [OF execution_state_row_served])

lemma add_rows_reg:
  "reg_tables_same d (add_nonce n d)" "reg_tables_same d (delete_runs ids d)"
  "reg_tables_same d (d\<lparr>execution_state := x\<rparr>)"
  by (simp_all add: reg_tables_same_def add_nonce_def delete_runs_def)

lemma write_admission_reg: "write_admission run job nonce record now d = Inr (run', d') \<Longrightarrow> reg_tables_same d d'"
  by (drule write_admission_Inr(6)) (simp add: reg_tables_same_def add_defs)

lemma create_run_reg:
  assumes "create_run ext cfg ctx rq ids clock d = Inr (run, d')"
  shows "reg_tables_same d d'"
  using assms
proof (cases rule: create_run_Inr)
  case (replayed st d0 existing request claims dig now)
  have "reg_tables_same d0 d'"
    by (rule replay_existing_run_Inr [OF replayed(3)]) (auto simp: add_rows_reg reg_tables_same_def add_nonce_def)
  with execution_state_row_reg [OF replayed(1)] show ?thesis by (rule reg_tables_same_trans)
next
  case (admitted st d0 claims dig normalized digest requested request nonce_bytes)
  have "reg_tables_same d0 d'"
    by (rule admit_new_run_Inr [OF admitted(9)]) (rule write_admission_reg)
  with execution_state_row_reg [OF admitted(1)] show ?thesis by (rule reg_tables_same_trans)
qed

lemma exec_step_reg_tables:
  assumes "exec_step (d, e) (d', e')" and "ledger_ok d"
  shows "reg_tables_same d d' \<or> exec_tables_same d d'"
  using assms
proof (cases rule: exec_step_cases)
  case served
  then show ?thesis using served_reg_tables by blast
next
  case (created ext cfg ctx rq ids clock run)
  then show ?thesis using create_run_reg by blast
next
  case (entered auth clock k)
  have "reg_tables_same d d'"
    using entered(1) execution_state_row_reg [of "clock 1" d]
    by (cases "execution_state_row (clock 1) d")
      (auto simp: enter_restore_quarantine_def and_then_Inr Let_def reg_tables_same_def)
  then show ?thesis ..
next
  case (cleared auth clock k)
  have "reg_tables_same d d'"
    by (rule clear_restore_quarantine_Inr [OF cleared(1)])
      (use execution_state_row_reg [of "clock 0" d] in \<open>auto simp: reg_tables_same_def\<close>)
  then show ?thesis ..
next
  case (deleted limits n locked clock k)
  have "reg_tables_same d d'"
    by (rule delete_expired_run_metadata_Inr [OF deleted(1)]) (simp add: add_rows_reg)
  then show ?thesis ..
qed auto

lemma exec_frames:
  "exec_tables_same d (put_connection c x) = exec_tables_same d x" "exec_tables_same d (put_refresh_job j x) = exec_tables_same d x"
  "exec_tables_same d (obsolete_refresh_jobs ctx i x) = exec_tables_same d x"
  "exec_tables_same d (connection_audit ctx a i corr fresh x) = exec_tables_same d x"
  "exec_tables_same d (capability_audit ctx a i corr fresh x) = exec_tables_same d x"
  "exec_tables_same d (revise_capability ctx cap v x) = exec_tables_same d x"
  "exec_tables_same d (x\<lparr>connection_versions := vs\<rparr>) = exec_tables_same d x"
  "exec_tables_same d (x\<lparr>connections := cs\<rparr>) = exec_tables_same d x"
  "exec_tables_same d (x\<lparr>refresh_jobs := js\<rparr>) = exec_tables_same d x" "exec_tables_same d d"
  by (simp_all add: exec_tables_same_def put_connection_def put_refresh_job_def obsolete_refresh_jobs_def connection_audit_def
      capability_audit_def add_audit_def revise_capability_def append_status_event_def put_capability_def Let_def)

lemma exec_tables_same_trans: "exec_tables_same a b \<Longrightarrow> exec_tables_same b c \<Longrightarrow> exec_tables_same a c"
  by (simp add: exec_tables_same_def)

lemma caps_only_exec: "caps_only d d' \<Longrightarrow> exec_tables_same d d'"
proof -
  assume c: "caps_only d d'"
  show ?thesis unfolding exec_tables_same_def by (intro conjI) (subst c [unfolded caps_only_def], simp)+
qed

lemma published_from_exec: "published_from s d d2 \<Longrightarrow> exec_tables_same d d2"
proof -
  assume p: "published_from s d d2"
  show ?thesis unfolding exec_tables_same_def by (intro conjI) (subst p [unfolded published_from_def], simp)+
qed

lemma publish_success_exec:
  assumes "publish_success ext ctx lease result ids clock d = Inr (s, d')" and "reg_tables_ok d" and "publication_fresh result ids d"
  shows "exec_tables_same d d'"
  using assms(1)
proof (rule publish_success_Inr)
  fix j c d2 d3 d5 and c5 :: ServerConnection
  let ?d4 = "mark_missing_unavailable ctx (rl_connection_id lease) (map tool_identity (dr_tools result)) d3"
  assume c: "eligible_for ctx lease d = Inr c" and d2: "published_from s d d2"
    and s: "snap_workspace_id s = ctx_workspace_id ctx" "snap_connection_id s = rl_connection_id lease"
      "snap_connection_version_id s = rl_connection_version_id lease"
    and d3: "fold_res (publish_tool ext ctx lease (dr_protocol_revision result) (snap_id s)) (pub_tool_list result ids) d2 = Inr d3"
    and c5: "(if conn_pending_version_id c \<noteq> None
          then promote_pending ctx (rl_connection_id lease) (rl_connection_version_id lease)
                    (rl_control_epoch lease) (rl_generation lease) None (pub_correlation ids) ?d4
          else complete_refresh ctx (rl_connection_id lease) (rl_connection_version_id lease)
                    (rl_control_epoch lease) (rl_generation lease) ?d4) = Inr (c5, d5)"
    and d': "d' = put_refresh_job (ended_refresh_job RefreshJobStatus.SUCCEEDED j) (put_connection
      (c5\<lparr>conn_current_snapshot_id := Some (snap_id s), conn_last_refresh_error_code := None,
         conn_last_refresh_at := Some (clock 1)\<rparr>) d5)"
  note only = publication_capabilities(2) [OF assms(2) d2 assms(3) d3 s]
  have sc: "scoped_connection (rl_connection_id lease) (ctx_workspace_id ctx) ?d4 = Some c"
    using c scoped_connection_cong [of ?d4 d] caps_only_frame(1) [OF only] published_from_frame(1) [OF d2]
    by (simp add: lock_eligible_connection_Inr)
  have "exec_tables_same ?d4 d'"
    using end_refresh_Inr(2) [OF c5 sc] unfolding d' by (auto simp: exec_tables_same_def put_connection_def put_refresh_job_def)
  with caps_only_exec [OF only] published_from_exec [OF d2] show ?thesis using exec_tables_same_trans by blast
qed

lemma reg_step_exec_tables:
  assumes "reg_step (d, r) (d', r')" and "reg_inv (d, r)"
  shows "exec_tables_same d d' \<or> reg_tables_same d d'"
  using assms(1)
proof cases
  case (create ext cfg ctx name rq ids b)
  from create(2) have "exec_tables_same d d'"
    by (rule connection_create_Inr) (simp add: exec_frames)
  then show ?thesis ..
next
  case (append ext cfg ctx i rq ids v)
  from append(2) have "exec_tables_same d d'"
    by (rule append_version_Inr) (simp add: exec_frames)
  then show ?thesis ..
next
  case (disable ctx i corr fresh b)
  from disable(2) have "exec_tables_same d d'" by (rule connection_disable_Inr) (simp add: exec_frames)
  then show ?thesis ..
next
  case (enable ctx i corr fresh b)
  from enable(2) have "exec_tables_same d d'" by (rule connection_enable_Inr) (simp add: exec_frames)
  then show ?thesis ..
next
  case (enqueue ctx i fresh j)
  from enqueue(2) have "exec_tables_same d d'" by (rule enqueue_Inr) (simp add: exec_frames)
  then show ?thesis ..
next
  case (claim ctx i worker dur clock lease)
  from claim(2) have "exec_tables_same d d'" by (rule refresh_claim_Inr) (simp add: exec_frames)
  then show ?thesis ..
next
  case (renew ctx lease dur clock lease')
  from renew(2) have "exec_tables_same d d'" by (rule renew_Inr) (simp add: exec_frames)
  then show ?thesis ..
next
  case (publish ext ctx lease result ids clock s)
  have "publication_fresh result ids d"
    using publication_draw_fresh [OF publish(4,5,3)] assms(2) by (simp add: reg_inv_def)
  then have "exec_tables_same d d'" using publish_success_exec [OF publish(2)] assms(2) by (simp add: reg_inv_def)
  then show ?thesis ..
next
  case (fail ctx lease code clock b)
  from fail(2) have "exec_tables_same d d'" by (rule publish_failure_Inr) (simp add: exec_frames)
  then show ?thesis ..
next
  case (enable_capability ctx i v corr fresh cap)
  from enable_capability(2) have "exec_tables_same d d'" by (rule capability_enable_Inr) (simp add: exec_frames)
  then show ?thesis ..
next
  case (disable_capability ctx i v corr fresh cap)
  from disable_capability(2) have "exec_tables_same d d'" by (rule capability_disable_Inr) (simp add: exec_frames)
  then show ?thesis ..
next
  case environment
  then show ?thesis by simp
qed

section \<open>The system\<close>

text \<open>The state: the database, the run ids and the registry ids drawn so far.\<close>

inductive sys_step :: "db \<times> uuid set \<times> uuid set \<Rightarrow> db \<times> uuid set \<times> uuid set \<Rightarrow> bool" where
  execution: "exec_step (d, e) (d', e') \<Longrightarrow> reg_tables_same d d' \<Longrightarrow> sys_step (d, e, r) (d', e', r)"
| registry: "reg_step (d, r) (d', r') \<Longrightarrow> exec_tables_same d d' \<Longrightarrow> sys_step (d, e, r) (d', e, r')"

definition sys_init :: "db \<times> uuid set \<times> uuid set \<Rightarrow> bool" where
  "sys_init = (\<lambda>(d, e, r). exec_init (d, e) \<and> reg_init (d, r))"

text \<open>Every run points to an existing connection and capability of its workspace, and what it pinned is not
  ahead of them.\<close>

definition run_pinned :: "Run \<Rightarrow> db \<Rightarrow> bool" where
  "run_pinned run d \<longleftrightarrow>
     (\<exists>c \<in> set (connections d). conn_id c = run_connection_id run \<and> conn_workspace_id c = run_workspace_id run
        \<and> run_connection_control_epoch run \<le> conn_control_epoch c)
     \<and> (\<exists>k \<in> set (capabilities d). cap_id k = run_capability_id run \<and> cap_workspace_id k = run_workspace_id run
        \<and> run_capability_status_epoch run \<le> cap_status_epoch k)"

definition run_pins :: "Run \<Rightarrow> uuid \<times> uuid \<times> nat \<times> uuid \<times> nat" where
  "run_pins run = (run_workspace_id run, run_connection_id run, run_connection_control_epoch run, run_capability_id run,
     run_capability_status_epoch run)"

lemma run_pinned_cong: "run_pins a = run_pins b \<Longrightarrow> run_pinned a d = run_pinned b d"
  by (simp add: run_pins_def run_pinned_def)

lemma run_pinned_same: "reg_tables_same d d' \<Longrightarrow> run_pinned run d' = run_pinned run d"
  by (simp add: reg_tables_same_def run_pinned_def)

text \<open>No operation changes what a run pinned.\<close>

lemma lineage_step_pins: "lineage_step l l' \<Longrightarrow> run_pins (ln_run l') = run_pins (ln_run l)"
  by (cases rule: lineage_step.cases)
    (auto simp: run_pins_def claimed_def fenced_def completed_def ended_def noted_def without_content_def Let_def lost_def
      terminal_run_def)

lemma lineage_steps_pins: "lineage_step\<^sup>*\<^sup>* l l' \<Longrightarrow> run_pins (ln_run l') = run_pins (ln_run l)"
  by (induction rule: rtranclp_induct) (simp_all add: lineage_step_pins)

lemma load_admission_target_Inr:
  assumes "load_admission_target ctx v d = Inr target"
  shows "tgt_connection target \<in> set (connections d)" "conn_workspace_id (tgt_connection target) = ctx_workspace_id ctx"
    "tgt_capability target \<in> set (capabilities d)" "cap_workspace_id (tgt_capability target) = ctx_workspace_id ctx"
  using assms
  by (auto simp: load_admission_target_def Let_def split: option.splits if_splits
      dest!: scoped_connection_Some scoped_capability_Some)

text \<open>A run that has just been admitted pins the present epochs.\<close>

lemma admitted_run_pinned:
  assumes "create_run ext cfg ctx rq ids clock d = Inr (run, d')" and "exec_inv (d, e)" and "\<not> invalid_limits (cfg_limits cfg)"
    and "run' \<in> set (runs d')" and "run_id run' = fresh_run ids" and "fresh_run ids \<notin> e"
  shows "run_pinned run' d"
  using assms(1)
proof (cases rule: create_run_Inr)
  case (replayed st d0 existing request claims dig now)
  have "runs d0 = runs d" using execution_state_row_tables [OF replayed(1)] by simp
  moreover have "runs d' = runs d0" by (rule replay_existing_run_Inr [OF replayed(3)]) (auto simp: add_nonce_runs)
  ultimately have "run_id run' \<in> e" using assms(2,4) by (auto simp: exec_inv_def)
  with assms(5,6) show ?thesis by simp
next
  case (admitted st d0 claims dig normalized digest requested request nonce_bytes)
  have inv: "exec_inv (d0, e)" using served_inv [OF execution_state_row_served [OF admitted(1)] assms(2)] .
  have same: "reg_tables_same d d0" by (rule execution_state_row_reg [OF admitted(1)])
  have "exec_inv (d', insert (fresh_run ids) e)" by (rule create_run_inv [OF assms(1-3)])
  then have dist: "distinct (map run_id (runs d'))" by (simp add: exec_inv_def ledger_ok_distinct_runs)
  show ?thesis
  proof (rule admit_new_run_Inr [OF admitted(9)])
    fix target deadline
    assume t: "load_admission_target ctx (rq_capability_version_id rq) d0 = Inr target"
      and run: "run = admitted_run cfg ctx ids (rq_correlation_id rq) target normalized digest deadline (clock 3)"
      and w: "write_admission run (admitted_job st ids run (clock 3)) (consumed_nonce ctx claims dig (run_id run) (clock 3))
        (admitted_record ext cfg ctx ids claims (rq_idempotency_key rq) request run (clock 3)) (clock 3) d0 = Inr (run, d')"
    have "run \<in> set (runs d')" by (simp add: write_admission_Inr(6) [OF w] add_defs)
    then have "run' = run" using distinct_key_eq [OF dist assms(4)] assms(5) run by (simp add: admitted_run_def)
    moreover have "run_pinned run d0"
      using load_admission_target_Inr [OF t] unfolding run_pinned_def run by (auto simp: admitted_run_def)
    ultimately show ?thesis using run_pinned_same [OF same] by simp
  qed
qed

definition sys_inv :: "db \<times> uuid set \<times> uuid set \<Rightarrow> bool" where
  "sys_inv = (\<lambda>(d, e, r). exec_inv (d, e) \<and> reg_inv (d, r) \<and> (\<forall>run \<in> set (runs d). run_pinned run d))"

lemma sys_init_inv: "sys_init s \<Longrightarrow> sys_inv s"
  by (cases s) (auto simp: sys_init_def sys_inv_def exec_init_inv reg_init_inv, auto simp: exec_init_def)

text \<open>Where a run row comes from: an earlier row of the same run with the same pins, or its admission.\<close>

lemma exec_step_run:
  assumes "exec_step (d, e) (d', e')" and "exec_inv (d, e)" and "run' \<in> set (runs d')"
  shows "(\<exists>run \<in> set (runs d). run_id run = run_id run' \<and> run_pins run = run_pins run')
    \<or> run_id run' \<notin> e \<and> (exec_tables_same d d' \<or> run_pinned run' d)"
proof (cases "run_id run' \<in> e")
  case True
  have ok': "ledger_ok d'" using exec_step_inv [OF assms(2,1)] by (simp add: exec_inv_def)
  obtain l' where l': "has_lineage d' (run_id run') l'" "ln_run l' = run'" using ledger_ok_lineage [OF ok' assms(3)] by blast
  obtain l where l: "has_lineage d (run_id run') l" "lineage_step\<^sup>*\<^sup>* l l'"
    by (rule exec_step_lineage [OF assms(2,1) True l'(1)])
  then show ?thesis
    using has_lineage_mem [OF l(1)] has_lineage_id [OF l(1)] lineage_steps_pins [OF l(2)] l'(2)
    by (intro disjI1 bexI [of _ "ln_run l"]) simp_all
next
  case False
  have inv': "exec_inv (d', e')" by (rule exec_step_inv [OF assms(2,1)])
  then have new: "run_id run' \<in> e'" using assms(3) by (auto simp: exec_inv_def)
  have ok: "ledger_ok d" using assms(2) by (simp add: exec_inv_def)
  from assms(1) ok have "exec_tables_same d d' \<or> run_pinned run' d"
  proof (cases rule: exec_step_cases)
    case (created ext cfg ctx rq ids clock run)
    then show ?thesis
      using admitted_run_pinned [OF created(1) assms(2) created(2) assms(3)] new False by simp
  qed (use new False in auto)
  with False show ?thesis by simp
qed

lemma run_pinned_step:
  assumes "reg_step (d, r) (d', r')" and "reg_inv (d, r)" and "run_pinned run d"
  shows "run_pinned run d'"
proof -
  obtain c k where c: "c \<in> set (connections d)" "conn_id c = run_connection_id run" "conn_workspace_id c = run_workspace_id run"
      "run_connection_control_epoch run \<le> conn_control_epoch c"
    and k: "k \<in> set (capabilities d)" "cap_id k = run_capability_id run" "cap_workspace_id k = run_workspace_id run"
      "run_capability_status_epoch run \<le> cap_status_epoch k"
    using assms(3) by (auto simp: run_pinned_def)
  obtain c' where c': "c' \<in> set (connections d')" "conn_change c c'" by (rule reg_step_connection [OF assms(1,2) c(1)])
  obtain k' where k': "k' \<in> set (capabilities d')" "cap_id k' = cap_id k" "cap_workspace_id k' = cap_workspace_id k"
    "k' = k \<or> cap_status_epoch k < cap_status_epoch k'"
    by (rule reg_step_capability [OF assms(1,2) k(1)]) (use decided_epoch in blast)
  show ?thesis
    unfolding run_pinned_def
  proof (intro conjI)
    show "\<exists>c \<in> set (connections d'). conn_id c = run_connection_id run \<and> conn_workspace_id c = run_workspace_id run
        \<and> run_connection_control_epoch run \<le> conn_control_epoch c"
      using c c' by (intro bexI [of _ c']) (simp_all add: conn_change_def)
    show "\<exists>k \<in> set (capabilities d'). cap_id k = run_capability_id run \<and> cap_workspace_id k = run_workspace_id run
        \<and> run_capability_status_epoch run \<le> cap_status_epoch k"
      using k k' by (intro bexI [of _ k']) auto
  qed
qed

lemma sys_step_inv:
  assumes "sys_inv s" and "sys_step s t"
  shows "sys_inv t"
  using assms(2,1)
proof (induction rule: sys_step.induct)
  case (execution d e d' e' r)
  then have inv: "exec_inv (d, e)" "reg_inv (d, r)" "\<forall>run \<in> set (runs d). run_pinned run d" by (simp_all add: sys_inv_def)
  have "run_pinned run' d'" if run': "run' \<in> set (runs d')" for run'
  proof -
    have "run_pinned run' d" if "exec_tables_same d d'" using that run' inv(3) by (simp add: exec_tables_same_def)
    then have "run_pinned run' d"
      using exec_step_run [OF execution(1) inv(1) run'] inv(3) run_pinned_cong by blast
    then show ?thesis using run_pinned_same [OF execution(2)] by simp
  qed
  moreover have "reg_inv (d', r)" using inv(2) reg_tables_same_ok [OF execution(2)] by (simp add: reg_inv_def)
  ultimately show ?case using exec_step_inv [OF inv(1) execution(1)] by (simp add: sys_inv_def)
next
  case (registry d r d' r' e)
  then have inv: "exec_inv (d, e)" "reg_inv (d, r)" "\<forall>run \<in> set (runs d). run_pinned run d" by (simp_all add: sys_inv_def)
  have "runs d' = runs d" using registry(2) by (simp add: exec_tables_same_def)
  then show ?case
    using environment_inv [OF registry(2) inv(1)] reg_step_inv [OF registry(1) inv(2)] run_pinned_step [OF registry(1) inv(2)] inv(3)
    by (simp add: sys_inv_def)
qed

interpretation system: machine sys_init sys_step sys_inv
  by unfold_locales (rule sys_init_inv, assumption, rule sys_step_inv, assumption+)

text \<open>The two halves of a history.\<close>

lemma sys_steps_reg: "sys_step\<^sup>*\<^sup>* (d, e, r) (d', e', r') \<Longrightarrow> reg_step\<^sup>*\<^sup>* (d, r) (d', r')"
proof (induction "(d', e', r')" arbitrary: d' e' r' rule: rtranclp_induct)
  case (step y)
  obtain d1 e1 r1 where y: "y = (d1, e1, r1)" by (cases y)
  have "reg_step (d1, r1) (d', r')"
    using step(2) unfolding y by (cases rule: sys_step.cases) (auto intro: reg_step.environment)
  with step(3) [OF y] show ?case by (rule rtranclp.rtrancl_into_rtrancl)
qed simp

lemma sys_steps_exec: "sys_step\<^sup>*\<^sup>* (d, e, r) (d', e', r') \<Longrightarrow> exec_step\<^sup>*\<^sup>* (d, e) (d', e')"
proof (induction "(d', e', r')" arbitrary: d' e' r' rule: rtranclp_induct)
  case (step y)
  obtain d1 e1 r1 where y: "y = (d1, e1, r1)" by (cases y)
  have "exec_step (d1, e1) (d', e')"
    using step(2) unfolding y by (cases rule: sys_step.cases) (auto intro: exec_step.environment)
  with step(3) [OF y] show ?case by (rule rtranclp.rtrancl_into_rtrancl)
qed simp

end
