(* ===== verification/Revocation.thy ===== *)
theory Revocation
  imports System
begin

text \<open>
  Revocation: an administrative change of a connection or a capability moves its epoch, so that no run
  admitted before can be claimed or pass a fence again, whatever happens later.
\<close>

lemma pins_forever:
  assumes "sys_inv (d, e, r)" and "sys_step\<^sup>*\<^sup>* (d, e, r) (d', e', r')" and "run \<in> set (runs d)" and "run' \<in> set (runs d')"
    and "run_id run' = run_id run"
  shows "run_pins run' = run_pins run"
proof -
  have inv: "exec_inv (d, e)" using assms(1) by (simp add: sys_inv_def)
  have inv': "exec_inv (d', e')" using system.steps_inv [OF assms(2,1)] by (simp add: sys_inv_def)
  have e: "run_id run \<in> e" using inv assms(3) by (auto simp: exec_inv_def)
  have dist: "distinct (map run_id (runs d))" using inv by (simp add: exec_inv_def ledger_ok_distinct_runs)
  obtain l' where l': "has_lineage d' (run_id run) l'" "ln_run l' = run'"
    using ledger_ok_lineage [OF _ assms(4)] inv' assms(5) by (auto simp: exec_inv_def)
  have "run_pins (ln_run l') = run_pins run"
  proof (rule exec_steps_keep [OF sys_steps_exec [OF assms(2)] inv e _ _ l'(1), where P = "\<lambda>l. run_pins (ln_run l) = run_pins run"])
    fix l assume l: "has_lineage d (run_id run) l"
    then have "ln_run l = run"
      using has_lineage_mem [OF l] has_lineage_id [OF l] distinct_key_eq [OF dist _ assms(3)] by simp
    then show "run_pins (ln_run l) = run_pins run" by simp
  qed (simp add: lineage_step_pins)
  with l'(2) show ?thesis by simp
qed

text \<open>A run is revoked when the epoch of its connection or of its capability has moved past what it
  pinned.\<close>

definition revoked :: "Run \<Rightarrow> db \<Rightarrow> bool" where
  "revoked run d \<longleftrightarrow>
     (\<exists>c \<in> set (connections d). conn_id c = run_connection_id run \<and> run_connection_control_epoch run < conn_control_epoch c)
     \<or> (\<exists>k \<in> set (capabilities d). cap_id k = run_capability_id run \<and> run_capability_status_epoch run < cap_status_epoch k)"

lemma revoked_pins:
  assumes "revoked run d" and "reg_inv (d, r)" and "reg_step\<^sup>*\<^sup>* (d, r) (d', r')" and "run_pins run' = run_pins run"
  shows "\<not> (capability_is_pinned run' d' \<and> connection_is_pinned run' d')"
proof
  assume pinned: "capability_is_pinned run' d' \<and> connection_is_pinned run' d'"
  have inv': "reg_inv (d', r')" by (rule registry.steps_inv [OF assms(3,2)])
  have eq: "run_connection_id run' = run_connection_id run" "run_connection_control_epoch run' = run_connection_control_epoch run"
    "run_capability_id run' = run_capability_id run" "run_capability_status_epoch run' = run_capability_status_epoch run"
    using assms(4) by (simp_all add: run_pins_def)
  have conn: "connection_epoch (d', r') (run_connection_id run) = Some (run_connection_control_epoch run)"
    using pinned connection_epoch_Some [OF inv'] eq
    by (auto simp: connection_is_pinned_def split: option.splits dest!: scoped_connection_Some)
  have cap: "capability_epoch (d', r') (run_capability_id run) = Some (run_capability_status_epoch run)"
    using pinned capability_epoch_Some [OF inv'] eq
    by (auto simp: capability_is_pinned_def split: option.splits dest!: scoped_capability_Some)
  from assms(1) show False
    unfolding revoked_def
  proof (elim disjE bexE conjE)
    fix c assume "c \<in> set (connections d)" "conn_id c = run_connection_id run" "run_connection_control_epoch run < conn_control_epoch c"
    with connection_epoch_Some [OF assms(2)] connection_guard.passed_epoch [OF assms(3,2)] conn show False by blast
  next
    fix k assume "k \<in> set (capabilities d)" "cap_id k = run_capability_id run" "run_capability_status_epoch run < cap_status_epoch k"
    with capability_epoch_Some [OF assms(2)] capability_guard.passed_epoch [OF assms(3,2)] cap show False by blast
  qed
qed

text \<open>The pinned checks read only the registry tables.\<close>

lemma pinned_same:
  assumes "reg_tables_same d d'"
  shows "capability_is_pinned run d' = capability_is_pinned run d" "connection_is_pinned run d' = connection_is_pinned run d"
  using assms
  by (simp_all add: reg_tables_same_def capability_is_pinned_def connection_is_pinned_def scoped_capability_def scoped_connection_def
      observed_in_snapshot_def cong: option.case_cong)

lemma fence_needs_pins:
  assumes "fence_attempt lease expected target ty clock d = Inr x" and "ledger_ok d"
  obtains run where "run \<in> set (runs d)" and "run_id run = lease_run_id lease" and "capability_is_pinned run d"
    and "connection_is_pinned run d"
proof -
  obtain run' d' where x: "x = (run', d')" by (cases x)
  obtain l d0 st where f: "execution_state_row (clock 0) d = (st, d0)" "has_lineage d0 (lease_run_id lease) l"
    "may_fence st lease expected (clock 1) (ln_run l) (ln_job l) d0"
    by (rule fence_attempt_lineage [OF assms(1) [unfolded x] assms(2)])
  have "runs d0 = runs d" using execution_state_row_tables [OF f(1)] by simp
  then show thesis
    using that [of "ln_run l"] has_lineage_mem [OF f(2)] has_lineage_id [OF f(2)] f(3)
      pinned_same [OF execution_state_row_reg [OF f(1)]] by (auto simp: may_fence_def)
qed

lemma revoked_for_ever:
  assumes "sys_inv (d, e, r)" and "run \<in> set (runs d)" and "revoked run d" and "sys_step\<^sup>*\<^sup>* (d, e, r) (d', e', r')"
  shows "run' \<in> set (runs d') \<Longrightarrow> run_id run' = run_id run \<Longrightarrow> \<not> claim_target_is_current run' d'"
    and "lease_run_id lease = run_id run \<Longrightarrow> \<not> (\<exists>x. fence_attempt lease expected target ty clock d' = Inr x)"
proof -
  have inv: "reg_inv (d, r)" using assms(1) by (simp add: sys_inv_def)
  have off: "\<not> (capability_is_pinned run' d' \<and> connection_is_pinned run' d')"
    if "run' \<in> set (runs d')" "run_id run' = run_id run" for run'
    using revoked_pins [OF assms(3) inv sys_steps_reg [OF assms(4)] pins_forever [OF assms(1,4,2) that]] .
  show "run' \<in> set (runs d') \<Longrightarrow> run_id run' = run_id run \<Longrightarrow> \<not> claim_target_is_current run' d'"
    using off by (auto simp: claim_target_is_current_def)
  have ok': "ledger_ok d'" using system.steps_inv [OF assms(4,1)] by (simp add: sys_inv_def exec_inv_def)
  assume lease: "lease_run_id lease = run_id run"
  show "\<not> (\<exists>x. fence_attempt lease expected target ty clock d' = Inr x)"
  proof
    assume "\<exists>x. fence_attempt lease expected target ty clock d' = Inr x"
    then obtain x where x: "fence_attempt lease expected target ty clock d' = Inr x" ..
    show False by (rule fence_needs_pins [OF x ok']) (use off lease in auto)
  qed
qed

text \<open>Raising the epoch revokes the runs that are there.\<close>

lemma revoked_connection:
  assumes "reg_tables_ok d" and "run_pinned run d" and "scoped_connection (run_connection_id run) w d = Some c"
    and "connections d' = rows_put conn_id c' (connections d)" and "conn_id c' = conn_id c"
    and "conn_control_epoch c' = Suc (conn_control_epoch c)"
  shows "revoked run d'"
proof -
  note r = reg_ok_conn [OF assms(1,3)]
  obtain c0 where c0: "c0 \<in> set (connections d)" "conn_id c0 = run_connection_id run"
    "run_connection_control_epoch run \<le> conn_control_epoch c0" using assms(2) by (auto simp: run_pinned_def)
  then have "c0 = c" using distinct_key_eq [OF r(7) c0(1) r(1)] r(2) by simp
  moreover have "c' \<in> set (connections d')" using r(1) assms(4,5) by (auto simp: rows_put_mem)
  ultimately show ?thesis using c0(3) r(2) assms(5,6) unfolding revoked_def by (intro disjI1 bexI [of _ c']) simp_all
qed

lemma revoked_capability:
  assumes "reg_tables_ok d" and "run_pinned run d" and "k \<in> set (capabilities d)" and "cap_id k = run_capability_id run"
    and "capabilities d' = rows_put cap_id k' (capabilities d)" and "cap_id k' = cap_id k"
    and "cap_status_epoch k' = Suc (cap_status_epoch k)"
  shows "revoked run d'"
proof -
  have dist: "distinct (map cap_id (capabilities d))" using assms(1) by (simp add: reg_tables_ok_def caps_inv_def)
  obtain k0 where k0: "k0 \<in> set (capabilities d)" "cap_id k0 = run_capability_id run"
    "run_capability_status_epoch run \<le> cap_status_epoch k0" using assms(2) by (auto simp: run_pinned_def)
  then have "k0 = k" using distinct_key_eq [OF dist k0(1) assms(3)] assms(4) by simp
  moreover have "k' \<in> set (capabilities d')" using assms(3,5,6) by (auto simp: rows_put_mem)
  ultimately show ?thesis using k0(3) assms(4,6,7) unfolding revoked_def by (intro disjI2 bexI [of _ k']) simp_all
qed

text \<open>C3. Disabling a connection or a capability, or giving a connection a new version, revokes every run
  admitted before, for ever: in every later state of the whole system, also after it was enabled again,
  the run is not current for a claim, and no lease of it passes the session or the dispatch fence.\<close>

theorem administrative_change_revokes_runs:
  assumes "reach sys_init sys_step (d, e, r)" and "run \<in> set (runs d)"
    and "(\<exists>ctx corr fresh c. connection_disable ctx (run_connection_id run) corr fresh d = Inr (c, d1))
      \<or> (\<exists>ext cfg ctx rq ids v. append_version ext cfg ctx (run_connection_id run) rq ids d = Inr (v, d1))
      \<or> (\<exists>ctx v corr fresh k. capability_disable ctx (run_capability_id run) v corr fresh d = Inr (k, d1))"
    and "sys_step (d, e, r) (d1, e1, r1)" and "sys_step\<^sup>*\<^sup>* (d1, e1, r1) (d2, e2, r2)"
  shows "(\<forall>run' \<in> set (runs d2). run_id run' = run_id run \<longrightarrow> \<not> claim_target_is_current run' d2)
    \<and> (\<forall>lease clock. lease_run_id lease = run_id run \<longrightarrow>
         \<not> (\<exists>x. fence_session lease clock d2 = Inr x) \<and> \<not> (\<exists>x. fence_dispatch lease clock d2 = Inr x))"
proof -
  have inv: "sys_inv (d, e, r)" by (rule system.reach_inv [OF assms(1)])
  then have ok: "reg_tables_ok d" and pinned: "run_pinned run d" using assms(2) by (auto simp: sys_inv_def reg_inv_def)
  have moved: "revoked run d1 \<and> exec_tables_same d d1"
    using assms(3)
  proof (elim disjE exE)
    fix ctx corr fresh c assume "connection_disable ctx (run_connection_id run) corr fresh d = Inr (c, d1)"
    then show ?thesis
      by (rule connection_disable_Inr)
        (rule conjI, rule revoked_connection [OF ok pinned], assumption, simp, simp_all add: exec_frames no_allocation_def)
  next
    fix ext cfg ctx rq ids v assume "append_version ext cfg ctx (run_connection_id run) rq ids d = Inr (v, d1)"
    then show ?thesis
      by (rule append_version_Inr)
        (rule conjI, rule revoked_connection [OF ok pinned], assumption, simp, simp_all add: exec_frames no_allocation_def)
  next
    fix ctx v corr fresh k assume "capability_disable ctx (run_capability_id run) v corr fresh d = Inr (k, d1)"
    then show ?thesis
      by (rule capability_disable_Inr)
        (rule conjI, rule revoked_capability [OF ok pinned], assumption, assumption, simp add: revise_capability_tables, simp_all add: exec_frames)
  qed
  have inv1: "sys_inv (d1, e1, r1)" by (rule sys_step_inv [OF inv assms(4)])
  have "run \<in> set (runs d1)" using moved assms(2) by (simp add: exec_tables_same_def)
  note gone = revoked_for_ever [OF inv1 this conjunct1 [OF moved] assms(5)]
  show ?thesis using gone unfolding fence_session_def fence_dispatch_def by blast
qed

end
