(* ===== verification/System_Demo.thy ===== *)
theory System_Demo
  imports Revocation
begin

text \<open>
  A run admitted against the approved capability of the registry's worked history, and the connection
  disabled afterwards.
\<close>

lemma pred_option_code [code]: "pred_option P None = True" "pred_option P (Some x) = P x"
  by simp_all

definition site_claims :: json where
  "site_claims = JDict
     [(ustr_of ''iat'', JInt 0), (ustr_of ''exp'', JInt 120), (ustr_of ''jti'', JStr (ustr_of ''n'')),
      (ustr_of ''w'', JStr (uuid_str 1)), (ustr_of ''a'', JStr (uuid_str 2)),
      (ustr_of ''cv'', JStr (uuid_str 43)), (ustr_of ''c'', JStr (uuid_str 42)),
      (ustr_of ''cn'', JStr (uuid_str 20)), (ustr_of ''cnv'', JStr (uuid_str 21)),
      (ustr_of ''ad'', JStr (ustr_of demo_hex)), (ustr_of ''r'', JStr (ustr_of RUN_ROUTE))]"

definition site_exec :: exec_externals where
  "site_exec = demo_ext\<lparr>jwt_decode := (\<lambda>_ _. Some site_claims)\<rparr>"

definition site_run_request :: run_request where
  "site_run_request = demo_request\<lparr>rq_capability_version_id := 43\<rparr>"

definition site_confirmation :: ConfirmationClaims where
  "site_confirmation = \<lparr>clm_workspace_id = 1, clm_actor_user_id = 2, clm_capability_version_id = 43,
     clm_capability_id = 42, clm_connection_id = 20, clm_connection_version_id = 21,
     clm_argument_digest = ustr_of demo_hex, clm_route = ustr_of RUN_ROUTE, clm_nonce = ustr_of ''n'',
     clm_key_version = ''k1'', clm_issued_at = 0, clm_expires_at = 120000000\<rparr>"

lemma site_decoded: "decode_confirmation site_exec [demo_key] [1] = Inr site_confirmation"
proof -
  have "claims_of_payload site_exec ''k1'' site_claims = Some site_confirmation"
    by (simp add: claims_of_payload_def claim_uuid_def claim_str_def claim_time_def member_def site_claims_def
        parse_uuid_str ustr_of_def site_confirmation_def seconds_def)
  then show ?thesis
    by (simp add: decode_confirmation_def site_exec_def demo_ext_def demo_key_def member_def ustr_of_def Let_def)
qed

definition site50 :: db where
  "site50 = site5\<lparr>execution_state := Some demo_state1\<rparr>"

definition site_request_bytes :: bytes where
  "site_request_bytes = canonical_request site_confirmation 43 demo_hex None"

definition admitted_site where
  "admitted_site q = admit_new_run site_exec demo_cfg site_ctx site_run_request demo_ids demo_state1 site_confirmation demo_hex
     (JDict []) demo_hex None (ustr_of ''key'') q 1000000 1000000 site50"

lemma admitted_site_any: "admitted_site q = admitted_site []"
proof -
  have mac: "request_hmac_of site_exec key p = demo_hex" for key p by (simp add: request_hmac_of_def site_exec_def demo_ext_def)
  show ?thesis unfolding admitted_site_def admit_new_run_def admitted_record_def Let_def mac by (rule refl)
qed

lemma admitted_site_ok: "\<not> isl (admitted_site [])"
  by code_simp

lemma site50_facts:
  "(execution_state site5, idempotency_records site5, isl (require_current_role site_ctx [ADMIN, OPERATOR] False site50),
    isl (require_current_role site_ctx [ADMIN, OPERATOR] True site50), isl (require_confirmation_key_history demo_cfg site50),
    isl (require_idempotency_key_history demo_cfg site50)) = (None, [], False, False, False, False)"
  by code_simp


definition site6 :: db where
  "site6 = snd (projr (admitted_site []))"

definition site_run :: Run where
  "site_run = fst (projr (admitted_site []))"

lemma site_admitted:
  "create_run site_exec demo_cfg site_ctx site_run_request demo_ids demo_clock site5 = Inr (site_run, site6)"
proof -
  have inr: "\<exists>u. r = Inr u" if "\<not> isl r" for r :: "svc_error + 'a" using that by (cases r) auto
  have facts: "\<not> isl (require_current_role site_ctx [ADMIN, OPERATOR] False site50)"
    "\<not> isl (require_current_role site_ctx [ADMIN, OPERATOR] True site50)" "\<not> isl (require_confirmation_key_history demo_cfg site50)"
    "\<not> isl (require_idempotency_key_history demo_cfg site50)" using site50_facts by simp_all
  obtain u v w x where role: "require_current_role site_ctx [ADMIN, OPERATOR] False site50 = Inr u"
    "require_current_role site_ctx [ADMIN, OPERATOR] True site50 = Inr v"
    "require_confirmation_key_history demo_cfg site50 = Inr w" "require_idempotency_key_history demo_cfg site50 = Inr x"
    using inr [OF facts(1)] inr [OF facts(2)] inr [OF facts(3)] inr [OF facts(4)] by blast
  have st: "execution_state_row 1000000 site5 = (demo_state1, site50)"
    using site50_facts by (simp add: execution_state_row_def site50_def demo_state1_def Let_def)
  have "idempotency_records site50 = []" using site50_facts by (simp add: site50_def)
  then have none: "find_idempotency_record site_exec demo_cfg site_ctx k site50 = None" for k
    by (simp add: find_idempotency_record_def)
  have bind: "require_confirmation_bindings site_confirmation site_ctx 43 demo_hex 1000000 = Inr ()"
    by (simp add: require_confirmation_bindings_def site_confirmation_def site_ctx_def ustr_of_def)
  have key: "validate_idempotency_key default_limits (ustr_of ''key'') = Inr (ustr_of ''key'')"
    by (simp add: validate_idempotency_key_def default_limits_def ustr_of_def)
  have args: "normalize_arguments site_exec default_limits (JDict []) = Inr (JDict [], demo_hex)" by code_simp
  have nonce: "utf8 (clm_nonce site_confirmation) = Some [110]" "sha256_hex site_exec [110] = demo_hex"
    by (simp_all add: utf8_def utf8_char_def site_confirmation_def ustr_of_def site_exec_def demo_ext_def)
  have "create_run site_exec demo_cfg site_ctx site_run_request demo_ids demo_clock site5 = admitted_site site_request_bytes"
    using role st none bind key args nonce site_decoded
    by (simp add: create_run_def canonicalize_deadline_def Let_def admitted_site_def site_request_bytes_def demo_clock_def
        site_run_request_def demo_request_def demo_cfg_def)
  also have "\<dots> = admitted_site []" by (rule admitted_site_any)
  also have "\<dots> = Inr (site_run, site6)" using admitted_site_ok by (cases "admitted_site []") (auto simp: site_run_def site6_def)
  finally show ?thesis .
qed

definition stopped where "stopped = connection_disable site_ctx 20 None 60 site6"

definition site7 :: db where "site7 = snd (projr stopped)"

lemma site6_facts: "(isl stopped, map run_id (runs site6), map run_connection_id (runs site6)) = (False, [100], [20])"
  by code_simp

lemma site_exec_tables:
  "(exec_tables_same site site1, exec_tables_same site1 site2, exec_tables_same site2 site3, exec_tables_same site3 site4,
    exec_tables_same site4 site5) = (True, True, True, True, True)"
  by code_simp

lemma site_stopped: "connection_disable site_ctx 20 None 60 site6 = Inr (fst (projr stopped), site7)"
  using site6_facts by (cases stopped) (auto simp: site7_def simp flip: stopped_def)

lemma connection_disable_exec: "connection_disable ctx i corr fresh d = Inr (c, d') \<Longrightarrow> exec_tables_same d d'"
  by (erule connection_disable_Inr) (simp add: exec_frames)

lemma site_sys_steps:
  "sys_step (site, {}, {}) (site1, {}, {20, 21})" "sys_step (site1, {}, {20, 21}) (site2, {}, {30, 20, 21})"
  "sys_step (site2, {}, {30, 20, 21}) (site3, {}, {30, 20, 21})"
  "sys_step (site3, {}, {30, 20, 21}) (site4, {}, {30, 20, 21, 41, 42, 43})"
  "sys_step (site4, {}, {30, 20, 21, 41, 42, 43}) (site5, {}, {30, 20, 21, 41, 42, 43})"
  "sys_step (site5, {}, {30, 20, 21, 41, 42, 43}) (site6, {100}, {30, 20, 21, 41, 42, 43})"
  "sys_step (site6, {100}, {30, 20, 21, 41, 42, 43}) (site7, {100}, {30, 20, 21, 41, 42, 43})"
proof -
  note same = site_exec_tables [simplified]
  show "sys_step (site, {}, {}) (site1, {}, {20, 21})" using sys_step.registry [OF site_steps(1)] same by blast
  show "sys_step (site1, {}, {20, 21}) (site2, {}, {30, 20, 21})" using sys_step.registry [OF site_steps(2)] same by blast
  show "sys_step (site2, {}, {30, 20, 21}) (site3, {}, {30, 20, 21})" using sys_step.registry [OF site_steps(3)] same by blast
  show "sys_step (site3, {}, {30, 20, 21}) (site4, {}, {30, 20, 21, 41, 42, 43})"
    using sys_step.registry [OF site_steps(4)] same by blast
  show "sys_step (site4, {}, {30, 20, 21, 41, 42, 43}) (site5, {}, {30, 20, 21, 41, 42, 43})"
    using sys_step.registry [OF site_steps(5)] same by blast
  have "exec_step (site5, {}) (site6, {100})"
    using exec_step.create [OF site_admitted demo_limits, of "{}"] by (simp add: demo_ids_def)
  then show "sys_step (site5, {}, {30, 20, 21, 41, 42, 43}) (site6, {100}, {30, 20, 21, 41, 42, 43})"
    by (rule sys_step.execution [OF _ create_run_reg [OF site_admitted]])
  from connection_disable_exec [OF site_stopped] show "sys_step (site6, {100}, {30, 20, 21, 41, 42, 43}) (site7, {100}, {30, 20, 21, 41, 42, 43})"
    by (rule sys_step.registry [OF reg_step.disable [OF site_stopped]])
qed

lemma site_sys_reach: "reach sys_init sys_step (site6, {100}, {30, 20, 21, 41, 42, 43})"
proof -
  note go = reach.step [where init = sys_init and step = sys_step]
  have "reach sys_init sys_step (site, {}, {})"
    by (rule reach.start) (simp add: sys_init_def exec_init_def reg_init_def site_def empty_db_def)
  from go [OF go [OF go [OF go [OF go [OF go [OF this site_sys_steps(1)] site_sys_steps(2)] site_sys_steps(3)]
    site_sys_steps(4)] site_sys_steps(5)] site_sys_steps(6)] show ?thesis .
qed

theorem administrative_change_revokes_runs_witness:
  "\<exists>run \<in> set (runs site7). run_id run = 100 \<and> \<not> claim_target_is_current run site7"
proof -
  obtain run where run: "runs site6 = [run]" "run_id run = 100" "run_connection_id run = 20"
    using site6_facts by (cases "runs site6") auto
  have same: "runs site7 = runs site6" using connection_disable_exec [OF site_stopped] by (simp add: exec_tables_same_def)
  have "connection_disable site_ctx (run_connection_id run) None 60 site6 = Inr (fst (projr stopped), site7)"
    using site_stopped run(3) by simp
  then have "\<exists>ctx corr fresh c. connection_disable ctx (run_connection_id run) corr fresh site6 = Inr (c, site7)" by blast
  from administrative_change_revokes_runs [OF site_sys_reach _ disjI1 [OF this] site_sys_steps(7) rtranclp.rtrancl_refl] run same
  show ?thesis by auto
qed

end
