(* ===== verification/Upstream_Screen.thy ===== *)
theory Upstream_Screen
  imports Meta_Rules
begin

text \<open>
  How \<^verbatim>\<open>mcp_adapter/policy.py\<close> screens the text of an upstream response: whole JSON documents, JSON
  fragments found inside a text, server-sent events, and the classification of a JSON-RPC response.
  The JSON decoder, the UTF-8 decoder and the credential screens are arguments; a scan that does not
  end is \<open>None\<close>, and is shown not to occur when the decoder consumes what it decodes.
\<close>

section \<open>Libraries\<close>

text \<open>\<open>json.loads\<close> with the hook that rejects duplicate members, and \<open>raw_decode\<close> at an index: a value
  and the index after it, or the position of the error.\<close>

datatype loads_result = Loaded json | BadJson | DuplicateMember | TooDeep
datatype raw_result = Decoded json nat | Malformed nat | DuplicateIn | TooDeepIn

record screen_externals = meta_externals +
  contains_sensitive_url :: "ustr \<Rightarrow> bool"
  contains_sensitive_json :: "json \<Rightarrow> bool"
  decode_strict :: "bytes \<Rightarrow> ustr option"
  decode_ignore :: "bytes \<Rightarrow> ustr"
  encode_utf8 :: "ustr \<Rightarrow> bytes"
  loads_unique :: "ustr \<Rightarrow> loads_result"
  raw_decode :: "ustr \<Rightarrow> nat \<Rightarrow> raw_result"
  loads_bytes :: "bytes \<Rightarrow> loads_result"
  loads_text :: "ustr \<Rightarrow> json option"
  member_name_matches :: "ustr \<Rightarrow> ustr list"
  int_text :: "ustr \<Rightarrow> int option"

section \<open>Control flow that may not return\<close>

text \<open>\<open>a or b\<close> and \<open>any\<close>, when evaluating an operand may not return.\<close>

definition or_else :: "bool option \<Rightarrow> bool option \<Rightarrow> bool option" where
  "or_else a b = Option.bind a (\<lambda>x. if x then Some True else b)"

fun any_of :: "('a \<Rightarrow> bool option) \<Rightarrow> 'a list \<Rightarrow> bool option" where
  "any_of f [] = Some False"
| "any_of f (x # xs) = or_else (f x) (any_of f xs)"

section \<open>JSON text\<close>

fun reject_duplicate_members :: "(ustr \<times> json) list \<Rightarrow> (ustr \<times> json) list \<Rightarrow> (ustr \<times> json) list option" where
  "reject_duplicate_members value [] = Some value"
| "reject_duplicate_members value ((key, child) # pairs) =
     (if key \<in> fst ` set value then None
      else reject_duplicate_members (value @ [(key, child)]) pairs)"

text \<open>\<open>_contains_sensitive_member_name\<close>: the matches of \<open>_JSON_MEMBER_NAME\<close>, each up to its last colon.\<close>

definition rstrip :: "ustr \<Rightarrow> ustr" where
  "rstrip s = rev (dropWhile py_space (rev s))"

definition lstrip :: "ustr \<Rightarrow> ustr" where
  "lstrip s = dropWhile py_space s"

definition before_last :: "nat \<Rightarrow> ustr \<Rightarrow> ustr" where
  "before_last c s = (if c \<in> set s then rev (tl (dropWhile (\<lambda>x. x \<noteq> c) (rev s))) else s)"

definition contains_sensitive_member_name :: "'e screen_externals_scheme \<Rightarrow> ustr \<Rightarrow> bool" where
  "contains_sensitive_member_name ext value =
     list_ex (\<lambda>m. case loads_text ext (rstrip (before_last 58 m)) of
                    Some (JStr key) \<Rightarrow> contains_sensitive_json ext
                       (JDict [(key, JStr (ustr_of ''AbCdEfGhIjKlMnOpQrStUvWx''))])
                  | _ \<Rightarrow> False) (member_name_matches ext value)"

fun skip_space :: "ustr \<Rightarrow> nat \<Rightarrow> nat" where
  "skip_space value index = index + length (takeWhile py_space (drop index value))"

definition find_from :: "nat \<Rightarrow> ustr \<Rightarrow> nat \<Rightarrow> nat option" where
  "find_from c value start =
     (if c \<in> set (drop start value)
      then Some (start + length (takeWhile (\<lambda>x. x \<noteq> c) (drop start value))) else None)"

definition next_container :: "ustr \<Rightarrow> nat \<Rightarrow> nat option" where
  "next_container value start =
     (case (find_from 123 value start, find_from 91 value start) of
        (Some a, Some b) \<Rightarrow> Some (min a b)
      | (Some a, None) \<Rightarrow> Some a
      | (None, b) \<Rightarrow> b)"

text \<open>The loop of \<open>_contains_sensitive_json_text\<close>.\<close>

partial_function (option) json_scan :: "'e screen_externals_scheme \<Rightarrow> ustr \<Rightarrow> nat \<Rightarrow> bool option" where
  "json_scan ext value index =
     (let start = skip_space value index
      in if start = length value then Some False
         else
           (case raw_decode ext value start of
              Decoded parsed after \<Rightarrow>
                if contains_sensitive_json ext parsed then Some True else json_scan ext value after
            | DuplicateIn \<Rightarrow> Some True
            | TooDeepIn \<Rightarrow> Some True
            | Malformed pos \<Rightarrow>
                if contains_sensitive_member_name ext value then Some True
                else
                  (case next_container value (max (start + 1) (pos + 1)) of
                     None \<Rightarrow> Some False
                   | Some candidate \<Rightarrow> json_scan ext value candidate)))"

definition contains_sensitive_json_text :: "'e screen_externals_scheme \<Rightarrow> ustr \<Rightarrow> bool option" where
  "contains_sensitive_json_text ext value =
     (case loads_unique ext (123 # value @ [125]) of
        DuplicateMember \<Rightarrow> Some True
      | Loaded member \<Rightarrow> if contains_sensitive_json ext member then Some True else json_scan ext value 0
      | BadJson \<Rightarrow> json_scan ext value 0
      | TooDeep \<Rightarrow> json_scan ext value 0)"

definition contains_sensitive_json_document :: "'e screen_externals_scheme \<Rightarrow> bytes \<Rightarrow> bool option" where
  "contains_sensitive_json_document ext value = contains_sensitive_json_text ext (decode_ignore ext value)"

section \<open>Server-sent events\<close>

definition line_break :: "nat \<Rightarrow> bool" where
  "line_break c \<longleftrightarrow> (10 \<le> c \<and> c \<le> 13) \<or> (28 \<le> c \<and> c \<le> 30) \<or> c = 133 \<or> c = 8232 \<or> c = 8233"

text \<open>\<open>str.splitlines\<close>: a carriage return and the line feed after it are one break, and a break at the
  end starts no further line.\<close>

fun splitlines_from :: "ustr \<Rightarrow> ustr \<Rightarrow> ustr list" where
  "splitlines_from line [] = (if line = [] then [] else [line])"
| "splitlines_from line (c # cs) =
     (if line_break c
      then line # splitlines_from [] (if c = 13 \<and> cs \<noteq> [] \<and> hd cs = 10 then tl cs else cs)
      else splitlines_from (line @ [c]) cs)"

definition splitlines :: "ustr \<Rightarrow> ustr list" where
  "splitlines s = splitlines_from [] s"

text \<open>\<open>line.partition(":")[2].lstrip()\<close>.\<close>

definition field_value :: "ustr \<Rightarrow> ustr" where
  "field_value line = lstrip (tl (dropWhile (\<lambda>c. c \<noteq> 58) line))"

fun join_lines :: "ustr list \<Rightarrow> ustr" where
  "join_lines [] = []"
| "join_lines [l] = l"
| "join_lines (l # ls) = l @ 10 # join_lines ls"

definition data_values :: "ustr list \<Rightarrow> ustr list" where
  "data_values lines = map field_value (filter (\<lambda>l. take 5 l = ustr_of ''data:'') lines)"

definition contains_sensitive_sse_event :: "'e screen_externals_scheme \<Rightarrow> bytes \<Rightarrow> bool option" where
  "contains_sensitive_sse_event ext event =
     (case decode_strict ext event of
        None \<Rightarrow> Some False
      | Some text \<Rightarrow>
          (let lines = splitlines text; fields = filter (\<lambda>l. 58 \<in> set l) lines;
               screen = contains_sensitive_json_text ext
           in or_else (Some (contains_obvious_secret ext text))
              (or_else (any_of screen lines)
              (or_else (any_of screen (map field_value fields))
              (or_else (any_of screen (map (\<lambda>l. 123 # l @ [125]) fields))
                (if data_values lines \<noteq> [] then screen (join_lines (data_values lines))
                 else Some False))))))"

section \<open>JSON-RPC responses\<close>

definition json_member :: "string \<Rightarrow> (ustr \<times> json) list \<Rightarrow> json option" where
  "json_member k ms = map_of ms (ustr_of k)"

text \<open>\<open>type(a) is type(b)\<close> on decoded values.\<close>

fun same_type :: "json \<Rightarrow> json \<Rightarrow> bool" where
  "same_type JNull JNull = True"
| "same_type (JBool a) (JBool b) = True"
| "same_type (JInt a) (JInt b) = True"
| "same_type (JFloat a) (JFloat b) = True"
| "same_type (JStr a) (JStr b) = True"
| "same_type (JList a) (JList b) = True"
| "same_type (JDict a) (JDict b) = True"
| "same_type _ _ = False"

definition classify_response :: "json \<Rightarrow> json \<Rightarrow> bool \<times> bool" where
  "classify_response payload expected_id =
     (case payload of
        JDict ms \<Rightarrow>
          if json_member ''jsonrpc'' ms \<noteq> Some (JStr (ustr_of ''2.0'')) \<or> json_member ''id'' ms = None
             \<or> (json_member ''result'' ms = None \<and> json_member ''error'' ms = None)
          then (False, False)
          else
            (let id = the (json_member ''id'' ms); matching = same_type id expected_id \<and> py_eq id expected_id
             in (matching, matching \<and> (case json_member ''error'' ms of Some (JDict _) \<Rightarrow> True | _ \<Rightarrow> False)))
      | _ \<Rightarrow> (False, False))"

text \<open>\<open>_jsonrpc_response\<close>: a body that is no JSON is \<open>None\<close>. A recursion error of the decoder is not
  caught there; it is the outer \<open>Inl\<close>.\<close>

definition jsonrpc_response :: "'e screen_externals_scheme \<Rightarrow> bytes \<Rightarrow> json \<Rightarrow> unit + (bool \<times> bool) option" where
  "jsonrpc_response ext value expected_id =
     (case loads_bytes ext value of
        Loaded payload \<Rightarrow> Inr (Some (classify_response payload expected_id))
      | TooDeep \<Rightarrow> Inl ()
      | _ \<Rightarrow> Inr None)"

definition sse_jsonrpc_response :: "'e screen_externals_scheme \<Rightarrow> bytes \<Rightarrow> json \<Rightarrow> unit + bool \<times> bool" where
  "sse_jsonrpc_response ext event expected_id =
     (let text = decode_ignore ext event; data = join_lines (data_values (splitlines text))
      in case jsonrpc_response ext (encode_utf8 ext data) expected_id of
           Inl e \<Rightarrow> Inl e
         | Inr r \<Rightarrow> Inr (case r of None \<Rightarrow> (False, False) | Some c \<Rightarrow> c))"

section \<open>The scan ends\<close>

text \<open>What is relied on of \<open>raw_decode\<close>: the index after a decoded value lies behind the one it started
  from and inside the text.\<close>

definition decoder_consumes :: "'e screen_externals_scheme \<Rightarrow> bool" where
  "decoder_consumes ext \<longleftrightarrow> (\<forall>value i v j. raw_decode ext value i = Decoded v j \<longrightarrow> i < length value
     \<longrightarrow> i < j \<and> j \<le> length value)"

lemma skip_space_bounds: "index \<le> length value \<Longrightarrow> index \<le> skip_space value index \<and> skip_space value index \<le> length value"
  using length_takeWhile_le [of py_space "drop index value"] by simp

lemma find_from_bounds: "find_from c value start = Some i \<Longrightarrow> start \<le> i \<and> i < length value"
proof -
  assume "find_from c value start = Some i"
  then have c: "c \<in> set (drop start value)" "i = start + length (takeWhile (\<lambda>x. x \<noteq> c) (drop start value))"
    by (auto simp: find_from_def split: if_splits)
  have "length (takeWhile (\<lambda>x. x \<noteq> c) ys) < length ys" if "c \<in> set ys" for ys
    using that by (induction ys) auto
  from this [OF c(1)] have "length (takeWhile (\<lambda>x. x \<noteq> c) (drop start value)) < length (drop start value)" .
  then show ?thesis using c(2) by simp
qed

lemma next_container_bounds: "next_container value start = Some i \<Longrightarrow> start \<le> i \<and> i < length value"
  by (auto simp: next_container_def min_def split: option.splits if_splits dest: find_from_bounds)

lemma json_scan_returns:
  assumes ext: "decoder_consumes ext" and i: "index \<le> length value"
  shows "\<exists>b. json_scan ext value index = Some b"
  using i
proof (induction "length value - index" arbitrary: index rule: less_induct)
  case less
  let ?s = "skip_space value index"
  note s = skip_space_bounds [OF less.prems]
  show ?case
  proof (cases "?s = length value")
    case True
    then have "json_scan ext value index = Some False" by (subst json_scan.simps) (simp del: skip_space.simps)
    then show ?thesis by blast
  next
    case inside: False
    then have lt: "?s < length value" using s by simp
    have again: "\<exists>b. json_scan ext value j = Some b" if "?s < j" "j \<le> length value" for j
      using less.hyps [of j] that s by auto
    have "\<exists>b. json_scan ext value j = Some b" if "raw_decode ext value ?s = Decoded v j" for v j
      using ext that lt again unfolding decoder_consumes_def by blast
    moreover have "\<exists>b. json_scan ext value j = Some b"
      if "next_container value (max (?s + 1) (pos + 1)) = Some j" for pos j
      by (rule again) (use next_container_bounds [OF that] in auto)
    ultimately show ?thesis
      using inside
      by (subst json_scan.simps)
        (auto simp: Let_def simp del: skip_space.simps split: raw_result.splits option.splits)
  qed
qed

lemma contains_sensitive_json_text_returns:
  "decoder_consumes ext \<Longrightarrow> \<exists>b. contains_sensitive_json_text ext value = Some b"
  by (auto simp: contains_sensitive_json_text_def json_scan_returns split: loads_result.splits)

lemma or_else_returns: "\<exists>x. a = Some x \<Longrightarrow> \<exists>y. b = Some y \<Longrightarrow> \<exists>z. or_else a b = Some z"
  by (auto simp: or_else_def)

lemma any_of_returns: "(\<And>x. \<exists>b. f x = Some b) \<Longrightarrow> \<exists>b. any_of f xs = Some b"
  by (induction xs) (auto intro: or_else_returns)

lemma contains_sensitive_sse_event_returns:
  assumes "decoder_consumes ext"
  shows "\<exists>b. contains_sensitive_sse_event ext event = Some b"
  using contains_sensitive_json_text_returns [OF assms]
  by (auto simp: contains_sensitive_sse_event_def Let_def split: option.splits
      intro!: or_else_returns any_of_returns)

section \<open>Duplicate members\<close>

lemma reject_duplicate_members_from:
  "distinct (map fst acc) \<Longrightarrow> reject_duplicate_members acc pairs =
     (if distinct (map fst (acc @ pairs)) then Some (acc @ pairs) else None)"
proof (induction acc pairs rule: reject_duplicate_members.induct)
  case (2 acc key child pairs)
  then show ?case by (cases "key \<in> fst ` set acc") auto
qed simp

lemma reject_duplicate_members_exact:
  "reject_duplicate_members [] pairs = (if distinct (map fst pairs) then Some pairs else None)"
  by (simp add: reject_duplicate_members_from)

end
