(* ===== verification/Byte_Match.thy ===== *)
theory Byte_Match
  imports Prelude "HOL-Library.Sublist"
begin

text \<open>
  The streaming matcher of \<open>mcp_adapter/policy.py\<close> that looks for the run's secret values in an
  upstream response (\<open>_IncrementalByteMatcher\<close>): the failure table of each pattern, and the automaton
  that is fed one network chunk after another. An index out of range (\<open>IndexError\<close>) and a loop that
  does not end are both \<open>None\<close>. It is shown that neither happens, and that feeding the chunks reports
  a match exactly when some pattern occurs in the concatenated text, however it was cut.
\<close>

section \<open>Model\<close>

definition item_at :: "'a list \<Rightarrow> nat \<Rightarrow> 'a option" where
  "item_at xs i = (if i < length xs then Some (xs ! i) else None)"

text \<open>\<open>while matched and byte != pattern[matched]: matched = prefix[matched - 1]\<close>, and the comparison
  after it. The construction of the table and the search share both.\<close>

partial_function (option) fall_back :: "bytes \<Rightarrow> nat list \<Rightarrow> nat \<Rightarrow> nat \<Rightarrow> nat option" where
  "fall_back pattern table byte matched =
     (if matched = 0 then Some 0
      else Option.bind (item_at pattern matched) (\<lambda>b.
        if byte = b then Some matched
        else Option.bind (item_at table (matched - 1)) (\<lambda>shorter. fall_back pattern table byte shorter)))"

definition advance :: "bytes \<Rightarrow> nat list \<Rightarrow> nat \<Rightarrow> nat \<Rightarrow> nat option" where
  "advance pattern table byte matched =
     Option.bind (fall_back pattern table byte matched) (\<lambda>m.
     Option.bind (item_at pattern m) (\<lambda>b. Some (if byte = b then m + 1 else m)))"

primrec prefix_loop :: "bytes \<Rightarrow> nat list \<Rightarrow> nat list \<Rightarrow> nat \<Rightarrow> nat list option" where
  "prefix_loop pattern [] table matched = Some table"
| "prefix_loop pattern (index # rest) table matched =
     Option.bind (item_at pattern index) (\<lambda>byte.
     Option.bind (advance pattern table byte matched) (\<lambda>m.
       prefix_loop pattern rest (table[index := m]) m))"

definition prefix_table :: "bytes \<Rightarrow> nat list option" where
  "prefix_table pattern =
     prefix_loop pattern [1..<length pattern] (replicate (length pattern) 0) 0"

record matcher =
  mt_patterns :: "bytes list"
  mt_prefixes :: "nat list list"
  mt_states :: "nat list"

definition new_matcher :: "bytes list \<Rightarrow> matcher option" where
  "new_matcher patterns =
     (let kept = filter (\<lambda>p. p \<noteq> []) patterns
      in Option.bind (those (map prefix_table kept)) (\<lambda>prefixes.
           Some \<lparr>mt_patterns = kept, mt_prefixes = prefixes, mt_states = replicate (length kept) 0\<rparr>))"

text \<open>The inner loop over the patterns. It returns as soon as one of them is complete, before that
  state is stored and before the later patterns have seen the byte.\<close>

primrec feed_patterns :: "nat \<Rightarrow> nat list \<Rightarrow> matcher \<Rightarrow> (bool \<times> matcher) option" where
  "feed_patterns byte [] m = Some (False, m)"
| "feed_patterns byte (index # rest) m =
     Option.bind (item_at (mt_patterns m) index) (\<lambda>pattern.
     Option.bind (item_at (mt_prefixes m) index) (\<lambda>table.
     Option.bind (item_at (mt_states m) index) (\<lambda>state.
     Option.bind (advance pattern table byte state) (\<lambda>matched.
       if matched = length pattern then Some (True, m)
       else feed_patterns byte rest (m\<lparr>mt_states := (mt_states m)[index := matched]\<rparr>)))))"

primrec matcher_feed :: "matcher \<Rightarrow> bytes \<Rightarrow> (bool \<times> matcher) option" where
  "matcher_feed m [] = Some (False, m)"
| "matcher_feed m (byte # rest) =
     Option.bind (feed_patterns byte [0..<length (mt_patterns m)] m) (\<lambda>(hit, m').
       if hit then Some (True, m') else matcher_feed m' rest)"

section \<open>The longest overlap\<close>

declare suffix_snoc [simp del]

text \<open>What a state means: the longest prefix of the pattern that ends the text read so far.\<close>

definition longest :: "bytes \<Rightarrow> bytes \<Rightarrow> nat \<Rightarrow> bool" where
  "longest p t m \<longleftrightarrow> m \<le> length p \<and> suffix (take m p) t
     \<and> (\<forall>k \<le> length p. suffix (take k p) t \<longrightarrow> k \<le> m)"

definition table_ok :: "bytes \<Rightarrow> nat list \<Rightarrow> nat \<Rightarrow> bool" where
  "table_ok p table n \<longleftrightarrow> (\<forall>j < n. j < length table \<and> longest p (drop 1 (take (j + 1) p)) (table ! j))"

lemma item_at_Some [simp]: "item_at xs i = Some x \<longleftrightarrow> i < length xs \<and> xs ! i = x"
  by (simp add: item_at_def)

lemma item_at_nth [simp]: "i < length xs \<Longrightarrow> item_at xs i = Some (xs ! i)"
  by simp

lemma suffix_take_snoc:
  assumes "k < length p"
  shows "suffix (take (Suc k) p) (t @ [b]) \<longleftrightarrow> p ! k = b \<and> suffix (take k p) t"
  using assms by (auto simp: take_Suc_conv_app_nth suffix_snoc)

lemma suffix_within:
  assumes "suffix xs t" "suffix ys t" "length xs \<le> length ys"
  shows "suffix xs ys"
  using assms suffix_length_suffix by blast

lemma longest_0: "p \<noteq> [] \<Longrightarrow> longest p [] 0"
  by (auto simp: longest_def)

lemma longest_self: "s \<le> length p \<Longrightarrow> longest p (take s p) s"
  using suffix_length_le [of "take _ p" "take s p"] by (fastforce simp: longest_def)

lemma longest_full: "longest p t m \<Longrightarrow> m = length p \<longleftrightarrow> suffix p t"
  unfolding longest_def by (metis le_antisym order_refl take_all)

lemma longest_le: "longest p t m \<Longrightarrow> m \<le> length t"
  using suffix_length_le [of "take m p" t] by (simp add: longest_def)

text \<open>The candidates that survive: every longer overlap has already been refused by the byte.\<close>

definition refused :: "bytes \<Rightarrow> bytes \<Rightarrow> nat \<Rightarrow> nat \<Rightarrow> bool" where
  "refused p t b m \<longleftrightarrow> suffix (take m p) t
     \<and> (\<forall>k < length p. m < k \<longrightarrow> suffix (take k p) t \<longrightarrow> p ! k \<noteq> b)"

lemma border_shorter:
  assumes tab: "longest p (drop 1 (take m p)) m'" and m: "0 < m" "m < length p"
    and ref: "refused p t b m" and differs: "p ! m \<noteq> b"
  shows "m' < m" "refused p t b m'"
proof -
  have len: "length (drop 1 (take m p)) = m - 1" using m by simp
  show less: "m' < m" using longest_le [OF tab] len m by simp
  have mt: "suffix (take m p) t" using ref by (simp add: refused_def)
  have "suffix (take m' p) (take m p)"
    using tab unfolding longest_def by (meson suffix_drop suffix_order.trans)
  then have "suffix (take m' p) t" using mt suffix_order.trans by blast
  moreover have "p ! k \<noteq> b" if k: "k < length p" "m' < k" "suffix (take k p) t" for k
  proof (cases "k < m")
    case True
    then have "suffix (take k p) (take m p)"
      using suffix_within [OF k(3) mt] m by simp
    moreover have "suffix (drop 1 (take m p)) (take m p)" by (rule suffix_drop)
    ultimately have "suffix (take k p) (drop 1 (take m p))"
      by (rule suffix_within) (use True m len in simp)
    then have "k \<le> m'" using tab k(1) by (simp add: longest_def)
    then show ?thesis using k(2) by simp
  next
    case False
    then show ?thesis using k ref differs by (cases "k = m") (auto simp: refused_def)
  qed
  ultimately show "refused p t b m'" by (simp add: refused_def)
qed

lemma fall_back_refused:
  assumes "table_ok p table m" "m < length p" "refused p t b m"
  shows "\<exists>r. fall_back p table b m = Some r \<and> r < length p \<and> refused p t b r \<and> (r = 0 \<or> p ! r = b)"
  using assms
proof (induction m rule: less_induct)
  case (less m)
  show ?case
  proof (cases "m = 0 \<or> p ! m = b")
    case True
    then show ?thesis using less.prems by (subst fall_back.simps) auto
  next
    case False
    then have tab: "m - 1 < length table" "longest p (drop 1 (take m p)) (table ! (m - 1))"
      using less.prems(1) by (auto simp: table_ok_def dest: spec [of _ "m - 1"])
    note next_m = border_shorter [OF tab(2) _ less.prems(2,3)]
    have "table_ok p table (table ! (m - 1))"
      using less.prems(1) next_m(1) False unfolding table_ok_def by (meson neq0_conv order.strict_trans)
    then show ?thesis
      using less.IH [of "table ! (m - 1)"] next_m False tab(1) less.prems(2)
      by (subst fall_back.simps) auto
  qed
qed

lemma advance_longest:
  assumes tab: "table_ok p table s" and s: "s < length p" and l: "longest p t s"
  shows "\<exists>m. advance p table b s = Some m \<and> longest p (t @ [b]) m"
proof -
  have "refused p t b s"
    using l unfolding refused_def longest_def by (meson less_imp_le not_le)
  then obtain r where r: "fall_back p table b s = Some r" "r < length p" "refused p t b r"
      "r = 0 \<or> p ! r = b"
    using fall_back_refused [OF tab s] by blast
  have step: "p ! k = b \<and> k \<le> r" if "k < length p" "suffix (take (Suc k) p) (t @ [b])" for k
    using r(3) that(1) iffD1 [OF suffix_take_snoc [OF that(1)] that(2)] by (auto simp: refused_def not_le)
  have "longest p (t @ [b]) (if p ! r = b then Suc r else r)"
  proof (cases "p ! r = b")
    case True
    have "k \<le> Suc r" if "k \<le> length p" "suffix (take k p) (t @ [b])" for k
      using step [of "k - 1"] that by (cases k) simp_all
    moreover have "suffix (take (Suc r) p) (t @ [b])"
      using True r(2,3) by (simp add: refused_def suffix_take_snoc)
    ultimately show ?thesis using True r(2) by (simp add: longest_def)
  next
    case False
    have "k = 0" if "k \<le> length p" "suffix (take k p) (t @ [b])" for k
    proof (rule ccontr)
      assume "k \<noteq> 0"
      then obtain k' where k': "k = Suc k'" by (cases k) auto
      then have "p ! k' = b \<and> k' \<le> r" using that step by simp
      then show False using False r(4) by auto
    qed
    then show ?thesis using False r(4) by (simp add: longest_def)
  qed
  then show ?thesis using r(1,2) by (auto simp: advance_def)
qed

section \<open>The failure table\<close>

lemma prefix_loop_ok:
  assumes "length table = length p" "table_ok p table i" "0 < i" "i \<le> length p"
    "longest p (drop 1 (take i p)) m"
  shows "\<exists>table'. prefix_loop p [i..<length p] table m = Some table'
    \<and> length table' = length p \<and> table_ok p table' (length p)"
  using assms
proof (induction "length p - i" arbitrary: i table m)
  case 0
  then show ?case by auto
next
  case (Suc n)
  then have i: "i < length p" by simp
  have m: "m < i" using longest_le [OF Suc.prems(5)] Suc.prems(3) i by simp
  then have "table_ok p table m" using Suc.prems(2) by (auto simp: table_ok_def)
  then obtain m' where m': "advance p table (p ! i) m = Some m'"
      "longest p (drop 1 (take i p) @ [p ! i]) m'"
    using advance_longest [OF _ _ Suc.prems(5)] m i by fastforce
  then have l: "longest p (drop 1 (take (Suc i) p)) m'"
    using Suc.prems(3) i by (simp add: take_Suc_conv_app_nth)
  have "table_ok p (table[i := m']) (Suc i)"
    using Suc.prems(1,2) l i by (auto simp: table_ok_def less_Suc_eq nth_list_update)
  then show ?case
    using Suc.hyps(1) [of "Suc i" "table[i := m']" m'] Suc.hyps(2) Suc.prems(1) l i m'(1)
    by (simp add: upt_rec [of i])
qed

lemma prefix_table_ok:
  assumes "p \<noteq> []"
  shows "\<exists>table. prefix_table p = Some table \<and> length table = length p \<and> table_ok p table (length p)"
proof -
  have "drop 1 (take 1 p) = []" by (cases p) auto
  then have "longest p (drop 1 (take 1 p)) 0" using longest_0 [OF assms] by simp
  moreover from this have "table_ok p (replicate (length p) 0) 1"
    using assms by (simp add: table_ok_def)
  ultimately show ?thesis
    using prefix_loop_ok [of "replicate (length p) 0" p 1 0] assms
    by (simp add: prefix_table_def Suc_le_eq)
qed

section \<open>The automaton\<close>

definition matcher_ok :: "matcher \<Rightarrow> bool" where
  "matcher_ok m \<longleftrightarrow> length (mt_prefixes m) = length (mt_patterns m)
     \<and> length (mt_states m) = length (mt_patterns m)
     \<and> (\<forall>i < length (mt_patterns m). mt_states m ! i < length (mt_patterns m ! i)
          \<and> table_ok (mt_patterns m ! i) (mt_prefixes m ! i) (length (mt_patterns m ! i)))"

text \<open>The matcher stands at a text when every state from the given index on is the overlap with that
  text; the states before it already include the next byte.\<close>

definition stands :: "matcher \<Rightarrow> (nat \<Rightarrow> bytes) \<Rightarrow> bool" where
  "stands m text \<longleftrightarrow> (\<forall>i < length (mt_patterns m). longest (mt_patterns m ! i) (text i) (mt_states m ! i))"

lemma table_ok_less: "table_ok p table n \<Longrightarrow> k \<le> n \<Longrightarrow> table_ok p table k"
  by (auto simp: table_ok_def)

lemma advance_at:
  assumes "matcher_ok m" "i < length (mt_patterns m)" "longest (mt_patterns m ! i) t (mt_states m ! i)"
  shows "\<exists>k. advance (mt_patterns m ! i) (mt_prefixes m ! i) b (mt_states m ! i) = Some k
    \<and> longest (mt_patterns m ! i) (t @ [b]) k"
proof -
  have s: "mt_states m ! i < length (mt_patterns m ! i)"
    and tab: "table_ok (mt_patterns m ! i) (mt_prefixes m ! i) (length (mt_patterns m ! i))"
    using assms(1,2) by (auto simp: matcher_ok_def)
  show ?thesis
    by (rule advance_longest [OF table_ok_less [OF tab] s assms(3)]) (use s in simp)
qed

lemma matcher_ok_update:
  assumes "matcher_ok m" "i < length (mt_patterns m)" "k < length (mt_patterns m ! i)"
  shows "matcher_ok (m\<lparr>mt_states := (mt_states m)[i := k]\<rparr>)"
  using assms by (auto simp: matcher_ok_def nth_list_update)

text \<open>One byte, from the pattern with index \<open>j\<close> on: it is a match exactly when one of the remaining
  patterns ends there, and otherwise the remaining states move to the longer text.\<close>

lemma feed_patterns_stands:
  assumes "matcher_ok m" "j \<le> length (mt_patterns m)"
    "stands m (\<lambda>i. if i < j then text i @ [b] else text i)"
  shows "\<exists>hit m'. feed_patterns b [j..<length (mt_patterns m)] m = Some (hit, m')
    \<and> matcher_ok m' \<and> mt_patterns m' = mt_patterns m
    \<and> (hit \<longleftrightarrow> (\<exists>i < length (mt_patterns m). j \<le> i \<and> suffix (mt_patterns m ! i) (text i @ [b])))
    \<and> (hit \<or> stands m' (\<lambda>i. text i @ [b]))"
  using assms
proof (induction "length (mt_patterns m) - j" arbitrary: j m)
  case 0
  then show ?case by (auto simp: stands_def)
next
  case (Suc n)
  then have j: "j < length (mt_patterns m)" by simp
  have "longest (mt_patterns m ! j) (text j) (mt_states m ! j)"
    using Suc.prems(3) j by (auto simp: stands_def)
  then obtain k where k: "advance (mt_patterns m ! j) (mt_prefixes m ! j) b (mt_states m ! j) = Some k"
      "longest (mt_patterns m ! j) (text j @ [b]) k"
    using advance_at [OF Suc.prems(1) j] by blast
  have unfold: "feed_patterns b [j..<length (mt_patterns m)] m =
      (if k = length (mt_patterns m ! j) then Some (True, m)
       else feed_patterns b [Suc j..<length (mt_patterns m)] (m\<lparr>mt_states := (mt_states m)[j := k]\<rparr>))"
    using j k(1) Suc.prems(1) by (simp add: upt_rec [of j] matcher_ok_def)
  show ?case
  proof (cases "k = length (mt_patterns m ! j)")
    case True
    then show ?thesis using unfold Suc.prems(1) j longest_full [OF k(2)] by auto
  next
    case False
    then have less: "k < length (mt_patterns m ! j)" using k(2) by (simp add: longest_def)
    let ?m = "m\<lparr>mt_states := (mt_states m)[j := k]\<rparr>"
    have n: "n = length (mt_patterns m) - Suc j" using Suc.hyps(2) by simp
    have "stands ?m (\<lambda>i. if i < Suc j then text i @ [b] else text i)"
      using Suc.prems(1,3) k(2) by (auto simp: stands_def matcher_ok_def nth_list_update less_Suc_eq)
    then obtain hit m' where ih: "feed_patterns b [Suc j..<length (mt_patterns m)] ?m = Some (hit, m')"
        "matcher_ok m'" "mt_patterns m' = mt_patterns m"
        "hit \<longleftrightarrow> (\<exists>i < length (mt_patterns m). Suc j \<le> i \<and> suffix (mt_patterns m ! i) (text i @ [b]))"
        "hit \<or> stands m' (\<lambda>i. text i @ [b])"
      using Suc.hyps(1) [of ?m "Suc j"] n matcher_ok_update [OF Suc.prems(1) j less] j by auto
    have "\<not> suffix (mt_patterns m ! j) (text j @ [b])" using False longest_full [OF k(2)] by simp
    then show ?thesis using unfold False ih by (auto simp: Suc_le_eq le_less)
  qed
qed

definition occurs :: "bytes list \<Rightarrow> bytes \<Rightarrow> bool" where
  "occurs ps t \<longleftrightarrow> (\<exists>p \<in> set ps. sublist p t)"

lemma occurs_snoc: "occurs ps (t @ [b]) \<longleftrightarrow> occurs ps t \<or> (\<exists>p \<in> set ps. suffix p (t @ [b]))"
  by (auto simp: occurs_def sublist_snoc)

lemma occurs_more: "occurs ps t \<Longrightarrow> occurs ps (t @ u)"
  unfolding occurs_def by (meson sublist_append)

lemma matcher_feed_exact:
  assumes "matcher_ok m" "stands m (\<lambda>_. t)" "\<not> occurs (mt_patterns m) t"
  shows "\<exists>hit m'. matcher_feed m u = Some (hit, m') \<and> matcher_ok m' \<and> mt_patterns m' = mt_patterns m
    \<and> (hit \<longleftrightarrow> occurs (mt_patterns m) (t @ u)) \<and> (hit \<or> stands m' (\<lambda>_. t @ u))"
  using assms
proof (induction u arbitrary: m t)
  case Nil
  then show ?case by (intro exI [of _ False] exI [of _ m]) simp
next
  case (Cons b u)
  obtain hit m' where one: "feed_patterns b [0..<length (mt_patterns m)] m = Some (hit, m')"
      "matcher_ok m'" "mt_patterns m' = mt_patterns m"
      "hit \<longleftrightarrow> (\<exists>i < length (mt_patterns m). suffix (mt_patterns m ! i) (t @ [b]))"
      "hit \<or> stands m' (\<lambda>_. t @ [b])"
    using feed_patterns_stands [of m 0 "\<lambda>_. t" b] Cons.prems by auto
  have hit: "hit \<longleftrightarrow> occurs (mt_patterns m) (t @ [b])"
    using one(4) Cons.prems(3) unfolding occurs_snoc by (metis in_set_conv_nth)
  show ?case
  proof (cases hit)
    case True
    then show ?thesis using one hit occurs_more [of "mt_patterns m" "t @ [b]" u] by auto
  next
    case False
    then show ?thesis using Cons.IH [of m' "t @ [b]"] one hit by auto
  qed
qed

lemma feed_patterns_total:
  assumes "matcher_ok m"
  shows "\<exists>hit m'. feed_patterns b [0..<length (mt_patterns m)] m = Some (hit, m')
    \<and> matcher_ok m' \<and> mt_patterns m' = mt_patterns m"
proof -
  have "stands m (\<lambda>i. take (mt_states m ! i) (mt_patterns m ! i))"
    using assms by (auto simp: stands_def matcher_ok_def intro!: longest_self less_imp_le)
  then show ?thesis using feed_patterns_stands [OF assms, of 0] by fastforce
qed

lemma matcher_feed_total:
  assumes "matcher_ok m"
  shows "\<exists>hit m'. matcher_feed m u = Some (hit, m') \<and> matcher_ok m' \<and> mt_patterns m' = mt_patterns m"
  using assms
proof (induction u arbitrary: m)
  case Nil
  then show ?case by (intro exI [of _ False] exI [of _ m]) simp
next
  case (Cons b u)
  then obtain hit m' where one: "feed_patterns b [0..<length (mt_patterns m)] m = Some (hit, m')"
      "matcher_ok m'" "mt_patterns m' = mt_patterns m"
    using feed_patterns_total by blast
  then show ?case using Cons.IH [of m'] by (cases hit) auto
qed

lemma new_matcher_ok:
  "\<exists>m. new_matcher ps = Some m \<and> matcher_ok m \<and> mt_patterns m = filter (\<lambda>p. p \<noteq> []) ps
     \<and> stands m (\<lambda>_. [])"
proof -
  let ?kept = "filter (\<lambda>p. p \<noteq> []) ps"
  have some: "prefix_table p = Some (the (prefix_table p))" "table_ok p (the (prefix_table p)) (length p)"
    if "p \<in> set ?kept" for p
    using prefix_table_ok [of p] that by auto
  have "those (map prefix_table qs) = Some (map (\<lambda>p. the (prefix_table p)) qs)"
    if "set qs \<subseteq> set ?kept" for qs
    using that
  proof (induction qs)
    case (Cons q qs)
    then show ?case using some(1) [of q] by (cases "prefix_table q") auto
  qed simp
  then have "those (map prefix_table ?kept) = Some (map (\<lambda>p. the (prefix_table p)) ?kept)" by blast
  moreover have "?kept ! i \<in> set ?kept" "?kept ! i \<noteq> []" if "i < length ?kept" for i
    using nth_mem [OF that] by auto
  ultimately show ?thesis
    using some(2) by (simp add: new_matcher_def Let_def matcher_ok_def stands_def longest_0)
qed

lemma occurs_kept: "occurs (filter (\<lambda>p. p \<noteq> []) ps) t \<longleftrightarrow> (\<exists>p \<in> set ps. p \<noteq> [] \<and> sublist p t)"
  by (auto simp: occurs_def)

text \<open>All chunks of a response, whatever the single feeds answer: a match is remembered.\<close>

primrec feed_all :: "matcher \<Rightarrow> bytes list \<Rightarrow> (bool \<times> matcher) option" where
  "feed_all m [] = Some (False, m)"
| "feed_all m (chunk # chunks) =
     Option.bind (matcher_feed m chunk) (\<lambda>(hit, m').
       map_option (map_prod (\<lambda>later. hit \<or> later) id) (feed_all m' chunks))"

lemma feed_all_total:
  "matcher_ok m \<Longrightarrow> \<exists>r. feed_all m chunks = Some r"
proof (induction chunks arbitrary: m)
  case (Cons chunk chunks)
  then show ?case using matcher_feed_total [OF Cons.prems, of chunk] by fastforce
qed (auto intro: exI [of _ False])

lemma feed_all_exact:
  assumes "matcher_ok m" "stands m (\<lambda>_. t)" "\<not> occurs (mt_patterns m) t"
  shows "\<exists>m'. feed_all m chunks = Some (occurs (mt_patterns m) (t @ concat chunks), m')"
  using assms
proof (induction chunks arbitrary: m t)
  case (Cons chunk chunks)
  obtain hit m' where one: "matcher_feed m chunk = Some (hit, m')" "matcher_ok m'"
      "mt_patterns m' = mt_patterns m" "hit \<longleftrightarrow> occurs (mt_patterns m) (t @ chunk)"
      "hit \<or> stands m' (\<lambda>_. t @ chunk)"
    using matcher_feed_exact [OF Cons.prems] by blast
  show ?case
  proof (cases hit)
    case True
    then have "occurs (mt_patterns m) (t @ concat (chunk # chunks))"
      using one(4) occurs_more [of _ "t @ chunk"] by simp
    then show ?thesis using one(1) True feed_all_total [OF one(2)] by fastforce
  next
    case False
    then show ?thesis using one Cons.IH [of m' "t @ chunk"] by fastforce
  qed
qed simp

text \<open>C22. The matcher is a substring search: constructing it and feeding it any sequence of chunks
  returns, and some feed reports a match exactly when one of the non-empty patterns occurs in the
  concatenation of the chunks.\<close>

theorem matcher_is_substring_search:
  "\<exists>m m'. new_matcher patterns = Some m
     \<and> feed_all m chunks = Some (\<exists>p \<in> set patterns. p \<noteq> [] \<and> sublist p (concat chunks), m')"
proof -
  obtain m where m: "new_matcher patterns = Some m" "matcher_ok m"
      "mt_patterns m = filter (\<lambda>p. p \<noteq> []) patterns" "stands m (\<lambda>_. [])"
    using new_matcher_ok by blast
  have "\<not> occurs (mt_patterns m) []" using m(3) by (auto simp: occurs_def)
  then show ?thesis using feed_all_exact [OF m(2,4), of chunks] m(1,3) occurs_kept by auto
qed

end
