(* ===== verification/Escape_Decoder.thy ===== *)
theory Escape_Decoder
  imports Wire_Text Byte_Match
begin

text \<open>
  The streaming decoder of JSON string escapes in \<open>mcp_adapter/policy.py\<close>
  (\<open>_IncrementalJsonEscapeDecoder\<close>). Its output does not depend on how the response was cut into
  chunks, and every way of writing a byte in a JSON string (itself, a short escape, or \<open>\u00XX\<close> in
  either case) decodes to that byte.
\<close>

section \<open>Model\<close>

definition short_escape :: "nat \<Rightarrow> nat option" where
  "short_escape = map_of [(34, 34), (92, 92), (47, 47), (98, 8), (102, 12), (110, 10), (114, 13), (116, 9)]"

text \<open>\<open>int(value, 16)\<close> on bytes: ASCII white space is stripped, a sign and underscores are read.\<close>

definition int_bytes16 :: "bytes \<Rightarrow> int option" where
  "int_bytes16 value = signed_hex (strip_chars [9, 10, 11, 12, 13, 32] value)"

definition unicode_escape :: "bytes \<Rightarrow> bytes" where
  "unicode_escape escape =
     (let character = (case int_bytes16 (drop 4 escape) of None \<Rightarrow> 256 | Some i \<Rightarrow> i)
      in if take 2 (drop 2 escape) = [48, 48] \<and> 0 \<le> character \<and> character \<le> 127
         then [nat character] else escape)"

text \<open>One byte of \<open>feed\<close>: the new pending bytes and what is appended to the decoded text.\<close>

definition decode_byte :: "bytes \<Rightarrow> nat \<Rightarrow> bytes \<times> bytes" where
  "decode_byte pending byte =
     (if pending = [] then (if byte = 92 then ([92], []) else ([], [byte]))
      else
        (let pending' = pending @ [byte]
         in if length pending' = 2
            then (case short_escape (pending' ! 1) of
                    Some c \<Rightarrow> ([], [c])
                  | None \<Rightarrow> if pending' ! 1 \<noteq> 117 then ([], pending') else (pending', []))
            else if length pending' = 6 then ([], unicode_escape pending')
            else (pending', [])))"

primrec decoder_feed :: "bytes \<Rightarrow> bytes \<Rightarrow> bytes \<times> bytes" where
  "decoder_feed pending [] = (pending, [])"
| "decoder_feed pending (byte # rest) =
     (case decode_byte pending byte of
        (pending', out) \<Rightarrow> (case decoder_feed pending' rest of (rest_pending, tail_out) \<Rightarrow> (rest_pending, out @ tail_out)))"

definition decoder_finish :: "bytes \<Rightarrow> bytes \<times> bytes" where
  "decoder_finish pending = ([], pending)"

section \<open>Independence of the chunks\<close>

lemma decoder_feed_append:
  "decoder_feed p (a @ b) =
     (case decoder_feed p a of (q, out) \<Rightarrow> (case decoder_feed q b of (r, tail_out) \<Rightarrow> (r, out @ tail_out)))"
  by (induction a arbitrary: p) (auto split: prod.splits)

text \<open>The whole decoded text: what the feeds appended, then what \<open>finish\<close> flushes.\<close>

definition decoded :: "bytes \<Rightarrow> bytes" where
  "decoded t = (case decoder_feed [] t of (pending, out) \<Rightarrow> out @ snd (decoder_finish pending))"

section \<open>Spellings\<close>

inductive spelling :: "nat \<Rightarrow> bytes \<Rightarrow> bool" where
  raw: "b \<noteq> 92 \<Longrightarrow> spelling b [b]"
| short: "short_escape e = Some b \<Longrightarrow> spelling b [92, e]"
| unicode: "b \<le> 127 \<Longrightarrow> hex_value h = Some (b div 16) \<Longrightarrow> hex_value l = Some (b mod 16)
    \<Longrightarrow> spelling b [92, 117, 48, 48, h, l]"

lemma hex_value_range: "hex_value c = Some v \<Longrightarrow> 48 \<le> c \<and> c \<le> 102 \<and> v < 16 \<and> c \<noteq> 95 \<and> c \<noteq> 120 \<and> c \<noteq> 88"
  by (auto simp: hex_value_def split: if_splits)

lemma two_hex_digits:
  assumes "hex_value h = Some v" "hex_value l = Some w"
  shows "int_bytes16 [h, l] = Some (int (v * 16 + w))"
proof -
  note r = hex_value_range [OF assms(1)] hex_value_range [OF assms(2)]
  have "strip_chars [9, 10, 11, 12, 13, 32] [h, l] = [h, l]"
    using r by (intro strip_chars_absent) auto
  moreover have "unsigned_hex [h, l] = Some (v * 16 + w)"
    using assms r by (simp add: unsigned_hex_def)
  ultimately show ?thesis using r by (simp add: int_bytes16_def signed_hex_def)
qed

lemma short_escape_117: "short_escape 117 = None"
  by (simp add: short_escape_def)

lemma spelling_decoded:
  assumes "spelling b s"
  shows "decoder_feed [] s = ([], [b])"
  using assms
proof cases
  case (unicode h l)
  have "int_bytes16 [h, l] = Some (int b)"
    using two_hex_digits [OF unicode(3,4)] by simp
  then show ?thesis
    using unicode(1,2) by (simp add: decode_byte_def unicode_escape_def short_escape_117)
qed (simp_all add: decode_byte_def)

lemma spellings_decoded:
  "list_all2 spelling v ss \<Longrightarrow> decoder_feed [] (concat ss) = ([], v)"
  by (induction rule: list_all2_induct) (simp_all add: decoder_feed_append spelling_decoded)

lemma spelled_occurs:
  assumes "fst (decoder_feed [] before) = []" "list_all2 spelling v ss"
  shows "sublist v (decoded (before @ concat ss @ rest))"
proof -
  obtain out where out: "decoder_feed [] before = ([], out)"
    using assms(1) by (cases "decoder_feed [] before") auto
  obtain q tail_out where "decoder_feed [] rest = (q, tail_out)" by (cases "decoder_feed [] rest") auto
  then have "decoded (before @ concat ss @ rest) = out @ v @ (tail_out @ q)"
    using out spellings_decoded [OF assms(2)]
    by (simp add: decoded_def decoder_feed_append decoder_finish_def)
  then show ?thesis by (metis sublist_appendI)
qed

primrec decoder_feeds :: "bytes \<Rightarrow> bytes list \<Rightarrow> bytes" where
  "decoder_feeds pending [] = snd (decoder_finish pending)"
| "decoder_feeds pending (chunk # chunks) =
     (case decoder_feed pending chunk of (pending', out) \<Rightarrow> out @ decoder_feeds pending' chunks)"

lemma decoder_feeds_concat:
  "decoder_feeds pending chunks =
     (case decoder_feed pending (concat chunks) of (q, out) \<Rightarrow> out @ snd (decoder_finish q))"
  by (induction chunks arbitrary: pending) (auto simp: decoder_feed_append split: prod.splits)



end
