(* ===== verification/Upstream_Stream.thy ===== *)
theory Upstream_Stream
  imports Upstream_Screen Escape_Decoder
begin

text \<open>
  The bounded, screened response body of \<^verbatim>\<open>mcp_adapter/policy.py\<close>: \<open>RawByteBudget\<close>,
  \<open>LimitedByteStream\<close> with its event scanner, and \<open>LimitedTransport\<close>. One budget and three flags are
  shared by all responses of a client session. An operation that does not return is \<open>None\<close>; one that
  raises keeps the state it has changed so far.
\<close>

section \<open>State\<close>

datatype upstream_error = ResponseLimitExceeded | PolicyRejected | RecursionError

record session =
  ss_remaining :: int
  ss_sensitive :: bool
  ss_completed :: bool
  ss_failed :: bool

record response_config =
  rc_expected_id :: json
  rc_event_stream :: bool
  rc_status_code :: nat
  rc_tool_call :: bool

record byte_stream =
  bs_marked :: bool
  bs_pending_sensitive :: bool
  bs_forbidden :: matcher
  bs_decoded_forbidden :: matcher
  bs_escape :: bytes
  bs_generic_tail :: bytes
  bs_buffer :: bytes
  bs_scan_from :: nat

type_synonym stream_state = "byte_stream \<times> session"

text \<open>A step gives the error it raised, if any, and the state it left.\<close>

type_synonym stream_result = "upstream_error option \<times> stream_state"

definition buffer_json_document :: "response_config \<Rightarrow> bool" where
  "buffer_json_document rc \<longleftrightarrow> \<not> rc_event_stream rc \<or> rc_status_code rc \<noteq> 200"

definition new_stream :: "bytes list \<Rightarrow> byte_stream option" where
  "new_stream forbidden_values = Option.bind (new_matcher forbidden_values) (\<lambda>m.
     Some \<lparr>bs_marked = False, bs_pending_sensitive = False, bs_forbidden = m, bs_decoded_forbidden = m,
           bs_escape = [], bs_generic_tail = [], bs_buffer = [], bs_scan_from = 0\<rparr>)"

section \<open>Marks\<close>

definition mark_sensitive :: "stream_state \<Rightarrow> stream_state" where
  "mark_sensitive = (\<lambda>(bs, ss). (bs, ss\<lparr>ss_sensitive := True\<rparr>))"

definition flag_sensitive :: "stream_state \<Rightarrow> stream_state" where
  "flag_sensitive st = (case mark_sensitive st of (bs, ss) \<Rightarrow> (bs\<lparr>bs_pending_sensitive := True\<rparr>, ss))"

definition mark_complete_once :: "response_config \<Rightarrow> stream_state \<Rightarrow> stream_state" where
  "mark_complete_once rc = (\<lambda>(bs, ss).
     if bs_marked bs then (bs, ss)
     else (bs\<lparr>bs_marked := True\<rparr>, if rc_tool_call rc then ss\<lparr>ss_completed := True\<rparr> else ss))"

definition mark_tool_failure :: "response_config \<Rightarrow> stream_state \<Rightarrow> stream_state" where
  "mark_tool_failure rc = (\<lambda>(bs, ss). (bs, if rc_tool_call rc then ss\<lparr>ss_failed := True\<rparr> else ss))"

definition reject_sensitive_body :: "stream_state \<Rightarrow> stream_result" where
  "reject_sensitive_body st = (Some PolicyRejected, mark_sensitive st)"

text \<open>\<open>RawByteBudget.consume\<close>: the size is deducted before the check.\<close>

definition consume :: "nat \<Rightarrow> session \<Rightarrow> upstream_error option \<times> session" where
  "consume n ss =
     (let ss' = ss\<lparr>ss_remaining := ss_remaining ss - int n\<rparr>
      in (if ss_remaining ss' < 0 then Some ResponseLimitExceeded else None, ss'))"

section \<open>Event boundaries\<close>

text \<open>The line ends of \<open>_SSE_EVENT_BOUNDARY_BYTES\<close> at a position of the buffer: CR LF, a CR with no LF
  after it, or an LF with no CR before it. At most one of them applies, so that the length of the
  line end is determined.\<close>

definition line_end :: "bytes \<Rightarrow> nat \<Rightarrow> nat option" where
  "line_end buf i =
     (if i < length buf \<and> buf ! i = 13
      then (if Suc i < length buf \<and> buf ! Suc i = 10 then Some 2 else Some 1)
      else if i < length buf \<and> buf ! i = 10 \<and> \<not> (0 < i \<and> buf ! (i - 1) = 13) then Some 1
      else None)"

definition boundary_end :: "bytes \<Rightarrow> nat \<Rightarrow> nat option" where
  "boundary_end buf i = Option.bind (line_end buf i) (\<lambda>a.
     Option.bind (line_end buf (i + a)) (\<lambda>b. Some (i + a + b)))"

text \<open>\<open>search(buffer, pos)\<close>: the first position from \<open>pos\<close> on where the pattern matches, with the end
  of the match.\<close>

fun first_boundary :: "bytes \<Rightarrow> nat list \<Rightarrow> (nat \<times> nat) option" where
  "first_boundary buf [] = None"
| "first_boundary buf (i # is) =
     (case boundary_end buf i of Some e \<Rightarrow> Some (i, e) | None \<Rightarrow> first_boundary buf is)"

definition boundary_search :: "bytes \<Rightarrow> nat \<Rightarrow> (nat \<times> nat) option" where
  "boundary_search buf pos = first_boundary buf [pos..<length buf]"

lemma line_end_bounds: "line_end buf i = Some a \<Longrightarrow> 0 < a \<and> i + a \<le> length buf"
  by (auto simp: line_end_def split: if_splits)

lemma boundary_end_bounds: "boundary_end buf i = Some e \<Longrightarrow> i < e \<and> e \<le> length buf"
  by (auto simp: boundary_end_def bind_eq_Some_conv dest: line_end_bounds)

lemma first_boundary_Some:
  "first_boundary buf is = Some (s, e) \<Longrightarrow> s \<in> set is \<and> boundary_end buf s = Some e"
  by (induction "is") (auto split: option.splits)

lemma boundary_search_Some:
  "boundary_search buf pos = Some (s, e) \<Longrightarrow> pos \<le> s \<and> s < e \<and> e \<le> length buf \<and> boundary_end buf s = Some e"
  unfolding boundary_search_def
  using first_boundary_Some [of buf "[pos..<length buf]" s e] boundary_end_bounds by auto

lemma first_boundary_None: "first_boundary buf is = None \<longleftrightarrow> (\<forall>i \<in> set is. boundary_end buf i = None)"
  by (induction "is") (auto split: option.splits)

section \<open>Screening completed events\<close>

text \<open>One completed event: whether it answers the request, and whether it has to be rejected.\<close>

definition screen_event ::
  "'e screen_externals_scheme \<Rightarrow> response_config \<Rightarrow> bytes \<Rightarrow> stream_state \<Rightarrow> stream_result option" where
  "screen_event ext rc event st =
     (case sse_jsonrpc_response ext event (rc_expected_id rc) of
        Inl _ \<Rightarrow> Some (Some RecursionError, st)
      | Inr (is_response, is_error) \<Rightarrow>
          (let st1 = (if is_response then mark_complete_once rc st else st);
               st2 = (if is_response \<and> is_error then mark_tool_failure rc st1 else st1)
           in Option.bind (or_else (Some (bs_pending_sensitive (fst st2)))
                (contains_sensitive_sse_event ext event)) (\<lambda>sensitive.
                Some (if sensitive then reject_sensitive_body st2 else (None, st2)))))"

text \<open>The loop of \<open>_screen_completed_sse_events\<close>, with the index up to which events are consumed. When
  it raises, the buffer has not been shortened yet.\<close>

function screen_loop ::
  "'e screen_externals_scheme \<Rightarrow> response_config \<Rightarrow> nat \<Rightarrow> nat \<Rightarrow> bytes \<Rightarrow> stream_state
     \<Rightarrow> (nat \<times> stream_result) option" where
  "screen_loop ext rc consumed pos buf st =
     (case boundary_search buf pos of
        None \<Rightarrow> Some (consumed, None, st)
      | Some (s, e) \<Rightarrow>
          Option.bind (screen_event ext rc (drop consumed (take s buf))
              (case st of (bs, ss) \<Rightarrow> (bs\<lparr>bs_scan_from := e\<rparr>, ss))) (\<lambda>(err, st').
            (case err of
               Some _ \<Rightarrow> Some (e, err, st')
             | None \<Rightarrow> screen_loop ext rc e e buf st')))"
  by pat_completeness auto
termination
  by (relation "measure (\<lambda>(ext, rc, consumed, pos, buf, st). length buf - pos)")
    (auto dest: boundary_search_Some)

definition screen_completed_sse_events ::
  "'e screen_externals_scheme \<Rightarrow> response_config \<Rightarrow> stream_state \<Rightarrow> stream_result option" where
  "screen_completed_sse_events ext rc st =
     Option.bind (screen_loop ext rc 0 (bs_scan_from (fst st)) (bs_buffer (fst st)) st)
       (\<lambda>(consumed, err, st').
          (case err of
             Some _ \<Rightarrow> Some (err, st')
           | None \<Rightarrow>
               (let left = drop consumed (bs_buffer (fst st'))
                in Some (None, (fst st')\<lparr>bs_buffer := left, bs_scan_from := length left - 3\<rparr>, snd st'))))"

section \<open>The body\<close>

text \<open>One chunk of \<open>__aiter__\<close>, up to the point where it may be yielded. The operands of the screening
  disjunction are evaluated in order: after a match in the raw bytes the decoded bytes are not fed.\<close>

definition buffer_chunk :: "bytes \<Rightarrow> byte_stream \<Rightarrow> byte_stream \<times> bytes \<times> bytes" where
  "buffer_chunk chunk bs =
     (case decoder_feed (bs_escape bs) chunk of
        (pending, decoded_chunk) \<Rightarrow>
          (let window = bs_generic_tail bs @ decoded_chunk
           in (bs\<lparr>bs_escape := pending, bs_generic_tail := drop (length window - 256) window,
                  bs_buffer := bs_buffer bs @ chunk\<rparr>, decoded_chunk, window)))"

definition screen_bytes ::
  "'e screen_externals_scheme \<Rightarrow> bytes \<Rightarrow> bytes \<Rightarrow> bytes \<Rightarrow> stream_state \<Rightarrow> stream_state option" where
  "screen_bytes ext chunk decoded_chunk window st =
     Option.bind (matcher_feed (bs_forbidden (fst st)) chunk) (\<lambda>(hit, m).
       (let st1 = ((fst st)\<lparr>bs_forbidden := m\<rparr>, snd st)
        in if hit then Some (flag_sensitive st1)
           else
             Option.bind (matcher_feed (bs_decoded_forbidden (fst st1)) decoded_chunk) (\<lambda>(hit', m').
               (let st2 = ((fst st1)\<lparr>bs_decoded_forbidden := m'\<rparr>, snd st1)
                in Some (if hit' \<or> contains_obvious_secret ext (decode_ignore ext window)
                         then flag_sensitive st2 else st2)))))"

definition stream_chunk ::
  "'e screen_externals_scheme \<Rightarrow> response_config \<Rightarrow> bytes \<Rightarrow> stream_state \<Rightarrow> stream_result option" where
  "stream_chunk ext rc chunk st =
     (case consume (length chunk) (snd st) of
        (Some e, ss) \<Rightarrow> Some (Some e, fst st, ss)
      | (None, ss) \<Rightarrow>
          (case buffer_chunk chunk (fst st) of
             (bs, decoded_chunk, window) \<Rightarrow>
               Option.bind (if buffer_json_document rc then Some (None, bs, ss)
                            else screen_completed_sse_events ext rc (bs, ss)) (\<lambda>(err, st').
                 (case err of
                    Some _ \<Rightarrow> Some (err, st')
                  | None \<Rightarrow>
                      map_option (Pair None) (screen_bytes ext chunk decoded_chunk window st')))))"

text \<open>After the last chunk: the pending escape is flushed and screened.\<close>

definition flush_escape ::
  "'e screen_externals_scheme \<Rightarrow> stream_state \<Rightarrow> stream_state option" where
  "flush_escape ext st =
     (case decoder_finish (bs_escape (fst st)) of
        (pending, decoded_tail) \<Rightarrow>
          Option.bind (matcher_feed (bs_decoded_forbidden (fst st)) decoded_tail) (\<lambda>(hit, m).
            (let st1 = ((fst st)\<lparr>bs_escape := pending, bs_decoded_forbidden := m\<rparr>, snd st)
             in Some (if hit \<or> contains_obvious_secret ext
                                 (decode_ignore ext (bs_generic_tail (fst st) @ decoded_tail))
                      then flag_sensitive st1 else st1))))"

definition client_rejection :: "response_config \<Rightarrow> bool" where
  "client_rejection rc \<longleftrightarrow> 400 \<le> rc_status_code rc \<and> rc_status_code rc < 500"

text \<open>The marks a whole document sets.\<close>

definition mark_document ::
  "response_config \<Rightarrow> (bool \<times> bool) option \<Rightarrow> stream_state \<Rightarrow> stream_state" where
  "mark_document rc response st =
     (let malformed_success = response = None \<and> rc_status_code rc \<in> {200, 204};
          matching = (case response of Some (a, _) \<Rightarrow> a | None \<Rightarrow> False);
          is_error = (case response of Some (_, b) \<Rightarrow> b | None \<Rightarrow> False)
      in if client_rejection rc \<or> malformed_success \<or> matching
         then (let st1 = mark_complete_once rc st
               in if client_rejection rc \<or> is_error then mark_tool_failure rc st1 else st1)
         else st)"

definition finish_document ::
  "'e screen_externals_scheme \<Rightarrow> response_config \<Rightarrow> stream_state \<Rightarrow> (bytes list \<times> stream_result) option" where
  "finish_document ext rc st =
     (let body = bs_buffer (fst st)
      in case jsonrpc_response ext body (rc_expected_id rc) of
           Inl _ \<Rightarrow> Some ([], Some RecursionError, st)
         | Inr response \<Rightarrow>
             (let st1 = mark_document rc response st
              in Option.bind (or_else (Some (bs_pending_sensitive (fst st1)))
                   (contains_sensitive_json_document ext body)) (\<lambda>sensitive.
                   Some (if sensitive then ([], reject_sensitive_body st1)
                         else (if body = [] then [] else [body], None, st1)))))"

definition finish_events ::
  "'e screen_externals_scheme \<Rightarrow> stream_state \<Rightarrow> (bytes list \<times> stream_result) option" where
  "finish_events ext st =
     Option.bind (or_else (Some (bs_pending_sensitive (fst st)))
       (if bs_buffer (fst st) = [] then Some False
        else contains_sensitive_sse_event ext (bs_buffer (fst st)))) (\<lambda>sensitive.
       Some ([], if sensitive then reject_sensitive_body st else (None, st)))"

definition stream_finish ::
  "'e screen_externals_scheme \<Rightarrow> response_config \<Rightarrow> stream_state \<Rightarrow> (bytes list \<times> stream_result) option" where
  "stream_finish ext rc st = Option.bind (flush_escape ext st) (\<lambda>st1.
     if buffer_json_document rc then finish_document ext rc st1 else finish_events ext st1)"

text \<open>The whole iteration over the chunks of the network stream: what was yielded, the error it ended
  with, and the state.\<close>

primrec stream_iter ::
  "'e screen_externals_scheme \<Rightarrow> response_config \<Rightarrow> bytes list \<Rightarrow> stream_state
     \<Rightarrow> (bytes list \<times> stream_result) option" where
  "stream_iter ext rc [] st = stream_finish ext rc st"
| "stream_iter ext rc (chunk # chunks) st =
     Option.bind (stream_chunk ext rc chunk st) (\<lambda>(err, st').
       (case err of
          Some _ \<Rightarrow> Some ([], err, st')
        | None \<Rightarrow>
            map_option (map_prod (\<lambda>out. if buffer_json_document rc then out else chunk # out) id)
              (stream_iter ext rc chunks st')))"

text \<open>\<open>aclose\<close>: what is still buffered is screened after the inner stream is closed.\<close>

definition stream_close ::
  "'e screen_externals_scheme \<Rightarrow> response_config \<Rightarrow> stream_state \<Rightarrow> stream_result option" where
  "stream_close ext rc st =
     Option.bind (if buffer_json_document rc then contains_sensitive_json_document ext (bs_buffer (fst st))
                  else contains_sensitive_sse_event ext (bs_buffer (fst st))) (\<lambda>sensitive.
       Some (if sensitive then reject_sensitive_body st else (None, st)))"

end
