(* ===== verification/Upstream_Props.thy ===== *)
theory Upstream_Props
  imports Upstream_Stream
begin

text \<open>
  What the screened body guarantees: it returns, it delivers exactly what was received and never
  more than the byte budget, no complete event stays unscreened, and no forbidden value, raw or
  escaped, is delivered without the session being marked.
\<close>

section \<open>What the marks keep\<close>

text \<open>The marks and the event scanner leave the matchers, the decoder and the budget alone and never
  take the session's sensitive flag back.\<close>

definition same_screens :: "stream_state \<Rightarrow> stream_state \<Rightarrow> bool" where
  "same_screens st st' \<longleftrightarrow>
     bs_pending_sensitive (fst st') = bs_pending_sensitive (fst st)
     \<and> bs_forbidden (fst st') = bs_forbidden (fst st)
     \<and> bs_decoded_forbidden (fst st') = bs_decoded_forbidden (fst st)
     \<and> bs_escape (fst st') = bs_escape (fst st)
     \<and> ss_remaining (snd st') = ss_remaining (snd st)
     \<and> (ss_sensitive (snd st) \<longrightarrow> ss_sensitive (snd st'))"

definition kept :: "stream_state \<Rightarrow> stream_state \<Rightarrow> bool" where
  "kept st st' \<longleftrightarrow> same_screens st st' \<and> bs_buffer (fst st') = bs_buffer (fst st)"

lemma kept_refl [simp]: "kept st st"
  by (simp add: kept_def same_screens_def)

lemma kept_trans: "kept a b \<Longrightarrow> kept b c \<Longrightarrow> kept a c"
  by (simp add: kept_def same_screens_def)

lemma kept_marks:
  "kept st (mark_sensitive st)"
  "kept st (mark_complete_once rc st)"
  "kept st (mark_tool_failure rc st)"
  by (auto simp: kept_def same_screens_def mark_sensitive_def mark_complete_once_def
      mark_tool_failure_def split: prod.splits)

lemma reject_kept: "reject_sensitive_body st = (err, st') \<Longrightarrow> kept st st' \<and> err \<noteq> None"
  by (auto simp: reject_sensitive_body_def kept_marks)

text \<open>The marks of a completed event.\<close>

definition event_marks :: "response_config \<Rightarrow> bool \<Rightarrow> bool \<Rightarrow> stream_state \<Rightarrow> stream_state" where
  "event_marks rc is_response is_error st =
     (let st1 = (if is_response then mark_complete_once rc st else st)
      in if is_response \<and> is_error then mark_tool_failure rc st1 else st1)"

lemma event_marks_kept: "kept st (event_marks rc a b st)"
  by (cases a; cases b) (auto simp: event_marks_def intro: kept_marks kept_trans [OF kept_marks(2)])

lemma screen_event_alt:
  "screen_event ext rc event st =
     (case sse_jsonrpc_response ext event (rc_expected_id rc) of
        Inl _ \<Rightarrow> Some (Some RecursionError, st)
      | Inr (a, b) \<Rightarrow>
          Option.bind (or_else (Some (bs_pending_sensitive (fst (event_marks rc a b st))))
            (contains_sensitive_sse_event ext event)) (\<lambda>sensitive.
            Some (if sensitive then reject_sensitive_body (event_marks rc a b st)
                  else (None, event_marks rc a b st))))"
  unfolding screen_event_def event_marks_def Let_def ..

lemma screen_event_kept:
  assumes "screen_event ext rc event st = Some (err, st')"
  shows "kept st st'"
proof (cases "sse_jsonrpc_response ext event (rc_expected_id rc)")
  case (Inl e)
  then show ?thesis using assms by (simp add: screen_event_alt)
next
  case (Inr r)
  obtain a b where r: "r = (a, b)" by (cases r)
  have "kept (event_marks rc a b st) st'"
    using assms Inr r
    by (auto simp: screen_event_alt bind_eq_Some_conv split: if_splits dest: reject_kept)
  then show ?thesis using event_marks_kept kept_trans by blast
qed

text \<open>The invariant rule of the event loop.\<close>

definition scanned_to :: "nat \<Rightarrow> stream_state \<Rightarrow> stream_state" where
  "scanned_to e st = ((fst st)\<lparr>bs_scan_from := e\<rparr>, snd st)"

declare screen_loop.simps [simp del]

lemma screen_loop_unfold:
  "screen_loop ext rc consumed pos buf st =
     (case boundary_search buf pos of
        None \<Rightarrow> Some (consumed, None, st)
      | Some (s, e) \<Rightarrow>
          Option.bind (screen_event ext rc (drop consumed (take s buf)) (scanned_to e st)) (\<lambda>(err, st').
            (case err of
               Some _ \<Rightarrow> Some (e, err, st')
             | None \<Rightarrow> screen_loop ext rc e e buf st')))"
  unfolding screen_loop.simps [of ext rc consumed pos buf st] scanned_to_def
  by (cases st) (auto split: option.split)

lemma screen_loop_rule:
  assumes run: "screen_loop ext rc consumed pos buf st = Some (c, err, st')" and start: "P consumed pos st"
    and step: "\<And>consumed pos st s e st1. P consumed pos st \<Longrightarrow> boundary_search buf pos = Some (s, e)
      \<Longrightarrow> screen_event ext rc (drop consumed (take s buf)) (scanned_to e st) = Some (None, st1) \<Longrightarrow> P e e st1"
  shows "(err = None \<and> (\<exists>pos'. P c pos' st' \<and> boundary_search buf pos' = None))
    \<or> (err \<noteq> None \<and> (\<exists>consumed' pos' st0 event e. P consumed' pos' st0
           \<and> screen_event ext rc event (scanned_to e st0) = Some (err, st')))"
  using run start
proof (induction "length buf - pos" arbitrary: consumed pos st rule: less_induct)
  case less
  show ?case
  proof (cases "boundary_search buf pos")
    case None
    then show ?thesis using less.prems by (auto simp: screen_loop_unfold)
  next
    case (Some m)
    then obtain s e where m: "boundary_search buf pos = Some (s, e)" by (cases m) simp
    obtain err1 st1 where one: "screen_event ext rc (drop consumed (take s buf)) (scanned_to e st) = Some (err1, st1)"
      using less.prems(1) m by (auto simp: screen_loop_unfold [of ext rc consumed] bind_eq_Some_conv)
    show ?thesis
    proof (cases err1)
      case None
      then have "screen_loop ext rc e e buf st1 = Some (c, err, st')"
        using less.prems(1) m one by (simp add: screen_loop_unfold [of ext rc consumed])
      moreover have "length buf - e < length buf - pos" using boundary_search_Some [OF m] by linarith
      ultimately show ?thesis using less.hyps step [OF less.prems(2) m] one None by blast
    next
      case (Some a)
      then have "err = err1" "st' = st1"
        using less.prems(1) m one by (simp_all add: screen_loop_unfold [of ext rc consumed])
      then show ?thesis using Some one less.prems(2) by blast
    qed
  qed
qed

lemma scanned_kept: "kept st (scanned_to e st)"
  by (simp add: scanned_to_def kept_def same_screens_def)

lemma screen_loop_kept:
  assumes "screen_loop ext rc consumed pos buf st = Some (c, err, st')"
  shows "kept st st'"
  using screen_loop_rule [where P = "\<lambda>_ _. kept st", OF assms kept_refl]
    screen_event_kept scanned_kept kept_trans by metis

lemma screen_completed_same:
  assumes "screen_completed_sse_events ext rc st = Some (err, st')"
  shows "same_screens st st'"
  using assms
  by (auto simp: screen_completed_sse_events_def bind_eq_Some_conv Let_def kept_def same_screens_def
      split: option.splits dest!: screen_loop_kept)

section \<open>The screens follow the text\<close>

text \<open>Raw text \<open>t\<close> and decoded text \<open>u\<close> have been fed: either a sensitive response is pending and the
  session is marked, or both matchers stand at their text and nothing forbidden occurred.\<close>

definition followed :: "bytes list \<Rightarrow> bytes \<Rightarrow> bytes \<Rightarrow> stream_state \<Rightarrow> bool" where
  "followed ps t u st \<longleftrightarrow>
     matcher_ok (bs_forbidden (fst st)) \<and> mt_patterns (bs_forbidden (fst st)) = ps
     \<and> matcher_ok (bs_decoded_forbidden (fst st)) \<and> mt_patterns (bs_decoded_forbidden (fst st)) = ps
     \<and> (if bs_pending_sensitive (fst st) then ss_sensitive (snd st)
        else stands (bs_forbidden (fst st)) (\<lambda>_. t) \<and> \<not> occurs ps t
             \<and> stands (bs_decoded_forbidden (fst st)) (\<lambda>_. u) \<and> \<not> occurs ps u)"

lemma followed_same: "followed ps t u st \<Longrightarrow> same_screens st st' \<Longrightarrow> followed ps t u st'"
  by (auto simp: followed_def same_screens_def split: if_splits)

lemma flag_sensitive_simps [simp]:
  "flag_sensitive (bs, ss) = (bs\<lparr>bs_pending_sensitive := True\<rparr>, ss\<lparr>ss_sensitive := True\<rparr>)"
  by (simp add: flag_sensitive_def mark_sensitive_def)

text \<open>What screening leaves alone.\<close>

definition only_screens :: "stream_state \<Rightarrow> stream_state \<Rightarrow> bool" where
  "only_screens st st' \<longleftrightarrow> bs_buffer (fst st') = bs_buffer (fst st)
     \<and> bs_scan_from (fst st') = bs_scan_from (fst st)
     \<and> ss_remaining (snd st') = ss_remaining (snd st) \<and> (ss_sensitive (snd st) \<longrightarrow> ss_sensitive (snd st'))"

lemma screen_bytes_followed:
  assumes f: "followed ps t u st"
  shows "\<exists>st'. screen_bytes ext chunk decoded_chunk window st = Some st'
    \<and> followed ps (t @ chunk) (u @ decoded_chunk) st'
    \<and> bs_escape (fst st') = bs_escape (fst st) \<and> only_screens st st'"
proof -
  obtain bs ss where st: "st = (bs, ss)" by (cases st)
  let ?F = "bs_forbidden bs" and ?D = "bs_decoded_forbidden bs"
  have ok: "matcher_ok ?F" "mt_patterns ?F = ps" "matcher_ok ?D" "mt_patterns ?D = ps"
    using f st by (auto simp: followed_def)
  show ?thesis
  proof (cases "bs_pending_sensitive bs")
    case True
    obtain hit m where m: "matcher_feed ?F chunk = Some (hit, m)" "matcher_ok m" "mt_patterns m = ps"
      using matcher_feed_total [OF ok(1)] ok(2) by metis
    obtain hit' m' where m': "matcher_feed ?D decoded_chunk = Some (hit', m')" "matcher_ok m'"
        "mt_patterns m' = ps"
      using matcher_feed_total [OF ok(3)] ok(4) by metis
    show ?thesis
      using f st True m m' ok(3,4) by (auto simp: screen_bytes_def followed_def only_screens_def Let_def)
  next
    case False
    then have s: "stands ?F (\<lambda>_. t)" "\<not> occurs (mt_patterns ?F) t" "stands ?D (\<lambda>_. u)"
        "\<not> occurs (mt_patterns ?D) u"
      using f st ok by (auto simp: followed_def)
    obtain hit m where m: "matcher_feed ?F chunk = Some (hit, m)" "matcher_ok m" "mt_patterns m = ps"
        "hit \<longleftrightarrow> occurs ps (t @ chunk)" "hit \<or> stands m (\<lambda>_. t @ chunk)"
      using matcher_feed_exact [OF ok(1) s(1,2)] ok(2) by metis
    obtain hit' m' where m': "matcher_feed ?D decoded_chunk = Some (hit', m')" "matcher_ok m'"
        "mt_patterns m' = ps" "hit' \<longleftrightarrow> occurs ps (u @ decoded_chunk)"
        "hit' \<or> stands m' (\<lambda>_. u @ decoded_chunk)"
      using matcher_feed_exact [OF ok(3) s(3,4)] ok(4) by metis
    show ?thesis
      using st False m m' ok(3,4) by (auto simp: screen_bytes_def followed_def only_screens_def Let_def)
  qed
qed

text \<open>The stream after accepting the raw text \<open>t\<close>.\<close>

definition stream_at :: "response_config \<Rightarrow> bytes list \<Rightarrow> int \<Rightarrow> bytes \<Rightarrow> stream_state \<Rightarrow> bool" where
  "stream_at rc ps budget t st \<longleftrightarrow> followed ps t (snd (decoder_feed [] t)) st
     \<and> bs_escape (fst st) = fst (decoder_feed [] t)
     \<and> (buffer_json_document rc \<longrightarrow> bs_buffer (fst st) = t)
     \<and> ss_remaining (snd st) = budget - int (length t) \<and> int (length t) \<le> budget"

lemma buffer_chunk_eq:
  "buffer_chunk chunk bs =
     (bs\<lparr>bs_escape := fst (decoder_feed (bs_escape bs) chunk),
         bs_generic_tail := (let w = bs_generic_tail bs @ snd (decoder_feed (bs_escape bs) chunk)
                             in drop (length w - 256) w),
         bs_buffer := bs_buffer bs @ chunk\<rparr>,
      snd (decoder_feed (bs_escape bs) chunk), bs_generic_tail bs @ snd (decoder_feed (bs_escape bs) chunk))"
  by (simp add: buffer_chunk_def Let_def split: prod.splits)

lemma decoder_feed_snoc:
  "decoder_feed [] (t @ chunk) =
     (fst (decoder_feed (fst (decoder_feed [] t)) chunk),
      snd (decoder_feed [] t) @ snd (decoder_feed (fst (decoder_feed [] t)) chunk))"
  by (simp add: decoder_feed_append split: prod.splits)

lemma stream_chunk_at:
  assumes at_t: "stream_at rc ps budget t st" and run: "stream_chunk ext rc chunk st = Some (err, st')"
  shows "(ss_sensitive (snd st) \<longrightarrow> ss_sensitive (snd st'))
    \<and> (err = None \<longrightarrow> stream_at rc ps budget (t @ chunk) st')"
proof (cases "ss_remaining (snd st) - int (length chunk) < 0")
  case True
  then show ?thesis using run by (auto simp: stream_chunk_def consume_def Let_def)
next
  case False
  let ?ss = "(snd st)\<lparr>ss_remaining := ss_remaining (snd st) - int (length chunk)\<rparr>"
  obtain bs d w where bc: "buffer_chunk chunk (fst st) = (bs, d, w)" by (cases "buffer_chunk chunk (fst st)")
  have start: "followed ps t (snd (decoder_feed [] t)) (bs, ?ss)"
    using at_t bc by (auto simp: stream_at_def followed_def buffer_chunk_eq)
  have dec: "bs_escape bs = fst (decoder_feed [] (t @ chunk))"
      "snd (decoder_feed [] (t @ chunk)) = snd (decoder_feed [] t) @ d"
      "bs_buffer bs = bs_buffer (fst st) @ chunk"
    using at_t bc by (auto simp: stream_at_def buffer_chunk_eq decoder_feed_snoc)
  let ?scan = "if buffer_json_document rc then Some (None, bs, ?ss)
               else screen_completed_sse_events ext rc (bs, ?ss)"
  obtain err1 st1 where scan: "?scan = Some (err1, st1)"
    using run False bc by (auto simp: stream_chunk_def consume_def Let_def bind_eq_Some_conv)
  have plain: "st1 = (bs, ?ss)" if "buffer_json_document rc" using scan that by simp
  moreover have "same_screens (bs, ?ss) st1" if "\<not> buffer_json_document rc"
    using scan that by (intro screen_completed_same) simp
  ultimately have same: "same_screens (bs, ?ss) st1" by (cases "buffer_json_document rc") (auto simp: same_screens_def)
  obtain st2 where st2: "screen_bytes ext chunk d w st1 = Some st2"
      "followed ps (t @ chunk) (snd (decoder_feed [] t) @ d) st2"
      "bs_escape (fst st2) = bs_escape (fst st1)" "only_screens st1 st2"
    using screen_bytes_followed [OF followed_same [OF start same]] by blast
  have "(err, st') = (if err1 = None then (None, st2) else (err1, st1))"
    using run False bc scan st2(1) by (auto simp: stream_chunk_def consume_def Let_def split: option.splits if_splits)
  then show ?thesis
    using at_t False same plain st2 dec
    by (auto simp: stream_at_def same_screens_def only_screens_def split: if_splits)
qed

section \<open>The end of the body\<close>

lemma decoded_eq: "decoded t = snd (decoder_feed [] t) @ fst (decoder_feed [] t)"
  by (simp add: decoded_def decoder_finish_def split: prod.splits)

lemma flush_escape_at:
  assumes at_t: "stream_at rc ps budget t st"
  shows "\<exists>st'. flush_escape ext st = Some st' \<and> followed ps t (decoded t) st' \<and> only_screens st st'"
proof -
  obtain bs ss where st: "st = (bs, ss)" by (cases st)
  have f: "followed ps t (snd (decoder_feed [] t)) st" and tail: "bs_escape bs = fst (decoder_feed [] t)"
    using at_t st by (auto simp: stream_at_def)
  let ?D = "bs_decoded_forbidden bs"
  have ok: "matcher_ok ?D" "mt_patterns ?D = ps" using f st by (auto simp: followed_def)
  obtain hit m where m: "matcher_feed ?D (bs_escape bs) = Some (hit, m)" "matcher_ok m" "mt_patterns m = ps"
      "bs_pending_sensitive bs \<or> (hit \<longleftrightarrow> occurs ps (decoded t)) \<and> (hit \<or> stands m (\<lambda>_. decoded t))"
  proof (cases "bs_pending_sensitive bs")
    case True
    then show thesis using that matcher_feed_total [OF ok(1)] ok(2) by metis
  next
    case False
    then have "stands ?D (\<lambda>_. snd (decoder_feed [] t))" "\<not> occurs (mt_patterns ?D) (snd (decoder_feed [] t))"
      using f st ok(2) by (auto simp: followed_def)
    from matcher_feed_exact [OF ok(1) this, of "bs_escape bs"] show thesis
      using that ok(2) tail by (metis decoded_eq)
  qed
  then show ?thesis
    using f st by (auto simp: flush_escape_def decoder_finish_def followed_def only_screens_def Let_def
        split: if_splits)
qed

lemma mark_document_kept: "kept st (mark_document rc response st)"
  unfolding mark_document_def Let_def
  by (auto intro: kept_marks kept_trans [OF kept_marks(2)])

lemma finish_document_at:
  assumes "followed ps t u st" "finish_document ext rc st = Some (out, err, st')"
  shows "(ss_sensitive (snd st) \<longrightarrow> ss_sensitive (snd st')) \<and> (err \<noteq> None \<longrightarrow> out = [])
    \<and> (err = None \<longrightarrow> concat out = bs_buffer (fst st) \<and> \<not> occurs ps t \<and> \<not> occurs ps u)"
proof (cases "jsonrpc_response ext (bs_buffer (fst st)) (rc_expected_id rc)")
  case (Inl e)
  then show ?thesis using assms(2) by (auto simp: finish_document_def)
next
  case (Inr response)
  let ?st = "mark_document rc response st"
  note marked = mark_document_kept [of st rc response]
  have "followed ps t u ?st" using assms(1) marked followed_same by (auto simp: kept_def)
  then have "\<not> bs_pending_sensitive (fst ?st) \<Longrightarrow> \<not> occurs ps t \<and> \<not> occurs ps u"
    by (auto simp: followed_def)
  then show ?thesis
    using assms(2) Inr marked
    by (auto simp: finish_document_def Let_def bind_eq_Some_conv or_else_def kept_def same_screens_def
        reject_sensitive_body_def mark_sensitive_def split: if_splits prod.splits)
qed

lemma finish_events_at:
  assumes "followed ps t u st" "finish_events ext st = Some (out, err, st')"
  shows "(ss_sensitive (snd st) \<longrightarrow> ss_sensitive (snd st')) \<and> out = []
    \<and> (err = None \<longrightarrow> \<not> occurs ps t \<and> \<not> occurs ps u)"
  using assms
  by (auto simp: finish_events_def bind_eq_Some_conv or_else_def followed_def
      reject_sensitive_body_def mark_sensitive_def split: if_splits prod.splits)

lemma stream_finish_at:
  assumes at_t: "stream_at rc ps budget t st" and run: "stream_finish ext rc st = Some (out, err, st')"
  shows "(ss_sensitive (snd st) \<longrightarrow> ss_sensitive (snd st'))
    \<and> (err = None \<longrightarrow> concat out = (if buffer_json_document rc then t else [])
         \<and> \<not> occurs ps t \<and> \<not> occurs ps (decoded t))
    \<and> (err = None \<and> buffer_json_document rc \<or> out = [])"
proof -
  obtain st1 where st1: "flush_escape ext st = Some st1" "followed ps t (decoded t) st1" "only_screens st st1"
    using flush_escape_at [OF at_t] by blast
  show ?thesis
  proof (cases "buffer_json_document rc")
    case True
    then have "finish_document ext rc st1 = Some (out, err, st')"
      using run st1(1) by (simp add: stream_finish_def)
    from finish_document_at [OF st1(2) this] show ?thesis
      using True at_t st1(3) by (auto simp: only_screens_def stream_at_def)
  next
    case False
    then have "finish_events ext st1 = Some (out, err, st')"
      using run st1(1) by (simp add: stream_finish_def)
    from finish_events_at [OF st1(2) this] show ?thesis
      using False st1(3) by (auto simp: only_screens_def)
  qed
qed

section \<open>The whole body\<close>

text \<open>What a consumer has been given, in terms of the text accepted before: in a buffered response the
  document, otherwise the chunks as they came.\<close>

definition given :: "response_config \<Rightarrow> bytes \<Rightarrow> bytes list \<Rightarrow> bytes" where
  "given rc t out = (if buffer_json_document rc then concat out else t @ concat out)"

lemma stream_at_marked:
  "stream_at rc ps budget t st \<Longrightarrow> \<not> ss_sensitive (snd st)
     \<Longrightarrow> \<not> occurs ps t \<and> \<not> occurs ps (snd (decoder_feed [] t))"
  by (auto simp: stream_at_def followed_def split: if_splits)

lemma occurs_less: "\<not> occurs ps (t @ u) \<Longrightarrow> \<not> occurs ps t"
  using occurs_more by blast

lemma stream_iter_at:
  assumes "stream_at rc ps budget t st" "stream_iter ext rc chunks st = Some (out, err, st')" "[] \<notin> set ps"
  shows "(ss_sensitive (snd st) \<longrightarrow> ss_sensitive (snd st'))
    \<and> (err = None \<longrightarrow> given rc t out = t @ concat chunks \<and> int (length (t @ concat chunks)) \<le> budget
         \<and> \<not> occurs ps (t @ concat chunks) \<and> \<not> occurs ps (decoded (t @ concat chunks)))
    \<and> (err \<noteq> None \<and> buffer_json_document rc \<longrightarrow> out = [])
    \<and> (\<not> ss_sensitive (snd st') \<longrightarrow> \<not> occurs ps (given rc t out)
         \<and> \<not> occurs ps (snd (decoder_feed [] (given rc t out))))
    \<and> prefix (given rc t out) (t @ concat chunks) \<and> int (length (given rc t out)) \<le> budget"
  using assms
proof (induction chunks arbitrary: t st out)
  case Nil
  then have fin: "stream_finish ext rc st = Some (out, err, st')" by simp
  have empty: "\<not> occurs ps []" using Nil.prems(3) by (auto simp: occurs_def)
  have budget: "int (length t) \<le> budget" using Nil.prems(1) by (simp add: stream_at_def)
  note facts = stream_finish_at [OF Nil.prems(1) fin]
  have "given rc t out = t \<or> given rc t out = []" "err = None \<longrightarrow> given rc t out = t"
    using facts by (auto simp: given_def simp del: concat_eq_Nil_conv)
  moreover have "0 \<le> budget" using budget by linarith
  ultimately show ?case
    using facts stream_at_marked [OF Nil.prems(1)] empty budget by fastforce
next
  case (Cons chunk chunks)
  obtain err1 st1 where one: "stream_chunk ext rc chunk st = Some (err1, st1)"
    using Cons.prems(2) by (auto simp: bind_eq_Some_conv)
  note step = stream_chunk_at [OF Cons.prems(1) one]
  show ?case
  proof (cases err1)
    case None
    then obtain out1 where rest: "stream_iter ext rc chunks st1 = Some (out1, err, st')"
        "out = (if buffer_json_document rc then out1 else chunk # out1)"
      using Cons.prems(2) one by (auto simp: bind_eq_Some_conv)
    have "given rc t out = given rc (t @ chunk) out1" using rest(2) by (simp add: given_def)
    then show ?thesis
      using Cons.IH [OF _ rest(1) Cons.prems(3), of "t @ chunk"] step None rest(2) by auto
  next
    case (Some e)
    then have fin: "out = []" "err = Some e" "st' = st1" using Cons.prems(2) one by auto
    have empty: "\<not> occurs ps []" using Cons.prems(3) by (auto simp: occurs_def)
    have "int (length t) \<le> budget" using Cons.prems(1) by (simp add: stream_at_def)
    then show ?thesis
      using fin step stream_at_marked [OF Cons.prems(1)] empty by (auto simp: given_def)
  qed
qed

lemma new_stream_at:
  assumes "new_stream forbidden = Some bs" "0 \<le> ss_remaining ss"
  shows "stream_at rc (filter (\<lambda>p. p \<noteq> []) forbidden) (ss_remaining ss) [] (bs, ss)"
proof -
  obtain m where m: "new_matcher forbidden = Some m" "matcher_ok m"
      "mt_patterns m = filter (\<lambda>p. p \<noteq> []) forbidden" "stands m (\<lambda>_. [])"
    using new_matcher_ok by blast
  then show ?thesis
    using assms by (auto simp: new_stream_def stream_at_def followed_def occurs_def)
qed

end
