(* ===== verification/Upstream_Theorems.thy ===== *)
theory Upstream_Theorems
  imports Upstream_Props
begin

text \<open>
  The properties of the screened response body, with a concrete environment on which they are
  evaluated.
\<close>

section \<open>Returning\<close>

lemma screen_event_returns:
  assumes "decoder_consumes ext"
  shows "\<exists>r. screen_event ext rc event st = Some r"
  using contains_sensitive_sse_event_returns [OF assms, of event]
  by (auto simp: screen_event_alt or_else_def simp del: split_paired_Ex split: sum.splits)

lemma screen_loop_returns:
  assumes "decoder_consumes ext"
  shows "\<exists>r. screen_loop ext rc consumed pos buf st = Some r"
proof (induction "length buf - pos" arbitrary: consumed pos st rule: less_induct)
  case less
  show ?case
  proof (cases "boundary_search buf pos")
    case None
    then show ?thesis by (simp add: screen_loop_unfold)
  next
    case (Some m)
    then obtain s e where m: "boundary_search buf pos = Some (s, e)" by (cases m) simp
    obtain err st1 where one: "screen_event ext rc (drop consumed (take s buf)) (scanned_to e st) = Some (err, st1)"
      using screen_event_returns [OF assms] by (metis surj_pair)
    have "length buf - e < length buf - pos" using boundary_search_Some [OF m] by linarith
    from less.hyps [OF this, of e st1] show ?thesis
      using m one by (cases err) (auto simp: screen_loop_unfold [of ext rc consumed])
  qed
qed

lemma screen_completed_returns:
  "decoder_consumes ext \<Longrightarrow> \<exists>r. screen_completed_sse_events ext rc st = Some r"
  using screen_loop_returns [of ext rc 0 "bs_scan_from (fst st)" "bs_buffer (fst st)" st]
  by (auto simp: screen_completed_sse_events_def Let_def split: option.splits)

lemma stream_chunk_returns:
  assumes ext: "decoder_consumes ext" and at_t: "stream_at rc ps budget t st"
  shows "\<exists>r. stream_chunk ext rc chunk st = Some r"
proof -
  let ?ss = "(snd st)\<lparr>ss_remaining := ss_remaining (snd st) - int (length chunk)\<rparr>"
  obtain bs d w where bc: "buffer_chunk chunk (fst st) = (bs, d, w)" by (cases "buffer_chunk chunk (fst st)")
  have start: "followed ps t (snd (decoder_feed [] t)) (bs, ?ss)"
    using at_t bc by (auto simp: stream_at_def followed_def buffer_chunk_eq)
  have screens: "\<exists>r. screen_bytes ext chunk d w st1 = Some r" if "same_screens (bs, ?ss) st1" for st1
    using screen_bytes_followed [OF followed_same [OF start that]] by blast
  obtain err st1 where scan: "screen_completed_sse_events ext rc (bs, ?ss) = Some (err, st1)"
    using screen_completed_returns [OF ext] by (metis surj_pair)
  have plain: "same_screens (bs, ?ss) (bs, ?ss)" by (simp add: same_screens_def)
  show ?thesis
    using bc scan screens [OF screen_completed_same [OF scan]] screens [OF plain]
    by (auto simp: stream_chunk_def consume_def Let_def split: option.splits)
qed

lemma stream_finish_returns:
  assumes ext: "decoder_consumes ext" and at_t: "stream_at rc ps budget t st"
  shows "\<exists>r. stream_finish ext rc st = Some r"
proof -
  obtain st1 where "flush_escape ext st = Some st1" using flush_escape_at [OF at_t] by blast
  then show ?thesis
    using contains_sensitive_json_text_returns [OF ext, of "decode_ignore ext (bs_buffer (fst st1))"]
      contains_sensitive_sse_event_returns [OF ext, of "bs_buffer (fst st1)"]
    by (auto simp: stream_finish_def finish_document_def finish_events_def or_else_def Let_def
        contains_sensitive_json_document_def simp del: split_paired_Ex split: sum.splits)
qed

lemma stream_iter_returns:
  assumes ext: "decoder_consumes ext" and at_t: "stream_at rc ps budget t st"
  shows "\<exists>r. stream_iter ext rc chunks st = Some r"
  using at_t
proof (induction chunks arbitrary: t st)
  case Nil
  then show ?case using stream_finish_returns [OF ext] by simp
next
  case (Cons chunk chunks)
  obtain err st1 where one: "stream_chunk ext rc chunk st = Some (err, st1)"
    using stream_chunk_returns [OF ext Cons.prems] by (metis surj_pair)
  show ?case
  proof (cases err)
    case None
    then have "stream_at rc ps budget (t @ chunk) st1" using stream_chunk_at [OF Cons.prems one] by simp
    from Cons.IH [OF this] show ?thesis using one None by auto
  next
    case (Some e)
    then show ?thesis using one by simp
  qed
qed

section \<open>No complete event is left unscreened\<close>

definition no_event :: "bytes \<Rightarrow> bool" where
  "no_event buf \<longleftrightarrow> (\<forall>i. boundary_end buf i = None)"

lemma line_end_append:
  assumes "line_end (old @ chunk) i = Some a" "i + a \<le> length old"
  shows "line_end old i = Some a"
  using assms by (auto simp: line_end_def nth_append split: if_splits)

lemma line_end_le_2: "line_end buf i = Some a \<Longrightarrow> a \<le> 2"
  by (auto simp: line_end_def split: if_splits)

lemma boundary_end_append:
  assumes "boundary_end (old @ chunk) i = Some e" "i + 4 \<le> length old"
  shows "boundary_end old i = Some e"
proof -
  obtain a b where ab: "line_end (old @ chunk) i = Some a" "line_end (old @ chunk) (i + a) = Some b"
      "e = i + a + b"
    using assms(1) by (auto simp: boundary_end_def bind_eq_Some_conv)
  have "a \<le> 2" "b \<le> 2" using line_end_le_2 ab by blast+
  then show ?thesis
    using line_end_append [OF ab(1)] line_end_append [OF ab(2)] ab(3) assms(2) by (simp add: boundary_end_def)
qed

text \<open>A match never ends between a CR and its LF, so that cutting the buffer there hides nothing.\<close>

definition clean_cut :: "bytes \<Rightarrow> nat \<Rightarrow> bool" where
  "clean_cut buf c \<longleftrightarrow> c \<le> length buf \<and> \<not> (0 < c \<and> c < length buf \<and> buf ! (c - 1) = 13 \<and> buf ! c = 10)"

lemma line_end_clean: "line_end buf i = Some a \<Longrightarrow> clean_cut buf (i + a)"
  by (auto simp: line_end_def clean_cut_def split: if_splits)

lemma boundary_end_clean: "boundary_end buf i = Some e \<Longrightarrow> clean_cut buf e"
  by (auto simp: boundary_end_def bind_eq_Some_conv dest: line_end_clean)

lemma line_end_drop:
  assumes "clean_cut buf c"
  shows "line_end (drop c buf) i = line_end buf (c + i)"
proof (cases i)
  case 0
  then show ?thesis using assms by (auto simp: line_end_def clean_cut_def)
next
  case (Suc j)
  then show ?thesis using assms by (auto simp: line_end_def clean_cut_def)
qed

lemma boundary_end_drop:
  "clean_cut buf c \<Longrightarrow> boundary_end (drop c buf) i = map_option (\<lambda>e. e - c) (boundary_end buf (c + i))"
  by (auto simp: boundary_end_def line_end_drop add.assoc split: bind_splits)

lemma boundary_search_None:
  "boundary_search buf pos = None \<longleftrightarrow> (\<forall>i \<ge> pos. boundary_end buf i = None)"
proof -
  have "boundary_end buf i = None" if "length buf \<le> i" for i
    using that boundary_end_bounds [of buf i] by (cases "boundary_end buf i") auto
  then show ?thesis unfolding boundary_search_def first_boundary_None by (auto simp: not_le)
qed

definition scan_ok :: "stream_state \<Rightarrow> bool" where
  "scan_ok st \<longleftrightarrow> no_event (bs_buffer (fst st)) \<and> bs_scan_from (fst st) = length (bs_buffer (fst st)) - 3"

lemma screen_completed_events:
  assumes old: "no_event old" and buf: "bs_buffer (fst st) = old @ chunk"
    and scan: "bs_scan_from (fst st) = length old - 3"
    and run: "screen_completed_sse_events ext rc st = Some (None, st')"
  shows "scan_ok st'"
proof -
  let ?buf = "old @ chunk"
  obtain c st1 where loop: "screen_loop ext rc 0 (length old - 3) ?buf st = Some (c, None, st1)"
      "st' = ((fst st1)\<lparr>bs_buffer := drop c (bs_buffer (fst st1)),
         bs_scan_from := length (drop c (bs_buffer (fst st1))) - 3\<rparr>, snd st1)"
    using run buf scan by (auto simp: screen_completed_sse_events_def bind_eq_Some_conv Let_def
        split: option.splits)
  have same: "bs_buffer (fst st1) = ?buf" using screen_loop_kept [OF loop(1)] buf by (simp add: kept_def)
  let ?P = "\<lambda>c pos st. clean_cut ?buf c \<and> (pos = c \<or> c = 0 \<and> pos = length old - 3)"
  obtain pos where pos: "?P c pos st1" "boundary_search ?buf pos = None"
    using screen_loop_rule [where P = ?P, OF loop(1)]
    by (fastforce simp: clean_cut_def dest: boundary_search_Some boundary_end_clean)
  have "boundary_end ?buf i = None" if "c \<le> i" for i
  proof (cases "pos \<le> i")
    case True
    then show ?thesis using pos(2) by (simp add: boundary_search_None)
  next
    case False
    then have "i + 4 \<le> length old" using pos(1) that by auto
    then show ?thesis
      using old boundary_end_append [of old chunk i] by (cases "boundary_end ?buf i") (auto simp: no_event_def)
  qed
  then have "no_event (drop c ?buf)" using pos(1) by (simp add: no_event_def boundary_end_drop del: drop_append)
  then show ?thesis using loop(2) same by (simp add: scan_ok_def)
qed

text \<open>The stream while its consumer is still reading: the chunks accepted so far.\<close>

primrec stream_feed ::
  "'e screen_externals_scheme \<Rightarrow> response_config \<Rightarrow> bytes list \<Rightarrow> stream_state \<Rightarrow> stream_result option" where
  "stream_feed ext rc [] st = Some (None, st)"
| "stream_feed ext rc (chunk # chunks) st =
     Option.bind (stream_chunk ext rc chunk st) (\<lambda>(err, st').
       (case err of Some _ \<Rightarrow> Some (err, st') | None \<Rightarrow> stream_feed ext rc chunks st'))"

lemma stream_chunk_events:
  assumes st: "scan_ok st" and rc: "\<not> buffer_json_document rc" and at_t: "stream_at rc ps budget t st"
    and run: "stream_chunk ext rc chunk st = Some (None, st')"
  shows "scan_ok st'"
proof -
  let ?ss = "(snd st)\<lparr>ss_remaining := ss_remaining (snd st) - int (length chunk)\<rparr>"
  obtain bs d w where bc: "buffer_chunk chunk (fst st) = (bs, d, w)" by (cases "buffer_chunk chunk (fst st)")
  have buf: "bs_buffer bs = bs_buffer (fst st) @ chunk" "bs_scan_from bs = bs_scan_from (fst st)"
    using bc by (auto simp: buffer_chunk_eq)
  have start: "followed ps t (snd (decoder_feed [] t)) (bs, ?ss)"
    using at_t bc by (auto simp: stream_at_def followed_def buffer_chunk_eq)
  obtain st1 where scan: "screen_completed_sse_events ext rc (bs, ?ss) = Some (None, st1)"
      "screen_bytes ext chunk d w st1 = Some st'"
    using run rc bc
    by (auto simp: stream_chunk_def consume_def Let_def bind_eq_Some_conv split: option.splits if_splits)
  have "scan_ok st1"
    using st buf by (intro screen_completed_events [OF _ _ _ scan(1)]) (auto simp: scan_ok_def)
  moreover have "only_screens st1 st'"
    using screen_bytes_followed [OF followed_same [OF start screen_completed_same [OF scan(1)]],
        of ext chunk d w] scan(2) by auto
  ultimately show ?thesis by (simp add: scan_ok_def only_screens_def)
qed

lemma stream_feed_events:
  assumes "scan_ok st" "\<not> buffer_json_document rc" "stream_at rc ps budget t st"
    "stream_feed ext rc chunks st = Some (None, st')"
  shows "scan_ok st'"
  using assms
proof (induction chunks arbitrary: t st)
  case (Cons chunk chunks)
  then obtain st1 where one: "stream_chunk ext rc chunk st = Some (None, st1)"
      "stream_feed ext rc chunks st1 = Some (None, st')"
    by (auto simp: bind_eq_Some_conv split: option.splits)
  show ?case
    using Cons.IH [OF stream_chunk_events [OF Cons.prems(1-3) one(1)] Cons.prems(2) _ one(2)]
      stream_chunk_at [OF Cons.prems(3) one(1)] by blast
qed simp

section \<open>A concrete environment\<close>

text \<open>A decoder of the two empty containers and of nothing else; the only obvious secret is the text
  \<open>KEY\<close>. The forbidden value is \<open>A"\<close>.\<close>

definition demo_raw_decode :: "ustr \<Rightarrow> nat \<Rightarrow> raw_result" where
  "demo_raw_decode v i =
     (if take 2 (drop i v) = [123, 125] then Decoded (JDict []) (i + 2)
      else if take 2 (drop i v) = [91, 93] then Decoded (JList []) (i + 2) else Malformed i)"

definition demo_screens :: screen_externals where
  "demo_screens = \<lparr>urlsplit = (\<lambda>_. None), str_lower = id, ip_address = (\<lambda>_. None), idna_encode = Some,
     inet_aton = (\<lambda>_. False), unquote_strict = Some, contains_obvious_secret = (\<lambda>t. t = [75, 69, 89]),
     contains_sensitive_hostname = (\<lambda>_. False), contains_sensitive_url_path = (\<lambda>_. False),
     contains_sensitive_schema = (\<lambda>_. False), meta_float_repr = (\<lambda>_. []),
     contains_sensitive_url = (\<lambda>_. False), contains_sensitive_json = (\<lambda>_. False), decode_strict = Some,
     decode_ignore = id, encode_utf8 = id, loads_unique = (\<lambda>_. BadJson), raw_decode = demo_raw_decode,
     loads_bytes = (\<lambda>_. BadJson), loads_text = (\<lambda>_. None), member_name_matches = (\<lambda>_. []),
     int_text = (\<lambda>_. None)\<rparr>"

definition demo_document :: response_config where
  "demo_document = \<lparr>rc_expected_id = JNull, rc_event_stream = False, rc_status_code = 200, rc_tool_call = False\<rparr>"

definition demo_events :: response_config where
  "demo_events = \<lparr>rc_expected_id = JInt 1, rc_event_stream = True, rc_status_code = 200, rc_tool_call = True\<rparr>"

definition demo_session :: session where
  "demo_session = \<lparr>ss_remaining = 100, ss_sensitive = False, ss_completed = False, ss_failed = False\<rparr>"

lemma demo_decoder_consumes: "decoder_consumes demo_screens"
proof -
  have "i + 2 \<le> length v" if "take 2 (drop i v) = [a, b]" for i and v :: ustr and a b
    using arg_cong [OF that, of length] by simp
  then show ?thesis
    by (auto simp: decoder_consumes_def demo_screens_def demo_raw_decode_def split: if_splits)
qed

declare fall_back.simps [code] json_scan.simps [code]

lemma demo_clean:
  "map_option (\<lambda>bs. map_option (map_prod id fst)
     (stream_iter demo_screens demo_document [[91], [93]] (bs, demo_session)))
     (new_stream [[65, 34]]) = Some (Some ([[91, 93]], None))"
  by code_simp

lemma demo_leak:
  "map_option (\<lambda>bs. map_option (\<lambda>(out, err, st). (out, err, ss_sensitive (snd st)))
     (stream_iter demo_screens demo_events [[65, 92], [34], [10, 10]] (bs, demo_session)))
     (new_stream [[65, 34]]) = Some (Some ([[65, 92], [34]], Some PolicyRejected, True))"
  by code_simp

section \<open>Properties\<close>

text \<open>C4. A response body never passes a forbidden value. If the iteration ends normally, the consumer
  was given exactly the bytes received, they fit the budget, and no forbidden value occurs in them,
  neither literally nor once JSON escapes are decoded. However it ends, what was given is a prefix of
  what was received and within the budget, a rejected document was not given at all, and if a
  forbidden value occurs in what was given, literally or decoded, the session is marked sensitive.\<close>

theorem forbidden_value_never_passes:
  assumes new: "new_stream forbidden = Some bs" and budget: "0 \<le> ss_remaining ss"
    and run: "stream_iter ext rc chunks (bs, ss) = Some (out, err, bs', ss')"
  shows "(err = None \<longrightarrow> concat out = concat chunks
        \<and> (\<forall>v \<in> set forbidden. v \<noteq> [] \<longrightarrow> \<not> sublist v (concat chunks) \<and> \<not> sublist v (decoder_feeds [] chunks)))
    \<and> prefix (concat out) (concat chunks) \<and> int (length (concat out)) \<le> ss_remaining ss
    \<and> (err \<noteq> None \<and> buffer_json_document rc \<longrightarrow> out = [])
    \<and> (\<forall>v \<in> set forbidden. v \<noteq> []
         \<and> (sublist v (concat out) \<or> sublist v (snd (decoder_feed [] (concat out)))) \<longrightarrow> ss_sensitive ss')"
proof -
  have g: "given rc [] out = concat out" by (simp add: given_def)
  have feeds: "decoder_feeds [] chunks = decoded (concat chunks)"
    by (simp add: decoder_feeds_concat decoded_def)
  note facts = stream_iter_at [OF new_stream_at [OF new budget, of rc] run, simplified g, simplified]
  show ?thesis using facts feeds by (auto simp: occurs_kept)
qed

theorem forbidden_value_never_passes_witness:
  "\<exists>bs bs' ss'. new_stream [[65, 34]] = Some bs
     \<and> stream_iter demo_screens demo_events [[65, 92], [34], [10, 10]] (bs, demo_session)
         = Some ([[65, 92], [34]], Some PolicyRejected, bs', ss') \<and> ss_sensitive ss'"
proof -
  obtain bs bs' ss' where run: "new_stream [[65, 34]] = Some bs"
      "stream_iter demo_screens demo_events [[65, 92], [34], [10, 10]] (bs, demo_session)
         = Some ([[65, 92], [34]], Some PolicyRejected, bs', ss')"
    using demo_leak by auto
  have "sublist [65, 34 :: nat] ([] @ [65, 34] @ [])" by (rule sublist_appendI)
  then have "sublist [65, 34] (snd (decoder_feed [] (concat [[65, 92], [34]])))"
    by (simp add: decode_byte_def short_escape_def)
  moreover have "0 \<le> ss_remaining demo_session" by (simp add: demo_session_def)
  ultimately have "ss_sensitive ss'"
    using forbidden_value_never_passes [OF run(1) _ run(2)] by auto
  then show ?thesis using run by blast
qed

text \<open>C33. Screening a response always returns: whatever the chunks and however malformed their JSON, if
  the JSON decoder consumes what it decodes, the iteration ends, normally or with an error.\<close>

theorem screening_returns:
  assumes "decoder_consumes ext" "0 \<le> ss_remaining ss"
  shows "\<exists>bs r. new_stream forbidden = Some bs \<and> stream_iter ext rc chunks (bs, ss) = Some r"
proof -
  obtain bs where bs: "new_stream forbidden = Some bs"
    using new_matcher_ok [of forbidden] by (auto simp: new_stream_def)
  then show ?thesis using stream_iter_returns [OF assms(1) new_stream_at [OF bs assms(2)]] by blast
qed

theorem screening_returns_witness:
  "\<exists>bs r. new_stream [[75]] = Some bs \<and> stream_iter demo_screens demo_document [[123], [91, 93]] (bs, demo_session) = Some r"
  by (rule screening_returns [OF demo_decoder_consumes]) (simp add: demo_session_def)


lemma demo_feed:
  "map_option (\<lambda>bs. map_option (\<lambda>(err, st). (err, bs_buffer (fst st)))
     (stream_feed demo_screens demo_events [[97, 13], [10, 13], [10, 98, 10]] (bs, demo_session)))
     (new_stream [[75]]) = Some (Some (None, [10, 98, 10]))"
  by code_simp


end
