(* ===== verification/Upstream_Transport.thy ===== *)
theory Upstream_Transport
  imports Upstream_Theorems
begin

text \<open>
  The transport below an MCP client session (\<^verbatim>\<open>mcp_adapter/policy.py\<close>): \<open>PinnedNetworkBackend\<close>, which
  dials only the addresses the endpoint policy approved, and \<open>LimitedTransport\<close>, which screens the
  headers and the status of a response before its body. The network and the hook that runs before a
  request are arguments.
\<close>

section \<open>Pinned connections\<close>

datatype 'c dial_result = Connected 'c | ConnectFailed | OtherFailure
datatype dial_error = TargetChanged | LastConnectError | OtherDialError | NoAddress

text \<open>The addresses are tried in order; a connect error or connect timeout goes on to the next one,
  any other error ends the loop. The first component lists the addresses dialled.\<close>

fun try_addresses :: "(ustr \<Rightarrow> 'c dial_result) \<Rightarrow> bool \<Rightarrow> ustr list \<Rightarrow> ustr list \<times> (dial_error + 'c)" where
  "try_addresses inner failed [] = ([], Inl (if failed then LastConnectError else NoAddress))"
| "try_addresses inner failed (address # rest) =
     (case inner address of
        Connected c \<Rightarrow> ([address], Inr c)
      | ConnectFailed \<Rightarrow> map_prod ((#) address) id (try_addresses inner True rest)
      | OtherFailure \<Rightarrow> ([address], Inl OtherDialError))"

definition connect_tcp ::
  "(ustr \<Rightarrow> ustr) \<Rightarrow> EndpointResolution \<Rightarrow> (ustr \<Rightarrow> 'c dial_result) \<Rightarrow> ustr \<Rightarrow> nat
     \<Rightarrow> ustr list \<times> (dial_error + 'c)" where
  "connect_tcp lower resolution inner host port =
     (if removesuffix (lower host) [46] \<noteq> er_host resolution \<or> port \<noteq> er_port resolution
      then ([], Inl TargetChanged)
      else try_addresses inner False (er_addresses resolution))"

lemma try_addresses_dialled: "set (fst (try_addresses inner failed as)) \<subseteq> set as"
  by (induction inner failed "as" rule: try_addresses.induct) (auto split: dial_result.splits)

section \<open>Transport limits\<close>

record TransportLimits =
  tl_response_bytes :: int
  tl_connect_seconds :: pyfloat
  tl_read_seconds :: pyfloat
  tl_total_seconds :: pyfloat

text \<open>\<open>__post_init__\<close>: a value that is not finite is refused whatever the minimum is, so that the minimum
  only matters for finite values.\<close>

definition positive_seconds :: "pyfloat \<Rightarrow> bool" where
  "positive_seconds v = (case v of Fin q \<Rightarrow> 0 < q | _ \<Rightarrow> False)"

definition transport_limits :: "int \<Rightarrow> pyfloat \<Rightarrow> pyfloat \<Rightarrow> pyfloat \<Rightarrow> svc_error + TransportLimits" where
  "transport_limits response_bytes connect_seconds read_seconds total_seconds =
     (if response_bytes < 1
         \<or> \<not> list_all positive_seconds [connect_seconds, read_seconds, total_seconds]
      then Inl ValueError
      else Inr \<lparr>tl_response_bytes = response_bytes, tl_connect_seconds = connect_seconds,
                tl_read_seconds = read_seconds, tl_total_seconds = total_seconds\<rparr>)"

section \<open>Requests and responses\<close>

text \<open>\<open>_request_envelope\<close>: \<open>None\<close> is a request whose content was not read. The identifier of a request
  without one is \<open>None\<close> in Python, the decoded \<open>null\<close> here.\<close>

definition request_envelope ::
  "'e screen_externals_scheme \<Rightarrow> bytes option \<Rightarrow> upstream_error + ustr option \<times> json" where
  "request_envelope ext content =
     (case content of
        None \<Rightarrow> Inr (None, JNull)
      | Some body \<Rightarrow>
          (case loads_bytes ext body of
             Loaded (JDict ms) \<Rightarrow>
               Inr (case json_member ''method'' ms of Some (JStr m) \<Rightarrow> Some m | _ \<Rightarrow> None,
                    case json_member ''id'' ms of Some i \<Rightarrow> i | None \<Rightarrow> JNull)
           | Loaded _ \<Rightarrow> Inr (None, JNull)
           | TooDeep \<Rightarrow> Inl RecursionError
           | _ \<Rightarrow> Inr (None, JNull)))"

text \<open>What the transport reads of an \<open>httpx.Response\<close>; the three looked-up headers are given beside the
  list of all of them.\<close>

record upstream_response =
  ur_status_code :: nat
  ur_headers :: "(ustr \<times> ustr) list"
  ur_content_encoding :: "ustr option"
  ur_content_length :: "ustr option"
  ur_content_type :: "ustr option"
  ur_reason_phrase :: ustr
  ur_chunks :: "bytes list"

definition forbidden_in :: "ustr list \<Rightarrow> ustr \<Rightarrow> bool" where
  "forbidden_in forbidden text \<longleftrightarrow> list_ex (\<lambda>v. sublist v text) forbidden"

text \<open>The screen of a header name or value after the forbidden values.\<close>

fun header_sensitive :: "'e screen_externals_scheme \<Rightarrow> ustr \<times> ustr \<Rightarrow> bool option" where
  "header_sensitive ext (name, value) =
     or_else (Some (contains_obvious_secret ext name \<or> contains_obvious_secret ext value
                    \<or> contains_sensitive_url ext name \<or> contains_sensitive_url ext value))
       (or_else (contains_sensitive_json_text ext name) (contains_sensitive_json_text ext value))"

definition headers_sensitive ::
  "'e screen_externals_scheme \<Rightarrow> ustr list \<Rightarrow> (ustr \<times> ustr) list \<Rightarrow> bool option" where
  "headers_sensitive ext forbidden headers =
     or_else (Some (list_ex (\<lambda>(name, value). forbidden_in forbidden name \<or> forbidden_in forbidden value) headers))
       (any_of (header_sensitive ext) headers)"

definition reason_sensitive :: "'e screen_externals_scheme \<Rightarrow> ustr list \<Rightarrow> ustr \<Rightarrow> bool option" where
  "reason_sensitive ext forbidden reason =
     or_else (Some (contains_obvious_secret ext reason \<or> forbidden_in forbidden reason))
       (contains_sensitive_json_text ext reason)"

definition event_stream_type :: "'e screen_externals_scheme \<Rightarrow> ustr option \<Rightarrow> bool" where
  "event_stream_type ext content_type \<longleftrightarrow>
     str_lower ext (ustr_strip (takeWhile (\<lambda>c. c \<noteq> 59) (case content_type of None \<Rightarrow> [] | Some t \<Rightarrow> t)))
       = ustr_of ''text/event-stream''"

definition declared_length_error ::
  "'e screen_externals_scheme \<Rightarrow> ustr option \<Rightarrow> int \<Rightarrow> upstream_error option" where
  "declared_length_error ext declared remaining =
     (case declared of
        None \<Rightarrow> None
      | Some text \<Rightarrow>
          (case int_text ext text of
             None \<Rightarrow> Some PolicyRejected
           | Some n \<Rightarrow> if n < 0 \<or> n > remaining then Some ResponseLimitExceeded else None))"

text \<open>What the caller gets: a body already read and screened, or a stream to iterate.\<close>

datatype screened_response = Read "bytes list" | Streaming response_config byte_stream

definition tool_call_rejected :: "bool \<Rightarrow> upstream_response \<Rightarrow> session \<Rightarrow> session" where
  "tool_call_rejected is_tool_call response ss =
     (if is_tool_call \<and> 400 \<le> ur_status_code response \<and> ur_status_code response < 500
      then ss\<lparr>ss_completed := True, ss_failed := True\<rparr> else ss)"

text \<open>The body of a response that is not an event stream is read at once. When that raises, the
  response is closed, and closing may raise itself.\<close>

definition read_body ::
  "'e screen_externals_scheme \<Rightarrow> response_config \<Rightarrow> byte_stream \<Rightarrow> bytes list \<Rightarrow> session
     \<Rightarrow> ((upstream_error + screened_response) \<times> session) option" where
  "read_body ext rc bs chunks ss =
     Option.bind (stream_iter ext rc chunks (bs, ss)) (\<lambda>(out, err, st).
       (case err of
          None \<Rightarrow> Some (Inr (Read out), snd st)
        | Some e \<Rightarrow> map_option (\<lambda>(e', st'). (Inl (case e' of None \<Rightarrow> e | Some c \<Rightarrow> c), snd st'))
                      (stream_close ext rc st)))"

definition screen_response ::
  "'e screen_externals_scheme \<Rightarrow> ustr list \<Rightarrow> bool \<Rightarrow> json \<Rightarrow> upstream_response \<Rightarrow> session
     \<Rightarrow> ((upstream_error + screened_response) \<times> session) option" where
  "screen_response ext forbidden is_tool_call request_id response ss =
     (let ss1 = tool_call_rejected is_tool_call response ss
      in if (case ur_content_encoding response of None \<Rightarrow> False
             | Some t \<Rightarrow> str_lower ext t \<noteq> ustr_of ''identity'')
         then Some (Inl ResponseLimitExceeded, ss1)
         else
           Option.bind (headers_sensitive ext forbidden (ur_headers response)) (\<lambda>in_headers.
             if in_headers then Some (Inl PolicyRejected, ss1\<lparr>ss_sensitive := True\<rparr>)
             else
               Option.bind (reason_sensitive ext forbidden (ur_reason_phrase response)) (\<lambda>in_reason.
                 if in_reason then Some (Inl PolicyRejected, ss1\<lparr>ss_sensitive := True\<rparr>)
                 else
                   (case declared_length_error ext (ur_content_length response) (ss_remaining ss1) of
                      Some e \<Rightarrow> Some (Inl e, ss1)
                    | None \<Rightarrow>
                        Option.bind (new_stream (map (encode_utf8 ext) forbidden)) (\<lambda>bs.
                          (let rc = \<lparr>rc_expected_id = request_id,
                                     rc_event_stream = event_stream_type ext (ur_content_type response),
                                     rc_status_code = ur_status_code response, rc_tool_call = is_tool_call\<rparr>
                           in if buffer_json_document rc then read_body ext rc bs (ur_chunks response) ss1
                              else Some (Inr (Streaming rc bs), ss1)))))))"

text \<open>\<open>handle_async_request\<close>: the hook may raise before anything is sent, and the inner transport may
  raise; \<open>Inl (Inl x)\<close> is the exception \<open>x\<close> of one of them.\<close>

definition handle_async_request ::
  "'e screen_externals_scheme \<Rightarrow> ustr list \<Rightarrow> 'x option \<Rightarrow> bytes option \<Rightarrow> 'x + upstream_response \<Rightarrow> session
     \<Rightarrow> ((('x + upstream_error) + screened_response) \<times> session) option" where
  "handle_async_request ext forbidden before content network ss =
     (case before of
        Some x \<Rightarrow> Some (Inl (Inl x), ss)
      | None \<Rightarrow>
          (case request_envelope ext content of
             Inl e \<Rightarrow> Some (Inl (Inr e), ss)
           | Inr (mth, request_id) \<Rightarrow>
               (case network of
                  Inl x \<Rightarrow> Some (Inl (Inl x), ss)
                | Inr response \<Rightarrow>
                    map_option (map_prod (map_sum Inr id) id)
                      (screen_response ext forbidden (mth = Some (ustr_of ''tools/call'')) request_id
                         response ss))))"

section \<open>Approved addresses\<close>

definition address_approved :: "url_externals \<Rightarrow> ustr \<Rightarrow> bool \<Rightarrow> ustr \<Rightarrow> bool" where
  "address_approved ext environment allow_loopback_http address \<longleftrightarrow>
     (case ip_address ext address of
        None \<Rightarrow> False
      | Some a \<Rightarrow> \<not> forbidden_address a
          \<or> (ip_is_loopback a \<and> local_or_test environment \<and> allow_loopback_http))"

lemma all_some_set: "all_some xs = Some ys \<Longrightarrow> set xs = Some ` set ys"
  by (induction xs arbitrary: ys) (auto split: option.splits)

lemma policy_validate_approved:
  assumes "policy_validate ext environment allow resolver endpoint = Inr resolution"
  shows "er_addresses resolution \<noteq> [] \<and> er_port resolution \<noteq> 0
    \<and> (\<forall>a \<in> set (er_addresses resolution). address_approved ext environment allow a)"
proof -
  obtain addresses ips where r: "all_some (map (ip_address ext) addresses) = Some ips"
      "addresses \<noteq> []" "er_addresses resolution = sort addresses" "er_port resolution \<noteq> 0"
      "list_all ip_is_loopback ips \<and> local_or_test environment \<and> allow \<or> \<not> list_ex forbidden_address ips"
    using assms
    by (fastforce simp: policy_validate_def Let_def split: option.splits if_splits)
  have "ip_address ext ` set addresses = Some ` set ips" using all_some_set [OF r(1)] by simp
  then have "\<exists>ip \<in> set ips. ip_address ext a = Some ip" if "a \<in> set addresses" for a using that by blast
  then have "address_approved ext environment allow a" if "a \<in> set addresses" for a
    using r(5) that by (fastforce simp: address_approved_def list_all_iff list_ex_iff)
  moreover have "er_addresses resolution \<noteq> []" using r(2,3) by (metis set_empty set_sort)
  ultimately show ?thesis using r(3,4) by simp
qed

lemma try_addresses_Inr:
  "snd (try_addresses inner failed as) = Inr c \<Longrightarrow> \<exists>a \<in> set (fst (try_addresses inner failed as)). inner a = Connected c"
  by (induction inner failed "as" rule: try_addresses.induct) (auto split: dial_result.splits)

text \<open>C23. A session only ever dials approved addresses: every address the pinned backend dials for an
  endpoint that passed the policy is a public one (global, and none of multicast, loopback,
  link-local, private, reserved or unspecified), or a loopback address in a local or test environment
  that allows loopback HTTP. Nothing is dialled for another host or port than the one validated, and
  a connection that is returned was made to an address dialled here.\<close>

theorem only_approved_addresses_dialled:
  assumes "policy_validate ext environment allow resolver endpoint = Inr resolution"
    and "connect_tcp lower resolution inner host port = (dialled, result)"
  shows "(\<forall>a \<in> set dialled. address_approved ext environment allow a)
    \<and> (dialled \<noteq> [] \<longrightarrow> removesuffix (lower host) [46] = er_host resolution \<and> port = er_port resolution)
    \<and> (\<forall>c. result = Inr c \<longrightarrow> (\<exists>a \<in> set dialled. inner a = Connected c))"
proof -
  note pol = policy_validate_approved [OF assms(1)]
  have eq: "dialled = fst (connect_tcp lower resolution inner host port)"
    "result = snd (connect_tcp lower resolution inner host port)" using assms(2) by simp_all
  have "set dialled \<subseteq> set (er_addresses resolution)"
    using eq try_addresses_dialled [of inner False "er_addresses resolution"] by (simp add: connect_tcp_def)
  moreover have "\<exists>a \<in> set dialled. inner a = Connected c" if "result = Inr c" for c
    using eq that try_addresses_Inr [of inner False "er_addresses resolution" c]
    by (auto simp: connect_tcp_def split: if_splits)
  moreover have "removesuffix (lower host) [46] = er_host resolution \<and> port = er_port resolution"
    if "dialled \<noteq> []"
    using eq that by (auto simp: connect_tcp_def split: if_splits)
  ultimately show ?thesis using pol by auto
qed

definition demo_public_ip :: ip where
  "demo_public_ip = \<lparr>ip_compressed = [57], ip_is_global = True, ip_is_multicast = False, ip_is_loopback = False,
     ip_is_link_local = False, ip_is_private = False, ip_is_reserved = False, ip_is_unspecified = False\<rparr>"

definition demo_urls :: url_externals where
  "demo_urls = \<lparr>urlsplit = (\<lambda>_. Some \<lparr>url_scheme = ustr_of ''https'', url_hostname = Some [97], url_port = None,
       url_username = None, url_password = None, url_path = [], url_query = [], url_fragment = []\<rparr>),
     str_lower = id, ip_address = (\<lambda>s. if s = [57] \<or> s = [56] then Some demo_public_ip else None),
     idna_encode = Some, inet_aton = (\<lambda>_. False), unquote_strict = Some,
     contains_obvious_secret = (\<lambda>_. False), contains_sensitive_hostname = (\<lambda>_. False),
     contains_sensitive_url_path = (\<lambda>_. False)\<rparr>"

definition demo_resolution :: EndpointResolution where
  "demo_resolution = \<lparr>er_host = [97], er_port = 443, er_addresses = [[56], [57]]\<rparr>"

lemma demo_policy:
  "policy_validate demo_urls (ustr_of ''production'') False (\<lambda>_ _. Some [[57], [56]]) [97] = Inr demo_resolution"
  by code_simp

lemma demo_dial:
  "connect_tcp id demo_resolution (\<lambda>a. if a = [56] then ConnectFailed else Connected a) [97, 46] 443
     = ([[56], [57]], Inr [57])"
  by code_simp

theorem only_approved_addresses_dialled_witness:
  "address_approved demo_urls (ustr_of ''production'') False [56] \<and> address_approved demo_urls (ustr_of ''production'') False [57]"
  using only_approved_addresses_dialled [OF demo_policy demo_dial] by simp

section \<open>The byte budget of a session\<close>

text \<open>The flag that a sensitive response was seen is never taken back, and screening a response never
  raises the budget.\<close>

lemma read_body_session:
  assumes "new_stream forbidden = Some bs" "0 \<le> ss_remaining ss"
    and "read_body ext rc bs chunks ss = Some (r, ss')" and rc: "buffer_json_document rc"
  shows "(ss_sensitive ss \<longrightarrow> ss_sensitive ss')
    \<and> (\<forall>out. r = Inr (Read out) \<longrightarrow> concat out = concat chunks \<and> \<not> occurs (filter (\<lambda>p. p \<noteq> []) forbidden) (concat out)
        \<and> \<not> occurs (filter (\<lambda>p. p \<noteq> []) forbidden) (decoded (concat out)))"
proof -
  obtain out err st where it: "stream_iter ext rc chunks (bs, ss) = Some (out, err, st)"
      "(case err of None \<Rightarrow> Some (Inr (Read out), snd st)
        | Some e \<Rightarrow> map_option (\<lambda>(e', st'). (Inl (case e' of None \<Rightarrow> e | Some c \<Rightarrow> c), snd st'))
                      (stream_close ext rc st)) = Some (r, ss')"
    using assms(3) by (auto simp: read_body_def bind_eq_Some_conv)
  note facts = stream_iter_at [OF new_stream_at [OF assms(1,2)] it(1)]
  have close: "ss_sensitive (snd st) \<longrightarrow> ss_sensitive (snd st')"
    if "stream_close ext rc st = Some (e', st')" for e' st'
    using that by (auto simp: stream_close_def bind_eq_Some_conv reject_sensitive_body_def mark_sensitive_def
        split: if_splits prod.splits)
  show ?thesis
  proof (cases err)
    case None
    then show ?thesis using facts it(2) rc by (auto simp: given_def)
  next
    case (Some e)
    then show ?thesis using facts it(2) close by auto
  qed
qed

lemma screen_response_Read:
  assumes "screen_response ext forbidden is_tool request_id response ss = Some (Inr (Read out), ss')"
  obtains rc bs where "headers_sensitive ext forbidden (ur_headers response) = Some False"
    "reason_sensitive ext forbidden (ur_reason_phrase response) = Some False"
    "new_stream (map (encode_utf8 ext) forbidden) = Some bs" "buffer_json_document rc"
    "read_body ext rc bs (ur_chunks response) (tool_call_rejected is_tool response ss) = Some (Inr (Read out), ss')"
  using assms
  by (auto simp: screen_response_def Let_def bind_eq_Some_conv split: if_splits option.splits)

lemma or_else_False: "or_else a b = Some False \<longleftrightarrow> a = Some False \<and> b = Some False"
  by (auto simp: or_else_def bind_eq_Some_conv split: if_splits)

lemma map_sum_Inr: "map_sum f id x = Inr y \<longleftrightarrow> x = Inr y"
  by (cases x) auto

lemma tool_call_rejected_budget [simp]:
  "ss_remaining (tool_call_rejected t r ss) = ss_remaining ss"
  by (simp add: tool_call_rejected_def)

text \<open>C24. A response that the transport hands over as read is clean: no forbidden value occurs in a
  header name, a header value or the reason phrase, no non-empty encoded forbidden value occurs in the
  body or in the body with its JSON escapes decoded, and the body is exactly what the network sent,
  within the session's byte budget.\<close>

theorem delivered_response_is_clean:
  assumes "handle_async_request ext forbidden before content (Inr response) ss = Some (Inr (Read out), ss')"
    and "0 \<le> ss_remaining ss" and v: "v \<in> set forbidden"
  shows "(\<forall>(name, field) \<in> set (ur_headers response). \<not> sublist v name \<and> \<not> sublist v field)
    \<and> \<not> sublist v (ur_reason_phrase response)
    \<and> (encode_utf8 ext v \<noteq> [] \<longrightarrow> \<not> sublist (encode_utf8 ext v) (concat out)
         \<and> \<not> sublist (encode_utf8 ext v) (decoder_feeds [] out))
    \<and> concat out = concat (ur_chunks response) \<and> int (length (concat out)) \<le> ss_remaining ss"
proof -
  obtain is_tool request_id where
    "screen_response ext forbidden is_tool request_id response ss = Some (Inr (Read out), ss')"
    using assms(1)
    by (auto simp: handle_async_request_def map_sum_Inr split: option.splits sum.splits)
  then obtain rc bs where parts: "headers_sensitive ext forbidden (ur_headers response) = Some False"
      "reason_sensitive ext forbidden (ur_reason_phrase response) = Some False"
      "new_stream (map (encode_utf8 ext) forbidden) = Some bs" "buffer_json_document rc"
      "read_body ext rc bs (ur_chunks response) (tool_call_rejected is_tool response ss) = Some (Inr (Read out), ss')"
    by (rule screen_response_Read)
  have hdr: "\<forall>(name, field) \<in> set (ur_headers response). \<not> sublist v name \<and> \<not> sublist v field"
    using parts(1) v by (auto simp: headers_sensitive_def or_else_False forbidden_in_def list_ex_iff)
  have rsn: "\<not> sublist v (ur_reason_phrase response)"
    using parts(2) v by (auto simp: reason_sensitive_def or_else_False forbidden_in_def list_ex_iff)
  obtain st where it: "stream_iter ext rc (ur_chunks response) (bs, tool_call_rejected is_tool response ss)
      = Some (out, None, st)"
    using parts(5) by (auto simp: read_body_def bind_eq_Some_conv split: option.splits)
  obtain bs' ss'' where st: "st = (bs', ss'')" by (cases st)
  have feeds: "decoder_feeds [] out = decoder_feeds [] (ur_chunks response)"
    if "concat out = concat (ur_chunks response)"
    using that by (simp add: decoder_feeds_concat)
  note clean = stream_iter_at [OF new_stream_at [OF parts(3), of "tool_call_rejected is_tool response ss"] it]
  show ?thesis
    using hdr rsn clean assms(2) parts(4) v
    by (auto simp: given_def occurs_kept decoder_feeds_concat decoded_def)
qed

definition demo_response :: upstream_response where
  "demo_response = \<lparr>ur_status_code = 200, ur_headers = [([110], [118])], ur_content_encoding = None,
     ur_content_length = None, ur_content_type = None, ur_reason_phrase = [79, 75], ur_chunks = [[91], [93]]\<rparr>"

lemma demo_screened:
  "any_of (header_sensitive demo_screens) [([110], [118])] = Some False"
  "forbidden_in [[65, 34]] [110] = False" "forbidden_in [[65, 34]] [118] = False"
  "reason_sensitive demo_screens [[65, 34]] [79, 75] = Some False"
  "event_stream_type demo_screens None = False"
  by code_simp+

lemma demo_handled:
  "\<exists>ss'. handle_async_request demo_screens [[65, 34]] None None (Inr demo_response :: nat + upstream_response)
     demo_session = Some (Inr (Read [[91, 93]]), ss')"
proof -
  obtain bs st where run: "new_stream [[65, 34]] = Some bs"
      "stream_iter demo_screens demo_document [[91], [93]] (bs, demo_session) = Some ([[91, 93]], None, st)"
    using demo_clean by auto
  have hdr: "headers_sensitive demo_screens [[65, 34]] [([110], [118])] = Some False"
    unfolding headers_sensitive_def or_else_False by (simp add: demo_screened(1-3) del: any_of.simps)
  have enc: "map (encode_utf8 demo_screens) [[65, 34]] = [[65, 34]]" by (simp add: demo_screens_def)
  have body: "read_body demo_screens demo_document bs [[91], [93]] demo_session = Some (Inr (Read [[91, 93]]), snd st)"
    unfolding read_body_def run(2) by simp
  have "screen_response demo_screens [[65, 34]] False JNull demo_response demo_session
      = Some (Inr (Read [[91, 93]]), snd st)"
    unfolding screen_response_def tool_call_rejected_def declared_length_error_def
    using hdr enc body run(1) demo_screened(4,5)
    by (simp add: demo_response_def demo_document_def buffer_json_document_def)
  then show ?thesis by (simp add: handle_async_request_def request_envelope_def)
qed

theorem delivered_response_is_clean_witness:
  "\<not> sublist [65, 34] (ur_reason_phrase demo_response) \<and> concat [[91, 93]] = concat (ur_chunks demo_response)"
proof -
  obtain ss' where "handle_async_request demo_screens [[65, 34]] None None
      (Inr demo_response :: nat + upstream_response) demo_session = Some (Inr (Read [[91, 93]]), ss')"
    using demo_handled by blast
  from delivered_response_is_clean [OF this, of "[65, 34]"] show ?thesis by (simp add: demo_session_def)
qed

end
