(* ===== verification/Rate_Limiter.thy ===== *)
theory Rate_Limiter
  imports Exec_Types
begin

text \<open>
  The fixed-window rate limiter of the API (\<^verbatim>\<open>ops/limits.py\<close>). The ordered dictionary of windows is an
  association list, oldest insertion first. Its memory is bounded, and as long as no more peers than
  it can remember take part it is an exact per-minute counter.
\<close>

section \<open>Model\<close>

record rate_limiter =
  rl_limit :: int
  rl_max_peers :: int
  rl_windows :: "(ustr \<times> int \<times> int) list"

definition rate_limiter_init :: "int \<Rightarrow> int \<Rightarrow> svc_error + rate_limiter" where
  "rate_limiter_init requests_per_minute max_peers =
     (if requests_per_minute < 1 \<or> max_peers < 1 then Inl ValueError
      else Inr \<lparr>rl_limit = requests_per_minute, rl_max_peers = max_peers, rl_windows = []\<rparr>)"

text \<open>\<open>pop(peer, default)\<close> on the windows.\<close>

definition pop_window :: "ustr \<Rightarrow> int \<times> int \<Rightarrow> (ustr \<times> int \<times> int) list \<Rightarrow> (int \<times> int) \<times> (ustr \<times> int \<times> int) list" where
  "pop_window peer fallback ws =
     (case map_of ws peer of None \<Rightarrow> fallback | Some w \<Rightarrow> w, filter (\<lambda>e. fst e \<noteq> peer) ws)"

text \<open>\<open>while len(windows) > max_peers: windows.popitem(last=False)\<close>.\<close>

fun evict :: "int \<Rightarrow> (ustr \<times> int \<times> int) list \<Rightarrow> (ustr \<times> int \<times> int) list" where
  "evict n [] = []"
| "evict n (w # ws) = (if int (length (w # ws)) > n then evict n ws else w # ws)"

definition allow :: "rat \<Rightarrow> ustr \<Rightarrow> rate_limiter \<Rightarrow> bool \<times> rate_limiter" where
  "allow now peer rl =
     (let minute = \<lfloor>now / 60\<rfloor>
      in case pop_window peer (minute, 0) (rl_windows rl) of
           ((previous_minute, count), ws) \<Rightarrow>
             (let count = (if previous_minute \<noteq> minute then 0 else count);
                  allowed = count < rl_limit rl
              in (allowed, rl\<lparr>rl_windows := evict (rl_max_peers rl)
                    (ws @ [(peer, minute, if allowed then count + 1 else count)])\<rparr>)))"

text \<open>A sequence of requests, each with its clock reading.\<close>

fun allow_all :: "(rat \<times> ustr) list \<Rightarrow> rate_limiter \<Rightarrow> bool list \<times> rate_limiter" where
  "allow_all [] rl = ([], rl)"
| "allow_all ((now, peer) # reqs) rl =
     (case allow now peer rl of (ok, rl1) \<Rightarrow> (case allow_all reqs rl1 of (oks, rl2) \<Rightarrow> (ok # oks, rl2)))"

section \<open>Bounded memory\<close>

definition limiter_ok :: "rate_limiter \<Rightarrow> bool" where
  "limiter_ok rl \<longleftrightarrow> 1 \<le> rl_limit rl \<and> 1 \<le> rl_max_peers rl \<and> distinct (map fst (rl_windows rl))
     \<and> int (length (rl_windows rl)) \<le> rl_max_peers rl
     \<and> (\<forall>(p, m, c) \<in> set (rl_windows rl). 0 \<le> c \<and> c \<le> rl_limit rl)"

lemma evict_drop: "0 \<le> n \<Longrightarrow> evict n ws = drop (length ws - nat n) ws"
  by (induction n ws rule: evict.induct) (auto simp: Suc_diff_le not_less)

lemma evict_id: "int (length ws) \<le> n \<Longrightarrow> evict n ws = ws"
  by (cases ws) auto

lemma allow_eq:
  "allow now peer rl =
     (let minute = \<lfloor>now / 60\<rfloor>;
          count = (case map_of (rl_windows rl) peer of
                     Some (m, c) \<Rightarrow> if m \<noteq> minute then 0 else c | None \<Rightarrow> 0)
      in (count < rl_limit rl, rl\<lparr>rl_windows := evict (rl_max_peers rl)
            (filter (\<lambda>e. fst e \<noteq> peer) (rl_windows rl)
             @ [(peer, minute, if count < rl_limit rl then count + 1 else count)])\<rparr>))"
  by (auto simp: allow_def pop_window_def Let_def split: option.splits)

lemma allow_ok:
  assumes "limiter_ok rl" "allow now peer rl = (ok, rl')"
  shows "limiter_ok rl' \<and> rl_limit rl' = rl_limit rl \<and> rl_max_peers rl' = rl_max_peers rl"
proof -
  define c where "c = (case map_of (rl_windows rl) peer of
      Some (m, c) \<Rightarrow> if m \<noteq> \<lfloor>now / 60\<rfloor> then 0 else c | None \<Rightarrow> 0)"
  define ws where "ws = filter (\<lambda>e. fst e \<noteq> peer) (rl_windows rl)
      @ [(peer, \<lfloor>now / 60\<rfloor>, if c < rl_limit rl then c + 1 else c)]"
  have rl': "rl' = rl\<lparr>rl_windows := evict (rl_max_peers rl) ws\<rparr>"
    using assms(2) unfolding allow_eq Let_def c_def [symmetric] ws_def by auto
  have c: "0 \<le> c" "c \<le> rl_limit rl"
    using assms(1) by (auto simp: c_def limiter_ok_def split: option.splits dest!: map_of_SomeD)
  have "distinct (map fst ws)"
    using assms(1) by (auto simp: ws_def limiter_ok_def distinct_map_filter)
  moreover have "\<forall>(p, m, k) \<in> set ws. 0 \<le> k \<and> k \<le> rl_limit rl"
    using assms(1) c by (auto simp: ws_def limiter_ok_def)
  ultimately show ?thesis
    using assms(1) rl' by (auto simp: limiter_ok_def evict_drop drop_map [symmetric] dest: in_set_dropD)
qed

lemma allow_all_ok:
  assumes "limiter_ok rl" "allow_all reqs rl = (oks, rl')"
  shows "limiter_ok rl' \<and> length oks = length reqs"
  using assms
proof (induction reqs rl arbitrary: oks rl' rule: allow_all.induct)
  case (2 now peer reqs rl)
  obtain ok rl1 where one: "allow now peer rl = (ok, rl1)" by fastforce
  then show ?case
    using "2.IH" [OF one [symmetric]] "2.prems" allow_ok [OF "2.prems"(1) one]
    by (auto split: prod.splits)
qed simp

section \<open>An exact counter\<close>

text \<open>The abstract limiter: a request is allowed when fewer than the limit of earlier requests came from
  the same peer in the same minute.\<close>

definition earlier :: "(rat \<times> ustr) list \<Rightarrow> rat \<times> ustr \<Rightarrow> nat" where
  "earlier history r = length (filter (\<lambda>h. snd h = snd r \<and> \<lfloor>fst h / 60\<rfloor> = \<lfloor>fst r / 60\<rfloor>) history)"

primrec counted :: "int \<Rightarrow> (rat \<times> ustr) list \<Rightarrow> (rat \<times> ustr) list \<Rightarrow> bool list" where
  "counted limit history [] = []"
| "counted limit history (r # reqs) =
     (int (earlier history r) < limit) # counted limit (history @ [r]) reqs"

text \<open>The window of a peer after a history: the minute of its last request and how many of that minute
  were counted.\<close>

definition window_after :: "int \<Rightarrow> (rat \<times> ustr) list \<Rightarrow> ustr \<Rightarrow> (int \<times> int) option" where
  "window_after limit history peer =
     (let mine = filter (\<lambda>h. snd h = peer) history
      in if mine = [] then None
         else Some (\<lfloor>fst (last mine) / 60\<rfloor>, min limit (int (earlier history (last mine)))))"

definition tracks :: "(rat \<times> ustr) list \<Rightarrow> rate_limiter \<Rightarrow> bool" where
  "tracks history rl \<longleftrightarrow> (\<forall>p. map_of (rl_windows rl) p = window_after (rl_limit rl) history p)"

definition ordered :: "(rat \<times> ustr) list \<Rightarrow> bool" where
  "ordered reqs \<longleftrightarrow> sorted (map fst reqs)"

definition peers :: "(rat \<times> ustr) list \<Rightarrow> ustr set" where
  "peers reqs = snd ` set reqs"

lemma earlier_snoc:
  "earlier (h @ [r]) x = earlier h x + (if snd r = snd x \<and> \<lfloor>fst r / 60\<rfloor> = \<lfloor>fst x / 60\<rfloor> then 1 else 0)"
  by (simp add: earlier_def)

lemma earlier_cong: "snd x = snd y \<Longrightarrow> \<lfloor>fst x / 60\<rfloor> = \<lfloor>fst y / 60\<rfloor> \<Longrightarrow> earlier h x = earlier h y"
  by (simp add: earlier_def)

lemma minute_mono: "a \<le> b \<Longrightarrow> \<lfloor>a / 60\<rfloor> \<le> \<lfloor>b / 60 :: rat\<rfloor>"
  by (intro floor_mono divide_right_mono) auto

lemma sorted_le_last: "sorted xs \<Longrightarrow> x \<in> set xs \<Longrightarrow> x \<le> last xs"
  by (induction xs) auto

text \<open>The count read from the window of a peer is the number of its earlier requests in this minute, cut
  off at the limit.\<close>

lemma window_count:
  assumes limit: "1 \<le> limit" and ord: "ordered (h @ [(now, peer)])"
  shows "(case window_after limit h peer of Some (m, c) \<Rightarrow> if m \<noteq> \<lfloor>now / 60\<rfloor> then 0 else c | None \<Rightarrow> 0)
    = min limit (int (earlier h (now, peer)))"
proof -
  let ?mine = "filter (\<lambda>x. snd x = peer) h"
  have le: "fst x \<le> now" if "x \<in> set h" for x using ord that by (auto simp: ordered_def sorted_append)
  show ?thesis
  proof (cases "?mine = []")
    case True
    then have "earlier h (now, peer) = 0" by (auto simp: earlier_def filter_empty_conv)
    then show ?thesis using True limit by (simp add: window_after_def)
  next
    case False
    have last: "snd (last ?mine) = peer" using last_in_set [OF False] by auto
    have "sorted (map fst ?mine)" using ord by (simp add: ordered_def sorted_append sorted_filter)
    then have "fst x \<le> fst (last ?mine)" if "x \<in> set ?mine" for x
      using sorted_le_last [of "map fst ?mine" "fst x"] that False by (auto simp: last_map)
    then have minutes: "\<lfloor>fst x / 60\<rfloor> \<le> \<lfloor>fst (last ?mine) / 60\<rfloor>" if "x \<in> set ?mine" for x
      using that minute_mono by blast
    show ?thesis
    proof (cases "\<lfloor>fst (last ?mine) / 60\<rfloor> = \<lfloor>now / 60\<rfloor>")
      case True
      then have "earlier h (last ?mine) = earlier h (now, peer)" using last by (intro earlier_cong) auto
      then show ?thesis using False True by (simp add: window_after_def Let_def)
    next
      case ne: False
      have "fst (last ?mine) \<le> now" using le last_in_set [OF False] by auto
      then have "\<lfloor>fst (last ?mine) / 60\<rfloor> < \<lfloor>now / 60\<rfloor>" using ne minute_mono by (metis order_le_less)
      then have "earlier h (now, peer) = 0" using minutes by (fastforce simp: earlier_def filter_empty_conv)
      then show ?thesis using False ne limit by (simp add: window_after_def Let_def)
    qed
  qed
qed

lemma window_after_snoc:
  assumes "limit \<ge> 1"
  shows "window_after limit (h @ [(now, peer)]) p =
     (if p = peer then Some (\<lfloor>now / 60\<rfloor>, min limit (int (earlier h (now, peer)) + 1))
      else window_after limit h p)"
proof (cases "p = peer")
  case True
  then show ?thesis by (simp add: window_after_def Let_def earlier_snoc)
next
  case False
  have "snd (last (filter (\<lambda>x. snd x = p) h)) = p" if "filter (\<lambda>x. snd x = p) h \<noteq> []"
    using last_in_set [OF that] by auto
  then show ?thesis using False by (auto simp: window_after_def Let_def earlier_snoc)
qed

lemma map_of_filter_other: "map_of (filter (\<lambda>e. fst e \<noteq> peer) ws) p = (if p = peer then None else map_of ws p)"
  by (induction ws) auto

lemma tracks_peers: "tracks h rl \<Longrightarrow> fst ` set (rl_windows rl) = peers h"
proof -
  assume t: "tracks h rl"
  have "p \<in> fst ` set (rl_windows rl) \<longleftrightarrow> window_after (rl_limit rl) h p \<noteq> None" for p
    using t by (metis tracks_def map_of_eq_None_iff)
  moreover have "window_after (rl_limit rl) h p \<noteq> None \<longleftrightarrow> p \<in> peers h" for p
    by (auto simp: peers_def window_after_def Let_def filter_empty_conv image_iff)
  ultimately show ?thesis by blast
qed

lemma allow_tracks:
  assumes ok: "limiter_ok rl" and t: "tracks h rl" and ord: "ordered (h @ [(now, peer)])"
    and few: "int (card (peers (h @ [(now, peer)]))) \<le> rl_max_peers rl" and run: "allow now peer rl = (b, rl')"
  shows "b = (int (earlier h (now, peer)) < rl_limit rl) \<and> tracks (h @ [(now, peer)]) rl'"
proof -
  let ?e = "int (earlier h (now, peer))" and ?l = "rl_limit rl"
  have l: "1 \<le> ?l" using ok by (simp add: limiter_ok_def)
  define ws where "ws = filter (\<lambda>e. fst e \<noteq> peer) (rl_windows rl)
      @ [(peer, \<lfloor>now / 60\<rfloor>, min ?l (?e + 1))]"
  have cnt: "(case map_of (rl_windows rl) peer of
      Some (m, c) \<Rightarrow> if m \<noteq> \<lfloor>now / 60\<rfloor> then 0 else c | None \<Rightarrow> 0) = min ?l ?e"
    using window_count [OF l ord] t by (simp add: tracks_def)
  have next_count: "(if min ?l ?e < ?l then min ?l ?e + 1 else min ?l ?e) = min ?l (?e + 1)" by auto
  have res: "b = (?e < ?l)" "rl' = rl\<lparr>rl_windows := evict (rl_max_peers rl) ws\<rparr>"
    using run unfolding allow_eq Let_def cnt next_count ws_def by auto
  have keys: "fst ` set ws = peers (h @ [(now, peer)])"
    using tracks_peers [OF t] by (auto simp: ws_def peers_def)
  have "distinct (map fst ws)" using ok by (auto simp: ws_def limiter_ok_def distinct_map_filter)
  then have "length ws = card (peers (h @ [(now, peer)]))"
    using keys by (metis distinct_card length_map set_map)
  then have "evict (rl_max_peers rl) ws = ws" using few by (intro evict_id) simp
  moreover have "map_of ws p = window_after ?l (h @ [(now, peer)]) p" for p
    using t window_after_snoc [OF l] by (auto simp: ws_def tracks_def map_add_def map_of_filter_other split: option.split)
  ultimately show ?thesis using res by (simp add: tracks_def)
qed

lemma allow_all_tracks:
  assumes "limiter_ok rl" "tracks h rl" "ordered (h @ reqs)" "int (card (peers (h @ reqs))) \<le> rl_max_peers rl"
  shows "fst (allow_all reqs rl) = counted (rl_limit rl) h reqs"
  using assms
proof (induction reqs arbitrary: h rl)
  case (Cons r reqs)
  obtain now peer where r: "r = (now, peer)" by (cases r)
  obtain b rl1 where one: "allow now peer rl = (b, rl1)" by fastforce
  have "card (peers (h @ [(now, peer)])) \<le> card (peers (h @ r # reqs))"
    by (rule card_mono) (auto simp: peers_def r)
  then have "int (card (peers (h @ [(now, peer)]))) \<le> rl_max_peers rl" using Cons.prems(4) by linarith
  moreover have "ordered (h @ [(now, peer)])" using Cons.prems(3) by (auto simp: ordered_def sorted_append r)
  ultimately have step: "b = (int (earlier h (now, peer)) < rl_limit rl)" "tracks (h @ [(now, peer)]) rl1"
    using allow_tracks [OF Cons.prems(1,2) _ _ one] by blast+
  note kept = allow_ok [OF Cons.prems(1) one]
  have "fst (allow_all reqs rl1) = counted (rl_limit rl1) (h @ [(now, peer)]) reqs"
    using Cons.IH [OF _ step(2)] kept Cons.prems(3,4) r by simp
  then show ?case using one step(1) kept r by (simp add: split_beta)
qed simp


lemma demo_limited:
  "map_sum id (\<lambda>rl. fst (allow_all [(0, [97]), (1, [97]), (2, [97]), (59, [98]), (61, [97])] rl))
     (rate_limiter_init 2 2) = Inr [True, True, False, True, True]"
  by code_simp


end
