(* ===== verification/Key_History.thy ===== *)
theory Key_History
  imports Exec_Admission
begin

text \<open>
  The bounded probe both services use to find a retained record whose HMAC key version is no longer
  configured. It reads one distinct version at a time and at most one more than there are configured
  versions, and is shown to find an unconfigured version exactly when one exists.
\<close>

definition above :: "string option \<Rightarrow> string list \<Rightarrow> string set" where
  "above previous column = {v \<in> set column. case previous of None \<Rightarrow> True | Some p \<Rightarrow> p < v}"

lemma finite_above [simp]: "finite (above previous column)"
  by (simp add: above_def)

lemma sort_hd_le: "x \<in> set xs \<Longrightarrow> hd (sort xs) \<le> x"
  by (cases "sort xs") (metis set_sort sorted_sort sorted_wrt.simps(2) set_ConsD list.sel(1) order_refl
      empty_iff list.set(1))+

lemma first_row_hd: "first_row xs = (if xs = [] then None else Some (hd xs))"
  by (cases xs) auto

lemma successor_eq:
  "successor previous column =
     (let xs = filter (\<lambda>v. case previous of None \<Rightarrow> True | Some p \<Rightarrow> p < v) column
      in if xs = [] then None else Some (hd (sort xs)))"
proof -
  have "sort xs = [] \<longleftrightarrow> xs = []" for xs :: "string list" by (metis set_empty set_sort)
  then show ?thesis by (simp add: successor_def order_by_limit_def first_row_hd id_def Let_def hd_take)
qed

lemma set_above:
  "set (filter (\<lambda>v. case previous of None \<Rightarrow> True | Some p \<Rightarrow> p < v) column) = above previous column"
  by (auto simp: above_def)

lemma successor_None: "successor previous column = None \<longleftrightarrow> above previous column = {}"
  unfolding successor_eq Let_def set_above [symmetric] by (simp del: set_filter)

lemma successor_Some:
  assumes "successor previous column = Some v"
  shows "v \<in> above previous column" "above (Some v) column = above previous column - {v}"
proof -
  let ?xs = "filter (\<lambda>v. case previous of None \<Rightarrow> True | Some p \<Rightarrow> p < v) column"
  have ne: "?xs \<noteq> []" and v: "v = hd (sort ?xs)"
    using assms by (auto simp: successor_eq Let_def split: if_splits)
  from ne have "sort ?xs \<noteq> []" by (metis set_empty set_sort)
  from hd_in_set [OF this] show mem: "v \<in> above previous column" using v set_above by (metis set_sort)
  have "v \<le> x" if "x \<in> above previous column" for x
    using sort_hd_le [of x ?xs] that v set_above by metis
  then show "above (Some v) column = above previous column - {v}"
    using mem by (fastforce simp: above_def split: option.splits)
qed

lemma probe_complete:
  "above previous column \<subseteq> set configured \<Longrightarrow> card (above previous column) < n
     \<Longrightarrow> probe_versions n previous column configured = None"
proof (induction n arbitrary: previous)
  case (Suc n)
  show ?case
  proof (cases "successor previous column")
    case (Some v)
    note s = successor_Some [OF Some]
    have "card (above (Some v) column) < n"
      using s Suc.prems(2) by (simp add: card_Diff_singleton)
        (metis card_gt_0_iff empty_iff finite_above Suc_less_eq Suc_pred)
    then have "probe_versions n (Some v) column configured = None"
      using Suc.IH [of "Some v"] s Suc.prems(1) by auto
    then show ?thesis using Some s(1) Suc.prems(1) by auto
  qed simp
qed simp

lemma probe_sound:
  "probe_versions n previous column configured = None \<Longrightarrow> 0 < n \<or> previous \<noteq> None
     \<Longrightarrow> above previous column \<subseteq> set configured"
proof (induction n arbitrary: previous)
  case (Suc n)
  show ?case
  proof (cases "successor previous column")
    case None
    then show ?thesis by (simp add: successor_None)
  next
    case (Some v)
    note s = successor_Some [OF Some]
    have v: "v \<in> set configured" "probe_versions n (Some v) column configured = None"
      using Suc.prems(1) Some by (auto split: if_splits)
    have "above (Some v) column \<subseteq> set configured" using Suc.IH [OF v(2)] by simp
    then show ?thesis using s v(1) by auto
  qed
qed simp

lemma probe_exact:
  assumes "card (set configured) < n"
  shows "probe_versions n None column configured = None \<longleftrightarrow> set column \<subseteq> set configured"
proof
  assume "probe_versions n None column configured = None"
  from probe_sound [OF this] show "set column \<subseteq> set configured" using assms by (simp add: above_def)
next
  assume sub: "set column \<subseteq> set configured"
  then have "card (set column) \<le> card (set configured)" by (simp add: card_mono)
  then have "card (above None column) < n" using assms by (simp add: above_def)
  then show "probe_versions n None column configured = None"
    using sub by (intro probe_complete) (simp_all add: above_def)
qed

lemma find_unconfigured_exact:
  assumes "int (length configured) \<le> max_historical_hmac_keys limits"
  shows "find_unconfigured_key_version limits column configured = None \<longleftrightarrow> set column \<subseteq> set configured"
proof -
  have "card (set configured) \<le> length configured" by (rule card_length)
  then show ?thesis
    using assms unfolding find_unconfigured_key_version_def by (intro probe_exact) linarith
qed

text \<open>With a service whose keyrings passed construction, admission is refused for an incomplete key
  history exactly when some retained idempotency record or confirmation nonce was written under a key
  version that is not configured any more, although the probes read at most one version more than a
  keyring may hold.\<close>

theorem key_history_exact:
  assumes "execution_service limits confirmation_keys idempotency_keys = Inr cfg"
  shows "(require_idempotency_key_history cfg d = Inr () \<longleftrightarrow>
      (\<forall>r \<in> set (idempotency_records d). idem_key_version r \<in> hk_version ` set idempotency_keys))
    \<and> (require_confirmation_key_history cfg d = Inr () \<longleftrightarrow>
      (\<forall>r \<in> set (idempotency_records d). idem_confirmation_key_version r \<in> hk_version ` set confirmation_keys)
      \<and> (\<forall>n \<in> set (confirmation_nonces d). nonce_key_version n \<in> hk_version ` set confirmation_keys))"
proof -
  have cfg: "cfg_limits cfg = limits" "cfg_confirmation_keys cfg = confirmation_keys"
      "cfg_idempotency_keys cfg = idempotency_keys"
      "int (length (map hk_version confirmation_keys)) \<le> max_historical_hmac_keys limits"
      "int (length (map hk_version idempotency_keys)) \<le> max_historical_hmac_keys limits"
    using assms by (auto simp: execution_service_def validate_keyring_def and_then_Inr split: if_splits)
  note exact = find_unconfigured_exact [OF cfg(4)] find_unconfigured_exact [OF cfg(5)]
  have idem: "require_idempotency_key_history cfg d = Inr () \<longleftrightarrow>
      find_unconfigured_key_version limits (map idem_key_version (idempotency_records d))
        (map hk_version idempotency_keys) = None"
    by (simp add: require_idempotency_key_history_def cfg split: option.splits)
  have conf: "require_confirmation_key_history cfg d = Inr () \<longleftrightarrow>
      find_unconfigured_key_version limits (map idem_confirmation_key_version (idempotency_records d))
        (map hk_version confirmation_keys) = None
      \<and> find_unconfigured_key_version limits (map nonce_key_version (confirmation_nonces d))
        (map hk_version confirmation_keys) = None"
    by (auto simp: require_confirmation_key_history_def cfg Let_def split: option.splits)
  show ?thesis unfolding idem conf exact by auto
qed

definition history_key :: HmacKeyVersion where
  "history_key = \<lparr>hk_version = ''v1'', hk_secret = replicate 32 7\<rparr>"

lemma demo_keyring:
  "execution_service default_limits [history_key] [history_key] =
     Inr \<lparr>cfg_limits = default_limits, cfg_confirmation_keys = [history_key], cfg_idempotency_keys = [history_key]\<rparr>"
  by code_simp

theorem key_history_exact_witness:
  "require_idempotency_key_history \<lparr>cfg_limits = default_limits, cfg_confirmation_keys = [history_key],
     cfg_idempotency_keys = [history_key]\<rparr> empty_db = Inr ()"
  using key_history_exact [OF demo_keyring, of empty_db] by (simp add: empty_db_def)

end
