(* ===== verification/Api_Idempotency.thy ===== *)
theory Api_Idempotency
  imports Key_History Exec_Ops
begin

text \<open>
  Replay protection for the mutations of the API other than runs (\<^verbatim>\<open>api/idempotency.py\<close>). The mutation
  itself, the HMAC and the conversion between responses and stored JSON are arguments.
\<close>

section \<open>Model\<close>

datatype api_error = InvalidRequest | RuntimeError | ApiIdempotencyConflict
  | ApiIdempotencyHistoryIncomplete | ServiceError svc_error

abbreviation lift_error :: "svc_error + 'a \<Rightarrow> api_error + 'a" where
  "lift_error r \<equiv> map_sum ServiceError id r"

text \<open>A mutation of the API: the route, the canonical request, the operation, how its response is
  recorded and how a recorded response is replayed.\<close>

record 'r mutation =
  mut_route :: string
  mut_request_body :: json
  mut_operation :: "db \<Rightarrow> api_error + 'r \<times> db"
  mut_required_roles :: "Role list"
  mut_record :: "'r \<Rightarrow> json"
  mut_replay :: "json \<Rightarrow> db \<Rightarrow> api_error + 'r \<times> db"

record api_externals =
  api_hmac :: "bytes \<Rightarrow> bytes \<Rightarrow> string"
  api_float_repr :: float_repr

definition api_retention :: duration where
  "api_retention = days 7"

definition idempotency_key_ok :: "ustr \<Rightarrow> bool" where
  "idempotency_key_ok key \<longleftrightarrow> 1 \<le> length key \<and> length key \<le> 256 \<and> \<not> list_ex (\<lambda>c. c < 32) key"

definition require_complete_key_history :: "string list \<Rightarrow> instant \<Rightarrow> db \<Rightarrow> api_error + unit" where
  "require_complete_key_history configured now d =
     (case probe_versions (card (set configured) + 1) None
             (map api_key_version (filter (\<lambda>r. api_expires_at r > now) (api_idempotency_records d)))
             configured of
        None \<Rightarrow> Inr () | Some _ \<Rightarrow> Inl ApiIdempotencyHistoryIncomplete)"

text \<open>The \<open>where\<close> clause of the lookup: the digests of the key under every configured version are its
  candidates.\<close>

definition api_candidate ::
  "api_externals \<Rightarrow> HmacKeyVersion list \<Rightarrow> WorkspaceContext \<Rightarrow> string \<Rightarrow> bytes \<Rightarrow> ApiIdempotencyRecord \<Rightarrow> bool" where
  "api_candidate ext keys ctx route key_bytes r \<longleftrightarrow>
     api_workspace_id r = ctx_workspace_id ctx \<and> api_actor_user_id r = ctx_actor_user_id ctx
     \<and> api_method r = ''POST'' \<and> api_route r = route
     \<and> list_ex (\<lambda>k. api_key_version r = hk_version k \<and> api_key_hmac r = api_hmac ext (hk_secret k) key_bytes) keys"

definition api_record_key :: "ApiIdempotencyRecord \<Rightarrow> uuid \<times> uuid \<times> string \<times> string \<times> string \<times> string" where
  "api_record_key r = (api_workspace_id r, api_actor_user_id r, api_method r, api_route r,
     api_key_version r, api_key_hmac r)"

text \<open>The constraints of the table a new row has to satisfy.\<close>

definition api_insert_ok :: "ApiIdempotencyRecord \<Rightarrow> db \<Rightarrow> bool" where
  "api_insert_ok r d \<longleftrightarrow> length (api_key_hmac r) = 64 \<and> length (api_request_hmac r) = 64
     \<and> api_record_key r \<notin> api_record_key ` set (api_idempotency_records d)
     \<and> api_id r \<notin> api_id ` set (api_idempotency_records d)"

definition new_api_record ::
  "api_externals \<Rightarrow> HmacKeyVersion \<Rightarrow> WorkspaceContext \<Rightarrow> string \<Rightarrow> bytes \<Rightarrow> bytes \<Rightarrow> json \<Rightarrow> instant \<Rightarrow> uuid
     \<Rightarrow> ApiIdempotencyRecord" where
  "new_api_record ext active ctx route key_bytes canonical body now fresh =
     \<lparr>api_id = fresh, api_workspace_id = ctx_workspace_id ctx, api_actor_user_id = ctx_actor_user_id ctx,
      api_method = ''POST'', api_route = route, api_key_version = hk_version active,
      api_key_hmac = api_hmac ext (hk_secret active) key_bytes,
      api_request_hmac = api_hmac ext (hk_secret active) canonical, api_response_body = body,
      api_created_at = now, api_expires_at = now + api_retention\<rparr>"

text \<open>The part after the lookup: an expired record is deleted first.\<close>

definition without_record :: "ApiIdempotencyRecord \<Rightarrow> db \<Rightarrow> db" where
  "without_record r d = d\<lparr>api_idempotency_records := filter (\<lambda>x. api_id x \<noteq> api_id r) (api_idempotency_records d)\<rparr>"

definition execute_mutation ::
  "api_externals \<Rightarrow> HmacKeyVersion list \<Rightarrow> WorkspaceContext \<Rightarrow> bytes \<Rightarrow> bytes \<Rightarrow> 'r mutation \<Rightarrow> instant \<Rightarrow> uuid \<Rightarrow> db
     \<Rightarrow> api_error + 'r \<times> db" where
  "execute_mutation ext keys ctx key_bytes canonical mu now fresh d =
     and_then (mut_operation mu d) (\<lambda>(response, d').
       (let r = new_api_record ext (hd keys) ctx (mut_route mu) key_bytes canonical (mut_record mu response)
                  now fresh
        in if api_insert_ok r d'
           then Inr (response, d'\<lparr>api_idempotency_records := api_idempotency_records d' @ [r]\<rparr>)
           else Inl (ServiceError IntegrityError)))"

definition replay_mutation ::
  "api_externals \<Rightarrow> HmacKeyVersion list \<Rightarrow> bytes \<Rightarrow> 'r mutation \<Rightarrow> ApiIdempotencyRecord \<Rightarrow> db
     \<Rightarrow> api_error + 'r \<times> db" where
  "replay_mutation ext keys canonical mu existing d =
     (case first_row (filter (\<lambda>k. hk_version k = api_key_version existing) keys) of
        None \<Rightarrow> Inl RuntimeError
      | Some matching_key \<Rightarrow>
          if api_request_hmac existing \<noteq> api_hmac ext (hk_secret matching_key) canonical
          then Inl ApiIdempotencyConflict
          else mut_replay mu (api_response_body existing) d)"

definition idempotent_mutation ::
  "api_externals \<Rightarrow> HmacKeyVersion list \<Rightarrow> WorkspaceContext \<Rightarrow> ustr \<Rightarrow> 'r mutation \<Rightarrow> instant \<Rightarrow> uuid \<Rightarrow> db
     \<Rightarrow> api_error + 'r \<times> db" where
  "idempotent_mutation ext keys ctx idempotency_key mu now fresh d =
     (if \<not> idempotency_key_ok idempotency_key then Inl InvalidRequest
      else if keys = [] then Inl RuntimeError
      else
        (case canonical_json (api_float_repr ext) (mut_request_body mu) of
           None \<Rightarrow> Inl (ServiceError ValueError)
         | Some canonical \<Rightarrow>
             if length canonical > 262144 then Inl InvalidRequest
             else
               and_then (lift_error (require_current_role ctx (mut_required_roles mu) True d)) (\<lambda>_.
                 (case utf8 idempotency_key of
                    None \<Rightarrow> Inl (ServiceError ValueError)
                  | Some key_bytes \<Rightarrow>
                      and_then (require_complete_key_history (map hk_version keys) now d) (\<lambda>_.
                        (case first_row (filter (api_candidate ext keys ctx (mut_route mu) key_bytes)
                                (api_idempotency_records d)) of
                           None \<Rightarrow> execute_mutation ext keys ctx key_bytes canonical mu now fresh d
                         | Some existing \<Rightarrow>
                             if api_expires_at existing \<le> now
                             then execute_mutation ext keys ctx key_bytes canonical mu now fresh
                                    (without_record existing d)
                             else replay_mutation ext keys canonical mu existing d))))))"

text \<open>\<open>purge_expired_api_idempotency\<close>: one bounded batch of expired records, oldest first.\<close>

definition purge_expired_api_idempotency :: "instant \<Rightarrow> int \<Rightarrow> db \<Rightarrow> api_error + nat \<times> db" where
  "purge_expired_api_idempotency cutoff batch_size d =
     (if batch_size < 1 \<or> batch_size > 1000 then Inl InvalidRequest
      else
        (let ids = map api_id (order_by_limit (\<lambda>r. (api_expires_at r, api_id r)) (nat batch_size)
               (filter (\<lambda>r. api_expires_at r \<le> cutoff) (api_idempotency_records d)))
         in Inr (length ids, d\<lparr>api_idempotency_records :=
              filter (\<lambda>r. api_id r \<notin> set ids) (api_idempotency_records d)\<rparr>)))"

section \<open>Key history\<close>

lemma require_complete_exact:
  "require_complete_key_history configured now d = Inr () \<longleftrightarrow>
     (\<forall>r \<in> set (api_idempotency_records d). now < api_expires_at r \<longrightarrow> api_key_version r \<in> set configured)"
proof -
  let ?column = "map api_key_version (filter (\<lambda>r. api_expires_at r > now) (api_idempotency_records d))"
  have "require_complete_key_history configured now d = Inr () \<longleftrightarrow>
      probe_versions (card (set configured) + 1) None ?column configured = None"
    by (simp add: require_complete_key_history_def split: option.splits)
  also have "\<dots> \<longleftrightarrow> set ?column \<subseteq> set configured" by (rule probe_exact) simp
  finally show ?thesis by auto
qed

section \<open>Executing and replaying\<close>

lemma idempotent_mutation_Inr:
  assumes "idempotent_mutation ext keys ctx key mu now fresh d = Inr (response, d')"
  obtains canonical key_bytes m where "idempotency_key_ok key" "keys \<noteq> []"
    "canonical_json (api_float_repr ext) (mut_request_body mu) = Some canonical" "length canonical \<le> 262144"
    "require_current_role ctx (mut_required_roles mu) True d = Inr m" "utf8 key = Some key_bytes"
    "require_complete_key_history (map hk_version keys) now d = Inr ()"
    "(case first_row (filter (api_candidate ext keys ctx (mut_route mu) key_bytes) (api_idempotency_records d)) of
        None \<Rightarrow> execute_mutation ext keys ctx key_bytes canonical mu now fresh d
      | Some existing \<Rightarrow>
          if api_expires_at existing \<le> now
          then execute_mutation ext keys ctx key_bytes canonical mu now fresh (without_record existing d)
          else replay_mutation ext keys canonical mu existing d) = Inr (response, d')"
proof -
  have sums: "lift_error r = Inr x \<Longrightarrow> r = Inr x" for r :: "svc_error + WorkspaceMembership" and x
    by (cases r) auto
  show thesis
    using assms that
    by (auto simp: idempotent_mutation_def and_then_Inr split: if_splits option.splits dest!: sums)
qed

lemma execute_mutation_Inr:
  assumes "execute_mutation ext keys ctx key_bytes canonical mu now fresh d = Inr (response, d')"
  obtains d1 where "mut_operation mu d = Inr (response, d1)"
    "d' = d1\<lparr>api_idempotency_records := api_idempotency_records d1
       @ [new_api_record ext (hd keys) ctx (mut_route mu) key_bytes canonical (mut_record mu response) now fresh]\<rparr>"
  using assms by (auto simp: execute_mutation_def and_then_Inr Let_def split: if_splits)

lemma new_record_candidate:
  "keys \<noteq> [] \<Longrightarrow> api_candidate ext keys ctx route key_bytes
     (new_api_record ext (hd keys) ctx route key_bytes canonical body now fresh)"
  by (cases keys) (auto simp: api_candidate_def new_api_record_def)

lemma active_key: "keys \<noteq> [] \<Longrightarrow> first_row (filter (\<lambda>k. hk_version k = hk_version (hd keys)) keys) = Some (hd keys)"
  by (cases keys) auto

text \<open>A first execution leaves exactly one candidate for the key: the record it wrote.\<close>

lemma executed_record:
  assumes first: "idempotent_mutation ext keys ctx key mu now fresh d = Inr (response, d1)"
    and kb: "utf8 key = Some key_bytes"
    and new: "\<forall>r \<in> set (filter (api_candidate ext keys ctx (mut_route mu) key_bytes) (api_idempotency_records d)).
      api_expires_at r \<le> now"
    and one: "length (filter (api_candidate ext keys ctx (mut_route mu) key_bytes) (api_idempotency_records d)) \<le> 1"
    and op: "\<forall>e r e'. mut_operation mu e = Inr (r, e') \<longrightarrow> api_idempotency_records e' = api_idempotency_records e"
    and c1: "canonical_json (api_float_repr ext) (mut_request_body mu) = Some c1"
  defines "row \<equiv> new_api_record ext (hd keys) ctx (mut_route mu) key_bytes c1 (mut_record mu response) now fresh"
  shows "\<exists>rest. api_idempotency_records d1 = rest @ [row] \<and> set rest \<subseteq> set (api_idempotency_records d)
    \<and> filter (api_candidate ext keys ctx (mut_route mu) key_bytes) rest = []"
proof -
  let ?cand = "api_candidate ext keys ctx (mut_route mu) key_bytes"
  obtain d0 where d0: "execute_mutation ext keys ctx key_bytes c1 mu now fresh d0 = Inr (response, d1)"
      "set (api_idempotency_records d0) \<subseteq> set (api_idempotency_records d)"
      "filter ?cand (api_idempotency_records d0) = []"
  proof (rule idempotent_mutation_Inr [OF first])
    fix canonical kb' m
    assume f: "canonical_json (api_float_repr ext) (mut_request_body mu) = Some canonical" "utf8 key = Some kb'"
      "(case first_row (filter (api_candidate ext keys ctx (mut_route mu) kb') (api_idempotency_records d)) of
        None \<Rightarrow> execute_mutation ext keys ctx kb' canonical mu now fresh d
      | Some existing \<Rightarrow>
          if api_expires_at existing \<le> now
          then execute_mutation ext keys ctx kb' canonical mu now fresh (without_record existing d)
          else replay_mutation ext keys canonical mu existing d) = Inr (response, d1)"
    then have eq: "canonical = c1" "kb' = key_bytes" using kb c1 by simp_all
    show thesis
    proof (cases "filter ?cand (api_idempotency_records d)")
      case Nil
      then show thesis using f eq by (intro that [of d]) auto
    next
      case (Cons existing more_rows)
      then have "set (filter ?cand (api_idempotency_records d)) = {existing}" using one by simp
      then have "r = existing" if "r \<in> set (api_idempotency_records d)" "?cand r" for r
        using that by (metis (mono_tags, lifting) filter_set mem_Collect_eq set_filter singletonD)
      then have only: "filter ?cand (api_idempotency_records (without_record existing d)) = []"
        by (auto simp: without_record_def filter_empty_conv)
      have "api_expires_at existing \<le> now" using new Cons by simp
      then show thesis
        using f eq Cons only by (intro that [of "without_record existing d"]) (auto simp: without_record_def)
    qed
  qed
  then obtain d' where "mut_operation mu d0 = Inr (response, d')"
      "d1 = d'\<lparr>api_idempotency_records := api_idempotency_records d' @ [row]\<rparr>"
    unfolding row_def by (blast elim: execute_mutation_Inr)
  then show ?thesis using op d0 by auto
qed


section \<open>Purging\<close>

text \<open>A purge deletes at most the batch it was given, only expired records, and all of them when the
  batch was not filled; a batch size outside 1 to 1000 is refused.\<close>

theorem purge_is_bounded:
  assumes ids: "distinct (map api_id (api_idempotency_records d))"
  shows "case purge_expired_api_idempotency cutoff batch_size d of
      Inl e \<Rightarrow> e = InvalidRequest \<and> (batch_size < 1 \<or> batch_size > 1000)
    | Inr (n, d') \<Rightarrow> int n \<le> batch_size
        \<and> length (api_idempotency_records d') + n = length (api_idempotency_records d)
        \<and> (\<forall>r \<in> set (api_idempotency_records d). cutoff < api_expires_at r \<longrightarrow> r \<in> set (api_idempotency_records d'))
        \<and> (int n < batch_size \<longrightarrow> (\<forall>r \<in> set (api_idempotency_records d'). cutoff < api_expires_at r))"
proof -
  let ?rows = "api_idempotency_records d"
  let ?old = "filter (\<lambda>r. api_expires_at r \<le> cutoff) ?rows"
  let ?batch = "order_by_limit (\<lambda>r. (api_expires_at r, api_id r)) (nat batch_size) ?old"
  have sub: "set ?batch \<subseteq> set ?old" by (rule set_order_by_limit)
  have dist: "distinct (map api_id ?batch)" by (rule distinct_map_order_by_limit [OF ids])
  have inj: "inj_on api_id (set ?rows)" using ids by (simp add: distinct_map)
  have gone: "api_id r \<in> api_id ` set ?batch \<longleftrightarrow> r \<in> set ?batch" if "r \<in> set ?rows" for r
    using inj_on_image_mem_iff [OF inj that, of "set ?batch"] sub by auto
  have "length (filter (\<lambda>r. r \<in> set ?batch) ?rows) = length ?batch"
  proof -
    have "distinct (filter (\<lambda>r. r \<in> set ?batch) ?rows)" "distinct ?batch"
      using ids dist by (simp_all add: distinct_map)
    from this [THEN distinct_card] have "length (filter (\<lambda>r. r \<in> set ?batch) ?rows)
        = card (set (filter (\<lambda>r. r \<in> set ?batch) ?rows))" "length ?batch = card (set ?batch)" by simp_all
    moreover have "set (filter (\<lambda>r. r \<in> set ?batch) ?rows) = set ?batch" using sub by auto
    ultimately show ?thesis by presburger
  qed
  moreover have "filter (\<lambda>r. api_id r \<notin> api_id ` set ?batch) ?rows = filter (\<lambda>r. r \<notin> set ?batch) ?rows"
    using gone by (intro filter_cong) auto
  ultimately have len: "length (filter (\<lambda>r. api_id r \<notin> api_id ` set ?batch) ?rows) + length ?batch = length ?rows"
    using sum_length_filter_compl [of "\<lambda>r. r \<in> set ?batch" ?rows] by simp
  have all: "set ?batch = set ?old" if "int (length ?batch) < batch_size"
    using that by (simp add: length_order_by_limit order_by_limit_def)
  have keep: "cutoff < api_expires_at r \<Longrightarrow> r \<in> set ?rows \<Longrightarrow> api_id r \<notin> api_id ` set ?batch" for r
    using gone sub by auto
  have rest: "cutoff < api_expires_at r"
    if "int (length ?batch) < batch_size" "r \<in> set ?rows" "api_id r \<notin> api_id ` set ?batch" for r
    using all [OF that(1)] gone [OF that(2)] that by auto
  show ?thesis
    using len keep rest length_order_by_limit [of "\<lambda>r. (api_expires_at r, api_id r)" "nat batch_size" ?old]
    by (auto simp: purge_expired_api_idempotency_def Let_def)
qed

section \<open>Witnesses\<close>

definition demo_api :: api_externals where
  "demo_api = \<lparr>api_hmac = (\<lambda>s v. replicate 64 (if v = [123, 125] then CHR ''a'' else CHR ''b'')),
     api_float_repr = (\<lambda>_. [])\<rparr>"

definition demo_caller :: WorkspaceContext where
  "demo_caller = \<lparr>ctx_workspace_id = 1, ctx_actor_user_id = 2, ctx_role = ADMIN\<rparr>"

definition demo_tenants :: db where
  "demo_tenants = empty_db\<lparr>workspaces := [\<lparr>ws_id = 1, ws_name = [119]\<rparr>],
     memberships := [\<lparr>mem_workspace_id = 1, mem_user_id = 2, mem_role = ADMIN\<rparr>]\<rparr>"

definition demo_mutation :: "json \<Rightarrow> nat mutation" where
  "demo_mutation body = \<lparr>mut_route = ''r'', mut_request_body = body, mut_operation = (\<lambda>d. Inr (5, d)),
     mut_required_roles = [ADMIN], mut_record = (\<lambda>n. JInt (int n)),
     mut_replay = (\<lambda>j d. case j of JInt i \<Rightarrow> Inr (nat i, d) | _ \<Rightarrow> Inl RuntimeError)\<rparr>"

lemma demo_parts:
  "require_current_role demo_caller [ADMIN] True demo_tenants = Inr \<lparr>mem_workspace_id = 1, mem_user_id = 2, mem_role = ADMIN\<rparr>"
  "canonical_json (api_float_repr demo_api) (JDict []) = Some [123, 125]"
  "canonical_json (api_float_repr demo_api) (JList []) = Some [91, 93]"
  "utf8 [107] = Some [107]"
  "require_complete_key_history [hk_version history_key] 10 demo_tenants = Inr ()"
  "idempotency_key_ok [107]"
  "map_sum id fst (execute_mutation demo_api [history_key] demo_caller [107] [123, 125] (demo_mutation (JDict [])) 10 9
     demo_tenants) = Inr 5"
  by code_simp+

lemma demo_executed:
  "\<exists>d1. idempotent_mutation demo_api [history_key] demo_caller [107] (demo_mutation (JDict [])) 10 9 demo_tenants = Inr (5, d1)"
proof -
  let ?run = "execute_mutation demo_api [history_key] demo_caller [107] [123, 125] (demo_mutation (JDict [])) 10 9 demo_tenants"
  have mu: "mut_request_body (demo_mutation b) = b" "mut_required_roles (demo_mutation b) = [ADMIN]" for b
    by (simp_all add: demo_mutation_def)
  have none: "api_idempotency_records demo_tenants = []" by (simp add: demo_tenants_def empty_db_def)
  have "idempotent_mutation demo_api [history_key] demo_caller [107] (demo_mutation (JDict [])) 10 9 demo_tenants = ?run"
    by (simp add: idempotent_mutation_def mu demo_parts(1,2,4,5,6) none and_then_simps)
  then show ?thesis using demo_parts(7) by (cases ?run) auto
qed


definition demo_old_record :: ApiIdempotencyRecord where
  "demo_old_record = new_api_record demo_api history_key demo_caller ''r'' [107] [123, 125] (JInt 5) 0 9"

theorem purge_is_bounded_witness:
  "case purge_expired_api_idempotency (days 8) 10 (empty_db\<lparr>api_idempotency_records := [demo_old_record]\<rparr>) of
     Inl e \<Rightarrow> False | Inr (n, d') \<Rightarrow> n = 1 \<and> api_idempotency_records d' = []"
proof -
  let ?d = "empty_db\<lparr>api_idempotency_records := [demo_old_record]\<rparr>"
  have "distinct (map api_id (api_idempotency_records ?d))" by simp
  from purge_is_bounded [OF this, of "days 8" 10] show ?thesis
    by (auto simp: demo_old_record_def new_api_record_def api_retention_def days_def split: sum.splits
        dest!: spec [of _ "1 :: nat"])
      (auto simp: purge_expired_api_idempotency_def order_by_limit_def Let_def split: if_splits)
qed

end
