(* ===== verification/Secret_Names.thy ===== *)
theory Secret_Names
  imports Endpoint_Rules
begin

text \<open>
  The file names of mounted secrets (\<open>MountedFileSecretProvider.filename_for\<close> of \<^verbatim>\<open>secrets/provider.py\<close>):
  two URL-safe base64 texts without padding, joined by a dot. A decoder is given that reads the
  reference and its version back from the name.
\<close>

section \<open>Base64\<close>

definition b64_char :: "nat \<Rightarrow> nat" where
  "b64_char n = (if n < 26 then n + 65 else if n < 52 then n + 71 else if n < 62 then n - 4
     else if n = 62 then 45 else 95)"

definition b64_value :: "nat \<Rightarrow> nat" where
  "b64_value c = (if 65 \<le> c \<and> c \<le> 90 then c - 65 else if 97 \<le> c \<and> c \<le> 122 then c - 71
     else if 48 \<le> c \<and> c \<le> 57 then c + 4 else if c = 45 then 62 else 63)"

text \<open>\<open>base64.urlsafe_b64encode\<close>.\<close>

fun urlsafe_b64encode :: "bytes \<Rightarrow> bytes" where
  "urlsafe_b64encode [] = []"
| "urlsafe_b64encode [a] = [b64_char (a div 4), b64_char (a mod 4 * 16), 61, 61]"
| "urlsafe_b64encode [a, b] =
     [b64_char (a div 4), b64_char (a mod 4 * 16 + b div 16), b64_char (b mod 16 * 4), 61]"
| "urlsafe_b64encode (a # b # c # rest) =
     b64_char (a div 4) # b64_char (a mod 4 * 16 + b div 16) # b64_char (b mod 16 * 4 + c div 64)
     # b64_char (c mod 64) # urlsafe_b64encode rest"

definition rstrip_equals :: "bytes \<Rightarrow> bytes" where
  "rstrip_equals s = rev (dropWhile (\<lambda>c. c = 61) (rev s))"

definition encode_component :: "ustr \<Rightarrow> ustr" where
  "encode_component component = rstrip_equals (urlsafe_b64encode component)"

section \<open>File names\<close>

text \<open>\<open>_REFERENCE\<close>.\<close>

definition secret_reference_ok :: "ustr \<Rightarrow> bool" where
  "secret_reference_ok s \<longleftrightarrow> s \<noteq> [] \<and> length s \<le> 128 \<and> ascii_alnum (hd s)
     \<and> list_all (\<lambda>c. ascii_alnum c \<or> c = 46 \<or> c = 95 \<or> c = 45) (tl s)"

definition filename_for :: "ustr \<Rightarrow> ustr \<Rightarrow> svc_error + ustr" where
  "filename_for external_reference version =
     (if \<not> secret_reference_ok external_reference \<or> \<not> secret_reference_ok version then Inl SecretProviderError
      else
        (let filename = encode_component external_reference @ 46 # encode_component version
         in if length filename > 255 then Inl SecretProviderError else Inr filename))"

section \<open>Reading a name back\<close>

fun b64_decode :: "bytes \<Rightarrow> bytes" where
  "b64_decode (w # x # y # z # rest) =
     (b64_value w * 4 + b64_value x div 16) # (b64_value x mod 16 * 16 + b64_value y div 4)
     # (b64_value y mod 4 * 64 + b64_value z) # b64_decode rest"
| "b64_decode [w, x, y] = [b64_value w * 4 + b64_value x div 16, b64_value x mod 16 * 16 + b64_value y div 4]"
| "b64_decode [w, x] = [b64_value w * 4 + b64_value x div 16]"
| "b64_decode _ = []"

definition parse_filename :: "ustr \<Rightarrow> ustr \<times> ustr" where
  "parse_filename f = (b64_decode (takeWhile (\<lambda>c. c \<noteq> 46) f), b64_decode (tl (dropWhile (\<lambda>c. c \<noteq> 46) f)))"

lemma b64_value_char [simp]: "n < 64 \<Longrightarrow> b64_value (b64_char n) = n"
  by (auto simp: b64_value_def b64_char_def)

lemma b64_char_safe: "ascii_alnum (b64_char n) \<or> b64_char n = 45 \<or> b64_char n = 95"
  by (auto simp: b64_char_def ascii_alnum_def)

lemma b64_char_not_padding [simp]: "b64_char n \<noteq> 61"
  by (auto simp: b64_char_def)

text \<open>The encoding without its padding.\<close>

fun unpadded :: "bytes \<Rightarrow> bytes" where
  "unpadded [] = []"
| "unpadded [a] = [b64_char (a div 4), b64_char (a mod 4 * 16)]"
| "unpadded [a, b] = [b64_char (a div 4), b64_char (a mod 4 * 16 + b div 16), b64_char (b mod 16 * 4)]"
| "unpadded (a # b # c # rest) =
     b64_char (a div 4) # b64_char (a mod 4 * 16 + b div 16) # b64_char (b mod 16 * 4 + c div 64)
     # b64_char (c mod 64) # unpadded rest"

lemma digit_bounds:
  fixes a b c :: nat
  shows "a < 256 \<Longrightarrow> a div 4 < 64" "a mod 4 * 16 < 64" "b < 256 \<Longrightarrow> a mod 4 * 16 + b div 16 < 64"
    "b mod 16 * 4 < 64" "c < 256 \<Longrightarrow> b mod 16 * 4 + c div 64 < 64" "c mod 64 < 64"
proof -
  have m: "a mod 4 < 4" "b mod 16 < 16" "c mod 64 < 64" by simp_all
  show "a < 256 \<Longrightarrow> a div 4 < 64" by (simp add: less_mult_imp_div_less)
  show "a mod 4 * 16 < 64" "b mod 16 * 4 < 64" "c mod 64 < 64" using m by linarith+
  show "a mod 4 * 16 + b div 16 < 64" if "b < 256"
    using m(1) less_mult_imp_div_less [of b 16 16] that by linarith
  show "b mod 16 * 4 + c div 64 < 64" if "c < 256"
    using m(2) less_mult_imp_div_less [of c 4 64] that by linarith
qed

lemma regroup:
  fixes x y :: nat
  shows "y < 16 \<Longrightarrow> (x * 16 + y) div 16 = x" "y < 16 \<Longrightarrow> (x * 16 + y) mod 16 = y"
    "y < 4 \<Longrightarrow> (x * 4 + y) div 4 = x" "y < 4 \<Longrightarrow> (x * 4 + y) mod 4 = y"
  by simp_all

lemma high_bits: "b < 256 \<Longrightarrow> b div 16 < 16" "c < 256 \<Longrightarrow> c div 64 < 4" for b c :: nat
  by (simp_all add: less_mult_imp_div_less)

lemma rstrip_equals_id: "s = [] \<or> last s \<noteq> 61 \<Longrightarrow> rstrip_equals s = s"
  by (cases s rule: rev_cases) (auto simp: rstrip_equals_def)

lemma rstrip_equals_pad [simp]: "rstrip_equals (s @ [61]) = rstrip_equals s"
  by (simp add: rstrip_equals_def)

lemma unpadded_last: "s \<noteq> [] \<Longrightarrow> unpadded s \<noteq> [] \<and> last (unpadded s) \<noteq> 61"
proof (induction s rule: unpadded.induct)
  case (4 a b c rest)
  then show ?case by (cases "rest = []") auto
qed auto

lemma urlsafe_unpadded: "\<exists>n. urlsafe_b64encode s = unpadded s @ replicate n 61"
proof (induction s rule: unpadded.induct)
  case 1
  show ?case by (intro exI [of _ 0]) simp
next
  case (2 a)
  show ?case by (intro exI [of _ 2]) (simp add: numeral_2_eq_2)
next
  case (3 a b)
  show ?case by (intro exI [of _ 1]) simp
qed auto

lemma rstrip_equals_replicate: "rstrip_equals (s @ replicate n 61) = rstrip_equals s"
  by (induction n) (simp_all add: replicate_append_same [symmetric] append_assoc [symmetric] del: append_assoc)

lemma encode_component_unpadded: "encode_component s = unpadded s"
proof -
  obtain n where "urlsafe_b64encode s = unpadded s @ replicate n 61" using urlsafe_unpadded by blast
  then have "encode_component s = rstrip_equals (unpadded s)"
    by (simp add: encode_component_def rstrip_equals_replicate)
  also have "\<dots> = unpadded s" using unpadded_last [of s] by (cases "s = []") (auto intro: rstrip_equals_id)
  finally show ?thesis .
qed

lemma unpadded_decode: "list_all (\<lambda>a. a < 256) s \<Longrightarrow> b64_decode (unpadded s) = s"
  by (induction s rule: unpadded.induct) (simp_all add: digit_bounds regroup high_bits)

lemma unpadded_safe:
  "c \<in> set (unpadded s) \<Longrightarrow> ascii_alnum c \<or> c = 45 \<or> c = 95"
  by (induction s rule: unpadded.induct) (use b64_char_safe in auto)

lemma reference_bytes: "secret_reference_ok s \<Longrightarrow> list_all (\<lambda>a. a < 256) s"
  by (cases s) (auto simp: secret_reference_ok_def ascii_alnum_def list_all_iff)

text \<open>A secret's file name determines its reference and version, and stays inside the mount: both are
  read back from the name, so that no two pairs share a file; the name is at most 255 bytes of
  letters, digits, hyphens, underscores and the one dot, neither starts nor ends with the dot, and in
  particular is no path with separators and not a directory entry like \<open>..\<close>.\<close>

theorem secret_filename_roundtrip:
  assumes "filename_for external_reference version = Inr filename"
  shows "parse_filename filename = (external_reference, version) \<and> length filename \<le> 255
    \<and> hd filename \<noteq> 46 \<and> last filename \<noteq> 46 \<and> length (filter (\<lambda>c. c = 46) filename) = 1
    \<and> (\<forall>c \<in> set filename. ascii_alnum c \<or> c = 45 \<or> c = 95 \<or> c = 46)"
proof -
  have ok: "secret_reference_ok external_reference" "secret_reference_ok version"
    and f: "filename = unpadded external_reference @ 46 # unpadded version" "length filename \<le> 255"
    using assms by (auto simp: filename_for_def Let_def encode_component_unpadded split: if_splits)
  have ne: "unpadded external_reference \<noteq> []" "unpadded version \<noteq> []"
    using ok unpadded_last by (auto simp: secret_reference_ok_def)
  have dot: "c \<noteq> 46" if "c \<in> set (unpadded s)" for c s
    using unpadded_safe [OF that] by (auto simp: ascii_alnum_def)
  then have "takeWhile (\<lambda>c. c \<noteq> 46) filename = unpadded external_reference"
    "dropWhile (\<lambda>c. c \<noteq> 46) filename = 46 # unpadded version"
    using f(1) by (simp_all add: takeWhile_tail dropWhile_append3 takeWhile_append2 dropWhile_append2)
  then have "parse_filename filename = (external_reference, version)"
    using unpadded_decode [OF reference_bytes] ok by (simp add: parse_filename_def)
  moreover have "hd filename \<noteq> 46" "last filename \<noteq> 46"
    using f(1) ne dot [OF hd_in_set [OF ne(1)]] dot [OF last_in_set [OF ne(2)]] by simp_all
  moreover have "filter (\<lambda>c. c = 46) (unpadded s) = []" for s using dot by (auto simp: filter_empty_conv)
  then have "length (filter (\<lambda>c. c = 46) filename) = 1" using f(1) by simp
  ultimately show ?thesis using f unpadded_safe by auto
qed

theorem secret_filename_roundtrip_witness:
  "filename_for (ustr_of ''db'') (ustr_of ''v1'') = Inr (ustr_of ''ZGI.djE'')
     \<and> parse_filename (ustr_of ''ZGI.djE'') = (ustr_of ''db'', ustr_of ''v1'')"
proof -
  have "filename_for (ustr_of ''db'') (ustr_of ''v1'') = Inr (ustr_of ''ZGI.djE'')" by code_simp
  then show ?thesis using secret_filename_roundtrip by blast
qed

end
