(* ===== verification/Secrets.thy ===== *)
theory Secrets
  imports Secret_Names Reg_Connections
begin

text \<open>
  Secret providers and bindings (\<^verbatim>\<open>secrets/provider.py\<close>, \<^verbatim>\<open>secrets/service.py\<close>). The file system is an
  argument: what opening a name beneath a mount root gives, and the pieces that reading it delivers.
\<close>

section \<open>Leases\<close>

record SecretReference =
  sr_provider :: ustr
  sr_external_reference :: ustr
  sr_version :: ustr

definition secret_lease :: "bytes \<Rightarrow> svc_error + bytes" where
  "secret_lease value = (if value = [] then Inl SecretProviderError else Inr value)"

text \<open>\<open>__exit__\<close>: every position of the buffer is overwritten, one index after the other.\<close>

definition lease_exit :: "bytes \<Rightarrow> bytes" where
  "lease_exit value = fold (\<lambda>i v. v[i := 0]) [0..<length value] value"

section \<open>Providers\<close>

text \<open>An open file: whether it is regular, its size, and what each \<open>read\<close> would deliver; \<open>None\<close> is an
  \<open>OSError\<close> of that read.\<close>

record secret_file =
  sf_regular :: bool
  sf_size :: int
  sf_pieces :: "bytes option list"

type_synonym file_system = "ustr \<Rightarrow> ustr \<Rightarrow> secret_file option"

datatype secret_provider =
    Mounted ustr int
  | Fixture "((ustr \<times> ustr) \<times> bytes) list" "(ustr \<times> int) option"

text \<open>\<open>resolve_directory\<close> gives the resolved path of a directory. A path that does not exist (an \<open>OSError\<close>
  in the source) and one that is no directory (a \<open>ValueError\<close>) are both refused.\<close>

definition mounted_provider :: "(ustr \<Rightarrow> ustr option) \<Rightarrow> ustr \<Rightarrow> int \<Rightarrow> svc_error + secret_provider" where
  "mounted_provider resolve_directory mount max_bytes =
     (if max_bytes \<le> 0 then Inl ValueError
      else (case resolve_directory mount of
              None \<Rightarrow> Inl ValueError
            | Some resolved \<Rightarrow> Inr (Mounted resolved max_bytes)))"

text \<open>The read loop: \<open>read(descriptor, remaining)\<close> never delivers more than it was asked for.\<close>

fun read_all :: "int \<Rightarrow> bytes option list \<Rightarrow> bytes option" where
  "read_all remaining [] = Some []"
| "read_all remaining (None # rest) = (if remaining \<le> 0 then Some [] else None)"
| "read_all remaining (Some piece # rest) =
     (if remaining \<le> 0 then Some []
      else
        (let chunk = take (nat remaining) piece
         in if chunk = [] then Some []
            else map_option ((@) chunk) (read_all (remaining - int (length chunk)) rest)))"

definition mounted_retrieve :: "file_system \<Rightarrow> ustr \<Rightarrow> int \<Rightarrow> SecretReference \<Rightarrow> svc_error + bytes" where
  "mounted_retrieve fs mount max_bytes reference =
     (if sr_provider reference \<noteq> ustr_of ''mounted_file'' then Inl SecretProviderError
      else
        and_then (filename_for (sr_external_reference reference) (sr_version reference)) (\<lambda>filename.
          (case fs mount filename of
             None \<Rightarrow> Inl SecretProviderError
           | Some file \<Rightarrow>
               if \<not> sf_regular file \<or> sf_size file > max_bytes then Inl SecretProviderError
               else
                 (case read_all (max_bytes + 1) (sf_pieces file) of
                    None \<Rightarrow> Inl SecretProviderError
                  | Some value \<Rightarrow>
                      if int (length value) > max_bytes then Inl SecretProviderError
                      else secret_lease value))))"

definition retrieve :: "file_system \<Rightarrow> secret_provider \<Rightarrow> SecretReference \<Rightarrow> svc_error + bytes" where
  "retrieve fs provider reference =
     (case provider of
        Mounted mount max_bytes \<Rightarrow> mounted_retrieve fs mount max_bytes reference
      | Fixture values mounted \<Rightarrow>
          if sr_provider reference \<noteq> ustr_of ''fixture'' then Inl SecretProviderError
          else
            (case map_of values (sr_external_reference reference, sr_version reference) of
               Some value \<Rightarrow> secret_lease value
             | None \<Rightarrow>
                 (case mounted of
                    None \<Rightarrow> Inl SecretProviderError
                  | Some (mount, max_bytes) \<Rightarrow>
                      mounted_retrieve fs mount max_bytes
                        (reference\<lparr>sr_provider := ustr_of ''mounted_file''\<rparr>))))"

record secret_settings =
  set_environment :: ustr
  set_secret_provider :: ustr
  set_secret_mount_root :: ustr
  set_fixture_secret_root :: "ustr option"

definition default_max_bytes :: int where
  "default_max_bytes = 65536"

definition build_secret_provider ::
  "(ustr \<Rightarrow> ustr option) \<Rightarrow> secret_settings \<Rightarrow> ((ustr \<times> ustr) \<times> bytes) list \<Rightarrow> svc_error + secret_provider" where
  "build_secret_provider resolve_directory settings fixture_values =
     (if set_secret_provider settings = ustr_of ''mounted_file''
      then mounted_provider resolve_directory (set_secret_mount_root settings) default_max_bytes
      else if \<not> local_or_test (set_environment settings) then Inl ValueError
      else
        (case set_fixture_secret_root settings of
           None \<Rightarrow> Inr (Fixture fixture_values None)
         | Some mount \<Rightarrow>
             (case mounted_provider resolve_directory mount default_max_bytes of
                Inr (Mounted resolved max_bytes) \<Rightarrow> Inr (Fixture fixture_values (Some (resolved, max_bytes)))
              | _ \<Rightarrow> Inl ValueError)))"

section \<open>Bindings\<close>

definition known_provider :: "ustr \<Rightarrow> bool" where
  "known_provider p \<longleftrightarrow> p = ustr_of ''fixture'' \<or> p = ustr_of ''mounted_file''"

definition validate_secret_reference :: "SecretReference \<Rightarrow> svc_error + unit" where
  "validate_secret_reference reference =
     (if known_provider (sr_provider reference)
      then and_then (filename_for (sr_external_reference reference) (sr_version reference)) (\<lambda>_. Inr ())
      else Inl SecretProviderError)"

definition secret_binding_service :: "ustr \<Rightarrow> svc_error + ustr" where
  "secret_binding_service active_provider =
     (if known_provider active_provider then Inr active_provider else Inl ValueError)"

text \<open>The constraints of the table a new binding has to satisfy.\<close>

definition binding_insert_ok :: "SecretBinding \<Rightarrow> db \<Rightarrow> bool" where
  "binding_insert_ok b d \<longleftrightarrow> known_provider (sb_provider b)
     \<and> list_all (\<lambda>x. sb_id x \<noteq> sb_id b
          \<and> (sb_workspace_id x, sb_provider x, sb_external_reference x, sb_version x)
             \<noteq> (sb_workspace_id b, sb_provider b, sb_external_reference b, sb_version b)) (secret_bindings d)"

definition create_binding ::
  "ustr \<Rightarrow> WorkspaceContext \<Rightarrow> SecretReference \<Rightarrow> uuid option \<Rightarrow> uuid \<Rightarrow> uuid \<Rightarrow> db
     \<Rightarrow> svc_error + SecretBinding \<times> db" where
  "create_binding active_provider ctx reference correlation_id fresh audit_fresh d =
     and_then (require_current_role ctx [ADMIN] True d) (\<lambda>_.
       if sr_provider reference \<noteq> active_provider then Inl SecretProviderError
       else
         and_then (validate_secret_reference reference) (\<lambda>_.
           (let binding = \<lparr>sb_id = fresh, sb_workspace_id = ctx_workspace_id ctx,
                  sb_provider = sr_provider reference,
                  sb_external_reference = sr_external_reference reference, sb_version = sr_version reference,
                  sb_created_by_user_id = ctx_actor_user_id ctx\<rparr>
            in if \<not> binding_insert_ok binding d then Inl IntegrityError
               else Inr (binding,
                 add_audit (audit_succeeded (ctx_workspace_id ctx) (ctx_actor_user_id ctx) SECRET_BINDING_CREATED
                   SECRET_BINDING fresh (correlation_or correlation_id audit_fresh))
                   (d\<lparr>secret_bindings := secret_bindings d @ [binding]\<rparr>)))))"

section \<open>Properties\<close>

lemma read_all_bounded: "0 \<le> remaining \<Longrightarrow> read_all remaining pieces = Some v \<Longrightarrow> int (length v) \<le> remaining"
proof (induction remaining pieces arbitrary: v rule: read_all.induct)
  case (3 remaining piece rest)
  let ?chunk = "take (nat remaining) piece"
  show ?case
  proof (cases "remaining \<le> 0 \<or> ?chunk = []")
    case True
    then show ?thesis using "3.prems" by (auto split: if_splits)
  next
    case False
    then obtain w where w: "read_all (remaining - int (length ?chunk)) rest = Some w" "v = ?chunk @ w"
      using "3.prems"(2) by (auto simp: Let_def)
    have "0 \<le> remaining - int (length ?chunk)" using False by (auto simp: min_def)
    from "3.IH" [OF _ refl _ this w(1)] show ?thesis using False w(2) by simp
  qed
qed (auto split: if_splits)

lemma secret_lease_Inr: "secret_lease v = Inr w \<longleftrightarrow> w = v \<and> v \<noteq> []"
  by (auto simp: secret_lease_def)

lemma mounted_retrieve_Inr:
  assumes "mounted_retrieve fs mount max_bytes reference = Inr v"
  shows "v \<noteq> [] \<and> int (length v) \<le> max_bytes
    \<and> (\<exists>filename file. filename_for (sr_external_reference reference) (sr_version reference) = Inr filename
         \<and> fs mount filename = Some file \<and> sf_regular file \<and> sf_size file \<le> max_bytes)"
proof -
  obtain filename where f: "filename_for (sr_external_reference reference) (sr_version reference) = Inr filename"
    using assms by (cases "filename_for (sr_external_reference reference) (sr_version reference)")
      (auto simp: mounted_retrieve_def and_then_simps split: if_splits)
  obtain opened where "fs mount filename = Some opened"
    using assms f by (cases "fs mount filename") (auto simp: mounted_retrieve_def and_then_simps split: if_splits)
  then show ?thesis
    using assms f
    by (auto simp: mounted_retrieve_def and_then_simps secret_lease_Inr split: if_splits option.splits)
qed

lemma lease_exit_prefix: "n \<le> length v \<Longrightarrow> fold (\<lambda>i v. v[i := 0]) [0..<n] v = replicate n 0 @ drop n v"
proof (induction n)
  case (Suc n)
  then have "drop n v = v ! n # drop (Suc n) v" by (simp add: Cons_nth_drop_Suc)
  then show ?case using Suc by (simp add: list_update_append replicate_append_same [symmetric])
qed simp

text \<open>C36. A secret that is retrieved is never empty, and its buffer is all zero once the lease is left.
  In a deployed environment it never comes from a fixture: it was read from a regular file directly
  beneath the mount, under the name of its reference, and is at most 64 KiB.\<close>

theorem retrieved_secret_is_bounded:
  assumes "build_secret_provider resolve_directory settings fixtures = Inr provider" "retrieve fs provider reference = Inr value"
  shows "value \<noteq> [] \<and> lease_exit value = replicate (length value) 0
    \<and> (\<not> local_or_test (set_environment settings) \<longrightarrow> int (length value) \<le> 65536
         \<and> (\<exists>filename file. filename_for (sr_external_reference reference) (sr_version reference) = Inr filename
              \<and> fs (the (resolve_directory (set_secret_mount_root settings))) filename = Some file \<and> sf_regular file))"
proof -
  have zero: "lease_exit value = replicate (length value) 0"
    using lease_exit_prefix [of "length value" "value"] by (simp add: lease_exit_def)
  note mounted = mounted_retrieve_Inr [of fs _ default_max_bytes]
  show ?thesis
  proof (cases provider)
    case (Mounted mount max_bytes)
    then have eq: "resolve_directory (set_secret_mount_root settings) = Some mount" "max_bytes = default_max_bytes"
      using assms(1)
      by (auto simp: build_secret_provider_def mounted_provider_def split: if_splits option.splits)
    have "mounted_retrieve fs mount default_max_bytes reference = Inr value"
      using assms(2) Mounted eq by (simp add: retrieve_def)
    from mounted [OF this] show ?thesis using zero eq by (auto simp: default_max_bytes_def)
  next
    case (Fixture fixture_map mounted_option)
    then have env: "local_or_test (set_environment settings)"
      "\<And>m b. mounted_option = Some (m, b) \<Longrightarrow> b = default_max_bytes"
      using assms(1)
      by (auto simp: build_secret_provider_def mounted_provider_def split: if_splits option.splits)
    have "value \<noteq> []"
      using assms(2) Fixture env(2) mounted
      by (fastforce simp: retrieve_def secret_lease_Inr split: if_splits option.splits)
    then show ?thesis using zero env(1) by simp
  qed
qed

definition demo_fs :: file_system where
  "demo_fs m f = (if m = [47] \<and> f = ustr_of ''ZGI.djE''
     then Some \<lparr>sf_regular = True, sf_size = 3, sf_pieces = [Some [1, 2], Some [3], Some []]\<rparr> else None)"

definition demo_settings :: secret_settings where
  "demo_settings = \<lparr>set_environment = ustr_of ''production'', set_secret_provider = ustr_of ''mounted_file'',
     set_secret_mount_root = [47], set_fixture_secret_root = None\<rparr>"

definition demo_reference :: SecretReference where
  "demo_reference = \<lparr>sr_provider = ustr_of ''mounted_file'', sr_external_reference = ustr_of ''db'',
     sr_version = ustr_of ''v1''\<rparr>"

lemma demo_built: "build_secret_provider Some demo_settings [] = Inr (Mounted [47] 65536)"
  by code_simp

lemma demo_retrieved: "retrieve demo_fs (Mounted [47] 65536) demo_reference = Inr [1, 2, 3]"
proof -
  have "filename_for (ustr_of ''db'') (ustr_of ''v1'') = Inr (ustr_of ''ZGI.djE'')" by code_simp
  then show ?thesis
    by (simp add: retrieve_def mounted_retrieve_def demo_reference_def demo_fs_def secret_lease_def and_then_simps)
qed

theorem retrieved_secret_is_bounded_witness:
  "lease_exit [1, 2, 3] = [0, 0, 0] \<and> int (length [1, 2, 3 :: nat]) \<le> 65536"
  using retrieved_secret_is_bounded [OF demo_built demo_retrieved] by (simp add: numeral_3_eq_3)

text \<open>Every binding is of a known provider, its reference has a file name, and no two bindings of a
  workspace are of the same version of the same secret.\<close>

definition bindings_ok :: "db \<Rightarrow> bool" where
  "bindings_ok d \<longleftrightarrow> distinct (map sb_id (secret_bindings d))
     \<and> distinct (map (\<lambda>b. (sb_workspace_id b, sb_provider b, sb_external_reference b, sb_version b)) (secret_bindings d))
     \<and> (\<forall>b \<in> set (secret_bindings d). known_provider (sb_provider b)
          \<and> (\<exists>f. filename_for (sb_external_reference b) (sb_version b) = Inr f))"

text \<open>Creating a binding keeps the bindings valid and unique, is done by a current administrator of
  the workspace only, adds exactly the binding of the requested reference and records exactly one
  audit event for it.\<close>

theorem binding_creation_keeps_bindings_valid:
  assumes "bindings_ok d"
    and "create_binding active_provider ctx reference correlation_id fresh audit_fresh d = Inr (binding, d')"
  shows "bindings_ok d' \<and> secret_bindings d' = secret_bindings d @ [binding]
    \<and> sb_workspace_id binding = ctx_workspace_id ctx \<and> sb_provider binding = active_provider
    \<and> sb_external_reference binding = sr_external_reference reference \<and> sb_version binding = sr_version reference
    \<and> (\<exists>m. membership_of d (ctx_workspace_id ctx) (ctx_actor_user_id ctx) = Some m \<and> mem_role m = ADMIN)
    \<and> (\<exists>e. audit_events d' = audit_events d @ [e] \<and> aud_action e = SECRET_BINDING_CREATED
         \<and> aud_resource_id e = sb_id binding \<and> aud_workspace_id e = ctx_workspace_id ctx)"
proof -
  obtain m where role: "membership_of d (ctx_workspace_id ctx) (ctx_actor_user_id ctx) = Some m" "mem_role m = ADMIN"
    and ref: "sr_provider reference = active_provider" "validate_secret_reference reference = Inr ()"
    and b: "binding = \<lparr>sb_id = fresh, sb_workspace_id = ctx_workspace_id ctx, sb_provider = sr_provider reference,
        sb_external_reference = sr_external_reference reference, sb_version = sr_version reference,
        sb_created_by_user_id = ctx_actor_user_id ctx\<rparr>" "binding_insert_ok binding d"
    and d': "d' = add_audit (audit_succeeded (ctx_workspace_id ctx) (ctx_actor_user_id ctx) SECRET_BINDING_CREATED
        SECRET_BINDING fresh (correlation_or correlation_id audit_fresh))
        (d\<lparr>secret_bindings := secret_bindings d @ [binding]\<rparr>)"
    using assms(2)
    by (auto simp: create_binding_def and_then_Inr require_current_role_Inr Let_def split: if_splits)
  have "bindings_ok d'"
    using assms(1) b ref d'
    by (auto simp: bindings_ok_def binding_insert_ok_def add_audit_def validate_secret_reference_def
        and_then_Inr list_all_iff split: if_splits)
  then show ?thesis using role b d' ref(1) by (auto simp: add_audit_def audit_succeeded_def)
qed

definition demo_admin_db :: db where
  "demo_admin_db = empty_db\<lparr>workspaces := [\<lparr>ws_id = 1, ws_name = [119]\<rparr>],
     memberships := [\<lparr>mem_workspace_id = 1, mem_user_id = 2, mem_role = ADMIN\<rparr>]\<rparr>"

lemma demo_bound:
  "map_sum id (\<lambda>(b, d). sb_id b) (create_binding (ustr_of ''mounted_file'')
     \<lparr>ctx_workspace_id = 1, ctx_actor_user_id = 2, ctx_role = ADMIN\<rparr> demo_reference None 7 8 demo_admin_db) = Inr 7"
  by code_simp

theorem binding_creation_keeps_bindings_valid_witness:
  "\<exists>b d'. create_binding (ustr_of ''mounted_file'') \<lparr>ctx_workspace_id = 1, ctx_actor_user_id = 2, ctx_role = ADMIN\<rparr>
     demo_reference None 7 8 demo_admin_db = Inr (b, d') \<and> secret_bindings d' = [b] \<and> bindings_ok d'"
proof -
  let ?run = "create_binding (ustr_of ''mounted_file'') \<lparr>ctx_workspace_id = 1, ctx_actor_user_id = 2, ctx_role = ADMIN\<rparr>
     demo_reference None 7 8 demo_admin_db"
  obtain b d' where run: "?run = Inr (b, d')" using demo_bound by (cases ?run) auto
  have none: "secret_bindings demo_admin_db = []" by (simp add: demo_admin_db_def empty_db_def)
  then have "bindings_ok demo_admin_db" by (simp add: bindings_ok_def)
  from binding_creation_keeps_bindings_valid [OF this run] show ?thesis using run none by simp
qed

end
