(* ===== verification/Catalog_Pages.thy ===== *)
theory Catalog_Pages
  imports Upstream_Screen
begin

text \<open>
  The adapter of the official MCP Registry (\<^verbatim>\<open>registry/official.py\<close>): limits, scanning of queries and
  metadata, normalization of items, and the paged search. The network is an argument, page by page;
  so is the outcome of the process that runs a scanner. The JSON decoder and SHA-256 are parameters.
\<close>

section \<open>Limits, items, errors\<close>

datatype OfficialRegistryFailureCode = INVALID_QUERY | UNSAFE_QUERY | SCANNER_FAILED | TIMEOUT
  | UPSTREAM_UNAVAILABLE | RESPONSE_LIMIT | INVALID_RESPONSE | UNSAFE_METADATA | CACHE_MISS
  | PERSISTENCE_FAILURE

record OfficialRegistryLimits =
  max_query_characters :: int
  max_pages :: int
  max_items :: int
  max_response_bytes :: int
  max_workspace_cache_rows :: int
  max_workspace_cache_bytes :: int
  max_cursor_characters :: int
  total_timeout_seconds :: pyfloat
  cache_ttl :: duration

definition official_limits :: OfficialRegistryLimits where
  "official_limits = \<lparr>max_query_characters = 256, max_pages = 5, max_items = 100,
     max_response_bytes = 262144, max_workspace_cache_rows = 100, max_workspace_cache_bytes = 4194304,
     max_cursor_characters = 1024, total_timeout_seconds = Fin 5, cache_ttl = seconds 3600\<rparr>"

text \<open>\<open>__post_init__\<close>; the timeout has to be finite and positive.\<close>

definition limits_accepted :: "OfficialRegistryLimits \<Rightarrow> bool" where
  "limits_accepted l \<longleftrightarrow> \<not> (max_query_characters l \<le> 0 \<or> max_pages l \<le> 0 \<or> max_items l \<le> 0
     \<or> max_response_bytes l \<le> 0 \<or> max_workspace_cache_rows l \<le> 0
     \<or> max_workspace_cache_bytes l < max_response_bytes l \<or> max_cursor_characters l \<le> 0
     \<or> \<not> (case total_timeout_seconds l of Fin q \<Rightarrow> 0 < q | _ \<Rightarrow> False)
     \<or> cache_ttl l \<le> 0 \<or> cache_ttl l > seconds 3600)"

record OfficialRegistryItem =
  it_external_id :: ustr
  it_source_version :: ustr
  it_name :: ustr
  it_description :: "ustr option"
  it_advertised_urls :: "ustr list"
  it_provenance_digest :: string
  it_normalized_metadata :: json

record catalog_externals = screen_externals +
  registry_parse :: "bytes \<Rightarrow> json option"
  sha256 :: "bytes \<Rightarrow> string"

type_synonym 'a official = "OfficialRegistryFailureCode + 'a"

section \<open>Canonical JSON\<close>

definition official_canonical :: "catalog_externals \<Rightarrow> json \<Rightarrow> bytes official" where
  "official_canonical ext v =
     (case canonical_json (meta_float_repr ext) v of None \<Rightarrow> Inl INVALID_RESPONSE | Some b \<Rightarrow> Inr b)"

definition official_digest :: "catalog_externals \<Rightarrow> json \<Rightarrow> string official" where
  "official_digest ext v = and_then (official_canonical ext v) (\<lambda>b. Inr (sha256 ext b))"

text \<open>\<open>_decode_registry_json\<close>: the decoder gives the members of every object in the order of the text; the
  hooks refuse an object that repeats a member and a number that is not finite.\<close>

fun decode_hooks_accept :: "json \<Rightarrow> bool" where
  "decode_hooks_accept (JDict ms) \<longleftrightarrow> distinct (map fst ms) \<and> list_all (\<lambda>m. decode_hooks_accept (snd m)) ms"
| "decode_hooks_accept (JList xs) \<longleftrightarrow> list_all decode_hooks_accept xs"
| "decode_hooks_accept (JFloat x) \<longleftrightarrow> float_finite x"
| "decode_hooks_accept _ \<longleftrightarrow> True"

definition decode_registry_json :: "catalog_externals \<Rightarrow> bytes \<Rightarrow> json option" where
  "decode_registry_json ext body =
     (case registry_parse ext body of
        None \<Rightarrow> None | Some v \<Rightarrow> if decode_hooks_accept v then Some v else None)"

section \<open>Scanners\<close>

text \<open>\<open>_decoded\<close>: at most eight rounds of percent-decoding; \<open>None\<close> is an exception.\<close>

primrec decoded_rounds :: "catalog_externals \<Rightarrow> nat \<Rightarrow> ustr \<Rightarrow> ustr option" where
  "decoded_rounds ext 0 v = None"
| "decoded_rounds ext (Suc n) v =
     (case unquote_strict ext v of
        None \<Rightarrow> None
      | Some next_value \<Rightarrow> if next_value = v then Some v else decoded_rounds ext n next_value)"

definition percent_decoded :: "catalog_externals \<Rightarrow> ustr \<Rightarrow> ustr option" where
  "percent_decoded ext v = decoded_rounds ext 8 v"

function decoded_metadata :: "catalog_externals \<Rightarrow> json \<Rightarrow> json option" where
  "decoded_metadata ext (JDict ms) =
     Option.bind (all_some (map (\<lambda>(k, v). Option.bind (percent_decoded ext k) (\<lambda>k'.
         map_option (Pair k') (decoded_metadata ext v))) ms)) (\<lambda>ms'.
       if distinct (map fst ms') then Some (JDict ms') else None)"
| "decoded_metadata ext (JList xs) = map_option JList (all_some (map (decoded_metadata ext) xs))"
| "decoded_metadata ext (JStr s) = map_option JStr (percent_decoded ext s)"
| "decoded_metadata ext JNull = Some JNull"
| "decoded_metadata ext (JBool b) = Some (JBool b)"
| "decoded_metadata ext (JInt i) = Some (JInt i)"
| "decoded_metadata ext (JFloat x) = Some (JFloat x)"
  by pat_completeness auto
termination
  by (relation "measure (size \<circ> snd)") (auto dest: size_member size_list_estimation' [OF _ order_refl]
      intro: le_imp_less_Suc)

text \<open>The texts on the stack of \<open>_default_metadata_scanner\<close>: keys and values of objects, elements of
  lists.\<close>

fun json_texts :: "json \<Rightarrow> ustr list" where
  "json_texts (JStr s) = [s]"
| "json_texts (JList xs) = concat (map json_texts xs)"
| "json_texts (JDict ms) = map fst ms @ concat (map (\<lambda>m. json_texts (snd m)) ms)"
| "json_texts _ = []"

definition default_metadata_scanner :: "catalog_externals \<Rightarrow> json \<Rightarrow> bool option" where
  "default_metadata_scanner ext v =
     Option.bind (decoded_metadata ext v) (\<lambda>decoded_value.
       Some (contains_sensitive_json ext decoded_value
             \<or> list_ex (\<lambda>t. contains_obvious_secret ext t \<or> contains_sensitive_url ext t)
                 (json_texts decoded_value)))"

text \<open>What became of the scanner process: its answer, a failure, or no answer in time.\<close>

datatype scan_outcome = Scanned bool | ScanBroken | ScanTimedOut

type_synonym scanner = "json \<Rightarrow> scan_outcome"

definition scanner_process :: "(json \<Rightarrow> bool option) \<Rightarrow> scanner" where
  "scanner_process f v = (case f v of Some b \<Rightarrow> Scanned b | None \<Rightarrow> ScanBroken)"

definition run_scanner :: "scanner \<Rightarrow> json \<Rightarrow> OfficialRegistryFailureCode \<Rightarrow> bool official" where
  "run_scanner scan v timeout_code =
     (case scan v of Scanned b \<Rightarrow> Inr b | ScanBroken \<Rightarrow> Inl SCANNER_FAILED | ScanTimedOut \<Rightarrow> Inl timeout_code)"

definition control_char :: "nat \<Rightarrow> bool" where
  "control_char c \<longleftrightarrow> c < 32 \<or> c = 127"

definition screen_query :: "OfficialRegistryLimits \<Rightarrow> scanner \<Rightarrow> ustr \<Rightarrow> ustr official" where
  "screen_query limits scan query =
     (if ustr_strip query = [] \<or> int (length query) > max_query_characters limits
         \<or> list_ex control_char query then Inl INVALID_QUERY
      else if utf8 (ustr_strip query) = None then Inl INVALID_QUERY
      else
        and_then (run_scanner scan (JStr (ustr_strip query)) SCANNER_FAILED) (\<lambda>unsafe.
          if unsafe then Inl UNSAFE_QUERY else Inr (ustr_strip query)))"

definition screen_metadata :: "scanner \<Rightarrow> json \<Rightarrow> unit official" where
  "screen_metadata scan v =
     and_then (run_scanner scan v TIMEOUT) (\<lambda>unsafe. if unsafe then Inl UNSAFE_METADATA else Inr ())"

section \<open>Items\<close>

definition required_string :: "json option \<Rightarrow> nat \<Rightarrow> ustr official" where
  "required_string v maximum =
     (case v of
        Some (JStr s) \<Rightarrow>
          if ustr_strip s = [] \<or> length s > maximum \<or> 0 \<in> set s \<or> utf8 s = None
          then Inl INVALID_RESPONSE else Inr (ustr_strip s)
      | _ \<Rightarrow> Inl INVALID_RESPONSE)"

text \<open>A member that is absent or \<open>null\<close> reads as \<open>None\<close> through \<open>get\<close>.\<close>

definition optional_string :: "json option \<Rightarrow> nat \<Rightarrow> ustr option official" where
  "optional_string v maximum =
     (case v of None \<Rightarrow> Inr None | Some JNull \<Rightarrow> Inr None
      | Some w \<Rightarrow> and_then (required_string (Some w) maximum) (\<lambda>s. Inr (Some s)))"

fun remote_urls :: "json list \<Rightarrow> ustr list official" where
  "remote_urls [] = Inr []"
| "remote_urls (remote # rest) =
     (case remote of
        JDict ms \<Rightarrow>
          and_then (optional_string (json_member ''url'' ms) 2048) (\<lambda>url.
          and_then (remote_urls rest) (\<lambda>urls. Inr ((case url of None \<Rightarrow> [] | Some u \<Rightarrow> [u]) @ urls)))
      | _ \<Rightarrow> Inl INVALID_RESPONSE)"

definition advertised_urls :: "(ustr \<times> json) list \<Rightarrow> ustr list official" where
  "advertised_urls server =
     and_then (optional_string (json_member ''websiteUrl'' server) 2048) (\<lambda>website.
       (case (case json_member ''remotes'' server of None \<Rightarrow> JList [] | Some r \<Rightarrow> r) of
          JList remotes \<Rightarrow>
            and_then (remote_urls remotes) (\<lambda>urls. Inr ((case website of None \<Rightarrow> [] | Some w \<Rightarrow> [w]) @ urls))
        | _ \<Rightarrow> Inl INVALID_RESPONSE))"

definition item_identity :: "OfficialRegistryItem \<Rightarrow> ustr \<times> ustr" where
  "item_identity it = (it_external_id it, it_source_version it)"

text \<open>One turn of the loop of \<open>_normalize_items\<close>, with the identities seen before.\<close>

definition normalize_item ::
  "catalog_externals \<Rightarrow> (ustr \<times> ustr) set \<Rightarrow> json \<Rightarrow> OfficialRegistryItem official" where
  "normalize_item ext identities v =
     (case v of
        JDict ms \<Rightarrow>
          (case json_member ''server'' ms of
             Some (JDict server) \<Rightarrow>
               and_then (required_string (json_member ''name'' server) 256) (\<lambda>external_id.
               and_then (required_string (json_member ''version'' server) 128) (\<lambda>source_version.
                 if (external_id, source_version) \<in> identities then Inl INVALID_RESPONSE
                 else
                   and_then (required_string (case json_member ''title'' server of
                       None \<Rightarrow> Some (JStr external_id) | t \<Rightarrow> t) 256) (\<lambda>name.
                   and_then (optional_string (json_member ''description'' server) 2048) (\<lambda>description.
                   and_then (advertised_urls server) (\<lambda>urls.
                   and_then (official_canonical ext v) (\<lambda>_.
                   and_then (official_digest ext (normalized_json v)) (\<lambda>digest.
                     Inr \<lparr>it_external_id = external_id, it_source_version = source_version, it_name = name,
                          it_description = description, it_advertised_urls = urls,
                          it_provenance_digest = digest, it_normalized_metadata = normalized_json v\<rparr>)))))))
           | _ \<Rightarrow> Inl INVALID_RESPONSE)
      | _ \<Rightarrow> Inl INVALID_RESPONSE)"

fun normalize_items ::
  "catalog_externals \<Rightarrow> (ustr \<times> ustr) set \<Rightarrow> json list \<Rightarrow> OfficialRegistryItem list official" where
  "normalize_items ext identities [] = Inr []"
| "normalize_items ext identities (v # vs) =
     and_then (normalize_item ext identities v) (\<lambda>it.
     and_then (normalize_items ext (insert (item_identity it) identities) vs) (\<lambda>rest. Inr (it # rest)))"

definition parse_cached_items ::
  "catalog_externals \<Rightarrow> OfficialRegistryLimits \<Rightarrow> scanner \<Rightarrow> json \<Rightarrow> OfficialRegistryItem list official" where
  "parse_cached_items ext limits scan v =
     (case v of
        JList vs \<Rightarrow>
          if int (length vs) > max_items limits then Inl INVALID_RESPONSE
          else if \<not> validate_bounded_json v then Inl RESPONSE_LIMIT
          else and_then (screen_metadata scan v) (\<lambda>_. normalize_items ext {} vs)
      | _ \<Rightarrow> Inl INVALID_RESPONSE)"

section \<open>Pages\<close>

definition cursor_ok :: "OfficialRegistryLimits \<Rightarrow> ustr \<Rightarrow> bool" where
  "cursor_ok limits c \<longleftrightarrow> c \<noteq> [] \<and> int (length c) \<le> max_cursor_characters limits
     \<and> \<not> list_ex control_char c \<and> utf8 c \<noteq> None"

definition parse_page ::
  "catalog_externals \<Rightarrow> OfficialRegistryLimits \<Rightarrow> scanner \<Rightarrow> bytes
     \<Rightarrow> (OfficialRegistryItem list \<times> ustr option) official" where
  "parse_page ext limits scan body =
     (case decode_registry_json ext body of
        None \<Rightarrow> Inl INVALID_RESPONSE
      | Some payload \<Rightarrow>
          if \<not> validate_bounded_json payload then Inl RESPONSE_LIMIT
          else
            and_then (screen_metadata scan payload) (\<lambda>_.
              (case payload of
                 JDict ms \<Rightarrow>
                   if \<not> set (map fst ms) \<subseteq> {ustr_of ''servers'', ustr_of ''metadata''} then Inl INVALID_RESPONSE
                   else
                     (case (json_member ''servers'' ms, json_member ''metadata'' ms) of
                        (Some (JList servers), Some (JDict metadata)) \<Rightarrow>
                          if json_member ''count'' metadata \<noteq> Some (JInt (int (length servers)))
                          then Inl INVALID_RESPONSE
                          else
                            (case json_member ''nextCursor'' metadata of
                               Some (JStr c) \<Rightarrow>
                                 if \<not> cursor_ok limits c then Inl INVALID_RESPONSE
                                 else and_then (normalize_items ext {} servers) (\<lambda>page. Inr (page, Some c))
                             | None \<Rightarrow> and_then (normalize_items ext {} servers) (\<lambda>page. Inr (page, None))
                             | Some JNull \<Rightarrow> and_then (normalize_items ext {} servers) (\<lambda>page. Inr (page, None))
                             | Some _ \<Rightarrow> Inl INVALID_RESPONSE)
                      | _ \<Rightarrow> Inl INVALID_RESPONSE)
               | _ \<Rightarrow> Inl INVALID_RESPONSE)))"

text \<open>What one request gives: the headers the adapter reads and the chunks of the body, which may break
  off, or one of the errors of the HTTP library the adapter tells apart.\<close>

datatype net_failure = NetTimeout | NetDecodingError | NetError

record page_request =
  pq_search :: ustr
  pq_limit :: int
  pq_cursor :: "ustr option"

record page_response =
  pr_is_redirect :: bool
  pr_status_code :: nat
  pr_content_type :: ustr
  pr_content_encoding :: "ustr option"
  pr_content_length :: "ustr option"
  pr_chunks :: "bytes list"
  pr_broken :: "net_failure option"

type_synonym network = "nat \<Rightarrow> page_request \<Rightarrow> net_failure + page_response"

definition net_failure_code :: "net_failure \<Rightarrow> OfficialRegistryFailureCode" where
  "net_failure_code e =
     (case e of NetTimeout \<Rightarrow> TIMEOUT | NetDecodingError \<Rightarrow> INVALID_RESPONSE | NetError \<Rightarrow> UPSTREAM_UNAVAILABLE)"

definition page_request_of :: "OfficialRegistryLimits \<Rightarrow> ustr \<Rightarrow> ustr option \<Rightarrow> page_request" where
  "page_request_of limits query cursor =
     \<lparr>pq_search = query, pq_limit = min 100 (max_items limits), pq_cursor = cursor\<rparr>"

fun receive_chunks :: "int \<Rightarrow> net_failure option \<Rightarrow> int \<Rightarrow> bytes list \<Rightarrow> (bytes \<times> int) official" where
  "receive_chunks limit broken total_bytes [] =
     (case broken of None \<Rightarrow> Inr ([], total_bytes) | Some e \<Rightarrow> Inl (net_failure_code e))"
| "receive_chunks limit broken total_bytes (chunk # chunks) =
     (if total_bytes + int (length chunk) > limit then Inl RESPONSE_LIMIT
      else and_then (receive_chunks limit broken (total_bytes + int (length chunk)) chunks) (\<lambda>(body, received).
             Inr (chunk @ body, received)))"

definition receive_page ::
  "catalog_externals \<Rightarrow> OfficialRegistryLimits \<Rightarrow> int \<Rightarrow> page_response \<Rightarrow> (bytes \<times> int) official" where
  "receive_page ext limits total_bytes r =
     (if pr_is_redirect r \<or> pr_status_code r \<noteq> 200 then Inl UPSTREAM_UNAVAILABLE
      else if str_lower ext (ustr_strip (takeWhile (\<lambda>c. c \<noteq> 59) (pr_content_type r))) \<noteq> ustr_of ''application/json''
      then Inl INVALID_RESPONSE
      else if (case pr_content_encoding r of None \<Rightarrow> False
               | Some t \<Rightarrow> str_lower ext (ustr_strip t) \<noteq> ustr_of ''identity'') then Inl INVALID_RESPONSE
      else
        (let rest = receive_chunks (max_response_bytes limits) (pr_broken r) total_bytes (pr_chunks r)
         in case pr_content_length r of
              None \<Rightarrow> rest
            | Some t \<Rightarrow>
                (case int_text ext t of
                   None \<Rightarrow> Inl INVALID_RESPONSE
                 | Some n \<Rightarrow>
                     if n < 0 \<or> total_bytes + n > max_response_bytes limits then Inl RESPONSE_LIMIT else rest)))"

text \<open>The loop of \<open>_search_with_client\<close>: \<open>net n q\<close> is the result of the request \<open>q\<close> made when \<open>n\<close>
  further pages are allowed, \<open>scan n\<close> the scanner run on its page.\<close>

primrec search_pages ::
  "catalog_externals \<Rightarrow> OfficialRegistryLimits \<Rightarrow> (nat \<Rightarrow> scanner) \<Rightarrow> network \<Rightarrow> ustr
     \<Rightarrow> nat \<Rightarrow> OfficialRegistryItem list \<Rightarrow> ustr option \<Rightarrow> ustr set \<Rightarrow> int \<Rightarrow> OfficialRegistryItem list official" where
  "search_pages ext limits scan net query 0 items cursor seen total_bytes = Inl RESPONSE_LIMIT"
| "search_pages ext limits scan net query (Suc n) items cursor seen total_bytes =
     (case net n (page_request_of limits query cursor) of
        Inl e \<Rightarrow> Inl (net_failure_code e)
      | Inr r \<Rightarrow>
          and_then (receive_page ext limits total_bytes r) (\<lambda>(body, received).
          and_then (parse_page ext limits (scan n) body) (\<lambda>(page, next_cursor).
            if int (length items + length page) > max_items limits then Inl RESPONSE_LIMIT
            else if set (map item_identity items) \<inter> set (map item_identity page) \<noteq> {} then Inl INVALID_RESPONSE
            else
              (case next_cursor of
                 None \<Rightarrow> Inr (items @ page)
               | Some c \<Rightarrow>
                   if c \<in> seen then Inl INVALID_RESPONSE
                   else search_pages ext limits scan net query n (items @ page) (Some c) (insert c seen) received))))"

definition search_screened ::
  "catalog_externals \<Rightarrow> OfficialRegistryLimits \<Rightarrow> (nat \<Rightarrow> scanner) \<Rightarrow> network \<Rightarrow> ustr
     \<Rightarrow> OfficialRegistryItem list official" where
  "search_screened ext limits scan net query =
     search_pages ext limits scan net query (nat (max_pages limits)) [] None {} 0"

text \<open>\<open>OfficialRegistryAdapter.search\<close>; \<open>in_time\<close> tells whether the total timeout let it finish.\<close>

definition adapter_search ::
  "catalog_externals \<Rightarrow> OfficialRegistryLimits \<Rightarrow> scanner \<Rightarrow> (nat \<Rightarrow> scanner) \<Rightarrow> network \<Rightarrow> bool \<Rightarrow> ustr
     \<Rightarrow> OfficialRegistryItem list official" where
  "adapter_search ext limits query_scan scan net in_time query =
     (if \<not> in_time then Inl TIMEOUT
      else and_then (screen_query limits query_scan query) (search_screened ext limits scan net))"

end
