(* ===== verification/Catalog_Items.thy ===== *)
theory Catalog_Items
  imports Catalog_Pages
begin

text \<open>
  What the paged search of the official registry delivers: items within the limits, with well-formed
  texts, distinct identities and a digest of the canonical upstream document, every one from a page the
  scanner passed. Normalizing stored metadata again gives the same items.
\<close>

section \<open>Texts\<close>

lemma all_some_None: "all_some xs = None \<longleftrightarrow> None \<in> set xs"
  by (induction xs) (auto split: option.splits)

lemma utf8_None: "utf8 s = None \<longleftrightarrow> (\<exists>c \<in> set s. utf8_char c = None)"
  by (auto simp: utf8_def all_some_None image_iff eq_commute [of None])

lemma set_ustr_strip: "set (ustr_strip s) \<subseteq> set s"
  by (auto simp: ustr_strip_def dest!: set_dropWhileD)

lemma length_ustr_strip: "length (ustr_strip s) \<le> length s"
  unfolding ustr_strip_def by (metis length_dropWhile_le length_rev order_trans)

definition text_ok :: "nat \<Rightarrow> ustr \<Rightarrow> bool" where
  "text_ok n s \<longleftrightarrow> scalar_ok n s \<and> utf8 s \<noteq> None"

lemma text_ok_strip:
  assumes "ustr_strip s \<noteq> []" "length s \<le> n" "0 \<notin> set s" "utf8 s \<noteq> None"
  shows "text_ok n (ustr_strip s)"
  using assms set_ustr_strip [of s] length_ustr_strip [of s]
  unfolding text_ok_def scalar_ok_def utf8_None by (meson le_trans subsetD)

lemma required_string_ok: "required_string v n = Inr s \<Longrightarrow> text_ok n s"
  by (auto simp: required_string_def intro!: text_ok_strip split: option.splits json.splits if_splits)

lemma optional_string_ok: "optional_string v n = Inr s \<Longrightarrow> pred_option (text_ok n) s"
  by (auto simp: optional_string_def and_then_Inr dest: required_string_ok split: option.splits json.splits)

lemma remote_urls_ok: "remote_urls rs = Inr urls \<Longrightarrow> list_all (text_ok 2048) urls"
proof (induction rs arbitrary: urls)
  case (Cons r rs)
  then show ?case
    by (auto simp: and_then_Inr dest!: optional_string_ok split: json.splits option.splits)
qed simp

lemma advertised_urls_ok: "advertised_urls server = Inr urls \<Longrightarrow> list_all (text_ok 2048) urls"
  by (cases "case json_member ''remotes'' server of None \<Rightarrow> JList [] | Some r \<Rightarrow> r")
    (auto simp: advertised_urls_def and_then_Inr dest!: optional_string_ok remote_urls_ok
      split: option.split_asm)

section \<open>Items\<close>

text \<open>The type of an item: its texts, and the digest of the document \<open>v\<close> it was read from.\<close>

definition item_well_formed :: "OfficialRegistryItem \<Rightarrow> bool" where
  "item_well_formed it \<longleftrightarrow> text_ok 256 (it_external_id it) \<and> text_ok 128 (it_source_version it)
     \<and> text_ok 256 (it_name it) \<and> pred_option (text_ok 2048) (it_description it)
     \<and> list_all (text_ok 2048) (it_advertised_urls it)"

definition item_of_document :: "catalog_externals \<Rightarrow> json \<Rightarrow> OfficialRegistryItem \<Rightarrow> bool" where
  "item_of_document ext v it \<longleftrightarrow> it_normalized_metadata it = normalized_json v
     \<and> official_digest ext v = Inr (it_provenance_digest it)"

lemma official_canonical_normalized [simp]:
  "official_canonical ext (normalized_json v) = official_canonical ext v"
  by (simp add: official_canonical_def canonical_json_normalized)

lemma official_canonical_members [simp]:
  "official_canonical ext (JDict (map (\<lambda>(k, v). (k, normalized_json v)) (sort_key fst ms)))
     = official_canonical ext (JDict ms)"
  using official_canonical_normalized [of ext "JDict ms"] by simp

lemma normalize_item_ok:
  assumes "normalize_item ext ids v = Inr it"
  shows "item_well_formed it" "item_of_document ext v it" "item_identity it \<notin> ids"
  using assms
  by (auto simp: normalize_item_def item_well_formed_def item_of_document_def item_identity_def and_then_Inr
      official_digest_def dest!: required_string_ok optional_string_ok advertised_urls_ok
      split: json.splits option.splits if_splits)

lemma normalize_items_ok:
  assumes "normalize_items ext ids vs = Inr items"
  shows "list_all item_well_formed items" "list_all2 (item_of_document ext) vs items"
    "distinct (map item_identity items)" "set (map item_identity items) \<inter> ids = {}"
proof -
  have "list_all item_well_formed items \<and> list_all2 (item_of_document ext) vs items
      \<and> distinct (map item_identity items) \<and> set (map item_identity items) \<inter> ids = {}"
    using assms
  proof (induction vs arbitrary: ids items)
    case (Cons v vs)
    then obtain it rest where it: "normalize_item ext ids v = Inr it" "items = it # rest"
      and rest: "normalize_items ext (insert (item_identity it) ids) vs = Inr rest"
      by (auto simp: and_then_Inr)
    from Cons.IH [OF rest] normalize_item_ok [OF it(1)] show ?case by (auto simp: it(2))
  qed simp
  then show "list_all item_well_formed items" "list_all2 (item_of_document ext) vs items"
    "distinct (map item_identity items)" "set (map item_identity items) \<inter> ids = {}"
    by blast+
qed

section \<open>Pages\<close>

text \<open>The document of an item is a member of \<open>servers\<close> in a page the scanner passed.\<close>

definition in_page :: "json \<Rightarrow> json \<Rightarrow> bool" where
  "in_page payload v \<longleftrightarrow> (case payload of JDict ms \<Rightarrow>
     (case json_member ''servers'' ms of Some (JList servers) \<Rightarrow> v \<in> set servers | _ \<Rightarrow> False) | _ \<Rightarrow> False)"

definition screened_item :: "catalog_externals \<Rightarrow> scanner \<Rightarrow> OfficialRegistryItem \<Rightarrow> bool" where
  "screened_item ext scan it \<longleftrightarrow> item_well_formed it
     \<and> (\<exists>payload v. scan payload = Scanned False \<and> validate_bounded_json payload \<and> in_page payload v
          \<and> item_of_document ext v it)"

lemma screen_metadata_Inr: "screen_metadata scan v = Inr () \<longleftrightarrow> scan v = Scanned False"
  by (auto simp: screen_metadata_def run_scanner_def and_then_Inr split: scan_outcome.splits)

lemma parse_page_Inr:
  assumes "parse_page ext limits scan body = Inr (page, cursor)"
  obtains payload ms servers where "payload = JDict ms" "scan payload = Scanned False"
    "validate_bounded_json payload" "json_member ''servers'' ms = Some (JList servers)"
    "normalize_items ext {} servers = Inr page" "pred_option (cursor_ok limits) cursor"
  using assms
  by (auto simp: parse_page_def and_then_Inr screen_metadata_Inr
      split: option.splits json.splits if_splits)

lemma parse_page_ok:
  assumes "parse_page ext limits scan body = Inr (page, cursor)"
  shows "list_all (screened_item ext scan) page" "distinct (map item_identity page)"
proof -
  from assms obtain payload ms servers where p: "payload = JDict ms" "scan payload = Scanned False"
    "validate_bounded_json payload" "json_member ''servers'' ms = Some (JList servers)"
    and n: "normalize_items ext {} servers = Inr page" by (rule parse_page_Inr)
  note ok = normalize_items_ok [OF n]
  have "\<exists>v. in_page payload v \<and> item_of_document ext v it" if "it \<in> set page" for it
    using that ok(2) by (fastforce simp: p(1,4) in_page_def list_all2_conv_all_nth in_set_conv_nth)
  with ok(1) p(2,3) show "list_all (screened_item ext scan) page"
    by (auto simp: list_all_iff screened_item_def)
  show "distinct (map item_identity page)" by (rule ok(3))
qed

definition found_ok :: "catalog_externals \<Rightarrow> OfficialRegistryLimits \<Rightarrow> (nat \<Rightarrow> scanner) \<Rightarrow> OfficialRegistryItem list \<Rightarrow> bool" where
  "found_ok ext limits scan items \<longleftrightarrow> int (length items) \<le> max_items limits
     \<and> distinct (map item_identity items)
     \<and> (\<forall>it \<in> set items. \<exists>n. int n < max_pages limits \<and> screened_item ext (scan n) it)"

text \<open>An invariant of the loop over the pages.\<close>

lemma search_pages_invariant:
  assumes "search_pages ext limits scan net query n items cursor seen received = Inr found" and "Q items"
    and "\<And>k items body page c. k < n \<Longrightarrow> Q items \<Longrightarrow> parse_page ext limits (scan k) body = Inr (page, c)
      \<Longrightarrow> int (length items + length page) \<le> max_items limits
      \<Longrightarrow> set (map item_identity items) \<inter> set (map item_identity page) = {} \<Longrightarrow> Q (items @ page)"
  shows "Q found"
  using assms
proof (induction n arbitrary: items cursor seen received)
  case (Suc n)
  from Suc.prems(1) obtain r body rest page next_cursor where
    page: "parse_page ext limits (scan n) body = Inr (page, next_cursor)"
    and room: "int (length items + length page) \<le> max_items limits"
    and new: "set (map item_identity items) \<inter> set (map item_identity page) = {}"
    and go: "(case next_cursor of None \<Rightarrow> Inr (items @ page)
               | Some c \<Rightarrow> if c \<in> seen then Inl INVALID_RESPONSE
                   else search_pages ext limits scan net query n (items @ page) (Some c) (insert c seen) rest)
             = Inr found"
    by (auto simp: and_then_Inr not_less split: sum.splits if_splits prod.splits)
  have "Q (items @ page)" using Suc.prems(3) [OF lessI Suc.prems(2) page room new] .
  then show ?case
  proof (cases next_cursor)
    case (Some c)
    with go have "search_pages ext limits scan net query n (items @ page) (Some c) (insert c seen) rest = Inr found"
      by (auto split: if_splits)
    then show ?thesis using \<open>Q (items @ page)\<close> by (rule Suc.IH) (use Suc.prems(3) less_SucI in blast)
  qed (use go in simp)
qed simp

lemma search_screened_ok:
  assumes "search_screened ext limits scan net query = Inr found" and "0 < max_items limits"
  shows "found_ok ext limits scan found"
  using assms(1) unfolding search_screened_def
proof (rule search_pages_invariant)
  show "found_ok ext limits scan []" using assms(2) by (simp add: found_ok_def)
next
  fix k items body page c
  assume "k < nat (max_pages limits)" "found_ok ext limits scan items"
    "parse_page ext limits (scan k) body = Inr (page, c)"
    "int (length items + length page) \<le> max_items limits"
    "set (map item_identity items) \<inter> set (map item_identity page) = {}"
  with parse_page_ok [OF this(3)] show "found_ok ext limits scan (items @ page)"
    by (auto simp: found_ok_def list_all_iff intro: exI [of _ k])
qed

section \<open>Normalizing again\<close>

lemma filter_key_map_of: "map_of ms k = map_option snd (first_row (filter (\<lambda>m. fst m = k) ms))"
  by (induction ms) auto

lemma map_of_sort_key: "map_of (sort_key fst ms) k = map_of ms k" for k :: "'k::linorder"
  using sort_key_stable [of fst k ms] by (simp add: filter_key_map_of)

lemma json_member_normalized:
  "json_member k (map (\<lambda>(k, v). (k, normalized_json v)) (sort_key fst ms)) = map_option normalized_json (json_member k ms)"
  by (simp add: json_member_def map_of_map map_of_sort_key)

lemma required_string_normalized [simp]:
  "required_string (map_option normalized_json v) n = required_string v n"
  by (auto simp: required_string_def split: option.splits json.splits)

lemma optional_string_normalized [simp]:
  "optional_string (map_option normalized_json v) n = optional_string v n"
  by (auto simp: optional_string_def required_string_def split: option.splits json.splits)

lemma remote_urls_normalized: "remote_urls (map normalized_json rs) = remote_urls rs"
proof (induction rs)
  case (Cons r rs)
  then show ?case by (cases r) (simp_all add: json_member_normalized)
qed simp

lemma advertised_urls_normalized:
  "advertised_urls (map (\<lambda>(k, v). (k, normalized_json v)) (sort_key fst ms)) = advertised_urls ms"
proof (cases "json_member ''remotes'' ms")
  case (Some r)
  then show ?thesis
    by (cases r) (simp_all add: advertised_urls_def json_member_normalized remote_urls_normalized)
qed (simp add: advertised_urls_def json_member_normalized)

lemma normalize_item_normalized: "normalize_item ext ids (normalized_json v) = normalize_item ext ids v"
proof (cases v)
  case (JDict ms)
  show ?thesis
  proof (cases "json_member ''server'' ms")
    case (Some s)
    show ?thesis
    proof (cases s)
      case (JDict server)
      have t: "required_string (case_option (Some (JStr e)) (Some \<circ> normalized_json) (json_member ''title'' server)) 256
          = required_string (case_option (Some (JStr e)) Some (json_member ''title'' server)) 256" for e
        using required_string_normalized [of "json_member ''title'' server" 256]
        by (cases "json_member ''title'' server") simp_all
      show ?thesis
        using Some JDict \<open>v = JDict ms\<close> normalized_json_idem [of v] by (simp add: normalize_item_def json_member_normalized advertised_urls_normalized t official_digest_def
            cong: if_cong)
    qed (use Some \<open>v = JDict ms\<close> in \<open>simp_all add: normalize_item_def json_member_normalized\<close>)
  qed (simp add: JDict normalize_item_def json_member_normalized)
qed (simp_all add: normalize_item_def)

text \<open>Normalization looks at the identities seen before only to refuse repeats.\<close>

lemma normalize_item_identities:
  "normalize_item ext ids v = Inr it \<longleftrightarrow> normalize_item ext {} v = Inr it \<and> item_identity it \<notin> ids"
proof (cases v)
  case (JDict ms)
  show ?thesis
  proof (cases "json_member ''server'' ms")
    case (Some s)
    then show ?thesis
      by (cases s) (auto simp: JDict normalize_item_def item_identity_def and_then_Inr)
  qed (simp add: JDict normalize_item_def)
qed (simp_all add: normalize_item_def)

lemma normalize_items_iff:
  "normalize_items ext ids vs = Inr items \<longleftrightarrow> list_all2 (\<lambda>v it. normalize_item ext {} v = Inr it) vs items
     \<and> distinct (map item_identity items) \<and> set (map item_identity items) \<inter> ids = {}"
proof (induction vs arbitrary: ids items)
  case (Cons v vs)
  show ?case
    by (cases items) (auto simp: and_then_Inr normalize_item_identities [of ext ids] Cons.IH)
qed auto

text \<open>The stored metadata of an item determines it.\<close>

definition renormalizes :: "catalog_externals \<Rightarrow> OfficialRegistryItem \<Rightarrow> bool" where
  "renormalizes ext it \<longleftrightarrow> normalize_item ext {} (it_normalized_metadata it) = Inr it"

lemma normalize_item_renormalizes: "normalize_item ext ids v = Inr it \<Longrightarrow> renormalizes ext it"
  using normalize_item_ok(2) [of ext ids v it] normalize_item_identities [of ext ids v it]
  by (simp add: renormalizes_def item_of_document_def normalize_item_normalized)

lemma renormalizes_metadata: "renormalizes ext it \<Longrightarrow> normalized_json (it_normalized_metadata it) = it_normalized_metadata it"
  using normalize_item_ok(2) [of ext "{}" "it_normalized_metadata it" it]
  by (simp add: renormalizes_def item_of_document_def)

lemma normalize_items_again:
  "list_all (renormalizes ext) items \<Longrightarrow> distinct (map item_identity items)
     \<Longrightarrow> normalize_items ext {} (map it_normalized_metadata items) = Inr items"
  by (auto simp: normalize_items_iff renormalizes_def list_all_length list_all2_conv_all_nth)

lemma normalize_items_renormalize: "normalize_items ext ids vs = Inr items \<Longrightarrow> list_all (renormalizes ext) items"
  by (auto simp: normalize_items_iff list_all_length list_all2_conv_all_nth intro: normalize_item_renormalizes)

lemma search_screened_renormalizes:
  assumes "search_screened ext limits scan net query = Inr found"
  shows "list_all (renormalizes ext) found"
  using assms unfolding search_screened_def
  by (rule search_pages_invariant) (auto elim!: parse_page_Inr dest: normalize_items_renormalize)

end
