(* ===== verification/Catalog_Service.thy ===== *)
theory Catalog_Service
  imports Catalog_Pages Reg_Connections
begin

text \<open>
  \<open>OfficialRegistryService\<close> of \<^verbatim>\<open>registry/official.py\<close>: the search with its cache, the import of a cached
  item, and the purges. The three catalog tables are kept beside the database record. An operation
  that fails rolls its transaction back, but cache rows it rejected are deleted by callbacks that run
  after the rollback (\<open>register_after_rollback\<close> of \<^verbatim>\<open>persistence/database.py\<close>).
\<close>

section \<open>Tables\<close>

record RegistryEntry =
  re_id :: uuid
  re_workspace_id :: uuid
  re_source :: RegistrySource
  re_external_id :: "ustr option"
  re_current_version_id :: "uuid option"

record RegistryEntryVersion =
  rev_id :: uuid
  rev_workspace_id :: uuid
  rev_registry_entry_id :: uuid
  rev_sequence :: nat
  rev_name :: ustr
  rev_description :: "ustr option"
  rev_provenance_digest :: string
  rev_source_version :: "ustr option"
  rev_source_uri :: "ustr option"
  rev_normalized_metadata :: "json option"
  rev_imported_by_user_id :: "uuid option"

record RegistrySearchCache =
  rsc_id :: uuid
  rsc_workspace_id :: uuid
  rsc_provider :: string
  rsc_query_digest :: string
  rsc_response_digest :: string
  rsc_normalized_results :: json
  rsc_result_count :: int
  rsc_byte_count :: int
  rsc_fetched_at :: instant
  rsc_expires_at :: instant

record catalog =
  registry_entries :: "RegistryEntry list"
  registry_entry_versions :: "RegistryEntryVersion list"
  registry_search_cache :: "RegistrySearchCache list"

definition OFFICIAL_REGISTRY_PROVIDER :: string where
  "OFFICIAL_REGISTRY_PROVIDER = ''official''"

definition OFFICIAL_REGISTRY_SERVERS_URL :: ustr where
  "OFFICIAL_REGISTRY_SERVERS_URL = ustr_of ''https://registry.modelcontextprotocol.io/v0.1/servers''"

record OfficialRegistrySearchResult =
  osr_cache_id :: uuid
  osr_items :: "OfficialRegistryItem list"
  osr_response_digest :: string
  osr_fetched_at :: instant
  osr_expires_at :: instant
  osr_from_cache :: bool

section \<open>Transactions\<close>

text \<open>A transaction that raises gives its error and the cache rows its callbacks delete.\<close>

datatype catalog_error = Official OfficialRegistryFailureCode | Denied svc_error

type_synonym 'a transacted = "catalog_error \<times> uuid list + 'a"

definition delete_cache_rows :: "uuid \<Rightarrow> uuid list \<Rightarrow> catalog \<Rightarrow> catalog" where
  "delete_cache_rows workspace_id ids c = c\<lparr>registry_search_cache :=
     filter (\<lambda>r. \<not> (rsc_id r \<in> set ids \<and> rsc_workspace_id r = workspace_id)) (registry_search_cache c)\<rparr>"

text \<open>\<open>transaction\<close> of \<^verbatim>\<open>persistence/database.py\<close>: commit, or roll back and run the callbacks, each in a
  transaction of its own; \<open>cleaned\<close> tells which of them went through.\<close>

definition settle :: "(uuid \<Rightarrow> bool) \<Rightarrow> uuid \<Rightarrow> catalog \<Rightarrow> db \<Rightarrow> ('a \<times> catalog \<times> db) transacted
     \<Rightarrow> (catalog_error + 'a) \<times> catalog \<times> db" where
  "settle cleaned workspace_id c d r =
     (case r of
        Inl (e, ids) \<Rightarrow> (Inl e, delete_cache_rows workspace_id (filter cleaned ids) c, d)
      | Inr (x, c', d') \<Rightarrow> (Inr x, c', d'))"

abbreviation failing :: "uuid list \<Rightarrow> 'a official \<Rightarrow> 'a transacted" where
  "failing ids r \<equiv> map_sum (\<lambda>e. (Official e, ids)) id r"

abbreviation denying :: "uuid list \<Rightarrow> svc_error + 'a \<Rightarrow> 'a transacted" where
  "denying ids r \<equiv> map_sum (\<lambda>e. (Denied e, ids)) id r"

section \<open>The cache\<close>

definition search_result :: "RegistrySearchCache \<Rightarrow> OfficialRegistryItem list \<Rightarrow> bool \<Rightarrow> OfficialRegistrySearchResult" where
  "search_result r items from_cache = \<lparr>osr_cache_id = rsc_id r, osr_items = items,
     osr_response_digest = rsc_response_digest r, osr_fetched_at = rsc_fetched_at r,
     osr_expires_at = rsc_expires_at r, osr_from_cache = from_cache\<rparr>"

definition fresh_row :: "OfficialRegistryLimits \<Rightarrow> instant \<Rightarrow> RegistrySearchCache \<Rightarrow> bool" where
  "fresh_row limits now r \<longleftrightarrow> rsc_expires_at r > now \<and> rsc_fetched_at r > now - cache_ttl limits"

definition usable_row :: "OfficialRegistryLimits \<Rightarrow> uuid \<Rightarrow> instant \<Rightarrow> RegistrySearchCache \<Rightarrow> bool" where
  "usable_row limits workspace_id now r \<longleftrightarrow> rsc_workspace_id r = workspace_id
     \<and> rsc_provider r = OFFICIAL_REGISTRY_PROVIDER \<and> fresh_row limits now r
     \<and> rsc_byte_count r \<le> max_response_bytes limits"

text \<open>The stored payload is the one the row was written with.\<close>

definition payload_intact :: "catalog_externals \<Rightarrow> RegistrySearchCache \<Rightarrow> bool" where
  "payload_intact ext r \<longleftrightarrow>
     (case official_canonical ext (rsc_normalized_results r) of
        Inl _ \<Rightarrow> False
      | Inr b \<Rightarrow> int (length b) = rsc_byte_count r \<and> sha256 ext b = rsc_response_digest r)"

text \<open>\<open>ORDER BY fetched_at DESC, id DESC LIMIT 1\<close>.\<close>

definition latest_row :: "RegistrySearchCache list \<Rightarrow> RegistrySearchCache option" where
  "latest_row rows = first_row (rev (sort_key (\<lambda>r. (rsc_fetched_at r, rsc_id r)) rows))"

datatype cache_read = Hit OfficialRegistrySearchResult | Rejected RegistrySearchCache | Miss

definition read_cache ::
  "catalog_externals \<Rightarrow> OfficialRegistryLimits \<Rightarrow> scanner \<Rightarrow> WorkspaceContext \<Rightarrow> string \<Rightarrow> instant \<Rightarrow> instant
     \<Rightarrow> catalog \<Rightarrow> cache_read" where
  "read_cache ext limits scan ctx query_digest now validated_at c =
     (case latest_row (filter (\<lambda>r. usable_row limits (ctx_workspace_id ctx) now r
             \<and> rsc_query_digest r = query_digest) (registry_search_cache c)) of
        None \<Rightarrow> Miss
      | Some r \<Rightarrow>
          (case parse_cached_items ext limits scan (rsc_normalized_results r) of
             Inl _ \<Rightarrow> Rejected r
           | Inr items \<Rightarrow>
               if int (length items) = rsc_result_count r \<and> payload_intact ext r
                  \<and> fresh_row limits validated_at r
               then Hit (search_result r items True) else Rejected r))"

definition purge_expired_workspace_cache :: "OfficialRegistryLimits \<Rightarrow> uuid \<Rightarrow> instant \<Rightarrow> catalog \<Rightarrow> catalog" where
  "purge_expired_workspace_cache limits workspace_id now c = c\<lparr>registry_search_cache :=
     filter (\<lambda>r. \<not> (rsc_workspace_id r = workspace_id
        \<and> (rsc_expires_at r \<le> now \<or> rsc_fetched_at r \<le> now - cache_ttl limits
           \<or> rsc_byte_count r > max_response_bytes limits \<or> rsc_result_count r > max_items limits)))
       (registry_search_cache c)\<rparr>"

definition CACHE_CLEANUP_BATCH_SIZE :: int where
  "CACHE_CLEANUP_BATCH_SIZE = 500"

text \<open>\<open>purge_expired_registry_cache\<close>; \<open>locked\<close> are the rows other transactions hold.\<close>

definition purge_expired_registry_cache ::
  "(RegistrySearchCache \<Rightarrow> bool) \<Rightarrow> instant \<Rightarrow> int \<Rightarrow> catalog \<Rightarrow> svc_error + catalog" where
  "purge_expired_registry_cache locked cutoff batch_size c =
     (if batch_size \<le> 0 \<or> batch_size > CACHE_CLEANUP_BATCH_SIZE then Inl ValueError
      else
        (let ids = map rsc_id (order_by_limit (\<lambda>r. (rsc_expires_at r, rsc_id r)) (nat batch_size)
               (filter (\<lambda>r. rsc_expires_at r \<le> cutoff \<and> \<not> locked r) (registry_search_cache c)))
         in Inr (c\<lparr>registry_search_cache := filter (\<lambda>r. rsc_id r \<notin> set ids) (registry_search_cache c)\<rparr>)))"

section \<open>Search\<close>

definition workspace_rows :: "uuid \<Rightarrow> catalog \<Rightarrow> RegistrySearchCache list" where
  "workspace_rows w c = filter (\<lambda>r. rsc_workspace_id r = w) (registry_search_cache c)"

definition cache_bytes :: "uuid \<Rightarrow> catalog \<Rightarrow> int" where
  "cache_bytes w c = sum_list (map rsc_byte_count (workspace_rows w c))"

text \<open>The environment of one search: the clock, the scanner runs, the network, the identifier of a new
  row and whether the database accepted it.\<close>

record search_run =
  sr_clock :: "nat \<Rightarrow> instant"
  sr_query_scan :: scanner
  sr_cache_scan :: "nat \<Rightarrow> scanner"
  sr_page_scan :: "nat \<Rightarrow> scanner"
  sr_network :: network
  sr_fresh :: uuid
  sr_flushed :: bool
  sr_timed_out :: "nat \<Rightarrow> bool"

text \<open>The total timeout may strike at any point where the operation waits: \<open>k\<close> numbers the points the
  model distinguishes.\<close>

definition in_time :: "(nat \<Rightarrow> bool) \<Rightarrow> nat \<Rightarrow> uuid list \<Rightarrow> 'a transacted \<Rightarrow> 'a transacted" where
  "in_time timed_out k ids x = (if timed_out k then Inl (Official TIMEOUT, ids) else x)"

text \<open>The end of \<open>_search_authorized\<close>, under the workspace lock: \<open>ids\<close> are the rows rejected so far.\<close>

definition store_results ::
  "catalog_externals \<Rightarrow> OfficialRegistryLimits \<Rightarrow> WorkspaceContext \<Rightarrow> search_run \<Rightarrow> string \<Rightarrow> OfficialRegistryItem list
     \<Rightarrow> json \<Rightarrow> bytes \<Rightarrow> uuid list \<Rightarrow> catalog \<Rightarrow> (OfficialRegistrySearchResult \<times> catalog) transacted" where
  "store_results ext limits ctx run query_digest items results encoded ids c =
     (let w = ctx_workspace_id ctx; fetched_at = sr_clock run 4;
          c1 = purge_expired_workspace_cache limits w fetched_at c
      in case read_cache ext limits (sr_cache_scan run 2) ctx query_digest fetched_at (sr_clock run 5) c1 of
           Hit r \<Rightarrow> Inr (r, c1)
         | other \<Rightarrow>
             (let gone = (case other of Rejected r \<Rightarrow> [rsc_id r] | _ \<Rightarrow> []);
                  ids' = ids @ gone; c2 = delete_cache_rows w gone c1
              in in_time (sr_timed_out run) 4 ids'
                (if int (length (workspace_rows w c2)) \<ge> max_workspace_cache_rows limits
                    \<or> cache_bytes w c2 + int (length encoded) > max_workspace_cache_bytes limits
                 then Inl (Official RESPONSE_LIMIT, ids')
                 else
                   (let row = \<lparr>rsc_id = sr_fresh run, rsc_workspace_id = w, rsc_provider = OFFICIAL_REGISTRY_PROVIDER,
                          rsc_query_digest = query_digest, rsc_response_digest = sha256 ext encoded,
                          rsc_normalized_results = results, rsc_result_count = int (length items),
                          rsc_byte_count = int (length encoded), rsc_fetched_at = fetched_at,
                          rsc_expires_at = fetched_at + cache_ttl limits\<rparr>
                    in if \<not> sr_flushed run then Inl (Official PERSISTENCE_FAILURE, ids')
                       else Inr (search_result row items False,
                              c2\<lparr>registry_search_cache := registry_search_cache c2 @ [row]\<rparr>)))))"

text \<open>The fetch between: the search itself and the canonical form of what it found.\<close>

definition fetch_results ::
  "catalog_externals \<Rightarrow> OfficialRegistryLimits \<Rightarrow> search_run \<Rightarrow> ustr
     \<Rightarrow> (OfficialRegistryItem list \<times> json \<times> bytes) official" where
  "fetch_results ext limits run query =
     and_then (search_screened ext limits (sr_page_scan run) (sr_network run) query) (\<lambda>items.
     and_then (official_canonical ext (JList (map it_normalized_metadata items))) (\<lambda>_.
       (let results = normalized_json (JList (map it_normalized_metadata items))
        in and_then (official_canonical ext results) (\<lambda>encoded.
             if int (length encoded) > max_response_bytes limits \<or> \<not> validate_bounded_json results
             then Inl RESPONSE_LIMIT else Inr (items, results, encoded)))))"

text \<open>\<open>search\<close>: the first part reads the state \<open>now\<close> without the workspace lock. \<open>later\<close> is the state
  when the lock is taken: after the network exchange, or before it when the first read rejected a row.
  A search that takes no lock changes nothing, and \<open>later\<close> is the state it leaves.\<close>

definition official_search ::
  "catalog_externals \<Rightarrow> OfficialRegistryLimits \<Rightarrow> WorkspaceContext \<Rightarrow> ustr \<Rightarrow> search_run \<Rightarrow> catalog \<times> db \<Rightarrow> catalog \<times> db
     \<Rightarrow> (OfficialRegistrySearchResult \<times> catalog) transacted" where
  "official_search ext limits ctx query run now later =
     (let roles = [ADMIN, OPERATOR]
      in in_time (sr_timed_out run) 0 []
         (and_then (denying [] (require_current_role ctx roles False (snd now))) (\<lambda>_.
          and_then (failing [] (screen_query limits (sr_query_scan run) query)) (\<lambda>normalized.
           (let query_digest = sha256 ext (the (utf8 normalized));
                fetch = (\<lambda>ids. failing ids (fetch_results ext limits run normalized));
                store = (\<lambda>ids c (items, results, encoded). in_time (sr_timed_out run) 3 ids
                           (store_results ext limits ctx run query_digest items results encoded ids c));
                locked = denying [] (require_current_role ctx roles True (snd later))
            in in_time (sr_timed_out run) 1 []
              (case read_cache ext limits (sr_cache_scan run 0) ctx query_digest (sr_clock run 0)
                      (sr_clock run 1) (fst now) of
                 Hit r \<Rightarrow> Inr (r, fst later)
               | Miss \<Rightarrow>
                   and_then (fetch []) (\<lambda>found. and_then locked (\<lambda>_. store [] (fst later) found))
               | Rejected _ \<Rightarrow>
                   and_then locked (\<lambda>_. in_time (sr_timed_out run) 2 []
                     (case read_cache ext limits (sr_cache_scan run 1) ctx query_digest (sr_clock run 2)
                             (sr_clock run 3) (fst later) of
                        Hit r \<Rightarrow> Inr (r, fst later)
                      | Miss \<Rightarrow> and_then (fetch []) (store [] (fst later))
                      | Rejected r \<Rightarrow>
                          and_then (fetch [rsc_id r])
                            (store [rsc_id r] (delete_cache_rows (ctx_workspace_id ctx) [rsc_id r] (fst later)))))))))))"

text \<open>The search with the end of its transaction.\<close>

definition search_transaction ::
  "catalog_externals \<Rightarrow> OfficialRegistryLimits \<Rightarrow> (uuid \<Rightarrow> bool) \<Rightarrow> WorkspaceContext \<Rightarrow> ustr \<Rightarrow> search_run \<Rightarrow> catalog \<times> db
     \<Rightarrow> catalog \<times> db \<Rightarrow> (catalog_error + OfficialRegistrySearchResult) \<times> catalog \<times> db" where
  "search_transaction ext limits cleaned ctx query run now later =
     settle cleaned (ctx_workspace_id ctx) (fst later) (snd later)
       (map_sum id (\<lambda>(r, c). (r, c, snd later)) (official_search ext limits ctx query run now later))"

section \<open>Import\<close>

record import_run =
  ir_clock :: "nat \<Rightarrow> instant"
  ir_scan :: scanner
  ir_fresh_entry :: uuid
  ir_fresh_version :: uuid
  ir_fresh_correlation :: uuid
  ir_db :: "nat \<Rightarrow> bool"
  ir_timed_out :: "nat \<Rightarrow> bool"

definition require_fresh_cache :: "OfficialRegistryLimits \<Rightarrow> instant \<Rightarrow> RegistrySearchCache \<Rightarrow> unit official" where
  "require_fresh_cache limits validated_at r = (if fresh_row limits validated_at r then Inr () else Inl CACHE_MISS)"

definition entry_of :: "WorkspaceContext \<Rightarrow> ustr \<Rightarrow> catalog \<Rightarrow> RegistryEntry option" where
  "entry_of ctx external_id c = first_row (filter (\<lambda>e. re_workspace_id e = ctx_workspace_id ctx
     \<and> re_source e = OFFICIAL \<and> re_external_id e = Some external_id) (registry_entries c))"

definition entry_version_of :: "uuid \<Rightarrow> string \<Rightarrow> catalog \<Rightarrow> RegistryEntryVersion option" where
  "entry_version_of entry_id digest c = first_row (filter (\<lambda>v. rev_registry_entry_id v = entry_id
     \<and> rev_provenance_digest v = digest) (registry_entry_versions c))"

definition new_entry_version ::
  "WorkspaceContext \<Rightarrow> RegistryEntry \<Rightarrow> nat \<Rightarrow> OfficialRegistryItem \<Rightarrow> uuid \<Rightarrow> RegistryEntryVersion" where
  "new_entry_version ctx entry sequence it fresh =
     \<lparr>rev_id = fresh, rev_workspace_id = ctx_workspace_id ctx, rev_registry_entry_id = re_id entry,
      rev_sequence = sequence, rev_name = it_name it, rev_description = it_description it,
      rev_provenance_digest = it_provenance_digest it, rev_source_version = Some (it_source_version it),
      rev_source_uri = Some OFFICIAL_REGISTRY_SERVERS_URL,
      rev_normalized_metadata = Some (it_normalized_metadata it),
      rev_imported_by_user_id = Some (ctx_actor_user_id ctx)\<rparr>"

text \<open>The part of the import after the item is found. \<open>ir_db run k\<close> tells whether the \<open>k\<close>-th statement
  went through: the lookup of the entry, of the version, of the sequence, and the flush.\<close>

definition record_import ::
  "OfficialRegistryLimits \<Rightarrow> WorkspaceContext \<Rightarrow> uuid option \<Rightarrow> import_run \<Rightarrow> RegistrySearchCache
     \<Rightarrow> OfficialRegistryItem \<Rightarrow> catalog \<Rightarrow> db \<Rightarrow> (RegistryEntryVersion \<times> catalog \<times> db) official" where
  "record_import limits ctx correlation_id run row it c d =
     (if \<not> ir_db run 0 then Inl PERSISTENCE_FAILURE
      else
        (let found = entry_of ctx (it_external_id it) c;
             entry = (case found of Some e \<Rightarrow> e
                      | None \<Rightarrow> \<lparr>re_id = ir_fresh_entry run, re_workspace_id = ctx_workspace_id ctx,
                          re_source = OFFICIAL, re_external_id = Some (it_external_id it),
                          re_current_version_id = None\<rparr>)
         in if \<not> ir_db run 1 then Inl PERSISTENCE_FAILURE
            else
              (case entry_version_of (re_id entry) (it_provenance_digest it) c of
                 Some existing \<Rightarrow>
                   and_then (require_fresh_cache limits (ir_clock run 2) row) (\<lambda>_. Inr (existing, c, d))
               | None \<Rightarrow>
                   if found \<noteq> None \<and> \<not> ir_db run 2 then Inl PERSISTENCE_FAILURE
                   else
                     (let sequence = (if found = None then 1
                            else next_sequence (map rev_sequence (filter (\<lambda>v. rev_registry_entry_id v = re_id entry)
                                   (registry_entry_versions c))))
                      in and_then (require_fresh_cache limits (ir_clock run 2) row) (\<lambda>_.
                           if \<not> ir_db run 3 then Inl PERSISTENCE_FAILURE
                           else
                             (let version = new_entry_version ctx entry sequence it (ir_fresh_version run);
                                  entry' = entry\<lparr>re_current_version_id := Some (rev_id version)\<rparr>;
                                  entries = (if found = None then registry_entries c @ [entry']
                                             else rows_put re_id entry' (registry_entries c))
                              in Inr (version,
                                   c\<lparr>registry_entries := entries,
                                     registry_entry_versions := registry_entry_versions c @ [version]\<rparr>,
                                   add_audit (audit_succeeded (ctx_workspace_id ctx) (ctx_actor_user_id ctx)
                                     REGISTRY_ENTRY_IMPORTED REGISTRY_ENTRY (re_id entry)
                                     (correlation_or correlation_id (ir_fresh_correlation run))) d)))))))"

definition import_cached ::
  "catalog_externals \<Rightarrow> OfficialRegistryLimits \<Rightarrow> WorkspaceContext \<Rightarrow> uuid \<Rightarrow> string \<Rightarrow> uuid option \<Rightarrow> import_run
     \<Rightarrow> catalog \<Rightarrow> db \<Rightarrow> (RegistryEntryVersion \<times> catalog \<times> db) transacted" where
  "import_cached ext limits ctx cache_id provenance_digest correlation_id run c d =
     in_time (ir_timed_out run) 0 []
     (and_then (denying [] (require_current_role ctx [ADMIN, OPERATOR] True d)) (\<lambda>_.
       if \<not> digest_ok provenance_digest then Inl (Official CACHE_MISS, [])
       else
         in_time (ir_timed_out run) 1 []
         (let now = ir_clock run 0;
              c1 = purge_expired_workspace_cache limits (ctx_workspace_id ctx) now c
          in case first_row (filter (\<lambda>r. rsc_id r = cache_id \<and> usable_row limits (ctx_workspace_id ctx) now r)
                    (registry_search_cache c1)) of
               None \<Rightarrow> Inl (Official CACHE_MISS, [])
             | Some row \<Rightarrow>
                 and_then (failing [] (official_canonical ext (rsc_normalized_results row))) (\<lambda>_.
                   if \<not> payload_intact ext row then Inl (Official CACHE_MISS, [])
                   else
                     and_then (failing [rsc_id row]
                         (parse_cached_items ext limits (ir_scan run) (rsc_normalized_results row))) (\<lambda>items.
                     and_then (failing [] (require_fresh_cache limits (ir_clock run 1) row)) (\<lambda>_.
                       (case first_row (filter (\<lambda>it. it_provenance_digest it = provenance_digest) items) of
                          None \<Rightarrow> Inl (Official CACHE_MISS, [])
                        | Some it \<Rightarrow> in_time (ir_timed_out run) 2 []
                                       (failing [] (record_import limits ctx correlation_id run row it c1 d)))))))))"

definition import_transaction ::
  "catalog_externals \<Rightarrow> OfficialRegistryLimits \<Rightarrow> (uuid \<Rightarrow> bool) \<Rightarrow> WorkspaceContext \<Rightarrow> uuid \<Rightarrow> string \<Rightarrow> uuid option
     \<Rightarrow> import_run \<Rightarrow> catalog \<Rightarrow> db \<Rightarrow> (catalog_error + RegistryEntryVersion) \<times> catalog \<times> db" where
  "import_transaction ext limits cleaned ctx cache_id provenance_digest correlation_id run c d =
     settle cleaned (ctx_workspace_id ctx) c d (import_cached ext limits ctx cache_id provenance_digest correlation_id run c d)"

end
