(* ===== verification/Catalog_Cache.thy ===== *)
theory Catalog_Cache
  imports Catalog_Items Catalog_Service
begin

text \<open>
  The search cache of the official registry: every search keeps the row and byte quotas of every
  workspace, and a search that was stored is found again, with the same items, while it is fresh.
\<close>

section \<open>Quotas\<close>

definition cache_within :: "OfficialRegistryLimits \<Rightarrow> catalog \<Rightarrow> bool" where
  "cache_within limits c \<longleftrightarrow> list_all (\<lambda>r. 0 \<le> rsc_byte_count r) (registry_search_cache c)
     \<and> (\<forall>w. int (length (workspace_rows w c)) \<le> max_workspace_cache_rows limits
          \<and> cache_bytes w c \<le> max_workspace_cache_bytes limits)"

text \<open>\<open>c'\<close> differs from \<open>c\<close> in cache rows of one workspace only.\<close>

definition other_tables_kept :: "uuid \<Rightarrow> catalog \<Rightarrow> catalog \<Rightarrow> bool" where
  "other_tables_kept w c c' \<longleftrightarrow> registry_entries c' = registry_entries c
     \<and> registry_entry_versions c' = registry_entry_versions c
     \<and> (\<forall>w'. w' \<noteq> w \<longrightarrow> workspace_rows w' c' = workspace_rows w' c)"

definition rows_dropped :: "uuid \<Rightarrow> catalog \<Rightarrow> catalog \<Rightarrow> bool" where
  "rows_dropped w c c' \<longleftrightarrow> registry_entries c' = registry_entries c
     \<and> registry_entry_versions c' = registry_entry_versions c
     \<and> (\<exists>P. (\<forall>r. rsc_workspace_id r \<noteq> w \<longrightarrow> P r)
          \<and> registry_search_cache c' = filter P (registry_search_cache c))"

lemma rows_droppedI:
  "registry_search_cache c' = filter P (registry_search_cache c) \<Longrightarrow> registry_entries c' = registry_entries c
     \<Longrightarrow> registry_entry_versions c' = registry_entry_versions c
     \<Longrightarrow> (\<And>r. rsc_workspace_id r \<noteq> w \<Longrightarrow> P r) \<Longrightarrow> rows_dropped w c c'"
  by (auto simp: rows_dropped_def)

lemma rows_dropped_refl: "rows_dropped w c c"
  by (rule rows_droppedI [where P = "\<lambda>_. True"]) simp_all

lemma rows_dropped_trans:
  assumes "rows_dropped w c c'" and "rows_dropped w c' c''"
  shows "rows_dropped w c c''"
proof -
  from assms(1) obtain P where P: "\<forall>r. rsc_workspace_id r \<noteq> w \<longrightarrow> P r"
    "registry_search_cache c' = filter P (registry_search_cache c)" by (auto simp: rows_dropped_def)
  from assms(2) obtain Q where Q: "\<forall>r. rsc_workspace_id r \<noteq> w \<longrightarrow> Q r"
    "registry_search_cache c'' = filter Q (registry_search_cache c')" by (auto simp: rows_dropped_def)
  show ?thesis
    by (rule rows_droppedI [where P = "\<lambda>r. P r \<and> Q r"]) (use assms P Q in \<open>auto simp: rows_dropped_def\<close>)
qed

lemma delete_cache_rows_dropped: "rows_dropped w c (delete_cache_rows w ids c)"
  by (rule rows_droppedI [where P = "\<lambda>r. \<not> (rsc_id r \<in> set ids \<and> rsc_workspace_id r = w)"])
    (simp_all add: delete_cache_rows_def)

lemma purge_dropped: "rows_dropped w c (purge_expired_workspace_cache limits w now c)"
  by (rule rows_droppedI [where P = "\<lambda>r. \<not> (rsc_workspace_id r = w
        \<and> (rsc_expires_at r \<le> now \<or> rsc_fetched_at r \<le> now - cache_ttl limits
           \<or> rsc_byte_count r > max_response_bytes limits \<or> rsc_result_count r > max_items limits))"])
    (simp_all add: purge_expired_workspace_cache_def)

lemma rows_dropped_other:
  assumes "rows_dropped w c c'"
  shows "other_tables_kept w c c'"
proof -
  from assms obtain P where P: "\<And>r. rsc_workspace_id r \<noteq> w \<Longrightarrow> P r"
    and c': "registry_search_cache c' = filter P (registry_search_cache c)" by (auto simp: rows_dropped_def)
  have "workspace_rows w' c' = workspace_rows w' c" if "w' \<noteq> w" for w'
    unfolding workspace_rows_def c' filter_filter by (rule filter_cong) (use P that in auto)
  with assms show ?thesis by (simp add: other_tables_kept_def rows_dropped_def)
qed

lemma sum_list_filter_le:
  "list_all (\<lambda>r. 0 \<le> f r) xs \<Longrightarrow> sum_list (map f (filter P xs)) \<le> sum_list (map f xs)" for f :: "'a \<Rightarrow> int"
  by (induction xs) auto

lemma filter_within:
  assumes c': "registry_search_cache c' = filter P (registry_search_cache c)" and "cache_within limits c"
  shows "cache_within limits c'"
proof -
  have rows: "workspace_rows w c' = filter P (workspace_rows w c)" for w
    by (simp add: workspace_rows_def c' conj_commute)
  have le: "cache_bytes w c' \<le> cache_bytes w c" "length (workspace_rows w c') \<le> length (workspace_rows w c)" for w
    using assms(2) unfolding cache_bytes_def rows
    by (intro sum_list_filter_le; simp add: cache_within_def workspace_rows_def list_all_iff) simp
  have "int (length (workspace_rows w c')) \<le> max_workspace_cache_rows limits"
    "cache_bytes w c' \<le> max_workspace_cache_bytes limits" for w
    using assms(2) le [of w] unfolding cache_within_def by (meson of_nat_mono order_trans)+
  with assms(2) show ?thesis by (auto simp: cache_within_def c' list_all_iff)
qed

lemma rows_dropped_within: "rows_dropped w c c' \<Longrightarrow> cache_within limits c \<Longrightarrow> cache_within limits c'"
  by (auto simp: rows_dropped_def intro: filter_within)

lemma row_added_within:
  assumes "cache_within limits c" and "rsc_workspace_id row = w" and "0 \<le> rsc_byte_count row"
    and "int (length (workspace_rows w c)) < max_workspace_cache_rows limits"
    and "cache_bytes w c + rsc_byte_count row \<le> max_workspace_cache_bytes limits"
  shows "cache_within limits (c\<lparr>registry_search_cache := registry_search_cache c @ [row]\<rparr>)"
    and "other_tables_kept w c (c\<lparr>registry_search_cache := registry_search_cache c @ [row]\<rparr>)"
  using assms by (auto simp: cache_within_def cache_bytes_def workspace_rows_def other_tables_kept_def)

lemma other_tables_kept_trans:
  "other_tables_kept w c c' \<Longrightarrow> other_tables_kept w c' c'' \<Longrightarrow> other_tables_kept w c c''"
  by (auto simp: other_tables_kept_def)

lemmas dropped_rules = rows_dropped_refl delete_cache_rows_dropped purge_dropped

section \<open>Every search keeps the quotas\<close>

lemma in_time_Inr [simp]: "in_time timed_out k ids x = Inr y \<longleftrightarrow> \<not> timed_out k \<and> x = Inr y"
  by (auto simp: in_time_def)

lemma case_option_Inr:
  "(case x of None \<Rightarrow> Inl e | Some y \<Rightarrow> f y) = Inr z \<longleftrightarrow> (\<exists>y. x = Some y \<and> f y = Inr z)"
  by (cases x) auto

lemma map_sum_id_Inr: "map_sum f id x = Inr y \<longleftrightarrow> x = Inr y"
  by (cases x) auto

text \<open>What the end of the search does: it finds a row the cache got meanwhile, or adds the new one.\<close>

definition new_cache_row ::
  "catalog_externals \<Rightarrow> OfficialRegistryLimits \<Rightarrow> WorkspaceContext \<Rightarrow> search_run \<Rightarrow> string \<Rightarrow> OfficialRegistryItem list
     \<Rightarrow> json \<Rightarrow> bytes \<Rightarrow> RegistrySearchCache" where
  "new_cache_row ext limits ctx run query_digest items results encoded =
     \<lparr>rsc_id = sr_fresh run, rsc_workspace_id = ctx_workspace_id ctx, rsc_provider = OFFICIAL_REGISTRY_PROVIDER,
      rsc_query_digest = query_digest, rsc_response_digest = sha256 ext encoded,
      rsc_normalized_results = results, rsc_result_count = int (length items),
      rsc_byte_count = int (length encoded), rsc_fetched_at = sr_clock run 4,
      rsc_expires_at = sr_clock run 4 + cache_ttl limits\<rparr>"

lemma store_results_Inr:
  assumes "store_results ext limits ctx run qd items results encoded ids c = Inr (r, c')"
  obtains (hit) "osr_from_cache r" "rows_dropped (ctx_workspace_id ctx) c c'"
  | (stored) c2 row where "rows_dropped (ctx_workspace_id ctx) c c2"
      "row = new_cache_row ext limits ctx run qd items results encoded"
      "r = search_result row items False" "c' = c2\<lparr>registry_search_cache := registry_search_cache c2 @ [row]\<rparr>"
      "int (length (workspace_rows (ctx_workspace_id ctx) c2)) < max_workspace_cache_rows limits"
      "cache_bytes (ctx_workspace_id ctx) c2 + int (length encoded) \<le> max_workspace_cache_bytes limits"
proof -
  let ?w = "ctx_workspace_id ctx"
  let ?c1 = "purge_expired_workspace_cache limits ?w (sr_clock run 4) c"
  let ?read = "read_cache ext limits (sr_cache_scan run 2) ctx qd (sr_clock run 4) (sr_clock run 5) ?c1"
  let ?row = "new_cache_row ext limits ctx run qd items results encoded"
  have new: thesis if c2: "c2 = delete_cache_rows ?w gone ?c1"
    and "\<not> (int (length (workspace_rows ?w c2)) \<ge> max_workspace_cache_rows limits
            \<or> cache_bytes ?w c2 + int (length encoded) > max_workspace_cache_bytes limits)"
    and "(search_result ?row items False, c2\<lparr>registry_search_cache := registry_search_cache c2 @ [?row]\<rparr>) = (r, c')"
    for c2 gone
    by (rule stored [of c2 ?row]) (use that rows_dropped_trans [OF purge_dropped delete_cache_rows_dropped] in auto)
  show thesis
  proof (cases ?read)
    case (Hit h)
    then have "r = h" "c' = ?c1" using assms by (simp_all add: store_results_def Let_def)
    then show thesis using Hit hit purge_dropped
      by (auto simp: read_cache_def search_result_def split: option.splits sum.splits if_splits)
  next
    case (Rejected x)
    with assms show thesis
      by (intro new [OF refl, of "[rsc_id x]"])
        (simp_all add: store_results_def Let_def new_cache_row_def split: if_splits)
  next
    case Miss
    with assms show thesis
      by (intro new [OF refl, of "[]"]) (simp_all add: store_results_def Let_def new_cache_row_def split: if_splits)
  qed
qed

text \<open>The outcome of a search: a cached result, or fetched items stored under the lock.\<close>

lemma official_search_Inr:
  assumes "official_search ext limits ctx query run now later = Inr (r, c')"
  obtains (cached) "osr_from_cache r" "rows_dropped (ctx_workspace_id ctx) (fst later) c'"
  | (fetched) normalized items results encoded ids c where
      "screen_query limits (sr_query_scan run) query = Inr normalized"
      "fetch_results ext limits run normalized = Inr (items, results, encoded)"
      "rows_dropped (ctx_workspace_id ctx) (fst later) c"
      "store_results ext limits ctx run (sha256 ext (the (utf8 normalized))) items results encoded ids c = Inr (r, c')"
proof -
  from assms obtain normalized where n: "screen_query limits (sr_query_scan run) query = Inr normalized"
    by (auto simp: official_search_def Let_def and_then_Inr map_sum_id_Inr)
  let ?qd = "sha256 ext (the (utf8 normalized))"
  let ?read = "\<lambda>k i s. read_cache ext limits (sr_cache_scan run k) ctx ?qd (sr_clock run i) (sr_clock run (Suc i)) s"
  have hit: "osr_from_cache x" if "?read k i s = Hit x" for k i s x
    using that by (auto simp: read_cache_def search_result_def split: option.splits sum.splits if_splits)
  show thesis
  proof (cases "?read 0 0 (fst now)")
    case (Hit x)
    with assms n have "r = x" "c' = fst later" by (auto simp: official_search_def Let_def and_then_Inr)
    with hit [OF Hit] show thesis by (auto intro: cached rows_dropped_refl)
  next
    case Miss
    with assms n fetched [of normalized _ _ _ "fst later" "[]"] rows_dropped_refl show thesis
      by (auto simp: official_search_def Let_def and_then_Inr map_sum_id_Inr)
  next
    case (Rejected x)
    show thesis
    proof (cases "?read 1 2 (fst later)")
      case (Hit y)
      with assms n Rejected have "r = y" "c' = fst later"
        by (auto simp: official_search_def Let_def and_then_Inr numeral_3_eq_3)
      with hit [OF Hit] show thesis by (auto intro: cached rows_dropped_refl)
    next
      case Miss
      with assms n Rejected fetched [of normalized _ _ _ "fst later" "[]"] rows_dropped_refl show thesis
        by (auto simp: official_search_def Let_def and_then_Inr map_sum_id_Inr numeral_3_eq_3)
    next
      case (Rejected y)
      with assms n \<open>?read 0 0 (fst now) = Rejected x\<close> delete_cache_rows_dropped
        fetched [of normalized _ _ _ "delete_cache_rows (ctx_workspace_id ctx) [rsc_id y] (fst later)" "[rsc_id y]"]
      show thesis by (auto simp: official_search_def Let_def and_then_Inr map_sum_id_Inr numeral_3_eq_3)
    qed
  qed
qed

lemma official_search_within:
  assumes "official_search ext limits ctx query run now later = Inr (r, c')"
    and "cache_within limits (fst later)"
  shows "cache_within limits c'" and "other_tables_kept (ctx_workspace_id ctx) (fst later) c'"
proof -
  have "cache_within limits c' \<and> other_tables_kept (ctx_workspace_id ctx) (fst later) c'"
    using assms(1)
  proof (cases rule: official_search_Inr)
    case cached
    then show ?thesis using assms(2) rows_dropped_within rows_dropped_other by blast
  next
    case (fetched normalized items results encoded ids c)
    from fetched(4) show ?thesis
    proof (cases rule: store_results_Inr)
      case hit
      then show ?thesis
        using assms(2) fetched(3) rows_dropped_trans rows_dropped_within rows_dropped_other by blast
    next
      case (stored c2 row)
      have dropped: "rows_dropped (ctx_workspace_id ctx) (fst later) c2"
        by (rule rows_dropped_trans [OF fetched(3) stored(1)])
      show ?thesis
        using row_added_within [OF rows_dropped_within [OF dropped assms(2)], of row "ctx_workspace_id ctx"]
          rows_dropped_other [OF dropped] stored
        by (auto simp: new_cache_row_def intro: other_tables_kept_trans)
    qed
  qed
  then show "cache_within limits c'" "other_tables_kept (ctx_workspace_id ctx) (fst later) c'" by blast+
qed

section \<open>A stored search is found again\<close>

lemma fetch_results_ok:
  assumes "fetch_results ext limits run query = Inr (items, results, encoded)" and "0 < max_items limits"
  shows "found_ok ext limits (sr_page_scan run) items"
    "results = JList (map it_normalized_metadata items)" "official_canonical ext results = Inr encoded"
    "int (length encoded) \<le> max_response_bytes limits" "validate_bounded_json results"
    "normalize_items ext {} (map it_normalized_metadata items) = Inr items"
proof -
  from assms(1) have found: "search_screened ext limits (sr_page_scan run) (sr_network run) query = Inr items"
    and results: "results = JList (map normalized_json (map it_normalized_metadata items))"
    and rest: "official_canonical ext results = Inr encoded" "int (length encoded) \<le> max_response_bytes limits"
      "validate_bounded_json results"
    by (auto simp: fetch_results_def and_then_Inr Let_def split: if_splits)
  show ok: "found_ok ext limits (sr_page_scan run) items" by (rule search_screened_ok [OF found assms(2)])
  have again: "list_all (renormalizes ext) items" by (rule search_screened_renormalizes [OF found])
  then show "results = JList (map it_normalized_metadata items)"
    unfolding results by (auto simp: list_all_iff intro: renormalizes_metadata)
  show "official_canonical ext results = Inr encoded" "int (length encoded) \<le> max_response_bytes limits"
    "validate_bounded_json results" by (rule rest)+
  show "normalize_items ext {} (map it_normalized_metadata items) = Inr items"
    by (rule normalize_items_again [OF again]) (use ok in \<open>simp add: found_ok_def\<close>)
qed

lemma latest_row_max:
  assumes "r \<in> set rows" and "\<And>x. x \<in> set rows \<Longrightarrow> x \<noteq> r \<Longrightarrow> rsc_fetched_at x < rsc_fetched_at r"
  shows "latest_row rows = Some r"
proof -
  let ?key = "\<lambda>r. (rsc_fetched_at r, rsc_id r)"
  have ne: "sort_key ?key rows \<noteq> []" using assms(1) by (metis set_sort empty_iff list.set(1))
  then obtain ys x where x: "sort_key ?key rows = ys @ [x]" by (metis rev_exhaust)
  then have "latest_row rows = Some x" by (simp add: latest_row_def)
  have in_rows: "set (ys @ [x]) = set rows" using x by (metis set_sort)
  have "x = r"
  proof (rule ccontr)
    assume "x \<noteq> r"
    with in_rows assms(1) have "r \<in> set ys" by auto
    moreover have "sorted (map ?key (ys @ [x]))" using x sorted_sort_key [of ?key rows] by simp
    ultimately have "?key r \<le> ?key x" by (auto simp: sorted_append)
    moreover have "rsc_fetched_at x < rsc_fetched_at r" using assms(2) \<open>x \<noteq> r\<close> in_rows by auto
    ultimately show False by (auto simp: less_eq_prod_def)
  qed
  with \<open>latest_row rows = Some x\<close> show ?thesis by simp
qed

text \<open>Reading back the row of a search.\<close>

lemma read_cache_new_row:
  assumes fetch: "fetch_results ext limits run query = Inr (items, results, encoded)" and "0 < max_items limits"
    and row: "row = new_cache_row ext limits ctx run qd items results encoded"
    and "row \<in> set (registry_search_cache c)"
    and newest: "\<And>x. x \<in> set (registry_search_cache c) \<Longrightarrow> x \<noteq> row \<Longrightarrow> rsc_fetched_at x < rsc_fetched_at row"
    and "scan results = Scanned False"
    and "fresh_row limits now row" "fresh_row limits validated_at row"
  shows "read_cache ext limits scan ctx qd now validated_at c = Hit (search_result row items True)"
proof -
  note ok = fetch_results_ok [OF fetch assms(2)]
  let ?usable = "\<lambda>r. usable_row limits (ctx_workspace_id ctx) now r \<and> rsc_query_digest r = qd"
  have "latest_row (filter ?usable (registry_search_cache c)) = Some row"
    by (rule latest_row_max)
      (use assms ok(4) in \<open>auto simp: usable_row_def new_cache_row_def\<close>)
  moreover have "parse_cached_items ext limits scan results = Inr items"
    using ok(1,2,5,6) assms(6) by (simp add: parse_cached_items_def screen_metadata_def run_scanner_def found_ok_def)
  moreover have "rsc_normalized_results row = results" "rsc_result_count row = int (length items)"
    by (simp_all add: row new_cache_row_def)
  moreover have "payload_intact ext row"
    using ok(3) by (simp add: payload_intact_def row new_cache_row_def)
  ultimately show ?thesis using assms(8) by (simp add: read_cache_def)
qed

section \<open>A failed search\<close>

text \<open>A row that a read refuses: it does not parse again, or does not match what was recorded, or is stale.\<close>

definition unacceptable :: "catalog_externals \<Rightarrow> OfficialRegistryLimits \<Rightarrow> scanner \<Rightarrow> instant \<Rightarrow> RegistrySearchCache \<Rightarrow> bool" where
  "unacceptable ext limits scan validated_at r \<longleftrightarrow>
     (case parse_cached_items ext limits scan (rsc_normalized_results r) of
        Inl _ \<Rightarrow> True
      | Inr items \<Rightarrow> int (length items) \<noteq> rsc_result_count r \<or> \<not> payload_intact ext r \<or> \<not> fresh_row limits validated_at r)"

lemma latest_row_in: "latest_row rows = Some r \<Longrightarrow> r \<in> set rows"
  by (auto simp: latest_row_def dest!: first_row_Some)

lemma read_cache_Rejected:
  assumes "read_cache ext limits scan ctx qd now validated_at c = Rejected r"
  shows "r \<in> set (registry_search_cache c)" "rsc_workspace_id r = ctx_workspace_id ctx"
    "unacceptable ext limits scan validated_at r"
  using assms
  by (auto simp: read_cache_def unacceptable_def usable_row_def split: option.split_asm sum.splits if_splits
      dest!: latest_row_in)

definition refused_in :: "catalog_externals \<Rightarrow> OfficialRegistryLimits \<Rightarrow> WorkspaceContext \<Rightarrow> search_run \<Rightarrow> catalog
     \<Rightarrow> uuid \<Rightarrow> bool" where
  "refused_in ext limits ctx run c i \<longleftrightarrow> (\<exists>k. \<exists>r \<in> set (registry_search_cache c). rsc_id r = i
     \<and> rsc_workspace_id r = ctx_workspace_id ctx \<and> unacceptable ext limits (sr_cache_scan run k) (sr_clock run (2 * k + 1)) r)"

lemma refused_inI:
  "read_cache ext limits (sr_cache_scan run k) ctx qd now (sr_clock run (2 * k + 1)) c = Rejected r
     \<Longrightarrow> rows_dropped (ctx_workspace_id ctx) c0 c \<Longrightarrow> refused_in ext limits ctx run c0 (rsc_id r)"
  using read_cache_Rejected [of ext limits "sr_cache_scan run k" ctx qd now "sr_clock run (2 * k + 1)" c r]
  unfolding refused_in_def rows_dropped_def by fastforce

lemma in_time_Inl: "in_time timed_out k ids x = Inl y \<longleftrightarrow> (timed_out k \<and> y = (Official TIMEOUT, ids)) \<or> (\<not> timed_out k \<and> x = Inl y)"
  by (auto simp: in_time_def)

lemma map_sum_Inl: "map_sum f id x = Inl y \<longleftrightarrow> (\<exists>e. x = Inl e \<and> y = f e)"
  by (cases x) auto

lemma store_results_Inl:
  assumes "store_results ext limits ctx run qd items results encoded ids c = Inl (e, ids')"
    and "rows_dropped (ctx_workspace_id ctx) c0 c" and "\<forall>i \<in> set ids. refused_in ext limits ctx run c0 i"
  shows "\<forall>i \<in> set ids'. refused_in ext limits ctx run c0 i"
proof -
  let ?c1 = "purge_expired_workspace_cache limits (ctx_workspace_id ctx) (sr_clock run 4) c"
  have dropped: "rows_dropped (ctx_workspace_id ctx) c0 ?c1" by (rule rows_dropped_trans [OF assms(2) purge_dropped])
  show ?thesis
  proof (cases "read_cache ext limits (sr_cache_scan run 2) ctx qd (sr_clock run 4) (sr_clock run 5) ?c1")
    case (Rejected r)
    then have "refused_in ext limits ctx run c0 (rsc_id r)"
      using refused_inI [OF _ dropped, of ext limits run 2 qd "sr_clock run 4" r] by simp
    moreover have "ids' = ids @ [rsc_id r]"
      using assms(1) Rejected by (auto simp: store_results_def Let_def in_time_Inl split: if_splits)
    ultimately show ?thesis using assms(3) by simp
  next
    case Miss
    then have "ids' = ids"
      using assms(1) by (auto simp: store_results_def Let_def in_time_Inl split: if_splits)
    then show ?thesis using assms(3) by simp
  qed (use assms(1) in \<open>simp add: store_results_def Let_def\<close>)
qed

lemma official_search_Inl:
  assumes "official_search ext limits ctx query run now later = Inl (e, ids)"
  shows "\<forall>i \<in> set ids. refused_in ext limits ctx run (fst later) i"
proof (cases "screen_query limits (sr_query_scan run) query")
  case (Inr normalized)
  let ?w = "ctx_workspace_id ctx" and ?qd = "sha256 ext (the (utf8 normalized))"
  have store: "\<forall>i \<in> set ids. refused_in ext limits ctx run (fst later) i"
    if "store_results ext limits ctx run ?qd items results encoded [] (fst later) = Inl (e, ids)" for items results encoded
    by (rule store_results_Inl [OF that rows_dropped_refl]) simp
  show ?thesis
  proof (cases "read_cache ext limits (sr_cache_scan run 0) ctx ?qd (sr_clock run 0) (sr_clock run 1) (fst now)")
    case Miss
    with assms Inr show ?thesis
      by (auto simp: official_search_def Let_def in_time_Inl and_then_Inl map_sum_Inl map_sum_id_Inr
          dest!: store)
  next
    case (Rejected x)
    show ?thesis
    proof (cases "read_cache ext limits (sr_cache_scan run 1) ctx ?qd (sr_clock run 2) (sr_clock run 3) (fst later)")
      case Miss
      with assms Inr Rejected show ?thesis
        by (auto simp: official_search_def Let_def in_time_Inl and_then_Inl map_sum_Inl map_sum_id_Inr
            dest!: store)
    next
      case (Rejected r)
      have r: "refused_in ext limits ctx run (fst later) (rsc_id r)"
        using refused_inI [OF _ rows_dropped_refl, of ext limits run 1 ctx ?qd "sr_clock run 2" "fst later" r] Rejected
        by (simp add: numeral_3_eq_3)
      with assms Inr Rejected \<open>read_cache _ _ _ _ _ _ _ (fst now) = Rejected x\<close> show ?thesis
        by (auto simp: official_search_def Let_def in_time_Inl and_then_Inl map_sum_Inl map_sum_id_Inr
            dest!: store_results_Inl [OF _ delete_cache_rows_dropped])
    next
      case (Hit h)
      with assms Inr Rejected show ?thesis
        by (auto simp: official_search_def Let_def in_time_Inl and_then_Inl map_sum_Inl)
    qed
  next
    case (Hit h)
    with assms Inr show ?thesis
      by (auto simp: official_search_def Let_def in_time_Inl and_then_Inl map_sum_Inl)
  qed
qed (use assms in \<open>auto simp: official_search_def Let_def in_time_Inl and_then_Inl map_sum_Inl\<close>)

end
