(* ===== verification/Catalog_Import.thy ===== *)
theory Catalog_Import
  imports Catalog_Cache
begin

text \<open>
  Importing a catalog item: the version it returns has the digest asked for and comes from a cached
  document that was checked again; the catalog keeps one entry for an external identity, its versions
  numbered without gaps, none twice, the current one last.
\<close>

section \<open>The invariant\<close>

definition versions_of :: "uuid \<Rightarrow> catalog \<Rightarrow> RegistryEntryVersion list" where
  "versions_of e c = filter (\<lambda>v. rev_registry_entry_id v = e) (registry_entry_versions c)"

definition entry_key :: "RegistryEntry \<Rightarrow> uuid \<times> RegistrySource \<times> ustr option" where
  "entry_key e = (re_workspace_id e, re_source e, re_external_id e)"

definition entry_ok :: "catalog \<Rightarrow> RegistryEntry \<Rightarrow> bool" where
  "entry_ok c e \<longleftrightarrow>
     (let vs = versions_of (re_id e) c
      in vs \<noteq> [] \<and> contiguous (map rev_sequence vs) \<and> distinct (map rev_provenance_digest vs)
         \<and> list_all (\<lambda>v. rev_workspace_id v = re_workspace_id e) vs
         \<and> re_current_version_id e = Some (rev_id (last vs)))"

definition catalog_ok :: "catalog \<Rightarrow> bool" where
  "catalog_ok c \<longleftrightarrow> distinct (map re_id (registry_entries c)) \<and> distinct (map entry_key (registry_entries c))
     \<and> distinct (map rev_id (registry_entry_versions c)) \<and> list_all (entry_ok c) (registry_entries c)
     \<and> list_all (\<lambda>v. rev_registry_entry_id v \<in> re_id ` set (registry_entries c)) (registry_entry_versions c)"

lemma catalog_ok_cong:
  "registry_entries c' = registry_entries c \<Longrightarrow> registry_entry_versions c' = registry_entry_versions c
     \<Longrightarrow> catalog_ok c' \<longleftrightarrow> catalog_ok c"
  by (simp add: catalog_ok_def entry_ok_def [abs_def] versions_of_def)

lemma rows_dropped_catalog_ok: "rows_dropped w c c' \<Longrightarrow> catalog_ok c' \<longleftrightarrow> catalog_ok c"
  by (rule catalog_ok_cong) (simp_all add: rows_dropped_def)

section \<open>One more version\<close>

lemma map_rows_put:
  "(\<And>x. x \<in> set rows \<Longrightarrow> key x = key r \<Longrightarrow> col x = col r) \<Longrightarrow> map col (rows_put key r rows) = map col rows"
  by (auto simp: rows_put_def)

lemma versions_of_snoc:
  "versions_of e (c\<lparr>registry_entries := es, registry_entry_versions := registry_entry_versions c @ [v]\<rparr>)
     = versions_of e c @ (if rev_registry_entry_id v = e then [v] else [])"
  by (simp add: versions_of_def)

definition import_entry :: "WorkspaceContext \<Rightarrow> import_run \<Rightarrow> OfficialRegistryItem \<Rightarrow> catalog \<Rightarrow> RegistryEntry" where
  "import_entry ctx run it c = (case entry_of ctx (it_external_id it) c of Some e \<Rightarrow> e
     | None \<Rightarrow> \<lparr>re_id = ir_fresh_entry run, re_workspace_id = ctx_workspace_id ctx, re_source = OFFICIAL,
         re_external_id = Some (it_external_id it), re_current_version_id = None\<rparr>)"

definition entry_added :: "WorkspaceContext \<Rightarrow> OfficialRegistryItem \<Rightarrow> RegistryEntry \<Rightarrow> catalog \<Rightarrow> RegistryEntry list" where
  "entry_added ctx it e c = (if entry_of ctx (it_external_id it) c = None then registry_entries c @ [e]
     else rows_put re_id e (registry_entries c))"

text \<open>The outcome of \<open>record_import\<close>.\<close>

lemma record_import_Inr:
  assumes "record_import limits ctx corr run row it c d = Inr (v, c', d')"
  obtains (existing) "entry_version_of (re_id (import_entry ctx run it c)) (it_provenance_digest it) c = Some v"
      "c' = c" "d' = d"
  | (new) sequence e' where
      "entry_version_of (re_id (import_entry ctx run it c)) (it_provenance_digest it) c = None"
      "sequence = (if entry_of ctx (it_external_id it) c = None then 1
         else next_sequence (map rev_sequence (versions_of (re_id (import_entry ctx run it c)) c)))"
      "v = new_entry_version ctx (import_entry ctx run it c) sequence it (ir_fresh_version run)"
      "e' = (import_entry ctx run it c)\<lparr>re_current_version_id := Some (rev_id v)\<rparr>"
      "c' = c\<lparr>registry_entries := entry_added ctx it e' c,
              registry_entry_versions := registry_entry_versions c @ [v]\<rparr>"
      "d' = add_audit (audit_succeeded (ctx_workspace_id ctx) (ctx_actor_user_id ctx) REGISTRY_ENTRY_IMPORTED
              REGISTRY_ENTRY (re_id e') (correlation_or corr (ir_fresh_correlation run))) d"
proof (cases "entry_version_of (re_id (import_entry ctx run it c)) (it_provenance_digest it) c")
  case None
  with assms show thesis
    by (intro new [OF None refl _ refl]; cases "entry_of ctx (it_external_id it) c")
      (auto simp: record_import_def Let_def and_then_Inr versions_of_def entry_added_def import_entry_def
        split: if_splits)
next
  case (Some x)
  with assms show thesis
    by (intro existing; cases "entry_of ctx (it_external_id it) c")
      (auto simp: record_import_def Let_def and_then_Inr import_entry_def split: if_splits)
qed

lemma entry_of_Some:
  assumes "entry_of ctx ext_id c = Some e"
  shows "e \<in> set (registry_entries c)" "entry_key e = (ctx_workspace_id ctx, OFFICIAL, Some ext_id)"
  using first_row_filter_Some [OF assms [unfolded entry_of_def]] by (simp_all add: entry_key_def)

lemma entry_of_None:
  "entry_of ctx ext_id c = None \<longleftrightarrow> (ctx_workspace_id ctx, OFFICIAL, Some ext_id) \<notin> entry_key ` set (registry_entries c)"
  by (fastforce simp: entry_of_def entry_key_def filter_empty_conv image_iff)

lemma import_entry_key: "entry_key (import_entry ctx run it c) = (ctx_workspace_id ctx, OFFICIAL, Some (it_external_id it))"
  using entry_of_Some(2) by (auto simp: import_entry_def entry_key_def split: option.splits)

text \<open>Fresh identifiers are not in use.\<close>

definition import_fresh :: "import_run \<Rightarrow> catalog \<Rightarrow> bool" where
  "import_fresh run c \<longleftrightarrow> ir_fresh_entry run \<notin> re_id ` set (registry_entries c)
     \<and> ir_fresh_version run \<notin> rev_id ` set (registry_entry_versions c)"

lemma entry_added_facts:
  assumes ok: "catalog_ok c" and fresh: "import_fresh run c"
    and e': "e' = (import_entry ctx run it c)\<lparr>re_current_version_id := x\<rparr>"
  shows "distinct (map re_id (entry_added ctx it e' c))" "distinct (map entry_key (entry_added ctx it e' c))"
    "set (entry_added ctx it e' c) \<subseteq> insert e' {y \<in> set (registry_entries c). re_id y \<noteq> re_id e'}"
    "re_id ` set (entry_added ctx it e' c) = insert (re_id e') (re_id ` set (registry_entries c))"
proof -
  have "distinct (map re_id (entry_added ctx it e' c)) \<and> distinct (map entry_key (entry_added ctx it e' c))
      \<and> set (entry_added ctx it e' c) \<subseteq> insert e' {y \<in> set (registry_entries c). re_id y \<noteq> re_id e'}
      \<and> re_id ` set (entry_added ctx it e' c) = insert (re_id e') (re_id ` set (registry_entries c))"
  proof (cases "entry_of ctx (it_external_id it) c")
    case None
    then have "re_id e' \<notin> re_id ` set (registry_entries c)" "entry_key e' \<notin> entry_key ` set (registry_entries c)"
      using fresh entry_of_None [of ctx "it_external_id it" c]
      by (simp_all add: e' import_entry_def import_fresh_def entry_key_def)
    then show ?thesis
      using ok None by (fastforce simp: entry_added_def catalog_ok_def image_iff)
  next
    case (Some e)
    then have e: "e \<in> set (registry_entries c)" "import_entry ctx run it c = e"
      using entry_of_Some by (auto simp: import_entry_def)
    have ids: "distinct (map re_id (registry_entries c))" using ok by (simp add: catalog_ok_def)
    have "y = e" if "y \<in> set (registry_entries c)" "re_id y = re_id e'" for y
      using that e ids by (auto simp: e' distinct_map dest: inj_onD)
    then have keys: "map entry_key (rows_put re_id e' (registry_entries c)) = map entry_key (registry_entries c)"
      by (intro map_rows_put) (auto simp: e' e(2) entry_key_def)
    have "re_id ` set (rows_put re_id e' (registry_entries c)) = re_id ` set (registry_entries c)"
      by (metis list.set_map map_key_rows_put)
    moreover have "set (rows_put re_id e' (registry_entries c)) \<subseteq> insert e' {y \<in> set (registry_entries c). re_id y \<noteq> re_id e'}"
      by (auto simp: rows_put_def)
    moreover have "re_id e' \<in> re_id ` set (registry_entries c)" using e by (simp add: e')
    ultimately show ?thesis
      using ok Some keys map_key_rows_put [of re_id e' "registry_entries c"]
      by (simp add: entry_added_def catalog_ok_def insert_absorb del: map_key_rows_put)
  qed
  then show "distinct (map re_id (entry_added ctx it e' c))" "distinct (map entry_key (entry_added ctx it e' c))"
    "set (entry_added ctx it e' c) \<subseteq> insert e' {y \<in> set (registry_entries c). re_id y \<noteq> re_id e'}"
    "re_id ` set (entry_added ctx it e' c) = insert (re_id e') (re_id ` set (registry_entries c))" by blast+
qed

text \<open>The entry that receives a version has none with its digest, and its versions so far are in order.\<close>

lemma import_entry_versions:
  assumes ok: "catalog_ok c" and fresh: "import_fresh run c" and e_def: "e = import_entry ctx run it c"
  shows "contiguous (map rev_sequence (versions_of (re_id e) c))"
    "distinct (map rev_provenance_digest (versions_of (re_id e) c))"
    "list_all (\<lambda>v. rev_workspace_id v = re_workspace_id e) (versions_of (re_id e) c)"
    "entry_of ctx (it_external_id it) c = None \<Longrightarrow> versions_of (re_id e) c = []"
proof -
  have none: "versions_of (re_id e) c = []" if "entry_of ctx (it_external_id it) c = None"
    using that ok fresh
    by (fastforce simp: e_def import_entry_def versions_of_def catalog_ok_def import_fresh_def list_all_iff
        filter_empty_conv image_iff)
  moreover have "entry_ok c e" if "entry_of ctx (it_external_id it) c = Some x" for x
    using that ok entry_of_Some(1) [OF that] by (simp add: e_def import_entry_def catalog_ok_def list_all_iff)
  ultimately show "contiguous (map rev_sequence (versions_of (re_id e) c))"
    "distinct (map rev_provenance_digest (versions_of (re_id e) c))"
    "list_all (\<lambda>v. rev_workspace_id v = re_workspace_id e) (versions_of (re_id e) c)"
    by (cases "entry_of ctx (it_external_id it) c"; simp add: entry_ok_def Let_def)+
  show "entry_of ctx (it_external_id it) c = None \<Longrightarrow> versions_of (re_id e) c = []" by (rule none)
qed

lemma record_import_catalog_ok:
  assumes "record_import limits ctx corr run row it c d = Inr (v, c', d')"
    and ok: "catalog_ok c" and fresh: "import_fresh run c"
  shows "catalog_ok c'"
  using assms(1)
proof (cases rule: record_import_Inr)
  case existing
  with ok show ?thesis by simp
next
  case (new sequence e')
  let ?e = "import_entry ctx run it c"
  note ve = import_entry_versions [OF ok fresh refl, of ctx it]
  note ea = entry_added_facts [OF ok fresh new(4)]
  have v: "rev_registry_entry_id v = re_id ?e" "rev_id v = ir_fresh_version run" "rev_sequence v = sequence"
    "rev_provenance_digest v = it_provenance_digest it" "rev_workspace_id v = ctx_workspace_id ctx"
    using new(3) by (simp_all add: new_entry_version_def)
  have vs: "versions_of i c' = versions_of i c @ (if i = re_id ?e then [v] else [])" for i
    unfolding new(5) versions_of_snoc v(1) by auto
  have "sequence = Suc (length (versions_of (re_id ?e) c))"
    using new(2) ve(4) next_sequence_contiguous [OF ve(1)] by (auto split: if_splits)
  with contiguous_snoc [OF ve(1)] have seq: "contiguous (map rev_sequence (versions_of (re_id ?e) c @ [v]))"
    by (simp add: v(3))
  have dig: "it_provenance_digest it \<notin> rev_provenance_digest ` set (versions_of (re_id ?e) c)"
    using new(1) by (auto simp: entry_version_of_def versions_of_def filter_empty_conv)
  have "entry_ok c' e'"
    using seq dig ve(2,3) vs [of "re_id ?e"] import_entry_key [of ctx run it c]
    by (simp add: entry_ok_def new(4) Let_def v entry_key_def)
  moreover have "entry_ok c' y" if "y \<in> set (registry_entries c)" "re_id y \<noteq> re_id e'" for y
    using that ok vs [of "re_id y"] by (simp add: catalog_ok_def list_all_iff entry_ok_def new(4))
  ultimately have "list_all (entry_ok c') (registry_entries c')" using ea(3) new(5) by (auto simp: list_all_iff)
  moreover have "re_id ` set (registry_entries c') = insert (re_id ?e) (re_id ` set (registry_entries c))"
    using ea(4) new(4,5) by simp
  ultimately show ?thesis
    using ok fresh ea(1,2) v new(5) by (auto simp: catalog_ok_def import_fresh_def list_all_iff)
qed

section \<open>Provenance\<close>

text \<open>The cached document behind an import: its payload is intact, it parses again, and the scanner
  passes it again.\<close>

definition cached_source ::
  "catalog_externals \<Rightarrow> OfficialRegistryLimits \<Rightarrow> WorkspaceContext \<Rightarrow> uuid \<Rightarrow> import_run \<Rightarrow> catalog \<Rightarrow> RegistrySearchCache
     \<Rightarrow> OfficialRegistryItem \<Rightarrow> bool" where
  "cached_source ext limits ctx cache_id run c row it \<longleftrightarrow> row \<in> set (registry_search_cache c) \<and> rsc_id row = cache_id
     \<and> rsc_workspace_id row = ctx_workspace_id ctx \<and> payload_intact ext row
     \<and> fresh_row limits (ir_clock run 2) row \<and> ir_scan run (rsc_normalized_results row) = Scanned False
     \<and> (\<exists>items. parse_cached_items ext limits (ir_scan run) (rsc_normalized_results row) = Inr items \<and> it \<in> set items)"

lemma parse_cached_items_scanned:
  "parse_cached_items ext limits scan v = Inr items \<Longrightarrow> scan v = Scanned False"
  by (auto simp: parse_cached_items_def and_then_Inr screen_metadata_Inr split: json.splits if_splits)

lemma record_import_fresh:
  "record_import limits ctx corr run row it c d = Inr y \<Longrightarrow> fresh_row limits (ir_clock run 2) row"
  by (auto simp: record_import_def Let_def and_then_Inr require_fresh_cache_def
      split: if_splits option.split_asm)

lemma import_cached_Inr:
  assumes "import_cached ext limits ctx cache_id digest corr run c d = Inr (v, c', d')"
  obtains row it c1 where "cached_source ext limits ctx cache_id run c row it" "it_provenance_digest it = digest"
    "rows_dropped (ctx_workspace_id ctx) c c1" "record_import limits ctx corr run row it c1 d = Inr (v, c', d')"
    "digest_ok digest" "require_current_role ctx [ADMIN, OPERATOR] True d \<in> range Inr"
proof -
  let ?c1 = "purge_expired_workspace_cache limits (ctx_workspace_id ctx) (ir_clock run 0) c"
  from assms obtain row items it where
    row: "first_row (filter (\<lambda>r. rsc_id r = cache_id \<and> usable_row limits (ctx_workspace_id ctx) (ir_clock run 0) r)
        (registry_search_cache ?c1)) = Some row" "payload_intact ext row"
    and items: "parse_cached_items ext limits (ir_scan run) (rsc_normalized_results row) = Inr items"
    and it: "first_row (filter (\<lambda>it. it_provenance_digest it = digest) items) = Some it"
    and rec: "record_import limits ctx corr run row it ?c1 d = Inr (v, c', d')"
    and guards: "digest_ok digest" "require_current_role ctx [ADMIN, OPERATOR] True d \<in> range Inr"
    by (auto simp: import_cached_def Let_def and_then_Inr map_sum_id_Inr case_option_Inr split: if_splits)
  have "row \<in> set (registry_search_cache c)" "rsc_id row = cache_id" "rsc_workspace_id row = ctx_workspace_id ctx"
    using first_row_filter_Some [OF row(1)] by (auto simp: purge_expired_workspace_cache_def usable_row_def)
  moreover have "it \<in> set items" "it_provenance_digest it = digest" using first_row_filter_Some [OF it] by auto
  ultimately show thesis
    using row(2) items parse_cached_items_scanned [OF items] record_import_fresh [OF rec] rec guards
    by (intro that [OF _ _ purge_dropped rec]) (auto simp: cached_source_def)
qed

text \<open>What an import returns: a version with the digest of the item, of the official entry for its identity.\<close>

lemma record_import_result:
  assumes rec: "record_import limits ctx corr run row it c d = Inr (v, c', d')"
    and ok: "catalog_ok c" and fresh: "import_fresh run c"
  shows "rev_provenance_digest v = it_provenance_digest it" "v \<in> set (registry_entry_versions c')"
    "\<exists>e \<in> set (registry_entries c'). re_id e = rev_registry_entry_id v
       \<and> entry_key e = (ctx_workspace_id ctx, OFFICIAL, Some (it_external_id it))"
    "(registry_entry_versions c' = registry_entry_versions c \<and> d' = d)
     \<or> (registry_entry_versions c' = registry_entry_versions c @ [v] \<and> (\<exists>a. d' = add_audit a d)
        \<and> rev_normalized_metadata v = Some (it_normalized_metadata it))"
proof -
  let ?e = "import_entry ctx run it c"
  have "rev_provenance_digest v = it_provenance_digest it \<and> v \<in> set (registry_entry_versions c')
    \<and> (\<exists>e \<in> set (registry_entries c'). re_id e = rev_registry_entry_id v
       \<and> entry_key e = (ctx_workspace_id ctx, OFFICIAL, Some (it_external_id it)))
    \<and> ((registry_entry_versions c' = registry_entry_versions c \<and> d' = d)
     \<or> (registry_entry_versions c' = registry_entry_versions c @ [v] \<and> (\<exists>a. d' = add_audit a d)
        \<and> rev_normalized_metadata v = Some (it_normalized_metadata it)))"
    using rec
  proof (cases rule: record_import_Inr)
    case existing
    have v: "v \<in> set (registry_entry_versions c)" "rev_registry_entry_id v = re_id ?e"
      "rev_provenance_digest v = it_provenance_digest it"
      using first_row_filter_Some [OF existing(1) [unfolded entry_version_of_def]] by simp_all
    then have "v \<in> set (versions_of (re_id ?e) c)" by (simp add: versions_of_def)
    then have "entry_of ctx (it_external_id it) c \<noteq> None"
      using import_entry_versions(4) [OF ok fresh refl, of ctx it] by fastforce
    then have "?e \<in> set (registry_entries c)" using entry_of_Some(1) by (auto simp: import_entry_def)
    with v existing(2,3) import_entry_key [of ctx run it c] show ?thesis by metis
  next
    case (new sequence e')
    have "e' \<in> set (registry_entries c')"
      using entry_of_Some(1) [of ctx "it_external_id it" c]
      by (auto simp: new(4,5) entry_added_def rows_put_def import_entry_def image_iff split: option.splits)
    moreover have "re_id e' = re_id ?e" "entry_key e' = entry_key ?e" by (simp_all add: new(4) entry_key_def)
    ultimately show ?thesis
      using new(3,5,6) import_entry_key [of ctx run it c] by (auto simp: new_entry_version_def)
  qed
  then show "rev_provenance_digest v = it_provenance_digest it" "v \<in> set (registry_entry_versions c')"
    "\<exists>e \<in> set (registry_entries c'). re_id e = rev_registry_entry_id v
       \<and> entry_key e = (ctx_workspace_id ctx, OFFICIAL, Some (it_external_id it))"
    "(registry_entry_versions c' = registry_entry_versions c \<and> d' = d)
     \<or> (registry_entry_versions c' = registry_entry_versions c @ [v] \<and> (\<exists>a. d' = add_audit a d)
        \<and> rev_normalized_metadata v = Some (it_normalized_metadata it))" by blast+
qed

lemma rows_dropped_import_fresh: "rows_dropped w c c' \<Longrightarrow> import_fresh run c' \<longleftrightarrow> import_fresh run c"
  by (simp add: rows_dropped_def import_fresh_def)

end
