(* ===== verification/Catalog_Machine.thy ===== *)
theory Catalog_Machine
  imports Catalog_Import
begin

text \<open>
  The registry catalog as a transition system: searches, imports and purges of any workspace, in any
  order. A search reads its first state at some earlier moment and commits on the present one.
\<close>

lemma search_transaction_kept:
  assumes "cache_within limits (fst later)"
    and "search_transaction ext limits cleaned ctx query run now later = (outcome, c', d')"
  shows "cache_within limits c' \<and> other_tables_kept (ctx_workspace_id ctx) (fst later) c' \<and> d' = snd later"
proof (cases "official_search ext limits ctx query run now later")
  case (Inl x)
  with assms(2) obtain ids where "c' = delete_cache_rows (ctx_workspace_id ctx) ids (fst later)" "d' = snd later"
    by (auto simp: search_transaction_def settle_def split: prod.splits)
  then show ?thesis
    using assms(1) rows_dropped_within rows_dropped_other delete_cache_rows_dropped by blast
next
  case (Inr x)
  with assms(2) obtain r where "official_search ext limits ctx query run now later = Inr (r, c')" "d' = snd later"
    by (auto simp: search_transaction_def settle_def split: prod.splits)
  then show ?thesis using official_search_within [OF _ assms(1)] by blast
qed

lemma import_transaction_cases:
  assumes "import_transaction ext limits cleaned ctx cache_id digest corr run c d = (outcome, c', d')"
  obtains (failed) e where "outcome = Inl e" "rows_dropped (ctx_workspace_id ctx) c c'" "d' = d"
  | (imported) v row it c1 where "outcome = Inr v" "cached_source ext limits ctx cache_id run c row it"
      "it_provenance_digest it = digest" "rows_dropped (ctx_workspace_id ctx) c c1"
      "record_import limits ctx corr run row it c1 d = Inr (v, c', d')"
proof (cases "import_cached ext limits ctx cache_id digest corr run c d")
  case (Inl x)
  with assms obtain e ids where "outcome = Inl e" "c' = delete_cache_rows (ctx_workspace_id ctx) ids c" "d' = d"
    by (auto simp: import_transaction_def settle_def split: prod.splits)
  then show thesis using failed delete_cache_rows_dropped by simp
next
  case (Inr x)
  with assms obtain v where v: "outcome = Inr v" "import_cached ext limits ctx cache_id digest corr run c d = Inr (v, c', d')"
    by (auto simp: import_transaction_def settle_def split: prod.splits)
  from v(2) show thesis by (rule import_cached_Inr) (rule imported [OF v(1)])
qed

lemma record_import_cache: "record_import limits ctx corr run row it c d = Inr (v, c', d') \<Longrightarrow> registry_search_cache c' = registry_search_cache c"
  by (erule record_import_Inr) simp_all

lemma cache_within_cong: "registry_search_cache c' = registry_search_cache c \<Longrightarrow> cache_within limits c' \<longleftrightarrow> cache_within limits c"
  by (simp add: cache_within_def workspace_rows_def cache_bytes_def)

lemma purge_registry_within:
  assumes "purge_expired_registry_cache locked cutoff n c = Inr c'" and "cache_within limits c"
  shows "cache_within limits c' \<and> registry_entries c' = registry_entries c \<and> registry_entry_versions c' = registry_entry_versions c"
proof -
  from assms(1) obtain P where "c' = c\<lparr>registry_search_cache := filter P (registry_search_cache c)\<rparr>"
    by (auto simp: purge_expired_registry_cache_def Let_def split: if_splits)
  then show ?thesis using filter_within [of c' P c, OF _ assms(2)] by simp
qed

text \<open>The externals and the limits are fixed for a deployment.\<close>

inductive catalog_step :: "catalog_externals \<Rightarrow> OfficialRegistryLimits \<Rightarrow> catalog \<times> db \<Rightarrow> catalog \<times> db \<Rightarrow> bool"
  for ext limits where
  search: "search_transaction ext limits cleaned ctx query run now (c, d) = (outcome, c', d') \<Longrightarrow> catalog_step ext limits (c, d) (c', d')"
| import_item: "import_fresh run c \<Longrightarrow> import_transaction ext limits cleaned ctx cache_id digest corr run c d = (outcome, c', d')
    \<Longrightarrow> catalog_step ext limits (c, d) (c', d')"
| purge: "purge_expired_registry_cache locked cutoff n c = Inr c' \<Longrightarrow> catalog_step ext limits (c, d) (c', d)"

definition catalog_init :: "catalog \<times> db \<Rightarrow> bool" where
  "catalog_init s \<longleftrightarrow> fst s = \<lparr>registry_entries = [], registry_entry_versions = [], registry_search_cache = []\<rparr>"

definition catalog_inv :: "OfficialRegistryLimits \<Rightarrow> catalog \<times> db \<Rightarrow> bool" where
  "catalog_inv limits s \<longleftrightarrow> cache_within limits (fst s) \<and> catalog_ok (fst s)"

lemma catalog_init_inv:
  "0 \<le> max_workspace_cache_rows limits \<Longrightarrow> 0 \<le> max_workspace_cache_bytes limits \<Longrightarrow> catalog_init s \<Longrightarrow> catalog_inv limits s"
  by (simp add: catalog_init_def catalog_inv_def cache_within_def catalog_ok_def workspace_rows_def cache_bytes_def)

lemma catalog_step_inv: "catalog_step ext limits s t \<Longrightarrow> catalog_inv limits s \<Longrightarrow> catalog_inv limits t"
proof (induction rule: catalog_step.induct)
  case (search cleaned ctx query run now c d outcome c' d')
  with search_transaction_kept [OF _ search(1)] catalog_ok_cong [of c' c] show ?case
    by (auto simp: catalog_inv_def other_tables_kept_def)
next
  case (import_item run c cleaned ctx cache_id digest corr d outcome c' d')
  from import_item(2) show ?case
  proof (cases rule: import_transaction_cases)
    case (failed e)
    with import_item(3) rows_dropped_within rows_dropped_catalog_ok show ?thesis by (auto simp: catalog_inv_def)
  next
    case (imported v row it c1)
    have "cache_within limits c1" "catalog_ok c1" "import_fresh run c1"
      using import_item(1,3) rows_dropped_within [OF imported(4)] rows_dropped_catalog_ok [OF imported(4)]
        rows_dropped_import_fresh [OF imported(4)] by (auto simp: catalog_inv_def)
    with record_import_catalog_ok [OF imported(5)] record_import_cache [OF imported(5)] cache_within_cong [of c' c1]
    show ?thesis by (simp add: catalog_inv_def)
  qed
next
  case (purge locked cutoff n c c' d)
  with purge_registry_within [OF purge(1)] catalog_ok_cong [of c' c] show ?case by (auto simp: catalog_inv_def)
qed

lemma catalog_machine:
  assumes "limits_accepted limits"
  shows "machine catalog_init (catalog_step ext limits) (catalog_inv limits)"
proof
  show "catalog_inv limits s" if "catalog_init s" for s
    by (rule catalog_init_inv [OF _ _ that]) (use assms in \<open>auto simp: limits_accepted_def\<close>)
qed (rule catalog_step_inv)

lemma official_limits_accepted: "limits_accepted official_limits"
  by (simp add: official_limits_def limits_accepted_def seconds_def)

interpretation official_catalog: machine catalog_init "catalog_step ext official_limits" "catalog_inv official_limits" for ext
  by (rule catalog_machine [OF official_limits_accepted])

end
