(* ===== verification/Catalog_Theorems.thy ===== *)
theory Catalog_Theorems
  imports Catalog_Machine Reg_Demo Upstream_Theorems
begin

text \<open>
  The properties of the official registry client, and a worked search and import with concrete
  externals for their witnesses.
\<close>

section \<open>A worked search\<close>

definition demo_item :: json where
  "demo_item = JDict [(ustr_of ''server'', JDict [(ustr_of ''version'', JStr (ustr_of ''1'')), (ustr_of ''name'', JStr (ustr_of ''x''))])]"

definition demo_page :: json where
  "demo_page = JDict [(ustr_of ''servers'', JList [demo_item]), (ustr_of ''metadata'', JDict [(ustr_of ''count'', JInt 1)])]"

definition demo_catalog :: catalog_externals where
  "demo_catalog = screen_externals.extend demo_screens
     (catalog_externals.fields (\<lambda>b. if b = [5, 6] then Some demo_page else None) (\<lambda>_. demo_hex))"

definition registry_reply :: page_response where
  "registry_reply = \<lparr>pr_is_redirect = False, pr_status_code = 200, pr_content_type = ustr_of ''application/json; x'',
     pr_content_encoding = None, pr_content_length = None, pr_chunks = [[5], [6]], pr_broken = None\<rparr>"

definition demo_network :: network where
  "demo_network n q = Inr registry_reply"

definition demo_found :: OfficialRegistryItem where
  "demo_found = \<lparr>it_external_id = ustr_of ''x'', it_source_version = ustr_of ''1'', it_name = ustr_of ''x'',
     it_description = None, it_advertised_urls = [], it_provenance_digest = demo_hex,
     it_normalized_metadata = normalized_json demo_item\<rparr>"

lemma demo_parsed: "parse_page demo_catalog official_limits (\<lambda>_. Scanned False) [5, 6] = Inr ([demo_found], None)"
  by code_simp

lemma demo_received: "receive_page demo_catalog official_limits 0 registry_reply = Inr ([5, 6], 2)"
  by code_simp

definition demo_search :: search_run where
  "demo_search = \<lparr>sr_clock = (\<lambda>k. int k), sr_query_scan = (\<lambda>_. Scanned False), sr_cache_scan = (\<lambda>_ _. Scanned False),
     sr_page_scan = (\<lambda>_ _. Scanned False), sr_network = demo_network, sr_fresh = 7, sr_flushed = True,
     sr_timed_out = (\<lambda>_. False)\<rparr>"

definition empty_catalog :: catalog where
  "empty_catalog = \<lparr>registry_entries = [], registry_entry_versions = [], registry_search_cache = []\<rparr>"

definition demo_row :: RegistrySearchCache where
  "demo_row = \<lparr>rsc_id = 7, rsc_workspace_id = 1, rsc_provider = OFFICIAL_REGISTRY_PROVIDER, rsc_query_digest = demo_hex,
     rsc_response_digest = demo_hex, rsc_normalized_results = JList [normalized_json demo_item], rsc_result_count = 1,
     rsc_byte_count = 39, rsc_fetched_at = 4, rsc_expires_at = 3600000004\<rparr>"

definition filled_catalog :: catalog where
  "filled_catalog = empty_catalog\<lparr>registry_search_cache := [demo_row]\<rparr>"

lemma official_limits_fields:
  "nat (max_pages official_limits) = Suc 4" "max_items official_limits = 100" "limits_accepted official_limits"
  "max_response_bytes official_limits = 262144" "max_workspace_cache_rows official_limits = 100"
  "max_workspace_cache_bytes official_limits = 4194304" "cache_ttl official_limits = 3600000000"
  by (simp_all add: official_limits_def limits_accepted_def seconds_def)

lemma demo_pages: "search_screened demo_catalog official_limits (\<lambda>_ _. Scanned False) demo_network q = Inr [demo_found]"
  unfolding search_screened_def official_limits_fields search_pages.simps
  by (simp add: demo_network_def demo_received demo_parsed official_limits_fields)

definition demo_encoded :: bytes where
  "demo_encoded = projr (official_canonical demo_catalog (JList [normalized_json demo_item]))"

lemma demo_canonical:
  "official_canonical demo_catalog (JList [normalized_json demo_item]) = Inr demo_encoded"
  "length demo_encoded = 39" "validate_bounded_json (JList [normalized_json demo_item])"
  by code_simp+

lemma demo_fetch:
  "fetch_results demo_catalog official_limits demo_search q = Inr ([demo_found], JList [normalized_json demo_item], demo_encoded)"
proof -
  have "it_normalized_metadata demo_found = normalized_json demo_item" by (simp add: demo_found_def)
  then show ?thesis
    using demo_canonical
    by (simp add: fetch_results_def demo_search_def demo_pages Let_def normalized_json_idem official_limits_fields)
qed

lemma demo_query: "screen_query official_limits (sr_query_scan demo_search) (ustr_of ''q'') = Inr (ustr_of ''q'')"
  by code_simp

definition demo_membership :: WorkspaceMembership where
  "demo_membership = \<lparr>mem_workspace_id = 1, mem_user_id = 2, mem_role = ADMIN\<rparr>"

lemma demo_roles:
  "require_current_role site_ctx [ADMIN, OPERATOR] True site = Inr demo_membership"
  "require_current_role site_ctx [ADMIN, OPERATOR] False site = Inr demo_membership"
  by code_simp+

lemma demo_hash: "sha256 demo_catalog b = demo_hex"
  by (simp add: demo_catalog_def screen_externals.defs catalog_externals.defs)

lemma demo_new_row:
  "new_cache_row demo_catalog official_limits site_ctx demo_search demo_hex [demo_found] (JList [normalized_json demo_item]) demo_encoded
     = demo_row"
  by (simp add: new_cache_row_def demo_row_def demo_search_def site_ctx_def demo_hash demo_canonical official_limits_fields)

lemma empty_catalog_miss:
  "registry_search_cache c = [] \<Longrightarrow> read_cache ext limits scan ctx qd t t' c = Miss"
  by (simp add: read_cache_def latest_row_def)

lemma demo_stored:
  "store_results demo_catalog official_limits site_ctx demo_search demo_hex [demo_found] (JList [normalized_json demo_item])
     demo_encoded [] empty_catalog = Inr (search_result demo_row [demo_found] False, filled_catalog)"
  using demo_new_row [unfolded new_cache_row_def] demo_canonical(2)
  by (simp add: store_results_def Let_def in_time_def empty_catalog_miss purge_expired_workspace_cache_def empty_catalog_def
      delete_cache_rows_def workspace_rows_def cache_bytes_def official_limits_fields demo_search_def filled_catalog_def)

lemma demo_searched:
  "official_search demo_catalog official_limits site_ctx (ustr_of ''q'') demo_search (empty_catalog, site) (empty_catalog, site)
     = Inr (search_result demo_row [demo_found] False, filled_catalog)"
proof -
  have "\<not> sr_timed_out demo_search k" for k by (simp add: demo_search_def)
  then show ?thesis
    using demo_stored
    by (simp add: official_search_def in_time_def Let_def demo_roles demo_query demo_hash demo_fetch
        empty_catalog_miss empty_catalog_def)
qed

section \<open>Search\<close>

text \<open>C39. The items a search of the registry delivers are at most the allowed number, no two with the same
  identity and version. Every one has well-formed texts of bounded length, and comes from a page, among
  the allowed number of pages, that the scanner passed: its metadata is the normalized member of the
  list of servers, and its digest the hash of that member's canonical form.\<close>

theorem search_delivers_screened_items:
  assumes "limits_accepted limits" and "adapter_search ext limits query_scan scan net timely query = Inr items"
  shows "int (length items) \<le> max_items limits \<and> distinct (map item_identity items)
    \<and> (\<forall>it \<in> set items. item_well_formed it
         \<and> (\<exists>n payload v. int n < max_pages limits \<and> scan n payload = Scanned False \<and> in_page payload v
              \<and> it_normalized_metadata it = normalized_json v \<and> official_digest ext v = Inr (it_provenance_digest it)))"
proof -
  from assms(2) obtain q where "search_screened ext limits scan net q = Inr items"
    by (auto simp: adapter_search_def and_then_Inr split: if_splits)
  moreover have "0 < max_items limits" using assms(1) by (simp add: limits_accepted_def)
  ultimately have "found_ok ext limits scan items" by (rule search_screened_ok)
  then show ?thesis unfolding found_ok_def screened_item_def item_of_document_def by meson
qed

theorem search_delivers_screened_items_witness:
  "adapter_search demo_catalog official_limits (\<lambda>_. Scanned False) (\<lambda>_ _. Scanned False) demo_network True (ustr_of ''q'')
     = Inr [demo_found] \<and> item_well_formed demo_found"
proof -
  have "screen_query official_limits (\<lambda>_. Scanned False) (ustr_of ''q'') = Inr (ustr_of ''q'')"
    using demo_query by (simp add: demo_search_def)
  then have "adapter_search demo_catalog official_limits (\<lambda>_. Scanned False) (\<lambda>_ _. Scanned False) demo_network True (ustr_of ''q'')
      = Inr [demo_found]" by (simp add: adapter_search_def demo_pages)
  with search_delivers_screened_items [OF official_limits_fields(3) this] show ?thesis by simp
qed

text \<open>C37. After any sequence of searches, imports and purges, of any workspaces, failed ones included, the cache of
  every workspace is within its row and byte quotas, and the catalog is in order: one entry for an
  identity, the versions of an entry numbered without gaps, no digest twice, the newest version current.\<close>

theorem catalog_stays_in_order:
  assumes "limits_accepted limits" and "reach catalog_init (catalog_step ext limits) (c, d)"
  shows "int (length (workspace_rows w c)) \<le> max_workspace_cache_rows limits
    \<and> cache_bytes w c \<le> max_workspace_cache_bytes limits
    \<and> distinct (map entry_key (registry_entries c))
    \<and> (\<forall>e \<in> set (registry_entries c). let vs = versions_of (re_id e) c
         in contiguous (map rev_sequence vs) \<and> distinct (map rev_provenance_digest vs)
            \<and> re_current_version_id e = Some (rev_id (last vs)))"
  using machine.reach_inv [OF catalog_machine [OF assms(1)] assms(2)]
  by (auto simp: catalog_inv_def cache_within_def catalog_ok_def entry_ok_def list_all_iff Let_def)

lemma demo_transaction:
  "search_transaction demo_catalog official_limits (\<lambda>_. True) site_ctx (ustr_of ''q'') demo_search (empty_catalog, site) (empty_catalog, site)
     = (Inr (search_result demo_row [demo_found] False), filled_catalog, site)"
  by (simp add: search_transaction_def settle_def demo_searched)

theorem catalog_stays_in_order_witness:
  "registry_search_cache filled_catalog = [demo_row] \<and> cache_bytes 1 filled_catalog \<le> max_workspace_cache_bytes official_limits"
proof -
  have "reach catalog_init (catalog_step demo_catalog official_limits) (empty_catalog, site)"
    by (rule reach.start) (simp add: catalog_init_def empty_catalog_def)
  then have "reach catalog_init (catalog_step demo_catalog official_limits) (filled_catalog, site)"
    by (rule reach.step) (rule catalog_step.search [OF demo_transaction])
  from catalog_stays_in_order [OF official_limits_fields(3) this, of 1] show ?thesis by (simp add: filled_catalog_def)
qed

text \<open>C38. What a search stored is found again: the next search of the workspace for the same query, while the
  row is fresh, is the newest and the scanner passes it, gives the same items and the same digest from
  the cache, without a request.\<close>

theorem stored_search_is_found_again:
  assumes "limits_accepted limits"
    and "official_search ext limits ctx query run now later = Inr (r, c)" and "\<not> osr_from_cache r"
    and newest: "\<forall>x \<in> set (registry_search_cache c). rsc_id x \<noteq> osr_cache_id r \<longrightarrow> rsc_fetched_at x < osr_fetched_at r"
    and ids: "distinct (map rsc_id (registry_search_cache c))"
    and role: "require_current_role ctx [ADMIN, OPERATOR] False d = Inr m"
    and scans: "sr_query_scan again (JStr (ustr_strip query)) = Scanned False"
      "sr_cache_scan again 0 (JList (map it_normalized_metadata (osr_items r))) = Scanned False"
    and times: "\<forall>k < 2. sr_clock again k < osr_expires_at r \<and> sr_clock again k < osr_fetched_at r + cache_ttl limits
      \<and> \<not> sr_timed_out again k"
  shows "official_search ext limits ctx query again (c, d) later' = Inr (r\<lparr>osr_from_cache := True\<rparr>, fst later')"
  using assms(2)
proof (cases rule: official_search_Inr)
  case (fetched q items results encoded rejected c0)
  let ?qd = "sha256 ext (the (utf8 q))"
  from fetched(4) show ?thesis
  proof (cases rule: store_results_Inr)
    case (stored c2 row)
    have items: "0 < max_items limits" using assms(1) by (simp add: limits_accepted_def)
    have row: "row \<in> set (registry_search_cache c)" "osr_cache_id r = rsc_id row" "osr_fetched_at r = rsc_fetched_at row"
      "osr_expires_at r = rsc_expires_at row" "osr_items r = items"
      by (simp_all add: stored(3,4) search_result_def)
    have "x = row" if "x \<in> set (registry_search_cache c)" "rsc_id x = rsc_id row" for x
      using that row(1) ids by (auto simp: distinct_map dest: inj_onD)
    with newest have new: "rsc_fetched_at x < rsc_fetched_at row" if "x \<in> set (registry_search_cache c)" "x \<noteq> row" for x
      using that row by auto
    have fresh: "fresh_row limits (sr_clock again k) row" if "k < 2" for k
      using times that row by (auto simp: fresh_row_def)
    have "read_cache ext limits (sr_cache_scan again 0) ctx ?qd (sr_clock again 0) (sr_clock again 1) c
        = Hit (search_result row items True)"
      using scans(2) row(5) fetch_results_ok(2) [OF fetched(2) items]
      by (intro read_cache_new_row [OF fetched(2) items stored(2) row(1) new] fresh) simp_all
    moreover have "screen_query limits (sr_query_scan again) query = Inr q"
      using fetched(1) scans(1) by (auto simp: screen_query_def run_scanner_def and_then_Inr split: if_splits)
    moreover have "r\<lparr>osr_from_cache := True\<rparr> = search_result row items True" by (simp add: stored(3) search_result_def)
    ultimately show ?thesis using role times by (simp add: official_search_def Let_def in_time_def)
  qed (use assms(3) in simp)
qed (use assms(3) in simp)

theorem stored_search_is_found_again_witness:
  "official_search demo_catalog official_limits site_ctx (ustr_of ''q'') demo_search (filled_catalog, site) (filled_catalog, site)
     = Inr (search_result demo_row [demo_found] True, filled_catalog)"
proof -
  have row: "registry_search_cache filled_catalog = [demo_row]" by (simp add: filled_catalog_def)
  have "official_search demo_catalog official_limits site_ctx (ustr_of ''q'') demo_search (filled_catalog, site) (filled_catalog, site)
      = Inr ((search_result demo_row [demo_found] False)\<lparr>osr_from_cache := True\<rparr>, fst (filled_catalog, site))"
    by (rule stored_search_is_found_again [OF official_limits_fields(3) demo_searched _ _ _ demo_roles(2)])
      (simp_all add: row search_result_def demo_search_def demo_row_def official_limits_fields)
  then show ?thesis by (simp add: search_result_def)
qed

text \<open>A search that fails, for whatever reason, leaves the database as it was and deletes from the cache
  only rows of its workspace that one of its reads refused: rows that do not parse again, that do not
  match the count, length and digest recorded with them, or that are stale.\<close>

theorem failed_search_deletes_only_refused_rows:
  assumes "search_transaction ext limits cleaned ctx query run now later = (Inl e, c', d')"
    and "distinct (map rsc_id (registry_search_cache (fst later)))"
  shows "d' = snd later \<and> registry_entries c' = registry_entries (fst later)
    \<and> registry_entry_versions c' = registry_entry_versions (fst later)
    \<and> set (registry_search_cache c') \<subseteq> set (registry_search_cache (fst later))
    \<and> (\<forall>r \<in> set (registry_search_cache (fst later)) - set (registry_search_cache c').
         rsc_workspace_id r = ctx_workspace_id ctx
         \<and> (\<exists>k. unacceptable ext limits (sr_cache_scan run k) (sr_clock run (2 * k + 1)) r))"
proof -
  from assms(1) obtain ids where e: "official_search ext limits ctx query run now later = Inl (e, ids)"
    and c': "c' = delete_cache_rows (ctx_workspace_id ctx) (filter cleaned ids) (fst later)" "d' = snd later"
    by (cases "official_search ext limits ctx query run now later") (auto simp: search_transaction_def settle_def split: prod.splits)
  have "\<exists>k. unacceptable ext limits (sr_cache_scan run k) (sr_clock run (2 * k + 1)) r"
    if "r \<in> set (registry_search_cache (fst later))" "rsc_id r \<in> set ids" for r
  proof -
    from official_search_Inl [OF e] that(2) obtain k x where x: "x \<in> set (registry_search_cache (fst later))"
      "rsc_id x = rsc_id r" "unacceptable ext limits (sr_cache_scan run k) (sr_clock run (2 * k + 1)) x"
      unfolding refused_in_def by blast
    have "x = r" using x(1,2) that(1) assms(2) by (auto simp: distinct_map dest: inj_onD)
    with x(3) show ?thesis by blast
  qed
  then show ?thesis unfolding c' by (auto simp: delete_cache_rows_def)
qed

definition demo_outage :: search_run where
  "demo_outage = demo_search\<lparr>sr_cache_scan := (\<lambda>_ _. Scanned True), sr_network := (\<lambda>_ _. Inl NetError)\<rparr>"

lemma demo_refused:
  "read_cache demo_catalog official_limits (\<lambda>_. Scanned True) site_ctx demo_hex 0 1 filled_catalog = Rejected demo_row"
  "read_cache demo_catalog official_limits (\<lambda>_. Scanned True) site_ctx demo_hex 2 3 filled_catalog = Rejected demo_row"
  by code_simp+

lemma demo_no_network: "fetch_results demo_catalog official_limits demo_outage q = Inl UPSTREAM_UNAVAILABLE"
  by (simp add: fetch_results_def search_screened_def official_limits_fields(1) demo_outage_def net_failure_code_def
      del: Suc_numeral)

theorem failed_search_deletes_only_refused_rows_witness:
  "search_transaction demo_catalog official_limits (\<lambda>_. True) site_ctx (ustr_of ''q'') demo_outage (filled_catalog, site) (filled_catalog, site)
     = (Inl (Official UPSTREAM_UNAVAILABLE), empty_catalog, site)
   \<and> (\<exists>k. unacceptable demo_catalog official_limits (sr_cache_scan demo_outage k) (sr_clock demo_outage (2 * k + 1)) demo_row)"
proof -
  have q: "screen_query official_limits (sr_query_scan demo_outage) (ustr_of ''q'') = Inr (ustr_of ''q'')"
    using demo_query by (simp add: demo_outage_def)
  have env: "sr_cache_scan demo_outage k = (\<lambda>_. Scanned True)" "sr_clock demo_outage k = int k" "\<not> sr_timed_out demo_outage k" for k
    by (simp_all add: demo_outage_def demo_search_def)
  have "official_search demo_catalog official_limits site_ctx (ustr_of ''q'') demo_outage (filled_catalog, site) (filled_catalog, site)
      = Inl (Official UPSTREAM_UNAVAILABLE, [7])"
    using demo_refused
    by (simp add: official_search_def in_time_def Let_def demo_roles q demo_hash demo_no_network env demo_row_def)
  then have "search_transaction demo_catalog official_limits (\<lambda>_. True) site_ctx (ustr_of ''q'') demo_outage (filled_catalog, site) (filled_catalog, site)
      = (Inl (Official UPSTREAM_UNAVAILABLE), empty_catalog, site)"
    by (simp add: search_transaction_def settle_def delete_cache_rows_def filled_catalog_def empty_catalog_def
        demo_row_def site_ctx_def)
  with failed_search_deletes_only_refused_rows [OF this] show ?thesis
    by (auto simp: filled_catalog_def empty_catalog_def)
qed

section \<open>Import\<close>

text \<open>Every import, whatever its outcome, leaves the catalog in order: one entry for an identity, its
  versions numbered without gaps, none of them twice, the newest the current one. An import that succeeds
  returns a stored version with the digest asked for, of the entry for the item's identity in the
  caller's workspace; the item comes from a fresh cached document of that workspace whose payload is
  intact and which the scanner passed again. Beside the catalog it adds at most one audit event to the
  database; an import that fails changes neither entries nor versions nor the database.\<close>

theorem import_keeps_provenance:
  assumes "catalog_ok c" and "import_fresh run c"
    and "import_transaction ext limits cleaned ctx cache_id digest corr run c d = (outcome, c', d')"
  shows "catalog_ok c' \<and> (case outcome of
      Inl e \<Rightarrow> registry_entries c' = registry_entries c \<and> registry_entry_versions c' = registry_entry_versions c \<and> d' = d
    | Inr v \<Rightarrow> rev_provenance_digest v = digest \<and> v \<in> set (registry_entry_versions c')
        \<and> (\<exists>row it. cached_source ext limits ctx cache_id run c row it \<and> it_provenance_digest it = digest
             \<and> (\<exists>e \<in> set (registry_entries c'). re_id e = rev_registry_entry_id v
                  \<and> entry_key e = (ctx_workspace_id ctx, OFFICIAL, Some (it_external_id it)))
             \<and> (registry_entry_versions c' = registry_entry_versions c \<and> d' = d
                \<or> registry_entry_versions c' = registry_entry_versions c @ [v] \<and> (\<exists>a. d' = add_audit a d)
                  \<and> rev_normalized_metadata v = Some (it_normalized_metadata it))))"
  using assms(3)
proof (cases rule: import_transaction_cases)
  case (failed e)
  with rows_dropped_catalog_ok assms(1) show ?thesis by (auto simp: rows_dropped_def)
next
  case (imported v row it c1)
  have c1: "catalog_ok c1" "import_fresh run c1" "registry_entry_versions c1 = registry_entry_versions c"
    using assms(1,2) imported(4) rows_dropped_catalog_ok [OF imported(4)] rows_dropped_import_fresh [OF imported(4)]
    by (simp_all add: rows_dropped_def)
  show ?thesis
    using record_import_catalog_ok [OF imported(5) c1(1,2)] record_import_result [OF imported(5) c1(1,2)] imported(1-3) c1(3) by auto
qed

definition demo_import :: import_run where
  "demo_import = \<lparr>ir_clock = (\<lambda>k. 10), ir_scan = (\<lambda>_. Scanned False), ir_fresh_entry = 50, ir_fresh_version = 51,
     ir_fresh_correlation = 52, ir_db = (\<lambda>_. True), ir_timed_out = (\<lambda>_. False)\<rparr>"

definition demo_imported where
  "demo_imported = import_transaction demo_catalog official_limits (\<lambda>_. True) site_ctx 7 demo_hex None demo_import filled_catalog site"

lemma demo_imported_version:
  "(case fst demo_imported of Inl _ \<Rightarrow> None | Inr v \<Rightarrow> Some (rev_sequence v, rev_registry_entry_id v)) = Some (1, 50)"
  by code_simp

theorem import_keeps_provenance_witness:
  "catalog_ok (fst (snd demo_imported)) \<and> (\<exists>v. fst demo_imported = Inr v \<and> rev_provenance_digest v = demo_hex
     \<and> v \<in> set (registry_entry_versions (fst (snd demo_imported))))"
proof -
  have start: "catalog_ok filled_catalog" "import_fresh demo_import filled_catalog"
    by (simp_all add: catalog_ok_def import_fresh_def filled_catalog_def empty_catalog_def)
  obtain v where v: "fst demo_imported = Inr v" using demo_imported_version by (cases "fst demo_imported") auto
  have "import_transaction demo_catalog official_limits (\<lambda>_. True) site_ctx 7 demo_hex None demo_import filled_catalog site
      = (Inr v, fst (snd demo_imported), snd (snd demo_imported))"
    using v by (simp add: demo_imported_def prod_eq_iff)
  from import_keeps_provenance [OF start this] show ?thesis using v by simp
qed

end
