(* ===== verification/Catalog_Permits.thy ===== *)
theory Catalog_Permits
  imports Prelude
begin

text \<open>
  The permits of the scanner processes (\<^verbatim>\<open>registry/official.py\<close>: \<open>_acquire_scanner_process_permit\<close> and
  \<open>_release_scanner_process_permit\<close>), shared by the event loops of several threads. Every section under
  the lock is one step. A task is a number, and so is the waiter it makes; the attributes of the waiters
  are functions of that number. At most four tasks hold a permit, no live waiter is left in the queue
  while a permit is free, and a release never fails.
\<close>

section \<open>State\<close>

record permits =
  pm_available :: int
  pm_deque :: "nat list"
  pm_loop :: "nat \<Rightarrow> nat"
  pm_granted :: "nat \<Rightarrow> bool"
  pm_cancelled :: "nat \<Rightarrow> bool"
  pm_awaiting :: "nat list"
  pm_owners :: "nat list"
  pm_closed :: "nat list"

text \<open>\<open>pm_awaiting\<close> are the tasks suspended at \<open>await waiter.future\<close>; \<open>pm_owners\<close> those that returned from
  the acquisition and have to release, or that were interrupted after the grant and are about to.\<close>

definition SCANNER_PROCESS_LIMIT :: int where
  "SCANNER_PROCESS_LIMIT = 4"

definition initial_permits :: permits where
  "initial_permits = \<lparr>pm_available = SCANNER_PROCESS_LIMIT, pm_deque = [], pm_loop = (\<lambda>_. 0),
     pm_granted = (\<lambda>_. False), pm_cancelled = (\<lambda>_. False), pm_awaiting = [], pm_owners = [], pm_closed = []\<rparr>"

section \<open>Operations\<close>

definition acquire_scanner_process_permit :: "nat \<Rightarrow> nat \<Rightarrow> permits \<Rightarrow> permits" where
  "acquire_scanner_process_permit i loop s =
     (if pm_available s > 0
      then s\<lparr>pm_available := pm_available s - 1, pm_owners := i # pm_owners s\<rparr>
      else s\<lparr>pm_deque := pm_deque s @ [i], pm_loop := (pm_loop s)(i := loop), pm_granted := (pm_granted s)(i := False),
             pm_cancelled := (pm_cancelled s)(i := False), pm_awaiting := i # pm_awaiting s\<rparr>)"

text \<open>The loop of \<open>_release_scanner_process_permit\<close>; \<open>call_soon_threadsafe\<close> raises when the loop is closed.
  \<open>None\<close> is the \<open>RuntimeError\<close> of a release without an acquisition.\<close>

fun release_to :: "nat list \<Rightarrow> permits \<Rightarrow> permits option" where
  "release_to [] s =
     (if pm_available s \<ge> SCANNER_PROCESS_LIMIT then None
      else Some (s\<lparr>pm_deque := [], pm_available := pm_available s + 1\<rparr>))"
| "release_to (i # q) s =
     (if pm_cancelled s i then release_to q s
      else if pm_loop s i \<in> set (pm_closed s)
      then release_to q (s\<lparr>pm_granted := (pm_granted s)(i := True), pm_cancelled := (pm_cancelled s)(i := True)\<rparr>)
      else Some (s\<lparr>pm_deque := q, pm_granted := (pm_granted s)(i := True)\<rparr>))"

definition release_scanner_process_permit :: "permits \<Rightarrow> permits option" where
  "release_scanner_process_permit s = release_to (pm_deque s) s"

text \<open>The owner \<open>i\<close> gives its permit back.\<close>

definition owner_releases :: "nat \<Rightarrow> permits \<Rightarrow> permits option" where
  "owner_releases i s = release_scanner_process_permit (s\<lparr>pm_owners := removeAll i (pm_owners s)\<rparr>)"

text \<open>The future is done and the task runs on; the exception handler when the wait is interrupted.\<close>

definition wait_returns :: "nat \<Rightarrow> permits \<Rightarrow> permits" where
  "wait_returns i s = s\<lparr>pm_awaiting := removeAll i (pm_awaiting s), pm_owners := i # pm_owners s\<rparr>"

definition wait_interrupted :: "nat \<Rightarrow> permits \<Rightarrow> permits" where
  "wait_interrupted i s =
     (if pm_granted s i
      then s\<lparr>pm_awaiting := removeAll i (pm_awaiting s), pm_owners := i # pm_owners s\<rparr>
      else s\<lparr>pm_awaiting := removeAll i (pm_awaiting s), pm_cancelled := (pm_cancelled s)(i := True)\<rparr>)"

section \<open>Steps\<close>

text \<open>A loop may be closed at any time; then its tasks do not run any more.\<close>

inductive permit_step :: "permits \<Rightarrow> permits \<Rightarrow> bool" where
  acquire: "i \<notin> set (pm_deque s) \<Longrightarrow> i \<notin> set (pm_awaiting s) \<Longrightarrow> i \<notin> set (pm_owners s) \<Longrightarrow> loop \<notin> set (pm_closed s)
    \<Longrightarrow> permit_step s (acquire_scanner_process_permit i loop s)"
| resume: "i \<in> set (pm_awaiting s) \<Longrightarrow> pm_granted s i \<Longrightarrow> pm_loop s i \<notin> set (pm_closed s)
    \<Longrightarrow> permit_step s (wait_returns i s)"
| interrupt: "i \<in> set (pm_awaiting s) \<Longrightarrow> pm_loop s i \<notin> set (pm_closed s)
    \<Longrightarrow> permit_step s (wait_interrupted i s)"
| release: "i \<in> set (pm_owners s) \<Longrightarrow> owner_releases i s = Some s' \<Longrightarrow> permit_step s s'"
| close: "permit_step s (s\<lparr>pm_closed := l # pm_closed s\<rparr>)"

abbreviation permits_reachable :: "permits \<Rightarrow> bool" where
  "permits_reachable \<equiv> reach (\<lambda>s. s = initial_permits) permit_step"

section \<open>The invariant\<close>

text \<open>A grant under way: the waiter has the permit, its task has not run yet.\<close>

definition grants :: "permits \<Rightarrow> nat set" where
  "grants s = {i \<in> set (pm_awaiting s). pm_granted s i \<and> \<not> pm_cancelled s i}"

definition live_waiters :: "permits \<Rightarrow> nat set" where
  "live_waiters s = {i \<in> set (pm_deque s). \<not> pm_cancelled s i}"

definition waiters_ok :: "permits \<Rightarrow> bool" where
  "waiters_ok s \<longleftrightarrow> distinct (pm_deque s) \<and> distinct (pm_owners s)
     \<and> (\<forall>i \<in> set (pm_deque s). \<not> pm_granted s i \<and> i \<notin> set (pm_owners s) \<and> (pm_cancelled s i \<or> i \<in> set (pm_awaiting s)))
     \<and> (\<forall>i \<in> set (pm_awaiting s). i \<notin> set (pm_owners s)
          \<and> (pm_granted s i \<or> i \<in> set (pm_deque s)) \<and> (pm_cancelled s i \<longrightarrow> pm_granted s i \<and> pm_loop s i \<in> set (pm_closed s)))"

definition permits_ok :: "permits \<Rightarrow> bool" where
  "permits_ok s \<longleftrightarrow> waiters_ok s \<and> 0 \<le> pm_available s
     \<and> pm_available s + int (length (pm_owners s)) + int (card (grants s)) = SCANNER_PROCESS_LIMIT
     \<and> (pm_available s > 0 \<longrightarrow> live_waiters s = {})"

lemma finite_grants [simp]: "finite (grants s)"
  by (simp add: grants_def)

lemma initial_ok: "permits_ok initial_permits"
  by (simp add: permits_ok_def waiters_ok_def initial_permits_def grants_def live_waiters_def SCANNER_PROCESS_LIMIT_def)

section \<open>Every step keeps it\<close>

lemma acquire_ok:
  assumes "permits_ok s" "i \<notin> set (pm_deque s)" "i \<notin> set (pm_awaiting s)" "i \<notin> set (pm_owners s)"
  shows "permits_ok (acquire_scanner_process_permit i loop s)"
proof (cases "pm_available s > 0")
  case True
  then have "grants (acquire_scanner_process_permit i loop s) = grants s"
    by (simp add: acquire_scanner_process_permit_def grants_def)
  with True assms show ?thesis
    by (auto simp: permits_ok_def waiters_ok_def acquire_scanner_process_permit_def live_waiters_def)
next
  case False
  then have "grants (acquire_scanner_process_permit i loop s) = grants s"
    using assms(3) by (auto simp: acquire_scanner_process_permit_def grants_def)
  with False assms show ?thesis
    by (auto simp: permits_ok_def waiters_ok_def acquire_scanner_process_permit_def)
qed

text \<open>The task of a grant under way becomes an owner.\<close>

lemma grant_taken_ok:
  assumes ok: "permits_ok s" and i: "i \<in> grants s"
  shows "permits_ok (s\<lparr>pm_awaiting := removeAll i (pm_awaiting s), pm_owners := i # pm_owners s\<rparr>)"
proof -
  let ?t = "s\<lparr>pm_awaiting := removeAll i (pm_awaiting s), pm_owners := i # pm_owners s\<rparr>"
  have g: "grants ?t = grants s - {i}" by (auto simp: grants_def)
  have "card (grants ?t) + 1 = card (grants s)"
    unfolding g using card_Suc_Diff1 [OF finite_grants i] by simp
  moreover have "live_waiters ?t = live_waiters s" by (simp add: live_waiters_def)
  ultimately show ?thesis
    using ok i by (auto simp: permits_ok_def waiters_ok_def grants_def)
qed

lemma granted_is_grant:
  "permits_ok s \<Longrightarrow> i \<in> set (pm_awaiting s) \<Longrightarrow> pm_granted s i \<Longrightarrow> pm_loop s i \<notin> set (pm_closed s) \<Longrightarrow> i \<in> grants s"
  by (auto simp: permits_ok_def waiters_ok_def grants_def)

lemma interrupt_ok:
  assumes ok: "permits_ok s" and i: "i \<in> set (pm_awaiting s)" "pm_loop s i \<notin> set (pm_closed s)"
  shows "permits_ok (wait_interrupted i s)"
proof (cases "pm_granted s i")
  case True
  with grant_taken_ok [OF ok granted_is_grant [OF ok i(1) True i(2)]] show ?thesis
    by (simp add: wait_interrupted_def)
next
  case False
  then have "grants (wait_interrupted i s) = grants s" "live_waiters (wait_interrupted i s) \<subseteq> live_waiters s"
    by (auto simp: wait_interrupted_def grants_def live_waiters_def)
  with False ok i show ?thesis
    by (auto simp: permits_ok_def waiters_ok_def wait_interrupted_def)
qed

text \<open>A permit in hand, to be passed on to the rest \<open>q\<close> of the queue.\<close>

definition passing :: "nat list \<Rightarrow> permits \<Rightarrow> bool" where
  "passing q s \<longleftrightarrow> waiters_ok (s\<lparr>pm_deque := q\<rparr>) \<and> 0 \<le> pm_available s
     \<and> pm_available s + int (length (pm_owners s)) + int (card (grants s)) = SCANNER_PROCESS_LIMIT - 1
     \<and> (pm_available s > 0 \<longrightarrow> live_waiters (s\<lparr>pm_deque := q\<rparr>) = {})"

lemma passing_granted:
  assumes "passing (i # q) s" "\<not> pm_cancelled s i"
  shows "permits_ok (s\<lparr>pm_deque := q, pm_granted := (pm_granted s)(i := True)\<rparr>)"
proof -
  let ?t = "s\<lparr>pm_deque := q, pm_granted := (pm_granted s)(i := True)\<rparr>"
  have "i \<in> set (pm_awaiting s)" "i \<notin> grants s" "pm_available s = 0"
    using assms by (auto simp: passing_def waiters_ok_def grants_def live_waiters_def)
  moreover from this have "grants ?t = insert i (grants s)" using assms(2) by (auto simp: grants_def)
  ultimately show ?thesis using assms by (auto simp: passing_def permits_ok_def waiters_ok_def)
qed

lemma passing_skipped:
  assumes "passing (i # q) s" and "pm_loop s i \<in> set (pm_closed s)"
  shows "passing q (s\<lparr>pm_granted := (pm_granted s)(i := True), pm_cancelled := (pm_cancelled s)(i := True)\<rparr>)"
proof -
  let ?t = "s\<lparr>pm_granted := (pm_granted s)(i := True), pm_cancelled := (pm_cancelled s)(i := True)\<rparr>"
  have "grants ?t = grants s" using assms(1) by (auto simp: grants_def passing_def waiters_ok_def)
  moreover have "live_waiters (?t\<lparr>pm_deque := q\<rparr>) \<subseteq> live_waiters (s\<lparr>pm_deque := i # q\<rparr>)"
    by (auto simp: live_waiters_def)
  ultimately show ?thesis using assms by (auto simp: passing_def waiters_ok_def)
qed

lemma passing_cancelled: "passing (i # q) s \<Longrightarrow> pm_cancelled s i \<Longrightarrow> passing q s"
  by (auto simp: passing_def waiters_ok_def live_waiters_def)

lemma release_to_ok: "passing q s \<Longrightarrow> \<exists>s'. release_to q s = Some s' \<and> permits_ok s'"
proof (induction q s rule: release_to.induct)
  case (1 s)
  have "grants (s\<lparr>pm_deque := [], pm_available := pm_available s + 1\<rparr>) = grants s" by (simp add: grants_def)
  with 1 show ?case by (auto simp: passing_def permits_ok_def waiters_ok_def live_waiters_def)
next
  case (2 i q s)
  then show ?case using passing_granted passing_skipped passing_cancelled by (auto simp del: fun_upd_apply)
qed

lemma owner_releases_ok:
  assumes ok: "permits_ok s" and i: "i \<in> set (pm_owners s)"
  shows "\<exists>s'. owner_releases i s = Some s' \<and> permits_ok s'"
proof -
  let ?t = "s\<lparr>pm_owners := removeAll i (pm_owners s)\<rparr>"
  have "distinct (pm_owners s)" using ok by (simp add: permits_ok_def waiters_ok_def)
  with i have "int (length (removeAll i (pm_owners s))) = int (length (pm_owners s)) - 1"
    using length_pos_if_in_set [OF i] length_remove1 [of i "pm_owners s"]
    by (simp only: distinct_remove1_removeAll if_True)
  moreover have "grants ?t = grants s" "live_waiters ?t = live_waiters s" by (simp_all add: grants_def live_waiters_def)
  ultimately have "passing (pm_deque s) ?t"
    using ok by (auto simp: passing_def permits_ok_def waiters_ok_def distinct_removeAll live_waiters_def)
  then show ?thesis using release_to_ok by (simp add: owner_releases_def release_scanner_process_permit_def)
qed

lemma close_ok: "permits_ok s \<Longrightarrow> permits_ok (s\<lparr>pm_closed := l # pm_closed s\<rparr>)"
  by (auto simp: permits_ok_def waiters_ok_def grants_def live_waiters_def)

lemma permit_step_ok: "permit_step s s' \<Longrightarrow> permits_ok s \<Longrightarrow> permits_ok s'"
proof (induction rule: permit_step.induct)
  case (resume i s)
  with grant_taken_ok [OF _ granted_is_grant] show ?case by (simp add: wait_returns_def)
next
  case (release i s s')
  with owner_releases_ok [of s i] show ?case by auto
qed (auto intro: acquire_ok interrupt_ok close_ok)

interpretation permit_machine: machine "\<lambda>s. s = initial_permits" permit_step permits_ok
  by unfold_locales (simp add: initial_ok, rule permit_step_ok)

text \<open>A release goes to the first waiter in the queue that can still be woken.\<close>

definition wakeable :: "permits \<Rightarrow> nat list" where
  "wakeable s = filter (\<lambda>j. \<not> pm_cancelled s j \<and> pm_loop s j \<notin> set (pm_closed s)) (pm_deque s)"

lemma release_to_first:
  assumes "filter (\<lambda>j. \<not> pm_cancelled s j \<and> pm_loop s j \<notin> set (pm_closed s)) q = w # rest"
    and "distinct q" and "release_to q s = Some s'"
  shows "pm_granted s' w \<and> \<not> pm_cancelled s' w \<and> pm_awaiting s' = pm_awaiting s \<and> pm_available s' = pm_available s"
  using assms
proof (induction q s rule: release_to.induct)
  case (2 i q s)
  show ?case
  proof (cases "pm_cancelled s i \<or> pm_loop s i \<notin> set (pm_closed s)")
    case True
    with 2 show ?thesis by (auto split: if_splits)
  next
    case False
    let ?t = "s\<lparr>pm_granted := (pm_granted s)(i := True), pm_cancelled := (pm_cancelled s)(i := True)\<rparr>"
    have "filter (\<lambda>j. \<not> pm_cancelled ?t j \<and> pm_loop ?t j \<notin> set (pm_closed ?t)) q
        = filter (\<lambda>j. \<not> pm_cancelled s j \<and> pm_loop s j \<notin> set (pm_closed s)) q"
      using 2(4) by (auto intro: filter_cong)
    with False 2 show ?thesis by simp
  qed
qed simp

lemma owner_releases_first:
  assumes ok: "permits_ok s" and i: "i \<in> set (pm_owners s)" and w: "wakeable s = w # rest"
  shows "\<exists>s'. owner_releases i s = Some s' \<and> w \<in> grants s' \<and> pm_available s' = pm_available s"
proof -
  from owner_releases_ok [OF ok i] obtain s' where s': "owner_releases i s = Some s'" "permits_ok s'" by blast
  let ?t = "s\<lparr>pm_owners := removeAll i (pm_owners s)\<rparr>"
  have "w \<in> set (wakeable s)" by (simp add: w)
  with ok have "w \<in> set (pm_awaiting s)" by (auto simp: wakeable_def permits_ok_def waiters_ok_def)
  moreover have "pm_granted s' w \<and> \<not> pm_cancelled s' w \<and> pm_awaiting s' = pm_awaiting ?t \<and> pm_available s' = pm_available ?t"
    by (rule release_to_first [of ?t "pm_deque s" w rest])
      (use ok w s'(1) in \<open>simp_all add: wakeable_def owner_releases_def release_scanner_process_permit_def
          permits_ok_def waiters_ok_def\<close>)
  ultimately show ?thesis using s'(1) by (auto simp: grants_def)
qed

section \<open>Theorems\<close>


text \<open>Five tasks ask for a permit; the fifth waits, in loop 1.\<close>

definition five_tasks :: permits where
  "five_tasks = acquire_scanner_process_permit 5 1 (fold (\<lambda>i. acquire_scanner_process_permit i 0) [1, 2, 3, 4] initial_permits)"

lemmas permit_eval = five_tasks_def acquire_scanner_process_permit_def initial_permits_def SCANNER_PROCESS_LIMIT_def

lemma acquire_reachable:
  "permits_reachable s \<Longrightarrow> i \<notin> set (pm_deque s) \<Longrightarrow> i \<notin> set (pm_awaiting s) \<Longrightarrow> i \<notin> set (pm_owners s)
     \<Longrightarrow> l \<notin> set (pm_closed s) \<Longrightarrow> permits_reachable (acquire_scanner_process_permit i l s)"
  by (rule reach.step, assumption, rule permit_step.acquire)

lemma five_tasks_reachable: "permits_reachable five_tasks"
proof -
  let ?s = "\<lambda>a is. initial_permits\<lparr>pm_available := a, pm_owners := is\<rparr>"
  have go: "permits_reachable (?s (a - 1) (i # is))" if "permits_reachable (?s a is)" "a > 0" "i \<notin> set is" for i a "is"
    using acquire_reachable [OF that(1), of i 0] that(2,3)
    by (simp add: acquire_scanner_process_permit_def initial_permits_def)
  have "permits_reachable (?s 4 [])"
    by (rule reach.start) (simp add: initial_permits_def SCANNER_PROCESS_LIMIT_def)
  from go [OF this, of 1] have "permits_reachable (?s 3 [1])" by simp
  from go [OF this, of 2] have "permits_reachable (?s 2 [2, 1])" by simp
  from go [OF this, of 3] have "permits_reachable (?s 1 [3, 2, 1])" by simp
  from go [OF this, of 4] have "permits_reachable (?s 0 [4, 3, 2, 1])" by simp
  from acquire_reachable [OF this, of 5 1] show ?thesis by (simp add: permit_eval)
qed

lemma five_tasks_facts:
  "pm_owners five_tasks = [4, 3, 2, 1]" "wakeable five_tasks = [5]" "pm_awaiting five_tasks = [5]"
  by (simp_all add: permit_eval wakeable_def)


text \<open>The wait of a task whose loop was closed can still end: its coroutine is finalized. When a release
  has met the closed loop before, the waiter is marked granted, though the permit went on, and the
  handler releases a permit the task never had: five are then in circulation.\<close>

lemma finalized_waiter_frees_a_permit:
  "\<exists>s. permits_reachable s \<and> 5 \<in> set (pm_awaiting s)
     \<and> (\<exists>t. owner_releases 5 (wait_interrupted 5 s) = Some t
          \<and> pm_available t + int (length (pm_owners t)) = SCANNER_PROCESS_LIMIT + 1)"
proof -
  let ?c = "five_tasks\<lparr>pm_closed := [1]\<rparr>"
  have c: "permits_reachable ?c"
    using reach.step [OF five_tasks_reachable permit_step.close [of _ 1]] by (simp add: permit_eval)
  have "\<exists>s. owner_releases 1 ?c = Some s \<and> 5 \<in> set (pm_awaiting s)
     \<and> (\<exists>t. owner_releases 5 (wait_interrupted 5 s) = Some t
          \<and> pm_available t + int (length (pm_owners t)) = SCANNER_PROCESS_LIMIT + 1)"
    by (simp add: permit_eval owner_releases_def release_scanner_process_permit_def wait_interrupted_def)
  then show ?thesis using reach.step [OF c permit_step.release [of 1]] by (auto simp: five_tasks_facts)
qed

end
