(* ===== verification/Adapter_Errors.thy ===== *)
theory Adapter_Errors
  imports Exec_Types
begin

text \<open>
  The exceptions the client adapter and the workers tell apart (\<^verbatim>\<open>mcp_adapter/client.py\<close>,
  \<^verbatim>\<open>registry/runner.py\<close>), with the groups a task group raises and the causes that \<open>raise ... from\<close> records.
\<close>

datatype InvocationFailureCode = PREPARATION_FAILED | SESSION_INITIALIZATION_FAILED | TOOL_CALL_FAILED
  | UNSUPPORTED_RESULT_CONTENT | SENSITIVE_RESULT | INVALID_UPSTREAM_OUTPUT

datatype invocation_class = InvocationError | InvocationIndeterminate | InvocationFenceRejected
datatype discovery_class = DiscoveryError | ProtocolMismatch | CredentialError | SensitiveResponseError

text \<open>\<open>TimedOut\<close> is \<open>TimeoutError\<close> or \<open>httpx.TimeoutException\<close>, \<open>ServiceError\<close> an exception of a service,
  \<open>Cancelled\<close> stands for the exceptions that are no \<open>Exception\<close>.\<close>

datatype exn = Invocation invocation_class InvocationFailureCode bool | Discovery discovery_class
  | EndpointPolicyError | EndpointResolutionError | ResponseLimitError | TimedOut
  | HTTPStatusError nat | HTTPError | McpError | KeyError | ServiceError svc_error | OtherError
  | ExceptionGroup | Cancelled

datatype raised = Raised exn "raised list" "raised option"

primrec exn_of :: "raised \<Rightarrow> exn" where
  "exn_of (Raised e members cause) = e"

definition error :: "exn \<Rightarrow> raised" where
  "error e = Raised e [] None"

text \<open>\<open>raise e from cause\<close>.\<close>

definition error_from :: "exn \<Rightarrow> raised \<Rightarrow> raised" where
  "error_from e cause = Raised e [] (Some cause)"

text \<open>What \<open>except Exception\<close> catches: a group is an \<open>Exception\<close> when all its members are.\<close>

fun is_exception :: "raised \<Rightarrow> bool" and all_exceptions :: "raised list \<Rightarrow> bool" where
  "is_exception (Raised e members cause) \<longleftrightarrow>
     e \<noteq> Cancelled \<and> (e = ExceptionGroup \<longrightarrow> all_exceptions members)"
| "all_exceptions [] \<longleftrightarrow> True"
| "all_exceptions (r # rs) \<longleftrightarrow> is_exception r \<and> all_exceptions rs"

text \<open>\<open>_find_exception\<close>: the first of the given kind, in the groups but not among the causes.\<close>

fun find_exception :: "(exn \<Rightarrow> bool) \<Rightarrow> raised \<Rightarrow> raised option"
  and find_member :: "(exn \<Rightarrow> bool) \<Rightarrow> raised list \<Rightarrow> raised option" where
  "find_exception kind (Raised e members cause) =
     (if kind e then Some (Raised e members cause)
      else if e = ExceptionGroup then find_member kind members else None)"
| "find_member kind [] = None"
| "find_member kind (r # rs) = (case find_exception kind r of Some x \<Rightarrow> Some x | None \<Rightarrow> find_member kind rs)"

text \<open>\<open>_flatten\<close> of the discovery runner: the error, the members of a group, and the causes.\<close>

fun flatten :: "raised \<Rightarrow> exn list" and flatten_all :: "raised list \<Rightarrow> exn list" where
  "flatten (Raised e members cause) =
     e # (if e = ExceptionGroup then flatten_all members else [])
       @ (case cause of None \<Rightarrow> [] | Some r \<Rightarrow> flatten r)"
| "flatten_all [] = []"
| "flatten_all (r # rs) = flatten r @ flatten_all rs"

section \<open>Classes\<close>

fun is_invocation :: "exn \<Rightarrow> bool" where
  "is_invocation (Invocation k c d) = True"
| "is_invocation _ = False"

fun is_discovery :: "exn \<Rightarrow> bool" where
  "is_discovery (Discovery k) = True"
| "is_discovery _ = False"

text \<open>The exceptions an error carries in its groups.\<close>

fun carried :: "raised \<Rightarrow> exn set" and carried_all :: "raised list \<Rightarrow> exn set" where
  "carried (Raised e members cause) = insert e (if e = ExceptionGroup then carried_all members else {})"
| "carried_all [] = {}"
| "carried_all (r # rs) = carried r \<union> carried_all rs"

lemma map_sum_Inr_iff: "map_sum f g x = Inr y \<longleftrightarrow> (\<exists>z. x = Inr z \<and> y = g z)"
  by (cases x) auto

lemma map_sum_Inl_iff: "map_sum f g x = Inl y \<longleftrightarrow> (\<exists>z. x = Inl z \<and> y = f z)"
  by (cases x) auto

lemma find_exception_Some:
  "find_exception kind r = Some x \<Longrightarrow> kind (exn_of x) \<and> exn_of x \<in> carried r"
  "find_member kind rs = Some x \<Longrightarrow> kind (exn_of x) \<and> exn_of x \<in> carried_all rs"
  by (induction kind r and kind rs rule: find_exception_find_member.induct)
    (auto split: option.splits if_splits)

lemma find_exception_None:
  "find_exception kind r = None \<longleftrightarrow> (\<forall>e \<in> carried r. \<not> kind e)"
  "find_member kind rs = None \<longleftrightarrow> (\<forall>e \<in> carried_all rs. \<not> kind e)"
  by (induction kind r and kind rs rule: find_exception_find_member.induct) (auto split: option.splits)

lemma carried_flatten:
  "carried r \<subseteq> set (flatten r)" "carried_all rs \<subseteq> set (flatten_all rs)"
  by (induction r and rs rule: flatten_flatten_all.induct) auto

end
