(* ===== verification/Adapter_Invoke.thy ===== *)
theory Adapter_Invoke
  imports Adapter_Errors Catalog_Pages Upstream_Transport Exec_Admission
begin

text \<open>
  \<open>McpClientAdapter.invoke\<close> of \<^verbatim>\<open>mcp_adapter/client.py\<close>: the credential, the session, the classification of
  what went wrong, and the normalization of a result. The MCP SDK is a parameter: what each of its calls
  returned or raised, and what leaving its contexts made of it. So are the two fences, and the flags of
  the screened transport at the end of the session.
\<close>

section \<open>Configuration\<close>

record adapter_config =
  ac_limits :: TransportLimits
  ac_max_pages :: int
  ac_max_tools :: int
  ac_max_result_bytes :: int
  ac_schema_validation_timeout_seconds :: pyfloat
  ac_schema_validation_memory_bytes :: int

definition adapter_init ::
  "TransportLimits \<Rightarrow> int \<Rightarrow> int \<Rightarrow> int option \<Rightarrow> pyfloat \<Rightarrow> int \<Rightarrow> svc_error + adapter_config" where
  "adapter_init limits pages tools result_bytes timeout memory =
     (let bytes = (case result_bytes of None \<Rightarrow> tl_response_bytes limits | Some n \<Rightarrow> n)
      in if pages < 1 \<or> tools < 1 \<or> bytes < 1
            \<or> \<not> (case timeout of Fin q \<Rightarrow> 0 < q \<and> q \<le> 5 | _ \<Rightarrow> False)
            \<or> \<not> (64 * 1024 * 1024 \<le> memory \<and> memory \<le> 256 * 1024 * 1024)
         then Inl ValueError
         else Inr \<lparr>ac_limits = limits, ac_max_pages = pages, ac_max_tools = tools, ac_max_result_bytes = bytes,
                   ac_schema_validation_timeout_seconds = timeout, ac_schema_validation_memory_bytes = memory\<rparr>)"

text \<open>\<open>entropy_term n k\<close> is \<open>k * math.log2(n / k)\<close> and \<open>float_sum\<close> the built-in \<open>sum\<close>, as floats.\<close>

record adapter_externals = screen_externals +
  adapter_sha256 :: "bytes \<Rightarrow> string"
  entropy_term :: "nat \<Rightarrow> nat \<Rightarrow> rat"
  float_sum :: "rat list \<Rightarrow> rat"
  validate_schema_arguments :: "json \<Rightarrow> json \<Rightarrow> SchemaValidationResult"
  re2_compiles :: "ustr \<Rightarrow> bool"
  check_schema :: "json \<Rightarrow> bool"
  resolver_lookup :: "json \<Rightarrow> ustr \<Rightarrow> json option"

section \<open>Credentials\<close>

definition counter :: "ustr \<Rightarrow> nat list" where
  "counter s = map (count_list s) (rev (remdups (rev s)))"

definition credential_entropy_bits :: "'e adapter_externals_scheme \<Rightarrow> ustr \<Rightarrow> rat" where
  "credential_entropy_bits ext credential =
     float_sum ext (map (entropy_term ext (length credential)) (counter credential))"

definition credential_accepted :: "'e adapter_externals_scheme \<Rightarrow> ustr \<Rightarrow> bool" where
  "credential_accepted ext credential \<longleftrightarrow> \<not> (length credential < 16 \<or> length credential > 4096
     \<or> list_ex (\<lambda>c. \<not> (33 \<le> c \<and> c \<le> 126)) credential \<or> credential_entropy_bits ext credential < 64)"

text \<open>The text of a bearer token: \<open>None\<close> when it must not be sent to this endpoint.\<close>

definition bearer_credential :: "'e adapter_externals_scheme \<Rightarrow> ustr \<Rightarrow> bytes \<Rightarrow> ustr option" where
  "bearer_credential ext endpoint token =
     (if take 8 (str_lower ext endpoint) \<noteq> ustr_of ''https://'' then None
      else if list_ex (\<lambda>b. b \<ge> 128) token then None
      else if \<not> credential_accepted ext token then None else Some token)"

definition request_headers :: "ustr option \<Rightarrow> (ustr \<times> ustr) list" where
  "request_headers credential = (ustr_of ''Accept-Encoding'', ustr_of ''identity'')
     # (case credential of None \<Rightarrow> [] | Some c \<Rightarrow> [(ustr_of ''Authorization'', ustr_of ''Bearer '' @ c)])"

definition forbidden_response_values :: "ustr option \<Rightarrow> ustr list" where
  "forbidden_response_values credential =
     (case credential of None \<Rightarrow> [] | Some c \<Rightarrow> [c, butlast (tl (ascii_json_string c))])"

primrec credential_rounds :: "'e adapter_externals_scheme \<Rightarrow> ustr \<Rightarrow> nat \<Rightarrow> ustr \<Rightarrow> bool" where
  "credential_rounds ext credential 0 text = False"
| "credential_rounds ext credential (Suc n) text =
     (if sublist credential text then True
      else (case unquote_strict ext text of
              None \<Rightarrow> False
            | Some next_text \<Rightarrow> if next_text = text then False else credential_rounds ext credential n next_text))"

definition contains_decoded_credential :: "'e adapter_externals_scheme \<Rightarrow> json \<Rightarrow> ustr \<Rightarrow> bool" where
  "contains_decoded_credential ext v credential \<longleftrightarrow> list_ex (credential_rounds ext credential 4) (json_texts v)"

section \<open>Results\<close>

datatype content_block = TextContent ustr | OtherContent

record CallToolResult =
  ctr_is_error :: bool
  ctr_content :: "content_block list"
  ctr_structured :: "json option"

record InvocationResult =
  inv_payload :: json
  inv_canonical_digest :: string
  inv_byte_count :: nat

fun text_blocks :: "content_block list \<Rightarrow> json list option" where
  "text_blocks [] = Some []"
| "text_blocks (TextContent t # bs) = map_option ((#) (JDict [(ustr_of ''type'', JStr (ustr_of ''text'')), (ustr_of ''text'', JStr t)]))
     (text_blocks bs)"
| "text_blocks (OtherContent # bs) = None"

definition result_payload :: "json list \<Rightarrow> json option \<Rightarrow> json" where
  "result_payload content structured = JDict ((ustr_of ''content'', JList content)
     # (case structured of None \<Rightarrow> [] | Some v \<Rightarrow> [(ustr_of ''structuredContent'', v)]))"

text \<open>\<open>_normalize_invocation_result\<close>; every error is an \<open>InvocationError\<close> of a dispatched call.\<close>

definition normalize_invocation_result ::
  "'e adapter_externals_scheme \<Rightarrow> adapter_config \<Rightarrow> json option \<Rightarrow> ustr option \<Rightarrow> CallToolResult
     \<Rightarrow> InvocationFailureCode + InvocationResult" where
  "normalize_invocation_result ext cfg output_schema credential result =
     (if ctr_is_error result then Inl TOOL_CALL_FAILED
      else
        (case text_blocks (ctr_content result) of
           None \<Rightarrow> Inl UNSUPPORTED_RESULT_CONTENT
         | Some content \<Rightarrow>
             if (case ctr_structured result of None \<Rightarrow> False | Some (JDict _) \<Rightarrow> False | _ \<Rightarrow> True)
             then Inl INVALID_UPSTREAM_OUTPUT
             else
               (let payload = result_payload content (ctr_structured result)
                in if \<not> validate_bounded_json payload then Inl INVALID_UPSTREAM_OUTPUT
                   else
                     (case canonical_json (meta_float_repr ext) payload of
                        None \<Rightarrow> Inl INVALID_UPSTREAM_OUTPUT
                      | Some canonical \<Rightarrow>
                          if int (length canonical) > ac_max_result_bytes cfg then Inl INVALID_UPSTREAM_OUTPUT
                          else if screen_externals.contains_sensitive_json ext payload
                             \<or> (case credential of None \<Rightarrow> False | Some c \<Rightarrow> contains_decoded_credential ext payload c)
                          then Inl SENSITIVE_RESULT
                          else if (case output_schema of
                                     None \<Rightarrow> False
                                   | Some schema \<Rightarrow>
                                       (case ctr_structured result of
                                          None \<Rightarrow> True
                                        | Some v \<Rightarrow> validate_schema_arguments ext v schema \<noteq> VALID))
                          then Inl INVALID_UPSTREAM_OUTPUT
                          else Inr \<lparr>inv_payload = payload, inv_canonical_digest = adapter_sha256 ext canonical,
                                    inv_byte_count = length canonical\<rparr>))))"

section \<open>The session\<close>

text \<open>What happens around one call. \<open>iw_leave e\<close> is the exception that comes out of the contexts of the
  client and the session when \<open>e\<close> is raised in them or, with \<open>None\<close>, nothing is. \<open>iw_transport\<close> are the
  flags of the transport afterwards, and \<open>iw_expired\<close> tells that the total timeout struck, so that the
  cancellation it caused leaves as a timeout.\<close>

record invocation_world =
  iw_before_session :: "raised option"
  iw_validate :: "raised option"
  iw_initialize :: "raised + ustr"
  iw_notify :: "raised option"
  iw_before_dispatch :: "raised option"
  iw_call_tool :: "raised + CallToolResult"
  iw_leave :: "raised option \<Rightarrow> raised option"
  iw_transport :: session
  iw_interrupted :: "raised option"
  iw_expired :: bool

text \<open>The body of the contexts in \<open>_invoke\<close>, with the flag that \<open>dispatch\<close> sets after its fence returned.\<close>

definition session_body :: "invocation_world \<Rightarrow> bool \<times> (raised + CallToolResult)" where
  "session_body w =
     (case iw_initialize w of
        Inl r \<Rightarrow> (False, Inl r)
      | Inr version \<Rightarrow>
          if version \<noteq> QUALIFIED_PROTOCOL_REVISION
          then (False, Inl (error (Invocation InvocationError SESSION_INITIALIZATION_FAILED False)))
          else
            (case iw_notify w of
               Some r \<Rightarrow> (False, Inl r)
             | None \<Rightarrow>
                 (case iw_before_dispatch w of
                    Some r \<Rightarrow> (False, Inl r)
                  | None \<Rightarrow> (True, iw_call_tool w))))"

text \<open>A result that was received survives an exception of the contexts.\<close>

definition invoke_session :: "invocation_world \<Rightarrow> bool \<times> (raised + CallToolResult)" where
  "invoke_session w =
     (let (dispatched, body) = session_body w
      in (dispatched,
          case body of
            Inr result \<Rightarrow>
              (case iw_leave w None of
                 None \<Rightarrow> Inr result
               | Some e \<Rightarrow> if exn_of e = Cancelled \<or> is_exception e then Inr result else Inl e)
          | Inl r \<Rightarrow>
              (case iw_leave w (Some r) of
                 Some e \<Rightarrow> Inl e
               | None \<Rightarrow> Inl (error (Invocation InvocationIndeterminate TOOL_CALL_FAILED True)))))"

section \<open>Classification\<close>

definition completed_in :: "session option \<Rightarrow> bool" where
  "completed_in transport \<longleftrightarrow> (case transport of None \<Rightarrow> False | Some ss \<Rightarrow> ss_completed ss)"

text \<open>The handlers of \<open>invoke\<close>.\<close>

definition classify_failure :: "bool \<Rightarrow> bool \<Rightarrow> session option \<Rightarrow> raised \<Rightarrow> raised" where
  "classify_failure dispatched response_received transport e =
     (if is_invocation (exn_of e) \<or> \<not> is_exception e then e
      else if (case transport of None \<Rightarrow> False | Some ss \<Rightarrow> ss_sensitive ss)
      then
        (if dispatched \<and> \<not> response_received \<and> \<not> completed_in transport
         then error_from (Invocation InvocationIndeterminate SENSITIVE_RESULT True) e
         else error_from (Invocation InvocationError SENSITIVE_RESULT dispatched) e)
      else
        (case find_exception is_invocation e of
           Some nested \<Rightarrow> error_from (exn_of nested) e
         | None \<Rightarrow>
             if dispatched \<and> completed_in transport \<and> (case transport of None \<Rightarrow> False | Some ss \<Rightarrow> ss_failed ss)
             then error_from (Invocation InvocationError TOOL_CALL_FAILED True) e
             else if dispatched \<and> completed_in transport \<and> find_exception (\<lambda>x. x = McpError) e \<noteq> None
             then error_from (Invocation InvocationError INVALID_UPSTREAM_OUTPUT True) e
             else if dispatched
             then
               (if response_received \<or> completed_in transport
                then error_from (Invocation InvocationError INVALID_UPSTREAM_OUTPUT True) e
                else error_from (Invocation InvocationIndeterminate TOOL_CALL_FAILED True) e)
             else error_from (Invocation InvocationError SESSION_INITIALIZATION_FAILED False) e))"

definition timeout_exit :: "invocation_world \<Rightarrow> raised \<Rightarrow> raised" where
  "timeout_exit w e = (if iw_expired w \<and> exn_of e = Cancelled then error_from TimedOut e else e)"

text \<open>\<open>invoke\<close>, with the flag \<open>dispatched\<close> it ended with.\<close>

definition invoke_tool ::
  "'e adapter_externals_scheme \<Rightarrow> adapter_config \<Rightarrow> ustr \<Rightarrow> json option \<Rightarrow> bytes option \<Rightarrow> invocation_world
     \<Rightarrow> bool \<times> (raised + InvocationResult)" where
  "invoke_tool ext cfg endpoint output_schema bearer_token w =
     (let credential = (case bearer_token of None \<Rightarrow> None | Some t \<Rightarrow> bearer_credential ext endpoint t)
      in if bearer_token \<noteq> None \<and> credential = None
         then (False, Inl (error (Invocation InvocationError PREPARATION_FAILED False)))
         else
           (case iw_before_session w of
              Some r \<Rightarrow> (False, Inl (classify_failure False False None r))
            | None \<Rightarrow>
                (case iw_validate w of
                   Some r \<Rightarrow> (False, Inl (classify_failure False False None (timeout_exit w r)))
                 | None \<Rightarrow>
                     (let (dispatched, outcome) = invoke_session w; transport = Some (iw_transport w)
                      in (dispatched,
                          case outcome of
                            Inl r \<Rightarrow> Inl (classify_failure dispatched False transport (timeout_exit w r))
                          | Inr result \<Rightarrow>
                              if ss_sensitive (iw_transport w)
                              then Inl (error (Invocation InvocationError SENSITIVE_RESULT dispatched))
                              else
                                (case iw_interrupted w of
                                   Some r \<Rightarrow>
                                     if is_exception r
                                     then Inl (error_from (Invocation InvocationError INVALID_UPSTREAM_OUTPUT True) r)
                                     else Inl (classify_failure dispatched True transport (timeout_exit w r))
                                 | None \<Rightarrow>
                                     (case normalize_invocation_result ext cfg output_schema credential result of
                                        Inl code \<Rightarrow> Inl (error (Invocation InvocationError code True))
                                      | Inr x \<Rightarrow> Inr x)))))))"

end
