(* ===== verification/Exec_Runner.thy ===== *)
theory Exec_Runner
  imports Adapter_Invoke Exec_Worker Secrets
begin

text \<open>
  \<open>InvocationRunner\<close> of \<^verbatim>\<open>execution/runner.py\<close> and the adapter the worker builds for it
  (\<^verbatim>\<open>worker/main.py\<close>): one leased run, from its target to its recorded outcome. Every database
  transaction of the runner starts from a state of its own, because other workers and the API act in
  between.
\<close>

section \<open>The target\<close>

record InvocationTarget =
  it_endpoint :: ustr
  it_policy_version :: ustr
  it_tool_name :: ustr
  it_arguments :: json
  it_output_schema :: "json option"
  it_secret_reference :: "SecretReference option"

definition target_secret :: "JobLease \<Rightarrow> ServerConnectionVersion \<Rightarrow> db \<Rightarrow> svc_error + SecretReference option" where
  "target_secret lease connection d =
     (case scv_secret_binding_id connection of
        None \<Rightarrow> Inr None
      | Some i \<Rightarrow>
          (case first_row (filter (\<lambda>b. sb_id b = i \<and> sb_workspace_id b = lease_workspace_id lease) (secret_bindings d)) of
             None \<Rightarrow> Inl SecretProviderError
           | Some secret \<Rightarrow> Inr (Some \<lparr>sr_provider = sb_provider secret,
               sr_external_reference = sb_external_reference secret, sr_version = sb_version secret\<rparr>)))"

definition load_target :: "JobLease \<Rightarrow> db \<Rightarrow> svc_error + InvocationTarget" where
  "load_target lease d =
     (case first_row (filter (\<lambda>r. run_id r = lease_run_id lease \<and> run_workspace_id r = lease_workspace_id lease
             \<and> run_arguments r \<noteq> None) (runs d)) of
        None \<Rightarrow> Inl ValueError
      | Some run \<Rightarrow>
          (case (run_arguments run,
                 first_row (filter (\<lambda>v. capv_id v = run_capability_version_id run
                   \<and> capv_workspace_id v = lease_workspace_id lease) (capability_versions d)),
                 first_row (filter (\<lambda>b. bind_capability_version_id b = run_capability_version_id run
                   \<and> bind_connection_version_id b = run_connection_version_id run
                   \<and> bind_workspace_id b = lease_workspace_id lease) (tool_bindings d)),
                 first_row (filter (\<lambda>c. scv_id c = run_connection_version_id run
                   \<and> scv_workspace_id c = lease_workspace_id lease) (connection_versions d))) of
             (Some arguments, Some version, Some binding, Some connection) \<Rightarrow>
               and_then (target_secret lease connection d) (\<lambda>secret_reference.
                 Inr \<lparr>it_endpoint = scv_endpoint_url connection, it_policy_version = scv_policy_version connection,
                      it_tool_name = bind_tool_name binding, it_arguments = arguments,
                      it_output_schema = capv_output_schema version, it_secret_reference = secret_reference\<rparr>)
           | _ \<Rightarrow> Inl ValueError))"

section \<open>The worker's adapter\<close>

definition INVOCATION_PROTOCOL_OVERHEAD_BYTES :: int where "INVOCATION_PROTOCOL_OVERHEAD_BYTES = 65536"
definition MAX_JSON_ESCAPE_EXPANSION :: int where "MAX_JSON_ESCAPE_EXPANSION = 6"

definition invocation_transport_limits :: "ExecutionLimits \<Rightarrow> svc_error + TransportLimits" where
  "invocation_transport_limits limits =
     transport_limits (max_result_bytes limits * MAX_JSON_ESCAPE_EXPANSION + INVOCATION_PROTOCOL_OVERHEAD_BYTES)
       (Fin 3) (Fin 5) (Fin 10)"

definition invocation_adapter :: "ExecutionLimits \<Rightarrow> ustr \<Rightarrow> exn + adapter_config" where
  "invocation_adapter limits policy_version =
     (if policy_version \<noteq> ustr_of ''v1'' then Inl KeyError
      else map_sum ServiceError id (and_then (invocation_transport_limits limits) (\<lambda>tl.
        adapter_init tl 16 512 (Some (max_result_bytes limits)) (schema_validation_timeout_seconds limits)
          (schema_validation_memory_bytes limits))))"

section \<open>Transactions\<close>

text \<open>The transactions of one run of the runner. \<open>rw_cut t = Some (committed, r)\<close>: while transaction \<open>t\<close> was
  under way \<open>r\<close> was raised into it (a cancellation, a lost connection), after its commit or before.\<close>

datatype runner_txn = SessionFence | DispatchFence | Renewal | Completion | SecondRenewal | SecondCompletion

record runner_world =
  rw_load :: db
  rw_db :: "runner_txn \<Rightarrow> db"
  rw_clock :: "runner_txn \<Rightarrow> clock"
  rw_cut :: "runner_txn \<Rightarrow> (bool \<times> raised) option"
  rw_session :: "InvocationTarget \<Rightarrow> bytes option \<Rightarrow> invocation_world"

type_synonym commit = "runner_txn \<times> db \<times> db"

definition transact ::
  "runner_world \<Rightarrow> runner_txn \<Rightarrow> (clock \<Rightarrow> db \<Rightarrow> svc_error + 'a \<times> db) \<Rightarrow> (raised + 'a) \<times> commit list" where
  "transact w t operation =
     (case operation (rw_clock w t) (rw_db w t) of
        Inl e \<Rightarrow> (case rw_cut w t of None \<Rightarrow> Inl (error (ServiceError e)) | Some (_, r) \<Rightarrow> Inl r, [])
      | Inr (x, d) \<Rightarrow>
          (case rw_cut w t of
             None \<Rightarrow> (Inr x, [(t, rw_db w t, d)])
           | Some (committed, r) \<Rightarrow> (Inl r, if committed then [(t, rw_db w t, d)] else [])))"

text \<open>\<open>_fence_session\<close> and \<open>_fence_dispatch\<close>; the heartbeat reads the clock twice.\<close>

definition session_fence_operation :: "JobLease \<Rightarrow> duration option \<Rightarrow> clock \<Rightarrow> db \<Rightarrow> svc_error + Run \<times> db" where
  "session_fence_operation lease lease_duration clock d =
     and_then (case lease_duration of None \<Rightarrow> Inr d | Some t \<Rightarrow> map_sum id snd (heartbeat lease t clock d))
       (\<lambda>d1. Exec_Worker.fence_session lease (\<lambda>n. clock (n + 2)) d1)"

definition fence_result :: "InvocationFailureCode \<Rightarrow> raised + 'a \<Rightarrow> raised option" where
  "fence_result code outcome =
     (case outcome of
        Inr _ \<Rightarrow> None
      | Inl r \<Rightarrow> Some (case exn_of r of
                         ServiceError (ExecutionError _) \<Rightarrow> error_from (Invocation InvocationFenceRejected code False) r
                       | _ \<Rightarrow> r))"

definition run_fence_session :: "runner_world \<Rightarrow> JobLease \<Rightarrow> duration option \<Rightarrow> raised option \<times> commit list" where
  "run_fence_session w lease lease_duration =
     map_prod (fence_result InvocationFailureCode.SESSION_INITIALIZATION_FAILED) id
       (transact w SessionFence (session_fence_operation lease lease_duration))"

definition run_fence_dispatch :: "runner_world \<Rightarrow> JobLease \<Rightarrow> raised option \<times> commit list" where
  "run_fence_dispatch w lease =
     map_prod (fence_result InvocationFailureCode.TOOL_CALL_FAILED) id
       (transact w DispatchFence (Exec_Worker.fence_dispatch lease))"

definition renew_lease ::
  "runner_world \<Rightarrow> runner_txn \<Rightarrow> JobLease \<Rightarrow> duration option \<Rightarrow> (raised + JobLease) \<times> commit list" where
  "renew_lease w t lease lease_duration =
     (case lease_duration of None \<Rightarrow> (Inr lease, []) | Some dur \<Rightarrow> transact w t (heartbeat lease dur))"

text \<open>\<open>except ExecutionError: return None\<close>.\<close>

definition refused_is_none :: "raised \<Rightarrow> raised + RunStatus option" where
  "refused_is_none r = (case exn_of r of ServiceError (ExecutionError _) \<Rightarrow> Inr None | _ \<Rightarrow> Inl r)"

definition complete_failure ::
  "runner_world \<Rightarrow> runner_txn \<Rightarrow> runner_txn \<Rightarrow> JobLease \<Rightarrow> RunStatus \<Rightarrow> RunFailureCode \<Rightarrow> duration option
     \<Rightarrow> (raised + RunStatus option) \<times> commit list" where
  "complete_failure w t1 t2 lease status code lease_duration =
     (let (renewed, c1) = renew_lease w t1 lease lease_duration
      in case renewed of
           Inl r \<Rightarrow> (refused_is_none r, c1)
         | Inr lease' \<Rightarrow>
             (let (outcome, c2) = transact w t2 (complete_lease lease' status (Some code))
              in (case outcome of Inl r \<Rightarrow> refused_is_none r | Inr run \<Rightarrow> Inr (Some (run_status run)), c1 @ c2)))"

section \<open>Running a lease\<close>

record runner =
  rn_externals :: adapter_externals
  rn_content :: content_externals
  rn_limits :: ExecutionLimits
  rn_file_system :: file_system
  rn_secret_provider :: secret_provider
  rn_adapter_factory :: "ustr \<Rightarrow> exn + adapter_config"

text \<open>Everything before \<open>adapter.invoke\<close>: the target, its adapter and its credential.\<close>

definition prepare_call ::
  "runner \<Rightarrow> JobLease \<Rightarrow> db \<Rightarrow> exn + InvocationTarget \<times> adapter_config \<times> bytes option" where
  "prepare_call rn lease d =
     and_then (map_sum ServiceError id (load_target lease d)) (\<lambda>target.
     and_then (rn_adapter_factory rn (it_policy_version target)) (\<lambda>cfg.
       (case it_secret_reference target of
          None \<Rightarrow> Inr (target, cfg, None)
        | Some reference \<Rightarrow>
            and_then (map_sum ServiceError id (retrieve (rn_file_system rn) (rn_secret_provider rn) reference))
              (\<lambda>credential. Inr (target, cfg, Some credential)))))"

text \<open>The session of the adapter with the runner's fences in it, and whether control reaches them.\<close>

definition fenced_session ::
  "runner_world \<Rightarrow> JobLease \<Rightarrow> duration option \<Rightarrow> InvocationTarget \<Rightarrow> bytes option \<Rightarrow> invocation_world" where
  "fenced_session w lease lease_duration target token = (rw_session w target token)\<lparr>
     iw_before_session := fst (run_fence_session w lease lease_duration),
     iw_before_dispatch := fst (run_fence_dispatch w lease)\<rparr>"

definition session_fence_reached :: "runner \<Rightarrow> InvocationTarget \<Rightarrow> bytes option \<Rightarrow> bool" where
  "session_fence_reached rn target token \<longleftrightarrow>
     (case token of None \<Rightarrow> True | Some t \<Rightarrow> bearer_credential (rn_externals rn) (it_endpoint target) t \<noteq> None)"

definition dispatch_fence_reached :: "invocation_world \<Rightarrow> bool" where
  "dispatch_fence_reached w \<longleftrightarrow> iw_before_session w = None \<and> iw_validate w = None
     \<and> iw_initialize w = Inr QUALIFIED_PROTOCOL_REVISION \<and> iw_notify w = None"

text \<open>The first \<open>try\<close> of \<open>run\<close>: the flag tells whether the tool was called.\<close>

definition attempt_call ::
  "runner \<Rightarrow> runner_world \<Rightarrow> JobLease \<Rightarrow> duration option
     \<Rightarrow> (bool \<times> (raised + InvocationResult)) \<times> commit list" where
  "attempt_call rn w lease lease_duration =
     (case prepare_call rn lease (rw_load w) of
        Inl x \<Rightarrow> ((False, Inl (error x)), [])
      | Inr (target, cfg, token) \<Rightarrow>
          (let session = fenced_session w lease lease_duration target token
           in (invoke_tool (rn_externals rn) cfg (it_endpoint target) (it_output_schema target) token session,
               if session_fence_reached rn target token
               then snd (run_fence_session w lease lease_duration)
                  @ (if dispatch_fence_reached session then snd (run_fence_dispatch w lease) else [])
               else [])))"

datatype handling = Fenced | Complete RunStatus RunFailureCode | Propagate

text \<open>The code of a failed call.\<close>

definition run_failure_code :: "InvocationFailureCode \<Rightarrow> bool \<Rightarrow> RunFailureCode" where
  "run_failure_code code dispatched =
     (if code = InvocationFailureCode.PREPARATION_FAILED then RunFailureCode.PREPARATION_FAILED
      else if \<not> dispatched \<or> code = InvocationFailureCode.SESSION_INITIALIZATION_FAILED
      then RunFailureCode.SESSION_INITIALIZATION_FAILED
      else if code = InvocationFailureCode.TOOL_CALL_FAILED then RunFailureCode.TOOL_CALL_FAILED
      else if code = UNSUPPORTED_RESULT_CONTENT then UNSUPPORTED_TOOL_RESULT
      else if code = SENSITIVE_RESULT then SENSITIVE_TOOL_RESULT
      else INVALID_TOOL_RESULT)"

text \<open>The \<open>except\<close> clauses of \<open>run\<close>.\<close>

fun handle_failure :: "exn \<Rightarrow> handling" where
  "handle_failure (Invocation InvocationFenceRejected c b) = Fenced"
| "handle_failure KeyError = Complete RunStatus.FAILED RunFailureCode.PREPARATION_FAILED"
| "handle_failure (ServiceError ValueError) = Complete RunStatus.FAILED RunFailureCode.PREPARATION_FAILED"
| "handle_failure (ServiceError SecretProviderError) = Complete RunStatus.FAILED RunFailureCode.PREPARATION_FAILED"
| "handle_failure (Invocation InvocationIndeterminate c b) = Complete RunStatus.INDETERMINATE UPSTREAM_OUTCOME_UNKNOWN"
| "handle_failure (Invocation InvocationError c b) = Complete RunStatus.FAILED (run_failure_code c b)"
| "handle_failure _ = Propagate"

text \<open>The second \<open>try\<close>: recording a result.\<close>

definition accepted_result :: "InvocationResult \<Rightarrow> AcceptedToolResult" where
  "accepted_result res = \<lparr>atr_payload = inv_payload res, atr_canonical_digest = inv_canonical_digest res,
     atr_byte_count = inv_byte_count res\<rparr>"

definition result_refused ::
  "runner_world \<Rightarrow> JobLease \<Rightarrow> duration option \<Rightarrow> raised \<Rightarrow> (raised + RunStatus option) \<times> commit list" where
  "result_refused w lease lease_duration r =
     (if exn_of r = ServiceError (ExecutionError ExecutionFailureCode.INVALID_ARGUMENTS)
      then complete_failure w SecondRenewal SecondCompletion lease RunStatus.FAILED INVALID_TOOL_RESULT lease_duration
      else (refused_is_none r, []))"

definition complete_success ::
  "runner \<Rightarrow> runner_world \<Rightarrow> JobLease \<Rightarrow> duration option \<Rightarrow> InvocationResult
     \<Rightarrow> (raised + RunStatus option) \<times> commit list" where
  "complete_success rn w lease lease_duration res =
     (let (renewed, c1) = renew_lease w Renewal lease lease_duration
      in case renewed of
           Inl r \<Rightarrow> map_prod id ((@) c1) (result_refused w lease lease_duration r)
         | Inr lease' \<Rightarrow>
             (let (outcome, c2) = transact w Completion
                    (complete_invocation_success (rn_content rn) (rn_limits rn) lease' (accepted_result res))
              in case outcome of
                   Inl r \<Rightarrow> map_prod id ((@) (c1 @ c2)) (result_refused w lease' lease_duration r)
                 | Inr run \<Rightarrow> (Inr (Some (run_status run)), c1 @ c2)))"

record run_trace =
  rt_result :: "raised + RunStatus option"
  rt_dispatched :: bool
  rt_commits :: "commit list"

definition run_lease :: "runner \<Rightarrow> runner_world \<Rightarrow> JobLease \<Rightarrow> duration option \<Rightarrow> run_trace" where
  "run_lease rn w lease lease_duration =
     (let ((dispatched, outcome), c0) = attempt_call rn w lease lease_duration;
          (result, c1) =
            (case outcome of
               Inr res \<Rightarrow> complete_success rn w lease lease_duration res
             | Inl r \<Rightarrow>
                 (case handle_failure (exn_of r) of
                    Fenced \<Rightarrow> (Inr None, [])
                  | Complete status code \<Rightarrow> complete_failure w Renewal Completion lease status code lease_duration
                  | Propagate \<Rightarrow> (Inl r, [])))
      in \<lparr>rt_result = result, rt_dispatched = dispatched, rt_commits = c0 @ c1\<rparr>)"

text \<open>\<open>claim_and_run\<close>: the claim is a transaction of its own, in state \<open>d\<close>.\<close>

definition claim_and_run ::
  "runner \<Rightarrow> (uuid \<Rightarrow> bool) \<Rightarrow> clock \<Rightarrow> string \<Rightarrow> duration \<Rightarrow> db \<Rightarrow> runner_world
     \<Rightarrow> svc_error + (run_trace option \<times> ReconciledJob list) \<times> db" where
  "claim_and_run rn locked clock worker_id lease_duration d w =
     and_then (claim_job (rn_limits rn) locked clock worker_id lease_duration d) (\<lambda>((lease, reconciled), d').
       Inr ((map_option (\<lambda>l. run_lease rn w l (Some lease_duration)) lease, reconciled), d'))"

end
