(* ===== verification/Adapter_Outcome.thy ===== *)
theory Adapter_Outcome
  imports Adapter_Invoke Upstream_Theorems Exec_Demo
begin

text \<open>
  What the outcome of an invocation tells about the tool: whether its call was dispatched, whether a
  definitive answer came, and what a delivered result satisfies.
\<close>

section \<open>What the adapter relies on\<close>

definition no_invocation_error :: "raised \<Rightarrow> bool" where
  "no_invocation_error r \<longleftrightarrow> (\<forall>x \<in> carried r. \<not> is_invocation x)"

text \<open>The SDK knows nothing of the adapter's exceptions: it raises none of its own, and leaving its
  contexts neither adds one nor swallows an exception.\<close>

definition sdk_behaves :: "invocation_world \<Rightarrow> bool" where
  "sdk_behaves w \<longleftrightarrow>
     (\<forall>r. iw_validate w = Some r \<or> iw_initialize w = Inl r \<or> iw_notify w = Some r \<or> iw_call_tool w = Inl r
        \<or> iw_interrupted w = Some r \<or> iw_leave w None = Some r \<longrightarrow> no_invocation_error r)
     \<and> (\<forall>r. \<exists>e. iw_leave w (Some r) = Some e \<and> (\<forall>x \<in> carried e. is_invocation x \<longrightarrow> x \<in> carried r))"

text \<open>The only invocation errors a fence raises are rejections.\<close>

definition fence_rejects :: "raised \<Rightarrow> bool" where
  "fence_rejects r \<longleftrightarrow> (\<forall>x \<in> carried r. is_invocation x \<longrightarrow> (\<exists>c. x = Invocation InvocationFenceRejected c False))"

definition fences_behave :: "invocation_world \<Rightarrow> bool" where
  "fences_behave w \<longleftrightarrow> (\<forall>r. iw_before_session w = Some r \<or> iw_before_dispatch w = Some r \<longrightarrow> fence_rejects r)"

text \<open>The upstream gave a definitive answer: the call returned, or the transport saw a complete response
  to it.\<close>

definition definitive :: "invocation_world \<Rightarrow> bool" where
  "definitive w \<longleftrightarrow> iw_call_tool w \<in> range Inr \<or> ss_completed (iw_transport w)"

section \<open>Sessions\<close>

lemma exn_of_carried: "exn_of r \<in> carried r"
  by (cases r) simp

lemma exn_of_from [simp]: "exn_of (error_from e r) = e" "exn_of (error e) = e"
  by (simp_all add: error_from_def error_def)

lemma carried_error [simp]: "e \<noteq> ExceptionGroup \<Longrightarrow> carried (error e) = {e}" "e \<noteq> ExceptionGroup \<Longrightarrow> carried (error_from e r) = {e}"
  by (simp_all add: error_def error_from_def)

text \<open>The invocation errors that can come before the dispatch.\<close>

definition undispatched :: "exn \<Rightarrow> bool" where
  "undispatched x \<longleftrightarrow> (\<exists>c. x = Invocation InvocationFenceRejected c False \<or> x = Invocation InvocationError c False)"

lemma no_invocation_error_undispatched: "no_invocation_error e \<Longrightarrow> \<forall>x \<in> carried e. is_invocation x \<longrightarrow> undispatched x"
  by (simp add: no_invocation_error_def)

lemma fence_rejects_undispatched: "fence_rejects r \<Longrightarrow> \<forall>x \<in> carried r. is_invocation x \<longrightarrow> undispatched x"
  by (auto simp: fence_rejects_def undispatched_def)

lemma session_body_facts:
  assumes "session_body w = (dispatched, body)" and "sdk_behaves w" and "fences_behave w"
  shows "dispatched \<Longrightarrow> body = iw_call_tool w"
    and "\<not> dispatched \<Longrightarrow> \<exists>r. body = Inl r \<and> (\<forall>x \<in> carried r. is_invocation x \<longrightarrow> undispatched x)"
proof -
  have rej: "\<forall>x \<in> carried r. is_invocation x \<longrightarrow> undispatched x"
    if "iw_initialize w = Inl r \<or> iw_notify w = Some r \<or> iw_before_dispatch w = Some r" for r
    using that assms(2,3) no_invocation_error_undispatched fence_rejects_undispatched
    unfolding sdk_behaves_def fences_behave_def by metis
  show "dispatched \<Longrightarrow> body = iw_call_tool w"
    using assms(1) by (auto simp: session_body_def split: sum.splits option.splits if_splits)
  show "\<not> dispatched \<Longrightarrow> \<exists>r. body = Inl r \<and> (\<forall>x \<in> carried r. is_invocation x \<longrightarrow> undispatched x)"
    using assms(1) rej by (auto simp: session_body_def undispatched_def split: sum.splits option.splits if_splits)
qed

lemma invoke_session_facts:
  assumes s: "invoke_session w = (dispatched, outcome)" and sdk: "sdk_behaves w" and fences: "fences_behave w"
  shows "outcome = Inr x \<Longrightarrow> dispatched \<and> iw_call_tool w = Inr x"
    and "outcome = Inl e \<Longrightarrow> \<not> dispatched \<Longrightarrow> \<forall>x \<in> carried e. is_invocation x \<longrightarrow> undispatched x"
    and "outcome = Inl e \<Longrightarrow> dispatched \<Longrightarrow> no_invocation_error e \<and> (iw_call_tool w \<in> range Inr \<longrightarrow> \<not> is_exception e \<and> exn_of e \<noteq> Cancelled)"
proof -
  obtain body where b: "session_body w = (dispatched, body)"
    and out: "outcome = (case body of
            Inr result \<Rightarrow> (case iw_leave w None of None \<Rightarrow> Inr result
               | Some e \<Rightarrow> if exn_of e = Cancelled \<or> is_exception e then Inr result else Inl e)
          | Inl r \<Rightarrow> (case iw_leave w (Some r) of Some e \<Rightarrow> Inl e
               | None \<Rightarrow> Inl (error (Invocation InvocationIndeterminate TOOL_CALL_FAILED True))))"
    using s by (auto simp: invoke_session_def Let_def split: prod.splits)
  note body = session_body_facts [OF b sdk fences]
  have leave: "\<exists>e. iw_leave w (Some r) = Some e \<and> (\<forall>x \<in> carried e. is_invocation x \<longrightarrow> x \<in> carried r)" for r
    using sdk by (simp add: sdk_behaves_def)
  show "outcome = Inr x \<Longrightarrow> dispatched \<and> iw_call_tool w = Inr x"
    using out body leave by (cases dispatched) (auto split: sum.splits option.splits if_splits)
  show "outcome = Inl e \<Longrightarrow> \<not> dispatched \<Longrightarrow> \<forall>x \<in> carried e. is_invocation x \<longrightarrow> undispatched x"
  proof -
    assume e: "outcome = Inl e" and d: "\<not> dispatched"
    from body(2) [OF d] obtain r where r: "body = Inl r" "\<forall>x \<in> carried r. is_invocation x \<longrightarrow> undispatched x" by blast
    from leave [of r] obtain e' where e': "iw_leave w (Some r) = Some e'"
      "\<forall>x \<in> carried e'. is_invocation x \<longrightarrow> x \<in> carried r" by blast
    then show ?thesis using out e r by simp
  qed
  show "outcome = Inl e \<Longrightarrow> dispatched \<Longrightarrow> no_invocation_error e \<and> (iw_call_tool w \<in> range Inr \<longrightarrow> \<not> is_exception e \<and> exn_of e \<noteq> Cancelled)"
  proof (cases "iw_call_tool w")
    case (Inl r)
    assume e: "outcome = Inl e" and d: "dispatched"
    from leave [of r] obtain e' where e': "iw_leave w (Some r) = Some e'"
      "\<forall>x \<in> carried e'. is_invocation x \<longrightarrow> x \<in> carried r" by blast
    moreover have "no_invocation_error r" using sdk Inl by (simp add: sdk_behaves_def)
    ultimately show ?thesis using out e body(1) [OF d] Inl by (auto simp: no_invocation_error_def)
  next
    case (Inr x)
    assume e: "outcome = Inl e" and d: "dispatched"
    then show ?thesis
      using out body(1) [OF d] Inr sdk by (auto simp: sdk_behaves_def split: option.splits if_splits)
  qed
qed

section \<open>Classification\<close>

text \<open>Before the dispatch every failure is one of an undispatched call.\<close>

lemma classify_before_dispatch:
  assumes "\<forall>x \<in> carried e. is_invocation x \<longrightarrow> undispatched x"
    and "exn_of (classify_failure False False transport e) = Invocation k c b"
  shows "undispatched (Invocation k c b)"
proof (cases "is_invocation (exn_of e) \<or> \<not> is_exception e")
  case True
  then show ?thesis using assms exn_of_carried [of e] by (auto simp: classify_failure_def)
next
  case False
  show ?thesis
  proof (cases "find_exception is_invocation e")
    case (Some n)
    then have "is_invocation (exn_of n) \<and> exn_of n \<in> carried e" by (rule find_exception_Some)
    with assms False Some show ?thesis
      by (auto simp: classify_failure_def undispatched_def split: if_splits)
  next
    case None
    with assms False show ?thesis by (auto simp: classify_failure_def undispatched_def split: if_splits)
  qed
qed

text \<open>After it, a failure is indeterminate exactly when no definitive answer is known.\<close>

lemma classify_after_dispatch:
  assumes "no_invocation_error e"
    and "exn_of (classify_failure True received transport e) = Invocation k c b"
  shows "b \<and> k \<noteq> InvocationFenceRejected \<and> (k = InvocationIndeterminate \<longleftrightarrow> \<not> received \<and> \<not> completed_in transport)"
proof -
  have "\<not> is_invocation (exn_of e)" using assms(1) exn_of_carried [of e] by (auto simp: no_invocation_error_def)
  moreover have "find_exception is_invocation e = None" using assms(1) by (simp add: find_exception_None no_invocation_error_def)
  ultimately show ?thesis
    using assms(2) by (auto simp: classify_failure_def completed_in_def split: if_splits option.splits)
qed

lemma timeout_exit_no_invocation: "no_invocation_error e \<Longrightarrow> no_invocation_error (timeout_exit w e)"
  by (auto simp: timeout_exit_def no_invocation_error_def)

lemma timeout_exit_undispatched:
  "\<forall>x \<in> carried e. is_invocation x \<longrightarrow> undispatched x \<Longrightarrow> \<forall>x \<in> carried (timeout_exit w e). is_invocation x \<longrightarrow> undispatched x"
  by (auto simp: timeout_exit_def)

section \<open>Outcomes\<close>

lemma session_failure:
  assumes s: "invoke_session w = (dispatched, Inl e)" and sdk: "sdk_behaves w" and fences: "fences_behave w"
    and x: "exn_of (classify_failure dispatched False (Some (iw_transport w)) (timeout_exit w e)) = Invocation k c b"
  shows "b = dispatched \<and> (k = InvocationFenceRejected \<longrightarrow> \<not> dispatched)
    \<and> (k = InvocationIndeterminate \<longleftrightarrow> dispatched \<and> \<not> definitive w)"
proof (cases dispatched)
  case False
  have "undispatched (Invocation k c b)"
    using x False invoke_session_facts(2) [OF s sdk fences refl]
    by (intro classify_before_dispatch [OF timeout_exit_undispatched]) auto
  with False show ?thesis by (auto simp: undispatched_def)
next
  case True
  note e = invoke_session_facts(3) [OF s sdk fences refl True]
  have "iw_call_tool w \<notin> range Inr"
  proof
    assume "iw_call_tool w \<in> range Inr"
    with e have "\<not> is_exception e" "exn_of e \<noteq> Cancelled" by blast+
    then have "exn_of e = Invocation k c b" using x by (simp add: timeout_exit_def classify_failure_def)
    with e exn_of_carried [of e] show False by (auto simp: no_invocation_error_def)
  qed
  then have "definitive w \<longleftrightarrow> completed_in (Some (iw_transport w))" by (simp add: definitive_def completed_in_def)
  with True classify_after_dispatch [OF timeout_exit_no_invocation, of e False "Some (iw_transport w)" w k c b] e x show ?thesis
    by auto
qed

lemma received_failure:
  assumes s: "invoke_session w = (dispatched, Inr result)" and sdk: "sdk_behaves w" and fences: "fences_behave w"
    and r: "iw_interrupted w = Some r"
    and x: "exn_of (classify_failure dispatched True (Some (iw_transport w)) (timeout_exit w r)) = Invocation k c b"
  shows "b \<and> k \<noteq> InvocationFenceRejected \<and> k \<noteq> InvocationIndeterminate"
proof -
  have d: "dispatched" using invoke_session_facts(1) [OF s sdk fences refl] by simp
  have "no_invocation_error r" using sdk r by (simp add: sdk_behaves_def)
  from classify_after_dispatch [OF timeout_exit_no_invocation [OF this], of True "Some (iw_transport w)" w k c b] x d
  show ?thesis by simp
qed

lemma canonical_object_nonempty: "canonical_json fr (JDict ms) = Some c \<Longrightarrow> c \<noteq> []"
  by (auto simp: canonical_json_def utf8_def utf8_char_def bind_eq_Some_conv split: option.splits)

lemma normalize_result_ok:
  assumes "normalize_invocation_result ext cfg output_schema credential result = Inr res"
  shows "\<not> ctr_is_error result" "validate_bounded_json (inv_payload res)"
    "\<exists>canonical. canonical_json (meta_float_repr ext) (inv_payload res) = Some canonical
       \<and> inv_canonical_digest res = adapter_sha256 ext canonical \<and> inv_byte_count res = length canonical
       \<and> int (length canonical) \<le> ac_max_result_bytes cfg"
    "\<not> screen_externals.contains_sensitive_json ext (inv_payload res)"
    "credential = Some t \<Longrightarrow> \<not> contains_decoded_credential ext (inv_payload res) t"
    "output_schema = Some schema \<Longrightarrow> \<exists>v. ctr_structured result = Some v \<and> validate_schema_arguments ext v schema = VALID"
  using assms
  by (auto simp: normalize_invocation_result_def Let_def split: if_splits option.split_asm)

lemma invoke_tool_Inr:
  assumes "invoke_tool ext cfg endpoint output_schema token w = (dispatched, Inr res)"
    and "sdk_behaves w" "fences_behave w"
  obtains result where "dispatched" "iw_call_tool w = Inr result" "\<not> ss_sensitive (iw_transport w)"
    "iw_before_session w = None" "iw_before_dispatch w = None"
    "normalize_invocation_result ext cfg output_schema
       (case token of None \<Rightarrow> None | Some t \<Rightarrow> bearer_credential ext endpoint t) result = Inr res"
proof -
  obtain result where s: "invoke_session w = (dispatched, Inr result)" "iw_before_session w = None"
    "\<not> ss_sensitive (iw_transport w)" "normalize_invocation_result ext cfg output_schema
       (case token of None \<Rightarrow> None | Some t \<Rightarrow> bearer_credential ext endpoint t) result = Inr res"
    using assms(1) by (auto simp: invoke_tool_def Let_def split: if_splits option.splits prod.splits sum.splits)
  note d = invoke_session_facts(1) [OF s(1) assms(2,3) refl]
  have "iw_before_dispatch w = None"
    using s(1) d by (auto simp: invoke_session_def session_body_def Let_def split: prod.splits sum.splits option.splits if_splits)
  with d s show thesis by (auto intro: that)
qed

lemma invoke_tool_failure:
  assumes sdk: "sdk_behaves w" and fences: "fences_behave w"
    and "invoke_tool ext cfg endpoint output_schema token w = (dispatched, Inl r)"
    and "exn_of r = Invocation k c b"
  shows "b = dispatched \<and> (k = InvocationFenceRejected \<longrightarrow> \<not> dispatched)
    \<and> (k = InvocationIndeterminate \<longleftrightarrow> dispatched \<and> \<not> definitive w)"
proof -
  let ?goal = "b = dispatched \<and> (k = InvocationFenceRejected \<longrightarrow> \<not> dispatched)
    \<and> (k = InvocationIndeterminate \<longleftrightarrow> dispatched \<and> \<not> definitive w)"
  have early: "?goal" if "\<not> dispatched" "exn_of (classify_failure False False None e) = Invocation k c b"
    "\<forall>x \<in> carried e. is_invocation x \<longrightarrow> undispatched x" for e
    using classify_before_dispatch [OF that(3,2)] that(1) by (auto simp: undispatched_def)
  consider (credential) "\<not> dispatched" "r = error (Invocation InvocationError PREPARATION_FAILED False)"
    | (session_fence) e where "iw_before_session w = Some e" "\<not> dispatched" "r = classify_failure False False None e"
    | (endpoint) e where "iw_validate w = Some e" "\<not> dispatched" "r = classify_failure False False None (timeout_exit w e)"
    | (failed) e where "invoke_session w = (dispatched, Inl e)"
        "r = classify_failure dispatched False (Some (iw_transport w)) (timeout_exit w e)"
    | (answered) result where "invoke_session w = (dispatched, Inr result)"
        "r = error (Invocation InvocationError SENSITIVE_RESULT dispatched)
         \<or> (\<exists>e. r = error_from (Invocation InvocationError INVALID_UPSTREAM_OUTPUT True) e)
         \<or> (\<exists>e. iw_interrupted w = Some e \<and> r = classify_failure dispatched True (Some (iw_transport w)) (timeout_exit w e))
         \<or> (\<exists>code. r = error (Invocation InvocationError code True))"
    using assms(3) by (auto simp: invoke_tool_def Let_def split: if_splits option.splits prod.splits sum.splits)
  then show ?thesis
  proof cases
    case credential
    with assms(4) show ?thesis by auto
  next
    case (session_fence e)
    then show ?thesis using early assms(4) fences fence_rejects_undispatched by (auto simp: fences_behave_def)
  next
    case (endpoint e)
    then show ?thesis
      using early [OF endpoint(2) _ timeout_exit_undispatched [OF no_invocation_error_undispatched, of e w]] assms(4) sdk
      by (auto simp: sdk_behaves_def)
  next
    case (failed e)
    then show ?thesis using session_failure [OF failed(1) sdk fences] assms(4) by simp
  next
    case (answered result)
    have d: "dispatched" "definitive w"
      using invoke_session_facts(1) [OF answered(1) sdk fences refl] by (auto simp: definitive_def)
    with answered assms(4) received_failure [OF answered(1) sdk fences] show ?thesis by auto
  qed
qed

text \<open>C9. When an invocation fails with one of the adapter's errors, its flag tells exactly whether the tool
  call was dispatched; a rejected fence means it was not; and the error is indeterminate exactly when the
  call was dispatched and no definitive answer is known, neither a returned call nor a completed response.\<close>

theorem invocation_outcome_sound:
  assumes "sdk_behaves w" and "fences_behave w"
    and "invoke_tool ext cfg endpoint output_schema token w = (dispatched, Inl r)"
    and "exn_of r = Invocation k c b"
  shows "b = dispatched \<and> (k = InvocationFenceRejected \<longrightarrow> \<not> dispatched)
    \<and> (k = InvocationIndeterminate \<longleftrightarrow> dispatched \<and> \<not> definitive w)"
  by (rule invoke_tool_failure [OF assms])

definition demo_adapter :: adapter_externals where
  "demo_adapter = screen_externals.extend demo_screens (adapter_externals.fields (\<lambda>_. demo_hex) (\<lambda>_ _. 8) sum_list
     (\<lambda>_ _. VALID) (\<lambda>_. True) (\<lambda>_. True) (\<lambda>_ _. None))"

definition demo_adapter_config :: adapter_config where
  "demo_adapter_config = \<lparr>ac_limits = \<lparr>tl_response_bytes = 1000, tl_connect_seconds = Fin 5, tl_read_seconds = Fin 10,
      tl_total_seconds = Fin 30\<rparr>, ac_max_pages = 16, ac_max_tools = 512, ac_max_result_bytes = 1000,
     ac_schema_validation_timeout_seconds = Fin 2, ac_schema_validation_memory_bytes = 268435456\<rparr>"

text \<open>A call that was dispatched and broke off without an answer.\<close>

definition broken_call :: invocation_world where
  "broken_call = \<lparr>iw_before_session = None, iw_validate = None, iw_initialize = Inr QUALIFIED_PROTOCOL_REVISION, iw_notify = None,
     iw_before_dispatch = None, iw_call_tool = Inl (error HTTPError),
     iw_leave = (\<lambda>e. case e of None \<Rightarrow> None | Some r \<Rightarrow> Some (Raised ExceptionGroup [r] None)),
     iw_transport = demo_session, iw_interrupted = None, iw_expired = False\<rparr>"

theorem invocation_outcome_sound_witness:
  "\<exists>r c. invoke_tool demo_adapter demo_adapter_config [] None None broken_call = (True, Inl r)
     \<and> exn_of r = Invocation InvocationIndeterminate c True"
proof -
  have sdk: "sdk_behaves broken_call"
    by (auto simp: sdk_behaves_def no_invocation_error_def broken_call_def error_def)
  have fences: "fences_behave broken_call" by (simp add: fences_behave_def broken_call_def)
  obtain r k c b where r: "invoke_tool demo_adapter demo_adapter_config [] None None broken_call = (True, Inl r)"
    "exn_of r = Invocation k c b"
    by (simp add: invoke_tool_def invoke_session_def session_body_def broken_call_def Let_def classify_failure_def
        timeout_exit_def error_def demo_session_def completed_in_def)
  have "\<not> definitive broken_call" by (auto simp: definitive_def broken_call_def demo_session_def)
  with invocation_outcome_sound [OF sdk fences r] r show ?thesis by blast
qed

end
