(* ===== verification/Exec_Outcome.thy ===== *)
theory Exec_Outcome
  imports Exec_Runner Adapter_Outcome Exec_Props
begin

text \<open>
  What the invocation runner guarantees: its transactions are steps of the execution protocol, the tool is
  called only between the fences, and the recorded outcome agrees with what is known of the call.
\<close>

section \<open>Transactions are steps of the protocol\<close>

definition protocol_commit :: "commit \<Rightarrow> bool" where
  "protocol_commit = (\<lambda>(t, d, d'). \<forall>drawn. exec_step\<^sup>*\<^sup>* (d, drawn) (d', drawn))"

lemma transact_Inr:
  "transact w t op = (Inr x, c) \<Longrightarrow> \<exists>d. op (rw_clock w t) (rw_db w t) = Inr (x, d) \<and> c = [(t, rw_db w t, d)]"
  by (auto simp: transact_def split: sum.splits option.splits)

lemma transact_commit:
  "(t', d, d') \<in> set (snd (transact w t op)) \<Longrightarrow>
     t' = t \<and> d = rw_db w t \<and> (\<exists>x. op (rw_clock w t) d = Inr (x, d'))"
  by (auto simp: transact_def split: sum.splits option.splits if_splits prod.splits)

locale protocol_operation =
  fixes operation :: "clock \<Rightarrow> db \<Rightarrow> svc_error + 'a \<times> db"
  assumes steps: "operation clock d = Inr (x, d') \<Longrightarrow> exec_step\<^sup>*\<^sup>* (d, drawn) (d', drawn)"
begin

lemma transact_protocol: "list_all protocol_commit (snd (transact w t operation))"
  using transact_commit [of _ _ _ w t operation] steps by (fastforce simp: list_all_iff protocol_commit_def)

end

interpretation beat: protocol_operation "heartbeat lease dur" for lease dur
  by unfold_locales (blast intro: exec_step.heartbeat)

interpretation finish: protocol_operation "complete_lease lease status code" for lease status code
  by unfold_locales (blast intro: exec_step.complete)

interpretation success: protocol_operation "complete_invocation_success ext limits lease res" for ext limits lease res
  by unfold_locales (blast intro: exec_step.succeed)

interpretation dispatching: protocol_operation "Exec_Worker.fence_dispatch lease" for lease
  by unfold_locales (blast intro: exec_step.fence_dispatch)

interpretation entering: protocol_operation "session_fence_operation lease lease_duration" for lease lease_duration
proof unfold_locales
  fix clock d x d' drawn
  assume "session_fence_operation lease lease_duration clock d = Inr (x, d')"
  then obtain d1 clock' where d1: "d1 = d \<or> (\<exists>t l. heartbeat lease t clock d = Inr (l, d1))"
    and f: "Exec_Worker.fence_session lease clock' d1 = Inr (x, d')"
    by (auto simp: session_fence_operation_def and_then_Inr map_sum_Inr_iff split: option.splits)
  from d1 have "exec_step\<^sup>*\<^sup>* (d, drawn) (d1, drawn)" by (blast intro: exec_step.heartbeat)
  also have "exec_step\<^sup>*\<^sup>* (d1, drawn) (d', drawn)" using f by (blast intro: exec_step.fence_session)
  finally show "exec_step\<^sup>*\<^sup>* (d, drawn) (d', drawn)" .
qed

lemma renew_lease_protocol: "list_all protocol_commit (snd (renew_lease w t lease dur))"
  by (simp add: renew_lease_def beat.transact_protocol split: option.splits)

lemma complete_failure_protocol: "list_all protocol_commit (snd (complete_failure w t1 t2 lease status code dur))"
proof -
  obtain renewed c1 where r: "renew_lease w t1 lease dur = (renewed, c1)" by fastforce
  have c1: "list_all protocol_commit c1" using renew_lease_protocol [of w t1 lease dur] r by simp
  show ?thesis
  proof (cases renewed)
    case (Inr l)
    obtain out c2 where o: "transact w t2 (complete_lease l status (Some code)) = (out, c2)" by fastforce
    have "list_all protocol_commit c2" using finish.transact_protocol [of w t2 l status "Some code"] o by simp
    with r c1 o Inr show ?thesis by (simp add: complete_failure_def)
  qed (use r c1 in \<open>simp add: complete_failure_def\<close>)
qed

lemma result_refused_protocol: "list_all protocol_commit (snd (result_refused w lease dur r))"
  by (simp add: result_refused_def complete_failure_protocol)

lemma complete_success_protocol: "list_all protocol_commit (snd (complete_success rn w lease dur res))"
proof -
  obtain renewed c1 where r: "renew_lease w Renewal lease dur = (renewed, c1)" by fastforce
  have c1: "list_all protocol_commit c1" using renew_lease_protocol [of w Renewal lease dur] r by simp
  show ?thesis
  proof (cases renewed)
    case (Inr l)
    obtain out c2 where o: "transact w Completion (complete_invocation_success (rn_content rn) (rn_limits rn) l (accepted_result res))
       = (out, c2)" by fastforce
    have "list_all protocol_commit c2"
      using success.transact_protocol [of w Completion "rn_content rn" "rn_limits rn" l "accepted_result res"] o by simp
    with r c1 o Inr result_refused_protocol show ?thesis
      by (simp add: complete_success_def split: sum.splits)
  qed (use r c1 result_refused_protocol in \<open>simp add: complete_success_def\<close>)
qed

lemma attempt_call_protocol: "list_all protocol_commit (snd (attempt_call rn w lease dur))"
  using entering.transact_protocol [of w SessionFence lease dur] dispatching.transact_protocol [of w DispatchFence lease]
  by (auto simp: attempt_call_def run_fence_session_def run_fence_dispatch_def Let_def map_prod_def
      split: sum.splits prod.splits)

lemma rt_commits_run_lease:
  "list_all protocol_commit (rt_commits (run_lease rn w lease dur))"
proof -
  obtain dispatched outcome c0 where a: "attempt_call rn w lease dur = ((dispatched, outcome), c0)"
    by (metis surj_pair)
  have c0: "list_all protocol_commit c0" using attempt_call_protocol [of rn w lease dur] a by simp
  show ?thesis
    using c0 complete_success_protocol complete_failure_protocol
    by (auto simp: run_lease_def a Let_def split: sum.splits handling.splits prod.splits)
      (metis snd_conv)+
qed


section \<open>The tool is called between the fences\<close>

lemma invoke_tool_dispatched:
  assumes "invoke_tool ext cfg endpoint schema token w = (True, out)"
  shows "dispatch_fence_reached w" "iw_before_dispatch w = None"
    "token = Some t \<Longrightarrow> bearer_credential ext endpoint t \<noteq> None"
  using assms
  by (auto simp: invoke_tool_def invoke_session_def session_body_def dispatch_fence_reached_def Let_def
      split: if_splits option.splits prod.splits sum.splits)

lemma fence_result_None: "fence_result code out = None \<longleftrightarrow> out \<in> range Inr"
  by (auto simp: fence_result_def split: sum.splits)

lemma fence_result_fst_None:
  "fence_result code (fst p) = None \<Longrightarrow> \<exists>x. p = (Inr x, snd p)"
  by (cases p) (auto simp: fence_result_None)

lemma attempt_call_dispatched:
  assumes "attempt_call rn w lease dur = ((True, out), c)"
  obtains run1 d1 run2 d2 where
    "session_fence_operation lease dur (rw_clock w SessionFence) (rw_db w SessionFence) = Inr (run1, d1)"
    "Exec_Worker.fence_dispatch lease (rw_clock w DispatchFence) (rw_db w DispatchFence) = Inr (run2, d2)"
    "c = [(SessionFence, rw_db w SessionFence, d1), (DispatchFence, rw_db w DispatchFence, d2)]"
proof -
  obtain target cfg token where p: "prepare_call rn lease (rw_load w) = Inr (target, cfg, token)"
    using assms by (auto simp: attempt_call_def split: sum.splits)
  let ?s = "fenced_session w lease dur target token"
  have inv: "invoke_tool (rn_externals rn) cfg (it_endpoint target) (it_output_schema target) token ?s = (True, out)"
    and c: "c = (if session_fence_reached rn target token
               then snd (run_fence_session w lease dur)
                  @ (if dispatch_fence_reached ?s then snd (run_fence_dispatch w lease) else []) else [])"
    using assms p by (simp_all add: attempt_call_def Let_def)
  note f = invoke_tool_dispatched [OF inv]
  have r: "session_fence_reached rn target token" using f(3) by (cases token) (auto simp: session_fence_reached_def)
  have "fst (run_fence_session w lease dur) = None" "fst (run_fence_dispatch w lease) = None"
    using f(1,2) by (simp_all add: dispatch_fence_reached_def fenced_session_def)
  then have none: "fence_result InvocationFailureCode.SESSION_INITIALIZATION_FAILED
        (fst (transact w SessionFence (session_fence_operation lease dur))) = None"
    "fence_result InvocationFailureCode.TOOL_CALL_FAILED
        (fst (transact w DispatchFence (Exec_Worker.fence_dispatch lease))) = None"
    by (simp_all add: run_fence_session_def run_fence_dispatch_def)
  obtain run1 run2 where
    "transact w SessionFence (session_fence_operation lease dur) = (Inr run1, snd (run_fence_session w lease dur))"
    "transact w DispatchFence (Exec_Worker.fence_dispatch lease) = (Inr run2, snd (run_fence_dispatch w lease))"
    using fence_result_fst_None [OF none(1)] fence_result_fst_None [OF none(2)]
    by (auto simp: run_fence_session_def run_fence_dispatch_def)
  from transact_Inr [OF this(1)] transact_Inr [OF this(2)] c r f(1) show thesis by (auto intro: that)
qed

lemma run_lease_attempt:
  assumes "attempt_call rn w lease dur = ((dispatched, out), c0)"
  obtains c1 where "rt_dispatched (run_lease rn w lease dur) = dispatched"
    "rt_commits (run_lease rn w lease dur) = c0 @ c1"
  using assms that by (simp add: run_lease_def Let_def case_prod_unfold)

lemma run_lease_dispatched:
  assumes "rt_dispatched (run_lease rn w lease dur)"
  obtains run1 d1 run2 d2 where
    "session_fence_operation lease dur (rw_clock w SessionFence) (rw_db w SessionFence) = Inr (run1, d1)"
    "Exec_Worker.fence_dispatch lease (rw_clock w DispatchFence) (rw_db w DispatchFence) = Inr (run2, d2)"
    "prefix [(SessionFence, rw_db w SessionFence, d1), (DispatchFence, rw_db w DispatchFence, d2)]
       (rt_commits (run_lease rn w lease dur))"
proof -
  obtain dispatched out c0 where a: "attempt_call rn w lease dur = ((dispatched, out), c0)" by (metis surj_pair)
  obtain c1 where c1: "rt_dispatched (run_lease rn w lease dur) = dispatched" "rt_commits (run_lease rn w lease dur) = c0 @ c1"
    by (rule run_lease_attempt [OF a])
  with assms a have t: "attempt_call rn w lease dur = ((True, out), c0)" by simp
  show thesis by (rule attempt_call_dispatched [OF t], rule that) (use c1 in auto)
qed

text \<open>A passed dispatch fence: the run it was passed for, before and after.\<close>

lemma fence_dispatch_Inr:
  assumes "Exec_Worker.fence_dispatch lease clock d = Inr (run, d')" and "ledger_ok d"
  obtains l l' where "has_lineage d (lease_run_id lease) l" "ln_status l = RunStatus.SESSION_FENCED"
    "has_lineage d' (lease_run_id lease) l'" "ln_status l' = RunStatus.DISPATCH_FENCED" "ln_run l' = run"
proof -
  obtain l d0 st where f: "execution_state_row (clock 0) d = (st, d0)" "has_lineage d0 (lease_run_id lease) l"
    "may_fence st lease RunStatus.SESSION_FENCED (clock 1) (ln_run l) (ln_job l) d0"
    "run = ln_run (fenced RunStatus.DISPATCH_FENCED RunEventType.DISPATCH_FENCED (clock 1) l)"
    "has_lineage d' (lease_run_id lease) (fenced RunStatus.DISPATCH_FENCED RunEventType.DISPATCH_FENCED (clock 1) l)"
    by (rule fence_attempt_lineage [OF assms(1) [unfolded fence_dispatch_def] assms(2)])
  have "d0 = d\<lparr>execution_state := Some st\<rparr>" using execution_state_row_tables [OF f(1)] by auto
  then have "has_lineage d (lease_run_id lease) l" using f(2) by (simp add: has_lineage_def view_defs)
  with f show thesis by (auto intro!: that simp: may_fence_def fenced_def)
qed

definition after_dispatch :: "RunStatus \<Rightarrow> bool" where
  "after_dispatch s \<longleftrightarrow> s = RunStatus.DISPATCH_FENCED \<or> terminal_status s"

lemma valid_completion_terminal: "valid_worker_completion run attempt s code \<Longrightarrow> terminal_status s"
  by (cases s) (simp_all add: valid_worker_completion_def Let_def split: if_splits)

lemma after_dispatch_step: "lineage_step l l' \<Longrightarrow> after_dispatch (ln_status l) \<Longrightarrow> after_dispatch (ln_status l')"
proof (cases "terminal_status (ln_status l)")
  case True
  assume "lineage_step l l'"
  then show ?thesis using terminal_absorbing [OF _ True] True by (simp add: after_dispatch_def)
next
  case False
  assume "lineage_step l l'" and "after_dispatch (ln_status l)"
  then show ?thesis
  proof (induction rule: lineage_step.cases)
    case (complete l s code now)
    then show ?case using valid_completion_terminal by (auto simp: after_dispatch_def completed_def)
  next
    case (finish l s code ty now)
    then show ?case by (auto simp: after_dispatch_def end_allowed_def ended_def terminal_run_def split: if_splits)
  qed (use False in \<open>auto simp: after_dispatch_def noted_def without_content_def\<close>)
qed

end
