(* ===== verification/Exec_Calls.thy ===== *)
theory Exec_Calls
  imports Exec_Outcome
begin

text \<open>
  One run, one call: what the invocation runner guarantees of the tool call, together with the execution
  protocol it goes through.
\<close>

section \<open>A run that succeeds\<close>

definition answered_call :: invocation_world where
  "answered_call = \<lparr>iw_before_session = None, iw_validate = None, iw_initialize = Inr QUALIFIED_PROTOCOL_REVISION, iw_notify = None,
     iw_before_dispatch = None, iw_call_tool = Inr \<lparr>ctr_is_error = False, ctr_content = [], ctr_structured = None\<rparr>,
     iw_leave = (\<lambda>e. e), iw_transport = demo_session, iw_interrupted = None, iw_expired = False\<rparr>"

definition demo_runner :: runner where
  "demo_runner = \<lparr>rn_externals = demo_adapter, rn_content = demo_content, rn_limits = default_limits,
     rn_file_system = (\<lambda>_ _. None), rn_secret_provider = Fixture [] None,
     rn_adapter_factory = (\<lambda>_. invocation_adapter default_limits (ustr_of ''v1''))\<rparr>"

definition demo_world :: "invocation_world \<Rightarrow> runner_world" where
  "demo_world call = \<lparr>rw_load = demo_db2,
     rw_db = (\<lambda>t. case t of SessionFence \<Rightarrow> demo_db2 | DispatchFence \<Rightarrow> demo_db3 | _ \<Rightarrow> demo_db4),
     rw_clock = (\<lambda>_. demo_clock), rw_cut = (\<lambda>_. None), rw_session = (\<lambda>_ _. call)\<rparr>"

definition demo_call_target :: InvocationTarget where
  "demo_call_target = \<lparr>it_endpoint = scv_endpoint_url demo_connection_version, it_policy_version = scv_policy_version demo_connection_version,
     it_tool_name = bind_tool_name demo_binding, it_arguments = JDict [], it_output_schema = capv_output_schema demo_version,
     it_secret_reference = None\<rparr>"

definition demo_invocation_config :: adapter_config where
  "demo_invocation_config = projr (invocation_adapter default_limits (ustr_of ''v1''))"

lemma demo_prepared: "prepare_call demo_runner demo_lease demo_db2 = Inr (demo_call_target, demo_invocation_config, None)"
proof -
  have "run_arguments demo_run = Some (JDict [])" by (simp add: demo_run_def admitted_run_def)
  moreover have "connection_versions demo_db1 = [demo_connection_version]" "capability_versions demo_db1 = [demo_version]"
    by (simp_all add: demo_db1_def demo_db0_def demo_db_def empty_db_def)
  ultimately have "load_target demo_lease demo_db2 = Inr demo_call_target"
    by (simp add: load_target_def demo_lease_def demo_tables demo_run2_def demo_run_fields target_secret_def demo_call_target_def
        demo_version_def demo_binding_def demo_connection_version_def)
  moreover have "invocation_adapter default_limits (ustr_of ''v1'') = Inr demo_invocation_config"
    by code_simp
  ultimately show ?thesis by (simp add: prepare_call_def demo_runner_def demo_call_target_def)
qed

lemma demo_fences:
  "run_fence_session (demo_world call) demo_lease None = (None, [(SessionFence, demo_db2, demo_db3)])"
  "run_fence_dispatch (demo_world call) demo_lease = (None, [(DispatchFence, demo_db3, demo_db4)])"
proof -
  have "(\<lambda>n. demo_clock (n + 2)) = demo_clock" by (simp add: demo_clock_def fun_eq_iff)
  then show "run_fence_session (demo_world call) demo_lease None = (None, [(SessionFence, demo_db2, demo_db3)])"
    using Exec_Demo.demo_session
    by (simp add: run_fence_session_def transact_def session_fence_operation_def demo_world_def fence_result_def)
  show "run_fence_dispatch (demo_world call) demo_lease = (None, [(DispatchFence, demo_db3, demo_db4)])"
    using demo_dispatch by (simp add: run_fence_dispatch_def transact_def demo_world_def fence_result_def)
qed

definition demo_answer :: InvocationResult where
  "demo_answer = \<lparr>inv_payload = JDict [(ustr_of ''content'', JList [])], inv_canonical_digest = demo_hex, inv_byte_count = 14\<rparr>"

lemma demo_answered:
  "invoke_tool demo_adapter demo_invocation_config (it_endpoint demo_call_target) (it_output_schema demo_call_target) None
     answered_call = (True, Inr demo_answer)"
  by code_simp

lemma demo_attempt_call:
  "attempt_call demo_runner (demo_world answered_call) demo_lease None = ((True, Inr demo_answer),
     [(SessionFence, demo_db2, demo_db3), (DispatchFence, demo_db3, demo_db4)])"
proof -
  have "fenced_session (demo_world answered_call) demo_lease None t c = answered_call" for t c
    by (simp add: fenced_session_def demo_fences) (simp add: demo_world_def answered_call_def)
  moreover have "rn_externals demo_runner = demo_adapter" "rw_load (demo_world answered_call) = demo_db2"
    by (simp_all add: demo_runner_def demo_world_def)
  moreover have "dispatch_fence_reached answered_call" by (simp add: dispatch_fence_reached_def answered_call_def)
  ultimately show ?thesis
    by (simp add: attempt_call_def demo_prepared demo_fences demo_answered session_fence_reached_def)
qed

lemma demo_answer_recorded:
  "\<exists>d. complete_invocation_success demo_content default_limits demo_lease (accepted_result demo_answer) demo_clock demo_db4
     = Inr (demo_run5, d)"
proof -
  have "accepted_result_ok demo_content default_limits (accepted_result demo_answer)" by code_simp
  then show ?thesis
    using demo_completed by (simp add: complete_invocation_success_def demo_run5_def Let_def)
qed

lemma demo_succeeds:
  "rt_dispatched (run_lease demo_runner (demo_world answered_call) demo_lease None)"
  "rt_result (run_lease demo_runner (demo_world answered_call) demo_lease None) = Inr (Some RunStatus.SUCCEEDED)"
proof -
  obtain d where d: "complete_invocation_success demo_content default_limits demo_lease (accepted_result demo_answer) demo_clock demo_db4
     = Inr (demo_run5, d)" using demo_answer_recorded by blast
  then have "transact (demo_world answered_call) Completion (complete_invocation_success (rn_content demo_runner)
      (rn_limits demo_runner) demo_lease (accepted_result demo_answer)) = (Inr demo_run5, [(Completion, demo_db4, d)])"
    by (simp add: transact_def demo_world_def demo_runner_def)
  then have "complete_success demo_runner (demo_world answered_call) demo_lease None demo_answer
      = (Inr (Some RunStatus.SUCCEEDED), [(Completion, demo_db4, d)])"
    by (simp add: complete_success_def renew_lease_def demo_run5_def)
  then show "rt_dispatched (run_lease demo_runner (demo_world answered_call) demo_lease None)"
    "rt_result (run_lease demo_runner (demo_world answered_call) demo_lease None) = Inr (Some RunStatus.SUCCEEDED)"
    by (simp_all add: run_lease_def demo_attempt_call)
qed

section \<open>At most one call\<close>

text \<open>Which transactions a part of the runner commits.\<close>

lemma transact_tags: "fst ` set (snd (transact w t op)) \<subseteq> {t}"
  using transact_commit by fastforce

lemma renew_lease_tags: "fst ` set (snd (renew_lease w t lease dur)) \<subseteq> {t}"
  using transact_tags [of w t] by (auto simp: renew_lease_def split: option.splits)

lemma complete_failure_tags: "fst ` set (snd (complete_failure w t1 t2 lease status code dur)) \<subseteq> {t1, t2}"
  using renew_lease_tags [of w t1 lease dur] transact_tags [of w t2]
  by (fastforce simp: complete_failure_def case_prod_unfold Let_def split: sum.splits)

lemma complete_success_tags:
  "fst ` set (snd (complete_success rn w lease dur res)) \<subseteq> {Renewal, Completion, SecondRenewal, SecondCompletion}"
  using renew_lease_tags [of w Renewal lease dur] transact_tags [of w Completion]
    complete_failure_tags [of w SecondRenewal SecondCompletion]
  by (fastforce simp: complete_success_def result_refused_def case_prod_unfold Let_def split: sum.splits if_splits)

lemma recording_tags:
  assumes "attempt_call rn w lease dur = ((dispatched, out), c0)" and "rt_commits (run_lease rn w lease dur) = c0 @ c1"
  shows "fst ` set c1 \<subseteq> {Renewal, Completion, SecondRenewal, SecondCompletion}"
  using assms complete_success_tags [of rn w lease dur] complete_failure_tags [of w Renewal Completion lease _ _ dur]
  by (fastforce simp: run_lease_def case_prod_unfold Let_def split: sum.splits handling.splits)

lemma attempt_call_commit:
  assumes "(DispatchFence, d, d') \<in> set (snd (attempt_call rn w lease dur))"
  shows "d = rw_db w DispatchFence \<and> (\<exists>run. Exec_Worker.fence_dispatch lease (rw_clock w DispatchFence) d = Inr (run, d'))"
  using assms transact_commit [of DispatchFence d d' w DispatchFence "Exec_Worker.fence_dispatch lease"]
    transact_commit [of DispatchFence d d' w SessionFence "session_fence_operation lease dur"]
  by (auto simp: attempt_call_def Let_def run_fence_session_def run_fence_dispatch_def split: sum.splits if_splits)

lemma commit_of_dispatch:
  assumes "(DispatchFence, d, d') \<in> set (rt_commits (run_lease rn w lease dur))"
  obtains run where "d = rw_db w DispatchFence" "Exec_Worker.fence_dispatch lease (rw_clock w DispatchFence) d = Inr (run, d')"
proof -
  obtain dispatched out c0 where a: "attempt_call rn w lease dur = ((dispatched, out), c0)" by (metis surj_pair)
  obtain c1 where c1: "rt_commits (run_lease rn w lease dur) = c0 @ c1" by (rule run_lease_attempt [OF a])
  have "(DispatchFence, d, d') \<notin> set c1" using recording_tags [OF a c1] by force
  with assms c1 a have "(DispatchFence, d, d') \<in> set (snd (attempt_call rn w lease dur))" by simp
  from attempt_call_commit [OF this] show thesis by (auto intro: that)
qed

text \<open>C8. Every transaction the runner commits is a sequence of steps of the execution protocol, and it
  calls the tool only after it has committed, first, the session fence and then the dispatch fence of
  its lease: the run is then DISPATCH_FENCED in the database.\<close>

theorem tool_called_behind_fences:
  assumes "rt_dispatched (run_lease rn w lease dur)" and "reach exec_init exec_step (rw_db w DispatchFence, drawn)"
  shows "list_all protocol_commit (rt_commits (run_lease rn w lease dur))
    \<and> (\<exists>d1 d2 r. prefix [(SessionFence, rw_db w SessionFence, d1), (DispatchFence, rw_db w DispatchFence, d2)]
          (rt_commits (run_lease rn w lease dur))
        \<and> r \<in> set (runs d2) \<and> run_id r = lease_run_id lease \<and> run_status r = RunStatus.DISPATCH_FENCED)"
proof -
  obtain run1 d1 run2 d2 where d: "Exec_Worker.fence_dispatch lease (rw_clock w DispatchFence) (rw_db w DispatchFence) = Inr (run2, d2)"
    "prefix [(SessionFence, rw_db w SessionFence, d1), (DispatchFence, rw_db w DispatchFence, d2)] (rt_commits (run_lease rn w lease dur))"
    by (rule run_lease_dispatched [OF assms(1)])
  obtain l' where l': "has_lineage d2 (lease_run_id lease) l'" "ln_status l' = RunStatus.DISPATCH_FENCED"
    by (rule fence_dispatch_Inr [OF d(1) reach_ledger_ok [OF assms(2)]])
  have "ln_run l' \<in> set (runs d2) \<and> run_id (ln_run l') = lease_run_id lease"
    using has_lineage_mem [OF l'(1)] has_lineage_id [OF l'(1)] by simp
  with l'(2) d(2) rt_commits_run_lease show ?thesis by blast
qed

theorem tool_called_behind_fences_witness:
  "reach exec_init exec_step (demo_db3, {100})
   \<and> prefix [(SessionFence, demo_db2, demo_db3), (DispatchFence, demo_db3, demo_db4)]
       (rt_commits (run_lease demo_runner (demo_world answered_call) demo_lease None))
   \<and> list_all protocol_commit (rt_commits (run_lease demo_runner (demo_world answered_call) demo_lease None))"
proof -
  have db: "rw_db (demo_world answered_call) DispatchFence = demo_db3" by (simp add: demo_world_def)
  obtain c1 where "rt_commits (run_lease demo_runner (demo_world answered_call) demo_lease None)
      = [(SessionFence, demo_db2, demo_db3), (DispatchFence, demo_db3, demo_db4)] @ c1"
    by (rule run_lease_attempt [OF demo_attempt_call])
  then show ?thesis
    using tool_called_behind_fences [OF demo_succeeds(1), of "{100}"] demo_reach(4) by (simp add: db)
qed

text \<open>C5. One call per run: once the dispatch fence of a run has been committed, no execution of the runner
  that comes to its own dispatch fence later, with whatever lease of that run, calls the tool.\<close>

theorem no_second_call:
  assumes "reach exec_init exec_step (d1, drawn1)"
    and "(DispatchFence, d1, d2) \<in> set (rt_commits (run_lease rn w lease dur))"
    and "exec_step\<^sup>*\<^sup>* (d2, drawn1) (rw_db w' DispatchFence, drawn2)"
    and "lease_run_id lease' = lease_run_id lease"
  shows "\<not> rt_dispatched (run_lease rn' w' lease' dur')"
proof
  assume "rt_dispatched (run_lease rn' w' lease' dur')"
  then obtain run' d' where f': "Exec_Worker.fence_dispatch lease' (rw_clock w' DispatchFence) (rw_db w' DispatchFence) = Inr (run', d')"
    by (rule run_lease_dispatched)
  obtain run where f: "Exec_Worker.fence_dispatch lease (rw_clock w DispatchFence) d1 = Inr (run, d2)"
    by (rule commit_of_dispatch [OF assms(2)])
  have reach2: "reach exec_init exec_step (d2, drawn1)" by (rule reach.step [OF assms(1) exec_step.fence_dispatch [OF f]])
  then have inv: "exec_inv (d2, drawn1)" by (rule exec_machine.reach_inv)
  have reach3: "reach exec_init exec_step (rw_db w' DispatchFence, drawn2)"
    by (rule exec_machine.steps_reach [OF assms(3) reach2])
  obtain l where l: "has_lineage d2 (lease_run_id lease) l" "ln_status l = RunStatus.DISPATCH_FENCED"
    by (rule fence_dispatch_Inr [OF f reach_ledger_ok [OF assms(1)]])
  obtain l' where l': "has_lineage (rw_db w' DispatchFence) (lease_run_id lease) l'" "ln_status l' = RunStatus.SESSION_FENCED"
    using fence_dispatch_Inr [OF f' reach_ledger_ok [OF reach3]] assms(4) by metis
  have "after_dispatch (ln_status l')"
  proof (rule exec_steps_keep [where P = "\<lambda>m. after_dispatch (ln_status m)", OF assms(3) inv _ _ _ l'(1)])
    show "lease_run_id lease \<in> drawn1"
      using inv has_lineage_mem [OF l(1)] has_lineage_id [OF l(1)] by (auto simp: exec_inv_def)
    show "after_dispatch (ln_status m)" if "has_lineage d2 (lease_run_id lease) m" for m
      using that l has_lineage_unique by (auto simp: after_dispatch_def)
  qed (rule after_dispatch_step)
  with l'(2) show False by (simp add: after_dispatch_def)
qed

text \<open>A second worker that reaches the fence after the first one has passed it.\<close>

definition late_world :: runner_world where
  "late_world = (demo_world answered_call)\<lparr>rw_db := (\<lambda>_. demo_db4)\<rparr>"

theorem no_second_call_witness:
  "rt_dispatched (run_lease demo_runner (demo_world answered_call) demo_lease None)
   \<and> \<not> rt_dispatched (run_lease demo_runner late_world demo_lease None)"
proof -
  have c: "(DispatchFence, demo_db3, demo_db4) \<in> set (rt_commits (run_lease demo_runner (demo_world answered_call) demo_lease None))"
    by (rule run_lease_attempt [OF demo_attempt_call]) simp
  have "exec_step\<^sup>*\<^sup>* (demo_db4, {100}) (rw_db late_world DispatchFence, {100})" by (simp add: late_world_def)
  from no_second_call [OF demo_reach(4) c this refl] demo_succeeds(1) show ?thesis by blast
qed

end
