(* ===== verification/Exec_Record.thy ===== *)
theory Exec_Record
  imports Exec_Calls
begin

text \<open>
  What the runner records of a run agrees with what is known of its tool call.
\<close>

section \<open>Completion\<close>

lemma first_row_mem: "first_row xs = Some x \<Longrightarrow> x \<in> set xs"
  by (cases xs) (auto simp: first_row_def)

lemma locked_lease_lineage_ids:
  "locked_lease_lineage lease d = Inr (run, job) \<Longrightarrow> run_id run = lease_run_id lease \<and> job_run_id job = lease_run_id lease"
  by (auto simp: locked_lease_lineage_def locked_job_def and_then_Inr dest!: first_row_mem split: option.splits if_splits)

lemma complete_lease_Inr:
  assumes "complete_lease lease s code clock d = Inr (run, d')"
  shows "run_id run = lease_run_id lease"
    "run_status run = s \<or> run_status run = RunStatus.TIMED_OUT \<or> run_status run = RunStatus.INDETERMINATE"
  using assms locked_lease_lineage_ids
  by (auto simp: complete_lease_def terminalize_run_def terminal_run_def deadline_status_def Let_def and_then_Inr
      split: if_splits option.splits prod.splits)

lemma heartbeat_run_id: "heartbeat lease dur clock d = Inr (lease', d') \<Longrightarrow> lease_run_id lease' = lease_run_id lease"
  using locked_lease_lineage_ids
  by (auto simp: heartbeat_def Let_def and_then_Inr split: if_splits prod.splits)

lemma renew_lease_run_id: "renew_lease w t lease dur = (Inr lease', c) \<Longrightarrow> lease_run_id lease' = lease_run_id lease"
  using heartbeat_run_id by (auto simp: renew_lease_def split: option.splits dest!: transact_Inr)

lemma refused_is_none_result: "refused_is_none r \<noteq> Inr (Some s)"
  by (auto simp: refused_is_none_def split: exn.splits svc_error.splits)

lemma complete_failure_result:
  assumes "fst (complete_failure w t1 t2 lease s code dur) = Inr (Some s')"
  shows "s' = s \<or> s' = RunStatus.TIMED_OUT \<or> s' = RunStatus.INDETERMINATE"
proof -
  obtain l run c where "transact w t2 (complete_lease l s (Some code)) = (Inr run, c)" "s' = run_status run"
    using assms refused_is_none_result
    by (auto simp: complete_failure_def Let_def split: prod.splits sum.splits)
  then show ?thesis using transact_Inr [of w t2 "complete_lease l s (Some code)" run c] complete_lease_Inr(2) by blast
qed

text \<open>A recorded success: the result is stored for the run of the lease.\<close>

lemma complete_invocation_success_Inr:
  assumes "complete_invocation_success ext limits lease res clock d = Inr (run, d')" and "run_status run = RunStatus.SUCCEEDED"
  shows "\<exists>x \<in> set (run_results d'). res_run_id x = lease_run_id lease \<and> res_payload x = atr_payload res"
proof -
  let ?at = "\<lambda>run. case run_terminal_at run of Some t \<Rightarrow> t | None \<Rightarrow> clock 2"
  let ?row = "\<lambda>run. \<lparr>res_run_id = run_id run, res_workspace_id = run_workspace_id run,
      res_payload = atr_payload res, res_canonical_digest = atr_canonical_digest res, res_byte_count = atr_byte_count res,
      res_captured_at = ?at run, res_expires_at = ?at run + days (result_retention_days limits)\<rparr>"
  obtain run1 d1 where c: "complete_lease lease RunStatus.SUCCEEDED None clock d = Inr (run1, d1)"
    and e: "(if run_status run1 \<noteq> RunStatus.SUCCEEDED then Inr (run1, d1)
       else Inr (run1, d1\<lparr>run_results := run_results d1 @ [?row run1]\<rparr>)) = (Inr (run, d') :: svc_error + Run \<times> db)"
    using assms(1) unfolding complete_invocation_success_def Let_def
    by (cases "complete_lease lease RunStatus.SUCCEEDED None clock d") (auto simp: and_then_def split: if_splits)
  have "run1 = run" using e by (simp split: if_splits)
  with c e assms(2) have d1: "complete_lease lease RunStatus.SUCCEEDED None clock d = Inr (run, d1)"
    and d': "run_results d' = run_results d1 @ [?row run]" by auto
  from complete_lease_Inr(1) [OF d1] d' show ?thesis by simp
qed

lemma result_refused_success: "fst (result_refused w lease dur r) \<noteq> Inr (Some RunStatus.SUCCEEDED)"
proof
  assume "fst (result_refused w lease dur r) = Inr (Some RunStatus.SUCCEEDED)"
  then have "fst (complete_failure w SecondRenewal SecondCompletion lease RunStatus.FAILED INVALID_TOOL_RESULT dur)
      = Inr (Some RunStatus.SUCCEEDED)"
    using refused_is_none_result by (simp add: result_refused_def split: if_splits)
  from complete_failure_result [OF this] show False by simp
qed

lemma complete_success_result:
  assumes "fst (complete_success rn w lease dur res) = Inr (Some RunStatus.SUCCEEDED)"
  shows "\<exists>d d'. (Completion, d, d') \<in> set (snd (complete_success rn w lease dur res))
     \<and> (\<exists>x \<in> set (run_results d'). res_run_id x = lease_run_id lease \<and> res_payload x = inv_payload res)"
proof -
  obtain lease' c1 where l: "renew_lease w Renewal lease dur = (Inr lease', c1)"
    using assms result_refused_success by (auto simp: complete_success_def Let_def split: prod.splits sum.splits)
  let ?op = "complete_invocation_success (rn_content rn) (rn_limits rn) lease' (accepted_result res)"
  obtain run c2 where t: "transact w Completion ?op = (Inr run, c2)" "run_status run = RunStatus.SUCCEEDED"
    using assms result_refused_success l by (auto simp: complete_success_def Let_def split: prod.splits sum.splits)
  obtain d where d: "?op (rw_clock w Completion) (rw_db w Completion) = Inr (run, d)" "c2 = [(Completion, rw_db w Completion, d)]"
    using transact_Inr [OF t(1)] by blast
  from complete_invocation_success_Inr [OF d(1) t(2)] renew_lease_run_id [OF l] d(2) t l show ?thesis
    by (auto simp: complete_success_def accepted_result_def)
qed

section \<open>Outcomes\<close>

definition cuts_behave :: "runner_world \<Rightarrow> bool" where
  "cuts_behave w \<longleftrightarrow> (\<forall>t committed r. rw_cut w t = Some (committed, r) \<longrightarrow> no_invocation_error r)"

lemma fence_result_rejects:
  assumes "cuts_behave w" and "fence_result code (fst (transact w t op)) = Some r"
  shows "fence_rejects r"
proof -
  obtain e where e: "fst (transact w t op) = Inl e" using assms(2) by (auto simp: fence_result_def split: sum.splits)
  then have "no_invocation_error e"
    using assms(1) by (auto simp: transact_def cuts_behave_def no_invocation_error_def split: sum.splits option.splits)
  with assms(2) e show ?thesis
    by (auto simp: fence_result_def fence_rejects_def no_invocation_error_def split: exn.splits svc_error.splits)
qed

lemma fenced_session_behaves:
  assumes "cuts_behave w" and "sdk_behaves (rw_session w target token)"
  shows "sdk_behaves (fenced_session w lease dur target token)" "fences_behave (fenced_session w lease dur target token)"
  using assms fence_result_rejects [OF assms(1)]
  by (auto simp: fenced_session_def sdk_behaves_def fences_behave_def run_fence_session_def run_fence_dispatch_def)

lemma fenced_session_call [simp]:
  "iw_call_tool (fenced_session w lease dur target token) = iw_call_tool (rw_session w target token)"
  "definitive (fenced_session w lease dur target token) \<longleftrightarrow> definitive (rw_session w target token)"
  by (simp_all add: fenced_session_def definitive_def)

lemma classify_failure_class:
  "is_invocation (exn_of (classify_failure dispatched received transport e))
     \<or> exn_of (classify_failure dispatched received transport e) \<in> {Cancelled, ExceptionGroup}"
proof (cases "is_invocation (exn_of e) \<or> \<not> is_exception e")
  case True
  then show ?thesis by (cases e) (auto simp: classify_failure_def)
next
  case False
  then show ?thesis
    using find_exception_Some(1) [of is_invocation e] by (auto simp: classify_failure_def split: option.splits)
qed

lemma invoke_tool_class:
  "invoke_tool ext cfg endpoint schema token w = (dispatched, Inl r) \<Longrightarrow>
     is_invocation (exn_of r) \<or> exn_of r \<in> {Cancelled, ExceptionGroup}"
  using classify_failure_class
  by (auto simp: invoke_tool_def Let_def split: if_splits option.splits prod.splits sum.splits)

lemma handled_invocation:
  assumes "handle_failure x = Complete s code" and "is_invocation x \<or> x \<in> {Cancelled, ExceptionGroup}"
  obtains c b where "x = Invocation InvocationError c b" "s = RunStatus.FAILED" "code = run_failure_code c b"
  | c b where "x = Invocation InvocationIndeterminate c b" "s = RunStatus.INDETERMINATE" "code = UPSTREAM_OUTCOME_UNKNOWN"
  using assms by (cases x rule: handle_failure.cases) auto

lemma attempt_call_prepared:
  assumes "prepare_call rn lease (rw_load w) = Inr (target, cfg, token)"
  shows "fst (attempt_call rn w lease dur) = invoke_tool (rn_externals rn) cfg (it_endpoint target) (it_output_schema target) token
    (fenced_session w lease dur target token)"
  using assms by (simp add: attempt_call_def Let_def)

text \<open>A handled failure of a call that was made: it is recorded as FAILED only when the upstream answered.\<close>

lemma failed_call_handled:
  assumes "cuts_behave w" "sdk_behaves (rw_session w target token)"
    and "invoke_tool ext cfg endpoint schema token (fenced_session w lease dur target token) = (dispatched, Inl r)"
    and "handle_failure (exn_of r) = Complete s code"
  shows "s = RunStatus.FAILED \<and> (dispatched \<longrightarrow> definitive (rw_session w target token))
    \<or> s = RunStatus.INDETERMINATE \<and> dispatched \<and> \<not> definitive (rw_session w target token)"
  using assms(4) invoke_tool_class [OF assms(3)]
proof (cases rule: handled_invocation)
  case (1 c b)
  then show ?thesis
    using invoke_tool_failure [OF fenced_session_behaves [OF assms(1,2)] assms(3) 1(1)] by simp
next
  case (2 c b)
  then show ?thesis
    using invoke_tool_failure [OF fenced_session_behaves [OF assms(1,2)] assms(3) 2(1)] by simp
qed

lemma run_lease_result:
  assumes "attempt_call rn w lease dur = ((dispatched, out), c0)"
  shows "rt_dispatched (run_lease rn w lease dur) = dispatched"
    "out = Inr res \<Longrightarrow> rt_result (run_lease rn w lease dur) = fst (complete_success rn w lease dur res)
       \<and> set (snd (complete_success rn w lease dur res)) \<subseteq> set (rt_commits (run_lease rn w lease dur))"
    "out = Inl r \<Longrightarrow> rt_result (run_lease rn w lease dur) = Inr (Some s) \<Longrightarrow>
       \<exists>s' code. handle_failure (exn_of r) = Complete s' code \<and> (s = s' \<or> s = RunStatus.TIMED_OUT \<or> s = RunStatus.INDETERMINATE)"
proof -
  show "rt_dispatched (run_lease rn w lease dur) = dispatched"
    using assms by (simp add: run_lease_def case_prod_unfold Let_def)
  show "out = Inr res \<Longrightarrow> rt_result (run_lease rn w lease dur) = fst (complete_success rn w lease dur res)
       \<and> set (snd (complete_success rn w lease dur res)) \<subseteq> set (rt_commits (run_lease rn w lease dur))"
    using assms by (simp add: run_lease_def case_prod_unfold Let_def)
  assume out: "out = Inl r" "rt_result (run_lease rn w lease dur) = Inr (Some s)"
  then obtain s' code where h: "handle_failure (exn_of r) = Complete s' code"
    "fst (complete_failure w Renewal Completion lease s' code dur) = Inr (Some s)"
    using assms by (auto simp: run_lease_def case_prod_unfold Let_def split: handling.splits)
  with complete_failure_result [OF h(2)]
  show "\<exists>s' code. handle_failure (exn_of r) = Complete s' code \<and> (s = s' \<or> s = RunStatus.TIMED_OUT \<or> s = RunStatus.INDETERMINATE)"
    by blast
qed

text \<open>C6. What is recorded agrees with what is known of the tool call: a run is recorded FAILED only when its tool
  was not called or a definitive answer came, so that an unknown outcome is never reported as a failure;
  and it is recorded SUCCEEDED only when the call returned without an error, with the normalized answer of
  that call stored as the result of the run.\<close>

theorem recorded_outcome_sound:
  assumes "prepare_call rn lease (rw_load w) = Inr (target, cfg, token)"
    and "sdk_behaves (rw_session w target token)" and "cuts_behave w"
  shows "(rt_result (run_lease rn w lease dur) = Inr (Some RunStatus.FAILED) \<longrightarrow>
      \<not> rt_dispatched (run_lease rn w lease dur) \<or> definitive (rw_session w target token))
    \<and> (rt_result (run_lease rn w lease dur) = Inr (Some RunStatus.SUCCEEDED) \<longrightarrow>
      rt_dispatched (run_lease rn w lease dur)
      \<and> (\<exists>answer res d d' x. iw_call_tool (rw_session w target token) = Inr answer \<and> \<not> ctr_is_error answer
          \<and> normalize_invocation_result (rn_externals rn) cfg (it_output_schema target)
              (case token of None \<Rightarrow> None | Some t \<Rightarrow> bearer_credential (rn_externals rn) (it_endpoint target) t) answer = Inr res
          \<and> (Completion, d, d') \<in> set (rt_commits (run_lease rn w lease dur))
          \<and> x \<in> set (run_results d') \<and> res_run_id x = lease_run_id lease \<and> res_payload x = inv_payload res))"
proof -
  obtain dispatched out c0 where a: "attempt_call rn w lease dur = ((dispatched, out), c0)" by (metis surj_pair)
  have inv: "invoke_tool (rn_externals rn) cfg (it_endpoint target) (it_output_schema target) token
      (fenced_session w lease dur target token) = (dispatched, out)"
    using attempt_call_prepared [OF assms(1), of dur] a by simp
  note f = fenced_session_behaves [OF assms(3,2)] and res = run_lease_result [OF a]
  show ?thesis
  proof (cases out)
    case (Inl r)
    with failed_call_handled [OF assms(3,2) inv [unfolded Inl]] res(1) res(3) [OF Inl] show ?thesis by auto
  next
    case (Inr x)
    obtain answer where ans: "dispatched" "iw_call_tool (rw_session w target token) = Inr answer"
      "normalize_invocation_result (rn_externals rn) cfg (it_output_schema target)
         (case token of None \<Rightarrow> None | Some t \<Rightarrow> bearer_credential (rn_externals rn) (it_endpoint target) t) answer = Inr x"
      by (rule invoke_tool_Inr [OF inv [unfolded Inr] f]) simp
    note s = complete_success_result [of rn w lease dur x]
    have "definitive (rw_session w target token)" using ans(2) by (simp add: definitive_def)
    moreover have "\<not> ctr_is_error answer" by (rule normalize_result_ok(1) [OF ans(3)])
    ultimately show ?thesis using ans s res(1) res(2) [OF Inr] by fastforce
  qed
qed

theorem recorded_outcome_sound_witness:
  "rt_result (run_lease demo_runner (demo_world answered_call) demo_lease None) = Inr (Some RunStatus.SUCCEEDED)
   \<and> (\<exists>d d' x. (Completion, d, d') \<in> set (rt_commits (run_lease demo_runner (demo_world answered_call) demo_lease None))
        \<and> x \<in> set (run_results d') \<and> res_run_id x = 100)"
proof -
  have p: "prepare_call demo_runner demo_lease (rw_load (demo_world answered_call)) = Inr (demo_call_target, demo_invocation_config, None)"
    using demo_prepared by (simp add: demo_world_def)
  have sdk: "sdk_behaves (rw_session (demo_world answered_call) demo_call_target None)"
    by (auto simp: sdk_behaves_def demo_world_def answered_call_def)
  have cuts: "cuts_behave (demo_world answered_call)" by (simp add: cuts_behave_def demo_world_def)
  have "lease_run_id demo_lease = 100" by (simp add: demo_lease_def)
  with recorded_outcome_sound [OF p sdk cuts, of None] demo_succeeds(2) show ?thesis by auto
qed

end
