(* ===== verification/Exec_Stage.thy ===== *)
theory Exec_Stage
  imports Exec_Record
begin

text \<open>
  Whatever the outcome of a call, the execution service accepts what the runner wants to record of it: the
  failure code belongs to the stage the fences have brought the run to, and a delivered result passes the
  checks of retention.
\<close>

section \<open>Codes before and after the dispatch\<close>

text \<open>The invocation errors of a session before the dispatch.\<close>

definition session_error :: "exn \<Rightarrow> bool" where
  "session_error x \<longleftrightarrow> (\<exists>c. x = Invocation InvocationFenceRejected c False)
     \<or> x = Invocation InvocationError InvocationFailureCode.SESSION_INITIALIZATION_FAILED False"

lemma no_invocation_session_error: "no_invocation_error e \<Longrightarrow> \<forall>x \<in> carried e. is_invocation x \<longrightarrow> session_error x"
  by (simp add: no_invocation_error_def)

lemma fence_session_error: "fence_rejects e \<Longrightarrow> \<forall>x \<in> carried e. is_invocation x \<longrightarrow> session_error x"
  by (auto simp: fence_rejects_def session_error_def)

lemma session_body_errors:
  assumes "session_body w = (False, Inl r)" and "sdk_behaves w" and "fences_behave w"
  shows "\<forall>x \<in> carried r. is_invocation x \<longrightarrow> session_error x"
proof -
  have rej: "\<forall>x \<in> carried r. is_invocation x \<longrightarrow> session_error x"
    if "iw_initialize w = Inl r \<or> iw_notify w = Some r \<or> iw_before_dispatch w = Some r" for r
    using that assms(2,3) no_invocation_session_error fence_session_error
    unfolding sdk_behaves_def fences_behave_def by metis
  then show ?thesis
    using assms(1) by (auto simp: session_body_def session_error_def split: sum.splits option.splits if_splits)
qed

lemma invoke_session_errors:
  assumes s: "invoke_session w = (False, Inl e)" and sdk: "sdk_behaves w" and fences: "fences_behave w"
  shows "\<forall>x \<in> carried e. is_invocation x \<longrightarrow> session_error x"
proof -
  obtain body where b: "session_body w = (False, body)"
    using s by (auto simp: invoke_session_def Let_def split: prod.splits)
  obtain r where r: "body = Inl r" using session_body_facts(2) [OF b sdk fences] by auto
  obtain e' where e': "iw_leave w (Some r) = Some e'" "\<forall>x \<in> carried e'. is_invocation x \<longrightarrow> x \<in> carried r"
    using sdk unfolding sdk_behaves_def by blast
  have "e = e'" using s b r e'(1) by (simp add: invoke_session_def)
  with e'(2) session_body_errors [OF b [unfolded r] sdk fences] show ?thesis by blast
qed

lemma classify_session_code:
  assumes "\<forall>x \<in> carried e. is_invocation x \<longrightarrow> session_error x"
    and "exn_of (classify_failure False received transport e) = Invocation InvocationError c b"
  shows "c \<noteq> InvocationFailureCode.PREPARATION_FAILED \<and> \<not> b"
proof (cases "is_invocation (exn_of e) \<or> \<not> is_exception e")
  case True
  then show ?thesis using assms exn_of_carried [of e] by (auto simp: classify_failure_def session_error_def)
next
  case False
  show ?thesis
  proof (cases "find_exception is_invocation e")
    case (Some n)
    then have "is_invocation (exn_of n) \<and> exn_of n \<in> carried e" by (rule find_exception_Some)
    with assms False Some show ?thesis by (auto simp: classify_failure_def session_error_def split: if_splits)
  next
    case None
    with assms False show ?thesis by (auto simp: classify_failure_def split: if_splits)
  qed
qed

definition call_code :: "InvocationFailureCode \<Rightarrow> bool" where
  "call_code c \<longleftrightarrow> c \<noteq> InvocationFailureCode.PREPARATION_FAILED \<and> c \<noteq> InvocationFailureCode.SESSION_INITIALIZATION_FAILED"

lemma classify_call_code:
  assumes "no_invocation_error e" and "exn_of (classify_failure True received transport e) = Invocation k c b"
  shows "call_code c"
proof -
  have "\<not> is_invocation (exn_of e)" using assms(1) exn_of_carried [of e] by (auto simp: no_invocation_error_def)
  moreover have "find_exception is_invocation e = None" using assms(1) by (simp add: find_exception_None no_invocation_error_def)
  ultimately show ?thesis
    using assms(2) by (auto simp: classify_failure_def call_code_def split: if_splits option.splits)
qed

lemma normalize_call_code: "normalize_invocation_result ext cfg schema credential result = Inl c \<Longrightarrow> call_code c"
  by (auto simp: normalize_invocation_result_def call_code_def Let_def split: if_splits option.splits)

text \<open>The codes of a failed invocation whose session fence was passed.\<close>

lemma invoke_tool_codes:
  assumes inv: "invoke_tool ext cfg endpoint schema token w = (dispatched, Inl r)"
    and sdk: "sdk_behaves w" and fences: "fences_behave w"
    and x: "exn_of r = Invocation InvocationError c b"
    and reached: "iw_before_session w = None" "token = None \<or> bearer_credential ext endpoint (the token) \<noteq> None"
  shows "if dispatched then b \<and> call_code c else \<not> b \<and> c \<noteq> InvocationFailureCode.PREPARATION_FAILED"
proof -
  let ?goal = "if dispatched then b \<and> call_code c else \<not> b \<and> c \<noteq> InvocationFailureCode.PREPARATION_FAILED"
  have b: "b = dispatched" using invoke_tool_failure [OF sdk fences inv x] by simp
  consider (endpoint) e where "iw_validate w = Some e" "\<not> dispatched" "r = classify_failure False False None (timeout_exit w e)"
    | (failed) e where "invoke_session w = (dispatched, Inl e)"
        "r = classify_failure dispatched False (Some (iw_transport w)) (timeout_exit w e)"
    | (answered) result where "invoke_session w = (dispatched, Inr result)"
        "r = error (Invocation InvocationError SENSITIVE_RESULT dispatched)
         \<or> (\<exists>e. r = error_from (Invocation InvocationError INVALID_UPSTREAM_OUTPUT True) e)
         \<or> (\<exists>e. iw_interrupted w = Some e \<and> r = classify_failure dispatched True (Some (iw_transport w)) (timeout_exit w e))
         \<or> (\<exists>code. r = error (Invocation InvocationError code True) \<and> call_code code)"
    using inv reached
    by (cases token) (auto simp: invoke_tool_def Let_def dest!: normalize_call_code
        split: if_splits option.splits prod.splits sum.splits)
  then show ?thesis
  proof cases
    case (endpoint e)
    have "no_invocation_error (timeout_exit w e)" using sdk endpoint(1) by (auto simp: sdk_behaves_def intro: timeout_exit_no_invocation)
    from classify_session_code [OF no_invocation_session_error [OF this], of False None c b] x endpoint show ?thesis by simp
  next
    case (failed e)
    show ?thesis
    proof (cases dispatched)
      case True
      have "no_invocation_error (timeout_exit w e)"
        using invoke_session_facts(3) [OF failed(1) sdk fences refl True] by (auto intro: timeout_exit_no_invocation)
      from classify_call_code [OF this] x failed(2) True b show ?thesis by simp
    next
      case False
      have "\<forall>x \<in> carried (timeout_exit w e). is_invocation x \<longrightarrow> session_error x"
        using invoke_session_errors [OF _ sdk fences] failed(1) False by (auto simp: timeout_exit_def)
      from classify_session_code [OF this, of False "Some (iw_transport w)" c b] x failed(2) False show ?thesis by simp
    qed
  next
    case (answered result)
    have d: "dispatched" using invoke_session_facts(1) [OF answered(1) sdk fences refl] by simp
    have "call_code c" if "iw_interrupted w = Some e" "r = classify_failure dispatched True (Some (iw_transport w)) (timeout_exit w e)" for e
      using classify_call_code [OF timeout_exit_no_invocation [of e w], of True "Some (iw_transport w)" InvocationError c b] that d x sdk by (auto simp: sdk_behaves_def)
    with answered(2) x b d show ?thesis by (auto simp: call_code_def)
  qed
qed

section \<open>Stages\<close>

text \<open>The status the committed fences have given to the run.\<close>

definition stage_of :: "commit list \<Rightarrow> RunStatus" where
  "stage_of c = (if list_ex (\<lambda>(t, _). t = DispatchFence) c then RunStatus.DISPATCH_FENCED
     else if list_ex (\<lambda>(t, _). t = SessionFence) c then RunStatus.SESSION_FENCED else RunStatus.PREPARING)"

definition completion_accepted :: "RunStatus \<Rightarrow> handling \<Rightarrow> bool" where
  "completion_accepted stage h \<longleftrightarrow> (case h of Complete s code \<Rightarrow>
     (\<forall>run attempt. run_status run = stage \<and> att_status attempt = stage \<longrightarrow> valid_worker_completion run attempt s (Some code))
   | _ \<Rightarrow> True)"

text \<open>A configured runner: the adapter and the execution service share their limits and their screens.\<close>

definition runner_configured :: "runner \<Rightarrow> bool" where
  "runner_configured rn \<longleftrightarrow>
     (\<forall>p cfg. rn_adapter_factory rn p = Inr cfg \<longrightarrow> ac_max_result_bytes cfg \<le> max_result_bytes (rn_limits rn))
     \<and> (\<forall>p x. rn_adapter_factory rn p = Inl x \<longrightarrow> handle_failure x \<in> {Complete RunStatus.FAILED RunFailureCode.PREPARATION_FAILED, Propagate})
     \<and> json_float_repr (rn_content rn) = meta_float_repr (rn_externals rn)
     \<and> sha256_hex (rn_content rn) = adapter_sha256 (rn_externals rn)
     \<and> (\<forall>v. content_externals.contains_sensitive_json (rn_content rn) v
          = Some (screen_externals.contains_sensitive_json (rn_externals rn) v))"

lemma invocation_adapter_configured:
  "invocation_adapter limits p = Inr cfg \<Longrightarrow> ac_max_result_bytes cfg = max_result_bytes limits"
  "invocation_adapter limits p = Inl x \<Longrightarrow> handle_failure x = Complete RunStatus.FAILED RunFailureCode.PREPARATION_FAILED"
  by (auto simp: invocation_adapter_def invocation_transport_limits_def transport_limits_def adapter_init_def and_then_def Let_def
      split: if_splits sum.splits)

lemma heartbeat_Inl:
  "heartbeat lease dur clock d = Inl e \<Longrightarrow> 0 < dur \<Longrightarrow> \<exists>c. e = ExecutionError c"
  by (auto simp: heartbeat_def locked_lease_lineage_def locked_job_def and_then_Inl Let_def
      split: if_splits option.splits prod.splits)

lemma fence_attempt_Inl: "fence_attempt lease expected target ty clock d = Inl e \<Longrightarrow> \<exists>c. e = ExecutionError c"
  by (auto simp: fence_attempt_def locked_lease_lineage_def locked_job_def and_then_Inl Let_def
      split: if_splits option.splits prod.splits)

lemma session_fence_Inl:
  assumes "session_fence_operation lease dur clock d = Inl e" and "\<forall>t. dur = Some t \<longrightarrow> 0 < t"
  shows "\<exists>c. e = ExecutionError c"
  using assms heartbeat_Inl fence_attempt_Inl
  by (auto simp: session_fence_operation_def Exec_Worker.fence_session_def and_then_Inl map_sum_Inl_iff split: option.splits)

lemma delivered_result_accepted:
  assumes "normalize_invocation_result (rn_externals rn) cfg schema credential answer = Inr res"
    and "runner_configured rn" and "rn_adapter_factory rn p = Inr cfg"
  shows "accepted_result_ok (rn_content rn) (rn_limits rn) (accepted_result res)"
proof -
  have "\<exists>ms. inv_payload res = JDict ms"
    using assms(1) by (auto simp: normalize_invocation_result_def result_payload_def Let_def split: if_splits option.splits)
  moreover have "ac_max_result_bytes cfg \<le> max_result_bytes (rn_limits rn)"
    using assms(2,3) by (auto simp: runner_configured_def)
  ultimately show ?thesis
    using normalize_result_ok [OF assms(1)] assms(2) canonical_object_nonempty
    by (fastforce simp: accepted_result_ok_def accepted_result_def runner_configured_def)
qed

section \<open>Every outcome can be recorded\<close>

definition uncut :: "runner_world \<Rightarrow> bool" where
  "uncut w \<longleftrightarrow> (\<forall>t. rw_cut w t = None)"

lemma uncut_behaves: "uncut w \<Longrightarrow> cuts_behave w"
  by (simp add: uncut_def cuts_behave_def)

lemma uncut_transact: "uncut w \<Longrightarrow> transact w t op =
   (case op (rw_clock w t) (rw_db w t) of Inl e \<Rightarrow> (Inl (error (ServiceError e)), [])
      | Inr (x, d) \<Rightarrow> (Inr x, [(t, rw_db w t, d)]))"
  by (simp add: transact_def uncut_def split: sum.splits)

text \<open>Without cuts a fence is committed exactly when it returns, and a session fence is only ever refused.\<close>

lemma uncut_session_fence:
  assumes "uncut w" and "\<forall>t. dur = Some t \<longrightarrow> 0 < t"
  obtains (passed) d where "run_fence_session w lease dur = (None, [(SessionFence, rw_db w SessionFence, d)])"
  | (rejected) r c where "run_fence_session w lease dur = (Some r, [])" "exn_of r = Invocation InvocationFenceRejected c False"
  using session_fence_Inl [OF _ assms(2), of lease "rw_clock w SessionFence" "rw_db w SessionFence"]
  by (cases "session_fence_operation lease dur (rw_clock w SessionFence) (rw_db w SessionFence)")
    (fastforce simp: run_fence_session_def uncut_transact [OF assms(1)] fence_result_def)+

lemma uncut_dispatch_fence:
  assumes "uncut w"
  shows "snd (run_fence_dispatch w lease) = [] \<and> fst (run_fence_dispatch w lease) \<noteq> None
    \<or> (\<exists>d. run_fence_dispatch w lease = (None, [(DispatchFence, rw_db w DispatchFence, d)]))"
  by (cases "Exec_Worker.fence_dispatch lease (rw_clock w DispatchFence) (rw_db w DispatchFence)")
    (auto simp: run_fence_dispatch_def uncut_transact [OF assms] fence_result_def)

lemma dispatch_flag:
  "fst (invoke_tool ext cfg endpoint schema token w) \<longleftrightarrow> dispatch_fence_reached w \<and> iw_before_dispatch w = None
     \<and> (token = None \<or> bearer_credential ext endpoint (the token) \<noteq> None)"
  by (auto simp: invoke_tool_def invoke_session_def session_body_def dispatch_fence_reached_def Let_def
      split: if_splits option.splits prod.splits sum.splits)

lemma session_fence_rejected:
  assumes "iw_before_session w = Some r" and "exn_of r = Invocation InvocationFenceRejected c False"
    and "token = None \<or> bearer_credential ext endpoint (the token) \<noteq> None"
  shows "invoke_tool ext cfg endpoint schema token w = (False, Inl r)"
  using assms by (cases token) (auto simp: invoke_tool_def classify_failure_def)

lemma session_fence_reached_iff:
  "session_fence_reached rn target token \<longleftrightarrow>
     token = None \<or> bearer_credential (rn_externals rn) (it_endpoint target) (the token) \<noteq> None"
  by (cases token) (auto simp: session_fence_reached_def)

text \<open>The codes fit: before the session fence, between the fences, and after the dispatch.\<close>

lemma preparation_accepted: "completion_accepted RunStatus.PREPARING (Complete RunStatus.FAILED RunFailureCode.PREPARATION_FAILED)"
  by (simp add: completion_accepted_def valid_worker_completion_def)

lemma codes_accepted:
  assumes "if dispatched then b \<and> call_code c else \<not> b \<and> c \<noteq> InvocationFailureCode.PREPARATION_FAILED"
  shows "completion_accepted (if dispatched then RunStatus.DISPATCH_FENCED else RunStatus.SESSION_FENCED)
    (Complete RunStatus.FAILED (run_failure_code c b))"
  using assms by (auto simp: completion_accepted_def valid_worker_completion_def run_failure_code_def call_code_def)

lemma service_error_handled:
  "handle_failure (ServiceError e) \<in> {Complete RunStatus.FAILED RunFailureCode.PREPARATION_FAILED, Propagate}"
  by (cases e) auto

lemma prepare_call_Inl:
  assumes "prepare_call rn lease d = Inl x" and "runner_configured rn"
  shows "handle_failure x \<in> {Complete RunStatus.FAILED RunFailureCode.PREPARATION_FAILED, Propagate}"
proof -
  consider (service) e where "x = ServiceError e" | (factory) p where "rn_adapter_factory rn p = Inl x"
    using assms(1) by (auto simp: prepare_call_def and_then_Inl map_sum_Inl_iff split: option.splits)
  then show ?thesis
  proof cases
    case (service e)
    then show ?thesis using service_error_handled [of e] by simp
  next
    case (factory p)
    then show ?thesis using assms(2) unfolding runner_configured_def by blast
  qed
qed

lemma failed_call_accepted:
  assumes inv: "invoke_tool ext cfg endpoint schema token w = (dispatched, Inl r)"
    and behaves: "sdk_behaves w" "fences_behave w"
    and reached: "iw_before_session w = None" "token = None \<or> bearer_credential ext endpoint (the token) \<noteq> None"
  shows "completion_accepted (if dispatched then RunStatus.DISPATCH_FENCED else RunStatus.SESSION_FENCED) (handle_failure (exn_of r))"
proof (cases "handle_failure (exn_of r)")
  case (Complete s code)
  from Complete invoke_tool_class [OF inv] show ?thesis
  proof (cases rule: handled_invocation)
    case (1 c b)
    from codes_accepted [OF invoke_tool_codes [OF inv behaves 1(1) reached]] Complete 1 show ?thesis by simp
  next
    case (2 c b)
    then have "dispatched" using invoke_tool_failure [OF behaves inv 2(1)] by simp
    with 2 Complete show ?thesis by (simp add: completion_accepted_def valid_worker_completion_def)
  qed
qed (simp_all add: completion_accepted_def)

lemma stage_of_fences:
  "stage_of [] = RunStatus.PREPARING" "stage_of [(SessionFence, a, b)] = RunStatus.SESSION_FENCED"
  "stage_of [(SessionFence, a, b), (DispatchFence, c, d)] = RunStatus.DISPATCH_FENCED"
  by (simp_all add: stage_of_def)

lemma attempt_call_stage:
  assumes "uncut w" and "run_fence_session w lease dur = (None, [(SessionFence, rw_db w SessionFence, d)])"
    and "prepare_call rn lease (rw_load w) = Inr (target, cfg, token)" and "session_fence_reached rn target token"
    and "attempt_call rn w lease dur = ((dispatched, out), c0)"
  shows "stage_of c0 = (if dispatched then RunStatus.DISPATCH_FENCED else RunStatus.SESSION_FENCED)"
proof -
  let ?s = "fenced_session w lease dur target token"
  have inv: "invoke_tool (rn_externals rn) cfg (it_endpoint target) (it_output_schema target) token ?s = (dispatched, out)"
    and c0: "c0 = (SessionFence, rw_db w SessionFence, d) # (if dispatch_fence_reached ?s then snd (run_fence_dispatch w lease) else [])"
    using assms(2-5) by (simp_all add: attempt_call_def Let_def)
  have "dispatched \<longleftrightarrow> dispatch_fence_reached ?s \<and> fst (run_fence_dispatch w lease) = None"
    using dispatch_flag [of "rn_externals rn" cfg "it_endpoint target" "it_output_schema target" token ?s] inv assms(4)
    by (simp add: session_fence_reached_iff fenced_session_def)
  with c0 uncut_dispatch_fence [OF assms(1), of lease] show ?thesis by (auto simp: stage_of_fences)
qed

text \<open>C7. Every outcome can be recorded: when no transaction of the runner breaks off, the failure it wants to record
  is one the service accepts for the stage the run has been brought to by the committed fences, and a
  result that the adapter delivered passes the checks of the service, at the last stage.\<close>

theorem every_outcome_recordable:
  assumes "runner_configured rn" and "uncut w" and "\<forall>t. dur = Some t \<longrightarrow> 0 < t"
    and "\<forall>target token. sdk_behaves (rw_session w target token)"
    and "attempt_call rn w lease dur = ((dispatched, out), c0)"
  shows "case out of
      Inl r \<Rightarrow> completion_accepted (stage_of c0) (handle_failure (exn_of r))
    | Inr res \<Rightarrow> stage_of c0 = RunStatus.DISPATCH_FENCED \<and> accepted_result_ok (rn_content rn) (rn_limits rn) (accepted_result res)"
proof (cases "prepare_call rn lease (rw_load w)")
  case (Inl x)
  then have "out = Inl (error x)" "c0 = []" using assms(5) by (auto simp: attempt_call_def)
  with prepare_call_Inl [OF Inl assms(1)] preparation_accepted show ?thesis
    by (auto simp: stage_of_fences completion_accepted_def)
next
  case (Inr p)
  obtain target cfg token where p: "prepare_call rn lease (rw_load w) = Inr (target, cfg, token)" using Inr by (cases p) auto
  let ?s = "fenced_session w lease dur target token"
  note behaves = fenced_session_behaves [OF uncut_behaves [OF assms(2)] spec [OF spec [OF assms(4)]], of lease dur target token]
  have inv: "invoke_tool (rn_externals rn) cfg (it_endpoint target) (it_output_schema target) token ?s = (dispatched, out)"
    using attempt_call_prepared [OF p, of dur] assms(5) by simp
  have factory: "rn_adapter_factory rn (it_policy_version target) = Inr cfg"
    using p by (auto simp: prepare_call_def and_then_Inr split: option.splits)
  show ?thesis
  proof (cases "session_fence_reached rn target token")
    case False
    then have "out = Inl (error (Invocation InvocationError InvocationFailureCode.PREPARATION_FAILED False))" "c0 = []"
      using inv assms(5) p by (auto simp: session_fence_reached_iff invoke_tool_def attempt_call_def Let_def)
    then show ?thesis using preparation_accepted by (simp add: stage_of_fences run_failure_code_def)
  next
    case True
    then have tok: "token = None \<or> bearer_credential (rn_externals rn) (it_endpoint target) (the token) \<noteq> None"
      by (simp add: session_fence_reached_iff)
    show ?thesis
    proof (cases rule: uncut_session_fence [OF assms(2,3), of lease])
      case (1 d)
      have b: "iw_before_session ?s = None" using 1 by (simp add: fenced_session_def)
      note stage = attempt_call_stage [OF assms(2) 1 p True assms(5)]
      show ?thesis
      proof (cases out)
        case (Inl r)
        then show ?thesis using failed_call_accepted [OF inv [unfolded Inl] behaves b tok] stage by simp
      next
        case (Inr res)
        obtain answer where "dispatched" and n: "normalize_invocation_result (rn_externals rn) cfg (it_output_schema target)
            (case token of None \<Rightarrow> None | Some t \<Rightarrow> bearer_credential (rn_externals rn) (it_endpoint target) t) answer = Inr res"
          by (rule invoke_tool_Inr [OF inv [unfolded Inr] behaves])
        then show ?thesis using delivered_result_accepted [OF n assms(1) factory] stage Inr by simp
      qed
    next
      case (2 r c)
      then have "iw_before_session ?s = Some r" by (simp add: fenced_session_def)
      from session_fence_rejected [OF this 2(2) tok] inv have "out = Inl r" by simp
      with 2 show ?thesis by (simp add: completion_accepted_def)
    qed
  qed
qed

theorem every_outcome_recordable_witness:
  "accepted_result_ok (rn_content demo_runner) (rn_limits demo_runner) (accepted_result demo_answer)
   \<and> stage_of [(SessionFence, demo_db2, demo_db3), (DispatchFence, demo_db3, demo_db4)] = RunStatus.DISPATCH_FENCED"
proof -
  have cfg: "runner_configured demo_runner"
    using invocation_adapter_configured
    by (auto simp: runner_configured_def demo_runner_def demo_content_def demo_adapter_def demo_screens_def
        screen_externals.defs adapter_externals.defs)
  have uncut: "uncut (demo_world answered_call)" by (simp add: uncut_def demo_world_def)
  have sdk: "\<forall>target token. sdk_behaves (rw_session (demo_world answered_call) target token)"
    by (auto simp: sdk_behaves_def demo_world_def answered_call_def)
  from every_outcome_recordable [OF cfg uncut _ sdk demo_attempt_call] show ?thesis by simp
qed

end
