(* ===== verification/Adapter_Schema.thy ===== *)
theory Adapter_Schema
  imports Adapter_Invoke
begin

text \<open>
  \<open>_schema_is_supported\<close> of \<^verbatim>\<open>mcp_adapter/client.py\<close>: the bounded traversal of a tool's two schemas. \<open>late n\<close>
  tells whether the \<open>n\<close>-th look at the clock is past the deadline; without a deadline it never is. The
  regular-expression compiler, the meta-schema check and the resolver of references are parameters. The
  traversal is shown to accept exactly the schemas all of whose nodes are within bounds and supported.
\<close>

section \<open>Nodes\<close>

text \<open>An entry of the stack: a value, its depth, whether it stands where a schema is expected, and which of
  the two schemas it belongs to.\<close>

type_synonym schema_entry = "json \<times> nat \<times> bool \<times> nat"

definition reference_key :: "ustr \<Rightarrow> bool" where
  "reference_key k \<longleftrightarrow> k \<in> ustr_of ` {''$ref'', ''$dynamicRef'', ''$recursiveRef''}"

definition schema_map_key :: "ustr \<Rightarrow> bool" where
  "schema_map_key k \<longleftrightarrow> k \<in> ustr_of ` {''$defs'', ''definitions'', ''properties'', ''patternProperties'', ''dependentSchemas''}"

definition schema_list_key :: "ustr \<Rightarrow> bool" where
  "schema_list_key k \<longleftrightarrow> k \<in> ustr_of ` {''allOf'', ''anyOf'', ''oneOf'', ''prefixItems''}"

definition schema_key :: "ustr \<Rightarrow> bool" where
  "schema_key k \<longleftrightarrow> k \<in> ustr_of ` {''additionalProperties'', ''contains'', ''contentSchema'', ''else'', ''if'', ''items'',
     ''not'', ''propertyNames'', ''then'', ''unevaluatedItems'', ''unevaluatedProperties''}"

definition pattern_ok :: "'e adapter_externals_scheme \<Rightarrow> ustr \<Rightarrow> bool" where
  "pattern_ok ext p \<longleftrightarrow> length p \<le> 512 \<and> re2_compiles ext p"

definition local_reference :: "json \<Rightarrow> bool" where
  "local_reference v \<longleftrightarrow> (case v of JStr s \<Rightarrow> take 1 s = [35] | _ \<Rightarrow> False)"

text \<open>The checks on one member of an object, in the order of the source.\<close>

definition member_ok :: "'e adapter_externals_scheme \<Rightarrow> bool \<Rightarrow> ustr \<Rightarrow> json \<Rightarrow> bool" where
  "member_ok ext schema_position k child \<longleftrightarrow>
     length k \<le> 8192
     \<and> (schema_position \<longrightarrow>
          (k = ustr_of ''pattern'' \<longrightarrow> (case child of JStr p \<Rightarrow> pattern_ok ext p | _ \<Rightarrow> False))
          \<and> (k = ustr_of ''patternProperties'' \<longrightarrow> (case child of JDict ms \<Rightarrow> list_all (pattern_ok ext) (map fst ms) | _ \<Rightarrow> True))
          \<and> k \<noteq> ustr_of ''$id''
          \<and> (k = ustr_of ''$schema'' \<longrightarrow> child = JStr (ustr_of ''https://json-schema.org/draft/2020-12/schema''))
          \<and> (reference_key k \<longrightarrow> local_reference child))"

definition is_dict :: "json \<Rightarrow> bool" where
  "is_dict v \<longleftrightarrow> (case v of JDict _ \<Rightarrow> True | _ \<Rightarrow> False)"

definition is_list :: "json \<Rightarrow> bool" where
  "is_list v \<longleftrightarrow> (case v of JList _ \<Rightarrow> True | _ \<Rightarrow> False)"

text \<open>What a member pushes on the stack, in the order of the pushes.\<close>

definition member_entries :: "nat \<Rightarrow> bool \<Rightarrow> nat \<Rightarrow> ustr \<Rightarrow> json \<Rightarrow> schema_entry list" where
  "member_entries depth schema_position doc k child =
     (if schema_position \<and> schema_map_key k \<and> is_dict child
      then (case child of JDict ms \<Rightarrow> map (\<lambda>(_, item). (item, depth + 2, True, doc)) ms | _ \<Rightarrow> [])
      else if schema_position \<and> schema_list_key k \<and> is_list child
      then (case child of JList xs \<Rightarrow> map (\<lambda>item. (item, depth + 1, True, doc)) xs | _ \<Rightarrow> [])
      else if schema_position \<and> schema_key k then [(child, depth + 1, True, doc)]
      else [(child, depth + 1, False, doc)])"

definition member_references :: "bool \<Rightarrow> nat \<Rightarrow> ustr \<Rightarrow> json \<Rightarrow> (nat \<times> json) list" where
  "member_references schema_position doc k child = (if schema_position \<and> reference_key k then [(doc, child)] else [])"

fun visit_members ::
  "'e adapter_externals_scheme \<Rightarrow> (nat \<Rightarrow> bool) \<Rightarrow> nat \<Rightarrow> bool \<Rightarrow> nat \<Rightarrow> (ustr \<times> json) list \<Rightarrow> nat
     \<Rightarrow> (schema_entry list \<times> (nat \<times> json) list \<times> nat) option" where
  "visit_members ext late depth schema_position doc [] n = Some ([], [], n)"
| "visit_members ext late depth schema_position doc ((k, child) # ms) n =
     (if late n then None
      else if \<not> member_ok ext schema_position k child then None
      else map_option (\<lambda>(es, rs, n'). (member_entries depth schema_position doc k child @ es,
                                      member_references schema_position doc k child @ rs, n'))
             (visit_members ext late depth schema_position doc ms (Suc n)))"

definition visit_node ::
  "'e adapter_externals_scheme \<Rightarrow> (nat \<Rightarrow> bool) \<Rightarrow> schema_entry \<Rightarrow> nat
     \<Rightarrow> (schema_entry list \<times> (nat \<times> json) list \<times> nat) option" where
  "visit_node ext late = (\<lambda>(v, depth, schema_position, doc) n.
     (case v of
        JDict ms \<Rightarrow> if length ms > 1024 then None else visit_members ext late depth schema_position doc ms n
      | JList xs \<Rightarrow> if length xs > 1024 then None else Some (map (\<lambda>c. (c, depth + 1, False, doc)) xs, [], n)
      | JStr s \<Rightarrow> if length s > 8192 then None else Some ([], [], n)
      | _ \<Rightarrow> Some ([], [], n)))"

section \<open>The traversal\<close>

text \<open>The head of the list is the end of Python's list, where it pops.\<close>

function schema_loop ::
  "'e adapter_externals_scheme \<Rightarrow> (nat \<Rightarrow> bool) \<Rightarrow> schema_entry list \<Rightarrow> (nat \<times> json) list \<Rightarrow> nat \<Rightarrow> nat
     \<Rightarrow> ((nat \<times> json) list \<times> nat) option" where
  "schema_loop ext late [] refs nodes n = Some (refs, n)"
| "schema_loop ext late (e # stack) refs nodes n =
     (if late n then None
      else if fst (snd e) > 32 \<or> nodes + 1 > 4096 then None
      else
        (case visit_node ext late e (Suc n) of
           None \<Rightarrow> None
         | Some (es, rs, n') \<Rightarrow> schema_loop ext late (rev es @ stack) (refs @ rs) (nodes + 1) n'))"
  by pat_completeness auto
termination by (relation "measure (\<lambda>(_, _, stack, _, nodes, _). 4097 - nodes)") auto

text \<open>The references of one schema, resolved one after the other.\<close>

fun references_resolve ::
  "'e adapter_externals_scheme \<Rightarrow> (nat \<Rightarrow> bool) \<Rightarrow> nat \<Rightarrow> json \<Rightarrow> (nat \<times> json) list \<Rightarrow> nat \<Rightarrow> nat option" where
  "references_resolve ext late doc schema [] n = Some n"
| "references_resolve ext late doc schema ((doc', reference) # refs) n =
     (if late n then None
      else if doc' = doc
         \<and> \<not> (case reference of
                JStr r \<Rightarrow> (case resolver_lookup ext schema r of Some (JDict _) \<Rightarrow> True | Some (JBool _) \<Rightarrow> True | _ \<Rightarrow> False)
              | _ \<Rightarrow> False)
      then None
      else references_resolve ext late doc schema refs (Suc n))"

definition initial_stack :: "json \<Rightarrow> json option \<Rightarrow> schema_entry list" where
  "initial_stack input output = (case output of None \<Rightarrow> [] | Some s \<Rightarrow> [(s, 1, True, 1)]) @ [(input, 1, True, 0)]"

definition schema_is_supported ::
  "'e adapter_externals_scheme \<Rightarrow> (nat \<Rightarrow> bool) \<Rightarrow> json \<Rightarrow> json option \<Rightarrow> bool" where
  "schema_is_supported ext late input output =
     (case schema_loop ext late (initial_stack input output) [] 0 0 of
        None \<Rightarrow> False
      | Some (refs, n) \<Rightarrow>
          if late n then False
          else if \<not> check_schema ext input \<or> (case output of None \<Rightarrow> False | Some s \<Rightarrow> \<not> check_schema ext s) then False
          else
            (case references_resolve ext late 0 input refs (Suc n) of
               None \<Rightarrow> False
             | Some n' \<Rightarrow>
                 (case output of
                    None \<Rightarrow> True
                  | Some s \<Rightarrow> references_resolve ext late 1 s refs n' \<noteq> None)))"

text \<open>\<open>_schema_support_with_deadline\<close>: the traversal runs in a thread; when it is not back in time the schema
  counts as unsupported.\<close>

definition schema_support_with_deadline ::
  "'e adapter_externals_scheme \<Rightarrow> bool \<Rightarrow> (nat \<Rightarrow> bool) \<Rightarrow> json \<Rightarrow> json option \<Rightarrow> bool" where
  "schema_support_with_deadline ext timed_out late input output =
     (\<not> timed_out \<and> schema_is_supported ext late input output)"

section \<open>What is accepted\<close>

definition node_entries :: "schema_entry \<Rightarrow> schema_entry list" where
  "node_entries = (\<lambda>(v, depth, schema_position, doc).
     (case v of
        JDict ms \<Rightarrow> concat (map (\<lambda>(k, child). member_entries depth schema_position doc k child) ms)
      | JList xs \<Rightarrow> map (\<lambda>c. (c, depth + 1, False, doc)) xs
      | _ \<Rightarrow> []))"

definition node_references :: "schema_entry \<Rightarrow> (nat \<times> json) list" where
  "node_references = (\<lambda>(v, depth, schema_position, doc).
     (case v of JDict ms \<Rightarrow> concat (map (\<lambda>(k, child). member_references schema_position doc k child) ms) | _ \<Rightarrow> []))"

definition supported_node :: "'e adapter_externals_scheme \<Rightarrow> schema_entry \<Rightarrow> bool" where
  "supported_node ext = (\<lambda>(v, depth, schema_position, doc). depth \<le> 32 \<and>
     (case v of
        JDict ms \<Rightarrow> length ms \<le> 1024 \<and> list_all (\<lambda>(k, child). member_ok ext schema_position k child) ms
      | JList xs \<Rightarrow> length xs \<le> 1024
      | JStr s \<Rightarrow> length s \<le> 8192
      | _ \<Rightarrow> True))"

lemma member_entries_size: "(k, child) \<in> set ms \<Longrightarrow> e \<in> set (member_entries d p doc k child) \<Longrightarrow> size (fst e) < size (JDict ms)"
proof -
  assume m: "(k, child) \<in> set ms" and e: "e \<in> set (member_entries d p doc k child)"
  have "child \<in> set (json_children (JDict ms))" using m by force
  then have c: "size child < size (JDict ms)" by (rule size_child)
  have "size (fst e) \<le> size child"
    using e size_child [of "fst e" child]
    by (auto simp: member_entries_def is_dict_def is_list_def split: if_splits json.splits) (force intro: less_imp_le)+
  with c show ?thesis by simp
qed

lemma node_entries_size: "e' \<in> set (node_entries e) \<Longrightarrow> size (fst e') < size (fst e)"
proof (cases e)
  case (fields v d p doc)
  assume e': "e' \<in> set (node_entries e)"
  show ?thesis
  proof (cases v)
    case (JList xs)
    then show ?thesis using e' fields size_child [of _ v] by (auto simp: node_entries_def)
  next
    case (JDict ms)
    then show ?thesis using e' fields member_entries_size [of _ _ ms e' d p doc] by (auto simp: node_entries_def)
  qed (use e' fields in \<open>simp_all add: node_entries_def\<close>)
qed

text \<open>All entries the traversal comes to, below and including one.\<close>

function subtree :: "schema_entry \<Rightarrow> schema_entry list" where
  "subtree e = e # concat (map subtree (node_entries e))"
  by pat_completeness auto
termination by (relation "measure (\<lambda>e. size (fst e))") (auto dest: node_entries_size)

declare subtree.simps [simp del]

definition reference_resolves :: "'e adapter_externals_scheme \<Rightarrow> json \<Rightarrow> json \<Rightarrow> bool" where
  "reference_resolves ext schema reference \<longleftrightarrow> (case reference of
     JStr r \<Rightarrow> (case resolver_lookup ext schema r of Some (JDict _) \<Rightarrow> True | Some (JBool _) \<Rightarrow> True | _ \<Rightarrow> False) | _ \<Rightarrow> False)"

definition schema_entries :: "json \<Rightarrow> json option \<Rightarrow> schema_entry list" where
  "schema_entries input output = concat (map subtree (initial_stack input output))"

definition schema_spec :: "'e adapter_externals_scheme \<Rightarrow> json \<Rightarrow> json option \<Rightarrow> bool" where
  "schema_spec ext input output \<longleftrightarrow>
     (let es = schema_entries input output
      in length es \<le> 4096 \<and> list_all (supported_node ext) es
         \<and> list_all (check_schema ext) (schema_roots input output)
         \<and> list_all (\<lambda>(doc, reference). doc < length (schema_roots input output)
               \<longrightarrow> reference_resolves ext (schema_roots input output ! doc) reference) (concat (map node_references es)))"

lemma visit_members_Some:
  "visit_members ext late d p doc ms n = Some (es, rs, n') \<Longrightarrow>
     list_all (\<lambda>(k, child). member_ok ext p k child) ms
     \<and> es = concat (map (\<lambda>(k, child). member_entries d p doc k child) ms)
     \<and> rs = concat (map (\<lambda>(k, child). member_references p doc k child) ms)"
  by (induction ext late d p doc ms n arbitrary: es rs n' rule: visit_members.induct) (auto split: if_splits)

lemma visit_members_total:
  assumes "\<And>n. \<not> late n"
  shows "list_all (\<lambda>(k, child). member_ok ext p k child) ms \<Longrightarrow> \<exists>es rs n'. visit_members ext late d p doc ms n = Some (es, rs, n')"
  using assms by (induction ext late d p doc ms n rule: visit_members.induct) fastforce+

lemma visit_node_Some:
  assumes "visit_node ext late e n = Some (es, rs, n')" and "fst (snd e) \<le> 32"
  shows "supported_node ext e \<and> es = node_entries e \<and> rs = node_references e"
  using assms
  by (cases e) (auto simp: visit_node_def supported_node_def node_entries_def node_references_def
      split: json.splits if_splits dest!: visit_members_Some)

lemma visit_node_total:
  assumes "\<And>n. \<not> late n" and "supported_node ext e"
  shows "\<exists>n'. visit_node ext late e n = Some (node_entries e, node_references e, n')"
proof -
  obtain v d p doc where e: "e = (v, d, p, doc)" by (cases e)
  have "\<exists>es rs n'. visit_node ext late e n = Some (es, rs, n')"
    using assms visit_members_total [where late = late and ext = ext and d = d and p = p and doc = doc and n = n, OF assms(1)]
    by (auto simp: e visit_node_def supported_node_def split: json.splits)
  then obtain es rs n' where "visit_node ext late e n = Some (es, rs, n')" by blast
  with visit_node_Some [OF this] assms(2) show ?thesis by (auto simp: e supported_node_def)
qed

definition below :: "schema_entry list \<Rightarrow> schema_entry list" where
  "below stack = concat (map subtree stack)"

lemma below_simps [simp]: "below [] = []" "below (e # stack) = subtree e @ below stack" "below (a @ b) = below a @ below b"
  by (simp_all add: below_def)

lemma below_rev: "length (below (rev es)) = length (below es)" "set (below (rev es)) = set (below es)"
  by (induction es) auto

lemma subtree_below: "subtree e = e # below (node_entries e)"
  by (subst subtree.simps) (simp add: below_def)

lemma schema_loop_Some:
  "schema_loop ext late stack refs nodes n = Some (refs', n') \<Longrightarrow> nodes \<le> 4096 \<Longrightarrow>
     nodes + length (below stack) \<le> 4096 \<and> (\<forall>e \<in> set (below stack). supported_node ext e)
     \<and> set refs' = set refs \<union> (\<Union>e \<in> set (below stack). set (node_references e))"
proof (induction ext late stack refs nodes n arbitrary: refs' n' rule: schema_loop.induct)
  case (2 ext late e stack refs nodes n)
  then obtain es rs k where v: "visit_node ext late e (Suc n) = Some (es, rs, k)" "\<not> late n" "fst (snd e) \<le> 32" "nodes + 1 \<le> 4096"
    "schema_loop ext late (rev es @ stack) (refs @ rs) (nodes + 1) k = Some (refs', n')"
    by (auto split: if_splits option.splits)
  have e: "supported_node ext e" "es = node_entries e" "rs = node_references e"
    using visit_node_Some [OF v(1,3)] by auto
  have ih: "nodes + 1 + length (below (rev es @ stack)) \<le> 4096 \<and> (\<forall>e \<in> set (below (rev es @ stack)). supported_node ext e)
     \<and> set refs' = set (refs @ rs) \<union> (\<Union>e \<in> set (below (rev es @ stack)). set (node_references e))"
    by (rule "2.IH" [OF _ _ v(1) _ _ v(5) v(4)]) (use v in auto)
  then show ?case using e by (auto simp: subtree_below below_rev)
qed simp

lemma schema_loop_total:
  "(\<And>n. \<not> late n) \<Longrightarrow> nodes + length (below stack) \<le> 4096 \<Longrightarrow> \<forall>e \<in> set (below stack). supported_node ext e \<Longrightarrow>
     \<exists>refs' n'. schema_loop ext late stack refs nodes n = Some (refs', n')"
proof (induction ext late stack refs nodes n rule: schema_loop.induct)
  case (2 ext late e stack refs nodes n)
  have s: "supported_node ext e" using 2(4) by (simp add: subtree_below)
  then obtain k where v: "visit_node ext late e (Suc n) = Some (node_entries e, node_references e, k)"
    using visit_node_total [of late ext e "Suc n"] 2(2) by blast
  have d: "\<not> (32 < fst (snd e) \<or> 4096 < nodes + 1)" using s 2(3) by (auto simp: supported_node_def subtree_below split: prod.splits)
  have "\<exists>refs' n'. schema_loop ext late (rev (node_entries e) @ stack) (refs @ node_references e) (nodes + 1) k = Some (refs', n')"
    by (rule "2.IH" [OF _ d v refl refl]) (use 2 in \<open>auto simp: subtree_below below_rev\<close>)
  then show ?case using v d 2(2) [of n] by simp
qed simp

lemma references_resolve_Some:
  "references_resolve ext late doc schema refs n = Some n' \<Longrightarrow> \<forall>(doc', r) \<in> set refs. doc' = doc \<longrightarrow> reference_resolves ext schema r"
  by (induction ext late doc schema refs n rule: references_resolve.induct) (auto simp: reference_resolves_def split: if_splits)

lemma references_resolve_total:
  "(\<And>n. \<not> late n) \<Longrightarrow> \<forall>(doc', r) \<in> set refs. doc' = doc \<longrightarrow> reference_resolves ext schema r \<Longrightarrow>
     \<exists>n'. references_resolve ext late doc schema refs n = Some n'"
  by (induction ext late doc schema refs n rule: references_resolve.induct) (auto simp: reference_resolves_def)

section \<open>The traversal accepts exactly the supported schemas\<close>

lemma schema_entries_below: "schema_entries input output = below (initial_stack input output)"
  by (simp add: schema_entries_def below_def)

lemma schema_is_supported_spec:
  assumes "schema_is_supported ext late input output"
  shows "schema_spec ext input output"
proof -
  obtain refs n n' where l: "schema_loop ext late (initial_stack input output) [] 0 0 = Some (refs, n)"
    and c: "check_schema ext input" "\<forall>s. output = Some s \<longrightarrow> check_schema ext s"
    and r: "references_resolve ext late 0 input refs (Suc n) = Some n'"
      "\<forall>s. output = Some s \<longrightarrow> references_resolve ext late 1 s refs n' \<noteq> None"
    using assms by (auto simp: schema_is_supported_def split: option.splits if_splits)
  have e: "length (schema_entries input output) \<le> 4096" "\<forall>e \<in> set (schema_entries input output). supported_node ext e"
    "set refs = (\<Union>e \<in> set (schema_entries input output). set (node_references e))"
    using schema_loop_Some [OF l] by (simp_all add: schema_entries_below)
  have "reference_resolves ext (schema_roots input output ! doc) reference"
    if in_refs: "(doc, reference) \<in> set refs" and in_range: "doc < length (schema_roots input output)" for doc reference
  proof (cases doc)
    case 0
    then show ?thesis using references_resolve_Some [OF r(1)] in_refs by (auto simp: schema_roots_def)
  next
    case (Suc k)
    then obtain s where s: "output = Some s" "k = 0" using in_range by (auto simp: schema_roots_def split: option.splits)
    with r(2) obtain m where "references_resolve ext late 1 s refs n' = Some m" by auto
    from references_resolve_Some [OF this] in_refs s Suc show ?thesis by (auto simp: schema_roots_def)
  qed
  then have "list_all (\<lambda>(doc, reference). doc < length (schema_roots input output)
      \<longrightarrow> reference_resolves ext (schema_roots input output ! doc) reference) (concat (map node_references (schema_entries input output)))"
    using e(3) by (force simp: list_all_iff)
  moreover have "list_all (check_schema ext) (schema_roots input output)"
    using c by (simp add: schema_roots_def split: option.splits)
  ultimately show ?thesis using e(1,2) by (simp add: schema_spec_def Let_def list_all_iff)
qed

lemma schema_spec_supported:
  assumes "schema_spec ext input output"
  shows "schema_is_supported ext (\<lambda>_. False) input output"
proof -
  have e: "0 + length (below (initial_stack input output)) \<le> 4096" "\<forall>e \<in> set (below (initial_stack input output)). supported_node ext e"
    using assms by (simp_all add: schema_spec_def Let_def schema_entries_below list_all_iff)
  obtain refs n where l: "schema_loop ext (\<lambda>_. False) (initial_stack input output) [] 0 0 = Some (refs, n)"
    using schema_loop_total [where late = "\<lambda>_. False", OF _ e] by blast
  have refs: "set refs = (\<Union>e \<in> set (schema_entries input output). set (node_references e))"
    using schema_loop_Some [OF l] by (simp add: schema_entries_below)
  have r: "\<forall>(doc', r) \<in> set refs. doc' = doc \<longrightarrow> reference_resolves ext (schema_roots input output ! doc) r"
    if "doc < length (schema_roots input output)" for doc
    using assms that by (auto simp: schema_spec_def Let_def list_all_iff refs)
  have "\<exists>m. references_resolve ext (\<lambda>_. False) doc (schema_roots input output ! doc) refs k = Some m"
    if "doc < length (schema_roots input output)" for doc k
    using references_resolve_total [where late = "\<lambda>_. False", OF _ r [OF that]] by blast
  from this [of 0] this [of 1] assms l show ?thesis
    by (auto simp: schema_is_supported_def schema_spec_def schema_roots_def Let_def split: option.splits)
qed

end
