(* ===== verification/Adapter_Discover.thy ===== *)
theory Adapter_Discover
  imports Adapter_Schema Reg_Discovery
begin

text \<open>
  \<open>McpClientAdapter.discover\<close> of \<^verbatim>\<open>mcp_adapter/client.py\<close>: the paged listing of tools, their validation, the
  screened canonical payload, and the classification of failures. As for invocations, the MCP SDK is a
  parameter: what each of its calls returned or raised.
\<close>

section \<open>Tools as listed\<close>

text \<open>A tool of the SDK, with what \<open>model_dump\<close> makes of it.\<close>

record mcp_tool =
  mt_name :: ustr
  mt_title :: "ustr option"
  mt_description :: "ustr option"
  mt_input_schema :: "(ustr \<times> json) list"
  mt_output_schema :: "(ustr \<times> json) list option"
  mt_dump :: json

text \<open>\<open>tool.title or tool.name\<close>.\<close>

definition display_name_of :: "mcp_tool \<Rightarrow> ustr" where
  "display_name_of tool = (case mt_title tool of Some t \<Rightarrow> if t = [] then mt_name tool else t | None \<Rightarrow> mt_name tool)"

definition normalize_tool :: "mcp_tool \<Rightarrow> json option" where
  "normalize_tool tool = (if is_dict (mt_dump tool) then Some (mt_dump tool) else None)"

definition tool_definition :: "mcp_tool \<Rightarrow> string \<Rightarrow> bool \<Rightarrow> ToolDefinition" where
  "tool_definition tool digest supported = \<lparr>tool_identity = mt_name tool, tool_name = mt_name tool,
     tool_display_name = display_name_of tool, tool_description = mt_description tool,
     tool_input_schema = JDict (mt_input_schema tool), tool_output_schema = map_option JDict (mt_output_schema tool),
     tool_metadata_digest = digest, tool_schema_supported = supported\<rparr>"

section \<open>Screens\<close>

definition contains_sensitive_embedded_url :: "'e adapter_externals_scheme \<Rightarrow> json \<Rightarrow> bool" where
  "contains_sensitive_embedded_url ext v \<longleftrightarrow> list_ex (contains_sensitive_url ext) (json_texts v)"

definition schema_member :: "ustr \<Rightarrow> bool" where
  "schema_member k \<longleftrightarrow> k = ustr_of ''inputSchema'' \<or> k = ustr_of ''outputSchema''"

definition contains_sensitive_tool :: "'e adapter_externals_scheme \<Rightarrow> json \<Rightarrow> bool" where
  "contains_sensitive_tool ext tool \<longleftrightarrow>
     (case tool of
        JDict ms \<Rightarrow>
          screen_externals.contains_sensitive_json ext (JDict (filter (\<lambda>(k, _). \<not> schema_member k) ms))
          \<or> contains_sensitive_embedded_url ext tool
          \<or> list_ex (\<lambda>(k, v). schema_member k \<and> contains_sensitive_schema ext v) ms
      | _ \<Rightarrow> False)"

section \<open>Pages\<close>

text \<open>The loop over the pages: \<open>page i cursor\<close> is what the \<open>i\<close>-th \<open>list_tools\<close> gave.\<close>

fun list_pages ::
  "adapter_config \<Rightarrow> (nat \<Rightarrow> ustr option \<Rightarrow> raised + mcp_tool list \<times> ustr option) \<Rightarrow> nat list
     \<Rightarrow> ustr option \<Rightarrow> ustr list \<Rightarrow> mcp_tool list \<Rightarrow> raised + mcp_tool list" where
  "list_pages cfg page [] cursor seen raw = Inl (error (Discovery DiscoveryError))"
| "list_pages cfg page (i # is) cursor seen raw =
     (case page i cursor of
        Inl r \<Rightarrow> Inl r
      | Inr (tools, next_cursor) \<Rightarrow>
          if int (length (raw @ tools)) > ac_max_tools cfg then Inl (error (Discovery DiscoveryError))
          else
            (case next_cursor of
               None \<Rightarrow> Inr (raw @ tools)
             | Some c \<Rightarrow>
                 if c \<in> set seen then Inl (error (Discovery DiscoveryError))
                 else list_pages cfg page is next_cursor (seen @ [c]) (raw @ tools)))"

section \<open>Tools one by one\<close>

text \<open>\<open>support i\<close> is what \<open>_schema_support_with_deadline\<close> made of the \<open>i\<close>-th tool.\<close>

fun define_tools ::
  "'e adapter_externals_scheme \<Rightarrow> (nat \<Rightarrow> bool \<times> (nat \<Rightarrow> bool)) \<Rightarrow> mcp_tool list \<Rightarrow> nat \<Rightarrow> ustr list
     \<Rightarrow> raised + (json \<times> ToolDefinition) list" where
  "define_tools ext support [] i identities = Inr []"
| "define_tools ext support (tool # tools) i identities =
     (case normalize_tool tool of
        None \<Rightarrow> Inl (error (Discovery DiscoveryError))
      | Some normalized \<Rightarrow>
          if mt_name tool \<in> set identities then Inl (error (Discovery DiscoveryError))
          else
            (case canonical_json (meta_float_repr ext) normalized of
               None \<Rightarrow> Inl (error (Discovery DiscoveryError))
             | Some encoded \<Rightarrow>
                 (let digest = adapter_sha256 ext encoded;
                      definition = tool_definition tool digest (schema_support_with_deadline ext (fst (support i)) (snd (support i))
                        (JDict (mt_input_schema tool)) (map_option JDict (mt_output_schema tool)))
                  in if \<not> validate_capability_scalars (meta_externals.truncate ext) definition QUALIFIED_PROTOCOL_REVISION
                        \<or> \<not> validate_schema_payload (meta_externals.truncate ext) (tool_input_schema definition) (tool_output_schema definition)
                     then Inl (error (Discovery DiscoveryError))
                     else map_sum id ((#) (normalized, definition))
                            (define_tools ext support tools (Suc i) (identities @ [mt_name tool])))))"

definition discovery_payload :: "json list \<Rightarrow> json" where
  "discovery_payload tools = JDict [(ustr_of ''protocolRevision'', JStr QUALIFIED_PROTOCOL_REVISION),
     (ustr_of ''tools'', JList tools)]"

text \<open>The second half of \<open>_discover\<close>: from the listed tools to the result. Decoding the canonical bytes gives back
  the text they were encoded from.\<close>

definition discovery_result ::
  "'e adapter_externals_scheme \<Rightarrow> adapter_config \<Rightarrow> (nat \<Rightarrow> bool \<times> (nat \<Rightarrow> bool)) \<Rightarrow> ustr option \<Rightarrow> mcp_tool list
     \<Rightarrow> raised + DiscoveryResult" where
  "discovery_result ext cfg support credential raw =
     and_then (define_tools ext support raw 0 []) (\<lambda>tools.
       (let payload = discovery_payload (map fst tools)
        in if \<not> validate_bounded_json payload then Inl (error (Discovery DiscoveryError))
           else
             (case dumps (meta_float_repr ext) payload of
                None \<Rightarrow> Inl (error (Discovery DiscoveryError))
              | Some text \<Rightarrow>
                  (case utf8 text of
                     None \<Rightarrow> Inl (error (Discovery DiscoveryError))
                   | Some canonical \<Rightarrow>
                       if int (length canonical) > tl_response_bytes (ac_limits cfg) then Inl (error (Discovery DiscoveryError))
                       else if contains_obvious_secret ext text
                          \<or> list_ex (contains_sensitive_tool ext) (map fst tools)
                          \<or> (case credential of None \<Rightarrow> False | Some c \<Rightarrow> contains_decoded_credential ext payload c)
                       then Inl (error (Discovery DiscoveryError))
                       else Inr \<lparr>dr_protocol_revision = QUALIFIED_PROTOCOL_REVISION, dr_tools = map snd tools,
                                 dr_normalized_payload = payload, dr_canonical_bytes = canonical,
                                 dr_canonical_digest = adapter_sha256 ext canonical\<rparr>))))"

section \<open>The session\<close>

text \<open>What happens around one discovery. Leaving the contexts of the client and the session may raise, and passes
  on an exception, possibly another one, whenever one was raised in them.\<close>

record discovery_world =
  dw_validate :: "raised option"
  dw_initialize :: "raised + ustr"
  dw_notify :: "raised option"
  dw_list_tools :: "nat \<Rightarrow> ustr option \<Rightarrow> raised + mcp_tool list \<times> ustr option"
  dw_leave :: "raised option"
  dw_pass_on :: "raised \<Rightarrow> raised"
  dw_support :: "nat \<Rightarrow> bool \<times> (nat \<Rightarrow> bool)"
  dw_transport :: session
  dw_expired :: bool

definition discovery_session :: "adapter_config \<Rightarrow> discovery_world \<Rightarrow> raised + mcp_tool list" where
  "discovery_session cfg w =
     (case dw_initialize w of
        Inl r \<Rightarrow> Inl r
      | Inr version \<Rightarrow>
          if version \<noteq> QUALIFIED_PROTOCOL_REVISION then Inl (error (Discovery ProtocolMismatch))
          else
            (case dw_notify w of
               Some r \<Rightarrow> Inl r
             | None \<Rightarrow> list_pages cfg (dw_list_tools w) [0..<nat (ac_max_pages cfg)] None [] []))"

definition discover_tools ::
  "'e adapter_externals_scheme \<Rightarrow> adapter_config \<Rightarrow> ustr option \<Rightarrow> discovery_world \<Rightarrow> raised + DiscoveryResult" where
  "discover_tools ext cfg credential w =
     (case discovery_session cfg w of
        Inl r \<Rightarrow> Inl (dw_pass_on w r)
      | Inr raw \<Rightarrow>
          (case dw_leave w of
             Some r \<Rightarrow> Inl r
           | None \<Rightarrow> discovery_result ext cfg (dw_support w) credential raw))"

text \<open>The handlers of \<open>discover\<close>.\<close>

definition classify_discovery :: "session option \<Rightarrow> raised \<Rightarrow> raised" where
  "classify_discovery transport e =
     (if is_discovery (exn_of e) \<or> \<not> is_exception e then e
      else if (case transport of None \<Rightarrow> False | Some ss \<Rightarrow> ss_sensitive ss)
      then error_from (Discovery SensitiveResponseError) e
      else
        (case find_exception (\<lambda>x. x = Discovery ProtocolMismatch) e of
           Some mismatch \<Rightarrow> error_from (exn_of mismatch) e
         | None \<Rightarrow>
             (case find_exception is_discovery e of
                Some nested \<Rightarrow> error_from (exn_of nested) e
              | None \<Rightarrow> error_from (Discovery DiscoveryError) e)))"

definition discovery_timeout :: "discovery_world \<Rightarrow> raised \<Rightarrow> raised" where
  "discovery_timeout w e = (if dw_expired w \<and> exn_of e = Cancelled then error_from TimedOut e else e)"

definition discover ::
  "'e adapter_externals_scheme \<Rightarrow> adapter_config \<Rightarrow> ustr \<Rightarrow> bytes option \<Rightarrow> discovery_world \<Rightarrow> raised + DiscoveryResult" where
  "discover ext cfg endpoint bearer_token w =
     (let credential = (case bearer_token of None \<Rightarrow> None | Some t \<Rightarrow> bearer_credential ext endpoint t)
      in if bearer_token \<noteq> None \<and> credential = None then Inl (error (Discovery CredentialError))
         else
           (case dw_validate w of
              Some r \<Rightarrow> Inl (classify_discovery None (discovery_timeout w r))
            | None \<Rightarrow>
                (case discover_tools ext cfg credential w of
                   Inl r \<Rightarrow> Inl (classify_discovery (Some (dw_transport w)) (discovery_timeout w r))
                 | Inr result \<Rightarrow>
                     if ss_sensitive (dw_transport w) then Inl (error (Discovery SensitiveResponseError)) else Inr result)))"

end
