(* ===== verification/Reg_Runner.thy ===== *)
theory Reg_Runner
  imports Adapter_Discover Secrets
begin

text \<open>
  \<open>DiscoveryRunner\<close> of \<^verbatim>\<open>registry/runner.py\<close>: one leased refresh, from the target to the published listing or
  failure. The transactions start from states of their own; \<open>validate_for_contact\<close> before each request of the
  transport is part of the session, whose requests may raise what it raised.
\<close>

section \<open>Failures\<close>

definition classify_discovery_failure :: "raised \<Rightarrow> DiscoveryFailureCode" where
  "classify_discovery_failure e =
     (let errors = flatten e
      in if Discovery ProtocolMismatch \<in> set errors then DiscoveryFailureCode.PROTOCOL_MISMATCH
         else if Discovery CredentialError \<in> set errors then DiscoveryFailureCode.AUTHENTICATION_FAILED
         else if Discovery SensitiveResponseError \<in> set errors then DiscoveryFailureCode.INVALID_METADATA
         else if exn.EndpointResolutionError \<in> set errors then DiscoveryFailureCode.TRANSPORT_FAILED
         else if exn.EndpointPolicyError \<in> set errors then DiscoveryFailureCode.ENDPOINT_REJECTED
         else if ResponseLimitError \<in> set errors then DiscoveryFailureCode.RESPONSE_LIMIT
         else if TimedOut \<in> set errors then DiscoveryFailureCode.TIMEOUT
         else if HTTPStatusError 401 \<in> set errors \<or> HTTPStatusError 403 \<in> set errors then DiscoveryFailureCode.AUTHENTICATION_FAILED
         else if ServiceError SecretProviderError \<in> set errors then DiscoveryFailureCode.AUTHENTICATION_FAILED
         else if HTTPError \<in> set errors \<or> list_ex (\<lambda>x. case x of HTTPStatusError _ \<Rightarrow> True | _ \<Rightarrow> False) errors then DiscoveryFailureCode.TRANSPORT_FAILED
         else if list_ex is_discovery errors then DiscoveryFailureCode.INVALID_METADATA
         else DiscoveryFailureCode.TRANSPORT_FAILED)"

datatype discovery_handling = Ignored | Published | Escapes

text \<open>The \<open>except\<close> clauses of \<open>run\<close>.\<close>

fun handle_discovery :: "exn \<Rightarrow> discovery_handling" where
  "handle_discovery (ServiceError AuthorizationDenied) = Ignored"
| "handle_discovery (ServiceError InvalidConnectionTransition) = Ignored"
| "handle_discovery (ServiceError SecretProviderError) = Published"
| "handle_discovery (Discovery k) = Published"
| "handle_discovery exn.EndpointPolicyError = Published"
| "handle_discovery exn.EndpointResolutionError = Published"
| "handle_discovery ResponseLimitError = Published"
| "handle_discovery TimedOut = Published"
| "handle_discovery (HTTPStatusError n) = Published"
| "handle_discovery HTTPError = Published"
| "handle_discovery _ = Escapes"

section \<open>The target\<close>

record discovery_target =
  dt_endpoint :: ustr
  dt_policy_version :: ustr
  dt_secret_reference :: "SecretReference option"

definition load_discovery_target :: "WorkspaceContext \<Rightarrow> RefreshLease \<Rightarrow> db \<Rightarrow> svc_error + discovery_target" where
  "load_discovery_target ctx lease d =
     and_then (require_current_role ctx [ADMIN, OPERATOR] False d) (\<lambda>_.
       (case first_row (filter (\<lambda>v. scv_id v = rl_connection_version_id lease \<and> scv_connection_id v = rl_connection_id lease
               \<and> scv_workspace_id v = ctx_workspace_id ctx) (connection_versions d)) of
          None \<Rightarrow> Inl AuthorizationDenied
        | Some version \<Rightarrow>
            (case scv_secret_binding_id version of
               None \<Rightarrow> Inr \<lparr>dt_endpoint = scv_endpoint_url version, dt_policy_version = scv_policy_version version,
                          dt_secret_reference = None\<rparr>
             | Some i \<Rightarrow>
                 (case first_row (filter (\<lambda>b. sb_id b = i \<and> sb_workspace_id b = ctx_workspace_id ctx) (secret_bindings d)) of
                    None \<Rightarrow> Inl SecretProviderError
                  | Some secret \<Rightarrow> Inr \<lparr>dt_endpoint = scv_endpoint_url version, dt_policy_version = scv_policy_version version,
                      dt_secret_reference = Some \<lparr>sr_provider = sb_provider secret,
                        sr_external_reference = sb_external_reference secret, sr_version = sb_version secret\<rparr>\<rparr>))))"

section \<open>Running a refresh\<close>

record discovery_runner =
  dn_externals :: adapter_externals
  dn_file_system :: file_system
  dn_secret_provider :: secret_provider
  dn_adapter_factory :: "ustr \<Rightarrow> exn + adapter_config"

record discovery_run_world =
  dr_load_db :: db
  dr_contact_db :: db
  dr_contact_clock :: clock
  dr_publish_db :: db
  dr_publish_clock :: clock
  dr_ids :: publication_ids
  dr_session :: "ustr \<Rightarrow> bytes option \<Rightarrow> discovery_world"

text \<open>A policy version the factory does not know is an endpoint that is refused.\<close>

definition pinned_adapter :: "discovery_runner \<Rightarrow> ustr \<Rightarrow> raised + adapter_config" where
  "pinned_adapter dn policy_version =
     (case dn_adapter_factory dn policy_version of
        Inr cfg \<Rightarrow> Inr cfg
      | Inl x \<Rightarrow> if x = KeyError \<or> x = ServiceError ValueError then Inl (error_from exn.EndpointPolicyError (error x)) else Inl (error x))"

text \<open>Everything up to the listing, with the flag that the upstream was contacted.\<close>

definition contact ::
  "discovery_runner \<Rightarrow> discovery_run_world \<Rightarrow> WorkspaceContext \<Rightarrow> RefreshLease \<Rightarrow> bool \<times> (raised + DiscoveryResult)" where
  "contact dn w ctx lease =
     (case and_then (map_sum (\<lambda>e. error (ServiceError e)) id (load_discovery_target ctx lease (dr_load_db w))) (\<lambda>target.
           and_then (map_sum (\<lambda>e. error (ServiceError e)) id (validate_for_contact ctx lease (dr_contact_clock w) (dr_contact_db w))) (\<lambda>_.
           and_then (pinned_adapter dn (dt_policy_version target)) (\<lambda>cfg.
             (case dt_secret_reference target of
                None \<Rightarrow> Inr (target, cfg, None)
              | Some reference \<Rightarrow>
                  and_then (map_sum (\<lambda>e. error (ServiceError e)) id (retrieve (dn_file_system dn) (dn_secret_provider dn) reference))
                    (\<lambda>credential. Inr (target, cfg, Some credential)))))) of
        Inl r \<Rightarrow> (False, Inl r)
      | Inr (target, cfg, token) \<Rightarrow>
          (True, discover (dn_externals dn) cfg (dt_endpoint target) token (dr_session w (dt_endpoint target) token)))"

text \<open>The result of a publication: an authorization or a lease that is gone is no error.\<close>

definition publication_outcome :: "svc_error + 'a \<Rightarrow> raised + 'a option" where
  "publication_outcome out =
     (case out of
        Inr x \<Rightarrow> Inr (Some x)
      | Inl e \<Rightarrow> if e = AuthorizationDenied \<or> e = InvalidConnectionTransition then Inr None else Inl (error (ServiceError e)))"

record discovery_trace =
  dtr_result :: "raised + uuid option"
  dtr_contacted :: bool
  dtr_commits :: "(db \<times> db) list"

definition committed :: "db \<Rightarrow> svc_error + 'a \<times> db \<Rightarrow> (db \<times> db) list" where
  "committed d out = (case out of Inl _ \<Rightarrow> [] | Inr (_, d') \<Rightarrow> [(d, d')])"

definition run_discovery ::
  "discovery_runner \<Rightarrow> discovery_run_world \<Rightarrow> WorkspaceContext \<Rightarrow> RefreshLease \<Rightarrow> discovery_trace" where
  "run_discovery dn w ctx lease =
     (let (contacted, out) = contact dn w ctx lease
      in case out of
           Inr result \<Rightarrow>
             (let published = publish_success (meta_externals.truncate (dn_externals dn)) ctx lease result (dr_ids w)
                    (dr_publish_clock w) (dr_publish_db w)
              in \<lparr>dtr_result = map_sum id (map_option (snap_id \<circ> fst)) (publication_outcome published),
                  dtr_contacted = contacted, dtr_commits = committed (dr_publish_db w) published\<rparr>)
         | Inl r \<Rightarrow>
             (case handle_discovery (exn_of r) of
                Ignored \<Rightarrow> \<lparr>dtr_result = Inr None, dtr_contacted = contacted, dtr_commits = []\<rparr>
              | Escapes \<Rightarrow> \<lparr>dtr_result = Inl r, dtr_contacted = contacted, dtr_commits = []\<rparr>
              | Published \<Rightarrow>
                  (let published = publish_failure ctx lease (classify_discovery_failure r) (dr_publish_clock w) (dr_publish_db w)
                   in \<lparr>dtr_result = map_sum id (\<lambda>_. None) (publication_outcome published),
                       dtr_contacted = contacted, dtr_commits = committed (dr_publish_db w) published\<rparr>)))"

end
