(* ===== verification/Adapter_Listing.thy ===== *)
theory Adapter_Listing
  imports Adapter_Discover Adapter_Outcome
begin

text \<open>
  What a successful discovery guarantees: the listing is bounded, free of duplicates and of credentials, every
  tool passes the checks of publication, and a tool marked as supported has a supported schema.
\<close>

section \<open>Tools\<close>

lemma list_pages_bounded:
  "list_pages cfg page is cursor seen raw = Inr tools \<Longrightarrow> int (length tools) \<le> ac_max_tools cfg"
  by (induction cfg page "is" cursor seen raw rule: list_pages.induct) (auto split: sum.splits if_splits option.splits)

text \<open>The checks of publication that do not concern the digest.\<close>

definition publishable :: "'e adapter_externals_scheme \<Rightarrow> ToolDefinition \<Rightarrow> bool" where
  "publishable ext tool \<longleftrightarrow> validate_capability_scalars (meta_externals.truncate ext) tool QUALIFIED_PROTOCOL_REVISION
     \<and> validate_schema_payload (meta_externals.truncate ext) (tool_input_schema tool) (tool_output_schema tool)"

definition faithful_tool :: "'e adapter_externals_scheme \<Rightarrow> json \<times> ToolDefinition \<Rightarrow> bool" where
  "faithful_tool ext = (\<lambda>(normalized, tool). publishable ext tool
     \<and> (tool_schema_supported tool \<longrightarrow> schema_spec ext (tool_input_schema tool) (tool_output_schema tool))
     \<and> (\<exists>encoded. canonical_json (meta_float_repr ext) normalized = Some encoded \<and> tool_metadata_digest tool = adapter_sha256 ext encoded))"

lemma tool_definition_fields [simp]:
  "tool_identity (tool_definition tool digest supported) = mt_name tool"
  "tool_metadata_digest (tool_definition tool digest supported) = digest"
  "tool_schema_supported (tool_definition tool digest supported) = supported"
  "tool_input_schema (tool_definition tool digest supported) = JDict (mt_input_schema tool)"
  "tool_output_schema (tool_definition tool digest supported) = map_option JDict (mt_output_schema tool)"
  by (simp_all add: tool_definition_def)

lemma define_tools_Inr:
  "define_tools ext support tools i identities = Inr defs \<Longrightarrow>
     list_all (faithful_tool ext) defs \<and> map (\<lambda>x. tool_identity (snd x)) defs = map mt_name tools
     \<and> distinct (map mt_name tools) \<and> set identities \<inter> set (map mt_name tools) = {}"
proof (induction ext support tools i identities arbitrary: defs rule: define_tools.induct)
  case (2 ext support tool tools i identities)
  from "2.prems" obtain normalized encoded rest where n: "normalize_tool tool = Some normalized" "mt_name tool \<notin> set identities"
    "canonical_json (meta_float_repr ext) normalized = Some encoded"
    and d: "defs = (normalized, tool_definition tool (adapter_sha256 ext encoded) (schema_support_with_deadline ext (fst (support i)) (snd (support i))
       (JDict (mt_input_schema tool)) (map_option JDict (mt_output_schema tool)))) # rest"
    and p: "publishable ext (tool_definition tool (adapter_sha256 ext encoded) (schema_support_with_deadline ext (fst (support i)) (snd (support i))
       (JDict (mt_input_schema tool)) (map_option JDict (mt_output_schema tool))))"
    and r: "define_tools ext support tools (Suc i) (identities @ [mt_name tool]) = Inr rest"
    by (auto simp: Let_def publishable_def map_sum_Inr_iff split: option.splits if_splits)
  have "faithful_tool ext (hd defs)"
    using d p n(3) schema_is_supported_spec by (auto simp: faithful_tool_def schema_support_with_deadline_def)
  moreover from "2.IH" [OF n(1,2,3) refl refl _ r] p
  have "list_all (faithful_tool ext) rest \<and> map (\<lambda>x. tool_identity (snd x)) rest = map mt_name tools
     \<and> distinct (map mt_name tools) \<and> set (identities @ [mt_name tool]) \<inter> set (map mt_name tools) = {}"
    by (simp add: publishable_def)
  ultimately show ?case using d n(2) by auto
qed simp

section \<open>Results\<close>

lemma discover_Inr:
  assumes "discover ext cfg endpoint token w = Inr res"
  obtains raw where "discovery_session cfg w = Inr raw" "\<not> ss_sensitive (dw_transport w)"
    "discovery_result ext cfg (dw_support w) (case token of None \<Rightarrow> None | Some t \<Rightarrow> bearer_credential ext endpoint t) raw = Inr res"
    "token = Some t \<Longrightarrow> \<exists>c. bearer_credential ext endpoint t = Some c"
proof (rule that)
  show "discovery_session cfg w = Inr (projr (discovery_session cfg w))" "\<not> ss_sensitive (dw_transport w)"
    "discovery_result ext cfg (dw_support w) (case token of None \<Rightarrow> None | Some t \<Rightarrow> bearer_credential ext endpoint t)
      (projr (discovery_session cfg w)) = Inr res"
    "token = Some t \<Longrightarrow> \<exists>c. bearer_credential ext endpoint t = Some c"
    using assms by (auto simp: discover_def discover_tools_def Let_def split: if_splits option.splits sum.splits)
qed

lemma discovery_session_bounded: "discovery_session cfg w = Inr raw \<Longrightarrow> int (length raw) \<le> ac_max_tools cfg"
  using list_pages_bounded by (auto simp: discovery_session_def split: sum.splits if_splits option.splits)

lemma discovery_result_Inr:
  assumes "discovery_result ext cfg support credential raw = Inr res"
  obtains tools doc where "define_tools ext support raw 0 [] = Inr tools" "dr_tools res = map snd tools"
    "dr_normalized_payload res = discovery_payload (map fst tools)" "validate_bounded_json (dr_normalized_payload res)"
    "dumps (meta_float_repr ext) (dr_normalized_payload res) = Some doc" "utf8 doc = Some (dr_canonical_bytes res)"
    "int (length (dr_canonical_bytes res)) \<le> tl_response_bytes (ac_limits cfg)"
    "dr_canonical_digest res = adapter_sha256 ext (dr_canonical_bytes res)" "\<not> contains_obvious_secret ext doc"
    "\<not> list_ex (contains_sensitive_tool ext) (map fst tools)" "dr_protocol_revision res = QUALIFIED_PROTOCOL_REVISION"
    "\<forall>c. credential = Some c \<longrightarrow> \<not> contains_decoded_credential ext (dr_normalized_payload res) c"
  using assms that
  by (auto simp: discovery_result_def and_then_Inr Let_def split: if_splits option.splits)

lemma revision_qualified: "revision_ok QUALIFIED_PROTOCOL_REVISION"
  by code_simp

lemma canonical_json_payload: "dumps fr v = Some doc \<Longrightarrow> utf8 doc = Some b \<Longrightarrow> canonical_json fr v = Some b"
  by (simp add: canonical_json_def)

lemma discovered_listing_facts:
  assumes "discover ext cfg endpoint token w = Inr res" and "\<forall>b. digest_ok (adapter_sha256 ext b)"
  shows "distinct (map tool_identity (dr_tools res))"
    "\<forall>t \<in> set (dr_tools res). validate_metadata (meta_externals.truncate ext) t (dr_protocol_revision res)"
proof -
  obtain raw where raw: "discovery_result ext cfg (dw_support w) (case token of None \<Rightarrow> None | Some t \<Rightarrow> bearer_credential ext endpoint t) raw = Inr res"
    using discover_Inr [OF assms(1)] by metis
  obtain tools where t: "define_tools ext (dw_support w) raw 0 [] = Inr tools" "dr_tools res = map snd tools"
    "dr_protocol_revision res = QUALIFIED_PROTOCOL_REVISION"
    by (rule discovery_result_Inr [OF raw])
  note d = define_tools_Inr [OF t(1)]
  show "distinct (map tool_identity (dr_tools res))" using d t(2) by (simp add: o_def)
  show "\<forall>t \<in> set (dr_tools res). validate_metadata (meta_externals.truncate ext) t (dr_protocol_revision res)"
    using d t(2,3) assms(2) revision_qualified
    by (auto simp: list_all_iff faithful_tool_def publishable_def validate_metadata_def)
qed

text \<open>C11. A discovery that succeeds delivers a listing of at most the configured number of tools, with distinct
  identities, each of which passes the checks that publication applies to it; a tool is marked supported
  only when its schemas are; the payload is bounded, its canonical bytes are within the response limit,
  not empty and digested, contain no obvious secret, no sensitive tool and no trace of the credential.\<close>

theorem discovered_listing_sound:
  assumes "discover ext cfg endpoint token w = Inr res" and "\<forall>b. digest_ok (adapter_sha256 ext b)"
  shows "distinct (map tool_identity (dr_tools res)) \<and> int (length (dr_tools res)) \<le> ac_max_tools cfg
    \<and> (\<forall>t \<in> set (dr_tools res). validate_metadata (meta_externals.truncate ext) t (dr_protocol_revision res)
         \<and> (tool_schema_supported t \<longrightarrow> schema_spec ext (tool_input_schema t) (tool_output_schema t)))
    \<and> validate_bounded_json (dr_normalized_payload res)
    \<and> canonical_json (meta_float_repr ext) (dr_normalized_payload res) = Some (dr_canonical_bytes res)
    \<and> dr_canonical_bytes res \<noteq> [] \<and> int (length (dr_canonical_bytes res)) \<le> tl_response_bytes (ac_limits cfg)
    \<and> dr_canonical_digest res = adapter_sha256 ext (dr_canonical_bytes res)
    \<and> (\<forall>doc. dumps (meta_float_repr ext) (dr_normalized_payload res) = Some doc \<longrightarrow> \<not> contains_obvious_secret ext doc)
    \<and> (\<forall>t. token = Some t \<longrightarrow> (\<exists>c. bearer_credential ext endpoint t = Some c
         \<and> \<not> contains_decoded_credential ext (dr_normalized_payload res) c))"
proof -
  obtain raw where raw: "discovery_session cfg w = Inr raw"
    "discovery_result ext cfg (dw_support w) (case token of None \<Rightarrow> None | Some t \<Rightarrow> bearer_credential ext endpoint t) raw = Inr res"
    "\<And>t. token = Some t \<Longrightarrow> \<exists>c. bearer_credential ext endpoint t = Some c"
    using discover_Inr [OF assms(1)] by metis
  obtain tools doc where t: "define_tools ext (dw_support w) raw 0 [] = Inr tools" "dr_tools res = map snd tools"
    "dr_normalized_payload res = discovery_payload (map fst tools)" "validate_bounded_json (dr_normalized_payload res)"
    "dumps (meta_float_repr ext) (dr_normalized_payload res) = Some doc" "utf8 doc = Some (dr_canonical_bytes res)"
    "int (length (dr_canonical_bytes res)) \<le> tl_response_bytes (ac_limits cfg)"
    "dr_canonical_digest res = adapter_sha256 ext (dr_canonical_bytes res)" "\<not> contains_obvious_secret ext doc"
    "\<not> list_ex (contains_sensitive_tool ext) (map fst tools)" "dr_protocol_revision res = QUALIFIED_PROTOCOL_REVISION"
    "\<forall>c. (case token of None \<Rightarrow> None | Some t \<Rightarrow> bearer_credential ext endpoint t) = Some c
       \<longrightarrow> \<not> contains_decoded_credential ext (dr_normalized_payload res) c"
    by (rule discovery_result_Inr [OF raw(2)])
  note d = define_tools_Inr [OF t(1)]
  have c: "canonical_json (meta_float_repr ext) (dr_normalized_payload res) = Some (dr_canonical_bytes res)"
    by (rule canonical_json_payload [OF t(5,6)])
  have ids: "map tool_identity (dr_tools res) = map mt_name raw" using d t(2) by (simp add: o_def)
  then have len: "length (dr_tools res) = length raw" by (metis length_map)
  have "validate_metadata (meta_externals.truncate ext) x (dr_protocol_revision res)
      \<and> (tool_schema_supported x \<longrightarrow> schema_spec ext (tool_input_schema x) (tool_output_schema x))" if "x \<in> set (dr_tools res)" for x
    using that d t(2,11) assms(2) revision_qualified
    by (auto simp: list_all_iff faithful_tool_def publishable_def validate_metadata_def)
  moreover have "dr_canonical_bytes res \<noteq> []" using c t(3) canonical_object_nonempty by (simp add: discovery_payload_def)
  ultimately show ?thesis using d ids len discovery_session_bounded [OF raw(1)] t c raw(3) by auto
qed

text \<open>C10. The traversal of tool schemas accepts a pair of schemas only when they have at most 4096 nodes, none
  deeper than 32, every node is within its size bounds and uses supported keywords only (patterns that
  compile, no \<open>$id\<close>, local references), the meta-schema check passes and every reference resolves to a
  schema; without a deadline it accepts exactly these. A deadline can only turn the answer to no.\<close>

theorem schema_traversal_exact:
  "(schema_is_supported ext late input output \<longrightarrow> schema_spec ext input output)
   \<and> (schema_is_supported ext (\<lambda>_. False) input output \<longleftrightarrow> schema_spec ext input output)"
  using schema_is_supported_spec schema_spec_supported by blast

text \<open>A schema with a pattern, a nested property and a local reference.\<close>

definition demo_listing_externals :: adapter_externals where
  "demo_listing_externals = demo_adapter\<lparr>resolver_lookup := (\<lambda>schema r. if r = [35] then Some schema else None)\<rparr>"

definition demo_schema :: "(ustr \<times> json) list" where
  "demo_schema = [(ustr_of ''type'', JStr (ustr_of ''object'')),
     (ustr_of ''properties'', JDict [(ustr_of ''a'', JDict [(ustr_of ''pattern'', JStr (ustr_of ''x''))]),
        (ustr_of ''b'', JDict [(ustr_of ''$ref'', JStr [35])])])]"

lemma demo_schema_supported: "schema_is_supported demo_listing_externals (\<lambda>_. False) (JDict demo_schema) None"
  by code_simp

theorem schema_traversal_exact_witness:
  "schema_is_supported demo_listing_externals (\<lambda>_. False) (JDict demo_schema) None
   \<and> schema_spec demo_listing_externals (JDict demo_schema) None"
  using schema_traversal_exact [of demo_listing_externals "\<lambda>_. False" "JDict demo_schema" None] demo_schema_supported by blast

definition demo_tool :: mcp_tool where
  "demo_tool = \<lparr>mt_name = ustr_of ''t'', mt_title = None, mt_description = None, mt_input_schema = demo_schema,
     mt_output_schema = None, mt_dump = JDict [(ustr_of ''name'', JStr (ustr_of ''t'')), (ustr_of ''inputSchema'', JDict demo_schema)]\<rparr>"

definition demo_discovery :: discovery_world where
  "demo_discovery = \<lparr>dw_validate = None, dw_initialize = Inr QUALIFIED_PROTOCOL_REVISION, dw_notify = None,
     dw_list_tools = (\<lambda>i cursor. if i = 0 then Inr ([], Some (ustr_of ''c'')) else Inr ([demo_tool], None)),
     dw_leave = None, dw_pass_on = id, dw_support = (\<lambda>_. (False, \<lambda>_. False)), dw_transport = demo_session, dw_expired = False\<rparr>"

lemma demo_schema_valid: "validate_schema_payload (meta_externals.truncate demo_listing_externals) (JDict demo_schema) None"
proof -
  let ?ext = "meta_externals.truncate demo_listing_externals"
  have "(case dumps_plain (meta_float_repr ?ext) (JList (schema_roots (JDict demo_schema) None)) of
      None \<Rightarrow> False | Some t \<Rightarrow> \<not> contains_obvious_secret ?ext t
        \<and> (case utf8 t of None \<Rightarrow> False | Some e \<Rightarrow> length e \<le> 200))"
    by code_simp
  then obtain t e where "dumps_plain (meta_float_repr ?ext) (JList (schema_roots (JDict demo_schema) None)) = Some t"
    "utf8 t = Some e" "length e \<le> 200" "\<not> contains_obvious_secret ?ext t" by (auto split: option.splits)
  moreover have "bounded_loop (rev (map (\<lambda>r. (r, 1)) (schema_roots (JDict demo_schema) None))) 0" by code_simp
  moreover have "\<not> contains_sensitive_schema ?ext y" for y
    by (simp add: demo_listing_externals_def demo_adapter_def demo_screens_def screen_externals.defs adapter_externals.defs
        meta_externals.defs)
  ultimately show ?thesis by (simp add: validate_schema_payload_def Let_def list_ex_iff del: dumps_plain.simps)
qed

lemma demo_defined:
  "\<exists>d. define_tools demo_listing_externals (\<lambda>_. (False, \<lambda>_. False)) [demo_tool] 0 [] = Inr [(mt_dump demo_tool, d)] \<and> tool_identity d = ustr_of ''t''"
proof -
  let ?d = "tool_definition demo_tool demo_hex (schema_support_with_deadline demo_listing_externals False (\<lambda>_. False)
     (JDict (mt_input_schema demo_tool)) (map_option JDict (mt_output_schema demo_tool)))"
  have sha: "adapter_sha256 demo_listing_externals b = demo_hex" for b
    by (simp add: demo_listing_externals_def demo_adapter_def screen_externals.defs adapter_externals.defs)
  have "\<not> Option.is_none (canonical_json (meta_float_repr demo_listing_externals) (mt_dump demo_tool))" by code_simp
  then obtain encoded where "canonical_json (meta_float_repr demo_listing_externals) (mt_dump demo_tool) = Some encoded"
    by (auto simp: Option.is_none_def)
  moreover have "validate_capability_scalars (meta_externals.truncate demo_listing_externals) ?d QUALIFIED_PROTOCOL_REVISION"
    by code_simp
  moreover have "normalize_tool demo_tool = Some (mt_dump demo_tool)" by (simp add: normalize_tool_def is_dict_def demo_tool_def)
  moreover have "mt_input_schema demo_tool = demo_schema" "mt_output_schema demo_tool = None" "mt_name demo_tool = ustr_of ''t''"
    by (simp_all add: demo_tool_def)
  ultimately show ?thesis using demo_schema_valid by (simp add: sha Let_def)
qed

lemma demo_discovered:
  "\<exists>res. discover demo_listing_externals demo_adapter_config [] None demo_discovery = Inr res
     \<and> map tool_identity (dr_tools res) = [ustr_of ''t'']"
proof -
  obtain d where d: "define_tools demo_listing_externals (\<lambda>_. (False, \<lambda>_. False)) [demo_tool] 0 [] = Inr [(mt_dump demo_tool, d)]"
    "tool_identity d = ustr_of ''t''" using demo_defined by blast
  let ?payload = "discovery_payload [mt_dump demo_tool]"
  have "(case dumps (meta_float_repr demo_listing_externals) ?payload of
      None \<Rightarrow> False | Some t \<Rightarrow> \<not> contains_obvious_secret demo_listing_externals t
        \<and> (case utf8 t of None \<Rightarrow> False | Some e \<Rightarrow> length e \<le> 300))" by code_simp
  then obtain t e where "dumps (meta_float_repr demo_listing_externals) ?payload = Some t" "utf8 t = Some e" "length e \<le> 300"
    "\<not> contains_obvious_secret demo_listing_externals t" by (auto split: option.splits)
  moreover have "validate_bounded_json ?payload" "\<not> contains_sensitive_tool demo_listing_externals (mt_dump demo_tool)" by code_simp+
  moreover have "discovery_session demo_adapter_config demo_discovery = Inr [demo_tool]" by code_simp
  moreover have "tl_response_bytes (ac_limits demo_adapter_config) = 1000" by (simp add: demo_adapter_config_def)
  ultimately show ?thesis
    using d by (simp add: discover_def discover_tools_def discovery_result_def Let_def demo_discovery_def demo_session_def)
qed

theorem discovered_listing_sound_witness:
  "\<exists>res t. discover demo_listing_externals demo_adapter_config [] None demo_discovery = Inr res \<and> t \<in> set (dr_tools res)
     \<and> validate_metadata (meta_externals.truncate demo_listing_externals) t (dr_protocol_revision res)"
proof -
  have "digest_ok demo_hex" by (simp add: digest_ok_def demo_hex_def list_all_iff)
  then have digest: "\<forall>b. digest_ok (adapter_sha256 demo_listing_externals b)"
    by (simp add: demo_listing_externals_def demo_adapter_def screen_externals.defs adapter_externals.defs)
  obtain res where res: "discover demo_listing_externals demo_adapter_config [] None demo_discovery = Inr res"
    "dr_tools res \<noteq> []" using demo_discovered by (metis list.simps(8) not_Cons_self2)
  then obtain t where t: "t \<in> set (dr_tools res)" by (cases "dr_tools res") auto
  with discovered_listing_sound [OF res(1) digest] res(1) show ?thesis by blast
qed

end
