(* ===== verification/Reg_Contact.thy ===== *)
theory Reg_Contact
  imports Reg_Runner Adapter_Listing Reg_Demo
begin

text \<open>
  What the discovery runner guarantees: contact only under a valid lease, publication of sound listings only, and
  a recorded failure for every contact that fails.
\<close>

section \<open>Contacts\<close>

lemma classify_discovery_class:
  "is_discovery (exn_of (classify_discovery transport e)) \<or> \<not> is_exception (classify_discovery transport e)"
proof (cases "is_discovery (exn_of e) \<or> \<not> is_exception e")
  case False
  then show ?thesis
    using find_exception_Some(1) [of is_discovery e] find_exception_Some(1) [of "\<lambda>x. x = Discovery ProtocolMismatch" e]
    by (auto simp: classify_discovery_def split: option.splits)
qed (auto simp: classify_discovery_def)

lemma discover_Inl:
  "discover ext cfg endpoint token w = Inl r \<Longrightarrow> is_discovery (exn_of r) \<or> \<not> is_exception r"
  using classify_discovery_class
  by (auto simp: discover_def Let_def split: if_splits option.splits sum.splits)

lemma is_discovery_handled: "is_discovery x \<Longrightarrow> handle_discovery x = Published"
  by (cases x rule: is_discovery.cases) auto

lemma contact_contacted:
  "contact dn w ctx lease = (True, out) \<Longrightarrow> validate_for_contact ctx lease (dr_contact_clock w) (dr_contact_db w) = Inr ()"
  "contact dn w ctx lease = (True, out) \<Longrightarrow> \<exists>cfg endpoint token session. out = discover (dn_externals dn) cfg endpoint token session"
  "contact dn w ctx lease = (False, out) \<Longrightarrow> \<exists>r. out = Inl r"
  by (auto simp: contact_def and_then_Inr map_sum_Inr_iff split: sum.splits option.splits)

section \<open>Publication\<close>

lemma role_errors: "require_current_role ctx roles b d = Inl e \<Longrightarrow> e = AuthorizationDenied"
  by (auto simp: require_current_role_def require_role_def and_then_Inl split: if_splits option.splits)

lemma locked_connection_errors: "locked_connection ctx i d = Inl e \<Longrightarrow> e = AuthorizationDenied"
  by (auto simp: locked_connection_def split: option.splits if_splits)

lemma record_version_errors:
  "record_version ext ctx ci cvi ep gen tool revision corr ids d = Inl e \<Longrightarrow> validate_metadata ext tool revision \<Longrightarrow> e \<noteq> ValueError"
  by (auto simp: record_version_def and_then_Inl Let_def dest!: role_errors locked_connection_errors split: if_splits option.splits)

lemma publish_tool_errors:
  "publish_tool ext ctx lease revision sid (tool, ids) d = Inl e \<Longrightarrow> validate_metadata ext tool revision \<Longrightarrow> e \<noteq> ValueError"
  using record_version_errors by (fastforce simp: publish_tool_def and_then_Inl split: if_splits)

lemma fold_res_Inl: "fold_res f xs d = Inl e \<Longrightarrow> \<exists>x \<in> set xs. \<exists>d'. f x d' = Inl e"
  by (induction f xs d rule: fold_res.induct) (auto simp: and_then_Inl)

lemma publish_tools_errors:
  assumes "fold_res (publish_tool ext ctx lease revision sid) (zip tools ids) d = Inl e"
    and "\<forall>t \<in> set tools. validate_metadata ext t revision"
  shows "e \<noteq> ValueError"
proof -
  obtain t i d' where "(t, i) \<in> set (zip tools ids)" "publish_tool ext ctx lease revision sid (t, i) d' = Inl e"
    using fold_res_Inl [OF assms(1)] by auto
  moreover from this(1) have "t \<in> set tools" by (rule set_zip_leftD)
  ultimately show ?thesis using publish_tool_errors assms(2) by blast
qed

lemma publication_errors:
  "locked_job_for_lease ctx lease extra d = Inl e \<Longrightarrow> e = InvalidConnectionTransition"
  "lock_eligible_connection ctx ci vi ep gen d = Inl e \<Longrightarrow> e \<noteq> ValueError"
  "publish_payload ctx result fresh d = Inl e \<Longrightarrow> e \<noteq> ValueError"
  "publish_snapshot ctx lease rv p fresh d = Inl e \<Longrightarrow> e \<noteq> ValueError"
  "promote_pending ctx ci vi ep gen corr fresh d = Inl e \<Longrightarrow> e \<noteq> ValueError"
  "complete_refresh ctx ci vi ep gen d = Inl e \<Longrightarrow> e \<noteq> ValueError"
  by (auto simp: locked_job_for_lease_def lock_eligible_connection_def publish_payload_def publish_snapshot_def promote_pending_def
      complete_refresh_def and_then_Inl Let_def dest!: role_errors locked_connection_errors split: if_splits option.splits)

lemma publish_success_errors:
  assumes "publish_success ext ctx lease result ids clock d = Inl e"
    and "\<forall>t \<in> set (dr_tools result). validate_metadata ext t (dr_protocol_revision result)"
  shows "e \<noteq> ValueError"
  using assms(1)
  by (auto simp: publish_success_def and_then_Inl Let_def dest!: role_errors publication_errors(1)
      dest: publication_errors(2-6) publish_tools_errors [OF _ assms(2)] split: if_splits)

lemma publish_failure_errors: "publish_failure ctx lease code clock d = Inl e \<Longrightarrow> e \<noteq> ValueError"
  by (auto simp: publish_failure_def and_then_Inl Let_def dest!: role_errors publication_errors(1) dest: publication_errors(2))

lemma retrieve_errors: "retrieve fs provider reference = Inl e \<Longrightarrow> e = SecretProviderError"
  by (auto simp: retrieve_def mounted_retrieve_def secret_lease_def filename_for_def and_then_Inl Let_def
      split: secret_provider.splits if_splits option.splits prod.splits)

lemma load_discovery_target_errors: "load_discovery_target ctx lease d = Inl e \<Longrightarrow> e \<noteq> ValueError"
  by (auto simp: load_discovery_target_def and_then_Inl dest!: role_errors split: option.splits)

lemma validate_for_contact_errors: "validate_for_contact ctx lease clock d = Inl e \<Longrightarrow> e \<noteq> ValueError"
  by (auto simp: validate_for_contact_def and_then_Inl dest!: role_errors publication_errors(1) dest: publication_errors(2))

lemma pinned_adapter_errors: "pinned_adapter dn p = Inl r \<Longrightarrow> exn_of r \<noteq> ServiceError ValueError"
  by (auto simp: pinned_adapter_def split: sum.splits if_splits)

lemma contact_no_value_error:
  assumes "contact dn w ctx lease = (contacted, Inl r)"
  shows "exn_of r \<noteq> ServiceError ValueError"
proof (cases contacted)
  case True
  then have "is_discovery (exn_of r) \<or> \<not> is_exception r"
    using contact_contacted(2) [of dn w ctx lease "Inl r"] assms discover_Inl by metis
  then show ?thesis by (cases r) auto
next
  case False
  then show ?thesis
    using assms
    by (auto simp: contact_def and_then_Inl map_sum_Inl_iff split: sum.splits option.splits
        dest: load_discovery_target_errors validate_for_contact_errors pinned_adapter_errors dest!: retrieve_errors)
qed

lemma contact_listing:
  assumes "contact dn w ctx lease = (contacted, Inr result)"
  obtains cfg endpoint token session where "discover (dn_externals dn) cfg endpoint token session = Inr result"
  using contact_contacted(2,3) [of dn w ctx lease "Inr result"] assms by (cases contacted) auto


text \<open>A server that speaks another protocol revision: the failure is recorded.\<close>

definition mismatched_discovery :: discovery_world where
  "mismatched_discovery = demo_discovery\<lparr>dw_initialize := Inr [49]\<rparr>"

definition demo_discovery_runner :: discovery_runner where
  "demo_discovery_runner = \<lparr>dn_externals = demo_listing_externals, dn_file_system = (\<lambda>_ _. None),
     dn_secret_provider = Fixture [] None, dn_adapter_factory = (\<lambda>_. Inr demo_adapter_config)\<rparr>"

definition mismatched_refresh :: discovery_run_world where
  "mismatched_refresh = \<lparr>dr_load_db = site3, dr_contact_db = site3, dr_contact_clock = demo_clock, dr_publish_db = site3,
     dr_publish_clock = demo_clock, dr_ids = site_publication, dr_session = (\<lambda>_ _. mismatched_discovery)\<rparr>"

lemma mismatched_contact:
  "(fst (contact demo_discovery_runner mismatched_refresh site_ctx site_lease),
    isl (snd (contact demo_discovery_runner mismatched_refresh site_ctx site_lease)),
    length (dtr_commits (run_discovery demo_discovery_runner mismatched_refresh site_ctx site_lease))) = (True, True, 1)"
  by code_simp


end
