(* ===== verification/Secret_Screens.thy ===== *)
theory Secret_Screens
  imports Endpoint_Rules "HOL-Library.Sublist"
begin

text \<open>
  The screens for credentials of \<^verbatim>\<open>security/metadata.py\<close>: what looks like a secret in a text, a host name, a
  URL or a JSON value. The compiled regular expressions are parameters, with what the source reads of
  their matches; so are the float sum of the entropy and the character tables of \<open>str\<close>. The explicit
  stack of the JSON screen is shown to look at exactly the values of the document, each in its context.
\<close>

section \<open>Patterns\<close>

record pattern_externals = url_externals +
  obvious_secret :: "ustr \<Rightarrow> bool"
  secret_markers :: "ustr \<Rightarrow> nat list"
  secret_value_at :: "ustr \<Rightarrow> nat \<Rightarrow> nat \<Rightarrow> ustr option"
  authorization_values :: "ustr \<Rightarrow> (ustr option \<times> ustr option) list"
  sensitive_field_search :: "ustr \<Rightarrow> bool"
  marker_prefix :: "ustr \<Rightarrow> ustr option"
  host_label_marker :: "ustr \<Rightarrow> ustr option"
  path_markers :: "ustr \<Rightarrow> ustr list"
  url_candidates :: "ustr \<Rightarrow> ustr list"
  re2_search :: "ustr \<Rightarrow> (ustr \<Rightarrow> bool) option"
  is_decimal :: "ustr \<Rightarrow> bool"
  is_lower_alpha :: "ustr \<Rightarrow> bool"
  float_entropy :: "(nat \<times> nat) list \<Rightarrow> rat"
  float_text :: "nat \<Rightarrow> ustr"

section \<open>Candidates\<close>

text \<open>\<open>[A-Za-z0-9._~+/=-]{8,}\<close>.\<close>

definition opaque_annotation :: "ustr \<Rightarrow> bool" where
  "opaque_annotation s \<longleftrightarrow> 8 \<le> length s \<and> list_all (\<lambda>c. ascii_alnum c \<or> c \<in> set (ustr_of ''._~+/=-'')) s"

text \<open>\<open>_entropy_bits\<close>: the float sum over the counts of the characters, in the order of \<open>Counter\<close>.\<close>

definition entropy_bits :: "'e pattern_externals_scheme \<Rightarrow> ustr \<Rightarrow> rat" where
  "entropy_bits ext s = float_entropy ext (map (\<lambda>c. (count_list s c, length s)) (rev (remdups (rev s))))"

definition looks_like_opaque_value :: "'e pattern_externals_scheme \<Rightarrow> ustr \<Rightarrow> bool" where
  "looks_like_opaque_value ext s \<longleftrightarrow> \<not> (length s < 12 \<or> \<not> opaque_annotation s)
     \<and> entropy_bits ext s \<ge> of_nat (length s) * (7 / 2)"

definition looks_like_secret_candidate :: "'e pattern_externals_scheme \<Rightarrow> ustr \<Rightarrow> bool" where
  "looks_like_secret_candidate ext s \<longleftrightarrow> looks_like_opaque_value ext s
     \<or> (length s \<ge> 16 \<and> is_decimal ext s \<and> entropy_bits ext s \<ge> 64)"

text \<open>\<open>re.split\<close> on runs of separators, without the empty words.\<close>

function words_of :: "(nat \<Rightarrow> bool) \<Rightarrow> ustr \<Rightarrow> ustr list" where
  "words_of sep [] = []"
| "words_of sep (c # cs) =
     (if sep c then words_of sep cs
      else (c # takeWhile (\<lambda>x. \<not> sep x) cs) # words_of sep (dropWhile (\<lambda>x. \<not> sep x) cs))"
  by pat_completeness auto
termination by (relation "measure (length \<circ> snd)") (auto simp: le_imp_less_Suc length_dropWhile_le)

definition AUTH_MODE_WORDS :: "ustr list" where
  "AUTH_MODE_WORDS = map ustr_of [''anonymous'', ''api'', ''apikey'', ''auth'', ''authentication'', ''authorization'', ''basic'',
     ''bearer'', ''client'', ''code'', ''credentials'', ''device'', ''digest'', ''disabled'', ''enabled'', ''key'', ''jwt'', ''mtls'',
     ''none'', ''oauth'', ''oauth2'', ''oidc'', ''optional'', ''pkce'', ''public'', ''required'', ''supported'', ''unsupported'']"

definition is_auth_mode :: "'e pattern_externals_scheme \<Rightarrow> ustr \<Rightarrow> bool" where
  "is_auth_mode ext s \<longleftrightarrow>
     (let words = words_of (\<lambda>c. c = 95 \<or> c = 45) (str_lower ext s)
      in words \<noteq> [] \<and> list_all (\<lambda>w. w \<in> set AUTH_MODE_WORDS) words)"

definition without_dots :: "ustr \<Rightarrow> ustr" where
  "without_dots s = filter (\<lambda>c. c \<noteq> 46 \<and> c \<noteq> 47) s"

definition looks_like_marker_suffix :: "'e pattern_externals_scheme \<Rightarrow> ustr \<Rightarrow> bool" where
  "looks_like_marker_suffix ext s \<longleftrightarrow> looks_like_secret_candidate ext s \<or> looks_like_secret_candidate ext (without_dots s)"

definition looks_like_internal_marker_suffix :: "'e pattern_externals_scheme \<Rightarrow> ustr \<Rightarrow> bool" where
  "looks_like_internal_marker_suffix ext s \<longleftrightarrow>
     (let words = split_on 45 s
      in \<not> (length words > 1 \<and> list_all (is_lower_alpha ext) words) \<and> looks_like_marker_suffix ext s)"

section \<open>Fields\<close>

definition ascii_lower_or_digit :: "nat \<Rightarrow> bool" where
  "ascii_lower_or_digit c \<longleftrightarrow> (97 \<le> c \<and> c \<le> 122) \<or> (48 \<le> c \<and> c \<le> 57)"

definition ascii_upper :: "nat \<Rightarrow> bool" where
  "ascii_upper c \<longleftrightarrow> 65 \<le> c \<and> c \<le> 90"

text \<open>An underscore between a lower-case letter or digit and an upper-case letter.\<close>

fun camel_to_snake :: "ustr \<Rightarrow> ustr" where
  "camel_to_snake (a # b # cs) =
     (if ascii_lower_or_digit a \<and> ascii_upper b then a # 95 # camel_to_snake (b # cs) else a # camel_to_snake (b # cs))"
| "camel_to_snake cs = cs"

text \<open>Every run of other characters becomes one underscore.\<close>

function collapse_separators :: "ustr \<Rightarrow> ustr" where
  "collapse_separators [] = []"
| "collapse_separators (c # cs) =
     (if ascii_alnum c then c # collapse_separators cs else 95 # collapse_separators (dropWhile (\<lambda>x. \<not> ascii_alnum x) cs))"
  by pat_completeness auto
termination by (relation "measure length") (auto simp: le_imp_less_Suc length_dropWhile_le)

definition is_sensitive_field :: "'e pattern_externals_scheme \<Rightarrow> ustr \<Rightarrow> bool" where
  "is_sensitive_field ext k = sensitive_field_search ext (collapse_separators (camel_to_snake k))"

definition SENSITIVE_FIELD_PROBES :: "ustr list" where
  "SENSITIVE_FIELD_PROBES = map ustr_of [''api_key'', ''apiKey'', ''access_token'', ''refresh_token'', ''session_token'', ''auth_token'',
     ''bearer_token'', ''credential'', ''credentials'', ''authorization'', ''authentication'', ''private_key'', ''privateKey'',
     ''client_secret'', ''clientSecret'', ''secret'', ''password'', ''token'']"

definition pattern_matches_sensitive_field :: "'e pattern_externals_scheme \<Rightarrow> ustr \<Rightarrow> bool" where
  "pattern_matches_sensitive_field ext p \<longleftrightarrow>
     (case re2_search ext p of None \<Rightarrow> True | Some matches \<Rightarrow> list_ex matches SENSITIVE_FIELD_PROBES)"

definition is_expiration_field :: "'e pattern_externals_scheme \<Rightarrow> ustr \<Rightarrow> bool" where
  "is_expiration_field ext k \<longleftrightarrow>
     list_ex (\<lambda>w. w \<in> ustr_of ` {''expiration'', ''expires'', ''expiry'', ''lifetime'', ''ttl''})
       (words_of (\<lambda>c. \<not> ascii_lower_or_digit c) (str_lower ext (camel_to_snake k)))"

section \<open>Texts\<close>

text \<open>The part of a text from one marker to the next.\<close>

fun marker_loop :: "'e pattern_externals_scheme \<Rightarrow> ustr \<Rightarrow> nat list \<Rightarrow> bool" where
  "marker_loop ext s [] = False"
| "marker_loop ext s (start # starts) =
     ((case secret_value_at ext s start (case starts of [] \<Rightarrow> length s | n # _ \<Rightarrow> n) of
         None \<Rightarrow> False
       | Some v \<Rightarrow> looks_like_secret_candidate ext v)
      \<or> marker_loop ext s starts)"

definition authorization_secret :: "'e pattern_externals_scheme \<Rightarrow> ustr option \<times> ustr option \<Rightarrow> bool" where
  "authorization_secret ext = (\<lambda>(assigned, bearer).
     (let candidate = (case assigned of Some a \<Rightarrow> if a \<noteq> [] then Some a else bearer | None \<Rightarrow> bearer)
      in case candidate of
           None \<Rightarrow> False
         | Some c \<Rightarrow> \<not> (assigned \<noteq> None \<and> is_auth_mode ext c) \<and> looks_like_secret_candidate ext c))"

definition text_contains_secret :: "'e pattern_externals_scheme \<Rightarrow> ustr \<Rightarrow> bool" where
  "text_contains_secret ext s \<longleftrightarrow> obvious_secret ext s \<or> marker_loop ext s (secret_markers ext s)
     \<or> list_ex (authorization_secret ext) (authorization_values ext s)"

section \<open>Hosts and URLs\<close>

definition join_dots :: "ustr list \<Rightarrow> ustr" where
  "join_dots ls = concat (case ls of [] \<Rightarrow> [] | l # rest \<Rightarrow> l # map ((#) 46) rest)"

definition rstrip_chars :: "ustr \<Rightarrow> ustr \<Rightarrow> ustr" where
  "rstrip_chars chars s = rev (dropWhile (\<lambda>c. c \<in> set chars) (rev s))"

definition marked :: "(ustr \<Rightarrow> ustr option) \<Rightarrow> (ustr \<Rightarrow> bool) \<Rightarrow> ustr list \<Rightarrow> bool" where
  "marked pattern opaque ls \<longleftrightarrow> list_ex (\<lambda>l. case pattern l of None \<Rightarrow> False | Some v \<Rightarrow> opaque v) ls"

definition hostname_is_sensitive :: "'e pattern_externals_scheme \<Rightarrow> ustr \<Rightarrow> bool" where
  "hostname_is_sensitive ext hostname \<longleftrightarrow>
     (let labels = split_on 46 (rstrip_chars [46] hostname)
      in list_ex (\<lambda>i. is_sensitive_field ext (labels ! i) \<and> looks_like_marker_suffix ext (labels ! (i + 1))) [0..<length labels - 1]
         \<or> list_ex (\<lambda>i. is_sensitive_field ext (labels ! i)
              \<and> list_ex (\<lambda>e. looks_like_marker_suffix ext (join_dots (take (e - (i + 1)) (drop (i + 1) labels))))
                  [i + 2..<length labels + 1]) [0..<length labels - 1]
         \<or> marked (marker_prefix ext) (looks_like_marker_suffix ext) labels
         \<or> marked (host_label_marker ext) (looks_like_marker_suffix ext) labels)"

definition url_path_is_sensitive :: "'e pattern_externals_scheme \<Rightarrow> ustr \<Rightarrow> bool" where
  "url_path_is_sensitive ext path \<longleftrightarrow>
     marked (marker_prefix ext) (looks_like_marker_suffix ext) (split_on 47 path)
     \<or> marked (host_label_marker ext) (looks_like_internal_marker_suffix ext) (split_on 47 path)
     \<or> list_ex (looks_like_marker_suffix ext) (path_markers ext path)"

text \<open>The value and what up to three rounds of decoding make of it.\<close>

fun decoded_candidates :: "'e pattern_externals_scheme \<Rightarrow> nat \<Rightarrow> ustr \<Rightarrow> ustr list" where
  "decoded_candidates ext 0 s = [s]"
| "decoded_candidates ext (Suc n) s =
     s # (case unquote_strict ext s of
            None \<Rightarrow> []
          | Some t \<Rightarrow> if t = s then [] else decoded_candidates ext n t)"

definition safe_path :: "'e pattern_externals_scheme \<Rightarrow> ustr \<Rightarrow> ustr option" where
  "safe_path ext = decode_safe_url_path (url_externals.truncate ext)"

definition text_or_path_sensitive :: "'e pattern_externals_scheme \<Rightarrow> ustr \<Rightarrow> bool" where
  "text_or_path_sensitive ext s \<longleftrightarrow> url_path_is_sensitive ext s \<or> text_contains_secret ext s"

definition candidate_is_sensitive :: "'e pattern_externals_scheme \<Rightarrow> ustr \<Rightarrow> bool" where
  "candidate_is_sensitive ext matched =
     (let candidate = rstrip_chars (ustr_of ''.,;:!?)]'') matched;
          decoded = (case safe_path ext candidate of None \<Rightarrow> candidate | Some p \<Rightarrow> p)
      in if text_or_path_sensitive ext decoded then True
         else
           (case urlsplit ext candidate of
              None \<Rightarrow> False
            | Some parsed \<Rightarrow>
                (case (normalize_endpoint_host (url_externals.truncate ext) (url_hostname parsed), safe_path ext (url_path parsed),
                       case url_username parsed of None \<Rightarrow> Some None | Some u \<Rightarrow> map_option Some (safe_path ext u),
                       safe_path ext (url_query parsed), safe_path ext (url_fragment parsed)) of
                   (Some host, Some path, Some username, Some query, Some fragment) \<Rightarrow>
                     url_password parsed \<noteq> None \<or> hostname_is_sensitive ext (neh_value host)
                     \<or> text_or_path_sensitive ext path \<or> text_or_path_sensitive ext query \<or> text_or_path_sensitive ext fragment
                     \<or> (case username of None \<Rightarrow> False | Some u \<Rightarrow> text_or_path_sensitive ext u)
                 | _ \<Rightarrow> False)))"

definition url_is_sensitive :: "'e pattern_externals_scheme \<Rightarrow> ustr \<Rightarrow> bool" where
  "url_is_sensitive ext s \<longleftrightarrow>
     list_ex (candidate_is_sensitive ext) (concat (map (url_candidates ext) (decoded_candidates ext 3 s)))"

section \<open>JSON values\<close>

definition literal_key :: "ustr \<Rightarrow> bool" where
  "literal_key k \<longleftrightarrow> k \<in> ustr_of ` {''const'', ''default'', ''enum'', ''example'', ''examples''}"

text \<open>The inner loop over literals: strings in a value and in the lists of it.\<close>

fun literal_strings :: "json \<Rightarrow> ustr list" where
  "literal_strings (JStr s) = [s]"
| "literal_strings (JList xs) = concat (map literal_strings xs)"
| "literal_strings _ = []"

text \<open>\<open>len(str(current)) >= 8\<close> of a number that is no truth value.\<close>

fun long_number :: "'e pattern_externals_scheme \<Rightarrow> json \<Rightarrow> bool" where
  "long_number ext (JInt i) = (length (digits (nat (abs i))) + (if i < 0 then 1 else 0) \<ge> 8)"
| "long_number ext (JFloat x) = (length (float_text ext x) \<ge> 8)"
| "long_number ext _ = False"

fun is_number :: "json \<Rightarrow> bool" where
  "is_number (JInt i) = True"
| "is_number (JFloat x) = True"
| "is_number _ = False"

definition auth_mode_child :: "'e pattern_externals_scheme \<Rightarrow> bool \<Rightarrow> ustr \<Rightarrow> json \<Rightarrow> bool" where
  "auth_mode_child ext sensitive k child \<longleftrightarrow>
     (case child of
        JStr s \<Rightarrow> is_auth_mode ext s \<and> (sensitive \<or> (is_sensitive_field ext k \<and> sublist (ustr_of ''auth'') (str_lower ext k)))
      | _ \<Rightarrow> False)"

definition member_alarm :: "'e pattern_externals_scheme \<Rightarrow> bool \<Rightarrow> ustr \<Rightarrow> json \<Rightarrow> bool" where
  "member_alarm ext sensitive k child \<longleftrightarrow>
     (sensitive \<and> looks_like_secret_candidate ext k)
     \<or> (is_sensitive_field ext k \<and> \<not> auth_mode_child ext sensitive k child
          \<and> (case child of JStr s \<Rightarrow> looks_like_secret_candidate ext s | _ \<Rightarrow> False))
     \<or> (sensitive \<and> literal_key k \<and> list_ex (looks_like_secret_candidate ext) (literal_strings child))"

definition child_context :: "'e pattern_externals_scheme \<Rightarrow> bool \<Rightarrow> ustr \<Rightarrow> json \<Rightarrow> bool" where
  "child_context ext sensitive k child \<longleftrightarrow>
     (if auth_mode_child ext sensitive k child
         \<or> ((is_sensitive_field ext k \<or> sensitive) \<and> is_number child \<and> is_expiration_field ext k)
      then False else sensitive \<or> is_sensitive_field ext k)"

text \<open>One turn of the loop: an alarm, or what is pushed.\<close>

fun screen_members :: "'e pattern_externals_scheme \<Rightarrow> bool \<Rightarrow> (ustr \<times> json) list \<Rightarrow> (json \<times> bool) list option" where
  "screen_members ext sensitive [] = Some []"
| "screen_members ext sensitive ((k, child) # ms) =
     (if member_alarm ext sensitive k child then None
      else map_option ((#) (child, child_context ext sensitive k child)) (screen_members ext sensitive ms))"

definition screen_value :: "'e pattern_externals_scheme \<Rightarrow> json \<times> bool \<Rightarrow> (json \<times> bool) list option" where
  "screen_value ext = (\<lambda>(v, sensitive).
     (case v of
        JDict ms \<Rightarrow> screen_members ext sensitive ms
      | JList xs \<Rightarrow> Some (map (\<lambda>x. (x, sensitive)) xs)
      | JStr s \<Rightarrow> if (sensitive \<and> looks_like_secret_candidate ext s) \<or> text_contains_secret ext s then None else Some []
      | _ \<Rightarrow> if sensitive \<and> long_number ext v then None else Some []))"

lemma screen_members_children: "screen_members ext c ms = Some es \<Longrightarrow> map fst es = map snd ms"
  by (induction ext c ms arbitrary: es rule: screen_members.induct) (auto split: if_splits)

lemma screen_value_children: "screen_value ext (v, c) = Some es \<Longrightarrow> map fst es = json_children v"
  by (cases v) (auto simp: screen_value_def o_def screen_members_children split: if_splits)

lemma screen_value_nodes:
  assumes "screen_value ext (v, c) = Some es"
  shows "Suc (sum_list (map (json_nodes \<circ> fst) es)) = json_nodes v"
proof -
  have "map (json_nodes \<circ> fst) es = map json_nodes (json_children v)"
    using screen_value_children [OF assms] by (metis map_map)
  then show ?thesis by (subst json_nodes.simps) simp
qed

function secret_loop :: "'e pattern_externals_scheme \<Rightarrow> (json \<times> bool) list \<Rightarrow> bool" where
  "secret_loop ext [] = False"
| "secret_loop ext ((v, c) # stack) =
     (case screen_value ext (v, c) of None \<Rightarrow> True | Some es \<Rightarrow> secret_loop ext (rev es @ stack))"
  by pat_completeness auto
termination
  by (relation "measure (\<lambda>(_, stack). sum_list (map (json_nodes \<circ> fst) stack))")
    (auto simp: rev_map [symmetric] dest: screen_value_nodes)

definition contains_obvious_secret_in_json :: "'e pattern_externals_scheme \<Rightarrow> json \<Rightarrow> bool \<Rightarrow> bool" where
  "contains_obvious_secret_in_json ext v initially_sensitive = secret_loop ext [(v, initially_sensitive)]"

definition json_is_sensitive :: "'e pattern_externals_scheme \<Rightarrow> json \<Rightarrow> bool" where
  "json_is_sensitive ext v = contains_obvious_secret_in_json ext v False"

section \<open>What the screen of JSON values finds\<close>

text \<open>The values of a document, each in the context that the keys above it give it.\<close>

definition context_entries :: "'e pattern_externals_scheme \<Rightarrow> json \<times> bool \<Rightarrow> (json \<times> bool) list" where
  "context_entries ext = (\<lambda>(v, c). case v of
     JDict ms \<Rightarrow> map (\<lambda>(k, child). (child, child_context ext c k child)) ms
   | JList xs \<Rightarrow> map (\<lambda>x. (x, c)) xs
   | _ \<Rightarrow> [])"

lemma context_entries_children: "map fst (context_entries ext (v, c)) = json_children v"
  by (cases v) (auto simp: context_entries_def o_def split: prod.splits)

function contexts :: "'e pattern_externals_scheme \<Rightarrow> json \<times> bool \<Rightarrow> (json \<times> bool) list" where
  "contexts ext e = e # concat (map (contexts ext) (context_entries ext e))"
  by pat_completeness auto
termination
proof (relation "measure (\<lambda>(_, e). size (fst e))", simp)
  fix ext :: "'e pattern_externals_scheme" and e x :: "json \<times> bool"
  assume "x \<in> set (context_entries ext e)"
  then have "fst x \<in> set (json_children (fst e))"
    using context_entries_children [of ext "fst e" "snd e"] by (metis image_eqI list.set_map prod.collapse)
  from size_child [OF this] show "((ext, x), ext, e) \<in> measure (\<lambda>(_, e). size (fst e))" by simp
qed

declare contexts.simps [simp del]

definition alarm :: "'e pattern_externals_scheme \<Rightarrow> json \<times> bool \<Rightarrow> bool" where
  "alarm ext = (\<lambda>(v, c). case v of
     JDict ms \<Rightarrow> list_ex (\<lambda>(k, child). member_alarm ext c k child) ms
   | JList xs \<Rightarrow> False
   | JStr s \<Rightarrow> (c \<and> looks_like_secret_candidate ext s) \<or> text_contains_secret ext s
   | _ \<Rightarrow> c \<and> long_number ext v)"

lemma screen_members_alarm:
  "screen_members ext c ms = (if list_ex (\<lambda>(k, child). member_alarm ext c k child) ms then None
     else Some (map (\<lambda>(k, child). (child, child_context ext c k child)) ms))"
  by (induction ext c ms rule: screen_members.induct) auto

lemma screen_value_alarm: "screen_value ext e = (if alarm ext e then None else Some (context_entries ext e))"
  by (cases e) (auto simp: screen_value_def alarm_def context_entries_def screen_members_alarm split: json.splits)

lemma secret_loop_contexts: "secret_loop ext stack \<longleftrightarrow> (\<exists>e \<in> set stack. \<exists>x \<in> set (contexts ext e). alarm ext x)"
proof (induction ext stack rule: secret_loop.induct)
  case (2 ext v c stack)
  have unfold: "set (contexts ext (v, c)) = insert (v, c) (\<Union>e \<in> set (context_entries ext (v, c)). set (contexts ext e))"
    by (subst contexts.simps) simp
  show ?case
  proof (cases "alarm ext (v, c)")
    case True
    then show ?thesis by (auto simp: screen_value_alarm unfold)
  next
    case False
    then have "secret_loop ext ((v, c) # stack) = secret_loop ext (rev (context_entries ext (v, c)) @ stack)"
      by (simp add: screen_value_alarm)
    also have "\<dots> \<longleftrightarrow> (\<exists>e \<in> set (rev (context_entries ext (v, c)) @ stack). \<exists>x \<in> set (contexts ext e). alarm ext x)"
      by (rule "2.IH") (simp add: False screen_value_alarm)
    finally show ?thesis using False by (auto simp: unfold)
  qed
qed simp

text \<open>All values of a document.\<close>

function subvalues :: "json \<Rightarrow> json list" where
  "subvalues v = v # concat (map subvalues (json_children v))"
  by pat_completeness auto
termination by (relation "measure size") (auto dest: size_child)

declare subvalues.simps [simp del]

lemma contexts_subvalues: "map fst (contexts ext e) = subvalues (fst e)"
proof (induction ext e rule: contexts.induct)
  case (1 ext e)
  have "map fst (concat (map (contexts ext) (context_entries ext e))) = concat (map (\<lambda>x. subvalues (fst x)) (context_entries ext e))"
    using 1 by (simp add: map_concat o_def cong: map_cong)
  also have "\<dots> = concat (map subvalues (map fst (context_entries ext e)))" by (simp add: o_def)
  also have "map fst (context_entries ext e) = json_children (fst e)"
    using context_entries_children [of ext "fst e" "snd e"] by simp
  finally show ?case by (subst contexts.simps, subst subvalues.simps) simp
qed

lemma subvalue_context: "u \<in> set (subvalues v) \<Longrightarrow> \<exists>c'. (u, c') \<in> set (contexts ext (v, c))"
proof -
  assume "u \<in> set (subvalues v)"
  then have "u \<in> fst ` set (contexts ext (v, c))" using contexts_subvalues [of ext "(v, c)"] by (simp flip: set_map)
  then show ?thesis by force
qed

lemma alarm_found: "(u, c') \<in> set (contexts ext (v, c)) \<Longrightarrow> alarm ext (u, c') \<Longrightarrow> contains_obvious_secret_in_json ext v c"
  by (auto simp: contains_obvious_secret_in_json_def secret_loop_contexts)

text \<open>C14. The screen of JSON values raises an alarm exactly when some value of the document, in the context given by
  the keys above it, is alarming; wherever it stands in the document, a string with an obvious secret is
  found, and so is a string that looks like a secret under a sensitive key, unless it names an
  authentication mode.\<close>

theorem json_screen_exact:
  "(contains_obvious_secret_in_json ext v c \<longleftrightarrow> (\<exists>x \<in> set (contexts ext (v, c)). alarm ext x))
   \<and> (\<forall>s. JStr s \<in> set (subvalues v) \<and> text_contains_secret ext s \<longrightarrow> contains_obvious_secret_in_json ext v c)
   \<and> (\<forall>ms k s. JDict ms \<in> set (subvalues v) \<and> (k, JStr s) \<in> set ms \<and> is_sensitive_field ext k
        \<and> looks_like_secret_candidate ext s \<and> \<not> is_auth_mode ext s \<longrightarrow> contains_obvious_secret_in_json ext v c)"
proof (intro conjI allI impI; (elim conjE)?)
  show "contains_obvious_secret_in_json ext v c \<longleftrightarrow> (\<exists>x \<in> set (contexts ext (v, c)). alarm ext x)"
    by (simp add: contains_obvious_secret_in_json_def secret_loop_contexts)
next
  fix s assume s: "JStr s \<in> set (subvalues v)" "text_contains_secret ext s"
  from subvalue_context [OF s(1), of ext c] obtain c' where "(JStr s, c') \<in> set (contexts ext (v, c))" by blast
  then show "contains_obvious_secret_in_json ext v c" by (rule alarm_found) (simp add: alarm_def s(2))
next
  fix ms k s assume m: "JDict ms \<in> set (subvalues v)" "(k, JStr s) \<in> set ms" "is_sensitive_field ext k"
    "looks_like_secret_candidate ext s" "\<not> is_auth_mode ext s"
  from subvalue_context [OF m(1), of ext c] obtain c' where "(JDict ms, c') \<in> set (contexts ext (v, c))" by blast
  moreover have "member_alarm ext c' k (JStr s)" using m(3-5) by (simp add: member_alarm_def auth_mode_child_def)
  then have "alarm ext (JDict ms, c')" using m(2) by (force simp: alarm_def list_ex_iff)
  ultimately show "contains_obvious_secret_in_json ext v c" by (rule alarm_found)
qed

text \<open>A key in a nested object, with a screen that knows one sensitive field.\<close>

definition demo_patterns :: pattern_externals where
  "demo_patterns = \<lparr>urlsplit = (\<lambda>_. None), str_lower = (\<lambda>s. s), ip_address = (\<lambda>_. None), idna_encode = Some, inet_aton = (\<lambda>_. False),
     unquote_strict = Some, contains_obvious_secret = (\<lambda>_. False), contains_sensitive_hostname = (\<lambda>_. False),
     contains_sensitive_url_path = (\<lambda>_. False), obvious_secret = (\<lambda>_. False), secret_markers = (\<lambda>_. []),
     secret_value_at = (\<lambda>_ _ _. None), authorization_values = (\<lambda>_. []), sensitive_field_search = (\<lambda>s. s = ustr_of ''api_Key''),
     marker_prefix = (\<lambda>_. None), host_label_marker = (\<lambda>_. None), path_markers = (\<lambda>_. []), url_candidates = (\<lambda>_. []),
     re2_search = (\<lambda>_. None), is_decimal = (\<lambda>_. True), is_lower_alpha = (\<lambda>_. False), float_entropy = (\<lambda>ts. 4 * of_nat (sum_list (map fst ts))),
     float_text = (\<lambda>_. [])\<rparr>"

definition demo_secret_document :: json where
  "demo_secret_document = JDict [(ustr_of ''a'', JList [JDict [(ustr_of ''apiKey'', JStr (ustr_of ''0123456789abcdef''))]])]"

theorem json_screen_exact_witness: "contains_obvious_secret_in_json demo_patterns demo_secret_document False"
proof -
  have "JDict [(ustr_of ''apiKey'', JStr (ustr_of ''0123456789abcdef''))] \<in> set (subvalues demo_secret_document)
     \<and> is_sensitive_field demo_patterns (ustr_of ''apiKey'')
     \<and> looks_like_secret_candidate demo_patterns (ustr_of ''0123456789abcdef'')
     \<and> \<not> is_auth_mode demo_patterns (ustr_of ''0123456789abcdef'')"
    by code_simp
  moreover have "(ustr_of ''apiKey'', JStr (ustr_of ''0123456789abcdef'')) \<in> set [(ustr_of ''apiKey'', JStr (ustr_of ''0123456789abcdef''))]"
    by simp
  ultimately show ?thesis using json_screen_exact [of demo_patterns demo_secret_document False] by blast
qed

end
