(* ===== verification/Schema_Screen.thy ===== *)
theory Schema_Screen
  imports Secret_Screens Adapter_Schema
begin

text \<open>
  The credential screen of JSON schemas (\<open>contains_sensitive_schema\<close> of \<^verbatim>\<open>security/metadata.py\<close>). It follows local
  references, so it walks a graph with cycles and remembers the objects it has visited. The identity of
  an object is its place in the document, the path of child indices that leads to it: a decoded document
  shares no lists or dictionaries, and a shared scalar is judged alike wherever it stands. The cache of
  resolved references only saves time and is left out.
\<close>

section \<open>Places\<close>

type_synonym path = "nat list"

fun node_at :: "json \<Rightarrow> path \<Rightarrow> json option" where
  "node_at v [] = Some v"
| "node_at v (i # p) = (if i < length (json_children v) then node_at (json_children v ! i) p else None)"

definition places :: "json \<Rightarrow> path set" where
  "places v = {p. node_at v p \<noteq> None}"

lemma place_iff: "p \<in> places v \<longleftrightarrow> (\<exists>u. node_at v p = Some u)"
  by (auto simp: places_def)

lemma places_children:
  "places v = insert [] (\<Union>i < length (json_children v). (#) i ` places (json_children v ! i))"
proof (intro set_eqI iffI)
  fix p assume "p \<in> places v"
  then show "p \<in> insert [] (\<Union>i < length (json_children v). (#) i ` places (json_children v ! i))"
    by (cases p) (auto simp: places_def split: if_splits)
qed (auto simp: places_def)

lemma finite_places [simp]: "finite (places v)"
proof (induction v rule: measure_induct_rule [where f = size])
  case (less v)
  have "finite (places (json_children v ! i))" if "i < length (json_children v)" for i
    using less size_child nth_mem that by blast
  then show ?case by (subst places_children) auto
qed

text \<open>What is left to visit, for the loops that mark what they have visited.\<close>

definition unvisited :: "'a set \<Rightarrow> 'a list \<Rightarrow> nat" where
  "unvisited universe visited = card (universe - set visited)"

lemma unvisited_decreases: "finite universe \<Longrightarrow> x \<in> universe \<Longrightarrow> x \<notin> set visited \<Longrightarrow> unvisited universe (x # visited) < unvisited universe visited"
  unfolding unvisited_def by (rule psubset_card_mono) auto

lemma unvisited_same: "x \<notin> universe \<Longrightarrow> unvisited universe (x # visited) = unvisited universe visited"
  unfolding unvisited_def by (rule arg_cong [where f = card]) auto

lemma unvisited_progress:
  "finite universe \<Longrightarrow> unvisited universe (x # visited) < unvisited universe visited \<or> unvisited universe (x # visited) = unvisited universe visited"
  unfolding unvisited_def by (metis Diff_mono card_mono finite_Diff le_neq_implies_less order_refl set_subset_Cons)

section \<open>Keywords\<close>

definition SCHEMA_MAP_KEYS :: "ustr list" where
  "SCHEMA_MAP_KEYS = map ustr_of [''$defs'', ''definitions'', ''dependentSchemas'', ''patternProperties'']"

definition SCHEMA_KEYS :: "ustr list" where
  "SCHEMA_KEYS = map ustr_of [''additionalProperties'', ''contains'', ''contentSchema'', ''else'', ''if'', ''items'', ''not'',
     ''propertyNames'', ''then'', ''unevaluatedItems'', ''unevaluatedProperties'']"

definition SCHEMA_ARRAY_KEYS :: "ustr list" where
  "SCHEMA_ARRAY_KEYS = map ustr_of [''allOf'', ''anyOf'', ''oneOf'', ''prefixItems'']"

definition ANNOTATION_KEYS :: "ustr list" where
  "ANNOTATION_KEYS = map ustr_of [''$comment'', ''description'', ''title'']"

text \<open>Members and items with their places.\<close>

definition member_places :: "path \<Rightarrow> (ustr \<times> json) list \<Rightarrow> (ustr \<times> path \<times> json) list" where
  "member_places p ms = map (\<lambda>(i, k, v). (k, p @ [i], v)) (List.enumerate 0 ms)"

definition dict_values :: "path \<times> json \<Rightarrow> path list" where
  "dict_values = (\<lambda>(p, v). case v of JDict ms \<Rightarrow> map (\<lambda>(_, q, _). q) (member_places p ms) | _ \<Rightarrow> [])"

definition list_items :: "path \<times> json \<Rightarrow> path list" where
  "list_items = (\<lambda>(p, v). case v of JList xs \<Rightarrow> map (\<lambda>i. p @ [i]) [0..<length xs] | _ \<Rightarrow> [])"

fun dict_or_bool :: "json \<Rightarrow> bool" where
  "dict_or_bool (JDict _) = True"
| "dict_or_bool (JBool _) = True"
| "dict_or_bool _ = False"

section \<open>Anchors\<close>

definition string_member :: "(ustr \<times> json) list \<Rightarrow> ustr \<Rightarrow> ustr option" where
  "string_member ms k = (case map_of ms k of Some (JStr s) \<Rightarrow> Some s | _ \<Rightarrow> None)"

definition dict_at :: "json \<Rightarrow> path \<Rightarrow> (ustr \<times> json) list option" where
  "dict_at document p = (case node_at document p of Some (JDict ms) \<Rightarrow> Some ms | _ \<Rightarrow> None)"

lemma string_member_Some: "string_member ms k = Some s \<Longrightarrow> (k, JStr s) \<in> set ms"
  by (auto simp: string_member_def dest: map_of_SomeD split: option.splits json.splits)

lemma dict_at_Some [simp]: "dict_at document p = Some ms \<longleftrightarrow> node_at document p = Some (JDict ms)"
  by (auto simp: dict_at_def split: option.splits json.splits)

fun add_anchors :: "path \<Rightarrow> (ustr \<times> json) list \<Rightarrow> ustr list \<Rightarrow> (ustr \<times> path) list \<Rightarrow> (ustr \<times> path) list option" where
  "add_anchors p ms [] anchors = Some anchors"
| "add_anchors p ms (keyword # names) anchors =
     (case string_member ms keyword of
        None \<Rightarrow> add_anchors p ms names anchors
      | Some anchor \<Rightarrow>
          if anchor \<in> fst ` set anchors then None else add_anchors p ms names ((anchor, p) # anchors))"

text \<open>The candidates a dictionary adds. The source runs through sets of names, in no particular order.\<close>

definition schema_candidates :: "path \<Rightarrow> (ustr \<times> json) list \<Rightarrow> path list" where
  "schema_candidates p ms =
     (let get = map_of (member_places p ms);
          pick = (\<lambda>select key. case get key of None \<Rightarrow> [] | Some child \<Rightarrow> select child)
      in pick dict_values (ustr_of ''properties'')
         @ concat (map (pick dict_values) SCHEMA_MAP_KEYS)
         @ concat (map (pick (\<lambda>(q, v). if dict_or_bool v then [q] else [])) SCHEMA_KEYS)
         @ concat (map (pick list_items) SCHEMA_ARRAY_KEYS))"

function index_loop :: "json \<Rightarrow> path list \<Rightarrow> path list \<Rightarrow> (ustr \<times> path) list \<Rightarrow> (ustr \<times> path) list option" where
  "index_loop document [] visited anchors = Some anchors"
| "index_loop document (p # candidates) visited anchors =
     (if p \<in> set visited then index_loop document candidates visited anchors
      else
        (case dict_at document p of
           None \<Rightarrow> index_loop document candidates (p # visited) anchors
         | Some ms \<Rightarrow>
             (case add_anchors p ms [ustr_of ''$anchor'', ustr_of ''$dynamicAnchor''] anchors of
                None \<Rightarrow> None
              | Some anchors' \<Rightarrow> index_loop document (rev (schema_candidates p ms) @ candidates) (p # visited) anchors')))"
  by pat_completeness auto
termination
  by (relation "measures [\<lambda>(v, _, visited, _). unvisited (places v) visited, \<lambda>(_, candidates, _). length candidates]")
    (auto simp: unvisited_decreases place_iff unvisited_progress)

definition index_schema_anchors :: "json \<Rightarrow> (ustr \<times> path) list option" where
  "index_schema_anchors document = index_loop document [[]] [] []"


lemma add_anchors_Some:
  "add_anchors p ms names anchors = Some anchors' \<Longrightarrow> distinct (map fst anchors) \<Longrightarrow>
     distinct (map fst anchors')
     \<and> (\<forall>a \<in> set anchors'. a \<in> set anchors \<or> snd a = p \<and> (\<exists>keyword \<in> set names. (keyword, JStr (fst a)) \<in> set ms))"
proof (induction p ms names anchors rule: add_anchors.induct)
  case (2 p ms keyword names anchors)
  show ?case
  proof (cases "string_member ms keyword")
    case None
    then show ?thesis using "2.IH"(1) "2.prems" by auto
  next
    case (Some anchor)
    with "2.prems" have "anchor \<notin> fst ` set anchors" "add_anchors p ms names ((anchor, p) # anchors) = Some anchors'"
      by (auto split: if_splits)
    with "2.IH"(2) [OF Some] "2.prems"(2) string_member_Some [OF Some] show ?thesis by auto
  qed
qed auto

definition anchor_ok :: "json \<Rightarrow> ustr \<times> path \<Rightarrow> bool" where
  "anchor_ok document = (\<lambda>(name, p). \<exists>ms. node_at document p = Some (JDict ms)
     \<and> ((ustr_of ''$anchor'', JStr name) \<in> set ms \<or> (ustr_of ''$dynamicAnchor'', JStr name) \<in> set ms))"

lemma index_loop_Some:
  "index_loop document candidates visited anchors = Some anchors' \<Longrightarrow> distinct (map fst anchors) \<Longrightarrow> \<forall>a \<in> set anchors. anchor_ok document a
     \<Longrightarrow> distinct (map fst anchors') \<and> (\<forall>a \<in> set anchors'. anchor_ok document a)"
proof (induction document candidates visited anchors rule: index_loop.induct)
  case (2 document p candidates visited anchors)
  show ?case
  proof (cases "p \<in> set visited")
    case True
    then show ?thesis using "2.IH"(1) "2.prems" by simp
  next
    case False
    show ?thesis
    proof (cases "dict_at document p")
      case None
      then show ?thesis using "2.IH"(2) [OF False None] "2.prems" False by simp
    next
      case (Some ms)
      with "2.prems"(1) False obtain anchors1 where
        a: "add_anchors p ms [ustr_of ''$anchor'', ustr_of ''$dynamicAnchor''] anchors = Some anchors1"
        by (auto split: option.splits)
      note new = add_anchors_Some [OF a "2.prems"(2)]
      have ok: "\<forall>a \<in> set anchors1. anchor_ok document a"
        using new "2.prems"(3) Some by (fastforce simp: anchor_ok_def)
      have "index_loop document (rev (schema_candidates p ms) @ candidates) (p # visited) anchors1 = Some anchors'"
        using "2.prems"(1) False Some a by simp
      from "2.IH"(3) [OF False Some a this] new ok show ?thesis by blast
    qed
  qed
qed auto

text \<open>The anchors of an index are distinct, and each leads to a dictionary of the document that declares it.\<close>

lemma index_schema_anchors_ok:
  "index_schema_anchors document = Some anchors \<Longrightarrow> distinct (map fst anchors) \<and> (\<forall>a \<in> set anchors. anchor_ok document a)"
  unfolding index_schema_anchors_def by (erule index_loop_Some) auto

fun is_str :: "json \<Rightarrow> bool" where
  "is_str (JStr _) = True"
| "is_str _ = False"

section \<open>References\<close>

text \<open>\<open>unquote\<close> with its default error handler; \<open>int\<close> of a text that \<open>isdigit\<close> accepts, \<open>None\<close> a value error.\<close>

record schema_externals = pattern_externals +
  unquote_text :: "ustr \<Rightarrow> ustr"
  is_digit :: "ustr \<Rightarrow> bool"
  int_text :: "ustr \<Rightarrow> nat option"

fun replace_pair :: "nat \<Rightarrow> nat \<Rightarrow> nat \<Rightarrow> ustr \<Rightarrow> ustr" where
  "replace_pair a b r (x # y # cs) =
     (if x = a \<and> y = b then r # replace_pair a b r cs else x # replace_pair a b r (y # cs))"
| "replace_pair a b r cs = cs"

text \<open>\<open>~1\<close> is a slash and \<open>~0\<close> a tilde.\<close>

definition pointer_part :: "ustr \<Rightarrow> ustr" where
  "pointer_part s = replace_pair 126 48 126 (replace_pair 126 49 47 s)"

definition member_index :: "ustr \<Rightarrow> (ustr \<times> json) list \<Rightarrow> nat option" where
  "member_index k ms = find (\<lambda>i. fst (ms ! i) = k) [0..<length ms]"

text \<open>\<open>None\<close> is a value error, \<open>Some None\<close> a reference to nothing.\<close>

fun walk_pointer :: "'e schema_externals_scheme \<Rightarrow> json \<Rightarrow> path \<Rightarrow> ustr list \<Rightarrow> path option option" where
  "walk_pointer ext current p [] = Some (Some p)"
| "walk_pointer ext current p (encoded_part # parts) =
     (let part = pointer_part encoded_part
      in case current of
           JDict ms \<Rightarrow>
             (case member_index part ms of
                None \<Rightarrow> Some None
              | Some i \<Rightarrow> walk_pointer ext (snd (ms ! i)) (p @ [i]) parts)
         | JList xs \<Rightarrow>
             if is_digit ext part
             then (case int_text ext part of
                     None \<Rightarrow> None
                   | Some n \<Rightarrow> if n < length xs then walk_pointer ext (xs ! n) (p @ [n]) parts else Some None)
             else Some None
         | _ \<Rightarrow> Some None)"

definition resolve_local_schema_reference ::
  "'e schema_externals_scheme \<Rightarrow> json \<Rightarrow> ustr \<Rightarrow> (ustr \<times> path) list \<Rightarrow> path option option" where
  "resolve_local_schema_reference ext document reference anchors =
     (let fragment = unquote_text ext (tl reference)
      in if fragment = [] then Some (Some [])
         else if hd fragment = 47 then walk_pointer ext document [] (split_on 47 (tl fragment))
         else Some (map_of anchors fragment))"

section \<open>The screen\<close>

text \<open>What the visit of an object does: raise, find something, or push places with their contexts.\<close>

datatype visit = Fails | Alarm | Pushes "(path \<times> bool) list"

fun json_text :: "json \<Rightarrow> ustr" where
  "json_text (JStr s) = s"
| "json_text _ = []"

definition named_values :: "(ustr \<Rightarrow> bool) \<Rightarrow> path \<times> json \<Rightarrow> (path \<times> bool) list" where
  "named_values context = (\<lambda>(p, v). case v of JDict ms \<Rightarrow> map (\<lambda>(k, q, _). (q, context k)) (member_places p ms) | _ \<Rightarrow> [])"

definition visit_member ::
  "'e schema_externals_scheme \<Rightarrow> json \<Rightarrow> (ustr \<times> path) list \<Rightarrow> bool \<Rightarrow> ustr \<times> path \<times> json \<Rightarrow> visit" where
  "visit_member ext document anchors sensitive = (\<lambda>(key, q, child).
     if sensitive \<and> reference_key key \<and> local_reference child
     then (case resolve_local_schema_reference ext document (json_text child) anchors of
             None \<Rightarrow> Fails
           | Some None \<Rightarrow> Pushes []
           | Some (Some t) \<Rightarrow> Pushes [(t, True)])
     else if key = ustr_of ''properties'' \<and> is_dict child
     then Pushes (named_values (\<lambda>k. sensitive \<or> is_sensitive_field ext k) (q, child))
     else if (key = ustr_of ''patternProperties'' \<or> key = ustr_of ''dependentSchemas'') \<and> is_dict child
     then Pushes (named_values (\<lambda>k. sensitive
            \<or> (if key = ustr_of ''patternProperties'' then pattern_matches_sensitive_field ext k else is_sensitive_field ext k)) (q, child))
     else if key \<in> set SCHEMA_MAP_KEYS \<and> is_dict child then Pushes (map (\<lambda>t. (t, sensitive)) (dict_values (q, child)))
     else if key \<in> set SCHEMA_KEYS \<and> dict_or_bool child then Pushes [(q, sensitive)]
     else if key \<in> set SCHEMA_ARRAY_KEYS \<and> is_list child then Pushes (map (\<lambda>t. (t, sensitive)) (list_items (q, child)))
     else if sensitive \<and> literal_key key \<and> contains_obvious_secret_in_json ext child True then Alarm
     else if sensitive \<and> key \<in> set ANNOTATION_KEYS \<and> is_str child
        \<and> (looks_like_secret_candidate ext (json_text child) \<or> text_contains_secret ext (json_text child)) then Alarm
     else if \<not> literal_key key \<and> json_is_sensitive ext (JDict [(key, child)]) then Alarm
     else if literal_key key \<and> json_is_sensitive ext child then Alarm
     else Pushes [])"

fun visit_all :: "('a \<Rightarrow> visit) \<Rightarrow> 'a list \<Rightarrow> visit" where
  "visit_all f [] = Pushes []"
| "visit_all f (m # ms) =
     (case f m of
        Pushes es \<Rightarrow> (case visit_all f ms of Pushes es' \<Rightarrow> Pushes (es @ es') | r \<Rightarrow> r)
      | r \<Rightarrow> r)"

definition visit_object ::
  "'e schema_externals_scheme \<Rightarrow> json \<Rightarrow> (ustr \<times> path) list \<Rightarrow> path \<times> bool \<Rightarrow> visit" where
  "visit_object ext document anchors = (\<lambda>(p, sensitive).
     (case node_at document p of
        None \<Rightarrow> Pushes []
      | Some (JDict ms) \<Rightarrow> visit_all (visit_member ext document anchors sensitive) (member_places p ms)
      | Some (JStr s) \<Rightarrow> if (sensitive \<and> looks_like_secret_candidate ext s) \<or> text_contains_secret ext s then Alarm else Pushes []
      | Some v \<Rightarrow> if sensitive \<and> long_number ext v then Alarm else Pushes []))"

text \<open>\<open>Some\<close> is a return, \<open>None\<close> a value error.\<close>

function sensitive_loop ::
  "'e schema_externals_scheme \<Rightarrow> json \<Rightarrow> (ustr \<times> path) list \<Rightarrow> (path \<times> bool) list \<Rightarrow> (path \<times> bool) list \<Rightarrow> bool option" where
  "sensitive_loop ext document anchors [] visited = Some False"
| "sensitive_loop ext document anchors (e # stack) visited =
     (if e \<in> set visited then sensitive_loop ext document anchors stack visited
      else
        (case visit_object ext document anchors e of
           Fails \<Rightarrow> None
         | Alarm \<Rightarrow> Some True
         | Pushes es \<Rightarrow> sensitive_loop ext document anchors (rev es @ stack) (e # visited)))"
  by pat_completeness auto
termination
proof (relation "measures [\<lambda>(_, v, _, _, visited). unvisited (places v \<times> UNIV) visited, \<lambda>(_, _, _, stack, _). length stack]", goal_cases)
  case (3 ext document anchors e stack visited es)
  show ?case
  proof (cases "e \<in> places document \<times> UNIV")
    case True
    then show ?thesis using 3(1) by (simp add: unvisited_decreases)
  next
    case False
    then have "node_at document (fst e) = None" by (cases e) (auto simp: places_def)
    then have "es = []" using 3(2) by (cases e) (simp add: visit_object_def)
    then show ?thesis using False by (simp add: unvisited_same)
  qed
qed auto

definition schema_is_sensitive :: "'e schema_externals_scheme \<Rightarrow> json \<Rightarrow> bool option" where
  "schema_is_sensitive ext document =
     (case index_schema_anchors document of
        None \<Rightarrow> Some True
      | Some anchors \<Rightarrow> sensitive_loop ext document anchors [([], False)] [])"

section \<open>What the screen of schemas finds\<close>

text \<open>The objects in their contexts that the screen may come to.\<close>

inductive schema_reach :: "'e schema_externals_scheme \<Rightarrow> json \<Rightarrow> (ustr \<times> path) list \<Rightarrow> path \<times> bool \<Rightarrow> bool"
  for ext document anchors where
  start: "schema_reach ext document anchors ([], False)"
| push: "schema_reach ext document anchors e \<Longrightarrow> visit_object ext document anchors e = Pushes es \<Longrightarrow> e' \<in> set es
    \<Longrightarrow> schema_reach ext document anchors e'"

lemma sensitive_loop_stops:
  assumes "\<forall>e \<in> set stack. schema_reach ext document anchors e"
  shows "(sensitive_loop ext document anchors stack visited = Some True
       \<longrightarrow> (\<exists>e. schema_reach ext document anchors e \<and> visit_object ext document anchors e = Alarm))
     \<and> (sensitive_loop ext document anchors stack visited = None
       \<longrightarrow> (\<exists>e. schema_reach ext document anchors e \<and> visit_object ext document anchors e = Fails))"
  using assms
proof (induction ext document anchors stack visited rule: sensitive_loop.induct)
  case (2 ext document anchors e stack visited)
  show ?case
  proof (cases "e \<in> set visited")
    case True
    then show ?thesis using "2.IH"(1) "2.prems" by simp
  next
    case False
    show ?thesis
    proof (cases "visit_object ext document anchors e")
      case (Pushes es)
      have "\<forall>x \<in> set (rev es @ stack). schema_reach ext document anchors x"
        using "2.prems" Pushes by (auto intro: schema_reach.push)
      from "2.IH"(2) [OF False Pushes this] show ?thesis using False Pushes by simp
    qed (use "2.prems" False in \<open>auto simp del: split_paired_Ex\<close>)
  qed
qed simp

text \<open>A return without alarm leaves a set of visited objects that is closed under pushes.\<close>

lemma sensitive_loop_closed:
  assumes "sensitive_loop ext document anchors stack visited = Some False"
    and "\<forall>e \<in> set visited. \<exists>es. visit_object ext document anchors e = Pushes es \<and> set es \<subseteq> set visited \<union> set stack"
  shows "\<exists>closed. set visited \<union> set stack \<subseteq> closed
     \<and> (\<forall>e \<in> closed. \<exists>es. visit_object ext document anchors e = Pushes es \<and> set es \<subseteq> closed)"
  using assms
proof (induction ext document anchors stack visited rule: sensitive_loop.induct)
  case (1 ext document anchors visited)
  then show ?case by (intro exI [of _ "set visited"]) simp
next
  case (2 ext document anchors e stack visited)
  show ?case
  proof (cases "e \<in> set visited")
    case True
    have "set visited \<union> set (e # stack) = set visited \<union> set stack" using True by auto
    with True "2.IH"(1) [OF True] "2.prems" show ?thesis by simp
  next
    case False
    with "2.prems"(1) obtain es where v: "visit_object ext document anchors e = Pushes es"
      and l: "sensitive_loop ext document anchors (rev es @ stack) (e # visited) = Some False"
      by (auto split: visit.splits)
    have "\<forall>x \<in> set (e # visited). \<exists>es'. visit_object ext document anchors x = Pushes es'
        \<and> set es' \<subseteq> set (e # visited) \<union> set (rev es @ stack)"
      using "2.prems"(2) v by fastforce
    from "2.IH"(2) [OF False v l this] obtain closed where
      "set (e # visited) \<union> set (rev es @ stack) \<subseteq> closed"
      "\<forall>x \<in> closed. \<exists>es. visit_object ext document anchors x = Pushes es \<and> set es \<subseteq> closed" by blast
    then show ?thesis by (intro exI [of _ closed]) auto
  qed
qed

lemma sensitive_loop_clean:
  assumes "sensitive_loop ext document anchors [([], False)] [] = Some False" "schema_reach ext document anchors e"
  shows "\<exists>es. visit_object ext document anchors e = Pushes es"
proof -
  obtain closed where c: "([], False) \<in> closed"
    "\<forall>e \<in> closed. \<exists>es. visit_object ext document anchors e = Pushes es \<and> set es \<subseteq> closed"
    using sensitive_loop_closed [OF assms(1)] by auto
  from assms(2) have "e \<in> closed" by (induction rule: schema_reach.induct) (use c in force)+
  with c(2) show ?thesis by blast
qed

lemma schema_is_sensitive_iff:
  assumes "index_schema_anchors document = Some anchors"
  shows "schema_is_sensitive ext document = Some False
     \<longleftrightarrow> (\<forall>e. schema_reach ext document anchors e \<longrightarrow> (\<exists>es. visit_object ext document anchors e = Pushes es))"
proof
  assume "schema_is_sensitive ext document = Some False"
  then show "\<forall>e. schema_reach ext document anchors e \<longrightarrow> (\<exists>es. visit_object ext document anchors e = Pushes es)"
    using sensitive_loop_clean [of ext document anchors] assms
    by (simp add: schema_is_sensitive_def del: sensitive_loop.simps split_paired_All split_paired_Ex)
next
  assume clean: "\<forall>e. schema_reach ext document anchors e \<longrightarrow> (\<exists>es. visit_object ext document anchors e = Pushes es)"
  have start: "\<forall>e \<in> set [([], False)]. schema_reach ext document anchors e" by (simp add: schema_reach.start)
  have "sensitive_loop ext document anchors [([], False)] [] \<noteq> Some True" "sensitive_loop ext document anchors [([], False)] [] \<noteq> None"
    using sensitive_loop_stops [OF start, of "[]"] clean by (metis visit.distinct(3,5))+
  then show "schema_is_sensitive ext document = Some False" using assms by (auto simp: schema_is_sensitive_def simp del: sensitive_loop.simps)
qed

text \<open>Every member of an object that was visited without alarm was.\<close>

lemma visit_all_Pushes:
  "visit_all f ms = Pushes es \<Longrightarrow> m \<in> set ms \<Longrightarrow> \<exists>es'. f m = Pushes es' \<and> set es' \<subseteq> set es"
  by (induction f ms arbitrary: es rule: visit_all.induct) (fastforce split: visit.splits)+

lemma node_at_append: "node_at v (p @ q) = Option.bind (node_at v p) (\<lambda>u. node_at u q)"
  by (induction v p rule: node_at.induct) auto

lemma member_place:
  assumes "(k, v) \<in> set ms"
  obtains i where "i < length ms" "ms ! i = (k, v)" "(k, p @ [i], v) \<in> set (member_places p ms)"
proof -
  obtain i where i: "i < length ms" "ms ! i = (k, v)" using assms by (auto simp: in_set_conv_nth)
  then have "(i, k, v) \<in> set (List.enumerate 0 ms)" by (auto simp: in_set_enumerate_eq)
  then have "(k, p @ [i], v) \<in> set (member_places p ms)" unfolding member_places_def by force
  with i show ?thesis by (rule that)
qed

lemma node_at_member: "node_at v p = Some (JDict ms) \<Longrightarrow> i < length ms \<Longrightarrow> node_at v (p @ [i]) = Some (snd (ms ! i))"
  by (simp add: node_at_append)

text \<open>What a clean visit says about each member of an object, and where it leads.\<close>

lemma clean_member:
  assumes "schema_is_sensitive ext document = Some False" "index_schema_anchors document = Some anchors"
    and "schema_reach ext document anchors (p, c)" "node_at document p = Some (JDict ms)" "(k, child) \<in> set ms"
  obtains i es where "i < length ms" "ms ! i = (k, child)" "visit_member ext document anchors c (k, p @ [i], child) = Pushes es"
    "\<forall>e \<in> set es. schema_reach ext document anchors e"
proof -
  obtain es where v: "visit_object ext document anchors (p, c) = Pushes es"
    using assms(1-3) schema_is_sensitive_iff by blast
  then have all: "visit_all (visit_member ext document anchors c) (member_places p ms) = Pushes es"
    by (simp add: visit_object_def assms(4))
  obtain i where i: "i < length ms" "ms ! i = (k, child)" "(k, p @ [i], child) \<in> set (member_places p ms)"
    using member_place [OF assms(5)] by blast
  from visit_all_Pushes [OF all i(3)] obtain es' where
    es': "visit_member ext document anchors c (k, p @ [i], child) = Pushes es'" "set es' \<subseteq> set es" by blast
  have "\<forall>e \<in> set es'. schema_reach ext document anchors e"
    using es'(2) schema_reach.push [OF assms(3) v] by blast
  with i(1,2) es'(1) show ?thesis by (rule that)
qed

lemma clean_property:
  assumes "schema_is_sensitive ext document = Some False" "index_schema_anchors document = Some anchors"
    and "schema_reach ext document anchors (p, c)" "node_at document p = Some (JDict ms)"
    and "(ustr_of ''properties'', JDict props) \<in> set ms" "(name, schema) \<in> set props"
  shows "\<exists>q. node_at document q = Some schema \<and> schema_reach ext document anchors (q, c \<or> is_sensitive_field ext name)"
proof -
  obtain i es where i: "i < length ms" "ms ! i = (ustr_of ''properties'', JDict props)"
    and v: "visit_member ext document anchors c (ustr_of ''properties'', p @ [i], JDict props) = Pushes es"
    and r: "\<forall>e \<in> set es. schema_reach ext document anchors e" by (rule clean_member [OF assms(1-5)])
  have es: "es = map (\<lambda>(k, q, _). (q, c \<or> is_sensitive_field ext k)) (member_places (p @ [i]) props)"
    using v by (simp add: visit_member_def named_values_def is_dict_def reference_key_def local_reference_def split: if_splits)
  obtain j where j: "j < length props" "props ! j = (name, schema)" "(name, (p @ [i]) @ [j], schema) \<in> set (member_places (p @ [i]) props)"
    using member_place [OF assms(6)] by blast
  have "node_at document (p @ [i]) = Some (JDict props)" using node_at_member [OF assms(4) i(1)] i(2) by simp
  then have "node_at document ((p @ [i]) @ [j]) = Some schema" using node_at_member j(1,2) by fastforce
  moreover have "((p @ [i]) @ [j], c \<or> is_sensitive_field ext name) \<in> set es" using j(3) unfolding es by force
  ultimately show ?thesis using r by blast
qed

lemma clean_reference:
  assumes "schema_is_sensitive ext document = Some False" "index_schema_anchors document = Some anchors"
    and "schema_reach ext document anchors (p, True)" "node_at document p = Some (JDict ms)"
    and "(k, JStr reference) \<in> set ms" "reference_key k" "take 1 reference = [35]"
  shows "\<exists>target. resolve_local_schema_reference ext document reference anchors = Some target
     \<and> (\<forall>q. target = Some q \<longrightarrow> schema_reach ext document anchors (q, True))"
proof -
  obtain i es where v: "visit_member ext document anchors True (k, p @ [i], JStr reference) = Pushes es"
    and r: "\<forall>e \<in> set es. schema_reach ext document anchors e" by (rule clean_member [OF assms(1-5)])
  then show ?thesis using assms(6,7)
    by (auto simp: visit_member_def local_reference_def split: option.splits)
qed

definition plain_key :: "ustr \<Rightarrow> bool" where
  "plain_key k \<longleftrightarrow> \<not> reference_key k
     \<and> k \<notin> set (map ustr_of [''properties'', ''patternProperties'', ''dependentSchemas''] @ SCHEMA_MAP_KEYS @ SCHEMA_KEYS @ SCHEMA_ARRAY_KEYS)"

lemma literal_keys_plain: "\<forall>k \<in> set (map ustr_of [''const'', ''default'', ''enum'', ''example'', ''examples'']). plain_key k"
  by code_simp

lemma literal_key_plain: "literal_key k \<Longrightarrow> plain_key k"
  using literal_keys_plain by (auto simp: literal_key_def)

lemma clean_literal:
  assumes "schema_is_sensitive ext document = Some False" "index_schema_anchors document = Some anchors"
    and "schema_reach ext document anchors (p, c)" "node_at document p = Some (JDict ms)"
    and "(k, child) \<in> set ms" "literal_key k"
  shows "\<not> contains_obvious_secret_in_json ext child c"
proof -
  note other = literal_key_plain [OF assms(6)]
  obtain i es where "visit_member ext document anchors c (k, p @ [i], child) = Pushes es"
    by (rule clean_member [OF assms(1-5)])
  then show ?thesis using other assms(6)
    by (cases c) (auto simp: plain_key_def visit_member_def json_is_sensitive_def split: if_splits)
qed

section \<open>The screens in their place\<close>

text \<open>The rules for metadata with the screens of this library; a value error of the schema screen is a rejection
  as well.\<close>

definition metadata_screens :: "'e schema_externals_scheme \<Rightarrow> float_repr \<Rightarrow> meta_externals" where
  "metadata_screens ext fr = \<lparr>urlsplit = urlsplit ext, str_lower = str_lower ext, ip_address = ip_address ext,
     idna_encode = idna_encode ext, inet_aton = inet_aton ext, unquote_strict = unquote_strict ext,
     contains_obvious_secret = text_contains_secret ext, contains_sensitive_hostname = hostname_is_sensitive ext,
     contains_sensitive_url_path = url_path_is_sensitive ext,
     contains_sensitive_schema = (\<lambda>v. schema_is_sensitive ext v \<noteq> Some False), meta_float_repr = fr\<rparr>"

lemma validated_schema_screened:
  assumes "validate_schema_payload (metadata_screens ext fr) input output" "document \<in> set (schema_roots input output)"
  shows "schema_is_sensitive ext document = Some False" "index_schema_anchors document \<noteq> None"
proof -
  show "schema_is_sensitive ext document = Some False"
    using assms by (auto simp: validate_schema_payload_def metadata_screens_def Let_def list_ex_iff split: if_splits option.splits)
  then show "index_schema_anchors document \<noteq> None"
    by (cases "index_schema_anchors document") (simp_all add: schema_is_sensitive_def del: sensitive_loop.simps)
qed

text \<open>What is known of an object screened in a context: the schemas of its properties are screened, as sensitive
  below a sensitive name; in a sensitive context its local references can be resolved and what they refer
  to is screened as sensitive; no literal of it holds a secret by the JSON screen in its context.\<close>

definition object_screened ::
  "'e schema_externals_scheme \<Rightarrow> json \<Rightarrow> (ustr \<times> path) list \<Rightarrow> bool \<Rightarrow> (ustr \<times> json) list \<Rightarrow> bool" where
  "object_screened ext document anchors c ms \<longleftrightarrow>
     (\<forall>props name schema. (ustr_of ''properties'', JDict props) \<in> set ms \<and> (name, schema) \<in> set props \<longrightarrow>
        (\<exists>q. node_at document q = Some schema \<and> schema_reach ext document anchors (q, c \<or> is_sensitive_field ext name)))
     \<and> (\<forall>k reference. c \<and> (k, JStr reference) \<in> set ms \<and> reference_key k \<and> take 1 reference = [35] \<longrightarrow>
        (\<exists>target. resolve_local_schema_reference ext document reference anchors = Some target
           \<and> (\<forall>q. target = Some q \<longrightarrow> schema_reach ext document anchors (q, True))))
     \<and> (\<forall>k child. (k, child) \<in> set ms \<and> literal_key k \<longrightarrow> \<not> contains_obvious_secret_in_json ext child c)"

lemma clean_object_screened:
  assumes "schema_is_sensitive ext document = Some False" "index_schema_anchors document = Some anchors"
    and "schema_reach ext document anchors (p, c)" "node_at document p = Some (JDict ms)"
  shows "object_screened ext document anchors c ms"
  unfolding object_screened_def
proof (intro allI impI conjI; elim conjE)
  fix k reference
  assume "c" "(k, JStr reference) \<in> set ms" "reference_key k" "take 1 reference = [35]"
  with assms(3) show "\<exists>target. resolve_local_schema_reference ext document reference anchors = Some target
           \<and> (\<forall>q. target = Some q \<longrightarrow> schema_reach ext document anchors (q, True))"
    by (intro clean_reference [OF assms(1,2) _ assms(4)]) simp_all
next
  fix props name schema
  assume "(ustr_of ''properties'', JDict props) \<in> set ms" "(name, schema) \<in> set props"
  then show "\<exists>q. node_at document q = Some schema \<and> schema_reach ext document anchors (q, c \<or> is_sensitive_field ext name)"
    by (rule clean_property [OF assms])
next
  fix k child assume "(k, child) \<in> set ms" "literal_key k"
  then show "\<not> contains_obvious_secret_in_json ext child c" by (rule clean_literal [OF assms])
qed


text \<open>A schema that refers to itself below a sensitive property.\<close>

definition demo_schema_externals :: schema_externals where
  "demo_schema_externals = pattern_externals.extend demo_patterns (schema_externals.fields (\<lambda>s. s) (\<lambda>_. False) (\<lambda>_. None))"

definition demo_cyclic_property :: json where
  "demo_cyclic_property = JDict [(ustr_of ''$ref'', JStr (ustr_of ''#'')), (ustr_of ''default'', JStr (ustr_of ''none''))]"

definition demo_cyclic_schema :: json where
  "demo_cyclic_schema = JDict [(ustr_of ''properties'', JDict [(ustr_of ''apiKey'', demo_cyclic_property)])]"

lemma demo_cyclic_clean: "schema_is_sensitive demo_schema_externals demo_cyclic_schema = Some False"
  by code_simp

lemma demo_api_key: "is_sensitive_field demo_schema_externals (ustr_of ''apiKey'')"
  by code_simp

lemma demo_cyclic_valid: "validate_schema_payload (metadata_screens demo_schema_externals (\<lambda>_. [])) demo_cyclic_schema None"
proof -
  let ?ext = "metadata_screens demo_schema_externals (\<lambda>_. [])"
  have "(case dumps_plain (meta_float_repr ?ext) (JList (schema_roots demo_cyclic_schema None)) of
      None \<Rightarrow> False | Some t \<Rightarrow> \<not> contains_obvious_secret ?ext t
        \<and> (case utf8 t of None \<Rightarrow> False | Some e \<Rightarrow> length e \<le> 200))"
    by code_simp
  then obtain t e where "dumps_plain (meta_float_repr ?ext) (JList (schema_roots demo_cyclic_schema None)) = Some t"
    "utf8 t = Some e" "length e \<le> 200" "\<not> contains_obvious_secret ?ext t" by (auto split: option.splits)
  moreover have "bounded_loop (rev (map (\<lambda>r. (r, 1)) (schema_roots demo_cyclic_schema None))) 0" by code_simp
  moreover have "\<not> contains_sensitive_schema ?ext demo_cyclic_schema" using demo_cyclic_clean by (simp add: metadata_screens_def)
  ultimately show ?thesis by (simp add: validate_schema_payload_def Let_def schema_roots_def del: dumps_plain.simps)
qed


section \<open>Limits of the screen\<close>

text \<open>A list that stands where a schema is expected is not looked into, although the JSON screen would find the
  secret in it.\<close>

lemma list_for_schema_not_screened: "node_at document p = Some (JList xs) \<Longrightarrow> visit_object ext document anchors (p, c) = Pushes []"
  by (simp add: visit_object_def)

definition demo_list_schema :: json where
  "demo_list_schema = JDict [(ustr_of ''properties'', JDict [(ustr_of ''a'', JList [demo_secret_document])])]"

lemma demo_list_schema_passes:
  "schema_is_sensitive demo_schema_externals demo_list_schema = Some False" "json_is_sensitive demo_schema_externals demo_list_schema"
  by code_simp+

text \<open>A pointer into a list whose index is made of digits that \<open>int\<close> does not read makes the screen raise.\<close>

lemma odd_digit_raises:
  assumes "is_digit ext (pointer_part part)" "int_text ext (pointer_part part) = None"
  shows "walk_pointer ext (JList xs) p (part # parts) = None"
  using assms by (simp add: Let_def)

end
