(* ===== verification/Worker_Tasks.thy ===== *)
theory Worker_Tasks
  imports Exec_Runner Catalog_Service Api_Idempotency Exec_Props
begin

text \<open>
  What the worker process does beside running invocations: loading the keyrings of the execution service
  (\<^verbatim>\<open>execution/runtime.py\<close>) and the maintenance passes (\<open>_run_maintenance\<close> of \<^verbatim>\<open>worker/main.py\<close>).
\<close>

section \<open>Keyrings\<close>

definition CONFIRMATION_KEY_REFERENCE :: ustr where "CONFIRMATION_KEY_REFERENCE = ustr_of ''system-confirmation-hmac''"
definition IDEMPOTENCY_KEY_REFERENCE :: ustr where "IDEMPOTENCY_KEY_REFERENCE = ustr_of ''system-idempotency-hmac''"

fun load_keyring ::
  "file_system \<Rightarrow> secret_provider \<Rightarrow> ustr \<Rightarrow> ustr \<Rightarrow> string list \<Rightarrow> svc_error + HmacKeyVersion list" where
  "load_keyring fs provider provider_name reference [] = Inr []"
| "load_keyring fs provider provider_name reference (version # versions) =
     and_then (retrieve fs provider \<lparr>sr_provider = provider_name, sr_external_reference = reference, sr_version = ustr_of version\<rparr>)
       (\<lambda>secret.
          if length secret < 32 then Inl ValueError
          else map_sum id ((#) \<lparr>hk_version = version, hk_secret = secret\<rparr>)
                 (load_keyring fs provider provider_name reference versions))"

definition fixture_keys :: "secret_settings \<Rightarrow> string list \<Rightarrow> string list \<Rightarrow> ((ustr \<times> ustr) \<times> bytes) list" where
  "fixture_keys settings confirmation_versions idempotency_versions =
     (if local_or_test (set_environment settings) \<and> set_secret_provider settings = ustr_of ''fixture''
      then map (\<lambda>v. ((CONFIRMATION_KEY_REFERENCE, ustr_of v), bytes_of (''local-confirmation-'' @ v @ ''-key-material''))) confirmation_versions
         @ map (\<lambda>v. ((IDEMPOTENCY_KEY_REFERENCE, ustr_of v), bytes_of (''local-idempotency-'' @ v @ ''-key-material''))) idempotency_versions
      else [])"

definition build_execution_keyrings ::
  "(ustr \<Rightarrow> ustr option) \<Rightarrow> file_system \<Rightarrow> secret_settings \<Rightarrow> string list \<Rightarrow> string list
     \<Rightarrow> svc_error + HmacKeyVersion list \<times> HmacKeyVersion list" where
  "build_execution_keyrings resolve_directory fs settings confirmation_versions idempotency_versions =
     and_then (build_secret_provider resolve_directory settings (fixture_keys settings confirmation_versions idempotency_versions))
       (\<lambda>provider.
     and_then (load_keyring fs provider (set_secret_provider settings) CONFIRMATION_KEY_REFERENCE confirmation_versions) (\<lambda>confirmation.
     and_then (load_keyring fs provider (set_secret_provider settings) IDEMPOTENCY_KEY_REFERENCE idempotency_versions) (\<lambda>idempotency.
       Inr (confirmation, idempotency))))"

lemma load_keyring_Inr:
  "load_keyring fs provider name reference versions = Inr keys \<Longrightarrow>
     map hk_version keys = versions \<and> (\<forall>k \<in> set keys. 32 \<le> length (hk_secret k))"
  by (induction fs provider name reference versions arbitrary: keys rule: load_keyring.induct)
    (auto simp: and_then_Inr map_sum_Inr_iff split: if_splits)

text \<open>A loaded keyring passes the check of the service when the configured versions are well formed.\<close>

lemma loaded_keyring_valid:
  assumes "load_keyring fs provider name reference versions = Inr keys"
    and "versions \<noteq> []" "int (length versions) \<le> max_historical_hmac_keys limits" "distinct versions" "list_all key_version_ok versions"
  shows "validate_keyring limits keys = Inr keys"
proof -
  have v: "map hk_version keys = versions" "\<forall>k \<in> set keys. 32 \<le> length (hk_secret k)"
    using load_keyring_Inr [OF assms(1)] by auto
  then have "length keys = length versions" "\<forall>k \<in> set keys. key_version_ok (hk_version k)"
    using assms(5) by (auto simp: list_all_iff)
  with v assms show ?thesis by (auto simp: validate_keyring_def list_ex_iff not_less)
qed

section \<open>Maintenance\<close>

record store =
  store_db :: db
  store_catalog :: catalog

record maintenance_world =
  mw_store :: "nat \<Rightarrow> store"
  mw_clock :: "nat \<Rightarrow> clock"
  mw_locked :: "uuid \<Rightarrow> bool"
  mw_locked_cache :: "RegistrySearchCache \<Rightarrow> bool"
  mw_broken :: "nat \<Rightarrow> bool"

definition on_db :: "('e + 'a \<times> db) \<Rightarrow> store \<Rightarrow> store option" where
  "on_db out st = (case out of Inl _ \<Rightarrow> None | Inr (_, d) \<Rightarrow> Some (st\<lparr>store_db := d\<rparr>))"

text \<open>The five operations, in order; \<open>None\<close> is any exception.\<close>

definition maintenance_operations :: "ExecutionLimits \<Rightarrow> maintenance_world \<Rightarrow> (string \<times> (clock \<Rightarrow> store \<Rightarrow> store option)) list" where
  "maintenance_operations limits w =
     [(''registry_cache_cleanup'', \<lambda>clock st.
         case purge_expired_registry_cache (mw_locked_cache w) (clock 0) CACHE_CLEANUP_BATCH_SIZE (store_catalog st) of
           Inl _ \<Rightarrow> None | Inr c \<Rightarrow> Some (st\<lparr>store_catalog := c\<rparr>)),
      (''api_idempotency_cleanup'', \<lambda>clock st. on_db (purge_expired_api_idempotency (clock 0) 500 (store_db st)) st),
      (''result_cleanup'', \<lambda>clock st. on_db (expire_retained_results 500 (mw_locked w) clock (store_db st)) st),
      (''argument_cleanup'', \<lambda>clock st. on_db (expire_retained_content 500 (mw_locked w) clock (store_db st)) st),
      (''run_metadata_cleanup'', \<lambda>clock st. on_db (delete_expired_run_metadata limits 500 (mw_locked w) clock (store_db st)) st)]"

text \<open>Each pass is a transaction of its own under its own timeout: an exception is noted and the next one follows.\<close>

fun run_passes ::
  "maintenance_world \<Rightarrow> nat \<Rightarrow> (string \<times> (clock \<Rightarrow> store \<Rightarrow> store option)) list \<Rightarrow> (string \<times> bool) list \<times> (store \<times> store) list" where
  "run_passes w i [] = ([], [])"
| "run_passes w i ((operation_name, operation) # rest) =
     (let (outcomes, commits) = run_passes w (Suc i) rest
      in case (if mw_broken w i then None else operation (mw_clock w i) (mw_store w i)) of
           None \<Rightarrow> ((operation_name, False) # outcomes, commits)
         | Some st \<Rightarrow> ((operation_name, True) # outcomes, (mw_store w i, st) # commits))"

definition run_maintenance :: "ExecutionLimits \<Rightarrow> maintenance_world \<Rightarrow> (string \<times> bool) list \<times> (store \<times> store) list" where
  "run_maintenance limits w = run_passes w 0 (maintenance_operations limits w)"

lemma run_passes_names: "map fst (fst (run_passes w i passes)) = map fst passes"
  by (induction w i passes rule: run_passes.induct) (auto simp: case_prod_unfold Let_def split: option.splits)

lemma run_passes_commits:
  "(st, st') \<in> set (snd (run_passes w i passes)) \<Longrightarrow> \<exists>name operation clock. (name, operation) \<in> set passes \<and> operation clock st = Some st'"
proof (induction w i passes rule: run_passes.induct)
  case (2 w i operation_name operation rest)
  obtain outcomes commits where r: "run_passes w (Suc i) rest = (outcomes, commits)" by (cases "run_passes w (Suc i) rest")
  consider "operation (mw_clock w i) (mw_store w i) = Some st'" "st = mw_store w i" | "(st, st') \<in> set commits"
    using "2.prems" r by (auto split: option.splits if_splits)
  then show ?case
  proof cases
    case 1
    then show ?thesis by (metis list.set_intros(1))
  next
    case 2
    then obtain name f clock where "(name, f) \<in> set rest" "f clock st = Some st'"
      using "2.IH" r by auto
    then show ?thesis by (metis list.set_intros(2))
  qed
qed simp

text \<open>Whatever happens to the others, every pass is attempted, and what is committed is a step of the execution
  protocol on the database or touches the catalog and the API records only.\<close>

lemma purge_api_exec_tables: "purge_expired_api_idempotency cutoff n d = Inr (k, d') \<Longrightarrow> exec_tables_same d d'"
  by (auto simp: purge_expired_api_idempotency_def exec_tables_same_def Let_def split: if_splits)

lemma run_maintenance_sound:
  "map fst (fst (run_maintenance limits w)) =
     [''registry_cache_cleanup'', ''api_idempotency_cleanup'', ''result_cleanup'', ''argument_cleanup'', ''run_metadata_cleanup'']"
  "(st, st') \<in> set (snd (run_maintenance limits w)) \<Longrightarrow>
     exec_step\<^sup>*\<^sup>* (store_db st, drawn) (store_db st', drawn)"
proof -
  show "map fst (fst (run_maintenance limits w)) =
     [''registry_cache_cleanup'', ''api_idempotency_cleanup'', ''result_cleanup'', ''argument_cleanup'', ''run_metadata_cleanup'']"
    unfolding run_maintenance_def run_passes_names by (simp add: maintenance_operations_def)
  assume "(st, st') \<in> set (snd (run_maintenance limits w))"
  then obtain name operation clock where "(name, operation) \<in> set (maintenance_operations limits w)" "operation clock st = Some st'"
    unfolding run_maintenance_def using run_passes_commits by blast
  then consider "store_db st' = store_db st" | k where "purge_expired_api_idempotency (clock 0) 500 (store_db st) = Inr (k, store_db st')"
    | k where "expire_retained_results 500 (mw_locked w) clock (store_db st) = Inr (k, store_db st')"
    | k where "expire_retained_content 500 (mw_locked w) clock (store_db st) = Inr (k, store_db st')"
    | k where "delete_expired_run_metadata limits 500 (mw_locked w) clock (store_db st) = Inr (k, store_db st')"
    by (auto simp: maintenance_operations_def on_db_def split: sum.splits)
  then show "exec_step\<^sup>*\<^sup>* (store_db st, drawn) (store_db st', drawn)"
    by cases (auto intro: r_into_rtranclp exec_step.expire_results exec_step.expire_content exec_step.delete exec_step.environment purge_api_exec_tables)
qed

end
