(* ===== verification/Spec2Isabelle.thy ===== *)
theory Spec2Isabelle
  imports Exec_Schema Exec_Quarantine System_Demo Upstream_Transport
    Rate_Limiter Api_Idempotency Secrets Catalog_Theorems Catalog_Permits
    Exec_Stage Reg_Contact Schema_Screen Worker_Tasks
begin

text \<open>
  A verification library of Modall, a control plane that runs tools of MCP servers on behalf of
  workspaces (Python, \<^verbatim>\<open>src/src/modall\<close>).

  \<^bold>\<open>The program.\<close> Administrators of a workspace store \<^emph>\<open>connections\<close> to MCP servers and append versions to
  them (\<^verbatim>\<open>registry/service.py\<close>). A refresh worker leases a refresh job, contacts the server and
  publishes what it listed (\<^verbatim>\<open>registry/discovery.py\<close>); every listed tool becomes a \<^emph>\<open>capability\<close> with
  immutable versions, which an administrator or operator approves or disables. A client then asks for
  a \<^emph>\<open>run\<close> of an approved capability: a preflight issues a confirmation token, \<open>create_run\<close> consumes it
  and admits the run; a worker leases the run's job, passes two fences, calls the tool through the MCP
  adapter and completes the run (\<^verbatim>\<open>execution/service.py\<close>, \<^verbatim>\<open>execution/runner.py\<close>, \<^verbatim>\<open>mcp_adapter/client.py\<close>). Operators can put the system into a restore quarantine, and retention
  passes expire content. All services share one SQL database (\<^verbatim>\<open>persistence/models.py\<close>); every public
  operation is one transaction that takes row locks and reads the database clock.

  \<^bold>\<open>The model.\<close> The database is the record \<open>db\<close>, one list of rows per table, each table a record with
  the columns of its class. An operation is a function \<open>args \<Rightarrow> db \<Rightarrow> svc_error + result \<times> db\<close>: an
  exception is \<open>Inl\<close> and leaves no trace, as the transaction is rolled back. Clock readings
  (\<open>clock n\<close> is the \<open>n\<close>-th reading of one call), fresh identifiers and the rows that \<open>skip_locked\<close>
  passes over are arguments, so the theorems hold for every clock, every draw and every interleaving
  of whole operations. SHA-256, HMAC, JWT, JSON Schema, the printing of floats, URL splitting, IDNA and
  address tables, compiled regular expressions and the MCP SDK are parameters. The registry and the
  adapter take the credential screens as arguments; \<open>metadata_screens\<close> supplies the modelled ones.

  \<^bold>\<open>The theories.\<close>
  \<^item> \<open>Prelude\<close>: rows, results, transition systems (locales \<open>row_store\<close>, \<open>machine\<close>).
  \<^item> \<open>Exec_Types\<close>, \<open>Domain_Types\<close>, \<open>Schema\<close>: enumerations, limits, tables.
  \<^item> \<open>Identity\<close>: users, workspaces, memberships, roles and authorization (\<^verbatim>\<open>identity/\<close>).
  \<^item> \<open>Json_Text\<close>, \<open>Wire_Text\<close>: bounded and canonical JSON, UTF-8, UUID and timestamp text.
  \<^item> \<open>Exec_Core\<close>, \<open>Exec_Worker\<close>, \<open>Exec_Control\<close>, \<open>Exec_Constraints\<close>, \<open>Exec_Admission\<close>: the execution
    service, operation by operation, and the constraints on its tables.
  \<^item> \<open>Lineage\<close>, \<open>Exec_Refine\<close>, \<open>Exec_Ops\<close>, \<open>Exec_Machine\<close>: the abstract life of one run, the refinement of
    the service to it, and the execution service as a transition system with its invariant.
  \<^item> \<open>Exec_Demo\<close>, \<open>Exec_Props\<close>, \<open>Exec_Schema\<close>, \<open>Exec_Lease\<close>, \<open>Exec_Quarantine\<close>: a worked history and the
    properties of runs, constraints, leases (locale \<open>lease_protocol\<close>) and the quarantine.
  \<^item> \<open>Endpoint_Rules\<close>, \<open>Meta_Rules\<close>: the rules for endpoint URLs and for tool metadata
    (\<^verbatim>\<open>security/\<close>, \<^verbatim>\<open>mcp_adapter/policy.py\<close>).
  \<^item> \<open>Reg_Connections\<close>, \<open>Reg_Capabilities\<close>, \<open>Reg_Discovery\<close>: the registry services.
  \<^item> \<open>Reg_Inv\<close>, \<open>Reg_Ops\<close>, \<open>Reg_Jobs\<close>, \<open>Reg_Publish\<close>, \<open>Reg_Machine\<close>: the invariants of the registry tables,
    their preservation by every operation, and the registry as a transition system.
  \<^item> \<open>Reg_Track\<close>, \<open>Reg_Lease\<close>, \<open>Reg_Demo\<close>, \<open>Reg_Schema\<close>, \<open>Reg_Props\<close>, \<open>Reg_Refresh\<close>: how rows move, epochs
    (locale \<open>epoch_guard\<close>), refresh leases, a worked history and the properties of the registry.
  \<^item> \<open>System\<close>, \<open>Revocation\<close>, \<open>System_Demo\<close>: execution and registry on one database, and revocation.
  \<^item> \<open>Byte_Match\<close>, \<open>Escape_Decoder\<close>: the incremental matcher and the JSON escape decoder that watch an
    upstream response (\<^verbatim>\<open>mcp_adapter/policy.py\<close>), equal to substring search and inverse to every spelling.
  \<^item> \<open>Upstream_Screen\<close>, \<open>Upstream_Stream\<close>, \<open>Upstream_Transport\<close>: the screens of JSON and event text, the
    bounded response body, the transport and pinned connections of the same file; \<open>Upstream_Props\<close> and
    \<open>Upstream_Theorems\<close> show that the body is delivered unchanged within its budget, that screening
    ends, and that no forbidden value passes unmarked. Here an operation that raises keeps its state,
    and one that does not return is \<open>None\<close>; no fuel is used.
  \<^item> \<open>Key_History\<close>, \<open>Api_Idempotency\<close>: the bounded probe for missing HMAC keys and the replay protection
    of API mutations (\<^verbatim>\<open>api/idempotency.py\<close>).
  \<^item> \<open>Rate_Limiter\<close>: the fixed-window limiter (\<^verbatim>\<open>ops/limits.py\<close>), refined from a per-minute counter.
  \<^item> \<open>Secret_Names\<close>, \<open>Secrets\<close>: file names of secrets, leases, providers and bindings (\<^verbatim>\<open>secrets/\<close>).
  \<^item> \<open>Catalog_Pages\<close>, \<open>Catalog_Service\<close>: the client of the official registry (\<^verbatim>\<open>registry/official.py\<close>): scanners,
    normalized items, the paged search, the cache, imports and the transaction that deletes refused rows
    after a rollback. \<open>Catalog_Items\<close>, \<open>Catalog_Cache\<close>, \<open>Catalog_Import\<close> and \<open>Catalog_Machine\<close> prove what a
    search delivers, that a stored search is found again, and the invariant of the catalog;
    \<open>Catalog_Permits\<close> is the semaphore of the scanner processes.

  \<^item> \<open>Adapter_Errors\<close>, \<open>Adapter_Invoke\<close>, \<open>Adapter_Outcome\<close>: the invocation of a tool (\<^verbatim>\<open>mcp_adapter/client.py\<close>);
    what the MCP SDK returned or raised at each call is an argument. A failed invocation tells exactly
    whether the call was dispatched.
  \<^item> \<open>Adapter_Schema\<close>, \<open>Adapter_Discover\<close>, \<open>Adapter_Listing\<close>: the bounded traversal of schemas and discovery; a
    listing is bounded, free of duplicates and passes every check of the publication.
  \<^item> \<open>Exec_Runner\<close>, \<open>Exec_Outcome\<close>, \<open>Exec_Calls\<close>, \<open>Exec_Record\<close>, \<open>Exec_Stage\<close>: the invocation runner; its commits
    are steps of the execution service (locale \<open>protocol_operation\<close>), the tool is called behind both fences
    and never twice, and what is recorded agrees with what the call did. Each transaction of a runner
    starts from its own database state, so other operations may come between.
  \<^item> \<open>Reg_Runner\<close>, \<open>Reg_Contact\<close>: the discovery runner (\<^verbatim>\<open>registry/runner.py\<close>).
  \<^item> \<open>Secret_Screens\<close>, \<open>Schema_Screen\<close>: the credential screens of \<^verbatim>\<open>security/metadata.py\<close>; the JSON screen and the
    schema screen, which follows references through cycles, find exactly what can be reached.
  \<^item> \<open>Worker_Tasks\<close>: keyrings (\<^verbatim>\<open>execution/runtime.py\<close>) and maintenance passes (\<^verbatim>\<open>worker/main.py\<close>).

  \<^bold>\<open>What is not modelled.\<close> The HTTP layer (FastAPI routes, pydantic contracts, OIDC verification), the
  polling loop of the worker, logging, metrics, settings, the command line, the database migrations and the
  child processes of scanners and validators are I/O and framework glue. The MCP SDK is a parameter. Row
  locking is represented by whole operations being atomic steps.
\<close>

end
